(* ===== verification/Prelude.thy ===== *)
theory Prelude
  imports Main
    "HOL-Library.Char_ord"
    "HOL-Library.List_Lexorder"
    "HOL-Library.Product_Lexorder"
    "HOL-Library.Sublist"
    "HOL-Library.Multiset"
begin

text \<open>
  Shared vocabulary of the development.

  \<^item> Identifiers and instants: a UUID is a natural number (only equality and the order of its
    fixed-width hexadecimal text are used); an instant is the number of nanoseconds since Go's zero
    time, so that the zero value of \<open>time.Time\<close> is \<open>0\<close>; a duration is a number of nanoseconds.
  \<^item> Go maps: association lists kept sorted by key, so that two maps with the same entries are the
    same value; \<open>gm_put\<close> and \<open>gm_del\<close> are assignment and \<open>delete\<close>, \<open>map_of\<close> is the lookup.
  \<^item> Go's \<open>(value, error)\<close> results: the sum type with \<open>Inl\<close> for the error, sequenced by
    \<open>bindE\<close>, \<open>mapE\<close> and \<open>foldE\<close>.
  \<^item> The relational vocabulary of the queries: \<open>distinct_on\<close> for PostgreSQL's \<open>DISTINCT ON\<close>,
    \<open>sort_key\<close> for \<open>ORDER BY\<close>, \<open>take\<close> for \<open>LIMIT\<close>.

  Strings are byte strings, as in Go.
\<close>

named_theorems gomap_simps \<open>rewriting of Go map operations\<close>
named_theorems sql_simps \<open>rewriting of query combinators\<close>

type_synonym uuid = nat
type_synonym gotime = int
type_synonym duration = int

abbreviation second :: duration where "second \<equiv> 1000000000"
abbreviation minute :: duration where "minute \<equiv> 60 * second"
abbreviation hour :: duration where "hour \<equiv> 60 * minute"

section \<open>Results\<close>

definition bindE :: "'e + 'a \<Rightarrow> ('a \<Rightarrow> 'e + 'b) \<Rightarrow> 'e + 'b" where
  "bindE r f = (case r of Inl e \<Rightarrow> Inl e | Inr a \<Rightarrow> f a)"

fun mapE :: "('a \<Rightarrow> 'e + 'b) \<Rightarrow> 'a list \<Rightarrow> 'e + 'b list" where
  "mapE f [] = Inr []"
| "mapE f (x # xs) = bindE (f x) (\<lambda>y. bindE (mapE f xs) (\<lambda>ys. Inr (y # ys)))"

fun foldE :: "('a \<Rightarrow> 's \<Rightarrow> 'e + 's) \<Rightarrow> 'a list \<Rightarrow> 's \<Rightarrow> 'e + 's" where
  "foldE f [] s = Inr s"
| "foldE f (x # xs) s = bindE (f x s) (foldE f xs)"

lemma bindE_simps [simp]:
  "bindE (Inl e) f = Inl e"
  "bindE (Inr a) f = f a"
  by (simp_all add: bindE_def)

lemma bindE_eq_Inr: "bindE r f = Inr y \<longleftrightarrow> (\<exists>x. r = Inr x \<and> f x = Inr y)"
  by (cases r) auto

lemma bindE_eq_Inl: "bindE r f = Inl e \<longleftrightarrow> r = Inl e \<or> (\<exists>x. r = Inr x \<and> f x = Inl e)"
  by (cases r) auto

lemma bindE_cong [fundef_cong]:
  "r = r' \<Longrightarrow> (\<And>a. r' = Inr a \<Longrightarrow> f a = g a) \<Longrightarrow> bindE r f = bindE r' g"
  by (cases r') auto

lemma mapE_cong [fundef_cong]:
  "xs = ys \<Longrightarrow> (\<And>x. x \<in> set ys \<Longrightarrow> f x = g x) \<Longrightarrow> mapE f xs = mapE g ys"
  by (induction ys arbitrary: xs) auto

lemma mapE_length: "mapE f xs = Inr ys \<Longrightarrow> length ys = length xs"
  by (induction xs arbitrary: ys) (auto simp: bindE_eq_Inr)

lemma mapE_all_Inr: "(\<And>x. x \<in> set xs \<Longrightarrow> f x = Inr (g x)) \<Longrightarrow> mapE f xs = Inr (map g xs)"
  by (induction xs) auto

lemma mapE_Inr_iff: "mapE f xs = Inr ys \<longleftrightarrow> list_all2 (\<lambda>x y. f x = Inr y) xs ys"
proof (induction xs arbitrary: ys)
  case (Cons x xs)
  show ?case by (cases ys) (auto simp: bindE_eq_Inr Cons.IH)
qed auto

lemma foldE_append: "foldE f (xs @ ys) s = bindE (foldE f xs s) (foldE f ys)"
proof (induction xs arbitrary: s)
  case (Cons x xs)
  then show ?case by (cases "f x s") auto
qed simp

lemma foldE_invariant:
  assumes "foldE f xs s = Inr s'" and "P s"
    and "\<And>x t t'. x \<in> set xs \<Longrightarrow> P t \<Longrightarrow> f x t = Inr t' \<Longrightarrow> P t'"
  shows "P s'"
  using assms by (induction xs arbitrary: s) (auto simp: bindE_eq_Inr)

section \<open>Go maps\<close>

type_synonym ('k, 'v) gomap = "('k \<times> 'v) list"

definition gm_ok :: "('k::linorder, 'v) gomap \<Rightarrow> bool" where
  "gm_ok m \<longleftrightarrow> sorted_wrt (<) (map fst m)"

fun gm_put :: "'k::linorder \<Rightarrow> 'v \<Rightarrow> ('k, 'v) gomap \<Rightarrow> ('k, 'v) gomap" where
  "gm_put key val [] = [(key, val)]"
| "gm_put key val (e # rest) =
     (if fst e < key then e # gm_put key val rest
      else if fst e = key then (key, val) # rest
      else (key, val) # e # rest)"

definition gm_del :: "'k \<Rightarrow> ('k, 'v) gomap \<Rightarrow> ('k, 'v) gomap" where
  "gm_del key m = filter (\<lambda>e. fst e \<noteq> key) m"

lemma map_of_gm_put [simp, gomap_simps]: "map_of (gm_put key val m) = (map_of m)(key \<mapsto> val)"
  by (induction m) (auto simp: fun_eq_iff)

lemma map_of_gm_del [simp, gomap_simps]: "map_of (gm_del key m) = (map_of m)(key := None)"
  by (induction m) (auto simp: gm_del_def fun_eq_iff)

lemma set_keys_gm_put: "fst ` set (gm_put key val m) = insert key (fst ` set m)"
  by (induction m) auto

lemma gm_put_not_Nil [simp]: "gm_put key val m \<noteq> []"
  by (cases m) auto

lemma gm_ok_Nil [simp]: "gm_ok []"
  by (simp add: gm_ok_def)

lemma gm_ok_Cons: "gm_ok (e # m) \<longleftrightarrow> (\<forall>k \<in> fst ` set m. fst e < k) \<and> gm_ok m"
  by (auto simp: gm_ok_def)

lemma gm_ok_put [simp, intro]: "gm_ok m \<Longrightarrow> gm_ok (gm_put key val m)"
proof (induction m)
  case (Cons e m)
  then have rest: "gm_ok (gm_put key val m)" and below: "\<forall>k \<in> fst ` set m. fst e < k"
    by (auto simp: gm_ok_Cons)
  then show ?case
    using Cons.prems by (auto simp: gm_ok_Cons set_keys_gm_put)
qed (simp add: gm_ok_def)

lemma gm_ok_del [simp, intro]: "gm_ok m \<Longrightarrow> gm_ok (gm_del key m)"
  by (induction m) (auto simp: gm_del_def gm_ok_Cons)

lemma gm_ok_filter: "gm_ok m \<Longrightarrow> gm_ok (filter P m)"
  by (induction m) (auto simp: gm_ok_Cons)

lemma gm_ok_distinct: "gm_ok m \<Longrightarrow> distinct (map fst m)"
  by (simp add: gm_ok_def strict_sorted_iff)

lemma gm_entry_iff: "gm_ok m \<Longrightarrow> (k, v) \<in> set m \<longleftrightarrow> map_of m k = Some v"
  by (simp add: gm_ok_distinct)

lemma gm_vals_iff: "gm_ok m \<Longrightarrow> v \<in> set (map snd m) \<longleftrightarrow> (\<exists>k. map_of m k = Some v)"
  by (simp add: gm_entry_iff[symmetric] image_iff) force

text \<open>Two well-formed maps with the same lookups are the same map.\<close>

lemma gm_eqI:
  assumes "gm_ok m" and "gm_ok m'" and "map_of m = map_of m'"
  shows "m = m'"
proof -
  have keys: "map fst m = map fst m'"
  proof (rule sorted_distinct_set_unique)
    show "sorted (map fst m)" and "sorted (map fst m')"
      using assms(1,2) by (auto simp: gm_ok_def strict_sorted_iff)
    show "distinct (map fst m)" and "distinct (map fst m')"
      using assms(1,2) by (auto intro: gm_ok_distinct)
    have "dom (map_of m) = dom (map_of m')" using assms(3) by simp
    then show "set (map fst m) = set (map fst m')" by (simp add: dom_map_of_conv_image_fst)
  qed
  have mem: "(k, v) \<in> set m \<longleftrightarrow> (k, v) \<in> set m'" for k v
    using assms gm_ok_distinct[OF assms(1)] gm_ok_distinct[OF assms(2)]
    by (metis map_of_eq_Some_iff)
  show ?thesis
  proof (rule nth_equalityI)
    show "length m = length m'" using keys by (metis length_map)
    fix i assume i: "i < length m"
    then have i': "i < length m'" using keys by (metis length_map)
    have "fst (m ! i) = fst (m' ! i)" using keys i i' by (metis nth_map)
    moreover have "m ! i \<in> set m'" using mem nth_mem[OF i] by (metis surj_pair)
    ultimately show "m ! i = m' ! i"
      using gm_ok_distinct[OF assms(2)] i' nth_mem[OF i']
      by (metis eq_key_imp_eq_value prod.collapse)
  qed
qed

subsection \<open>The interface of a finite map, and tables built from rows\<close>

text \<open>
  What the code relies on when it indexes rows: assignment, deletion and lookup of a finite map.
  Ranging over rows and assigning \<open>m[f(x)] = g(x)\<close> leaves, at a key, the last row with that key.
\<close>

lemma find_SomeD: "find P xs = Some x \<Longrightarrow> x \<in> set xs \<and> P x"
  by (induction xs) (auto split: if_splits)

locale finite_map =
  fixes empty :: 'm
    and put :: "'k \<Rightarrow> 'v \<Rightarrow> 'm \<Rightarrow> 'm"
    and del :: "'k \<Rightarrow> 'm \<Rightarrow> 'm"
    and get :: "'m \<Rightarrow> 'k \<Rightarrow> 'v option"
    and ok :: "'m \<Rightarrow> bool"
  assumes get_empty: "get empty k = None"
    and get_put: "get (put k v m) k' = (if k' = k then Some v else get m k')"
    and get_del: "get (del k m) k' = (if k' = k then None else get m k')"
    and ok_empty: "ok empty"
    and ok_put: "ok m \<Longrightarrow> ok (put k v m)"
    and ok_del: "ok m \<Longrightarrow> ok (del k m)"
begin

lemma ok_fold_put: "ok m \<Longrightarrow> ok (fold (\<lambda>x. put (f x) (g x)) xs m)"
  by (induction xs arbitrary: m) (auto simp: ok_put)

lemma get_fold_put:
  "get (fold (\<lambda>x. put (f x) (g x)) xs m) k =
     (case find (\<lambda>x. f x = k) (rev xs) of None \<Rightarrow> get m k | Some x \<Rightarrow> Some (g x))"
proof (induction xs rule: rev_induct)
  case Nil
  show ?case by simp
next
  case (snoc x xs)
  then show ?case by (auto simp: get_put)
qed

lemma get_fold_put_None:
  "get (fold (\<lambda>x. put (f x) (g x)) xs empty) k = None \<longleftrightarrow> k \<notin> f ` set xs"
proof (cases "find (\<lambda>x. f x = k) (rev xs)")
  case None
  then have "k \<notin> f ` set xs" by (auto simp: find_None_iff)
  with None show ?thesis by (simp add: get_fold_put get_empty)
next
  case (Some x)
  then show ?thesis using find_SomeD[OF Some] by (auto simp: get_fold_put)
qed

lemma get_fold_put_SomeD:
  "get (fold (\<lambda>x. put (f x) (g x)) xs empty) k = Some v \<Longrightarrow> \<exists>x \<in> set xs. f x = k \<and> g x = v"
  by (cases "find (\<lambda>x. f x = k) (rev xs)") (auto simp: get_fold_put get_empty dest!: find_SomeD)

end

interpretation gm: finite_map "[]" gm_put gm_del map_of gm_ok
  by unfold_locales (auto simp: fun_upd_def)

definition index_by :: "('r \<Rightarrow> 'k::linorder) \<Rightarrow> ('r \<Rightarrow> 'v) \<Rightarrow> 'r list \<Rightarrow> ('k, 'v) gomap" where
  "index_by f g rows = fold (\<lambda>r. gm_put (f r) (g r)) rows []"

lemma index_by_ok [simp, intro]: "gm_ok (index_by f g rows)"
  unfolding index_by_def by (rule gm.ok_fold_put) (rule gm.ok_empty)

lemma map_of_index_by [gomap_simps]:
  "map_of (index_by f g rows) k = map_option g (find (\<lambda>r. f r = k) (rev rows))"
  by (cases "find (\<lambda>r. f r = k) (rev rows)") (simp_all add: index_by_def gm.get_fold_put)

lemma index_by_None_iff: "map_of (index_by f g rows) k = None \<longleftrightarrow> k \<notin> f ` set rows"
  unfolding index_by_def by (rule gm.get_fold_put_None)

lemma index_by_SomeD:
  "map_of (index_by f g rows) k = Some v \<Longrightarrow> \<exists>r \<in> set rows. f r = k \<and> g r = v"
  unfolding index_by_def by (rule gm.get_fold_put_SomeD)

text \<open>With at most one row per key the index holds exactly that row.\<close>

lemma find_unique:
  assumes "distinct (map f xs)" and "x \<in> set xs"
  shows "find (\<lambda>y. f y = f x) xs = Some x"
  using assms
proof (induction xs)
  case (Cons y ys)
  show ?case
  proof (cases "x = y")
    case False
    then have "x \<in> set ys" using Cons.prems by simp
    moreover from this have "f y \<noteq> f x" using Cons.prems by auto
    ultimately show ?thesis using Cons by simp
  qed simp
qed simp

lemma index_by_unique:
  assumes "distinct (map f rows)" and "r \<in> set rows"
  shows "map_of (index_by f g rows) (f r) = Some (g r)"
proof -
  have "find (\<lambda>y. f y = f r) (rev rows) = Some r"
    using assms by (intro find_unique) (simp_all add: rev_map[symmetric])
  then show ?thesis by (simp add: map_of_index_by)
qed

text \<open>\<open>m[k] = append(m[k], x)\<close>, the idiom that groups rows.\<close>

definition gm_append :: "'k::linorder \<Rightarrow> 'v \<Rightarrow> ('k, 'v list) gomap \<Rightarrow> ('k, 'v list) gomap" where
  "gm_append key x m = gm_put key ((case map_of m key of None \<Rightarrow> [] | Some xs \<Rightarrow> xs) @ [x]) m"

definition group_by :: "('r \<Rightarrow> 'k::linorder) \<Rightarrow> ('r \<Rightarrow> 'v) \<Rightarrow> 'r list \<Rightarrow> ('k, 'v list) gomap" where
  "group_by f g rows = fold (\<lambda>r. gm_append (f r) (g r)) rows []"

definition gm_list :: "('k, 'v list) gomap \<Rightarrow> 'k \<Rightarrow> 'v list" where
  "gm_list m key = (case map_of m key of None \<Rightarrow> [] | Some xs \<Rightarrow> xs)"

lemma gm_list_Nil [simp]: "gm_list [] k = []"
  by (simp add: gm_list_def)

lemma gm_list_fold_append:
  "gm_list (fold (\<lambda>r. gm_append (f r) (g r)) rows m) k =
     gm_list m k @ map g (filter (\<lambda>r. f r = k) rows)"
  by (induction rows arbitrary: m) (auto simp: gm_list_def gm_append_def)

lemma gm_list_group_by [gomap_simps]:
  "gm_list (group_by f g rows) k = map g (filter (\<lambda>r. f r = k) rows)"
  by (simp add: group_by_def gm_list_fold_append)

lemma group_by_ok [simp, intro]: "gm_ok (group_by f g rows)"
proof -
  have "gm_ok m \<Longrightarrow> gm_ok (fold (\<lambda>r. gm_append (f r) (g r)) rows m)" for m
    by (induction rows arbitrary: m) (auto simp: gm_append_def)
  then show ?thesis by (simp add: group_by_def)
qed

lemma dom_group_by: "map_of (group_by f g rows) k = None \<longleftrightarrow> k \<notin> f ` set rows"
proof -
  have "map_of (fold (\<lambda>r. gm_append (f r) (g r)) rows m) k = None \<longleftrightarrow>
      map_of m k = None \<and> k \<notin> f ` set rows" for m
    by (induction rows arbitrary: m) (auto simp: gm_append_def)
  then show ?thesis by (simp add: group_by_def)
qed

text \<open>Maps of maps, \<open>m[a][b]\<close>, where reading through a missing outer entry finds nothing.\<close>

definition gm_get2 :: "('a, ('b, 'v) gomap) gomap \<Rightarrow> 'a \<Rightarrow> 'b \<Rightarrow> 'v option" where
  "gm_get2 m a b = (case map_of m a of None \<Rightarrow> None | Some m' \<Rightarrow> map_of m' b)"

definition gm_put2 ::
  "'a::linorder \<Rightarrow> 'b::linorder \<Rightarrow> 'v \<Rightarrow> ('a, ('b, 'v) gomap) gomap \<Rightarrow> ('a, ('b, 'v) gomap) gomap" where
  "gm_put2 a b v m = gm_put a (gm_put b v (case map_of m a of None \<Rightarrow> [] | Some m' \<Rightarrow> m')) m"

definition index2_by ::
  "('r \<Rightarrow> 'a::linorder) \<Rightarrow> ('r \<Rightarrow> 'b::linorder) \<Rightarrow> ('r \<Rightarrow> 'v) \<Rightarrow> 'r list \<Rightarrow> ('a, ('b, 'v) gomap) gomap" where
  "index2_by f g h rows = fold (\<lambda>r. gm_put2 (f r) (g r) (h r)) rows []"

lemma gm_get2_put2 [simp, gomap_simps]:
  "gm_get2 (gm_put2 a b v m) a' b' = (if a' = a \<and> b' = b then Some v else gm_get2 m a' b')"
  by (auto simp: gm_get2_def gm_put2_def split: option.splits)

lemma gm_get2_Nil [simp]: "gm_get2 [] a b = None"
  by (simp add: gm_get2_def)

lemma gm_get2_index2_by [gomap_simps]:
  "gm_get2 (index2_by f g h rows) a b = map_option h (find (\<lambda>r. f r = a \<and> g r = b) (rev rows))"
proof -
  have "gm_get2 (fold (\<lambda>r. gm_put2 (f r) (g r) (h r)) rows []) a b =
      map_option h (find (\<lambda>r. f r = a \<and> g r = b) (rev rows))"
    by (induction rows rule: rev_induct) auto
  then show ?thesis by (simp add: index2_by_def)
qed

text \<open>A map of maps is a map over pairs of keys: the second instance of the interface.\<close>

definition gm_del2 ::
  "'a::linorder \<Rightarrow> 'b \<Rightarrow> ('a, ('b, 'v) gomap) gomap \<Rightarrow> ('a, ('b, 'v) gomap) gomap" where
  "gm_del2 a b m = (case map_of m a of None \<Rightarrow> m | Some m' \<Rightarrow> gm_put a (gm_del b m') m)"

lemma gm_get2_del2 [simp, gomap_simps]:
  "gm_get2 (gm_del2 a b m) a' b' = (if a' = a \<and> b' = b then None else gm_get2 m a' b')"
  by (cases "map_of m a") (auto simp: gm_get2_def gm_del2_def)

lemma gm_ok_put2: "gm_ok m \<Longrightarrow> gm_ok (gm_put2 a b v m)"
  by (simp add: gm_put2_def)

lemma gm_ok_del2: "gm_ok m \<Longrightarrow> gm_ok (gm_del2 a b m)"
  by (simp add: gm_del2_def split: option.split)

interpretation gm2: finite_map "[]" "\<lambda>(a, b). gm_put2 a b" "\<lambda>(a, b). gm_del2 a b"
  "\<lambda>m (a, b). gm_get2 m a b" gm_ok
  by unfold_locales (auto intro: gm_ok_put2 gm_ok_del2 split: if_splits)

lemma index2_by_None_iff:
  "gm_get2 (index2_by f g h rows) a b = None \<longleftrightarrow> (a, b) \<notin> (\<lambda>r. (f r, g r)) ` set rows"
  using gm2.get_fold_put_None[where f = "\<lambda>r. (f r, g r)" and g = h and xs = rows and k = "(a, b)"]
  by (simp add: index2_by_def)

section \<open>Query combinators\<close>

text \<open>\<open>SELECT DISTINCT ON (key)\<close>: of the ordered rows, the first one of each key.\<close>

fun distinct_on :: "('r \<Rightarrow> 'k) \<Rightarrow> 'r list \<Rightarrow> 'r list" where
  "distinct_on f [] = []"
| "distinct_on f (r # rows) = r # distinct_on f (filter (\<lambda>r'. f r' \<noteq> f r) rows)"

lemma set_distinct_on: "set (distinct_on f rows) \<subseteq> set rows"
  by (induction f rows rule: distinct_on.induct) auto

lemma distinct_on_keys [sql_simps]: "f ` set (distinct_on f rows) = f ` set rows"
  by (induction f rows rule: distinct_on.induct) (auto simp: image_iff)

lemma distinct_distinct_on [simp, intro]: "distinct (map f (distinct_on f rows))"
proof (induction f rows rule: distinct_on.induct)
  case (2 f r rows)
  moreover have "f r \<notin> f ` set (distinct_on f (filter (\<lambda>r'. f r' \<noteq> f r) rows))"
    using set_distinct_on by fastforce
  ultimately show ?case by simp
qed simp

lemma distinct_on_find: "find (\<lambda>r. f r = k) (distinct_on f rows) = find (\<lambda>r. f r = k) rows"
proof (induction f rows rule: distinct_on.induct)
  case (2 f r rows)
  have "f r \<noteq> k \<Longrightarrow> find (\<lambda>r'. f r' = k) (filter (\<lambda>r'. f r' \<noteq> f r) rows) = find (\<lambda>r'. f r' = k) rows"
    by (induction rows) auto
  then show ?case using 2 by simp
qed simp

lemma distinct_on_id: "distinct (map f rows) \<Longrightarrow> distinct_on f rows = rows"
proof (induction f rows rule: distinct_on.induct)
  case (2 f r rows)
  then have "filter (\<lambda>r'. f r' \<noteq> f r) rows = rows" by (auto simp: filter_id_conv image_iff)
  with 2 show ?case by simp
qed simp

text \<open>In rows ordered by a key, the row that \<open>DISTINCT ON\<close> keeps is least in that order.\<close>

lemma sorted_find_least:
  assumes "sorted (map ord xs)" and "find P xs = Some x" and "y \<in> set xs" and "P y"
  shows "ord x \<le> ord y"
  using assms
proof (induction xs)
  case (Cons a xs)
  then show ?case by (cases "P a") auto
qed simp

lemma distinct_map_sort_key [simp]: "distinct (map f (sort_key g xs)) \<longleftrightarrow> distinct (map f xs)"
  by (rule mset_eq_imp_distinct_iff) simp

lemma sort_key_map: "sort_key f (map g xs) = map g (sort_key (\<lambda>x. f (g x)) xs)"
proof (induction xs)
  case (Cons x xs)
  have "insort_key f (g x) (map g ys) = map g (insort_key (\<lambda>x. f (g x)) x ys)" for ys
    by (induction ys) auto
  then show ?case using Cons.IH by simp
qed simp

lemma insort_key_cong:
  "(\<And>y. y \<in> set ys \<Longrightarrow> f x \<le> f y \<longleftrightarrow> g x \<le> g y) \<Longrightarrow> insort_key f x ys = insort_key g x ys"
  by (induction ys) auto

text \<open>Sorting depends only on the order of the keys.\<close>

lemma sort_key_cong_order:
  assumes "\<And>x y. x \<in> set xs \<Longrightarrow> y \<in> set xs \<Longrightarrow> f x \<le> f y \<longleftrightarrow> g x \<le> g y"
  shows "sort_key f xs = sort_key g xs"
  using assms
proof (induction xs)
  case (Cons x xs)
  then have "sort_key f xs = sort_key g xs" by simp
  moreover have "insort_key f x (sort_key g xs) = insort_key g x (sort_key g xs)"
    by (rule insort_key_cong) (use Cons.prems in simp)
  ultimately show ?case by simp
qed simp

lemma filter_unique: "distinct (map f xs) \<Longrightarrow> x \<in> set xs \<Longrightarrow> filter (\<lambda>y. f y = f x) xs = [x]"
proof (induction xs)
  case (Cons y ys)
  then show ?case by (cases "x = y") (auto simp: filter_empty_conv image_iff)
qed simp

lemma distinct_on_snoc:
  "distinct_on f (xs @ [x]) = (if f x \<in> f ` set xs then distinct_on f xs else distinct_on f xs @ [x])"
  by (induction f xs rule: distinct_on.induct) (auto simp: image_iff)

lemma sorted_wrt_distinct_on: "sorted_wrt P rows \<Longrightarrow> sorted_wrt P (distinct_on f rows)"
proof (induction f rows rule: distinct_on.induct)
  case (2 f r rows)
  then show ?case using set_distinct_on [of f "filter (\<lambda>r'. f r' \<noteq> f r) rows"] by (auto simp: sorted_wrt_filter)
qed simp

section \<open>Strings\<close>

fun strings_Join :: "string list \<Rightarrow> string \<Rightarrow> string" where
  "strings_Join [] sep = []"
| "strings_Join [s] sep = s"
| "strings_Join (s # ss) sep = s @ sep @ strings_Join ss sep"

definition strings_HasPrefix :: "string \<Rightarrow> string \<Rightarrow> bool" where
  "strings_HasPrefix s p \<longleftrightarrow> take (length p) s = p"

definition strings_HasSuffix :: "string \<Rightarrow> string \<Rightarrow> bool" where
  "strings_HasSuffix s p \<longleftrightarrow> length p \<le> length s \<and> drop (length s - length p) s = p"

lemma strings_HasPrefix_iff: "strings_HasPrefix s p \<longleftrightarrow> prefix p s"
  by (auto simp: strings_HasPrefix_def prefix_def) (metis append_take_drop_id)

lemma strings_HasSuffix_iff: "strings_HasSuffix s p \<longleftrightarrow> suffix p s"
  by (auto simp: strings_HasSuffix_def suffix_def) (metis append_take_drop_id)

text \<open>\<open>strings.Cut\<close>: the text around the first occurrence of a one-byte separator.\<close>

fun strings_Cut :: "string \<Rightarrow> char \<Rightarrow> string \<times> string \<times> bool" where
  "strings_Cut [] sep = ([], [], False)"
| "strings_Cut (c # s) sep =
     (if c = sep then ([], s, True)
      else (case strings_Cut s sep of (before, after, found) \<Rightarrow> (c # before, after, found)))"

lemma strings_Cut_append: "sep \<notin> set before \<Longrightarrow> strings_Cut (before @ sep # after) sep = (before, after, True)"
  by (induction before) auto

lemma strings_Cut_absent: "sep \<notin> set s \<Longrightarrow> strings_Cut s sep = (s, [], False)"
  by (induction s) auto

text \<open>\<open>strings.Split\<close> at a one-byte separator, which \<open>strings.Join\<close> undoes, and \<open>strings.Trim\<close> of one byte.\<close>

fun strings_Split :: "string \<Rightarrow> char \<Rightarrow> string list" where
  "strings_Split [] sep = [[]]"
| "strings_Split (c # s) sep =
     (if c = sep then [] # strings_Split s sep
      else (case strings_Split s sep of [] \<Rightarrow> [[c]] | part # parts \<Rightarrow> (c # part) # parts))"

definition strings_Trim :: "string \<Rightarrow> char \<Rightarrow> string" where
  "strings_Trim s c = rev (dropWhile (\<lambda>x. x = c) (rev (dropWhile (\<lambda>x. x = c) s)))"

lemma strings_Split_not_Nil [simp]: "strings_Split s sep \<noteq> []"
  by (cases s) (auto split: list.split)

lemma strings_Join_Cons: "ss \<noteq> [] \<Longrightarrow> strings_Join (s # ss) sep = s @ sep @ strings_Join ss sep"
  by (cases ss) auto

lemma strings_Join_head: "strings_Join ((c # part) # parts) sep = c # strings_Join (part # parts) sep"
  by (cases parts) auto

lemma strings_Join_Split: "strings_Join (strings_Split s sep) [sep] = s"
  by (induction s) (auto simp: strings_Join_Cons strings_Join_head split: list.split)

text \<open>\<open>strings.TrimSpace\<close> on ASCII: space, tab, newline, vertical tab, form feed, carriage return.\<close>

definition is_space :: "char \<Rightarrow> bool" where
  "is_space c \<longleftrightarrow> c \<in> set [CHR 0x20, CHR 0x09, CHR 0x0A, CHR 0x0B, CHR 0x0C, CHR 0x0D]"

definition strings_TrimSpace :: "string \<Rightarrow> string" where
  "strings_TrimSpace s = rev (dropWhile is_space (rev (dropWhile is_space s)))"

text \<open>\<open>strings.ToUpper\<close> and \<open>strings.ToLower\<close> on ASCII.\<close>

definition char_upper :: "char \<Rightarrow> char" where
  "char_upper c = (if (97::nat) \<le> of_char c \<and> of_char c \<le> (122::nat) then char_of (of_char c - 32 :: nat) else c)"

definition char_lower :: "char \<Rightarrow> char" where
  "char_lower c = (if (65::nat) \<le> of_char c \<and> of_char c \<le> (90::nat) then char_of (of_char c + 32 :: nat) else c)"

definition strings_ToUpper :: "string \<Rightarrow> string" where
  "strings_ToUpper s = map char_upper s"

definition strings_ToLower :: "string \<Rightarrow> string" where
  "strings_ToLower s = map char_lower s"

end
