(* ===== verification/Domain.thy ===== *)
theory Domain
  imports Prelude
begin

text \<open>
  Data types of the domain packages: errors (\<open>internal/errs\<close> and the error values the packages
  return), environments (\<open>internal/environment/model.go\<close>), features and their configuration
  (\<open>internal/feature/model.go\<close>, \<open>internal/feature/computed.go\<close>), and the dynamic values
  (\<open>any\<close>) that Helm values are made of.

  Go's string enumerations stay strings, because the code converts to and from them freely and a
  value outside the enumeration is possible. A pointer that may be \<open>nil\<close> is an \<open>option\<close>.
\<close>

section \<open>Errors\<close>

text \<open>
  \<open>Wrap m e\<close> is \<open>fmt.Errorf("m: %w", e)\<close>, \<open>WrapBefore e m\<close> is \<open>fmt.Errorf("%w: m", e)\<close>; \<open>Panic\<close> is a run-time panic of the goroutine, which no
  caller of the modelled code recovers from; \<open>ErrQuery\<close> is a failure of a query or an external call.
\<close>

datatype err =
    Errorf string
  | Wrap string err
  | WrapBefore err string
  | ErrMissingRequiredFields "string list"
  | ErrNoRows
  | PgError string
  | ErrQuery string
  | ErrReconcileInProgress
  | ErrRedeployNotSettled
  | ErrRedeployTargetNotFound
  | ErrUninstallProtected
  | ErrFeatureNotFound
  | ErrNack
  | ErrRestartRequired
  | configParseError string err
  | Panic string

fun missing_fields_of :: "err \<Rightarrow> string list option" where
  "missing_fields_of (ErrMissingRequiredFields fields) = Some fields"
| "missing_fields_of (Wrap m e) = missing_fields_of e"
| "missing_fields_of (WrapBefore e m) = missing_fields_of e"
| "missing_fields_of (configParseError k e) = missing_fields_of e"
| "missing_fields_of e = None"

fun pg_code_of :: "err \<Rightarrow> string option" where
  "pg_code_of (PgError code) = Some code"
| "pg_code_of (Wrap m e) = pg_code_of e"
| "pg_code_of (WrapBefore e m) = pg_code_of e"
| "pg_code_of (configParseError k e) = pg_code_of e"
| "pg_code_of e = None"

definition ErrMissingRequiredFields_Is :: "string list \<Rightarrow> err \<Rightarrow> bool" where
  "ErrMissingRequiredFields_Is fields target =
     (case target of ErrMissingRequiredFields _ \<Rightarrow> True | _ \<Rightarrow> False)"

fun errors_Is :: "err \<Rightarrow> err \<Rightarrow> bool" where
  "errors_Is (Wrap m e) target \<longleftrightarrow> Wrap m e = target \<or> errors_Is e target"
| "errors_Is (WrapBefore e m) target \<longleftrightarrow> WrapBefore e m = target \<or> errors_Is e target"
| "errors_Is (configParseError k e) target \<longleftrightarrow> configParseError k e = target \<or> errors_Is e target"
| "errors_Is (ErrMissingRequiredFields fs) target \<longleftrightarrow> ErrMissingRequiredFields_Is fs target"
| "errors_Is e target \<longleftrightarrow> e = target"

definition ErrMissingRequiredFields_Error :: "string list \<Rightarrow> string" where
  "ErrMissingRequiredFields_Error fields =
     ''missing required fields: ['' @ strings_Join fields '' '' @ '']''"

fun show_digits :: "nat \<Rightarrow> nat \<Rightarrow> string" where
  "show_digits 0 n = []"
| "show_digits (Suc fuel) n =
     (if n < 10 then [char_of (48 + n)] else show_digits fuel (n div 10) @ [char_of (48 + n mod 10)])"

definition show_nat :: "nat \<Rightarrow> string" where
  "show_nat n = show_digits (Suc n) n"

fun Error :: "err \<Rightarrow> string" where
  "Error (Errorf m) = m"
| "Error (Wrap m e) = m @ '': '' @ Error e"
| "Error (WrapBefore e m) = Error e @ '': '' @ m"
| "Error (ErrMissingRequiredFields fields) = ErrMissingRequiredFields_Error fields"
| "Error ErrNoRows = ''no rows in result set''"
| "Error (PgError code) = ''ERROR: (SQLSTATE '' @ code @ '')''"
| "Error (ErrQuery q) = q"
| "Error ErrReconcileInProgress = ''reconcile already in progress''"
| "Error ErrRedeployNotSettled = ''feature is not in a redeployable state''"
| "Error ErrRedeployTargetNotFound = ''no reconciling deployment found for feature in environment''"
| "Error ErrUninstallProtected = ''release is a managed agent and cannot be uninstalled''"
| "Error ErrFeatureNotFound = ''feature not found''"
| "Error ErrNack = ''nack''"
| "Error ErrRestartRequired = ''restart required''"
| "Error (configParseError k e) = k @ '': invalid value format: '' @ Error e"
| "Error (Panic m) = m"

section \<open>Dynamic values\<close>

text \<open>
  What \<open>any\<close> holds in Helm values: JSON and YAML values, the raw JSON text that configuration rows
  carry (\<open>json.RawMessage\<close>), the \<open>map[string]string\<close> of the Fasit block (\<open>GSMap\<close>, a type that a
  type assertion tells from \<open>map[string]any\<close>) and the \<open>map[any]any\<close> that a YAML decoder may produce.
  A number is its decimal text. \<open>map[string]any\<close> is a Go map.
\<close>

datatype gval =
    GNil
  | GBool bool
  | GNum string
  | GStr string
  | GRaw string
  | GList "gval list"
  | GMap "(string \<times> gval) list"
  | GSMap "(string \<times> string) list"
  | GAny "(gval \<times> gval) list"

type_synonym gmap = "(string, gval) gomap"

text \<open>Every map inside the value has its keys in order, so equal values are equal terms.\<close>

fun gval_ok :: "gval \<Rightarrow> bool" where
  "gval_ok (GList vs) \<longleftrightarrow> (\<forall>v \<in> set vs. gval_ok v)"
| "gval_ok (GMap m) \<longleftrightarrow> gm_ok m \<and> (\<forall>(k, v) \<in> set m. gval_ok v)"
| "gval_ok (GAny m) \<longleftrightarrow> (\<forall>(k, v) \<in> set m. gval_ok v)"
| "gval_ok _ \<longleftrightarrow> True"

section \<open>Environments\<close>

type_synonym EnvironmentKind = string
type_synonym Labels = "(string, string) gomap"

definition EnvironmentKindTenant :: EnvironmentKind where
  "EnvironmentKindTenant = ''tenant''"

definition EnvironmentKindManagement :: EnvironmentKind where
  "EnvironmentKindManagement = ''management''"

definition EnvironmentKindOnprem :: EnvironmentKind where
  "EnvironmentKindOnprem = ''onprem''"

definition AllEnvironmentKind :: "EnvironmentKind list" where
  "AllEnvironmentKind = [EnvironmentKindTenant, EnvironmentKindManagement, EnvironmentKindOnprem]"

definition EnvironmentKind_IsValid :: "EnvironmentKind \<Rightarrow> bool" where
  "EnvironmentKind_IsValid e \<longleftrightarrow> List.member AllEnvironmentKind e"

record Environment =
  e_ID :: uuid
  e_Name :: string
  e_Description :: "string option"
  e_Created :: gotime
  e_LastModified :: gotime
  e_Kind :: EnvironmentKind
  e_Reconcile :: bool
  e_TenantID :: uuid
  e_Labels :: Labels
  e_OIDCIssuer :: "string option"
  e_OIDCDiscoveryURL :: "string option"

record Tenant =
  t_ID :: uuid
  t_Name :: string
  t_Description :: "string option"
  t_Created :: gotime
  t_LastModified :: gotime
  t_Ci :: bool

record EnvironmentValue =
  ev_EnvironmentID :: uuid
  ev_Key :: string
  ev_Value :: string
  ev_Secret :: bool

section \<open>Features\<close>

type_synonym ConfigType = string
type_synonym DeployStatus = string

record Config =
  cfg_Type :: ConfigType
  cfg_Secret :: bool

record Computed =
  cmp_Template :: string

record Value =
  v_Description :: string
  v_DisplayName :: string
  v_Required :: bool
  v_Computed :: "Computed option"
  v_Config :: "Config option"
  v_IgnoreKind :: "EnvironmentKind list"

text \<open>
  \<open>Values\<close> is a Go map that the code only ranges over, in an order Go leaves open: it is the list of
  its entries in the order the range visits them, and the theorems hold for every order.
\<close>

type_synonym Values = "(string \<times> Value) list"

record Dependency =
  AnyOf :: "string list"
  AllOf :: "string list"

type_synonym Dependencies = "Dependency list"

record FeatureYAML =
  f_Dependencies :: Dependencies
  f_EnvironmentKinds :: "EnvironmentKind list"
  f_Timeout :: duration
  f_Values :: Values

record Feature = FeatureYAML +
  f_Name :: string
  f_Chart :: string
  f_Version :: string
  f_Description :: string
  f_Source :: string
  f_ValuesYAML :: "(string, string) gomap"
  f_SpecVersion :: string
  f_TplDetails :: string

text \<open>A row of \<open>configurations_global\<close> and of \<open>configurations_environment\<close>.\<close>

record ConfigurationsGlobal =
  g_ID :: uuid
  g_Feature :: string
  g_Key :: string
  g_Value :: string
  g_Description :: "string option"
  g_Secret :: bool
  g_Created :: gotime

record ConfigurationsEnvironment =
  c_ID :: uuid
  c_Feature :: string
  c_Key :: string
  c_Value :: string
  c_Description :: "string option"
  c_Secret :: bool
  c_Created :: gotime
  c_EnvironmentID :: uuid

record MergedConfigRow =
  m_ID :: uuid
  m_Key :: string
  m_Value :: string
  m_Secret :: bool
  m_Created :: gotime
  m_EnvironmentID :: "uuid option"

record ComputedValues =
  cv_Kind :: EnvironmentKind
  cv_Tenant :: string
  cv_IAPAudience :: string
  cv_Management :: "gmap option"
  cv_Env :: gmap
  cv_Envs :: "gmap list"
  cv_Configs :: gmap

subsection \<open>Enumerations of the feature package\<close>

definition ConfigType_IsValid :: "ConfigType \<Rightarrow> bool" where
  "ConfigType_IsValid e \<longleftrightarrow> List.member [''string'', ''int'', ''bool'', ''string_array''] e"

definition ConfigSource_IsValid :: "string \<Rightarrow> bool" where
  "ConfigSource_IsValid e \<longleftrightarrow> List.member [''GLOBAL'', ''ENV'', ''HELM'', ''UNKNOWN''] e"

definition DeployStatusUnknown :: DeployStatus where "DeployStatusUnknown = ''''"
definition DeployStatusSent :: DeployStatus where "DeployStatusSent = ''sent''"
definition DeployStatusInstalling :: DeployStatus where "DeployStatusInstalling = ''installing''"
definition DeployStatusDeployed :: DeployStatus where "DeployStatusDeployed = ''deployed''"
definition DeployStatusFailed :: DeployStatus where "DeployStatusFailed = ''failed''"

lemmas DeployStatus_defs =
  DeployStatusUnknown_def DeployStatusSent_def DeployStatusInstalling_def
  DeployStatusDeployed_def DeployStatusFailed_def

definition DeployStatus_IsValid :: "DeployStatus \<Rightarrow> bool" where
  "DeployStatus_IsValid r \<longleftrightarrow> List.member [DeployStatusUnknown, DeployStatusSent,
     DeployStatusInstalling, DeployStatusDeployed, DeployStatusFailed] r"

definition IsInProgress :: "DeployStatus \<Rightarrow> bool" where
  "IsInProgress r \<longleftrightarrow> r = DeployStatusSent \<or> r = DeployStatusInstalling"

lemma IsInProgress_consts [simp]:
  "IsInProgress DeployStatusSent" "IsInProgress DeployStatusInstalling"
  "\<not> IsInProgress DeployStatusDeployed" "\<not> IsInProgress DeployStatusFailed"
  "\<not> IsInProgress DeployStatusUnknown"
  by (simp_all add: IsInProgress_def DeployStatus_defs)

lemma DeployStatus_distinct [simp]:
  "DeployStatusSent \<noteq> DeployStatusInstalling" "DeployStatusSent \<noteq> DeployStatusDeployed"
  "DeployStatusSent \<noteq> DeployStatusFailed" "DeployStatusSent \<noteq> DeployStatusUnknown"
  "DeployStatusInstalling \<noteq> DeployStatusDeployed" "DeployStatusInstalling \<noteq> DeployStatusFailed"
  "DeployStatusDeployed \<noteq> DeployStatusFailed" "DeployStatusFailed \<noteq> DeployStatusSent"
  "DeployStatusFailed \<noteq> DeployStatusDeployed" "DeployStatusDeployed \<noteq> DeployStatusSent"
  by (simp_all add: DeployStatus_defs)

subsection \<open>Dependencies\<close>

fun anyOf_missing :: "string list \<Rightarrow> string list \<Rightarrow> string list \<Rightarrow> string list" where
  "anyOf_missing features [] acc = acc"
| "anyOf_missing features (f # fs) acc =
     (if List.member features f then [] else anyOf_missing features fs (acc @ [f]))"

definition Dependency_FindMissing :: "Dependency \<Rightarrow> string list \<Rightarrow> string list" where
  "Dependency_FindMissing d features =
     filter (\<lambda>f. \<not> List.member features f) (AllOf d) @ anyOf_missing features (AnyOf d) []"

definition FindMissing :: "Dependencies \<Rightarrow> string list \<Rightarrow> string list" where
  "FindMissing d features = concat (map (\<lambda>dep. Dependency_FindMissing dep features) d)"

lemma anyOf_missing_eq:
  "anyOf_missing features fs acc = (if \<exists>f \<in> set fs. f \<in> set features then [] else acc @ fs)"
  by (induction fs arbitrary: acc) auto

text \<open>A dependency is satisfied by the deployed features when nothing of it is missing.\<close>

definition dependency_satisfied :: "Dependency \<Rightarrow> string set \<Rightarrow> bool" where
  "dependency_satisfied d features \<longleftrightarrow>
     set (AllOf d) \<subseteq> features \<and> (AnyOf d = [] \<or> set (AnyOf d) \<inter> features \<noteq> {})"

lemma Dependency_FindMissing_Nil_iff:
  "Dependency_FindMissing d features = [] \<longleftrightarrow> dependency_satisfied d (set features)"
  by (auto simp: Dependency_FindMissing_def dependency_satisfied_def anyOf_missing_eq
      filter_empty_conv)

lemma FindMissing_Nil_iff:
  "FindMissing ds features = [] \<longleftrightarrow> (\<forall>d \<in> set ds. dependency_satisfied d (set features))"
  by (simp add: FindMissing_def Dependency_FindMissing_Nil_iff)

end
