(* ===== verification/Dotkeys.thy ===== *)
theory Dotkeys
  imports Domain
begin

text \<open>
  Dotted configuration keys, \<open>internal/feature/featureutil/dotsplit.go\<close>. A key \<open>a.b.c\<close> names a path
  into nested maps; \<open>\.\<close> is a literal dot inside one segment. Keys are valid UTF-8 (they come from
  PostgreSQL text and from YAML), where the bytes of the dot and of the backslash occur only as those
  characters, so ranging over runes and over bytes is the same.

  \<open>SmartDotSplit\<close> is characterised completely: it accepts exactly the escaped join of well-formed
  paths and returns that path, so it is the inverse of the join and distinct keys have distinct paths.
\<close>

section \<open>The parser\<close>

abbreviation dot :: char where "dot \<equiv> CHR ''.''"
abbreviation backslash :: char where "backslash \<equiv> CHR 0x5C"

fun dot_loop :: "string \<Rightarrow> nat \<Rightarrow> string \<Rightarrow> string \<Rightarrow> string list \<Rightarrow> err + string list" where
  "dot_loop s i [] str ret = Inr (ret @ [str])"
| "dot_loop s i (ch # rest) str ret =
     (if ch = dot
      then if length str = 0 \<or> i = 0
           then Inl (Errorf (''invalid `.` on position '' @ show_nat i))
           else if s ! (i - 1) = backslash
           then dot_loop s (Suc i) rest (take (length str - 1) str @ [dot]) ret
           else dot_loop s (Suc i) rest [] (ret @ [str])
      else dot_loop s (Suc i) rest (str @ [ch]) ret)"

definition SmartDotSplit :: "string \<Rightarrow> err + string list" where
  "SmartDotSplit s =
     (if strings_HasSuffix s [dot] then Inl (Errorf ''cannot end with `.`'')
      else if strings_HasPrefix s [dot] then Inl (Errorf ''cannot start with `.`'')
      else dot_loop s 0 s [] [])"

section \<open>The printer and the well-formed paths\<close>

definition dot_escape :: "string \<Rightarrow> string" where
  "dot_escape seg = concat (map (\<lambda>c. if c = dot then [backslash, dot] else [c]) seg)"

definition dot_join :: "string list \<Rightarrow> string" where
  "dot_join segs = strings_Join (map dot_escape segs) [dot]"

text \<open>
  The empty key is the path of one empty segment. Otherwise no segment is empty, no segment but the
  last ends in a backslash (it would escape the separator) and the last does not end in a dot.
\<close>

definition dot_path_ok :: "string list \<Rightarrow> bool" where
  "dot_path_ok segs \<longleftrightarrow> segs = [[]] \<or>
     segs \<noteq> [] \<and> (\<forall>seg \<in> set segs. seg \<noteq> []) \<and>
     (\<forall>seg \<in> set (butlast segs). last seg \<noteq> backslash) \<and> last (last segs) \<noteq> dot"

lemma dot_escape_simps [simp]:
  "dot_escape [] = []"
  "dot_escape (c # cs) = (if c = dot then [backslash, dot] else [c]) @ dot_escape cs"
  "dot_escape (as @ bs) = dot_escape as @ dot_escape bs"
  by (simp_all add: dot_escape_def)

lemma dot_escape_Nil_iff [simp]: "dot_escape seg = [] \<longleftrightarrow> seg = []"
  by (cases seg) auto

lemma strings_Join_snoc: "ss \<noteq> [] \<Longrightarrow> strings_Join (ss @ [s]) sep = strings_Join ss sep @ sep @ s"
  by (induction ss sep rule: strings_Join.induct) auto

lemma dot_join_snoc: "segs \<noteq> [] \<Longrightarrow> dot_join (segs @ [seg]) = dot_join segs @ [dot] @ dot_escape seg"
  by (simp add: dot_join_def strings_Join_snoc)

lemma dot_join_single [simp]: "dot_join [seg] = dot_escape seg"
  by (simp add: dot_join_def)

lemma last_dot_escape: "seg \<noteq> [] \<Longrightarrow> last (dot_escape seg) = last seg"
  by (induction seg rule: rev_induct) auto

lemma dot_join_cons_escape:
  "dot_join (segs @ [seg @ [c]]) =
     dot_join (segs @ [seg]) @ (if c = dot then [backslash, dot] else [c])"
  by (cases "segs = []") (simp_all add: dot_join_snoc)

section \<open>Characterisation\<close>

text \<open>
  The loop invariant: what has been read, \<open>take i s\<close>, is the join of the segments found so far and
  of the pending one. An escaping backslash is still the last byte of the pending segment.
\<close>

definition dot_inv :: "string \<Rightarrow> nat \<Rightarrow> string \<Rightarrow> string \<Rightarrow> string list \<Rightarrow> bool" where
  "dot_inv s i rest str ret \<longleftrightarrow>
     s = dot_join (ret @ [str]) @ rest \<and> i = length (dot_join (ret @ [str]))"

lemma dot_inv_prev:
  assumes "dot_inv s i rest str ret" and "str \<noteq> []"
  shows "0 < i" and "s ! (i - 1) = last str"
proof -
  let ?p = "dot_join (ret @ [str])"
  have ne: "?p \<noteq> [] \<and> last ?p = last str"
    using assms(2) by (cases "ret = []") (simp_all add: dot_join_snoc last_dot_escape)
  then show "0 < i" using assms(1) by (simp add: dot_inv_def)
  show "s ! (i - 1) = last str"
    using assms(1) ne last_conv_nth[of ?p] by (simp add: dot_inv_def nth_append)
qed

lemma dot_inv_char: "dot_inv s i (ch # rest) str ret \<Longrightarrow> ch \<noteq> dot \<Longrightarrow> dot_inv s (Suc i) rest (str @ [ch]) ret"
  by (simp add: dot_inv_def dot_join_cons_escape)

lemma dot_inv_escaped:
  assumes "dot_inv s i (dot # rest) str ret" and "str \<noteq> []" and "last str = backslash"
  shows "dot_inv s (Suc i) rest (take (length str - 1) str @ [dot]) ret"
proof -
  let ?str' = "take (length str - 1) str"
  have "str = ?str' @ [backslash]"
    using assms(2,3) by (metis append_butlast_last_id butlast_conv_take)
  then have "dot_join (ret @ [?str' @ [dot]]) = dot_join (ret @ [str]) @ [dot]"
    using dot_join_cons_escape[of ret ?str' backslash] dot_join_cons_escape[of ret ?str' dot] by simp
  then show ?thesis using assms(1) by (simp add: dot_inv_def)
qed

lemma dot_inv_separator:
  "dot_inv s i (dot # rest) str ret \<Longrightarrow> dot_inv s (Suc i) rest [] (ret @ [str])"
  using dot_join_snoc[of "ret @ [str]" "[]"] by (simp add: dot_inv_def)

lemma dot_loop_sound:
  assumes "dot_inv s i rest str ret" and "dot_loop s i rest str ret = Inr segs"
    and "\<forall>seg \<in> set ret. seg \<noteq> [] \<and> last seg \<noteq> backslash"
  shows "s = dot_join segs \<and> segs \<noteq> [] \<and>
    (\<forall>seg \<in> set (butlast segs). seg \<noteq> [] \<and> last seg \<noteq> backslash)"
  using assms
proof (induction s i rest str ret rule: dot_loop.induct)
  case (1 s i str ret)
  then show ?case by (auto simp: dot_inv_def)
next
  case (2 s i ch rest str ret)
  show ?case
  proof (cases "ch = dot")
    case False
    then show ?thesis using 2 dot_inv_char[OF 2(4)] by simp
  next
    case True
    then have ne: "str \<noteq> []" and i0: "i \<noteq> 0" using 2(5) by (auto split: if_splits)
    note prev = dot_inv_prev[OF 2(4) ne]
    have inv: "dot_inv s i (dot # rest) str ret" using 2(4) True by simp
    show ?thesis
    proof (cases "s ! (i - 1) = backslash")
      case esc: True
      show ?thesis
        using 2(1,5,6) True esc ne i0 dot_inv_escaped[OF inv ne] prev by simp
    next
      case sep: False
      show ?thesis
        using 2(2,5,6) True sep ne i0 dot_inv_separator[OF inv] prev by simp
    qed
  qed
qed

lemma dot_loop_escape:
  assumes "dot_inv s i (dot_escape seg @ rest) str ret"
  shows "dot_loop s i (dot_escape seg @ rest) str ret =
      dot_loop s (i + length (dot_escape seg)) rest (str @ seg) ret \<and>
    dot_inv s (i + length (dot_escape seg)) rest (str @ seg) ret"
  using assms
proof (induction seg arbitrary: i str)
  case (Cons c seg)
  show ?case
  proof (cases "c = dot")
    case False
    then show ?thesis
      using Cons.IH[of "Suc i" "str @ [c]"] dot_inv_char[of s i c _ str ret] Cons.prems by simp
  next
    case True
    let ?tl = "dot_escape seg @ rest"
    have inv1: "dot_inv s (Suc i) (dot # ?tl) (str @ [backslash]) ret"
      using dot_inv_char[of s i backslash "dot # ?tl" str ret] Cons.prems True by simp
    have prev: "s ! i = backslash" using dot_inv_prev[OF inv1] by simp
    have inv2: "dot_inv s (Suc (Suc i)) ?tl (str @ [dot]) ret"
      using dot_inv_escaped[OF inv1] by simp
    show ?thesis using Cons.IH[OF inv2] True prev by simp
  qed
qed simp

text \<open>The text of the remaining path: the rest of the pending segment and the segments after it.\<close>

lemma dot_join_Cons: "segs \<noteq> [] \<Longrightarrow> dot_join (seg # segs) = dot_escape seg @ dot # dot_join segs"
  by (cases segs) (simp_all add: dot_join_def)

lemma dot_loop_complete:
  assumes "dot_inv s i (dot_join segs) [] ret" and "segs \<noteq> []"
    and "\<forall>seg \<in> set (butlast segs). seg \<noteq> [] \<and> last seg \<noteq> backslash"
  shows "dot_loop s i (dot_join segs) [] ret = Inr (ret @ segs)"
  using assms
proof (induction segs arbitrary: i ret)
  case (Cons seg segs)
  show ?case
  proof (cases "segs = []")
    case True
    then show ?thesis using dot_loop_escape[of s i seg "[]" "[]" ret] Cons.prems by simp
  next
    case False
    let ?j = "i + length (dot_escape seg)"
    have seg: "seg \<noteq> []" "last seg \<noteq> backslash" using Cons.prems(3) False by auto
    have step: "dot_loop s i (dot_join (seg # segs)) [] ret = dot_loop s ?j (dot # dot_join segs) seg ret"
      and inv: "dot_inv s ?j (dot # dot_join segs) seg ret"
      using dot_loop_escape[of s i seg "dot # dot_join segs" "[]" ret] Cons.prems(1) False
      by (simp_all add: dot_join_Cons)
    note prev = dot_inv_prev[OF inv seg(1)]
    have "dot_loop s (Suc ?j) (dot_join segs) [] (ret @ [seg]) = Inr ((ret @ [seg]) @ segs)"
      using Cons.IH[OF dot_inv_separator[OF inv] False] Cons.prems(3) False by simp
    then show ?thesis using step prev seg by simp
  qed
qed simp

text \<open>The escaped join of a path never starts with a dot unless its first segment is empty.\<close>

lemma last_dot_join: "segs \<noteq> [] \<Longrightarrow> last segs \<noteq> [] \<Longrightarrow> last (dot_join segs) = last (last segs)"
proof (cases segs rule: rev_cases)
  case (snoc xs x)
  then show "last segs \<noteq> [] \<Longrightarrow> last (dot_join segs) = last (last segs)"
    by (cases "xs = []") (simp_all add: last_dot_escape dot_join_snoc)
qed simp

lemma hd_dot_join: "seg \<noteq> [] \<Longrightarrow> hd (dot_join (seg # segs)) \<noteq> dot"
  by (cases "segs = []"; cases seg) (auto simp: dot_join_Cons)

lemma dot_join_Nil_iff: "segs \<noteq> [] \<Longrightarrow> dot_join segs = [] \<longleftrightarrow> segs = [[]]"
  by (cases segs; cases "tl segs = []") (auto simp: dot_join_Cons)

lemma HasSuffix_last: "strings_HasSuffix s [c] \<longleftrightarrow> s \<noteq> [] \<and> last s = c"
  by (auto simp: strings_HasSuffix_iff suffix_def) (metis append_butlast_last_id)

lemma HasPrefix_hd: "strings_HasPrefix s [c] \<longleftrightarrow> s \<noteq> [] \<and> hd s = c"
  by (cases s) (auto simp: strings_HasPrefix_def)

lemma SmartDotSplit_complete: "dot_path_ok segs \<Longrightarrow> SmartDotSplit (dot_join segs) = Inr segs"
proof (cases "segs = [[]]")
  case True
  then show ?thesis by (simp add: SmartDotSplit_def HasSuffix_last HasPrefix_hd)
next
  case False
  assume ok: "dot_path_ok segs"
  then have ne: "segs \<noteq> []" and segs: "\<forall>seg \<in> set segs. seg \<noteq> []"
    and mid: "\<forall>seg \<in> set (butlast segs). last seg \<noteq> backslash" and lst: "last (last segs) \<noteq> dot"
    using False by (auto simp: dot_path_ok_def)
  have "last (dot_join segs) \<noteq> dot" using last_dot_join[of segs] ne segs lst by auto
  moreover have "hd (dot_join segs) \<noteq> dot" using hd_dot_join[of "hd segs" "tl segs"] ne segs by auto
  moreover have "dot_loop (dot_join segs) 0 (dot_join segs) [] [] = Inr ([] @ segs)"
    by (rule dot_loop_complete) (use ne segs mid in \<open>auto simp: dot_inv_def dest: in_set_butlastD\<close>)
  ultimately show ?thesis by (simp add: SmartDotSplit_def HasSuffix_last HasPrefix_hd)
qed

lemma SmartDotSplit_sound: "SmartDotSplit s = Inr segs \<Longrightarrow> dot_path_ok segs \<and> s = dot_join segs"
proof -
  assume "SmartDotSplit s = Inr segs"
  then have noend: "\<not> (s \<noteq> [] \<and> last s = dot)" and loop: "dot_loop s 0 s [] [] = Inr segs"
    by (auto simp: SmartDotSplit_def HasSuffix_last split: if_splits)
  have s: "s = dot_join segs" and ne: "segs \<noteq> []"
    and mid: "\<forall>seg \<in> set (butlast segs). seg \<noteq> [] \<and> last seg \<noteq> backslash"
    using dot_loop_sound[OF _ loop] by (auto simp: dot_inv_def)
  obtain xs x where segs: "segs = xs @ [x]" using ne by (cases segs rule: rev_cases) auto
  show ?thesis
  proof (cases "x = []")
    case True
    then have "xs = []" using noend s segs by (cases "xs = []") (auto simp: dot_join_snoc)
    then show ?thesis using True segs s by (simp add: dot_path_ok_def)
  next
    case False
    then have "s \<noteq> []" using s segs by (cases "xs = []") (auto simp: dot_join_snoc)
    then have "last x \<noteq> dot" using noend s segs False last_dot_join[of segs] by simp
    then show ?thesis using False mid segs s by (auto simp: dot_path_ok_def)
  qed
qed

text \<open>
  C29. Parsing a dotted key: \<open>SmartDotSplit\<close> accepts a key and returns a path exactly when the key is
  the escaped join of that path and the path is well formed; in particular parsing inverts printing,
  printing inverts parsing, and two keys with the same path are the same key.
\<close>

theorem SmartDotSplit_iff: "SmartDotSplit s = Inr segs \<longleftrightarrow> dot_path_ok segs \<and> s = dot_join segs"
  using SmartDotSplit_complete SmartDotSplit_sound by blast

lemma SmartDotSplit_inj: "SmartDotSplit s = Inr segs \<Longrightarrow> SmartDotSplit s' = Inr segs \<Longrightarrow> s = s'"
  by (auto dest: SmartDotSplit_sound)

lemma SmartDotSplit_nonempty: "SmartDotSplit s = Inr segs \<Longrightarrow> segs \<noteq> []"
  by (auto dest: SmartDotSplit_sound simp: dot_path_ok_def)

text \<open>A key without backslashes is its path joined by dots.\<close>

lemma dot_escape_plain: "dot \<notin> set seg \<Longrightarrow> dot_escape seg = seg"
  by (induction seg) auto

lemma dot_escape_backslash: "dot \<in> set seg \<Longrightarrow> backslash \<in> set (dot_escape seg)"
  by (induction seg) auto

end
