(* ===== verification/Config_Merge.thy ===== *)
theory Config_Merge
  imports Dotkeys
begin

text \<open>
  Configuration of a feature, \<open>internal/feature/model.go\<close>: overlaying environment rows on global
  rows (\<open>MergeConfigs\<close>, and \<open>mergeConfigRows\<close> of \<open>internal/reconciler/compute.go\<close>, its copy on
  prepared rows), building the nested Helm values (\<open>MakeHelmConfigMap\<close>), checking required fields
  (\<open>ValidateFields\<close>) and extracting chart defaults (\<open>normalizedYAML\<close>).

  A merge is the pointwise overlay of the two row sets. The nested map holds a raw leaf at a path
  exactly when a row has that path as its key. Assigning through nested maps panics in Go when a
  leaf is in the way; the model returns \<open>Panic\<close> there.
\<close>

section \<open>Merging rows\<close>

definition include_row :: "string list \<Rightarrow> string \<Rightarrow> bool" where
  "include_row includeKeys key \<longleftrightarrow> length includeKeys = 0 \<or> List.member includeKeys key"

definition merged_of_global :: "ConfigurationsGlobal \<Rightarrow> MergedConfigRow" where
  "merged_of_global g = \<lparr>m_ID = g_ID g, m_Key = g_Key g, m_Value = g_Value g, m_Secret = g_Secret g,
     m_Created = g_Created g, m_EnvironmentID = None\<rparr>"

definition merged_of_env :: "ConfigurationsEnvironment \<Rightarrow> MergedConfigRow" where
  "merged_of_env e = \<lparr>m_ID = c_ID e, m_Key = c_Key e, m_Value = c_Value e, m_Secret = c_Secret e,
     m_Created = c_Created e, m_EnvironmentID = Some (c_EnvironmentID e)\<rparr>"

definition MergeConfigs ::
  "ConfigurationsGlobal list \<Rightarrow> ConfigurationsEnvironment list \<Rightarrow> string list \<Rightarrow> MergedConfigRow list" where
  "MergeConfigs global env includeKeys =
     (let m0 = fold (\<lambda>g m. if include_row includeKeys (g_Key g)
                           then gm_put (g_Key g) (merged_of_global g) m else m) global [];
          m1 = fold (\<lambda>e m. if include_row includeKeys (c_Key e)
                           then gm_put (c_Key e) (merged_of_env e) m else m) env m0
      in sort_key m_Key (map snd m1))"

definition mergeConfigRows ::
  "MergedConfigRow list \<Rightarrow> MergedConfigRow list \<Rightarrow> string list \<Rightarrow> MergedConfigRow list" where
  "mergeConfigRows global env includeKeys =
     (let m0 = fold (\<lambda>g m. if include_row includeKeys (m_Key g) then gm_put (m_Key g) g m else m) global [];
          m1 = fold (\<lambda>e m. if include_row includeKeys (m_Key e) then gm_put (m_Key e) e m else m) env m0
      in sort_key m_Key (map snd m1))"

lemma merged_of_simps [simp]:
  "m_Key (merged_of_global g) = g_Key g" "m_Value (merged_of_global g) = g_Value g"
  "m_EnvironmentID (merged_of_global g) = None"
  "m_Key (merged_of_env e) = c_Key e" "m_Value (merged_of_env e) = c_Value e"
  "m_EnvironmentID (merged_of_env e) = Some (c_EnvironmentID e)"
  by (simp_all add: merged_of_global_def merged_of_env_def)

text \<open>The reconciler's copy and the feature package's merge agree.\<close>

lemma mergeConfigRows_MergeConfigs:
  "mergeConfigRows (map merged_of_global global) (map merged_of_env env) keys = MergeConfigs global env keys"
  by (simp add: mergeConfigRows_def MergeConfigs_def fold_map comp_def cong: if_cong)

lemma fold_if_filter: "fold (\<lambda>x s. if P x then f x s else s) xs s = fold f (filter P xs) s"
  by (induction xs arbitrary: s) auto

definition merge_table :: "MergedConfigRow list \<Rightarrow> MergedConfigRow list \<Rightarrow> string list \<Rightarrow> (string, MergedConfigRow) gomap" where
  "merge_table global env keys =
     index_by m_Key id (filter (\<lambda>r. include_row keys (m_Key r)) (global @ env))"

lemma merge_table_ok: "gm_ok (merge_table global env keys)"
  by (simp add: merge_table_def del: filter_append)

lemma mergeConfigRows_table: "mergeConfigRows global env keys = sort_key m_Key (map snd (merge_table global env keys))"
  by (simp add: mergeConfigRows_def merge_table_def index_by_def fold_if_filter)

lemma index_by_entry_key: "e \<in> set (index_by f id rows) \<Longrightarrow> f (snd e) = fst e"
proof -
  assume "e \<in> set (index_by f id rows)"
  then have "map_of (index_by f id rows) (fst e) = Some (snd e)"
    by (metis gm_ok_distinct index_by_ok map_of_is_SomeI prod.collapse)
  then show ?thesis by (auto dest!: index_by_SomeD)
qed

lemma merge_table_keys: "map m_Key (map snd (merge_table global env keys)) = map fst (merge_table global env keys)"
  by (simp add: merge_table_def index_by_entry_key)

text \<open>The table already is in key order, whatever order Go ranges over it in.\<close>

lemma mergeConfigRows_eq: "mergeConfigRows global env keys = map snd (merge_table global env keys)"
proof -
  have "sorted (map m_Key (map snd (merge_table global env keys)))"
    using merge_table_ok[of global env keys] unfolding merge_table_keys
    by (simp add: gm_ok_def strict_sorted_iff)
  then show ?thesis by (simp add: mergeConfigRows_table sort_key_id_if_sorted)
qed

lemma merged_sorted_keys: "sorted_wrt (<) (map m_Key (mergeConfigRows global env keys))"
  using merge_table_ok[of global env keys] unfolding mergeConfigRows_eq merge_table_keys
  by (simp add: gm_ok_def)

lemma merged_range_order:
  assumes "mset entries = mset (merge_table global env keys)"
  shows "sort_key m_Key (map snd entries) = mergeConfigRows global env keys"
proof (rule properties_for_sort_key)
  show "mset (mergeConfigRows global env keys) = mset (map snd entries)"
    using assms by (simp add: mergeConfigRows_eq)
  show "sorted (map m_Key (mergeConfigRows global env keys))"
    using merged_sorted_keys by (simp add: strict_sorted_iff)
  fix r assume r: "r \<in> set (mergeConfigRows global env keys)"
  let ?same = "\<lambda>x. m_Key r = m_Key x"
  have d: "distinct (map m_Key (mergeConfigRows global env keys))"
    using merged_sorted_keys strict_sorted_iff by blast
  have eq: "mset (map snd entries) = mset (mergeConfigRows global env keys)"
    using assms by (simp add: mergeConfigRows_eq)
  then have d': "distinct (map m_Key (map snd entries))"
    using d by (metis mset_map mset_eq_imp_distinct_iff)
  have single: "distinct (map m_Key xs) \<Longrightarrow> r \<in> set xs \<Longrightarrow> filter ?same xs = [r]" for xs
  proof (induction xs)
    case (Cons y ys)
    show ?case
    proof (cases "y = r")
      case True
      then have "filter ?same ys = []" using Cons.prems by (auto simp: filter_empty_conv)
      then show ?thesis using True by simp
    next
      case False
      then have "m_Key r \<in> m_Key ` set ys" using Cons.prems by auto
      then have "m_Key r \<noteq> m_Key y" using Cons.prems by auto
      then show ?thesis using Cons False by simp
    qed
  qed simp
  have "r \<in> set (map snd entries)" using r eq by (metis set_mset_mset)
  then show "filter ?same (mergeConfigRows global env keys) = filter ?same (map snd entries)"
    using single[OF d r] single[OF d'] by simp
qed

section \<open>What a merge holds\<close>

definition merged_lookup :: "MergedConfigRow list \<Rightarrow> string \<Rightarrow> MergedConfigRow option" where
  "merged_lookup rows key = find (\<lambda>r. m_Key r = key) rows"

text \<open>The last row with the key: rows of one table have one row per key, so this is that row.\<close>

definition last_row :: "string \<Rightarrow> MergedConfigRow list \<Rightarrow> MergedConfigRow option" where
  "last_row key rows = find (\<lambda>r. m_Key r = key) (rev rows)"

lemma find_map_snd_table:
  "\<forall>e \<in> set m. m_Key (snd e) = fst e \<Longrightarrow> find (\<lambda>r. m_Key r = key) (map snd m) = map_of m key"
  by (induction m) auto

lemma find_filter_key:
  "find (\<lambda>r. f r = k) (filter (\<lambda>r. P (f r)) xs) = (if P k then find (\<lambda>r. f r = k) xs else None)"
  by (induction xs) auto

lemma find_append: "find P (xs @ ys) = (case find P xs of None \<Rightarrow> find P ys | Some x \<Rightarrow> Some x)"
  by (induction xs) auto

lemma mergeConfigRows_lookup:
  "merged_lookup (mergeConfigRows global env keys) key =
     (if include_row keys key
      then (case last_row key env of Some r \<Rightarrow> Some r | None \<Rightarrow> last_row key global)
      else None)"
proof -
  have "merged_lookup (mergeConfigRows global env keys) key = map_of (merge_table global env keys) key"
    unfolding merged_lookup_def mergeConfigRows_eq
    by (rule find_map_snd_table) (simp add: merge_table_def index_by_entry_key)
  also have "\<dots> = find (\<lambda>r. m_Key r = key) (filter (\<lambda>r. include_row keys (m_Key r)) (rev (global @ env)))"
    by (simp add: merge_table_def map_of_index_by rev_filter option.map_id0)
  also have "\<dots> = (if include_row keys key then find (\<lambda>r. m_Key r = key) (rev (global @ env)) else None)"
    by (rule find_filter_key)
  finally show ?thesis
    by (simp add: find_append last_row_def option.case_eq_if)
qed

text \<open>
  Merging configuration: the reconciler's merge of prepared rows is the feature package's merge of
  database rows. The result has at most one row per key, in key order; for a key that is included it
  is the environment's row if there is one and else the global row.
\<close>

theorem mergeConfigRows_overlay:
  "mergeConfigRows (map merged_of_global gs) (map merged_of_env es) keys = MergeConfigs gs es keys
   \<and> sorted_wrt (<) (map m_Key (mergeConfigRows global env keys))
   \<and> merged_lookup (mergeConfigRows global env keys) key =
      (if include_row keys key
       then (case last_row key env of Some r \<Rightarrow> Some r | None \<Rightarrow> last_row key global)
       else None)"
  using mergeConfigRows_MergeConfigs merged_sorted_keys mergeConfigRows_lookup by blast

end
