(* ===== verification/Helm_Config.thy ===== *)
theory Helm_Config
  imports Config_Merge
begin

text \<open>
  Nested Helm values, \<open>internal/feature/model.go\<close>: \<open>MakeHelmConfigMap\<close> turns dotted rows into nested
  maps, \<open>ValidateFields\<close> finds required fields that are not set, \<open>pluckFromMap\<close> and
  \<open>normalizedYAML\<close> read the chart's defaults.

  The central notion is \<open>leaf_at\<close>, the value that is not a map at a path. Assigning along a path sets
  that leaf, forgets leaves below it and keeps the others; it is possible exactly when no leaf is in
  the way. From this follow what \<open>MakeHelmConfigMap\<close> holds and when it succeeds.
\<close>

section \<open>Reading and assigning along a path\<close>

fun get_path :: "string list \<Rightarrow> gmap \<Rightarrow> gval option" where
  "get_path [] m = None"
| "get_path [key] m = map_of m key"
| "get_path (key # rest) m = (case map_of m key of Some (GMap sub) \<Rightarrow> get_path rest sub | _ \<Rightarrow> None)"

text \<open>The loop of \<open>MakeHelmConfigMap\<close> over the segments of one key, from a given parent map.\<close>

fun put_path :: "string list \<Rightarrow> gval \<Rightarrow> gmap \<Rightarrow> err + gmap" where
  "put_path [] v parent = Inr parent"
| "put_path [key] v parent = Inr (gm_put key v parent)"
| "put_path (key # rest) v parent =
     (case map_of parent key of
        Some e \<Rightarrow> (case e of
            GMap sub \<Rightarrow> bindE (put_path rest v sub) (\<lambda>sub'. Inr (gm_put key (GMap sub') parent))
          | _ \<Rightarrow> Inl (Panic ''interface conversion: interface {} is not map[string]interface {}''))
      | None \<Rightarrow> bindE (put_path rest v []) (\<lambda>sub'. Inr (gm_put key (GMap sub') parent)))"

definition is_GMap :: "gval \<Rightarrow> bool" where
  "is_GMap v = (case v of GMap _ \<Rightarrow> True | _ \<Rightarrow> False)"

lemma is_GMap_simps [simp]:
  "is_GMap (GMap m)" "\<not> is_GMap GNil" "\<not> is_GMap (GStr s)" "\<not> is_GMap (GRaw s)"
  "\<not> is_GMap (GBool b)" "\<not> is_GMap (GNum s)" "\<not> is_GMap (GList vs)" "\<not> is_GMap (GSMap sm)"
  "\<not> is_GMap (GAny a)"
  by (simp_all add: is_GMap_def)

lemma is_GMap_iff: "is_GMap v \<longleftrightarrow> (\<exists>m. v = GMap m)"
  by (cases v) auto

definition leaf_at :: "string list \<Rightarrow> gmap \<Rightarrow> gval option" where
  "leaf_at path m = (case get_path path m of Some v \<Rightarrow> if is_GMap v then None else Some v | None \<Rightarrow> None)"

lemma get_path_Cons:
  "rest \<noteq> [] \<Longrightarrow> get_path (key # rest) m = (case map_of m key of Some (GMap sub) \<Rightarrow> get_path rest sub | _ \<Rightarrow> None)"
  by (cases rest) auto

lemma get_path_empty [simp]: "get_path path [] = None"
  by (induction path "[] :: gmap" rule: get_path.induct) auto

lemma leaf_at_empty [simp]: "leaf_at path [] = None"
  by (simp add: leaf_at_def)

lemma leaf_at_Nil [simp]: "leaf_at [] m = None"
  by (simp add: leaf_at_def)

lemma leaf_at_Cons:
  "rest \<noteq> [] \<Longrightarrow> leaf_at (key # rest) m = (case map_of m key of Some (GMap sub) \<Rightarrow> leaf_at rest sub | _ \<Rightarrow> None)"
  by (auto simp: leaf_at_def get_path_Cons split: option.splits gval.splits)

lemma leaf_at_single:
  "leaf_at [key] m = (case map_of m key of Some v \<Rightarrow> if is_GMap v then None else Some v | None \<Rightarrow> None)"
  by (simp add: leaf_at_def)

lemma put_path_Cons:
  "rest \<noteq> [] \<Longrightarrow> put_path (key # rest) v m =
     (case map_of m key of
        Some (GMap sub) \<Rightarrow> bindE (put_path rest v sub) (\<lambda>sub'. Inr (gm_put key (GMap sub') m))
      | None \<Rightarrow> bindE (put_path rest v []) (\<lambda>sub'. Inr (gm_put key (GMap sub') m))
      | _ \<Rightarrow> Inl (Panic ''interface conversion: interface {} is not map[string]interface {}''))"
  by (cases rest) (auto split: option.splits gval.splits)

text \<open>The map below the first segment, empty when the segment is new; \<open>None\<close> when a leaf is there.\<close>

definition submap :: "string \<Rightarrow> gmap \<Rightarrow> gmap option" where
  "submap key m = (case map_of m key of None \<Rightarrow> Some [] | Some v \<Rightarrow> (case v of GMap sub \<Rightarrow> Some sub | _ \<Rightarrow> None))"

lemma put_path_submap:
  "rest \<noteq> [] \<Longrightarrow> put_path (key # rest) v m =
     (case submap key m of
        Some sub \<Rightarrow> bindE (put_path rest v sub) (\<lambda>sub'. Inr (gm_put key (GMap sub') m))
      | None \<Rightarrow> Inl (Panic ''interface conversion: interface {} is not map[string]interface {}''))"
  by (auto simp: put_path_Cons submap_def split: option.splits gval.splits)

lemma submap_None_iff: "submap key m = None \<longleftrightarrow> leaf_at [key] m \<noteq> None"
  by (auto simp: submap_def leaf_at_single is_GMap_def split: option.splits gval.splits)

lemma leaf_at_submap:
  "rest \<noteq> [] \<Longrightarrow> leaf_at (key # rest) m = (case submap key m of Some sub \<Rightarrow> leaf_at rest sub | None \<Rightarrow> None)"
  by (auto simp: leaf_at_Cons submap_def split: option.splits gval.splits)

lemma leaf_at_put_other:
  "key' \<noteq> key \<Longrightarrow> leaf_at (key' # rest) (gm_put key v m) = leaf_at (key' # rest) m"
  by (cases "rest = []") (simp_all add: leaf_at_single leaf_at_Cons)

lemma leaf_at_put_GMap:
  "leaf_at (key # rest) (gm_put key (GMap sub) m) = (if rest = [] then None else leaf_at rest sub)"
  by (simp add: leaf_at_single leaf_at_Cons)

text \<open>What the map holds after an assignment of a leaf.\<close>

lemma leaf_at_put_path:
  assumes "put_path p v m = Inr m'" and "\<not> is_GMap v" and "p \<noteq> []"
  shows "leaf_at q m' = (if q = p then Some v else if strict_prefix p q then None else leaf_at q m)"
  using assms
proof (induction p arbitrary: q m m')
  case (Cons key rest)
  show ?case
  proof (cases "rest = []")
    case True
    then have m': "m' = gm_put key v m" using Cons.prems by simp
    show ?thesis
    proof (cases q)
      case (Cons k' r)
      have "k' = key \<Longrightarrow> r \<noteq> [] \<Longrightarrow> leaf_at (k' # r) m' = None"
        using Cons.prems(2) by (cases v) (simp_all add: m' leaf_at_Cons)
      then show ?thesis
        using True Cons Cons.prems(2) leaf_at_put_other[of k' key r v m]
        by (cases "k' = key"; cases "r = []") (auto simp: m' leaf_at_single strict_prefix_def)
    qed (simp add: True)
  next
    case False
    obtain sub sub' where sub: "submap key m = Some sub" and put: "put_path rest v sub = Inr sub'"
      and m': "m' = gm_put key (GMap sub') m"
      using Cons.prems(1) False
      by (auto simp: put_path_submap bindE_eq_Inr split: option.splits)
    show ?thesis
    proof (cases q)
      case (Cons k' r)
      show ?thesis
      proof (cases "k' = key")
        case True
        have "r \<noteq> [] \<Longrightarrow> leaf_at (key # r) m = leaf_at r sub" using sub by (simp add: leaf_at_submap)
        moreover have "leaf_at [key] m = None" using sub submap_None_iff[of key m] by simp
        ultimately show ?thesis
          using Cons True False Cons.IH[OF put \<open>\<not> is_GMap v\<close> False, of r]
          by (cases "r = []") (auto simp: m' leaf_at_put_GMap)
      qed (use Cons leaf_at_put_other[of k' key r "GMap sub'" m] in \<open>auto simp: m'\<close>)
    qed simp
  qed
qed simp

text \<open>An assignment succeeds exactly when no leaf lies strictly above its path.\<close>

lemma put_path_Inr_iff:
  "(\<exists>m'. put_path p v m = Inr m') \<longleftrightarrow> (\<forall>q. strict_prefix q p \<longrightarrow> leaf_at q m = None)"
proof (induction p arbitrary: m)
  case (Cons key rest)
  show ?case
  proof (cases "rest = []")
    case True
    then show ?thesis by (auto simp: strict_prefix_def prefix_Cons)
  next
    case False
    have split: "(\<forall>q. strict_prefix q (key # rest) \<longrightarrow> P q) \<longleftrightarrow>
        P [] \<and> (\<forall>q. strict_prefix q rest \<longrightarrow> P (key # q))" for P :: "string list \<Rightarrow> bool"
      by (auto simp: strict_prefix_def prefix_Cons)
    show ?thesis
    proof (cases "submap key m")
      case None
      then have "leaf_at [key] m \<noteq> None" by (simp add: submap_None_iff)
      moreover have "strict_prefix [] rest" using False by (simp add: strict_prefix_def)
      ultimately show ?thesis using None False by (auto simp: put_path_submap split simp del: leaf_at_Nil)
    next
      case (Some sub)
      then have top: "leaf_at [key] m = None" using submap_None_iff[of key m] by simp
      have below: "leaf_at (key # q) m = None \<longleftrightarrow> leaf_at q sub = None" for q
        using top Some by (cases "q = []") (simp_all add: leaf_at_submap)
      have "(\<exists>m'. put_path (key # rest) v m = Inr m') \<longleftrightarrow> (\<exists>s'. put_path rest v sub = Inr s')"
        using Some False by (auto simp: put_path_submap bindE_eq_Inr)
      then show ?thesis using Cons.IH[of sub] by (simp add: split below)
    qed
  qed
qed simp

lemma put_path_Inl: "put_path p v m = Inl e \<Longrightarrow> \<exists>msg. e = Panic msg"
  by (induction p v m rule: put_path.induct)
    (auto simp: bindE_eq_Inl split: option.splits gval.splits)

section \<open>Building the nested map\<close>

definition check_nestable :: "string list \<Rightarrow> MergedConfigRow \<Rightarrow> err + unit" where
  "check_nestable leaves v =
     bindE (SmartDotSplit (m_Key v)) (\<lambda>keys.
       case find (\<lambda>i. List.member leaves (strings_Join (take i keys) [dot])) [1..<length keys] of
         Some i \<Rightarrow> Inl (Errorf (''key '' @ strings_Join (take i keys) [dot] @ '' is not nestable''))
       | None \<Rightarrow> Inr ())"

definition put_row :: "MergedConfigRow \<Rightarrow> gmap \<Rightarrow> err + gmap" where
  "put_row v val = bindE (SmartDotSplit (m_Key v)) (\<lambda>keys. put_path keys (GRaw (m_Value v)) val)"

definition MakeHelmConfigMap :: "MergedConfigRow list \<Rightarrow> err + gmap" where
  "MakeHelmConfigMap vals =
     bindE (mapE (check_nestable (map m_Key vals)) vals) (\<lambda>_. foldE put_row vals [])"

definition row_path :: "MergedConfigRow \<Rightarrow> string list" where
  "row_path r = (case SmartDotSplit (m_Key r) of Inr p \<Rightarrow> p | Inl _ \<Rightarrow> [])"

definition row_parses :: "MergedConfigRow \<Rightarrow> bool" where
  "row_parses r = (case SmartDotSplit (m_Key r) of Inr p \<Rightarrow> True | Inl _ \<Rightarrow> False)"

lemma row_parses_iff: "row_parses r \<longleftrightarrow> SmartDotSplit (m_Key r) = Inr (row_path r)"
  by (auto simp: row_parses_def row_path_def split: sum.splits)

lemma row_path_nonempty: "row_parses r \<Longrightarrow> row_path r \<noteq> []"
  by (auto simp: row_parses_iff dest: SmartDotSplit_nonempty)

lemma row_path_key: "row_parses r \<Longrightarrow> m_Key r = dot_join (row_path r)"
  by (auto simp: row_parses_iff dest: SmartDotSplit_sound)

lemma put_row_parsed: "row_parses r \<Longrightarrow> put_row r m = put_path (row_path r) (GRaw (m_Value r)) m"
  by (simp add: put_row_def row_parses_iff)

lemma leaf_at_put_row:
  assumes "put_row r m = Inr m'" and "row_parses r"
  shows "leaf_at q m' = (if q = row_path r then Some (GRaw (m_Value r))
    else if strict_prefix (row_path r) q then None else leaf_at q m)"
  using assms by (intro leaf_at_put_path) (simp_all add: put_row_parsed row_path_nonempty)

text \<open>No row of the list lies strictly above or below another row, or above or below a leaf.\<close>

definition prefix_free :: "MergedConfigRow list \<Rightarrow> bool" where
  "prefix_free rows \<longleftrightarrow> (\<forall>r \<in> set rows. \<forall>r' \<in> set rows. \<not> strict_prefix (row_path r) (row_path r'))"

definition clear_of :: "gmap \<Rightarrow> MergedConfigRow list \<Rightarrow> bool" where
  "clear_of m rows \<longleftrightarrow> (\<forall>r \<in> set rows. \<forall>q. leaf_at q m \<noteq> None \<longrightarrow>
     \<not> strict_prefix (row_path r) q \<and> \<not> strict_prefix q (row_path r))"

lemma foldE_put_row_total:
  assumes "\<forall>r \<in> set rows. row_parses r" and "prefix_free rows" and "clear_of m rows"
  shows "\<exists>m'. foldE put_row rows m = Inr m'"
  using assms
proof (induction rows arbitrary: m)
  case (Cons r rows)
  have "\<forall>q. strict_prefix q (row_path r) \<longrightarrow> leaf_at q m = None"
    using Cons.prems(3) by (auto simp: clear_of_def)
  then obtain m1 where m1: "put_row r m = Inr m1"
    using put_path_Inr_iff[of "row_path r" "GRaw (m_Value r)" m] Cons.prems(1)
    by (auto simp: put_row_parsed)
  then have "clear_of m1 rows"
    using Cons.prems by (auto simp: clear_of_def prefix_free_def leaf_at_put_row[OF m1])
  moreover have "prefix_free rows" using Cons.prems(2) by (simp add: prefix_free_def)
  ultimately show ?case using Cons m1 by simp
qed simp

lemma foldE_put_row_leaves:
  assumes "foldE put_row rows m = Inr m'" and "\<forall>r \<in> set rows. row_parses r"
    and "prefix_free rows" and "clear_of m rows" and "distinct (map row_path rows)"
  shows "leaf_at q m' = Some w \<longleftrightarrow>
    (\<exists>r \<in> set rows. row_path r = q \<and> w = GRaw (m_Value r)) \<or>
    q \<notin> row_path ` set rows \<and> leaf_at q m = Some w"
  using assms
proof (induction rows arbitrary: m)
  case (Cons r rows)
  obtain m1 where m1: "put_row r m = Inr m1" and rest: "foldE put_row rows m1 = Inr m'"
    using Cons.prems(1) by (auto simp: bindE_eq_Inr)
  note leaf = leaf_at_put_row[OF m1]
  have r: "row_parses r" using Cons.prems(2) by simp
  have clear: "clear_of m1 rows"
    using Cons.prems r by (auto simp: clear_of_def prefix_free_def leaf)
  have "prefix_free rows" using Cons.prems(3) by (simp add: prefix_free_def)
  then have IH: "leaf_at q m' = Some w \<longleftrightarrow>
    (\<exists>r \<in> set rows. row_path r = q \<and> w = GRaw (m_Value r)) \<or>
    q \<notin> row_path ` set rows \<and> leaf_at q m1 = Some w"
    using Cons.IH[OF rest] Cons.prems clear by simp
  have "leaf_at q m \<noteq> None \<Longrightarrow> \<not> strict_prefix (row_path r) q"
    using Cons.prems(4) by (auto simp: clear_of_def)
  then have "leaf_at q m1 = (if q = row_path r then Some (GRaw (m_Value r)) else leaf_at q m)"
    using leaf[OF r, of q] by (cases "leaf_at q m") auto
  then show ?case using IH Cons.prems(5) by auto
qed simp

text \<open>A leaf below which a later row lies makes the assignment of that row panic.\<close>

lemma foldE_put_row_blocked:
  assumes "leaf_at q m \<noteq> None" and "r' \<in> set rows" and "strict_prefix q (row_path r')"
    and "\<forall>r \<in> set rows. row_parses r \<and> \<not> strict_prefix (row_path r) q"
  shows "foldE put_row rows m \<noteq> Inr m'"
  using assms
proof (induction rows arbitrary: m)
  case (Cons r rows)
  show ?case
  proof (cases "put_row r m")
    case (Inr m1)
    have r: "row_parses r" using Cons.prems(4) by simp
    have "\<forall>q. strict_prefix q (row_path r) \<longrightarrow> leaf_at q m = None"
      using Inr put_path_Inr_iff[of "row_path r" "GRaw (m_Value r)" m] by (auto simp: put_row_parsed r)
    then have "r' \<noteq> r" using Cons.prems(1,3) by auto
    moreover have "leaf_at q m1 \<noteq> None"
      using Cons.prems(1,4) leaf_at_put_row[OF Inr r, of q] by auto
    ultimately show ?thesis using Cons Inr by simp
  qed simp
qed simp

lemma dot_join_append: "p \<noteq> [] \<Longrightarrow> r \<noteq> [] \<Longrightarrow> dot_join (p @ r) = dot_join p @ dot # dot_join r"
proof (induction p)
  case (Cons s p)
  then show ?case by (cases "p = []") (simp_all add: dot_join_Cons)
qed simp

lemma dot_join_strict_prefix: "p \<noteq> [] \<Longrightarrow> strict_prefix p q \<Longrightarrow> dot_join p < dot_join q"
proof -
  assume "p \<noteq> []" and "strict_prefix p q"
  then obtain r where "q = p @ r" and "r \<noteq> []" by (auto elim: strict_prefixE')
  then have "dot_join q = dot_join p @ dot # dot_join r" using \<open>p \<noteq> []\<close> by (simp add: dot_join_append)
  then show ?thesis by (simp add: list_less_def lexord_append_rightI)
qed

lemma row_path_strict_prefix_less:
  "row_parses r \<Longrightarrow> row_parses r' \<Longrightarrow> strict_prefix (row_path r) (row_path r') \<Longrightarrow> m_Key r < m_Key r'"
  by (simp add: row_path_key dot_join_strict_prefix row_path_nonempty)

lemma foldE_put_row_sorted_prefix_free:
  assumes "foldE put_row rows m = Inr m'" and "sorted_wrt (<) (map m_Key rows)"
    and "\<forall>r \<in> set rows. row_parses r"
  shows "prefix_free rows"
  using assms
proof (induction rows arbitrary: m)
  case (Cons r rows)
  obtain m1 where m1: "put_row r m = Inr m1" and rest: "foldE put_row rows m1 = Inr m'"
    using Cons.prems(1) by (auto simp: bindE_eq_Inr)
  have r: "row_parses r" and later: "\<forall>r' \<in> set rows. row_parses r' \<and> m_Key r < m_Key r'"
    using Cons.prems(2,3) by auto
  have notbelow: "\<not> strict_prefix (row_path r') (row_path r)" if "r' \<in> set rows" for r'
    using that r later row_path_strict_prefix_less[of r' r] by force
  have "leaf_at (row_path r) m1 \<noteq> None" by (simp add: leaf_at_put_row[OF m1 r])
  then have "\<not> strict_prefix (row_path r) (row_path r')" if "r' \<in> set rows" for r'
    using foldE_put_row_blocked[of "row_path r" m1 r' rows m'] rest that later notbelow by auto
  moreover have "prefix_free rows" using Cons.IH[OF rest] Cons.prems by simp
  ultimately show ?case using notbelow by (auto simp: prefix_free_def)
qed (simp add: prefix_free_def)

lemma foldE_Inr_parses: "foldE put_row rows m = Inr m' \<Longrightarrow> r \<in> set rows \<Longrightarrow> row_parses r"
  by (induction rows arbitrary: m) (auto simp: bindE_eq_Inr put_row_def row_parses_def)

lemma distinct_row_path:
  "\<forall>r \<in> set rows. row_parses r \<Longrightarrow> distinct (map m_Key rows) \<Longrightarrow> distinct (map row_path rows)"
  by (induction rows) (auto simp: row_path_key)

lemma clear_of_empty [simp]: "clear_of [] rows"
  by (simp add: clear_of_def)

text \<open>
  C28. The nested values of a merged configuration: rows come in strict key order, as both merges
  return them. When \<open>MakeHelmConfigMap\<close> succeeds, the nested map has a leaf at a path exactly when
  some row's key is that path, and the leaf is the row's raw JSON value: nothing is lost, overwritten
  or invented.
\<close>

theorem MakeHelmConfigMap_leaves:
  assumes "sorted_wrt (<) (map m_Key vals)" and "MakeHelmConfigMap vals = Inr m"
  shows "leaf_at q m = Some w \<longleftrightarrow>
    (\<exists>r \<in> set vals. SmartDotSplit (m_Key r) = Inr q \<and> w = GRaw (m_Value r))"
proof -
  have fold: "foldE put_row vals [] = Inr m"
    using assms(2) by (auto simp: MakeHelmConfigMap_def bindE_eq_Inr)
  then have parses: "\<forall>r \<in> set vals. row_parses r" using foldE_Inr_parses by blast
  have "distinct (map m_Key vals)" using assms(1) by (simp add: strict_sorted_iff)
  then have "leaf_at q m = Some w \<longleftrightarrow> (\<exists>r \<in> set vals. row_path r = q \<and> w = GRaw (m_Value r))"
    using foldE_put_row_leaves[OF fold parses] parses fold assms(1)
    by (simp add: foldE_put_row_sorted_prefix_free distinct_row_path)
  then show ?thesis using parses by (auto simp: row_parses_iff)
qed

theorem MakeHelmConfigMap_leaves_witness:
  "leaf_at [''a'', ''b''] [(''a'', GMap [(''b'', GRaw ''1''), (''c'', GRaw ''2'')])] = Some (GRaw ''1'')"
  using MakeHelmConfigMap_leaves
    [of "[\<lparr>m_ID = 1, m_Key = ''a.b'', m_Value = ''1'', m_Secret = False, m_Created = 0, m_EnvironmentID = None\<rparr>,
          \<lparr>m_ID = 2, m_Key = ''a.c'', m_Value = ''2'', m_Secret = False, m_Created = 0, m_EnvironmentID = Some 7\<rparr>]"
        "[(''a'', GMap [(''b'', GRaw ''1''), (''c'', GRaw ''2'')])]" "[''a'', ''b'']" "GRaw ''1''"]
  by (simp add: MakeHelmConfigMap_def check_nestable_def put_row_def SmartDotSplit_def
      strings_HasSuffix_def strings_HasPrefix_def upt_rec less_list_code)

subsection \<open>When it succeeds\<close>

lemma dot_join_plain: "\<forall>s \<in> set segs. dot \<notin> set s \<Longrightarrow> dot_join segs = strings_Join segs [dot]"
  by (simp add: dot_join_def dot_escape_plain cong: map_cong)

lemma backslash_dot_escape_set: "set (dot_escape seg) \<subseteq> set (dot_join segs)" if "seg \<in> set segs"
  using that
proof (induction segs)
  case (Cons s segs)
  then show ?case by (cases "segs = []") (auto simp: dot_join_Cons)
qed simp

text \<open>A key without a backslash has no dot inside a segment.\<close>

lemma plain_key_segments:
  assumes "SmartDotSplit key = Inr segs" and "backslash \<notin> set key" and "seg \<in> set segs"
  shows "dot \<notin> set seg \<and> backslash \<notin> set seg"
proof -
  have "set (dot_escape seg) \<subseteq> set key"
    using backslash_dot_escape_set[OF assms(3)] SmartDotSplit_sound[OF assms(1)] by simp
  then have nb: "backslash \<notin> set (dot_escape seg)" using assms(2) by auto
  then have nd: "dot \<notin> set seg" using dot_escape_backslash by blast
  then show ?thesis using nb by (simp add: dot_escape_plain)
qed

lemma plain_prefix_parses:
  assumes "SmartDotSplit key = Inr segs" and "backslash \<notin> set key" and "0 < i" and "i < length segs"
  shows "SmartDotSplit (strings_Join (take i segs) [dot]) = Inr (take i segs)"
proof -
  have plain: "\<forall>s \<in> set (take i segs). dot \<notin> set s \<and> backslash \<notin> set s"
    using plain_key_segments[OF assms(1,2)] by (auto dest: in_set_takeD)
  have "dot_path_ok segs" using SmartDotSplit_sound[OF assms(1)] by simp
  then have ne: "\<forall>s \<in> set segs. s \<noteq> []"
    using assms(3,4) by (auto simp: dot_path_ok_def)
  have last: "s \<in> set (take i segs) \<Longrightarrow> last s \<noteq> dot \<and> last s \<noteq> backslash" for s
    using plain ne by (metis in_set_takeD last_in_set)
  have tk: "take i segs \<noteq> []" using assms(3,4) by auto
  then have "dot_path_ok (take i segs)"
    using ne last by (auto simp: dot_path_ok_def dest: in_set_butlastD in_set_takeD intro: last_in_set)
  then have "SmartDotSplit (dot_join (take i segs)) = Inr (take i segs)" by (rule SmartDotSplit_complete)
  then show ?thesis using plain by (simp add: dot_join_plain)
qed

lemma strict_prefix_take: "strict_prefix p q \<longleftrightarrow> (\<exists>i < length q. p = take i q)"
proof
  assume "strict_prefix p q"
  then obtain z zs where q: "q = p @ z # zs" by (auto elim: strict_prefixE')
  have "take (length p) q = p" unfolding q by simp
  moreover have "length p < length q" unfolding q by simp
  ultimately show "\<exists>i < length q. p = take i q" by metis
next
  assume "\<exists>i < length q. p = take i q"
  then obtain i where "i < length q" and "p = take i q" by blast
  then show "strict_prefix p q" by (simp add: strict_prefix_def take_is_prefix)
qed

lemma check_nestable_plain:
  assumes "SmartDotSplit (m_Key v) = Inr segs" and "backslash \<notin> set (m_Key v)"
    and "\<forall>r \<in> set rows. row_parses r"
  shows "check_nestable (map m_Key rows) v = Inr () \<longleftrightarrow> (\<forall>r \<in> set rows. \<not> strict_prefix (row_path r) segs)"
proof -
  have key: "strings_Join (take i segs) [dot] = m_Key r \<longleftrightarrow> row_path r = take i segs"
    if "0 < i" "i < length segs" "r \<in> set rows" for i r
    using plain_prefix_parses[OF assms(1,2) that(1,2)] that(3) assms(3) row_parses_iff SmartDotSplit_inj
    by (metis sum.inject(2))
  have "check_nestable (map m_Key rows) v = Inr () \<longleftrightarrow>
      (\<forall>i. 0 < i \<and> i < length segs \<longrightarrow> strings_Join (take i segs) [dot] \<notin> m_Key ` set rows)"
  proof (cases "find (\<lambda>i. List.member (map m_Key rows) (strings_Join (take i segs) [dot])) [1..<length segs]")
    case None
    then have "check_nestable (map m_Key rows) v = Inr ()"
      by (simp only: check_nestable_def assms(1) bindE_simps option.case)
    moreover have "\<forall>i. 0 < i \<and> i < length segs \<longrightarrow> strings_Join (take i segs) [dot] \<notin> m_Key ` set rows"
      using None by (auto simp: find_None_iff image_iff)
    ultimately show ?thesis by simp
  next
    case (Some i)
    then have "check_nestable (map m_Key rows) v \<noteq> Inr ()"
      by (simp only: check_nestable_def assms(1) bindE_simps option.case) simp
    moreover have "0 < i \<and> i < length segs \<and> strings_Join (take i segs) [dot] \<in> m_Key ` set rows"
      using find_SomeD[OF Some] by (auto simp: image_iff)
    ultimately show ?thesis by blast
  qed
  also have "\<dots> \<longleftrightarrow> (\<forall>r \<in> set rows. \<forall>i. 0 < i \<and> i < length segs \<longrightarrow> row_path r \<noteq> take i segs)"
    using key by (auto simp: image_iff)
  also have "\<dots> \<longleftrightarrow> (\<forall>r \<in> set rows. \<not> strict_prefix (row_path r) segs)"
  proof (intro ball_cong refl)
    fix r assume "r \<in> set rows"
    then have "row_path r \<noteq> []" using assms(3) row_path_nonempty by blast
    then have "row_path r = take i segs \<Longrightarrow> 0 < i" for i by (cases i) auto
    then show "(\<forall>i. 0 < i \<and> i < length segs \<longrightarrow> row_path r \<noteq> take i segs) \<longleftrightarrow>
        \<not> strict_prefix (row_path r) segs"
      unfolding strict_prefix_take by blast
  qed
  finally show ?thesis .
qed

lemma mapE_unit_iff: "mapE f xs = Inr us \<Longrightarrow> x \<in> set xs \<Longrightarrow> f x = Inr (() :: unit)"
  by (induction xs arbitrary: us) (auto simp: bindE_eq_Inr)

lemma mapE_unit_all: "(\<exists>us. mapE f xs = Inr us) \<longleftrightarrow> (\<forall>x \<in> set xs. f x = Inr (() :: unit))"
  using mapE_all_Inr[of xs f "\<lambda>_. ()"] mapE_unit_iff[of f xs] by blast

text \<open>
  When configuration can be nested: if no key has an escaped dot, \<open>MakeHelmConfigMap\<close> succeeds
  exactly when every key is a valid dotted key and no key is a strict dotted prefix of another; it
  never panics.
\<close>

theorem MakeHelmConfigMap_plain:
  assumes "\<forall>r \<in> set vals. backslash \<notin> set (m_Key r)"
  shows "((\<exists>m. MakeHelmConfigMap vals = Inr m) \<longleftrightarrow> (\<forall>r \<in> set vals. row_parses r) \<and> prefix_free vals)
    \<and> MakeHelmConfigMap vals \<noteq> Inl (Panic msg)"
proof -
  let ?ck = "check_nestable (map m_Key vals)"
  have parse_err: "check_nestable ks r \<noteq> Inl (Panic msg)" for ks r
  proof -
    have "dot_loop s i rest str ret \<noteq> Inl (Panic msg)" for s i rest str ret
      by (induction s i rest str ret rule: dot_loop.induct) auto
    then show ?thesis
      by (auto simp: check_nestable_def SmartDotSplit_def bindE_eq_Inl split: option.splits if_splits)
  qed
  have checked: "(\<forall>r \<in> set vals. ?ck r = Inr ()) \<longleftrightarrow> (\<forall>r \<in> set vals. row_parses r) \<and> prefix_free vals"
  proof (cases "\<forall>r \<in> set vals. row_parses r")
    case True
    then show ?thesis
      using assms check_nestable_plain[OF _ _ True] by (auto simp: prefix_free_def row_parses_iff)
  next
    case False
    then obtain r where "r \<in> set vals" and "\<not> row_parses r" by blast
    moreover from this have "?ck r \<noteq> Inr ()"
      by (auto simp: check_nestable_def row_parses_def split: sum.splits)
    ultimately show ?thesis by blast
  qed
  have ok: "\<exists>m. MakeHelmConfigMap vals = Inr m"
    if "\<forall>r \<in> set vals. row_parses r" and "prefix_free vals"
  proof -
    note clear = that
    then have "\<forall>r \<in> set vals. ?ck r = Inr ()" using checked by simp
    then obtain us where "mapE ?ck vals = Inr us" using mapE_unit_all[of ?ck vals] by blast
    moreover obtain m where "foldE put_row vals [] = Inr m"
      using foldE_put_row_total[OF clear clear_of_empty] by auto
    ultimately show ?thesis by (simp add: MakeHelmConfigMap_def)
  qed
  have bad: "\<exists>e. MakeHelmConfigMap vals = Inl e \<and> e \<noteq> Panic msg" if "\<not> (\<forall>r \<in> set vals. ?ck r = Inr ())"
  proof -
    note failing = that
    obtain e where e: "mapE ?ck vals = Inl e"
      using failing mapE_unit_all[of ?ck vals] by (cases "mapE ?ck vals") auto
    have "mapE ?ck xs = Inl (Panic msg) \<Longrightarrow> False" for xs
      using parse_err by (induction xs) (auto simp: bindE_eq_Inl)
    then show ?thesis using e by (auto simp: MakeHelmConfigMap_def)
  qed
  show ?thesis
  proof (cases "\<forall>r \<in> set vals. ?ck r = Inr ()")
    case True
    then show ?thesis using ok checked by auto
  next
    case False
    then show ?thesis using bad[OF False] checked by auto
  qed
qed

definition example_row :: "string \<Rightarrow> MergedConfigRow" where
  "example_row key = \<lparr>m_ID = 1, m_Key = key, m_Value = ''true'', m_Secret = False, m_Created = 0,
     m_EnvironmentID = None\<rparr>"

lemmas helm_eval = MakeHelmConfigMap_def check_nestable_def put_row_def SmartDotSplit_def
  strings_HasSuffix_def strings_HasPrefix_def upt_rec example_row_def

theorem MakeHelmConfigMap_plain_witness:
  "(\<exists>m. MakeHelmConfigMap [example_row ''a'', example_row ''b.c''] = Inr m) \<and>
   prefix_free [example_row ''a'', example_row ''b.c'']"
  using MakeHelmConfigMap_plain[of "[example_row ''a'', example_row ''b.c'']" "[]"]
  by (simp add: helm_eval)

text \<open>
  Escaped dots defeat the nesting check: the check joins path segments without escaping them but
  compares with escaped keys. The keys \<open>a\.b\<close> and \<open>a\.b.c\<close> pass it and the assignment panics,
  while \<open>a.b\<close> and \<open>a\.b.c\<close>, which do not overlap, are refused.
\<close>

theorem MakeHelmConfigMap_escaped_keys:
  "MakeHelmConfigMap [example_row (''a'' @ [backslash] @ ''.b''), example_row (''a'' @ [backslash] @ ''.b.c'')]
     = Inl (Panic ''interface conversion: interface {} is not map[string]interface {}'')
   \<and> MakeHelmConfigMap [example_row ''a.b'', example_row (''a'' @ [backslash] @ ''.b.c'')]
     = Inl (Errorf ''key a.b is not nestable'')"
  by (simp add: helm_eval)

section \<open>Required fields\<close>

definition RequiredFields :: "Values \<Rightarrow> EnvironmentKind \<Rightarrow> string list" where
  "RequiredFields values envKind =
     map fst (filter (\<lambda>(k, v). \<not> List.member (v_IgnoreKind v) envKind \<and> v_Required v) values)"

fun field_missing :: "string list \<Rightarrow> gmap \<Rightarrow> bool" where
  "field_missing [] parent = False"
| "field_missing (part # rest) parent =
     (case map_of parent part of
        None \<Rightarrow> True
      | Some v \<Rightarrow>
          if v = GNil then True
          else if rest = [] then False
          else (case v of GMap p \<Rightarrow> field_missing rest p | _ \<Rightarrow> field_missing rest parent))"

definition ValidateFields ::
  "Values \<Rightarrow> EnvironmentKind \<Rightarrow> MergedConfigRow list \<Rightarrow> gmap \<Rightarrow> string list" where
  "ValidateFields fvalues envKind values mp =
     (let fields = index_by id (\<lambda>req. list_ex (\<lambda>k. m_Key k = req) values) (RequiredFields fvalues envKind);
          missing = filter (\<lambda>(field, present). \<not> present \<and>
              field_missing (case SmartDotSplit field of Inr parts \<Rightarrow> parts | Inl _ \<Rightarrow> []) mp) fields
      in sort (map fst missing))"

text \<open>A field whose path leads to a value other than nil is never reported.\<close>

lemma get_path_not_missing:
  "get_path parts mp = Some v \<Longrightarrow> v \<noteq> GNil \<Longrightarrow> \<not> field_missing parts mp"
proof (induction parts arbitrary: mp)
  case (Cons part rest)
  show ?case
  proof (cases "rest = []")
    case False
    then obtain e where e: "map_of mp part = Some e"
      using Cons.prems(1) by (cases "map_of mp part") (simp_all add: get_path_Cons)
    then show ?thesis using Cons False by (cases e) (simp_all add: get_path_Cons)
  qed (use Cons.prems in simp)
qed simp

text \<open>Along maps only, a field is missing exactly when its path leads nowhere or to nil.\<close>

definition maps_along :: "string list \<Rightarrow> gmap \<Rightarrow> bool" where
  "maps_along parts mp \<longleftrightarrow> (\<forall>q. strict_prefix q parts \<longrightarrow> leaf_at q mp \<in> {None, Some GNil})"

lemma maps_along_Cons:
  "maps_along (part # rest) mp \<longleftrightarrow> rest = [] \<or>
     (case map_of mp part of Some (GMap sub) \<Rightarrow> maps_along rest sub
      | Some v \<Rightarrow> v = GNil | None \<Rightarrow> True)"
proof (cases "rest = []")
  case True
  then show ?thesis by (auto simp: maps_along_def strict_prefix_def prefix_Cons)
next
  case False
  have split: "maps_along (part # rest) mp \<longleftrightarrow>
      (\<forall>q. strict_prefix q rest \<longrightarrow> leaf_at (part # q) mp \<in> {None, Some GNil})"
    by (auto simp: maps_along_def strict_prefix_def prefix_Cons)
  have nil: "strict_prefix [] rest" using False by (simp add: strict_prefix_def)
  show ?thesis
  proof (cases "map_of mp part")
    case None
    then have "leaf_at (part # q) mp = None" for q
      by (cases "q = []") (simp_all add: leaf_at_single leaf_at_Cons)
    then show ?thesis using split None by simp
  next
    case (Some v)
    have top: "leaf_at [part] mp = (if is_GMap v then None else Some v)" using Some by (simp add: leaf_at_single)
    have below: "q \<noteq> [] \<Longrightarrow> leaf_at (part # q) mp = (case v of GMap sub \<Rightarrow> leaf_at q sub | _ \<Rightarrow> None)" for q
      using Some by (simp add: leaf_at_Cons)
    show ?thesis
    proof (cases "is_GMap v")
      case True
      then obtain sub where "v = GMap sub" by (auto simp: is_GMap_iff)
      moreover from this have "leaf_at (part # q) mp = leaf_at q sub" for q
        using below[of q] top by (cases "q = []") simp_all
      ultimately show ?thesis using split Some False by (simp add: maps_along_def)
    next
      case leaf: False
      then have "q \<noteq> [] \<Longrightarrow> leaf_at (part # q) mp = None" for q
        using below[of q] by (cases v) simp_all
      then have "(\<forall>q. strict_prefix q rest \<longrightarrow> leaf_at (part # q) mp \<in> {None, Some GNil}) \<longleftrightarrow> v = GNil"
        using top leaf nil by (metis (no_types, lifting) insert_iff option.distinct(1) option.inject singletonD)
      then show ?thesis using split Some False leaf by (cases v) simp_all
    qed
  qed
qed

lemma field_missing_iff:
  assumes "maps_along parts mp" and "parts \<noteq> []"
  shows "field_missing parts mp \<longleftrightarrow> get_path parts mp = None \<or> get_path parts mp = Some GNil"
  using assms
proof (induction parts arbitrary: mp)
  case (Cons part rest)
  show ?case
  proof (cases "rest = []")
    case False
    show ?thesis
    proof (cases "map_of mp part")
      case (Some v)
      then show ?thesis
        using Cons.prems(1) Cons.IH False
        by (cases v) (simp_all add: maps_along_Cons get_path_Cons)
    qed (simp add: False get_path_Cons)
  qed (auto split: option.splits)
qed simp

lemma RequiredFields_iff:
  "k \<in> set (RequiredFields values kind) \<longleftrightarrow>
     (\<exists>v. (k, v) \<in> set values \<and> v_Required v \<and> kind \<notin> set (v_IgnoreKind v))"
  by (force simp: RequiredFields_def)

lemma index_by_id_entries: "set (index_by id P xs) = (\<lambda>x. (x, P x)) ` set xs"
proof (intro set_eqI iffI)
  fix e assume "e \<in> set (index_by id P xs)"
  then have "map_of (index_by id P xs) (fst e) = Some (snd e)"
    by (metis gm_ok_distinct index_by_ok map_of_is_SomeI prod.collapse)
  then obtain x where "x \<in> set xs" "x = fst e" "P x = snd e" using index_by_SomeD by fastforce
  then show "e \<in> (\<lambda>x. (x, P x)) ` set xs" by force
next
  fix e assume "e \<in> (\<lambda>x. (x, P x)) ` set xs"
  then obtain x where x: "x \<in> set xs" and e: "e = (x, P x)" by blast
  then obtain v where v: "map_of (index_by id P xs) x = Some v"
    using index_by_None_iff[of id P xs x] by (cases "map_of (index_by id P xs) x") auto
  then have "v = P x" using index_by_SomeD[OF v] by auto
  then show "e \<in> set (index_by id P xs)" using v e by (simp add: map_of_SomeD)
qed

lemma set_ValidateFields:
  "set (ValidateFields fvalues kind values mp) =
     {k \<in> set (RequiredFields fvalues kind). k \<notin> m_Key ` set values \<and>
        field_missing (case SmartDotSplit k of Inr parts \<Rightarrow> parts | Inl _ \<Rightarrow> []) mp}"
  by (force simp: ValidateFields_def index_by_id_entries list_ex_iff image_iff)

lemma ValidateFields_sorted:
  "sorted (ValidateFields fvalues kind values mp) \<and> distinct (ValidateFields fvalues kind values mp)"
proof -
  have "distinct (map fst (index_by id P xs))" for P :: "string \<Rightarrow> bool" and xs
    by (rule gm_ok_distinct) simp
  then show ?thesis by (simp add: ValidateFields_def distinct_map_filter)
qed

text \<open>
  Required configuration: where the rendered values have no leaf above a required field's path,
  \<open>ValidateFields\<close> reports, in order and once each, exactly the required fields of the feature that
  the environment's kind does not ignore, that no configuration row sets, and whose path leads to no
  value or to nil.
\<close>

theorem ValidateFields_correct:
  assumes "\<forall>k \<in> set (RequiredFields fvalues kind). \<exists>p. SmartDotSplit k = Inr p \<and> maps_along p mp"
  shows "set (ValidateFields fvalues kind values mp) =
      {k. (\<exists>v. (k, v) \<in> set fvalues \<and> v_Required v \<and> kind \<notin> set (v_IgnoreKind v)) \<and>
          k \<notin> m_Key ` set values \<and>
          (\<exists>p. SmartDotSplit k = Inr p \<and> (get_path p mp = None \<or> get_path p mp = Some GNil))}
    \<and> sorted (ValidateFields fvalues kind values mp)
    \<and> distinct (ValidateFields fvalues kind values mp)"
proof -
  have main: "field_missing (case SmartDotSplit k of Inr parts \<Rightarrow> parts | Inl _ \<Rightarrow> []) mp \<longleftrightarrow>
      (\<exists>p. SmartDotSplit k = Inr p \<and> (get_path p mp = None \<or> get_path p mp = Some GNil))"
    if req: "k \<in> set (RequiredFields fvalues kind)" for k
  proof -
    obtain p where p: "SmartDotSplit k = Inr p" and along: "maps_along p mp" using assms req by blast
    then show ?thesis using field_missing_iff[OF along] SmartDotSplit_nonempty[OF p] by simp
  qed
  have "set (ValidateFields fvalues kind values mp) =
      {k. k \<in> set (RequiredFields fvalues kind) \<and> k \<notin> m_Key ` set values \<and>
          (\<exists>p. SmartDotSplit k = Inr p \<and> (get_path p mp = None \<or> get_path p mp = Some GNil))}"
    unfolding set_ValidateFields by (intro Collect_cong conj_cong refl main)
  then show ?thesis
    unfolding RequiredFields_iff using ValidateFields_sorted by blast
qed

definition required_value :: Value where
  "required_value = \<lparr>v_Description = [], v_DisplayName = [], v_Required = True, v_Computed = None,
     v_Config = Some \<lparr>cfg_Type = ''string'', cfg_Secret = False\<rparr>, v_IgnoreKind = [EnvironmentKindManagement]\<rparr>"

lemmas validate_eval = ValidateFields_def RequiredFields_def required_value_def index_by_def
  SmartDotSplit_def strings_HasSuffix_def strings_HasPrefix_def

theorem ValidateFields_correct_witness:
  "''a.b'' \<in> set (ValidateFields [(''a.b'', required_value)] EnvironmentKindTenant [] [(''a'', GMap [])])"
proof -
  have req: "set (RequiredFields [(''a.b'', required_value)] EnvironmentKindTenant) = {''a.b''}"
    by (simp add: RequiredFields_def required_value_def EnvironmentKindTenant_def EnvironmentKindManagement_def)
  have split: "SmartDotSplit ''a.b'' = Inr [''a'', ''b'']"
    by (simp add: SmartDotSplit_def strings_HasSuffix_def strings_HasPrefix_def)
  have along: "maps_along [''a'', ''b''] [(''a'', GMap [])]" by (simp add: maps_along_Cons)
  show ?thesis
    using ValidateFields_correct[of "[(''a.b'', required_value)]" EnvironmentKindTenant "[(''a'', GMap [])]" "[]"]
      req split along
    by (simp add: required_value_def EnvironmentKindTenant_def EnvironmentKindManagement_def)
qed

text \<open>
  A leaf in the middle of a required path: the walk of \<open>ValidateFields\<close> stays at the parent map
  when it meets a value that is not a map, so the required field \<open>a.b\<close> counts as set when \<open>a\<close> is a
  string and an unrelated top-level \<open>b\<close> exists, although \<open>a.b\<close> has no value.
\<close>

theorem ValidateFields_skips_leaf:
  "ValidateFields [(''a.b'', required_value)] EnvironmentKindTenant [] [(''a'', GStr ''x''), (''b'', GStr ''y'')] = []
   \<and> get_path [''a'', ''b''] [(''a'', GStr ''x''), (''b'', GStr ''y'')] = None"
  by (simp add: validate_eval EnvironmentKindTenant_def EnvironmentKindManagement_def)

section \<open>Chart defaults\<close>

text \<open>\<open>json.Marshal\<close> is a parameter; \<open>pluckFromMap\<close> ignores its error.\<close>

fun pluck_loop :: "(gval \<Rightarrow> err + string) \<Rightarrow> string list \<Rightarrow> gmap \<Rightarrow> string" where
  "pluck_loop marshal [] mp = []"
| "pluck_loop marshal (k # ks) mp =
     (case map_of mp k of
        None \<Rightarrow> []
      | Some v \<Rightarrow> (case v of
            GMap sub \<Rightarrow> pluck_loop marshal ks sub
          | _ \<Rightarrow> (case marshal v of Inr b \<Rightarrow> b | Inl _ \<Rightarrow> [])))"

definition pluckFromMap :: "(gval \<Rightarrow> err + string) \<Rightarrow> string \<Rightarrow> gmap \<Rightarrow> string" where
  "pluckFromMap marshal key mp =
     pluck_loop marshal (case SmartDotSplit key of Inr kp \<Rightarrow> kp | Inl _ \<Rightarrow> []) mp"

definition normalizedYAML :: "(gval \<Rightarrow> err + string) \<Rightarrow> gmap option \<Rightarrow> 'a Feature_scheme \<Rightarrow> 'a Feature_scheme" where
  "normalizedYAML marshal valuesYAML f =
     (case valuesYAML of
        None \<Rightarrow> f
      | Some yaml \<Rightarrow>
          if length (f_Values f) = 0 then f
          else f \<lparr>f_ValuesYAML := fold (\<lambda>(k, v) m. if v_Config v = None then m
            else gm_put k (pluckFromMap marshal k yaml) m) (f_Values f) []\<rparr>)"

definition SecretKeys :: "Values \<Rightarrow> string list" where
  "SecretKeys values = map fst (filter (\<lambda>(key, val).
     case v_Config val of Some c \<Rightarrow> cfg_Secret c | None \<Rightarrow> False) values)"

lemma pluck_loop_leaf:
  "leaf_at path mp = Some v \<Longrightarrow> marshal v = Inr b \<Longrightarrow> pluck_loop marshal path mp = b"
proof (induction path arbitrary: mp)
  case (Cons k ks)
  obtain e where e: "map_of mp k = Some e"
    using Cons.prems(1) by (cases "ks = []"; cases "map_of mp k") (simp_all add: leaf_at_single leaf_at_Cons)
  show ?case
  proof (cases "ks = []")
    case True
    then show ?thesis using Cons.prems e by (cases e) (auto simp: leaf_at_single)
  next
    case False
    then show ?thesis using Cons e by (cases e) (simp_all add: leaf_at_Cons)
  qed
qed simp

lemma normalizedYAML_lookup:
  assumes "(k, v) \<in> set (f_Values f)" and "v_Config v = Some c"
  shows "map_of (f_ValuesYAML (normalizedYAML marshal (Some chart) f)) k = Some (pluckFromMap marshal k chart)"
proof -
  let ?step = "\<lambda>(k, v) m. if v_Config v = None then m else gm_put k (pluckFromMap marshal k chart) m"
  have "(k, v) \<in> set vs \<Longrightarrow> map_of (fold ?step vs m) k = Some (pluckFromMap marshal k chart)"
    for vs :: "(string \<times> Value) list" and m
    using assms(2) by (induction vs rule: rev_induct) auto
  moreover have "length (f_Values f) \<noteq> 0" using assms(1) by auto
  ultimately show ?thesis using assms(1) by (simp add: normalizedYAML_def)
qed

end
