(* ===== verification/Render.thy ===== *)
theory Render
  imports Helm_Config
begin

text \<open>
  Computed values and the final Helm values: \<open>internal/feature/computed.go\<close> and \<open>RenderHelmValues\<close>
  of \<open>internal/feature/queries.go\<close>.

  Template execution (Go's \<open>text/template\<close> with the feature's functions), YAML and JSON decoding and
  encoding (the typed decodings of stored dependencies, values and defaults too) and SHA-256 are
  parameters, the fields of \<open>externals\<close>. An \<open>externals\<close> says what they give during one operation, a
  cycle of the reconciler or one page: the template functions read the clock and draw random strings
  (\<open>now\<close>, \<open>randAlphaNum\<close>, \<open>uuidv4\<close>), so \<open>x_render x k cv tpl\<close> is what executing the template \<open>tpl\<close> of the
  declared key \<open>k\<close> on \<open>cv\<close> gives in that operation, and another operation has another \<open>x\<close>.

  Go ranges over the declared values in an order it leaves open and chooses anew for every range:
  \<open>x_rank x cv k\<close> is the place of key \<open>k\<close> in the range of the call on \<open>cv\<close>, an arbitrary number. Computed
  keys that do not nest give the same result in every order; configuration always wins over computed
  values. \<open>steady\<close> says when two operations render a feature alike.
\<close>

record externals =
  x_render :: "string \<Rightarrow> ComputedValues \<Rightarrow> string \<Rightarrow> err + string"
  x_rank :: "ComputedValues \<Rightarrow> string \<Rightarrow> nat"
  x_yaml :: "string \<Rightarrow> err + gval"
  x_marshal :: "gval \<Rightarrow> err + string"
  x_unmarshal :: "string \<Rightarrow> err + gval"
  x_sha256 :: "string \<Rightarrow> string"
  x_decode_dependencies :: "string \<Rightarrow> err + Dependencies"
  x_decode_values :: "string \<Rightarrow> err + Values"
  x_decode_defaults :: "string \<Rightarrow> err + (string, string) gomap"

section \<open>Templates\<close>

text \<open>
  \<open>renderString\<close> with its process-wide cache of parsed templates: parsing with the function map and
  executing are parameters. The cache is threaded through, and so is the world that the template
  functions read and change, with the clock and the source of random numbers.
\<close>

definition renderString ::
  "('funcs \<Rightarrow> string \<Rightarrow> err + 'tpl) \<Rightarrow> ('tpl \<Rightarrow> ComputedValues \<Rightarrow> 'w \<Rightarrow> (err + string) \<times> 'w) \<Rightarrow>
   ComputedValues \<Rightarrow> string \<Rightarrow> 'funcs \<Rightarrow> (string, 'tpl) gomap \<times> 'w \<Rightarrow> (err + string) \<times> (string, 'tpl) gomap \<times> 'w" where
  "renderString parse execute values tpl funcs state =
     (case state of (cache, w) \<Rightarrow>
       (case map_of cache tpl of
          Some t \<Rightarrow> (case execute t values w of (r, w') \<Rightarrow> (r, cache, w'))
        | None \<Rightarrow> (case parse funcs tpl of
              Inl e \<Rightarrow> (Inl e, cache, w)
            | Inr parsed \<Rightarrow> (case execute parsed values w of (r, w') \<Rightarrow> (r, gm_put tpl parsed cache, w')))))"

definition cache_coherent :: "('funcs \<Rightarrow> string \<Rightarrow> err + 'tpl) \<Rightarrow> 'funcs \<Rightarrow> (string, 'tpl) gomap \<Rightarrow> bool" where
  "cache_coherent parse funcs cache \<longleftrightarrow> (\<forall>tpl t. map_of cache tpl = Some t \<longrightarrow> parse funcs tpl = Inr t)"

text \<open>While one function map is in use the cache changes nothing but the time it takes.\<close>

lemma renderString_coherent:
  assumes "cache_coherent parse funcs cache"
  shows "fst (renderString parse execute values tpl funcs (cache, w)) =
      bindE (parse funcs tpl) (\<lambda>t. fst (execute t values w))"
    and "cache_coherent parse funcs (fst (snd (renderString parse execute values tpl funcs (cache, w))))"
  using assms
  by (auto simp: renderString_def cache_coherent_def split: option.splits sum.splits if_splits prod.splits)

fun repairMapAny :: "gval \<Rightarrow> err + gval" where
  "repairMapAny (GList vs) = bindE (mapE repairMapAny vs) (\<lambda>vs'. Inr (GList vs'))"
| "repairMapAny (GAny entries) =
     bindE (mapE (\<lambda>(k, v). case k of
                      GStr s \<Rightarrow> bindE (repairMapAny v) (\<lambda>v'. Inr (s, v'))
                    | _ \<Rightarrow> Inl (Panic ''interface conversion: interface {} is not string'')) entries)
       (\<lambda>kvs. Inr (GMap (fold (\<lambda>(s, v') nm. gm_put s v' nm) kvs [])))"
| "repairMapAny v = Inr v"

text \<open>The declared key \<open>k\<close> that a template is rendered for tells the executions of one operation apart.\<close>

definition renderTemplate :: "externals \<Rightarrow> string \<Rightarrow> ComputedValues \<Rightarrow> string \<Rightarrow> err + gval" where
  "renderTemplate x k values tpl =
     (if tpl = [] then Inl (Errorf ''empty template'')
      else bindE (x_render x k values tpl) (\<lambda>rdr. bindE (x_yaml x rdr) repairMapAny))"

section \<open>Computed values\<close>

definition copyMap :: "externals \<Rightarrow> gmap option \<Rightarrow> gmap" where
  "copyMap x m =
     (case m of
        None \<Rightarrow> []
      | Some m' \<Rightarrow> (case x_marshal x (GMap m') of
            Inl _ \<Rightarrow> []
          | Inr b \<Rightarrow> (case x_unmarshal x b of Inr (GMap ret) \<Rightarrow> ret | _ \<Rightarrow> [])))"

definition ContainsKind :: "EnvironmentKind list \<Rightarrow> EnvironmentKind \<Rightarrow> bool" where
  "ContainsKind kinds kind \<longleftrightarrow> List.member kinds kind"

fun addToMap :: "externals \<Rightarrow> string \<Rightarrow> ComputedValues \<Rightarrow> string list \<Rightarrow> string \<Rightarrow> gmap \<Rightarrow> err + gmap" where
  "addToMap x k values [] v target = Inl (Panic ''index out of range [0] with length 0'')"
| "addToMap x k values [key] v target =
     (case renderTemplate x k values v of
        Inl e \<Rightarrow> Inl (Wrap key e)
      | Inr val \<Rightarrow> (case map_of target key of
            Some _ \<Rightarrow> Inr target
          | None \<Rightarrow> Inr (gm_put key val target)))"
| "addToMap x k values (key # rest) v target =
     (case (case map_of target key of None \<Rightarrow> GMap [] | Some t \<Rightarrow> t) of
        GMap tt \<Rightarrow> bindE (addToMap x k values rest v tt) (\<lambda>tt'. Inr (gm_put key (GMap tt') target))
      | _ \<Rightarrow> Inl (Errorf (''key '' @ key @ '' is not nestable'')))"

definition generate_step ::
  "externals \<Rightarrow> EnvironmentKind \<Rightarrow> ComputedValues \<Rightarrow> string \<times> Value \<Rightarrow> gmap \<Rightarrow> err + gmap" where
  "generate_step x kind values kv target =
     (case v_Computed (snd kv) of
        None \<Rightarrow> Inr target
      | Some c \<Rightarrow>
          if ContainsKind (v_IgnoreKind (snd kv)) kind then Inr target
          else bindE (SmartDotSplit (fst kv)) (\<lambda>keys. addToMap x (fst kv) values keys (cmp_Template c) target))"

text \<open>The range over a map: its entries in the order of this call.\<close>

definition range_order :: "externals \<Rightarrow> ComputedValues \<Rightarrow> Values \<Rightarrow> Values" where
  "range_order x cv vals = sort_key (\<lambda>kv. x_rank x cv (fst kv)) vals"

lemma mset_range_order [simp]: "mset (range_order x cv vals) = mset vals"
  by (simp add: range_order_def)

lemma set_range_order [simp]: "set (range_order x cv vals) = set vals"
  by (simp add: range_order_def)

definition GenerateWith ::
  "externals \<Rightarrow> Values \<Rightarrow> EnvironmentKind \<Rightarrow> ComputedValues option \<Rightarrow> gmap option \<Rightarrow> err + (gmap \<times> ComputedValues)" where
  "GenerateWith x vals kind values target =
     (case target of
        None \<Rightarrow> Inl (Errorf ''target is nil'')
      | Some t \<Rightarrow> (case values of
            None \<Rightarrow> Inl (Errorf ''values is nil'')
          | Some cv \<Rightarrow>
              let cv' = cv \<lparr>cv_Configs := copyMap x target\<rparr>
              in bindE (foldE (generate_step x kind cv') (range_order x cv' vals) t) (\<lambda>t'. Inr (t', cv'))))"

record HelmRenderData =
  d_MV :: ComputedValues
  d_EnvKind :: EnvironmentKind
  d_ConfigVals :: "MergedConfigRow list"
  d_ConfigMap :: gmap
  d_SecretEnvKeys :: "(string, bool) gomap"

definition fasit_block :: "string \<Rightarrow> string \<Rightarrow> EnvironmentKind \<Rightarrow> gval" where
  "fasit_block tenant name kind = GMap
     [(''env'', GSMap [(''kind'', kind), (''name'', name)]), (''tenant'', GSMap [(''name'', tenant)])]"

definition finishHelmValues ::
  "HelmRenderData \<Rightarrow> 'a Feature_scheme \<Rightarrow> bool \<Rightarrow> gmap \<Rightarrow> ComputedValues \<Rightarrow> err + gmap" where
  "finishHelmValues data f validate mp mv =
     (case map_of (cv_Env mv) ''name'' of
        Some (GStr name) \<Rightarrow>
          let mp' = gm_put ''fasit'' (fasit_block (cv_Tenant mv) name (d_EnvKind data)) mp;
              missing = (if validate then ValidateFields (f_Values f) (d_EnvKind data) (d_ConfigVals data) mp' else [])
          in if length missing > 0 then Inl (ErrMissingRequiredFields missing) else Inr mp'
      | _ \<Rightarrow> Inl (Panic ''interface conversion: interface {} is not string''))"

definition RenderHelmValues :: "externals \<Rightarrow> HelmRenderData \<Rightarrow> 'a Feature_scheme \<Rightarrow> bool \<Rightarrow> err + gmap" where
  "RenderHelmValues x data f validate =
     bindE (GenerateWith x (f_Values f) (d_EnvKind data) (Some (d_MV data)) (Some (d_ConfigMap data)))
       (\<lambda>(mp, mv). finishHelmValues data f validate mp mv)"

section \<open>Inserting a rendered value\<close>

text \<open>What \<open>addToMap\<close> does once the template is rendered.\<close>

fun add_val :: "string list \<Rightarrow> gval \<Rightarrow> gmap \<Rightarrow> gmap option" where
  "add_val [] val t = None"
| "add_val [key] val t = Some (case map_of t key of Some _ \<Rightarrow> t | None \<Rightarrow> gm_put key val t)"
| "add_val (key # rest) val t =
     (case submap key t of
        Some sub \<Rightarrow> map_option (\<lambda>sub'. gm_put key (GMap sub') t) (add_val rest val sub)
      | None \<Rightarrow> None)"

lemma add_val_Cons:
  "rest \<noteq> [] \<Longrightarrow> add_val (key # rest) val t =
     (case submap key t of
        Some sub \<Rightarrow> map_option (\<lambda>sub'. gm_put key (GMap sub') t) (add_val rest val sub)
      | None \<Rightarrow> None)"
  by (cases rest) auto

lemma addToMap_Cons:
  "rest \<noteq> [] \<Longrightarrow> addToMap x k values (key # rest) v t =
     (case submap key t of
        Some sub \<Rightarrow> bindE (addToMap x k values rest v sub) (\<lambda>tt'. Inr (gm_put key (GMap tt') t))
      | None \<Rightarrow> Inl (Errorf (''key '' @ key @ '' is not nestable'')))"
  by (cases rest) (auto simp: submap_def split: option.splits gval.splits)

text \<open>What a step and the copy of the configuration take from the parameters.\<close>

lemma addToMap_at:
  assumes "x_yaml x' = x_yaml x" and "x_render x' k values v = x_render x k values v"
  shows "addToMap x' k values p v t = addToMap x k values p v t"
proof (induction p arbitrary: t)
  case (Cons key rest)
  then show ?case
    using assms by (cases "rest = []") (simp_all add: renderTemplate_def addToMap_Cons split: option.split)
qed simp

lemma same_steps:
  assumes "x_render x' = x_render x" and "x_yaml x' = x_yaml x"
  shows "generate_step x' = generate_step x"
  using addToMap_at [OF assms(2)] assms(1) by (intro ext) (simp add: generate_step_def split: option.split)

lemma same_copyMap:
  assumes "x_marshal x' = x_marshal x" and "x_unmarshal x' = x_unmarshal x"
  shows "copyMap x' = copyMap x"
  using assms by (intro ext) (simp add: copyMap_def cong: option.case_cong sum.case_cong)

text \<open>Rendering does not decode stored features.\<close>

lemma RenderHelmValues_decode:
  "RenderHelmValues (x \<lparr>x_decode_values := g\<rparr>) data f validate = RenderHelmValues x data f validate"
proof -
  have "range_order (x \<lparr>x_decode_values := g\<rparr>) = range_order x"
    by (intro ext) (simp add: range_order_def)
  then show ?thesis
    by (simp add: RenderHelmValues_def GenerateWith_def same_copyMap [of "x \<lparr>x_decode_values := g\<rparr>" x]
        same_steps [of "x \<lparr>x_decode_values := g\<rparr>" x])
qed

lemma addToMap_Inr_iff:
  "addToMap x k values p v t = Inr t' \<longleftrightarrow> (\<exists>val. renderTemplate x k values v = Inr val \<and> add_val p val t = Some t')"
proof (induction p arbitrary: t t')
  case (Cons key rest)
  show ?case
  proof (cases "rest = []")
    case True
    then show ?thesis by (auto split: sum.splits option.splits)
  next
    case False
    then show ?thesis
      by (cases "submap key t") (auto simp: addToMap_Cons add_val_Cons bindE_eq_Inr Cons.IH)
  qed
qed simp

lemma gval_ok_GMapI: "gval_ok (GMap t) \<longleftrightarrow> gm_ok t \<and> (\<forall>k v. map_of t k = Some v \<longrightarrow> gval_ok v)"
proof
  assume "gval_ok (GMap t)"
  then show "gm_ok t \<and> (\<forall>k v. map_of t k = Some v \<longrightarrow> gval_ok v)" by (auto dest: map_of_SomeD)
next
  assume ok: "gm_ok t \<and> (\<forall>k v. map_of t k = Some v \<longrightarrow> gval_ok v)"
  then have "gval_ok v" if "(k, v) \<in> set t" for k v
    using that gm_ok_distinct[of t] by (metis map_of_is_SomeI)
  then show "gval_ok (GMap t)" using ok by auto
qed

lemma gval_ok_put: "gval_ok (GMap t) \<Longrightarrow> gval_ok v \<Longrightarrow> gval_ok (GMap (gm_put k v t))"
  unfolding gval_ok_GMapI by auto

lemma gval_ok_submap: "gval_ok (GMap t) \<Longrightarrow> submap k t = Some sub \<Longrightarrow> gval_ok (GMap sub)"
  unfolding gval_ok_GMapI[of t] by (force simp: submap_def split: option.splits gval.splits)

lemma gval_ok_add_val:
  assumes "add_val p val t = Some t'" and "gval_ok (GMap t)" and "gval_ok val"
  shows "gval_ok (GMap t')"
  using assms
proof (induction p arbitrary: t t')
  case (Cons k r)
  show ?case
  proof (cases "r = []")
    case True
    then show ?thesis using Cons.prems gval_ok_put[of t val k] by (auto split: option.splits simp del: gval_ok.simps)
  next
    case False
    then obtain sub sub' where "submap k t = Some sub" "add_val r val sub = Some sub'"
      and "t' = gm_put k (GMap sub') t"
      using Cons.prems(1) by (auto simp: add_val_Cons split: option.splits)
    then show ?thesis using Cons.IH Cons.prems gval_ok_submap gval_ok_put by metis
  qed
qed simp

lemma gm_put_commute:
  "gm_ok t \<Longrightarrow> k \<noteq> k' \<Longrightarrow> gm_put k v (gm_put k' v' t) = gm_put k' v' (gm_put k v t)"
  by (rule gm_eqI) (auto simp: fun_upd_twist)

lemma gm_put_same: "gm_ok t \<Longrightarrow> map_of t k = Some v \<Longrightarrow> gm_put k v t = t"
  by (rule gm_eqI) auto

lemma gm_put_put: "gm_ok t \<Longrightarrow> gm_put k v (gm_put k v' t) = gm_put k v t"
  by (rule gm_eqI) auto

text \<open>The entry of the first segment after an insertion, from the entry before it.\<close>

definition entry_after :: "string list \<Rightarrow> gval \<Rightarrow> gval option \<Rightarrow> gval option" where
  "entry_after r val old =
     (if r = [] then Some (case old of Some v \<Rightarrow> v | None \<Rightarrow> val)
      else (case old of
              None \<Rightarrow> map_option GMap (add_val r val [])
            | Some v \<Rightarrow> (case v of GMap sub \<Rightarrow> map_option GMap (add_val r val sub) | _ \<Rightarrow> None)))"

lemma add_val_entry:
  "gm_ok t \<Longrightarrow> add_val (k # r) val t = map_option (\<lambda>e. gm_put k e t) (entry_after r val (map_of t k))"
proof (cases "r = []")
  case True
  then show "gm_ok t \<Longrightarrow> ?thesis" by (auto simp: entry_after_def gm_put_same split: option.splits)
next
  case False
  then show ?thesis
    by (auto simp: entry_after_def add_val_Cons submap_def option.map_comp comp_def split: option.splits gval.splits)
qed

definition add2 :: "string list \<Rightarrow> gval \<Rightarrow> string list \<Rightarrow> gval \<Rightarrow> gmap \<Rightarrow> gmap option" where
  "add2 p v q w t = Option.bind (add_val p v t) (add_val q w)"

lemma add2_other_key:
  assumes "k \<noteq> k'" and "gm_ok t"
  shows "add2 (k # r) v (k' # r') v' t = Option.bind (entry_after r v (map_of t k)) (\<lambda>e.
    map_option (\<lambda>e'. gm_put k' e' (gm_put k e t)) (entry_after r' v' (map_of t k')))"
  using assms
  by (cases "entry_after r v (map_of t k)") (simp_all add: add2_def add_val_entry)

lemma add2_same_key:
  assumes "r \<noteq> []" and "r' \<noteq> []" and "gm_ok t"
  shows "add2 (k # r) v (k # r') v' t = (case submap k t of
      Some sub \<Rightarrow> map_option (\<lambda>s. gm_put k (GMap s) t) (add2 r v r' v' sub)
    | None \<Rightarrow> None)"
proof (cases "submap k t")
  case (Some sub)
  have after: "submap k (gm_put k (GMap s) t) = Some s" for s by (simp add: submap_def)
  show ?thesis
    using assms Some
    by (cases "add_val r v sub") (simp_all add: add2_def add_val_Cons after option.map_comp comp_def gm_put_put)
qed (simp add: add2_def add_val_Cons assms)

text \<open>Insertions at paths that are not prefixes of each other commute.\<close>

lemma add2_commute:
  assumes "\<not> prefix p q" and "\<not> prefix q p" and "gval_ok (GMap t)"
  shows "add2 p v q w t = add2 q w p v t"
  using assms
proof (induction p arbitrary: q t)
  case (Cons k r)
  obtain k' r' where q: "q = k' # r'" using Cons.prems(2) by (cases q) auto
  have ok: "gm_ok t" using Cons.prems(3) by simp
  show ?case
  proof (cases "k = k'")
    case False
    then show ?thesis
      unfolding q add2_other_key[OF False ok] add2_other_key[OF False[symmetric] ok]
      by (cases "entry_after r v (map_of t k)"; cases "entry_after r' w (map_of t k')")
        (simp_all add: gm_put_commute[OF ok])
  next
    case True
    then have ne: "r \<noteq> []" "r' \<noteq> []" and np: "\<not> prefix r r'" "\<not> prefix r' r" using Cons.prems(1,2) q by auto
    show ?thesis
    proof (cases "submap k t")
      case (Some sub)
      then have "gval_ok (GMap sub)" using Cons.prems(3) gval_ok_submap by blast
      then show ?thesis using Cons.IH[OF np] Some True q by (simp add: add2_same_key[OF _ _ ok] ne)
    qed (simp add: q True add2_same_key[OF _ _ ok] ne)
  qed
qed simp

section \<open>Order of the computed values\<close>

lemma foldE_move_front:
  assumes comm: "\<And>y s t. y \<in> set as \<Longrightarrow> P s \<Longrightarrow>
      (bindE (f y s) (f z) = Inr t) \<longleftrightarrow> (bindE (f z s) (f y) = Inr t)"
    and pres: "\<And>y s s'. y \<in> set (z # as) \<Longrightarrow> P s \<Longrightarrow> f y s = Inr s' \<Longrightarrow> P s'"
    and "P s"
  shows "foldE f (as @ z # bs) s = Inr t \<longleftrightarrow> foldE f (z # as @ bs) s = Inr t"
  using assms
proof (induction as arbitrary: s)
  case (Cons a as)
  have IH: "foldE f (as @ z # bs) s' = Inr t \<longleftrightarrow> foldE f (z # as @ bs) s' = Inr t" if "P s'" for s'
    using Cons.IH Cons.prems(1,2) that by (metis list.set_intros(1,2) set_ConsD)
  have "foldE f ((a # as) @ z # bs) s = Inr t \<longleftrightarrow> (\<exists>s1. f a s = Inr s1 \<and> foldE f (z # as @ bs) s1 = Inr t)"
  proof (cases "f a s")
    case (Inr s1)
    then have "P s1" using Cons.prems(2)[of a s s1] Cons.prems(3) by simp
    then show ?thesis using IH[of s1] Inr by simp
  qed simp
  also have "\<dots> \<longleftrightarrow> (\<exists>s2. bindE (f a s) (f z) = Inr s2 \<and> foldE f (as @ bs) s2 = Inr t)"
    by (auto simp: bindE_eq_Inr)
  also have "\<dots> \<longleftrightarrow> (\<exists>s2. bindE (f z s) (f a) = Inr s2 \<and> foldE f (as @ bs) s2 = Inr t)"
    using Cons.prems(1)[of a s] Cons.prems(3) by simp
  also have "\<dots> \<longleftrightarrow> foldE f (z # (a # as) @ bs) s = Inr t"
    by (auto simp: bindE_eq_Inr)
  finally show ?case .
qed simp

lemma foldE_permute:
  assumes "mset xs = mset ys" and "P s"
    and comm: "\<And>y z s t. y \<in> set xs \<Longrightarrow> z \<in> set xs \<Longrightarrow> y \<noteq> z \<Longrightarrow> P s \<Longrightarrow>
      (bindE (f y s) (f z) = Inr t) \<longleftrightarrow> (bindE (f z s) (f y) = Inr t)"
    and pres: "\<And>y s s'. y \<in> set xs \<Longrightarrow> P s \<Longrightarrow> f y s = Inr s' \<Longrightarrow> P s'"
  shows "foldE f xs s = Inr t \<longleftrightarrow> foldE f ys s = Inr t"
  using assms
proof (induction xs arbitrary: ys s)
  case Nil
  from Nil.prems(1) show ?case by simp
next
  case (Cons x xs)
  have "x \<in> set ys" using Cons.prems(1) by (metis list.set_intros(1) mset_eq_setD)
  then obtain as bs where ys: "ys = as @ x # bs" by (auto simp: in_set_conv_decomp)
  then have m: "mset xs = mset (as @ bs)" using Cons.prems(1) by simp
  have sets: "set xs = set (as @ bs)" using m by (rule mset_eq_setD)
  have front: "foldE f ys s = Inr t \<longleftrightarrow> foldE f (x # as @ bs) s = Inr t"
    unfolding ys
  proof (rule foldE_move_front[where P = P])
    fix y s t assume "y \<in> set as" and "P s"
    then show "(bindE (f y s) (f x) = Inr t) \<longleftrightarrow> (bindE (f x s) (f y) = Inr t)"
      using Cons.prems(3)[of y x s t] sets by (cases "y = x") auto
  next
    fix y s s' assume "y \<in> set (x # as)" "P s" "f y s = Inr s'"
    then show "P s'" using Cons.prems(4)[of y s s'] sets by auto
  qed (rule Cons.prems(2))
  have IH: "foldE f xs s' = Inr t \<longleftrightarrow> foldE f (as @ bs) s' = Inr t" if "P s'" for s'
  proof (rule Cons.IH[OF m that])
    fix y z s t assume "y \<in> set xs" "z \<in> set xs" "y \<noteq> z" "P s"
    then show "(bindE (f y s) (f z) = Inr t) \<longleftrightarrow> (bindE (f z s) (f y) = Inr t)"
      by (intro Cons.prems(3)) simp_all
  next
    fix y s s' assume "y \<in> set xs" "P s" "f y s = Inr s'"
    then show "P s'" using Cons.prems(4)[of y s s'] by simp
  qed
  show ?case
  proof (cases "f x s")
    case (Inr s1)
    then have "P s1" using Cons.prems(4)[of x s s1] Cons.prems(2) by simp
    then show ?thesis using IH[of s1] front Inr by simp
  qed (use front in simp)
qed

definition is_computed :: "EnvironmentKind \<Rightarrow> string \<times> Value \<Rightarrow> bool" where
  "is_computed kind kv \<longleftrightarrow> v_Computed (snd kv) \<noteq> None \<and> \<not> ContainsKind (v_IgnoreKind (snd kv)) kind"

definition computed_disjoint :: "EnvironmentKind \<Rightarrow> Values \<Rightarrow> bool" where
  "computed_disjoint kind vals \<longleftrightarrow>
     (\<forall>a \<in> set vals. \<forall>b \<in> set vals. a \<noteq> b \<and> is_computed kind a \<and> is_computed kind b \<longrightarrow>
        (\<forall>p q. SmartDotSplit (fst a) = Inr p \<longrightarrow> SmartDotSplit (fst b) = Inr q \<longrightarrow> \<not> prefix p q))"

lemma generate_step_skip: "\<not> is_computed kind kv \<Longrightarrow> generate_step x kind cv kv t = Inr t"
  by (cases "v_Computed (snd kv)") (auto simp: generate_step_def is_computed_def)

lemma generate_step_Inr_iff:
  assumes "is_computed kind kv"
  shows "generate_step x kind cv kv t = Inr t' \<longleftrightarrow>
    (\<exists>p val. SmartDotSplit (fst kv) = Inr p \<and> add_val p val t = Some t' \<and>
       renderTemplate x (fst kv) cv (cmp_Template (the (v_Computed (snd kv)))) = Inr val)"
  using assms by (auto simp: generate_step_def is_computed_def bindE_eq_Inr addToMap_Inr_iff)

lemma gval_ok_fold_put:
  "gval_ok (GMap m) \<Longrightarrow> \<forall>(k, v) \<in> set kvs. gval_ok v \<Longrightarrow>
     gval_ok (GMap (fold (\<lambda>(s, v') nm. gm_put s v' nm) kvs m))"
  by (induction kvs arbitrary: m) (auto simp del: gval_ok.simps intro!: gval_ok_put)

lemma repairMapAny_ok: "gval_ok v \<Longrightarrow> repairMapAny v = Inr w \<Longrightarrow> gval_ok w"
proof (induction v arbitrary: w rule: repairMapAny.induct)
  case (1 vs)
  then obtain ws where w: "w = GList ws" and ws: "list_all2 (\<lambda>v w. repairMapAny v = Inr w) vs ws"
    by (auto simp: bindE_eq_Inr mapE_Inr_iff)
  have "gval_ok u" if u: "u \<in> set ws" for u
  proof -
    obtain i where i: "i < length ws" "u = ws ! i" using u by (auto simp: in_set_conv_nth)
    then have "repairMapAny (vs ! i) = Inr u" and "vs ! i \<in> set vs"
      using ws by (auto simp: list_all2_conv_all_nth)
    then show ?thesis using 1(1)[of "vs ! i" u] 1(2) by simp
  qed
  then show ?case by (simp add: w)
next
  case (2 entries)
  let ?conv = "\<lambda>(k, v). case k of GStr s \<Rightarrow> bindE (repairMapAny v) (\<lambda>v'. Inr (s, v'))
    | _ \<Rightarrow> Inl (Panic ''interface conversion: interface {} is not string'')"
  obtain kvs where kvs: "mapE ?conv entries = Inr kvs"
    and w: "w = GMap (fold (\<lambda>(s, v') nm. gm_put s v' nm) kvs [])"
    using 2(3) by (auto simp: bindE_eq_Inr)
  have "gval_ok v'" if u: "(s, v') \<in> set kvs" for s v'
  proof -
    obtain i where i: "i < length kvs" "kvs ! i = (s, v')" using u by (auto simp: in_set_conv_nth)
    then have c: "?conv (entries ! i) = Inr (s, v')" and e: "entries ! i \<in> set entries"
      using kvs by (auto simp: mapE_Inr_iff list_all2_conv_all_nth)
    obtain k v where kv: "entries ! i = (k, v)" by fastforce
    then have "k = GStr s \<and> repairMapAny v = Inr v'"
      using c by (cases k) (auto simp: bindE_eq_Inr)
    then show ?thesis using 2(1,2) e kv by fastforce
  qed
  then show ?case unfolding w by (intro gval_ok_fold_put) auto
qed auto

lemma renderTemplate_ok:
  "(\<And>s v. x_yaml x s = Inr v \<Longrightarrow> gval_ok v) \<Longrightarrow> renderTemplate x k cv tpl = Inr val \<Longrightarrow> gval_ok val"
  by (auto simp: renderTemplate_def bindE_eq_Inr intro: repairMapAny_ok split: if_splits)

lemma generate_step_ok:
  assumes "\<And>s v. x_yaml x s = Inr v \<Longrightarrow> gval_ok v" and "gval_ok (GMap t)" and "generate_step x kind cv kv t = Inr t'"
  shows "gval_ok (GMap t')"
proof (cases "is_computed kind kv")
  case True
  then show ?thesis
    using assms gval_ok_add_val renderTemplate_ok[OF assms(1)] by (auto simp: generate_step_Inr_iff simp del: gval_ok.simps)
next
  case False
  then show ?thesis using assms by (simp add: generate_step_skip)
qed

text \<open>Two successive steps on computed values are two insertions of rendered values.\<close>

lemma generate_step_two:
  assumes "is_computed kind a" and "is_computed kind b"
  shows "bindE (generate_step x kind cv a t) (generate_step x kind cv b) = Inr t' \<longleftrightarrow>
    (\<exists>p q v w. SmartDotSplit (fst a) = Inr p \<and> SmartDotSplit (fst b) = Inr q \<and>
      renderTemplate x (fst a) cv (cmp_Template (the (v_Computed (snd a)))) = Inr v \<and>
      renderTemplate x (fst b) cv (cmp_Template (the (v_Computed (snd b)))) = Inr w \<and>
      add2 p v q w t = Some t')"
  using assms by (auto simp: bindE_eq_Inr generate_step_Inr_iff add2_def bind_eq_Some_conv)

lemma generate_step_swap:
  assumes "bindE (generate_step x kind cv a t) (generate_step x kind cv b) = Inr t'"
    and "\<And>p q. SmartDotSplit (fst a) = Inr p \<Longrightarrow> SmartDotSplit (fst b) = Inr q \<Longrightarrow> \<not> prefix p q \<and> \<not> prefix q p"
    and "gval_ok (GMap t)" and "is_computed kind a" and "is_computed kind b"
  shows "bindE (generate_step x kind cv b t) (generate_step x kind cv a) = Inr t'"
proof -
  obtain p q v w where p: "SmartDotSplit (fst a) = Inr p" and q: "SmartDotSplit (fst b) = Inr q"
    and v: "renderTemplate x (fst a) cv (cmp_Template (the (v_Computed (snd a)))) = Inr v"
    and w: "renderTemplate x (fst b) cv (cmp_Template (the (v_Computed (snd b)))) = Inr w"
    and t': "add2 p v q w t = Some t'"
    using assms(1) unfolding generate_step_two[OF assms(4,5)] by blast
  have "add2 q w p v t = Some t'" using add2_commute[of p q t v w] assms(2)[OF p q] assms(3) t' by simp
  then show ?thesis unfolding generate_step_two[OF assms(5,4)] using p q v w by blast
qed

lemma generate_step_commute:
  assumes "\<And>p q. SmartDotSplit (fst a) = Inr p \<Longrightarrow> SmartDotSplit (fst b) = Inr q \<Longrightarrow> \<not> prefix p q \<and> \<not> prefix q p"
    and "gval_ok (GMap t)" and "is_computed kind a" and "is_computed kind b"
  shows "bindE (generate_step x kind cv a t) (generate_step x kind cv b) = Inr t' \<longleftrightarrow>
    bindE (generate_step x kind cv b t) (generate_step x kind cv a) = Inr t'"
  using assms generate_step_swap[of x kind cv a t b t'] generate_step_swap[of x kind cv b t a t'] by blast

lemma foldE_generate_order:
  assumes "\<And>s v. x_yaml x s = Inr v \<Longrightarrow> gval_ok v" and "gval_ok (GMap t)"
    and "computed_disjoint kind vals" and "mset vals = mset vals'"
  shows "foldE (generate_step x kind cv) vals t = Inr t' \<longleftrightarrow> foldE (generate_step x kind cv) vals' t = Inr t'"
proof -
  let ?f = "generate_step x kind cv"
  show ?thesis
  proof (rule foldE_permute[where P = "\<lambda>t. gval_ok (GMap t)"])
    fix a b s u assume ab: "a \<in> set vals" "b \<in> set vals" "a \<noteq> b" and s: "gval_ok (GMap s)"
    show "(bindE (?f a s) (?f b) = Inr u) \<longleftrightarrow> (bindE (?f b s) (?f a) = Inr u)"
    proof (cases "is_computed kind a \<and> is_computed kind b")
      case True
      then show ?thesis using assms(3) ab s
        by (intro generate_step_commute) (auto simp: computed_disjoint_def simp del: gval_ok.simps)
    next
      case False
      then show ?thesis
        by (cases "is_computed kind a"; cases "?f a s"; cases "?f b s") (auto simp: generate_step_skip)
    qed
  qed (use assms generate_step_ok[OF assms(1)] in \<open>auto simp del: gval_ok.simps\<close>)
qed

lemma computed_disjoint_mset: "mset vals = mset vals' \<Longrightarrow> computed_disjoint kind vals \<longleftrightarrow> computed_disjoint kind vals'"
  by (simp add: computed_disjoint_def mset_eq_setD [of vals vals'])

text \<open>
  Map iteration order does not matter: Go ranges over a feature's values in an arbitrary order.
  If no computed key of the environment's kind is a dotted prefix of another, every order succeeds
  with the same Helm values as any other, or none succeeds. The hypothesis on the YAML decoder says
  that it returns values, whose maps have each key once.
\<close>

theorem GenerateWith_order:
  assumes "\<And>s v. x_yaml x s = Inr v \<Longrightarrow> gval_ok v" and "gval_ok (GMap t)"
    and "computed_disjoint kind vals"
  shows "GenerateWith (x \<lparr>x_rank := rank\<rparr>) vals kind (Some cv) (Some t) = Inr res \<longleftrightarrow>
    GenerateWith (x \<lparr>x_rank := rank'\<rparr>) vals kind (Some cv) (Some t) = Inr res"
proof -
  let ?cv = "cv \<lparr>cv_Configs := copyMap x (Some t)\<rparr>"
  have step: "generate_step (x \<lparr>x_rank := r\<rparr>) = generate_step x" "copyMap (x \<lparr>x_rank := r\<rparr>) = copyMap x" for r
    using same_steps [of "x \<lparr>x_rank := r\<rparr>" x] same_copyMap [of "x \<lparr>x_rank := r\<rparr>" x] by simp_all
  have "foldE (generate_step x kind ?cv) (range_order (x \<lparr>x_rank := r\<rparr>) ?cv vals) t = Inr t' \<longleftrightarrow>
      foldE (generate_step x kind ?cv) vals t = Inr t'" for r t'
    using assms by (intro foldE_generate_order) (auto simp: computed_disjoint_mset [OF mset_range_order])
  then show ?thesis by (simp add: GenerateWith_def Let_def bindE_eq_Inr step)
qed

text \<open>A template engine that echoes the template as a string, and a feature with two computed keys.\<close>

definition echo_externals :: externals where
  "echo_externals = \<lparr>x_render = \<lambda>k cv tpl. Inr tpl, x_rank = \<lambda>cv k. 0, x_yaml = \<lambda>s. Inr (GStr s), x_marshal = \<lambda>v. Inr [],
     x_unmarshal = \<lambda>s. Inr (GMap []), x_sha256 = id,
     x_decode_dependencies = \<lambda>s. Inr [], x_decode_values = \<lambda>s. Inr [], x_decode_defaults = \<lambda>s. Inr []\<rparr>"

definition computed_value :: "string \<Rightarrow> Value" where
  "computed_value tpl = \<lparr>v_Description = [], v_DisplayName = [], v_Required = False,
     v_Computed = Some \<lparr>cmp_Template = tpl\<rparr>, v_Config = None, v_IgnoreKind = []\<rparr>"

definition example_cv :: ComputedValues where
  "example_cv = \<lparr>cv_Kind = EnvironmentKindTenant, cv_Tenant = ''acme'', cv_IAPAudience = [],
     cv_Management = None, cv_Env = [(''kind'', GStr ''tenant''), (''name'', GStr ''prod'')],
     cv_Envs = [[(''kind'', GStr ''tenant''), (''name'', GStr ''prod'')]], cv_Configs = []\<rparr>"

lemmas render_eval = GenerateWith_def range_order_def generate_step_def renderTemplate_def copyMap_def ContainsKind_def
  echo_externals_def computed_value_def SmartDotSplit_def strings_HasSuffix_def strings_HasPrefix_def

definition by_length :: "ComputedValues \<Rightarrow> string \<Rightarrow> nat" where
  "by_length cv k = length k"

definition by_length_down :: "ComputedValues \<Rightarrow> string \<Rightarrow> nat" where
  "by_length_down cv k = 10 - length k"

theorem GenerateWith_order_witness:
  "GenerateWith (echo_externals \<lparr>x_rank := by_length_down\<rparr>) [(''a'', computed_value ''1''), (''b.c'', computed_value ''2'')] [] (Some example_cv) (Some [])
    = Inr ([(''a'', GStr ''1''), (''b'', GMap [(''c'', GStr ''2'')])], example_cv \<lparr>cv_Configs := []\<rparr>)"
proof -
  have disjoint: "computed_disjoint [] [(''a'', computed_value ''1''), (''b.c'', computed_value ''2'')]"
    by (simp add: computed_disjoint_def SmartDotSplit_def strings_HasSuffix_def strings_HasPrefix_def)
  have "GenerateWith (echo_externals \<lparr>x_rank := by_length\<rparr>) [(''a'', computed_value ''1''), (''b.c'', computed_value ''2'')] [] (Some example_cv) (Some [])
    = Inr ([(''a'', GStr ''1''), (''b'', GMap [(''c'', GStr ''2'')])], example_cv \<lparr>cv_Configs := []\<rparr>)"
    by (simp add: render_eval by_length_def)
  moreover have "gval_ok v" if "x_yaml echo_externals s = Inr v" for s v
    using that by (auto simp: echo_externals_def)
  ultimately show ?thesis
    using GenerateWith_order[of echo_externals "[]" "[]" "[(''a'', computed_value ''1''), (''b.c'', computed_value ''2'')]" by_length_down
      example_cv "([(''a'', GStr ''1''), (''b'', GMap [(''c'', GStr ''2'')])], example_cv \<lparr>cv_Configs := []\<rparr>)" by_length] disjoint
    by simp
qed

definition map_externals :: externals where
  "map_externals = echo_externals \<lparr>x_yaml := \<lambda>s. Inr (if s = ''m'' then GMap [(''x'', GStr ''1'')] else GStr s)\<rparr>"

text \<open>
  Nested computed keys make rendering depend on Go's random map order: with a computed key \<open>a\<close>
  that renders to a map and a computed key \<open>a.b\<close>, one order merges both and the other loses the
  value of \<open>a\<close>, so the same inputs have different Helm values and different hashes.
\<close>

theorem GenerateWith_nested_order:
  "GenerateWith (map_externals \<lparr>x_rank := by_length\<rparr>) [(''a'', computed_value ''m''), (''a.b'', computed_value ''v'')] [] (Some example_cv) (Some [])
     = Inr ([(''a'', GMap [(''b'', GStr ''v''), (''x'', GStr ''1'')])], example_cv \<lparr>cv_Configs := []\<rparr>)
   \<and> GenerateWith (map_externals \<lparr>x_rank := by_length_down\<rparr>) [(''a'', computed_value ''m''), (''a.b'', computed_value ''v'')] [] (Some example_cv) (Some [])
     = Inr ([(''a'', GMap [(''b'', GStr ''v'')])], example_cv \<lparr>cv_Configs := []\<rparr>)"
  by (simp add: render_eval map_externals_def by_length_def by_length_down_def)

section \<open>Configuration wins, and computed values are present\<close>

lemma add_val_keeps_leaf: "add_val p val t = Some t' \<Longrightarrow> leaf_at q t = Some v \<Longrightarrow> leaf_at q t' = Some v"
proof (induction p arbitrary: q t t')
  case (Cons k r)
  obtain k' r' where q: "q = k' # r'" using Cons.prems(2) by (cases q) auto
  show ?case
  proof (cases "r = []")
    case True
    have "map_of t k = None \<Longrightarrow> k' \<noteq> k"
      using Cons.prems(2) q by (cases "r' = []") (auto simp: leaf_at_single leaf_at_Cons)
    then show ?thesis
      using Cons.prems True q leaf_at_put_other[of k' k r' val t] by (cases "map_of t k") auto
  next
    case False
    then obtain sub sub' where sub: "submap k t = Some sub" and add: "add_val r val sub = Some sub'"
      and t': "t' = gm_put k (GMap sub') t"
      using Cons.prems(1) by (auto simp: add_val_Cons split: option.splits)
    have "k' = k \<Longrightarrow> r' \<noteq> []" using Cons.prems(2) q sub submap_None_iff[of k t] by auto
    then show ?thesis
      using Cons.IH[OF add, of r'] Cons.prems(2) q sub leaf_at_put_other[of k' k r' "GMap sub'" t]
      by (cases "k' = k") (auto simp: t' leaf_at_put_GMap leaf_at_submap)
  qed
qed simp

lemma add_val_present: "add_val p val t = Some t' \<Longrightarrow> get_path p t' \<noteq> None"
proof (induction p arbitrary: t t')
  case (Cons k r)
  show ?case
  proof (cases "r = []")
    case True
    then show ?thesis using Cons.prems by (auto split: option.splits)
  next
    case False
    then obtain sub sub' where "add_val r val sub = Some sub'" and "t' = gm_put k (GMap sub') t"
      using Cons.prems by (auto simp: add_val_Cons split: option.splits)
    then show ?thesis using Cons.IH False by (simp add: get_path_Cons)
  qed
qed simp

lemma get_path_put_other: "k' \<noteq> k \<Longrightarrow> get_path (k' # r) (gm_put k v t) = get_path (k' # r) t"
  by (cases "r = []") (simp_all add: get_path_Cons)

lemma get_path_submap:
  "r \<noteq> [] \<Longrightarrow> get_path (k # r) t = (case submap k t of Some sub \<Rightarrow> get_path r sub | None \<Rightarrow> None)"
  by (auto simp: get_path_Cons submap_def split: option.splits gval.splits)

lemma add_val_keeps_present: "add_val p val t = Some t' \<Longrightarrow> get_path q t \<noteq> None \<Longrightarrow> get_path q t' \<noteq> None"
proof (induction p arbitrary: q t t')
  case (Cons k r)
  obtain k' r' where q: "q = k' # r'" using Cons.prems(2) by (cases q) auto
  show ?case
  proof (cases "r = []")
    case True
    have "map_of t k = None \<Longrightarrow> k' \<noteq> k"
      using Cons.prems(2) q by (cases "r' = []") (auto simp: get_path_Cons)
    then show ?thesis
      using Cons.prems True q get_path_put_other[of k' k r' val t] by (cases "map_of t k") auto
  next
    case False
    then obtain sub sub' where sub: "submap k t = Some sub" and add: "add_val r val sub = Some sub'"
      and t': "t' = gm_put k (GMap sub') t"
      using Cons.prems(1) by (auto simp: add_val_Cons split: option.splits)
    show ?thesis
    proof (cases "k' = k")
      case True
      then show ?thesis
        using Cons.IH[OF add, of r'] Cons.prems(2) q sub
        by (cases "r' = []") (simp_all add: t' get_path_submap, simp add: submap_def)
    next
      case False
      then show ?thesis using Cons.prems(2) q get_path_put_other[of k' k r' "GMap sub'" t] by (simp add: t')
    qed
  qed
qed simp

lemma foldE_generate_keeps:
  assumes "foldE (generate_step x kind cv) vals t = Inr t'"
  shows "(leaf_at q t = Some v \<longrightarrow> leaf_at q t' = Some v) \<and> (get_path q t \<noteq> None \<longrightarrow> get_path q t' \<noteq> None)"
  using assms
proof (induction vals arbitrary: t)
  case (Cons kv vals)
  then obtain t1 where step: "generate_step x kind cv kv t = Inr t1"
    and rest: "foldE (generate_step x kind cv) vals t1 = Inr t'"
    by (auto simp: bindE_eq_Inr)
  have "(leaf_at q t = Some v \<longrightarrow> leaf_at q t1 = Some v) \<and> (get_path q t \<noteq> None \<longrightarrow> get_path q t1 \<noteq> None)"
  proof (cases "is_computed kind kv")
    case True
    then obtain p val where "add_val p val t = Some t1" using step by (auto simp: generate_step_Inr_iff)
    then show ?thesis using add_val_keeps_leaf add_val_keeps_present by blast
  qed (use step in \<open>simp add: generate_step_skip\<close>)
  then show ?case using Cons.IH[OF rest] by blast
qed simp

lemma foldE_generate_present:
  assumes "foldE (generate_step x kind cv) vals t = Inr t'" and "kv \<in> set vals" and "is_computed kind kv"
  shows "\<exists>p. SmartDotSplit (fst kv) = Inr p \<and> get_path p t' \<noteq> None"
  using assms
proof (induction vals arbitrary: t)
  case (Cons kv' vals)
  then obtain t1 where step: "generate_step x kind cv kv' t = Inr t1"
    and rest: "foldE (generate_step x kind cv) vals t1 = Inr t'"
    by (auto simp: bindE_eq_Inr)
  show ?case
  proof (cases "kv = kv'")
    case True
    then obtain p val where p: "SmartDotSplit (fst kv) = Inr p" and add: "add_val p val t = Some t1"
      using step Cons.prems(3) by (auto simp: generate_step_Inr_iff)
    have "get_path p t1 \<noteq> None" by (rule add_val_present[OF add])
    then show ?thesis using p foldE_generate_keeps[OF rest] by blast
  next
    case False
    then show ?thesis using Cons rest by auto
  qed
qed simp

text \<open>
  Precedence of configuration over computed values: when \<open>GenerateWith\<close> succeeds, every
  configured leaf of the target is still there with its value, and every computed key of the
  environment's kind has a value at its path.
\<close>

theorem GenerateWith_precedence:
  assumes "GenerateWith x vals kind values (Some t) = Inr (t', cv')"
  shows "(leaf_at q t = Some v \<longrightarrow> leaf_at q t' = Some v)
    \<and> ((k, val) \<in> set vals \<and> v_Computed val \<noteq> None \<and> kind \<notin> set (v_IgnoreKind val) \<longrightarrow>
         (\<exists>p. SmartDotSplit k = Inr p \<and> get_path p t' \<noteq> None))"
proof -
  obtain cv where fold: "foldE (generate_step x kind cv) (range_order x cv vals) t = Inr t'"
    using assms by (auto simp: GenerateWith_def Let_def bindE_eq_Inr split: option.splits)
  show ?thesis
    using foldE_generate_keeps[OF fold] foldE_generate_present[OF fold, of "(k, val)"]
    by (auto simp: is_computed_def ContainsKind_def)
qed

theorem GenerateWith_precedence_witness:
  "leaf_at [''a''] [(''a'', GRaw ''7''), (''b'', GStr ''2'')] = Some (GRaw ''7'')"
  using GenerateWith_precedence[of echo_externals "[(''a'', computed_value ''1''), (''b'', computed_value ''2'')]" "[]"
      "Some example_cv" "[(''a'', GRaw ''7'')]" "[(''a'', GRaw ''7''), (''b'', GStr ''2'')]" "example_cv \<lparr>cv_Configs := []\<rparr>"
      "[''a'']" "GRaw ''7''" "''b''" "computed_value ''2''"]
  by (simp add: render_eval leaf_at_def)

section \<open>Helm values\<close>

lemma finishHelmValues_Inr:
  assumes "finishHelmValues data f True mp mv = Inr mp'"
  shows "\<exists>name. map_of (cv_Env mv) ''name'' = Some (GStr name) \<and>
    mp' = gm_put ''fasit'' (fasit_block (cv_Tenant mv) name (d_EnvKind data)) mp \<and>
    ValidateFields (f_Values f) (d_EnvKind data) (d_ConfigVals data) mp' = []"
  using assms by (auto simp: finishHelmValues_def Let_def split: option.splits gval.splits if_splits)

lemma RenderHelmValues_InrE:
  assumes "RenderHelmValues x data f validate = Inr mp"
  obtains t' cv' cv where "finishHelmValues data f validate t' cv' = Inr mp"
    and "foldE (generate_step x (d_EnvKind data) cv) (range_order x cv (f_Values f)) (d_ConfigMap data) = Inr t'"
    and "cv_Env cv' = cv_Env (d_MV data)" and "cv_Tenant cv' = cv_Tenant (d_MV data)"
  using assms by (auto simp: RenderHelmValues_def GenerateWith_def Let_def bindE_eq_Inr)

lemma RenderHelmValues_valid:
  "RenderHelmValues x data f True = Inr mp \<Longrightarrow>
     ValidateFields (f_Values f) (d_EnvKind data) (d_ConfigVals data) mp = []"
  by (auto elim!: RenderHelmValues_InrE dest!: finishHelmValues_Inr)


definition example_feature :: Feature where
  "example_feature = \<lparr>f_Dependencies = [], f_EnvironmentKinds = [], f_Timeout = 0,
     f_Values = [(''a'', required_value), (''b'', computed_value ''2'')],
     f_Name = ''loki'', f_Chart = ''oci://charts/loki'', f_Version = ''1'', f_Description = [], f_Source = [],
     f_ValuesYAML = [], f_SpecVersion = ''v2'', f_TplDetails = []\<rparr>"

definition example_data :: HelmRenderData where
  "example_data = \<lparr>d_MV = example_cv, d_EnvKind = EnvironmentKindTenant, d_ConfigVals = [example_row ''a''],
     d_ConfigMap = [(''a'', GRaw ''true'')], d_SecretEnvKeys = []\<rparr>"

definition example_values :: gmap where
  "example_values = [(''a'', GRaw ''true''), (''b'', GStr ''2''), (''fasit'', fasit_block ''acme'' ''prod'' ''tenant'')]"

lemma example_renders: "RenderHelmValues echo_externals example_data example_feature True = Inr example_values"
  by (simp add: RenderHelmValues_def finishHelmValues_def render_eval validate_eval example_data_def example_feature_def example_cv_def
      example_values_def example_row_def EnvironmentKindTenant_def EnvironmentKindManagement_def)


section \<open>When two operations render alike\<close>

text \<open>
  The libraries are the same at all times; what a template gives, and the order of a range over a map, are not. Two operations
  are \<open>steady\<close> about a feature when its templates for the environment's kind give the same in both, so none shows the clock or
  a random string, and when its computed keys do not nest, or the ranges happen to be in the same order.
\<close>

definition same_libraries :: "externals \<Rightarrow> externals \<Rightarrow> bool" where
  "same_libraries x x' \<longleftrightarrow> x' = x \<lparr>x_render := x_render x', x_rank := x_rank x'\<rparr>"

definition steady :: "externals \<Rightarrow> externals \<Rightarrow> EnvironmentKind \<Rightarrow> 'a Feature_scheme \<Rightarrow> bool" where
  "steady x x' kind f \<longleftrightarrow>
     (\<forall>kv \<in> set (f_Values f). is_computed kind kv \<longrightarrow>
        (\<forall>cv. x_render x' (fst kv) cv (cmp_Template (the (v_Computed (snd kv)))) =
              x_render x (fst kv) cv (cmp_Template (the (v_Computed (snd kv)))))) \<and>
     (x_rank x' = x_rank x \<or> computed_disjoint kind (f_Values f) \<and> (\<forall>s v. x_yaml x s = Inr v \<longrightarrow> gval_ok v))"

lemma same_libraries_refl [simp]: "same_libraries x x"
  by (simp add: same_libraries_def)

lemma steady_refl [simp]: "steady x x kind f"
  by (simp add: steady_def)

lemma same_libraries_fields:
  assumes "same_libraries x x'"
  shows "x_yaml x' = x_yaml x" "x_marshal x' = x_marshal x" "x_unmarshal x' = x_unmarshal x" "x_sha256 x' = x_sha256 x"
    "x_decode_dependencies x' = x_decode_dependencies x" "x_decode_values x' = x_decode_values x"
    "x_decode_defaults x' = x_decode_defaults x"
proof -
  obtain r k where x': "x' = x \<lparr>x_render := r, x_rank := k\<rparr>" using assms unfolding same_libraries_def by (rule that)
  show "x_yaml x' = x_yaml x" "x_marshal x' = x_marshal x" "x_unmarshal x' = x_unmarshal x" "x_sha256 x' = x_sha256 x"
    "x_decode_dependencies x' = x_decode_dependencies x" "x_decode_values x' = x_decode_values x"
    "x_decode_defaults x' = x_decode_defaults x" unfolding x' by simp_all
qed

lemma same_libraries_sym: "same_libraries x x' \<Longrightarrow> same_libraries x' x"
  using same_libraries_fields [of x x'] by (simp add: same_libraries_def)

lemma same_libraries_trans: "same_libraries x x' \<Longrightarrow> same_libraries x' x'' \<Longrightarrow> same_libraries x x''"
  using same_libraries_fields [of x x'] same_libraries_fields [of x' x''] by (simp add: same_libraries_def)

lemma put_path_ok:
  "put_path p v m = Inr m' \<Longrightarrow> gval_ok v \<Longrightarrow> gval_ok (GMap m) \<Longrightarrow> gval_ok (GMap m')"
proof (induction p arbitrary: m m')
  case (Cons key rest)
  show ?case
  proof (cases "rest = []")
    case True
    then show ?thesis using Cons.prems gval_ok_put [of m v key] by auto
  next
    case False
    then obtain sub sub' where "submap key m = Some sub" "put_path rest v sub = Inr sub'" "m' = gm_put key (GMap sub') m"
      using Cons.prems(1) by (auto simp: put_path_submap bindE_eq_Inr split: option.splits)
    then show ?thesis using Cons.IH Cons.prems(2,3) gval_ok_submap gval_ok_put by metis
  qed
qed simp

lemma MakeHelmConfigMap_ok:
  assumes "MakeHelmConfigMap vals = Inr m"
  shows "gval_ok (GMap m)"
proof -
  have fold: "foldE put_row rows s = Inr s' \<Longrightarrow> gval_ok (GMap s) \<Longrightarrow> gval_ok (GMap s')" for rows s s'
  proof (induction rows arbitrary: s)
    case (Cons r rows)
    then obtain s1 where s1: "put_row r s = Inr s1" and rest: "foldE put_row rows s1 = Inr s'" by (auto simp: bindE_eq_Inr)
    then obtain p where "put_path p (GRaw (m_Value r)) s = Inr s1" by (auto simp: put_row_def bindE_eq_Inr)
    then have "gval_ok (GMap s1)" by (rule put_path_ok) (use Cons.prems(2) in simp_all)
    then show ?case by (rule Cons.IH [OF rest])
  qed simp
  have "foldE put_row vals [] = Inr m" using assms by (auto simp: MakeHelmConfigMap_def bindE_eq_Inr)
  then show ?thesis by (rule fold) simp
qed

lemma foldE_generate_steady:
  assumes "same_libraries x x'" and "steady x x' kind f" and "gval_ok (GMap t)"
  shows "foldE (generate_step x' kind cv) (range_order x' cv (f_Values f)) t = Inr t' \<longleftrightarrow>
    foldE (generate_step x kind cv) (range_order x cv (f_Values f)) t = Inr t'"
proof -
  have step: "generate_step x' kind cv kv s = generate_step x kind cv kv s" if "kv \<in> set (f_Values f)" for kv s
  proof (cases "is_computed kind kv")
    case True
    then have "x_render x' (fst kv) cv (cmp_Template (the (v_Computed (snd kv)))) =
        x_render x (fst kv) cv (cmp_Template (the (v_Computed (snd kv))))"
      using assms(2) that by (simp add: steady_def)
    then have "addToMap x' (fst kv) cv p (cmp_Template (the (v_Computed (snd kv)))) s =
        addToMap x (fst kv) cv p (cmp_Template (the (v_Computed (snd kv)))) s" for p
      by (rule addToMap_at [OF same_libraries_fields(1) [OF assms(1)]])
    then show ?thesis using True by (auto simp: generate_step_def is_computed_def)
  qed (simp add: generate_step_skip)
  have fold: "foldE (generate_step x' kind cv) kvs s = foldE (generate_step x kind cv) kvs s"
    if "set kvs \<subseteq> set (f_Values f)" for kvs s
    using that by (induction kvs arbitrary: s) (simp_all add: step bindE_def split: sum.split)
  show ?thesis
  proof (cases "x_rank x' = x_rank x")
    case True
    then have "range_order x' = range_order x" by (intro ext) (simp add: range_order_def)
    then show ?thesis by (simp add: fold)
  next
    case False
    then have ok: "computed_disjoint kind (f_Values f)" "\<And>s v. x_yaml x s = Inr v \<Longrightarrow> gval_ok v"
      using assms(2) by (auto simp: steady_def)
    show ?thesis
      using foldE_generate_order [of x t kind "range_order x' cv (f_Values f)" "range_order x cv (f_Values f)"] ok assms(3)
      by (simp add: fold computed_disjoint_mset [OF mset_range_order] del: gval_ok.simps)
  qed
qed

text \<open>Steady operations compute the same Helm values, or both fail.\<close>

lemma RenderHelmValues_steady:
  assumes "same_libraries x x'" and "steady x x' (d_EnvKind data) f" and "gval_ok (GMap (d_ConfigMap data))"
  shows "RenderHelmValues x' data f validate = Inr m \<longleftrightarrow> RenderHelmValues x data f validate = Inr m"
proof -
  note lib = same_libraries_fields [OF assms(1)]
  have "copyMap x' = copyMap x" using lib by (intro same_copyMap)
  then show ?thesis
    by (simp add: RenderHelmValues_def GenerateWith_def Let_def bindE_eq_Inr foldE_generate_steady [OF assms] split_beta)
qed

section \<open>Failures of rendering\<close>

text \<open>
  A computed template that renders to a YAML map with a key that is not a string panics in
  \<open>repairMapAny\<close>: such a map is the one kind that the YAML decoder returns as \<open>map[any]any\<close>.
\<close>

theorem repairMapAny_panics:
  "repairMapAny (GAny [(GStr ''a'', GNil), (GNum ''1'', GStr ''x'')]) =
     Inl (Panic ''interface conversion: interface {} is not string'')"
  by simp

text \<open>
  The template cache is keyed by the template text alone: after a template was parsed with one
  function map, rendering it with another executes the first parse, whatever the second map is. The
  parser and the executor are arbitrary.
\<close>

theorem renderString_ignores_funcs:
  assumes "parse funcs1 tpl = Inr t"
  shows "let st = snd (renderString parse execute values tpl funcs1 ([], w))
         in fst (renderString parse execute values tpl funcs2 st) = fst (execute t values (snd st))"
  using assms by (simp add: renderString_def split: prod.split)

theorem renderString_ignores_funcs_witness:
  "fst (renderString (\<lambda>f s. Inr (f :: nat)) (\<lambda>t v w. (Inr (show_nat t), w)) example_cv ''x'' 2
     (snd (renderString (\<lambda>f s. Inr f) (\<lambda>t v w. (Inr (show_nat t), w)) example_cv ''x'' 1 ([], ())))) = Inr (show_nat 1)"
  using renderString_ignores_funcs[of "\<lambda>f s. Inr (f :: nat)" 1 "''x''" 1 "\<lambda>t v w. (Inr (show_nat t), w)" example_cv "()" 2]
  by (simp add: Let_def)

end
