(* ===== verification/Database.thy ===== *)
theory Database
  imports Domain
begin

text \<open>
  The PostgreSQL database: the tables the modelled code reads and writes
  (\<open>internal/database/migrations\<close>) as one record, the two logs with the triggers that keep their
  latest rows (migration 0098), and the queries of the packages (the sqlc functions) as functions of
  the tables.

  A table with a primary key that statements upsert on is a Go map from the key; the others are lists
  of rows in insertion order. \<open>now\<close> is the transaction's timestamp. A foreign key is checked by the
  statements that write an identifier they are given (environment values, disabled features, releases); the other rows
  carry identifiers that were read from the referenced tables, and nothing deletes environments, tenants, assignments or
  feature data.

  The refinement: the table a trigger maintains is the \<open>DISTINCT ON\<close> view over the append-only log.
  It is proved once, in a locale for a log with a latest-row table, and holds for both logs.
\<close>

section \<open>Rows\<close>

record FeatureDatum =
  fd_name :: string
  fd_version :: string
  fd_chart :: string
  fd_description :: string
  fd_source :: string
  fd_kinds :: "string list"
  fd_dependencies :: string
  fd_values :: string
  fd_default_values :: string
  fd_timeout :: int
  fd_tpl_details :: string

record AssignmentRow =
  fa_id :: uuid
  fa_feature_name :: string
  fa_version :: string
  fa_target :: Labels
  fa_created :: gotime
  fa_gh_ref :: "string option"
  fa_description :: "string option"
  fa_active :: bool

record DeployLog =
  dl_id :: nat
  dl_diid :: uuid
  dl_environment_id :: uuid
  dl_feature_assignment_id :: uuid
  dl_feature_name :: string
  dl_feature_version :: string
  dl_status :: DeployStatus
  dl_hash :: string
  dl_values :: string
  dl_created :: gotime

record DeployCurrent =
  dc_log_id :: nat
  dc_diid :: uuid
  dc_feature_assignment_id :: uuid
  dc_feature_version :: string
  dc_status :: DeployStatus
  dc_hash :: string
  dc_created :: gotime

record DecisionLog =
  cl_id :: nat
  cl_environment_id :: uuid
  cl_feature_assignment_id :: uuid
  cl_feature_name :: string
  cl_feature_version :: string
  cl_action :: string
  cl_message :: string
  cl_created :: gotime

record DecisionCurrent =
  cc_log_id :: nat
  cc_feature_assignment_id :: uuid
  cc_feature_version :: string
  cc_action :: string
  cc_message :: string
  cc_created :: gotime

record ReleaseStatus =
  rs_version :: string
  rs_status :: string
  rs_revision :: int
  rs_last_deployed :: gotime
  rs_created :: gotime
  rs_last_modified :: gotime

record LogRow =
  lr_deploy_instruction :: uuid
  lr_time :: gotime
  lr_message :: string
  lr_kind :: string

record AuditRow =
  au_actor :: string
  au_action :: string
  au_description :: string
  au_object_type :: string
  au_object_id :: string
  au_feature :: string
  au_environment_id :: "uuid option"
  au_metadata :: "gval option"
  au_created_at :: gotime

record db =
  tenants :: "Tenant list"
  environments :: "Environment list"
  environment_values :: "EnvironmentValue list"
  feature_data :: "FeatureDatum list"
  feature_assignments :: "AssignmentRow list"
  configurations_global :: "ConfigurationsGlobal list"
  configurations_environment :: "ConfigurationsEnvironment list"
  disabled_features :: "(uuid \<times> string, gotime) gomap"
  health_statuses :: "(uuid, gotime) gomap"
  release_statuses :: "(uuid \<times> string, ReleaseStatus) gomap"
  deploy_log :: "DeployLog list"
  deploy_seq :: nat
  deploy_current :: "(uuid \<times> string, DeployCurrent) gomap"
  decision_log :: "DecisionLog list"
  decision_seq :: nat
  decision_current :: "(uuid \<times> string, DecisionCurrent) gomap"
  logs :: "LogRow list"
  audits :: "AuditRow list"

definition empty_db :: db where
  "empty_db = \<lparr>tenants = [], environments = [], environment_values = [], feature_data = [],
     feature_assignments = [], configurations_global = [], configurations_environment = [],
     disabled_features = [], health_statuses = [], release_statuses = [],
     deploy_log = [], deploy_seq = 1, deploy_current = [],
     decision_log = [], decision_seq = 1, decision_current = [], logs = [], audits = []\<rparr>"

section \<open>The outside of an operation\<close>

text \<open>The message to an agent (\<open>internal/message\<close>).\<close>

record DeployInstruction =
  mi_ID :: uuid
  mi_Name :: string
  mi_Version :: string
  mi_Chart :: string
  mi_ConfigHash :: string
  mi_Timeout :: duration
  mi_Values :: gmap
  mi_Uninstall :: bool

text \<open>
  What an operation meets outside the tables: the clock, the statements that fail, the broker's answer,
  fresh identifiers, and the text that PostgreSQL gives back for a JSONB column (\<open>None\<close> when the text is
  not JSON).
\<close>

record io =
  io_now :: gotime
  io_fails :: "string \<Rightarrow> bool"
  io_accepts :: "string \<Rightarrow> DeployInstruction \<Rightarrow> bool"
  io_diid :: "nat \<Rightarrow> uuid"
  io_jsonb :: "string \<Rightarrow> string option"

section \<open>A log and the table of its latest rows\<close>

text \<open>
  \<open>key\<close> is what the table has one row for, \<open>rank\<close> the order of the rows, \<open>cur\<close> the columns that the
  table keeps of a log row, \<open>trigger\<close> the trigger function.
\<close>

locale latest_table =
  fixes key :: "'r \<Rightarrow> 'k::linorder"
    and rank :: "'r \<Rightarrow> 'o::linorder"
    and cur :: "'r \<Rightarrow> 'c"
    and cur_rank :: "'c \<Rightarrow> 'o"
    and trigger :: "'r \<Rightarrow> ('k, 'c) gomap \<Rightarrow> ('k, 'c) gomap"
  assumes cur_rank_cur: "cur_rank (cur r) = rank r"
    and trigger_lookup: "map_of (trigger r m) k =
      (if k = key r \<and> (case map_of m k of None \<Rightarrow> True | Some c \<Rightarrow> cur_rank c < rank r)
       then Some (cur r) else map_of m k)"
    and trigger_ok: "gm_ok m \<Longrightarrow> gm_ok (trigger r m)"
begin

definition latest :: "'r list \<Rightarrow> 'k \<Rightarrow> 'r \<Rightarrow> bool" where
  "latest log k r \<longleftrightarrow> r \<in> set log \<and> key r = k \<and> (\<forall>r' \<in> set log. key r' = k \<longrightarrow> rank r' \<le> rank r)"

definition tracks :: "('k, 'c) gomap \<Rightarrow> 'r list \<Rightarrow> bool" where
  "tracks m log \<longleftrightarrow> gm_ok m \<and> (\<forall>k. (map_of m k = None \<longleftrightarrow> k \<notin> key ` set log) \<and>
     (\<forall>c. map_of m k = Some c \<longrightarrow> (\<exists>r. latest log k r \<and> c = cur r)))"

lemma tracks_empty: "tracks [] []"
  by (simp add: tracks_def)

lemma tracks_SomeD: "tracks m log \<Longrightarrow> map_of m k = Some c \<Longrightarrow> \<exists>r. latest log k r \<and> c = cur r"
  by (simp add: tracks_def)

lemma latest_snoc_other: "key r \<noteq> k \<Longrightarrow> latest (log @ [r]) k r' \<longleftrightarrow> latest log k r'"
  by (auto simp: latest_def)

lemma tracks_insert:
  assumes "tracks m log"
  shows "tracks (trigger r m) (log @ [r])"
  unfolding tracks_def
proof (intro conjI allI impI)
  show "gm_ok (trigger r m)" using assms by (simp add: tracks_def trigger_ok)
  fix k
  have dom: "map_of m k = None \<longleftrightarrow> k \<notin> key ` set log" using assms by (simp add: tracks_def)
  then show "map_of (trigger r m) k = None \<longleftrightarrow> k \<notin> key ` set (log @ [r])"
    by (cases "map_of m k") (auto simp: trigger_lookup)
  fix c assume c: "map_of (trigger r m) k = Some c"
  show "\<exists>r'. latest (log @ [r]) k r' \<and> c = cur r'"
  proof (cases "k = key r \<and> (case map_of m k of None \<Rightarrow> True | Some c \<Rightarrow> cur_rank c < rank r)")
    case True
    have "rank r' \<le> rank r" if r': "r' \<in> set log" "key r' = k" for r'
    proof (cases "map_of m k")
      case None
      then show ?thesis using assms r' by (auto simp: tracks_def)
    next
      case (Some c')
      then obtain r0 where "latest log k r0" and "c' = cur r0" using tracks_SomeD[OF assms Some] by blast
      then have "rank r' \<le> cur_rank c'" using r' by (simp add: latest_def cur_rank_cur)
      also have "\<dots> < rank r" using True Some by simp
      finally show ?thesis by simp
    qed
    then have "latest (log @ [r]) k r" using True by (auto simp: latest_def)
    then show ?thesis using c True by (auto simp: trigger_lookup)
  next
    case False
    have old: "map_of m k = Some c" using c unfolding trigger_lookup if_not_P[OF False] .
    then obtain r0 where r0: "latest log k r0" and cr: "c = cur r0" using tracks_SomeD[OF assms old] by blast
    have "latest (log @ [r]) k r0"
      using r0 False old cr by (auto simp: latest_def cur_rank_cur)
    then show ?thesis using cr by blast
  qed
qed

lemma tracks_inserts: "tracks m log \<Longrightarrow> tracks (fold trigger rows m) (log @ rows)"
proof (induction rows arbitrary: m log)
  case (Cons r rows)
  then show ?case using tracks_insert[of m log r] Cons.IH[of "trigger r m" "log @ [r]"] by simp
qed simp

lemma fold_trigger_other: "k \<notin> key ` set rows \<Longrightarrow> map_of (fold trigger rows m) k = map_of m k"
  by (induction rows arbitrary: m) (auto simp: trigger_lookup)

lemma fold_trigger_lookup:
  assumes "distinct (map key rows)" and "r \<in> set rows" and "\<And>c. map_of m (key r) = Some c \<Longrightarrow> cur_rank c < rank r"
  shows "map_of (fold trigger rows m) (key r) = Some (cur r)"
  using assms
proof (induction rows arbitrary: m)
  case (Cons a rows)
  show ?case
  proof (cases "a = r")
    case True
    then have "key r \<notin> key ` set rows" using Cons.prems(1) by simp
    then show ?thesis using Cons.prems(3) True by (auto simp: fold_trigger_other trigger_lookup split: option.splits)
  next
    case False
    then have "r \<in> set rows" and "key r \<noteq> key a" using Cons.prems(1,2) by (auto simp: image_iff)
    then show ?thesis using Cons.IH[of "trigger a m"] Cons.prems(1,3) by (auto simp: trigger_lookup)
  qed
qed simp

text \<open>With distinct ranks there is one latest row, and it is the first in the view's order.\<close>

lemma latest_unique:
  "inj_on rank (set log) \<Longrightarrow> latest log k r \<Longrightarrow> latest log k r' \<Longrightarrow> r = r'"
proof -
  assume inj: "inj_on rank (set log)" and l: "latest log k r" "latest log k r'"
  then have "rank r = rank r'" by (intro antisym) (simp_all add: latest_def)
  then show "r = r'" using inj l by (simp add: latest_def inj_on_eq_iff)
qed

lemma tracks_lookup:
  "tracks m log \<Longrightarrow> inj_on rank (set log) \<Longrightarrow> latest log k r \<Longrightarrow> map_of m k = Some (cur r)"
proof -
  assume t: "tracks m log" and inj: "inj_on rank (set log)" and l: "latest log k r"
  then have "map_of m k \<noteq> None" by (auto simp: tracks_def latest_def)
  then obtain c r0 where "map_of m k = Some c" and "latest log k r0" and "c = cur r0"
    using tracks_SomeD[OF t] by blast
  then show ?thesis using latest_unique[OF inj l] by simp
qed

lemma tracks_view:
  assumes "tracks m log" and "inj_on rank (set log)"
    and "mset rows = mset log" and "sorted_wrt (\<lambda>a b. key a = key b \<longrightarrow> rank b \<le> rank a) rows"
  shows "map_of m k = map_option cur (find (\<lambda>r. key r = k) (distinct_on key rows))"
proof -
  have set: "set rows = set log" using assms(3) by (rule mset_eq_setD)
  show ?thesis
  proof (cases "find (\<lambda>r. key r = k) rows")
    case None
    then have "k \<notin> key ` set log" using set by (auto simp: find_None_iff)
    then have "map_of m k = None" using assms(1) by (simp add: tracks_def)
    then show ?thesis using None by (simp add: distinct_on_find)
  next
    case (Some r)
    have "r \<in> set rows \<and> key r = k \<and> (\<forall>r' \<in> set rows. key r' = k \<longrightarrow> rank r' \<le> rank r)"
      using Some assms(4)
    proof (induction rows)
      case (Cons a rows)
      then show ?case by (cases "key a = k") auto
    qed simp
    then have "latest log k r" using set by (simp add: latest_def)
    then show ?thesis using Some tracks_lookup[OF assms(1,2)] by (simp add: distinct_on_find)
  qed
qed

end

section \<open>The deploy log\<close>

definition dl_key :: "DeployLog \<Rightarrow> uuid \<times> string" where
  "dl_key r = (dl_environment_id r, dl_feature_name r)"

definition dl_rank :: "DeployLog \<Rightarrow> gotime \<times> nat" where
  "dl_rank r = (dl_created r, dl_id r)"

definition dc_rank :: "DeployCurrent \<Rightarrow> gotime \<times> nat" where
  "dc_rank c = (dc_created c, dc_log_id c)"

definition deploy_current_of :: "DeployLog \<Rightarrow> DeployCurrent" where
  "deploy_current_of r = \<lparr>dc_log_id = dl_id r, dc_diid = dl_diid r,
     dc_feature_assignment_id = dl_feature_assignment_id r, dc_feature_version = dl_feature_version r,
     dc_status = dl_status r, dc_hash = dl_hash r, dc_created = dl_created r\<rparr>"

definition deploy_log_to_current ::
  "DeployLog \<Rightarrow> (uuid \<times> string, DeployCurrent) gomap \<Rightarrow> (uuid \<times> string, DeployCurrent) gomap" where
  "deploy_log_to_current r m =
     (case map_of m (dl_key r) of
        None \<Rightarrow> gm_put (dl_key r) (deploy_current_of r) m
      | Some c \<Rightarrow> if dl_rank r > dc_rank c then gm_put (dl_key r) (deploy_current_of r) m else m)"

interpretation dl: latest_table dl_key dl_rank deploy_current_of dc_rank deploy_log_to_current
  by unfold_locales
    (auto simp: deploy_log_to_current_def dc_rank_def dl_rank_def deploy_current_of_def split: option.splits)

text \<open>The view that the table replaced (migration 0093).\<close>

definition deploy_status_view :: "DeployLog list \<Rightarrow> DeployLog list" where
  "deploy_status_view log = distinct_on dl_key
     (sort_key (\<lambda>r. (dl_environment_id r, dl_feature_name r, - dl_created r, - int (dl_id r))) log)"

text \<open>Inserting rows: identifiers come from the sequence, the trigger fires for each row.\<close>

definition insert_deploy :: "DeployLog \<Rightarrow> db \<Rightarrow> db" where
  "insert_deploy r d = d \<lparr>deploy_log := deploy_log d @ [r], deploy_current := deploy_log_to_current r (deploy_current d)\<rparr>"

definition append_deploy_row :: "gotime \<Rightarrow> DeployLog \<Rightarrow> db \<Rightarrow> db" where
  "append_deploy_row now r d =
     (insert_deploy (r \<lparr>dl_id := deploy_seq d, dl_created := now\<rparr>) d) \<lparr>deploy_seq := Suc (deploy_seq d)\<rparr>"

definition AppendDeploys :: "gotime \<Rightarrow> DeployLog list \<Rightarrow> db \<Rightarrow> db" where
  "AppendDeploys now rows d = fold (append_deploy_row now) rows d"

section \<open>The decision log\<close>

definition cl_key :: "DecisionLog \<Rightarrow> uuid \<times> string" where
  "cl_key r = (cl_environment_id r, cl_feature_name r)"

definition cl_rank :: "DecisionLog \<Rightarrow> gotime \<times> nat" where
  "cl_rank r = (cl_created r, cl_id r)"

definition cc_rank :: "DecisionCurrent \<Rightarrow> gotime \<times> nat" where
  "cc_rank c = (cc_created c, cc_log_id c)"

definition decision_current_of :: "DecisionLog \<Rightarrow> DecisionCurrent" where
  "decision_current_of r = \<lparr>cc_log_id = cl_id r,
     cc_feature_assignment_id = cl_feature_assignment_id r, cc_feature_version = cl_feature_version r,
     cc_action = cl_action r, cc_message = cl_message r, cc_created = cl_created r\<rparr>"

definition decision_log_to_current ::
  "DecisionLog \<Rightarrow> (uuid \<times> string, DecisionCurrent) gomap \<Rightarrow> (uuid \<times> string, DecisionCurrent) gomap" where
  "decision_log_to_current r m =
     (case map_of m (cl_key r) of
        None \<Rightarrow> gm_put (cl_key r) (decision_current_of r) m
      | Some c \<Rightarrow> if cl_rank r > cc_rank c then gm_put (cl_key r) (decision_current_of r) m else m)"

interpretation cl: latest_table cl_key cl_rank decision_current_of cc_rank decision_log_to_current
  by unfold_locales
    (auto simp: decision_log_to_current_def cc_rank_def cl_rank_def decision_current_of_def split: option.splits)

definition append_decision_row :: "gotime \<Rightarrow> DecisionLog \<Rightarrow> db \<Rightarrow> db" where
  "append_decision_row now r d =
     (let row = r \<lparr>cl_id := decision_seq d, cl_created := now\<rparr>
      in d \<lparr>decision_log := decision_log d @ [row],
            decision_current := decision_log_to_current row (decision_current d),
            decision_seq := Suc (decision_seq d)\<rparr>)"

definition AppendDecisions :: "gotime \<Rightarrow> DecisionLog list \<Rightarrow> db \<Rightarrow> db" where
  "AppendDecisions now rows d = fold (append_decision_row now) rows d"

section \<open>The current tables are the views\<close>

text \<open>What the constraints and triggers of the schema keep true: current tables, sequences, primary keys.\<close>

definition db_ok :: "db \<Rightarrow> bool" where
  "db_ok d \<longleftrightarrow>
     dl.tracks (deploy_current d) (deploy_log d) \<and> distinct (map dl_id (deploy_log d)) \<and>
     (\<forall>r \<in> set (deploy_log d). dl_id r < deploy_seq d) \<and>
     cl.tracks (decision_current d) (decision_log d) \<and> distinct (map cl_id (decision_log d)) \<and>
     (\<forall>r \<in> set (decision_log d). cl_id r < decision_seq d) \<and>
     gm_ok (disabled_features d) \<and> gm_ok (health_statuses d) \<and> gm_ok (release_statuses d) \<and>
     distinct (map e_ID (environments d)) \<and> distinct (map t_ID (tenants d))"

lemma db_ok_empty [simp]: "db_ok empty_db"
  by (simp add: db_ok_def empty_db_def dl.tracks_empty cl.tracks_empty)

lemma db_ok_append_deploy: "db_ok d \<Longrightarrow> db_ok (append_deploy_row now r d)"
  using dl.tracks_insert[of "deploy_current d" "deploy_log d" "r \<lparr>dl_id := deploy_seq d, dl_created := now\<rparr>"]
  by (force simp: db_ok_def append_deploy_row_def insert_deploy_def)

lemma db_ok_AppendDeploys: "db_ok d \<Longrightarrow> db_ok (AppendDeploys now rows d)"
  unfolding AppendDeploys_def by (induction rows arbitrary: d) (simp_all add: db_ok_append_deploy)

lemma db_ok_append_decision: "db_ok d \<Longrightarrow> db_ok (append_decision_row now r d)"
  using cl.tracks_insert[of "decision_current d" "decision_log d" "r \<lparr>cl_id := decision_seq d, cl_created := now\<rparr>"]
  by (force simp: db_ok_def append_decision_row_def Let_def)

lemma db_ok_AppendDecisions: "db_ok d \<Longrightarrow> db_ok (AppendDecisions now rows d)"
  unfolding AppendDecisions_def by (induction rows arbitrary: d) (simp_all add: db_ok_append_decision)

lemma inj_on_dl_rank: "distinct (map dl_id log) \<Longrightarrow> inj_on dl_rank (set log)"
  by (auto simp: distinct_map inj_on_def dl_rank_def)

lemma deploy_view_sorted:
  "sorted_wrt (\<lambda>a b. dl_key a = dl_key b \<longrightarrow> dl_rank b \<le> dl_rank a)
     (sort_key (\<lambda>r. (dl_environment_id r, dl_feature_name r, - dl_created r, - int (dl_id r))) log)"
proof -
  let ?k = "\<lambda>r. (dl_environment_id r, dl_feature_name r, - dl_created r, - int (dl_id r))"
  have "sorted_wrt (\<lambda>a b. ?k a \<le> ?k b) (sort_key ?k log)"
    using sorted_sort_key[of ?k log] by (simp add: sorted_map)
  then show ?thesis by (rule sorted_wrt_mono_rel[rotated]) (auto simp: dl_key_def dl_rank_def)
qed

text \<open>What a sequence of appended rows, each at its time, makes of the log, its sequence and the table.\<close>

definition append_all :: "(gotime \<times> DeployLog) list \<Rightarrow> db \<Rightarrow> db" where
  "append_all trs d = fold (\<lambda>(now, r). append_deploy_row now r) trs d"

lemma append_all_snoc: "append_all (trs @ [tr]) d = append_deploy_row (fst tr) (snd tr) (append_all trs d)"
  by (simp add: append_all_def split_beta)

lemma append_all_batches:
  "fold (\<lambda>(now, rows). AppendDeploys now rows) batches d = append_all (concat (map (\<lambda>(now, rows). map (Pair now) rows) batches)) d"
proof -
  have "AppendDeploys now rows d = append_all (map (Pair now) rows) d" for now rows d
    unfolding AppendDeploys_def append_all_def by (induction rows arbitrary: d) simp_all
  then show ?thesis by (induction batches arbitrary: d) (auto simp: append_all_def)
qed

lemma append_all_log:
  assumes "deploy_log d = []"
  shows "list_all2 (\<lambda>(now, r) q. q = r \<lparr>dl_id := dl_id q, dl_created := now\<rparr>) trs (deploy_log (append_all trs d)) \<and>
    map dl_id (deploy_log (append_all trs d)) = [deploy_seq d..<deploy_seq d + length trs] \<and>
    deploy_seq (append_all trs d) = deploy_seq d + length trs"
proof (induction trs rule: rev_induct)
  case Nil
  then show ?case using assms by (simp add: append_all_def)
next
  case (snoc tr trs)
  then show ?case
    by (auto simp: append_all_snoc append_deploy_row_def insert_deploy_def split_beta intro!: list_all2_appendI)
qed

lemma append_all_tracks:
  assumes "dl.tracks (deploy_current d) (deploy_log d)"
  shows "dl.tracks (deploy_current (append_all trs d)) (deploy_log (append_all trs d))"
proof (induction trs rule: rev_induct)
  case (snoc tr trs)
  then show ?case
    by (simp add: append_all_snoc append_deploy_row_def insert_deploy_def dl.tracks_insert)
qed (use assms in \<open>simp add: append_all_def\<close>)

text \<open>
  C27. The trigger-maintained table refines the view: whatever batches of rows \<open>AppendDeploys\<close> appends to an empty deploy log, at
  whatever times, the log holds all these rows, in their order and numbered one after the other, and the table that the trigger
  \<open>deploy_log_to_current\<close> writes row by row holds for an environment and feature exactly the row that the
  \<open>DISTINCT ON\<close> view over the whole log selects, the one with the greatest creation time and identifier.
\<close>

theorem deploy_current_is_view:
  assumes "deploy_log d0 = []" and "deploy_current d0 = []"
    and "d = fold (\<lambda>(now, rows). AppendDeploys now rows) batches d0"
  shows "map_of (deploy_current d) k =
      map_option deploy_current_of (find (\<lambda>r. dl_key r = k) (deploy_status_view (deploy_log d))) \<and>
    list_all2 (\<lambda>(now, r) q. q = r \<lparr>dl_id := dl_id q, dl_created := now\<rparr>)
      (concat (map (\<lambda>(now, rows). map (Pair now) rows) batches)) (deploy_log d) \<and>
    map dl_id (deploy_log d) = [deploy_seq d0..<deploy_seq d]"
proof -
  let ?trs = "concat (map (\<lambda>(now, rows). map (Pair now) rows) batches)"
  have d: "d = append_all ?trs d0" using assms(3) append_all_batches by metis
  note log = append_all_log [OF assms(1), of ?trs]
  have "dl.tracks (deploy_current d) (deploy_log d)"
    unfolding d by (rule append_all_tracks) (simp add: assms(1,2) dl.tracks_empty)
  moreover have "distinct (map dl_id (deploy_log d))" using log by (simp add: d)
  ultimately show ?thesis
    using dl.tracks_view [OF _ inj_on_dl_rank _ deploy_view_sorted, where m = "deploy_current d" and k = k] log
    by (simp add: deploy_status_view_def d)
qed

definition example_deploy_row :: "uuid \<Rightarrow> DeployStatus \<Rightarrow> DeployLog" where
  "example_deploy_row diid status = \<lparr>dl_id = 0, dl_diid = diid, dl_environment_id = 1,
     dl_feature_assignment_id = 2, dl_feature_name = ''loki'', dl_feature_version = ''1'', dl_status = status,
     dl_hash = ''h'', dl_values = [], dl_created = 0\<rparr>"

theorem deploy_current_is_view_witness:
  "let d = AppendDeploys 5 [example_deploy_row 7 ''deployed''] (AppendDeploys 5 [example_deploy_row 7 ''sent''] empty_db)
   in map_of (deploy_current d) (1, ''loki'') =
        map_option deploy_current_of (find (\<lambda>r. dl_key r = (1, ''loki'')) (deploy_status_view (deploy_log d))) \<and>
      map dl_id (deploy_log d) = [1, 2]"
proof -
  let ?d = "AppendDeploys 5 [example_deploy_row 7 ''deployed''] (AppendDeploys 5 [example_deploy_row 7 ''sent''] empty_db)"
  define d where "d = ?d"
  have d': "d = fold (\<lambda>(now, rows). AppendDeploys now rows) [(5, [example_deploy_row 7 ''sent'']), (5, [example_deploy_row 7 ''deployed''])] empty_db"
    by (simp add: d_def)
  have "deploy_log empty_db = []" "deploy_current empty_db = []" "deploy_seq empty_db = 1" "deploy_seq d = 3"
    by (simp_all add: d_def empty_db_def AppendDeploys_def append_deploy_row_def insert_deploy_def)
  then show ?thesis
    using deploy_current_is_view [OF _ _ d', of "(1, ''loki'')"] unfolding d_def [symmetric] by (simp add: upt_rec)
qed

subsection \<open>Lookups after appends\<close>

lemma append_deploy_row_log [simp]:
  "deploy_log (append_deploy_row now r d) = deploy_log d @ [r \<lparr>dl_id := deploy_seq d, dl_created := now\<rparr>]"
  "deploy_seq (append_deploy_row now r d) = Suc (deploy_seq d)"
  by (simp_all add: append_deploy_row_def insert_deploy_def)

text \<open>
  The clock of the server does not run backwards past the rows already in the log: then an appended
  row becomes the current one of its environment and feature.
\<close>

definition clock_ok :: "gotime \<Rightarrow> db \<Rightarrow> bool" where
  "clock_ok now d \<longleftrightarrow> (\<forall>r \<in> set (deploy_log d). dl_created r \<le> now) \<and> (\<forall>r \<in> set (decision_log d). cl_created r \<le> now)"

lemma deploy_current_rank_bound:
  "db_ok d \<Longrightarrow> map_of (deploy_current d) k = Some c \<Longrightarrow> clock_ok now d \<Longrightarrow> dc_rank c < (now, deploy_seq d)"
  by (auto simp: db_ok_def clock_ok_def dc_rank_def deploy_current_of_def dl.latest_def dest!: dl.tracks_SomeD)

lemma append_deploy_current:
  assumes "db_ok d" and "clock_ok now d"
  shows "map_of (deploy_current (append_deploy_row now r d)) k =
    (if k = dl_key r then Some (deploy_current_of (r \<lparr>dl_id := deploy_seq d, dl_created := now\<rparr>))
     else map_of (deploy_current d) k)"
proof -
  let ?r = "r \<lparr>dl_id := deploy_seq d, dl_created := now\<rparr>"
  have key: "dl_key ?r = dl_key r" and rank: "dl_rank ?r = (now, deploy_seq d)"
    by (simp_all add: dl_key_def dl_rank_def)
  have "map_of (deploy_current (append_deploy_row now r d)) k = map_of (deploy_log_to_current ?r (deploy_current d)) k"
    by (simp add: append_deploy_row_def insert_deploy_def)
  also have "\<dots> = (if k = dl_key r \<and> (case map_of (deploy_current d) k of None \<Rightarrow> True | Some c \<Rightarrow> dc_rank c < (now, deploy_seq d))
      then Some (deploy_current_of ?r) else map_of (deploy_current d) k)"
    by (simp only: dl.trigger_lookup key rank)
  finally show ?thesis
    using deploy_current_rank_bound[OF assms(1) _ assms(2), of k] by (auto split: option.splits)
qed

lemma clock_ok_append_deploy [simp]: "clock_ok now d \<Longrightarrow> clock_ok now (append_deploy_row now r d)"
  by (auto simp: clock_ok_def append_deploy_row_def insert_deploy_def)

lemma AppendDeploys_Cons: "AppendDeploys now (r # rows) d = AppendDeploys now rows (append_deploy_row now r d)"
  by (simp add: AppendDeploys_def)

lemma AppendDeploys_current_other:
  assumes "db_ok d" and "clock_ok now d" and "k \<notin> dl_key ` set rows"
  shows "map_of (deploy_current (AppendDeploys now rows d)) k = map_of (deploy_current d) k"
  using assms
proof (induction rows arbitrary: d)
  case (Cons r rows)
  then show ?case
    using append_deploy_current[OF Cons.prems(1,2), of r k] by (simp add: AppendDeploys_Cons db_ok_append_deploy)
qed (simp add: AppendDeploys_def)

lemma AppendDeploys_current:
  assumes "db_ok d" and "clock_ok now d" and "distinct (map dl_key rows)" and "r \<in> set rows"
  shows "\<exists>n. map_of (deploy_current (AppendDeploys now rows d)) (dl_key r) =
    Some (deploy_current_of (r \<lparr>dl_id := n, dl_created := now\<rparr>))"
  using assms
proof (induction rows arbitrary: d)
  case (Cons a rows)
  let ?d' = "append_deploy_row now a d"
  have ok: "db_ok ?d'" "clock_ok now ?d'" using Cons.prems by (simp_all add: db_ok_append_deploy)
  show ?case
  proof (cases "r = a")
    case True
    have "dl_key a \<notin> dl_key ` set rows" using Cons.prems(3) by simp
    then show ?thesis
      using AppendDeploys_current_other[OF ok, of "dl_key a" rows] append_deploy_current[OF Cons.prems(1,2), of a "dl_key a"] True
      by (auto simp: AppendDeploys_Cons)
  next
    case False
    then show ?thesis using Cons.IH[OF ok] Cons.prems by (simp add: AppendDeploys_Cons)
  qed
qed simp

subsection \<open>Lookups in the decision log\<close>

lemma AppendDecisions_log:
  "\<exists>rows'. decision_log (AppendDecisions now rows d) = decision_log d @ rows' \<and>
     decision_current (AppendDecisions now rows d) = fold decision_log_to_current rows' (decision_current d) \<and>
     list_all2 (\<lambda>r r'. \<exists>n \<ge> decision_seq d. r' = r \<lparr>cl_id := n, cl_created := now\<rparr>) rows rows'"
proof (induction rows arbitrary: d)
  case (Cons r rows)
  let ?d = "append_decision_row now r d"
  obtain rows' where "decision_log (AppendDecisions now rows ?d) = decision_log ?d @ rows'"
    and "decision_current (AppendDecisions now rows ?d) = fold decision_log_to_current rows' (decision_current ?d)"
    and l: "list_all2 (\<lambda>r r'. \<exists>n \<ge> decision_seq ?d. r' = r \<lparr>cl_id := n, cl_created := now\<rparr>) rows rows'"
    using Cons.IH by blast
  moreover have "list_all2 (\<lambda>r r'. \<exists>n \<ge> decision_seq d. r' = r \<lparr>cl_id := n, cl_created := now\<rparr>) rows rows'"
    by (rule list_all2_mono[OF l]) (auto simp: append_decision_row_def Let_def intro: Suc_leD)
  ultimately show ?case
    by (intro exI[of _ "r \<lparr>cl_id := decision_seq d, cl_created := now\<rparr> # rows'"])
      (auto simp: AppendDecisions_def append_decision_row_def Let_def)
qed (simp add: AppendDecisions_def)

lemma decision_current_rank_bound:
  "db_ok d \<Longrightarrow> map_of (decision_current d) k = Some c \<Longrightarrow> clock_ok now d \<Longrightarrow> cc_rank c < (now, decision_seq d)"
  by (auto simp: db_ok_def clock_ok_def cc_rank_def decision_current_of_def cl.latest_def dest!: cl.tracks_SomeD)

lemma AppendDecisions_current:
  assumes "db_ok d" and "clock_ok now d" and "distinct (map cl_key rows)" and "r \<in> set rows"
  shows "\<exists>n. map_of (decision_current (AppendDecisions now rows d)) (cl_key r) =
    Some (decision_current_of (r \<lparr>cl_id := n, cl_created := now\<rparr>))"
proof -
  obtain rows' where cur: "decision_current (AppendDecisions now rows d) = fold decision_log_to_current rows' (decision_current d)"
    and l: "list_all2 (\<lambda>r r'. \<exists>n \<ge> decision_seq d. r' = r \<lparr>cl_id := n, cl_created := now\<rparr>) rows rows'"
    using AppendDecisions_log by blast
  have key: "cl_key (r \<lparr>cl_id := n, cl_created := now\<rparr>) = cl_key r" for r n by (simp add: cl_key_def)
  have "map cl_key rows' = map cl_key rows"
    using l by (induction rule: list_all2_induct) (auto simp: key)
  then have d: "distinct (map cl_key rows')" using assms(3) by simp
  obtain i where "i < length rows" and "rows ! i = r" using assms(4) by (auto simp: in_set_conv_nth)
  then obtain n where n: "n \<ge> decision_seq d" and r': "r \<lparr>cl_id := n, cl_created := now\<rparr> \<in> set rows'"
    using l unfolding list_all2_conv_all_nth by (metis nth_mem)
  have "map_of (fold decision_log_to_current rows' (decision_current d)) (cl_key (r \<lparr>cl_id := n, cl_created := now\<rparr>))
      = Some (decision_current_of (r \<lparr>cl_id := n, cl_created := now\<rparr>))"
  proof (rule cl.fold_trigger_lookup[OF d r'])
    fix c assume "map_of (decision_current d) (cl_key (r \<lparr>cl_id := n, cl_created := now\<rparr>)) = Some c"
    then have "cc_rank c < (now, decision_seq d)" by (rule decision_current_rank_bound[OF assms(1) _ assms(2)])
    also have "\<dots> \<le> cl_rank (r \<lparr>cl_id := n, cl_created := now\<rparr>)" using n by (simp add: cl_rank_def)
    finally show "cc_rank c < cl_rank (r \<lparr>cl_id := n, cl_created := now\<rparr>)" .
  qed
  then show ?thesis using cur key by auto
qed

lemma AppendDecisions_current_other:
  assumes "k \<notin> cl_key ` set rows"
  shows "map_of (decision_current (AppendDecisions now rows d)) k = map_of (decision_current d) k"
proof -
  obtain rows' where cur: "decision_current (AppendDecisions now rows d) = fold decision_log_to_current rows' (decision_current d)"
    and l: "list_all2 (\<lambda>r r'. \<exists>n \<ge> decision_seq d. r' = r \<lparr>cl_id := n, cl_created := now\<rparr>) rows rows'"
    using AppendDecisions_log by blast
  have "cl_key ` set rows' = cl_key ` set rows"
    using l by (induction rule: list_all2_induct) (auto simp: cl_key_def)
  then show ?thesis using assms cur by (simp add: cl.fold_trigger_other)
qed

lemma AppendDecisions_deploys [simp]:
  "deploy_current (AppendDecisions now rows d) = deploy_current d" "deploy_log (AppendDecisions now rows d) = deploy_log d"
  "deploy_seq (AppendDecisions now rows d) = deploy_seq d"
  by (induction rows arbitrary: d) (simp_all add: AppendDecisions_def append_decision_row_def Let_def)

end
