(* ===== verification/Assignment.thy ===== *)
theory Assignment
  imports Database
begin

text \<open>
  Which assignment of a feature an environment gets: \<open>IsMoreSpecific\<close> and
  \<open>mostSpecificPerFeature\<close> of \<open>internal/featureassignment/queries.go\<close>, and the reconciler's own copy
  of the latter with its label matching (\<open>internal/reconciler/compute.go\<close>, \<open>model.go\<close>).

  An assignment with more target labels is more specific; among equally specific ones the latest
  wins, and among those created at the same instant the first one listed. The table of winners is
  the same kind of table that the database's triggers maintain, with specificity as the rank, so the
  locale \<open>latest_table\<close> is interpreted on both copies.

  \<open>mostSpecificPerFeature\<close> ends by ranging over a map and sorting by creation time; the model ranges
  in the order of names, one of the orders that Go may choose for ties.
\<close>

record FeatureAssignment =
  as_ID :: uuid
  as_Feature :: Feature
  as_Description :: "string option"
  as_GHRef :: "string option"
  as_Created :: gotime
  as_Active :: bool
  as_TargetLabels :: Labels
  as_FeatureDisabled :: bool

record reconcileAssignment =
  ra_ID :: uuid
  ra_Feature :: Feature
  ra_TargetLabels :: Labels
  ra_Created :: gotime

section \<open>Specificity\<close>

definition IsMoreSpecific :: "Labels \<Rightarrow> Labels \<Rightarrow> gotime \<Rightarrow> gotime \<Rightarrow> bool" where
  "IsMoreSpecific candidateLabels existingLabels candidateCreated existingCreated =
     (if length candidateLabels > length existingLabels then True
      else length candidateLabels = length existingLabels \<and> candidateCreated > existingCreated)"

lemma IsMoreSpecific_iff:
  "IsMoreSpecific cl el cc ec \<longleftrightarrow> (length el, ec) < (length cl, cc)"
  by (auto simp: IsMoreSpecific_def)

section \<open>Picking winners\<close>

text \<open>A selection that keeps the highest ranked item per key and lists them by creation time.\<close>

locale winner_table = latest_table key rank id rank trigger
  for key :: "'r \<Rightarrow> 'k::linorder" and rank :: "'r \<Rightarrow> 'o::linorder" and trigger :: "'r \<Rightarrow> ('k, 'r) gomap \<Rightarrow> ('k, 'r) gomap" +
  fixes created :: "'r \<Rightarrow> gotime"
    and pick :: "'r list \<Rightarrow> 'r list"
  assumes pick_eq: "pick deps = sort_key created (map snd (fold trigger deps []))"
begin

lemma tracks_winners: "tracks (fold trigger deps []) deps"
  using tracks_inserts[OF tracks_empty, of deps] by simp

lemma winners_ok: "gm_ok (fold trigger deps [])"
  using tracks_winners by (simp add: tracks_def)

lemma winners_key: "map_of (fold trigger deps []) k = Some w \<Longrightarrow> latest deps k w \<and> key w = k"
proof -
  assume "map_of (fold trigger deps []) k = Some w"
  then obtain r where "latest deps k r" and "w = id r" using tracks_SomeD[OF tracks_winners] by blast
  then show ?thesis by (simp add: latest_def)
qed

lemma pick_iff: "w \<in> set (pick deps) \<longleftrightarrow> map_of (fold trigger deps []) (key w) = Some w"
proof -
  have "w \<in> set (pick deps) \<longleftrightarrow> (\<exists>k. map_of (fold trigger deps []) k = Some w)"
    using gm_vals_iff[OF winners_ok] by (simp add: pick_eq)
  then show ?thesis using winners_key by blast
qed

lemma pick_latest: "w \<in> set (pick deps) \<Longrightarrow> latest deps (key w) w"
  unfolding pick_iff by (drule winners_key) simp

lemma pick_subset: "set (pick deps) \<subseteq> set deps"
  using pick_latest by (auto simp: latest_def)

lemma pick_max: "w \<in> set (pick deps) \<Longrightarrow> d \<in> set deps \<Longrightarrow> key d = key w \<Longrightarrow> rank d \<le> rank w"
  using pick_latest by (auto simp: latest_def)

lemma pick_exists: "d \<in> set deps \<Longrightarrow> \<exists>w \<in> set (pick deps). key w = key d"
proof -
  assume "d \<in> set deps"
  then have "map_of (fold trigger deps []) (key d) \<noteq> None"
    using tracks_winners by (auto simp: tracks_def)
  then obtain w where w: "map_of (fold trigger deps []) (key d) = Some w" by blast
  then have "key w = key d" using winners_key by blast
  then show ?thesis using w by (auto simp: pick_iff)
qed

lemma pick_keys: "key ` set (pick deps) = key ` set deps"
proof (intro equalityI)
  show "key ` set (pick deps) \<subseteq> key ` set deps" using pick_subset by (rule image_mono)
  show "key ` set deps \<subseteq> key ` set (pick deps)"
  proof
    fix k assume "k \<in> key ` set deps"
    then obtain d where d: "d \<in> set deps" "k = key d" by blast
    obtain w where "w \<in> set (pick deps)" and "key w = key d" using pick_exists[OF d(1)] by blast
    then show "k \<in> key ` set (pick deps)" using d(2) by (metis imageI)
  qed
qed

lemma pick_distinct: "distinct (map key (pick deps))"
proof -
  let ?m = "fold trigger deps []"
  have "key (snd e) = fst e" if e: "e \<in> set ?m" for e
    using winners_key[of deps "fst e" "snd e"] gm_ok_distinct[OF winners_ok] e by (simp add: map_of_is_SomeI)
  then have "map key (map snd ?m) = map fst ?m" by simp
  then have "distinct (map key (map snd ?m))" using gm_ok_distinct[OF winners_ok] by metis
  moreover have "mset (map key (pick deps)) = mset (map key (map snd ?m))"
    by (simp add: pick_eq multiset.map_comp)
  ultimately show ?thesis by (metis mset_eq_imp_distinct_iff)
qed

lemma fold_trigger_key:
  "map_of m k = map_of m' k \<Longrightarrow> map_of (fold trigger (filter (\<lambda>d. key d = k) deps) m) k = map_of (fold trigger deps m') k"
proof (induction deps arbitrary: m m')
  case (Cons a deps)
  then have "key a \<noteq> k \<Longrightarrow> map_of m k = map_of (trigger a m') k" by (simp add: trigger_lookup)
  moreover from Cons.prems have "key a = k \<Longrightarrow> map_of (trigger a m) k = map_of (trigger a m') k" by (simp add: trigger_lookup)
  ultimately show ?case using Cons.IH by auto
qed simp

lemma pick_filter: "w \<in> set (pick (filter (\<lambda>d. key d = k) deps)) \<longleftrightarrow> w \<in> set (pick deps) \<and> key w = k"
proof -
  have "w \<in> set (pick (filter (\<lambda>d. key d = k) deps)) \<Longrightarrow> key w = k" using pick_subset by fastforce
  moreover have "key w = k \<Longrightarrow> w \<in> set (pick (filter (\<lambda>d. key d = k) deps)) \<longleftrightarrow> w \<in> set (pick deps)"
    using fold_trigger_key [of "[]" k "[]" deps] by (simp add: pick_iff)
  ultimately show ?thesis by blast
qed

lemma pick_unique: "w \<in> set (pick deps) \<Longrightarrow> w' \<in> set (pick deps) \<Longrightarrow> key w = key w' \<Longrightarrow> w = w'"
  by (simp add: pick_iff)

lemma pick_sorted: "sorted (map created (pick deps))"
  by (simp add: pick_eq)

end

section \<open>Winners, as the reconciler picks them\<close>

definition ra_key :: "reconcileAssignment \<Rightarrow> string" where
  "ra_key dep = f_Name (ra_Feature dep)"

definition ra_rank :: "reconcileAssignment \<Rightarrow> nat \<times> gotime" where
  "ra_rank dep = (length (ra_TargetLabels dep), ra_Created dep)"

definition ra_winner :: "reconcileAssignment \<Rightarrow> (string, reconcileAssignment) gomap \<Rightarrow> (string, reconcileAssignment) gomap" where
  "ra_winner dep winners =
     (case map_of winners (ra_key dep) of
        None \<Rightarrow> gm_put (ra_key dep) dep winners
      | Some existing \<Rightarrow>
          if IsMoreSpecific (ra_TargetLabels dep) (ra_TargetLabels existing) (ra_Created dep) (ra_Created existing)
          then gm_put (ra_key dep) dep winners else winners)"

definition mostSpecificPerFeature :: "reconcileAssignment list \<Rightarrow> reconcileAssignment list" where
  "mostSpecificPerFeature deps = sort_key ra_Created (map snd (fold ra_winner deps []))"

interpretation ra: winner_table ra_key ra_rank ra_winner ra_Created mostSpecificPerFeature
  by unfold_locales
    (auto simp: mostSpecificPerFeature_def ra_winner_def ra_rank_def IsMoreSpecific_iff split: option.splits)

section \<open>Winners, as the feature assignment package picks them\<close>

definition as_key :: "FeatureAssignment \<Rightarrow> string" where
  "as_key dep = f_Name (as_Feature dep)"

definition as_rank :: "FeatureAssignment \<Rightarrow> nat \<times> gotime" where
  "as_rank dep = (length (as_TargetLabels dep), as_Created dep)"

definition as_winner :: "FeatureAssignment \<Rightarrow> (string, FeatureAssignment) gomap \<Rightarrow> (string, FeatureAssignment) gomap" where
  "as_winner dep assignments =
     (case map_of assignments (as_key dep) of
        None \<Rightarrow> gm_put (as_key dep) dep assignments
      | Some existing \<Rightarrow>
          if IsMoreSpecific (as_TargetLabels dep) (as_TargetLabels existing) (as_Created dep) (as_Created existing)
          then gm_put (as_key dep) dep assignments else assignments)"

definition mostSpecificPerFeature_fa :: "FeatureAssignment list \<Rightarrow> FeatureAssignment list" where
  "mostSpecificPerFeature_fa deps = sort_key as_Created (map snd (fold as_winner deps []))"

interpretation fa: winner_table as_key as_rank as_winner as_Created mostSpecificPerFeature_fa
  by unfold_locales
    (auto simp: mostSpecificPerFeature_fa_def as_winner_def as_rank_def IsMoreSpecific_iff split: option.splits)

section \<open>What a winner is\<close>

text \<open>
  Choosing assignments: of the given assignments \<open>mostSpecificPerFeature\<close> returns exactly one
  per feature name, ordered by creation time. It is one of the given assignments, and no given
  assignment of the feature has more target labels, or as many and a later creation time.
\<close>

theorem mostSpecificPerFeature_correct:
  "set (mostSpecificPerFeature deps) \<subseteq> set deps
   \<and> ra_key ` set (mostSpecificPerFeature deps) = ra_key ` set deps
   \<and> distinct (map ra_key (mostSpecificPerFeature deps))
   \<and> sorted (map ra_Created (mostSpecificPerFeature deps))
   \<and> (\<nexists>w d. w \<in> set (mostSpecificPerFeature deps) \<and> d \<in> set deps \<and> ra_key d = ra_key w \<and>
        IsMoreSpecific (ra_TargetLabels d) (ra_TargetLabels w) (ra_Created d) (ra_Created w))"
proof -
  have "\<not> IsMoreSpecific (ra_TargetLabels d) (ra_TargetLabels w) (ra_Created d) (ra_Created w)"
    if "w \<in> set (mostSpecificPerFeature deps)" "d \<in> set deps" "ra_key d = ra_key w" for w d
    using ra.pick_max[OF that] unfolding IsMoreSpecific_iff ra_rank_def by auto
  then show ?thesis
    using ra.pick_subset ra.pick_keys ra.pick_distinct ra.pick_sorted by blast
qed

text \<open>The two copies of the selection agree.\<close>

definition ra_of_as :: "FeatureAssignment \<Rightarrow> reconcileAssignment" where
  "ra_of_as a = \<lparr>ra_ID = as_ID a, ra_Feature = as_Feature a, ra_TargetLabels = as_TargetLabels a, ra_Created = as_Created a\<rparr>"

lemma ra_of_as_simps [simp]:
  "ra_ID (ra_of_as a) = as_ID a" "ra_Feature (ra_of_as a) = as_Feature a"
  "ra_TargetLabels (ra_of_as a) = as_TargetLabels a" "ra_Created (ra_of_as a) = as_Created a"
  "ra_key (ra_of_as a) = as_key a"
  by (simp_all add: ra_of_as_def ra_key_def as_key_def)

definition map_vals :: "('a \<Rightarrow> 'b) \<Rightarrow> ('k, 'a) gomap \<Rightarrow> ('k, 'b) gomap" where
  "map_vals f m = map (\<lambda>(k, v). (k, f v)) m"

lemma map_vals_put: "map_vals f (gm_put k v m) = gm_put k (f v) (map_vals f m)"
  by (induction m) (auto simp: map_vals_def)

lemma map_of_map_vals: "map_of (map_vals f m) k = map_option f (map_of m k)"
  by (simp add: map_vals_def map_of_map)

lemma winners_map: "map_vals ra_of_as (fold as_winner deps m) = fold ra_winner (map ra_of_as deps) (map_vals ra_of_as m)"
proof (induction deps arbitrary: m)
  case (Cons d deps)
  have "map_vals ra_of_as (as_winner d m) = ra_winner (ra_of_as d) (map_vals ra_of_as m)"
    by (auto simp: as_winner_def ra_winner_def map_of_map_vals map_vals_put split: option.splits)
  then show ?case using Cons.IH by simp
qed simp

lemma winners_agree: "map ra_of_as (mostSpecificPerFeature_fa deps) = mostSpecificPerFeature (map ra_of_as deps)"
proof -
  let ?w = "fold as_winner deps []"
  have "map snd (fold ra_winner (map ra_of_as deps) []) = map snd (map_vals ra_of_as ?w)"
    using winners_map[of deps "[]"] by (simp add: map_vals_def)
  also have "\<dots> = map ra_of_as (map snd ?w)" by (simp add: map_vals_def case_prod_beta)
  finally show ?thesis
    by (simp only: mostSpecificPerFeature_fa_def mostSpecificPerFeature_def sort_key_map ra_of_as_simps)
qed

text \<open>
  The interface and the reconciler agree on the winner: the selection of the feature assignment
  package, which the pages and the status queries use, and the reconciler's copy of it choose the
  same assignments in the same order.
\<close>

theorem mostSpecificPerFeature_agree:
  "map ra_of_as (mostSpecificPerFeature_fa deps) = mostSpecificPerFeature (map ra_of_as deps)
   \<and> map as_ID (mostSpecificPerFeature_fa deps) = map ra_ID (mostSpecificPerFeature (map ra_of_as deps))
   \<and> set (mostSpecificPerFeature_fa deps) \<subseteq> set deps"
proof -
  have "map as_ID (mostSpecificPerFeature_fa deps) = map ra_ID (map ra_of_as (mostSpecificPerFeature_fa deps))" by simp
  then show ?thesis using winners_agree [of deps] fa.pick_subset by metis
qed

end
