(* ===== verification/Compute.thy ===== *)
theory Compute
  imports Render Assignment
begin

text \<open>
  The reconciler's decisions, \<open>internal/reconciler/compute.go\<close> and \<open>model.go\<close>: from a snapshot of
  the database, one decision for every reconciled environment and every feature assigned to it.

  A panic of a worker goroutine ends the process; the model returns it as \<open>Inl\<close>. The decisions of
  the worker pool arrive in an order that the scheduler chooses; \<open>computeActions\<close> lists them in
  dispatch order, and the theorems on it speak about each decision or about the set of them.
\<close>

section \<open>Data\<close>

type_synonym Action = string

definition ActionDeploy :: Action where "ActionDeploy = ''deploy''"
definition ActionSkipUnchanged :: Action where "ActionSkipUnchanged = ''unchanged''"
definition ActionSkipInProgress :: Action where "ActionSkipInProgress = ''in-progress''"
definition ActionSkipDisabled :: Action where "ActionSkipDisabled = ''disabled''"
definition ActionSkipUnhealthy :: Action where "ActionSkipUnhealthy = ''unhealthy''"
definition ActionFailMissingDeps :: Action where "ActionFailMissingDeps = ''missing-deps''"
definition ActionFailMissingConfig :: Action where "ActionFailMissingConfig = ''missing-config''"
definition ActionFailRender :: Action where "ActionFailRender = ''render-error''"

lemmas Action_defs = ActionDeploy_def ActionSkipUnchanged_def ActionSkipInProgress_def
  ActionSkipDisabled_def ActionSkipUnhealthy_def ActionFailMissingDeps_def
  ActionFailMissingConfig_def ActionFailRender_def

lemma Action_distinct [simp]:
  "distinct [ActionDeploy, ActionSkipUnchanged, ActionSkipInProgress, ActionSkipDisabled,
     ActionSkipUnhealthy, ActionFailMissingDeps, ActionFailMissingConfig, ActionFailRender]"
  by (simp add: Action_defs)

lemma Action_neq [simp]:
  "ActionSkipUnchanged \<noteq> ActionDeploy" "ActionSkipInProgress \<noteq> ActionDeploy"
  "ActionSkipDisabled \<noteq> ActionDeploy" "ActionSkipUnhealthy \<noteq> ActionDeploy"
  "ActionFailMissingDeps \<noteq> ActionDeploy" "ActionFailMissingConfig \<noteq> ActionDeploy"
  "ActionFailRender \<noteq> ActionDeploy" "ActionSkipInProgress \<noteq> ActionSkipUnchanged"
  "ActionFailMissingDeps \<noteq> ActionSkipUnchanged" "ActionFailMissingConfig \<noteq> ActionSkipUnchanged"
  "ActionFailRender \<noteq> ActionSkipUnchanged" "ActionDeploy \<noteq> ActionSkipUnchanged"
  by (simp_all add: Action_defs)

definition Action_IsFailure :: "Action \<Rightarrow> bool" where
  "Action_IsFailure a \<longleftrightarrow> a = ActionFailMissingDeps \<or> a = ActionFailMissingConfig \<or> a = ActionFailRender"

record environment =
  en_ID :: uuid
  en_Name :: string
  en_Kind :: EnvironmentKind
  en_Labels :: Labels
  en_TenantID :: uuid
  en_TenantName :: string

record latestInstruction =
  li_Hash :: string
  li_Status :: string

record DeployDecision =
  dd_EnvironmentID :: uuid
  dd_EnvironmentName :: string
  dd_TenantName :: string
  dd_FeatureAssignmentID :: uuid
  dd_Feature :: Feature
  dd_Values :: gmap
  dd_Hash :: string
  dd_Action :: Action
  dd_Details :: string
  dd_Message :: string

record snapshot =
  s_environments :: "environment list"
  s_assignments :: "reconcileAssignment list"
  s_healthByEnv :: "(uuid, gotime) gomap"
  s_disabledByEnv :: "(uuid, (string, bool) gomap) gomap"
  s_globalConfig :: "(string, MergedConfigRow list) gomap"
  s_envConfig :: "(uuid, (string, MergedConfigRow list) gomap) gomap"
  s_envValues :: "(uuid, ComputedValues) gomap"
  s_envKinds :: "(uuid, EnvironmentKind) gomap"
  s_envTenantNames :: "(uuid, string) gomap"
  s_latestInstr :: "(uuid, (string, latestInstruction) gomap) gomap"
  s_deployedFeats :: "(uuid, (string, bool) gomap) gomap"

text \<open>Reading \<open>m[a][b]\<close> of a map of maps of booleans: the zero value is \<open>False\<close>.\<close>

definition flag2 :: "(uuid, (string, bool) gomap) gomap \<Rightarrow> uuid \<Rightarrow> string \<Rightarrow> bool" where
  "flag2 m a b = (case gm_get2 m a b of Some v \<Rightarrow> v | None \<Rightarrow> False)"

section \<open>Matching labels\<close>

text \<open>A missing label reads as the empty string.\<close>

definition labelsContain :: "Labels \<Rightarrow> Labels \<Rightarrow> bool" where
  "labelsContain envLabels target =
     list_all (\<lambda>(k, v). (case map_of envLabels k of Some w \<Rightarrow> w | None \<Rightarrow> []) = v) target"

definition matchAssignments :: "reconcileAssignment list \<Rightarrow> environment \<Rightarrow> reconcileAssignment list" where
  "matchAssignments all env = filter (\<lambda>dep. labelsContain (en_Labels env) (ra_TargetLabels dep)) all"

text \<open>The superset test of the database, \<open>labels @> target\<close>.\<close>

definition labels_superset :: "Labels \<Rightarrow> Labels \<Rightarrow> bool" where
  "labels_superset labels target = list_all (\<lambda>(k, v). map_of labels k = Some v) target"

lemma labelsContain_superset:
  "list_all (\<lambda>(k, v). v \<noteq> []) target \<Longrightarrow> labelsContain labels target = labels_superset labels target"
  unfolding labelsContain_def labels_superset_def
  by (induction target) (auto split: option.splits)

section \<open>Dependencies\<close>

fun check_deps :: "Dependency list \<Rightarrow> (string \<Rightarrow> bool) \<Rightarrow> bool \<times> string list" where
  "check_deps [] deployed = (True, [])"
| "check_deps (dep # deps) deployed =
     (let missing = filter (\<lambda>name. \<not> deployed name) (AllOf dep)
      in if length (AllOf dep) > 0 \<and> length missing > 0 then (False, missing)
         else if length (AnyOf dep) > 0 \<and> \<not> list_ex deployed (AnyOf dep) then (False, AnyOf dep)
         else check_deps deps deployed)"

definition checkDependencies ::
  "'a Feature_scheme \<Rightarrow> uuid \<Rightarrow> (uuid, (string, bool) gomap) gomap \<Rightarrow> bool \<times> string list" where
  "checkDependencies f envID deployedFeats =
     (if length (f_Dependencies f) = 0 then (True, [])
      else check_deps (f_Dependencies f) (flag2 deployedFeats envID))"

lemma check_deps_ok_iff:
  "fst (check_deps deps deployed) \<longleftrightarrow> (\<forall>d \<in> set deps. dependency_satisfied d {n. deployed n})"
proof (induction deps)
  case (Cons d deps)
  have "dependency_satisfied d {n. deployed n} \<longleftrightarrow>
      filter (\<lambda>name. \<not> deployed name) (AllOf d) = [] \<and> (AnyOf d = [] \<or> list_ex deployed (AnyOf d))"
    by (auto simp: dependency_satisfied_def filter_empty_conv list_ex_iff)
  then show ?case using Cons.IH by (cases "AllOf d = []") (auto simp: Let_def)
qed simp

lemma checkDependencies_ok_iff:
  "fst (checkDependencies f envID deployedFeats) \<longleftrightarrow>
     (\<forall>d \<in> set (f_Dependencies f). dependency_satisfied d {n. flag2 deployedFeats envID n})"
  by (auto simp: checkDependencies_def check_deps_ok_iff)

lemma dependency_satisfied_restrict:
  "set (AllOf d) \<union> set (AnyOf d) \<subseteq> names \<Longrightarrow> dependency_satisfied d (features \<inter> names) = dependency_satisfied d features"
  unfolding dependency_satisfied_def by (intro conj_cong disj_cong refl arg_cong[where f = Not]) blast+

lemma check_deps_missing: "n \<in> set (snd (check_deps deps deployed)) \<Longrightarrow> \<not> deployed n"
  by (induction deps) (auto simp: Let_def list_ex_iff split: if_splits)

text \<open>
  Dependencies: the reconciler's check passes exactly when \<open>FindMissing\<close>, which the pages use,
  finds nothing missing among the features deployed in the environment; when it fails, the names it
  reports are not deployed.
\<close>

theorem checkDependencies_FindMissing:
  assumes "\<forall>d \<in> set (f_Dependencies f). set (AllOf d) \<union> set (AnyOf d) \<subseteq> set names"
  shows "(fst (checkDependencies f envID deployedFeats) \<longleftrightarrow>
      FindMissing (f_Dependencies f) (filter (flag2 deployedFeats envID) names) = [])
    \<and> \<not> list_ex (flag2 deployedFeats envID) (snd (checkDependencies f envID deployedFeats))"
proof
  have "set (filter (flag2 deployedFeats envID) names) = {n. flag2 deployedFeats envID n} \<inter> set names" by auto
  then show "fst (checkDependencies f envID deployedFeats) \<longleftrightarrow>
     FindMissing (f_Dependencies f) (filter (flag2 deployedFeats envID) names) = []"
    unfolding checkDependencies_ok_iff FindMissing_Nil_iff
    using assms by (simp add: dependency_satisfied_restrict cong: ball_cong)
  show "\<not> list_ex (flag2 deployedFeats envID) (snd (checkDependencies f envID deployedFeats))"
    using check_deps_missing by (auto simp: checkDependencies_def list_ex_iff)
qed

definition example_dependency :: Dependency where
  "example_dependency = \<lparr>AnyOf = [], AllOf = [''prometheus'']\<rparr>"

theorem checkDependencies_FindMissing_witness:
  "\<not> fst (checkDependencies (example_feature \<lparr>f_Dependencies := [example_dependency]\<rparr>) 1 [(1, [(''loki'', True)])])"
  using checkDependencies_FindMissing[of "example_feature \<lparr>f_Dependencies := [example_dependency]\<rparr>"
      "[''prometheus'', ''loki'']" 1 "[(1, [(''loki'', True)])]"]
  by (simp add: example_dependency_def FindMissing_def Dependency_FindMissing_def flag2_def gm_get2_def)

section \<open>One decision\<close>

definition configIncludeKeys :: "'a Feature_scheme \<Rightarrow> EnvironmentKind \<Rightarrow> string list" where
  "configIncludeKeys f envKind =
     map fst (filter (\<lambda>(key, val). v_Config val \<noteq> None \<and> \<not> List.member (v_IgnoreKind val) envKind) (f_Values f))"

definition envConfigForFeature ::
  "(uuid, (string, MergedConfigRow list) gomap) gomap \<Rightarrow> uuid \<Rightarrow> string \<Rightarrow> MergedConfigRow list" where
  "envConfigForFeature envConfig envID feature =
     (case map_of envConfig envID of Some m \<Rightarrow> gm_list m feature | None \<Rightarrow> [])"

definition copyStringAnyMap :: "gmap \<Rightarrow> gmap" where
  "copyStringAnyMap m = fold (\<lambda>(k, v) c. gm_put k v c) m []"

definition generateHash :: "externals \<Rightarrow> gmap \<Rightarrow> 'a Feature_scheme \<Rightarrow> err + string" where
  "generateHash x values feature =
     bindE (x_marshal x (GMap values)) (\<lambda>b. Inr (x_sha256 x (b @ f_Version feature @ f_Chart feature)))"

fun is_panic :: "err \<Rightarrow> bool" where
  "is_panic (Panic m) = True"
| "is_panic (Wrap m e) = is_panic e"
| "is_panic (WrapBefore e m) = is_panic e"
| "is_panic e = False"

definition base_decision :: "environment \<Rightarrow> reconcileAssignment \<Rightarrow> DeployDecision" where
  "base_decision env dep = \<lparr>dd_EnvironmentID = en_ID env, dd_EnvironmentName = en_Name env,
     dd_TenantName = en_TenantName env, dd_FeatureAssignmentID = ra_ID dep, dd_Feature = ra_Feature dep,
     dd_Values = [], dd_Hash = [], dd_Action = [], dd_Details = [], dd_Message = []\<rparr>"

definition decide :: "Action \<Rightarrow> string \<Rightarrow> DeployDecision \<Rightarrow> DeployDecision" where
  "decide action msg base = base \<lparr>dd_Action := action, dd_Message := msg\<rparr>"

text \<open>A failed step ends the decision, unless it panicked.\<close>

definition fail_with :: "err \<Rightarrow> DeployDecision \<Rightarrow> err + DeployDecision" where
  "fail_with e d = (if is_panic e then Inl e else Inr d)"

definition merged_config :: "snapshot \<Rightarrow> environment \<Rightarrow> Feature \<Rightarrow> MergedConfigRow list" where
  "merged_config snap env f =
     (let includeKeys = configIncludeKeys f (en_Kind env);
          globalRows = gm_list (s_globalConfig snap) (f_Name f);
          envRows = envConfigForFeature (s_envConfig snap) (en_ID env) (f_Name f)
      in mergeConfigRows globalRows envRows includeKeys)"

definition render_data :: "environment \<Rightarrow> MergedConfigRow list \<Rightarrow> gmap \<Rightarrow> ComputedValues \<Rightarrow> HelmRenderData" where
  "render_data env merged configMap mv =
     \<lparr>d_MV = mv \<lparr>cv_Env := copyStringAnyMap (cv_Env mv),
        cv_Management := map_option copyStringAnyMap (cv_Management mv),
        cv_Envs := map copyStringAnyMap (cv_Envs mv)\<rparr>,
      d_EnvKind = en_Kind env, d_ConfigVals = merged, d_ConfigMap = configMap, d_SecretEnvKeys = []\<rparr>"

definition computeAction ::
  "externals \<Rightarrow> snapshot \<Rightarrow> environment \<Rightarrow> reconcileAssignment \<Rightarrow> err + DeployDecision" where
  "computeAction x snap env dep =
     (let base = base_decision env dep;
          f = ra_Feature dep
      in case checkDependencies f (en_ID env) (s_deployedFeats snap) of (ok, missing) \<Rightarrow>
      if \<not> ok then Inr (decide ActionFailMissingDeps (''missing dependencies: '' @ strings_Join missing '', '') base)
      else
      let merged = merged_config snap env f
      in case MakeHelmConfigMap merged of
        Inl e \<Rightarrow> fail_with e (decide ActionFailRender (''config map error: '' @ Error e) base)
      | Inr configMap \<Rightarrow>
      (case map_of (s_envValues snap) (en_ID env) of
        None \<Rightarrow> Inr (decide ActionFailRender ''no environment values'' base)
      | Some mv \<Rightarrow>
      case RenderHelmValues x (render_data env merged configMap mv) f True of
        Inl e \<Rightarrow> (case missing_fields_of e of
            Some names \<Rightarrow> Inr (decide ActionFailMissingConfig
              (''missing required chart config: '' @ strings_Join names '', '') base)
          | None \<Rightarrow> fail_with e (decide ActionFailRender (''render error: '' @ Error e) base))
      | Inr values \<Rightarrow>
      (case generateHash x values f of
        Inl e \<Rightarrow> fail_with e (decide ActionFailRender (''hash error: '' @ Error e) base)
      | Inr hash \<Rightarrow>
      let base' = base \<lparr>dd_Values := values, dd_Hash := hash\<rparr>
      in case gm_get2 (s_latestInstr snap) (en_ID env) (f_Name f) of
        Some instr \<Rightarrow>
          if IsInProgress (li_Status instr)
          then Inr (decide ActionSkipInProgress ''deployment is already in progress'' base')
          else if li_Hash instr = hash then Inr (decide ActionSkipUnchanged ''in sync'' base')
          else Inr (decide ActionDeploy ''deployment instruction created'' base')
      | None \<Rightarrow> Inr (decide ActionDeploy ''deployment instruction created'' base'))))"

section \<open>All decisions\<close>

definition healthy_env :: "gotime \<Rightarrow> snapshot \<Rightarrow> uuid \<Rightarrow> bool" where
  "healthy_env now snap envID =
     (case map_of (s_healthByEnv snap) envID of Some reportedAt \<Rightarrow> now - reportedAt \<le> 3 * minute | None \<Rightarrow> False)"

definition dispatchDecision ::
  "externals \<Rightarrow> gotime \<Rightarrow> snapshot \<Rightarrow> environment \<times> reconcileAssignment \<Rightarrow> err + DeployDecision" where
  "dispatchDecision x now snap ed =
     (case ed of (env, dep) \<Rightarrow>
        if \<not> healthy_env now snap (en_ID env)
        then Inr (decide ActionSkipUnhealthy ''naisd is unhealthy'' (base_decision env dep))
        else if flag2 (s_disabledByEnv snap) (en_ID env) (f_Name (ra_Feature dep))
        then Inr (decide ActionSkipDisabled ''feature reconcile disabled'' (base_decision env dep))
        else computeAction x snap env dep)"

definition env_winners :: "snapshot \<Rightarrow> environment \<Rightarrow> reconcileAssignment list" where
  "env_winners snap env = mostSpecificPerFeature (matchAssignments (s_assignments snap) env)"

definition work_items :: "snapshot \<Rightarrow> (environment \<times> reconcileAssignment) list" where
  "work_items snap = concat (map (\<lambda>env. map (Pair env) (env_winners snap env)) (s_environments snap))"

definition computeActions :: "externals \<Rightarrow> gotime \<Rightarrow> snapshot \<Rightarrow> err + DeployDecision list" where
  "computeActions x now snap = mapE (dispatchDecision x now snap) (work_items snap)"

section \<open>What a decision carries\<close>

lemma decide_simps [simp]:
  "dd_Action (decide a msg b) = a" "dd_Message (decide a msg b) = msg"
  "dd_EnvironmentID (decide a msg b) = dd_EnvironmentID b" "dd_EnvironmentName (decide a msg b) = dd_EnvironmentName b"
  "dd_TenantName (decide a msg b) = dd_TenantName b" "dd_FeatureAssignmentID (decide a msg b) = dd_FeatureAssignmentID b"
  "dd_Feature (decide a msg b) = dd_Feature b" "dd_Values (decide a msg b) = dd_Values b"
  "dd_Hash (decide a msg b) = dd_Hash b"
  by (simp_all add: decide_def)

lemma base_decision_simps [simp]:
  "dd_EnvironmentID (base_decision env dep) = en_ID env" "dd_EnvironmentName (base_decision env dep) = en_Name env"
  "dd_TenantName (base_decision env dep) = en_TenantName env" "dd_FeatureAssignmentID (base_decision env dep) = ra_ID dep"
  "dd_Feature (base_decision env dep) = ra_Feature dep"
  by (simp_all add: base_decision_def)

lemma fail_with_Inr [simp]: "fail_with e d = Inr d' \<longleftrightarrow> \<not> is_panic e \<and> d' = d"
  by (auto simp: fail_with_def)

definition decision_for :: "environment \<Rightarrow> reconcileAssignment \<Rightarrow> DeployDecision \<Rightarrow> bool" where
  "decision_for env dep d \<longleftrightarrow> dd_EnvironmentID d = en_ID env \<and> dd_EnvironmentName d = en_Name env \<and>
     dd_TenantName d = en_TenantName env \<and> dd_FeatureAssignmentID d = ra_ID dep \<and> dd_Feature d = ra_Feature dep"

lemma decision_for_decide [simp]: "decision_for env dep (decide a msg b) = decision_for env dep b"
  by (simp add: decision_for_def)

lemma decision_for_base [simp]:
  "decision_for env dep (base_decision env dep)"
  "decision_for env dep (b \<lparr>dd_Values := v, dd_Hash := h\<rparr>) = decision_for env dep b"
  by (simp_all add: decision_for_def)

lemma computeAction_for: "computeAction x snap env dep = Inr d \<Longrightarrow> decision_for env dep d"
  by (auto simp: computeAction_def Let_def split: prod.splits if_splits sum.splits option.splits)

lemma dispatchDecision_for: "dispatchDecision x now snap (env, dep) = Inr d \<Longrightarrow> decision_for env dep d"
  by (auto simp: dispatchDecision_def computeAction_for split: if_splits)

section \<open>The desired state of a feature in an environment\<close>

text \<open>The values and the hash that the environment should run, when its configuration renders.\<close>

definition desired :: "externals \<Rightarrow> snapshot \<Rightarrow> environment \<Rightarrow> reconcileAssignment \<Rightarrow> (gmap \<times> string) option" where
  "desired x snap env dep =
     (let merged = merged_config snap env (ra_Feature dep)
      in case MakeHelmConfigMap merged of
           Inl _ \<Rightarrow> None
         | Inr configMap \<Rightarrow> (case map_of (s_envValues snap) (en_ID env) of
             None \<Rightarrow> None
           | Some mv \<Rightarrow> (case RenderHelmValues x (render_data env merged configMap mv) (ra_Feature dep) True of
               Inl _ \<Rightarrow> None
             | Inr values \<Rightarrow> (case generateHash x values (ra_Feature dep) of
                 Inl _ \<Rightarrow> None
               | Inr hash \<Rightarrow> Some (values, hash)))))"

definition latest_instr :: "snapshot \<Rightarrow> environment \<Rightarrow> reconcileAssignment \<Rightarrow> latestInstruction option" where
  "latest_instr snap env dep = gm_get2 (s_latestInstr snap) (en_ID env) (f_Name (ra_Feature dep))"

definition deps_satisfied :: "snapshot \<Rightarrow> environment \<Rightarrow> reconcileAssignment \<Rightarrow> bool" where
  "deps_satisfied snap env dep \<longleftrightarrow> (\<forall>d \<in> set (f_Dependencies (ra_Feature dep)).
     dependency_satisfied d {n. flag2 (s_deployedFeats snap) (en_ID env) n})"

lemma desired_SomeE:
  assumes "desired x snap env dep = Some (vals, hash)"
  obtains configMap mv where "MakeHelmConfigMap (merged_config snap env (ra_Feature dep)) = Inr configMap"
    and "map_of (s_envValues snap) (en_ID env) = Some mv"
    and "RenderHelmValues x (render_data env (merged_config snap env (ra_Feature dep)) configMap mv) (ra_Feature dep) True = Inr vals"
    and "generateHash x vals (ra_Feature dep) = Inr hash"
  using assms by (auto simp: desired_def Let_def split: sum.splits option.splits)

text \<open>Steady operations want the same state.\<close>

lemma generateHash_libraries: "same_libraries x x' \<Longrightarrow> generateHash x' values f = generateHash x values f"
  by (simp add: generateHash_def same_libraries_fields [of x x'])

lemma desired_steady:
  assumes "same_libraries x x'" and "steady x x' (en_Kind env) (ra_Feature dep)"
  shows "desired x' snap env dep = desired x snap env dep"
proof (cases "MakeHelmConfigMap (merged_config snap env (ra_Feature dep))")
  case (Inr configMap)
  show ?thesis
  proof (cases "map_of (s_envValues snap) (en_ID env)")
    case (Some mv)
    let ?data = "render_data env (merged_config snap env (ra_Feature dep)) configMap mv"
    have data: "d_EnvKind ?data = en_Kind env" "d_ConfigMap ?data = configMap" by (simp_all add: render_data_def)
    have iff: "RenderHelmValues x' ?data (ra_Feature dep) True = Inr m \<longleftrightarrow> RenderHelmValues x ?data (ra_Feature dep) True = Inr m" for m
      by (rule RenderHelmValues_steady [OF assms(1)]) (use assms(2) MakeHelmConfigMap_ok [OF Inr] in \<open>simp_all add: data del: gval_ok.simps\<close>)
    show ?thesis
    proof (cases "RenderHelmValues x ?data (ra_Feature dep) True")
      case (Inl e)
      then obtain e' where "RenderHelmValues x' ?data (ra_Feature dep) True = Inl e'"
        using iff by (cases "RenderHelmValues x' ?data (ra_Feature dep) True") auto
      then show ?thesis using Inl by (simp add: desired_def Inr Some)
    next
      case (Inr m)
      then have "RenderHelmValues x' ?data (ra_Feature dep) True = Inr m" using iff by simp
      then show ?thesis
        using Inr \<open>MakeHelmConfigMap _ = Inr configMap\<close> Some by (simp add: desired_def generateHash_libraries [OF assms(1)])
    qed
  qed (simp add: desired_def Inr)
qed (simp add: desired_def)

lemma computeAction_failed:
  assumes "computeAction x snap env dep = Inr d" and "\<not> deps_satisfied snap env dep \<or> desired x snap env dep = None"
  shows "Action_IsFailure (dd_Action d)"
proof -
  have "fst (checkDependencies (ra_Feature dep) (en_ID env) (s_deployedFeats snap)) \<longleftrightarrow> deps_satisfied snap env dep"
    by (simp add: checkDependencies_ok_iff deps_satisfied_def)
  then show ?thesis
    using assms
    by (auto simp: computeAction_def desired_def Action_IsFailure_def Let_def
        split: prod.splits if_splits sum.splits option.splits)
qed

lemma computeAction_renders:
  assumes "deps_satisfied snap env dep" and "desired x snap env dep = Some (values, hash)"
  shows "computeAction x snap env dep =
    (let base = (base_decision env dep) \<lparr>dd_Values := values, dd_Hash := hash\<rparr>
     in case latest_instr snap env dep of
          Some instr \<Rightarrow>
            if IsInProgress (li_Status instr) then Inr (decide ActionSkipInProgress ''deployment is already in progress'' base)
            else if li_Hash instr = hash then Inr (decide ActionSkipUnchanged ''in sync'' base)
            else Inr (decide ActionDeploy ''deployment instruction created'' base)
        | None \<Rightarrow> Inr (decide ActionDeploy ''deployment instruction created'' base))"
proof -
  obtain missing where ok: "checkDependencies (ra_Feature dep) (en_ID env) (s_deployedFeats snap) = (True, missing)"
    using assms(1) checkDependencies_ok_iff[of "ra_Feature dep" "en_ID env" "s_deployedFeats snap"]
    by (cases "checkDependencies (ra_Feature dep) (en_ID env) (s_deployedFeats snap)") (simp add: deps_satisfied_def)
  from assms(2) show ?thesis
    by (rule desired_SomeE) (simp add: computeAction_def ok latest_instr_def Let_def)
qed

lemma computeAction_failed_iff:
  assumes "computeAction x snap env dep = Inr d"
  shows "Action_IsFailure (dd_Action d) \<longleftrightarrow> \<not> deps_satisfied snap env dep \<or> desired x snap env dep = None"
proof (cases "deps_satisfied snap env dep \<and> desired x snap env dep \<noteq> None")
  case True
  then obtain vals hash where deps: "deps_satisfied snap env dep" and des: "desired x snap env dep = Some (vals, hash)"
    by auto
  show ?thesis
    using assms unfolding computeAction_renders[OF deps des]
    by (auto simp: deps des Let_def Action_IsFailure_def Action_defs split: option.splits if_splits)
qed (use computeAction_failed[OF assms] in blast)

lemma computeAction_settled:
  assumes "computeAction x snap env dep = Inr d" and "\<not> Action_IsFailure (dd_Action d)"
  shows "deps_satisfied snap env dep \<and> desired x snap env dep = Some (dd_Values d, dd_Hash d) \<and>
    (dd_Action d = ActionDeploy \<longleftrightarrow> (case latest_instr snap env dep of None \<Rightarrow> True
       | Some i \<Rightarrow> \<not> IsInProgress (li_Status i) \<and> li_Hash i \<noteq> dd_Hash d)) \<and>
    (dd_Action d = ActionSkipUnchanged \<longleftrightarrow> (\<exists>i. latest_instr snap env dep = Some i \<and>
       \<not> IsInProgress (li_Status i) \<and> li_Hash i = dd_Hash d))"
proof -
  obtain vals hash where deps: "deps_satisfied snap env dep" and des: "desired x snap env dep = Some (vals, hash)"
    using assms computeAction_failed_iff by fastforce
  show ?thesis
    using assms(1) unfolding computeAction_renders[OF deps des]
    by (auto simp: deps des Let_def split: option.splits if_splits)
qed

text \<open>
  C2. The decision for one environment and assignment: it deploys exactly when the dependencies are
  satisfied, the desired values render, no deployment is in progress and the last deployed hash is
  another; it is unchanged exactly when that hash is the desired one; otherwise it waits for a
  deployment in progress or fails. A decision that is not a failure carries the desired values and
  hash.
\<close>

theorem computeAction_correct:
  assumes "computeAction x snap env dep = Inr d"
  shows "(dd_Action d = ActionDeploy \<longleftrightarrow> deps_satisfied snap env dep \<and>
      (\<exists>values hash. desired x snap env dep = Some (values, hash) \<and>
         (case latest_instr snap env dep of None \<Rightarrow> True
          | Some i \<Rightarrow> \<not> IsInProgress (li_Status i) \<and> li_Hash i \<noteq> hash)))
    \<and> (dd_Action d = ActionSkipUnchanged \<longleftrightarrow> deps_satisfied snap env dep \<and>
      (\<exists>values hash i. desired x snap env dep = Some (values, hash) \<and> latest_instr snap env dep = Some i \<and>
         \<not> IsInProgress (li_Status i) \<and> li_Hash i = hash))
    \<and> (Action_IsFailure (dd_Action d) \<longleftrightarrow> \<not> deps_satisfied snap env dep \<or> desired x snap env dep = None)
    \<and> (Action_IsFailure (dd_Action d) \<or> desired x snap env dep = Some (dd_Values d, dd_Hash d))"
proof (cases "Action_IsFailure (dd_Action d)")
  case True
  then have "dd_Action d \<noteq> ActionDeploy" and "dd_Action d \<noteq> ActionSkipUnchanged"
    by (auto simp: Action_IsFailure_def)
  then show ?thesis using True computeAction_failed_iff[OF assms] by auto
next
  case False
  then show ?thesis using computeAction_settled[OF assms False] computeAction_failed_iff[OF assms] by auto
qed

text \<open>A snapshot with one environment and one feature, as the database of a small installation has it.\<close>

definition example_env :: environment where
  "example_env = \<lparr>en_ID = 1, en_Name = ''prod'', en_Kind = EnvironmentKindTenant,
     en_Labels = [(''name'', ''prod''), (''tenant'', ''acme'')], en_TenantID = 9, en_TenantName = ''acme''\<rparr>"

definition example_assignment :: reconcileAssignment where
  "example_assignment = \<lparr>ra_ID = 2, ra_Feature = example_feature, ra_TargetLabels = [(''tenant'', ''acme'')], ra_Created = 100\<rparr>"

definition example_snapshot :: snapshot where
  "example_snapshot = \<lparr>s_environments = [example_env], s_assignments = [example_assignment],
     s_healthByEnv = [(1, 1000)], s_disabledByEnv = [],
     s_globalConfig = [(''loki'', [example_row ''a''])], s_envConfig = [], s_envValues = [(1, example_cv)],
     s_envKinds = [(1, EnvironmentKindTenant)], s_envTenantNames = [(1, ''acme'')],
     s_latestInstr = [], s_deployedFeats = []\<rparr>"

lemma example_merged: "merged_config example_snapshot example_env example_feature = [example_row ''a'']"
  by (simp add: merged_config_def example_snapshot_def example_env_def example_feature_def configIncludeKeys_def
      gm_list_def envConfigForFeature_def mergeConfigRows_def include_row_def required_value_def computed_value_def
      EnvironmentKindTenant_def EnvironmentKindManagement_def example_row_def)

lemma example_desired:
  "desired echo_externals example_snapshot example_env example_assignment = Some (example_values, ''1oci://charts/loki'')"
proof -
  have data: "render_data example_env [example_row ''a''] [(''a'', GRaw ''true'')] example_cv = example_data"
    by (simp add: render_data_def example_data_def example_env_def example_cv_def copyStringAnyMap_def)
  have cm: "MakeHelmConfigMap [example_row ''a''] = Inr [(''a'', GRaw ''true'')]" by (simp add: helm_eval)
  have feat: "ra_Feature example_assignment = example_feature" by (simp add: example_assignment_def)
  have mv: "map_of (s_envValues example_snapshot) (en_ID example_env) = Some example_cv"
    by (simp add: example_snapshot_def example_env_def)
  have hash: "generateHash echo_externals example_values example_feature = Inr ''1oci://charts/loki''"
    by (simp add: generateHash_def echo_externals_def example_feature_def)
  show ?thesis
    by (simp add: desired_def Let_def feat example_merged cm mv data example_renders hash)
qed

lemma example_deps: "deps_satisfied example_snapshot example_env example_assignment"
  by (simp add: deps_satisfied_def example_assignment_def example_feature_def)

lemma example_latest: "latest_instr example_snapshot example_env example_assignment = None"
  by (simp add: latest_instr_def example_snapshot_def gm_get2_def)

definition example_decision :: DeployDecision where
  "example_decision = decide ActionDeploy ''deployment instruction created''
     ((base_decision example_env example_assignment) \<lparr>dd_Values := example_values, dd_Hash := ''1oci://charts/loki''\<rparr>)"

lemma example_computeAction: "computeAction echo_externals example_snapshot example_env example_assignment = Inr example_decision"
  by (simp add: computeAction_renders[OF example_deps example_desired] example_latest example_decision_def)

theorem computeAction_correct_witness:
  "dd_Action example_decision = ActionDeploy \<and>
   desired echo_externals example_snapshot example_env example_assignment = Some (dd_Values example_decision, dd_Hash example_decision)"
  using computeAction_correct[OF example_computeAction] example_deps example_desired example_latest by auto

section \<open>The set of decisions\<close>

definition decision_key :: "DeployDecision \<Rightarrow> uuid \<times> string" where
  "decision_key d = (dd_EnvironmentID d, f_Name (dd_Feature d))"

lemma work_items_iff: "(env, dep) \<in> set (work_items snap) \<longleftrightarrow> env \<in> set (s_environments snap) \<and> dep \<in> set (env_winners snap env)"
  by (auto simp: work_items_def)

lemma computeActions_item:
  assumes "computeActions x now snap = Inr ds" and "d \<in> set ds"
  shows "\<exists>env dep. (env, dep) \<in> set (work_items snap) \<and> dispatchDecision x now snap (env, dep) = Inr d"
proof -
  have l: "list_all2 (\<lambda>ed d. dispatchDecision x now snap ed = Inr d) (work_items snap) ds"
    using assms(1) by (simp add: computeActions_def mapE_Inr_iff)
  obtain i where "i < length ds" and "d = ds ! i" using assms(2) by (auto simp: in_set_conv_nth)
  then have "dispatchDecision x now snap (work_items snap ! i) = Inr d" and "work_items snap ! i \<in> set (work_items snap)"
    using l by (auto simp: list_all2_conv_all_nth)
  then show ?thesis by (metis surj_pair)
qed

definition item_key :: "environment \<times> reconcileAssignment \<Rightarrow> uuid \<times> string" where
  "item_key ed = (en_ID (fst ed), f_Name (ra_Feature (snd ed)))"

lemma computeActions_keys:
  assumes "computeActions x now snap = Inr ds"
  shows "map decision_key ds = map item_key (work_items snap)"
proof (rule nth_equalityI)
  have l: "list_all2 (\<lambda>ed d. dispatchDecision x now snap ed = Inr d) (work_items snap) ds"
    using assms by (simp add: computeActions_def mapE_Inr_iff)
  then show len: "length (map decision_key ds) = length (map item_key (work_items snap))"
    by (simp add: list_all2_lengthD)
  fix i assume i: "i < length (map decision_key ds)"
  obtain env dep where ed: "work_items snap ! i = (env, dep)" by fastforce
  have "dispatchDecision x now snap (work_items snap ! i) = Inr (ds ! i)"
    using l i by (simp add: list_all2_conv_all_nth)
  then have "decision_for env dep (ds ! i)" unfolding ed by (rule dispatchDecision_for)
  then show "map decision_key ds ! i = map item_key (work_items snap) ! i"
    using i len ed by (simp add: decision_key_def item_key_def decision_for_def)
qed

lemma distinct_item_keys:
  assumes "distinct (map en_ID (s_environments snap))"
  shows "distinct (map item_key (work_items snap))"
proof -
  have one: "distinct (map item_key (map (Pair env) (env_winners snap env)))" for env
    using ra.pick_distinct[of "matchAssignments (s_assignments snap) env"]
    by (simp add: env_winners_def item_key_def[abs_def] comp_def distinct_map inj_on_def ra_key_def)
  have "distinct (map item_key (concat (map (\<lambda>env. map (Pair env) (env_winners snap env)) envs)))"
    if "distinct (map en_ID envs)" for envs
    using that
  proof (induction envs)
    case (Cons e envs)
    have "item_key ` set (map (Pair e) (env_winners snap e)) \<inter>
        item_key ` set (concat (map (\<lambda>env. map (Pair env) (env_winners snap env)) envs)) = {}"
      using Cons.prems by (auto simp: item_key_def)
    then show ?case using Cons one[of e] by (simp add: image_comp comp_def)
  qed simp
  then show ?thesis using assms by (simp add: work_items_def)
qed

text \<open>
  C3. One decision per environment and feature: a reconcile cycle decides, exactly once each, for the
  pairs of a reconciled environment and a feature that some assignment matching the environment's
  labels names.
\<close>

theorem computeActions_one_per_feature:
  assumes "computeActions x now snap = Inr ds" and "distinct (map en_ID (s_environments snap))"
  shows "distinct (map decision_key ds) \<and>
    set (map decision_key ds) = {(en_ID env, f_Name (ra_Feature a)) | env a.
      env \<in> set (s_environments snap) \<and> a \<in> set (s_assignments snap) \<and> labelsContain (en_Labels env) (ra_TargetLabels a)}"
proof
  show "distinct (map decision_key ds)"
    using computeActions_keys[OF assms(1)] distinct_item_keys[OF assms(2)] by simp
  have names: "ra_key ` set (env_winners snap env) =
      ra_key ` {a \<in> set (s_assignments snap). labelsContain (en_Labels env) (ra_TargetLabels a)}" for env
    by (simp add: env_winners_def ra.pick_keys matchAssignments_def)
  have "set (map decision_key ds) = (\<Union>env \<in> set (s_environments snap). Pair (en_ID env) ` ra_key ` set (env_winners snap env))"
    unfolding computeActions_keys[OF assms(1)] by (force simp: work_items_def item_key_def ra_key_def)
  then show "set (map decision_key ds) = {(en_ID env, f_Name (ra_Feature a)) | env a.
      env \<in> set (s_environments snap) \<and> a \<in> set (s_assignments snap) \<and> labelsContain (en_Labels env) (ra_TargetLabels a)}"
    unfolding names by (auto simp: ra_key_def)
qed

lemma example_work_items: "work_items example_snapshot = [(example_env, example_assignment)]"
  by (simp add: work_items_def env_winners_def matchAssignments_def mostSpecificPerFeature_def ra_winner_def
      ra_key_def example_snapshot_def example_env_def example_assignment_def labelsContain_def)

lemma example_computeActions: "computeActions echo_externals 1000 example_snapshot = Inr [example_decision]"
proof -
  have "healthy_env 1000 example_snapshot (en_ID example_env)"
    by (simp add: healthy_env_def example_snapshot_def example_env_def)
  moreover have "\<not> flag2 (s_disabledByEnv example_snapshot) a b" for a b
    by (simp add: flag2_def example_snapshot_def)
  ultimately show ?thesis
    by (simp add: computeActions_def example_work_items dispatchDecision_def example_computeAction)
qed

theorem computeActions_one_per_feature_witness:
  "distinct (map decision_key [example_decision]) \<and> (1, ''loki'') \<in> set (map decision_key [example_decision])"
  using computeActions_one_per_feature[OF example_computeActions]
  by (simp add: example_snapshot_def decision_key_def example_decision_def example_env_def example_assignment_def
      example_feature_def labelsContain_def)

text \<open>
  C1. What a deployment needs: a decision to deploy names a reconciled environment whose agent
  reported within the last three minutes and a feature that is not disabled there, it comes from the
  most specific matching assignment, the feature's dependencies are deployed in the environment, the
  values are complete and the hash is theirs, and the last instruction, if any, has ended and had
  another hash.
\<close>

theorem deploy_decision_safe:
  assumes "computeActions x now snap = Inr ds" and "d \<in> set ds" and "dd_Action d = ActionDeploy"
  shows "\<exists>env dep. env \<in> set (s_environments snap) \<and> decision_for env dep d
    \<and> dep \<in> set (mostSpecificPerFeature (matchAssignments (s_assignments snap) env))
    \<and> (\<exists>t. map_of (s_healthByEnv snap) (en_ID env) = Some t \<and> now - t \<le> 3 * minute)
    \<and> \<not> flag2 (s_disabledByEnv snap) (en_ID env) (f_Name (ra_Feature dep))
    \<and> deps_satisfied snap env dep
    \<and> ValidateFields (f_Values (ra_Feature dep)) (en_Kind env) (merged_config snap env (ra_Feature dep)) (dd_Values d) = []
    \<and> generateHash x (dd_Values d) (ra_Feature dep) = Inr (dd_Hash d)
    \<and> (case latest_instr snap env dep of None \<Rightarrow> True
       | Some i \<Rightarrow> \<not> IsInProgress (li_Status i) \<and> li_Hash i \<noteq> dd_Hash d)"
proof -
  obtain env dep where item: "(env, dep) \<in> set (work_items snap)"
    and disp: "dispatchDecision x now snap (env, dep) = Inr d"
    using computeActions_item[OF assms(1,2)] by blast
  have healthy: "healthy_env now snap (en_ID env)"
    and enabled: "\<not> flag2 (s_disabledByEnv snap) (en_ID env) (f_Name (ra_Feature dep))"
    and comp: "computeAction x snap env dep = Inr d"
    using disp assms(3) by (auto simp: dispatchDecision_def split: if_splits)
  have "\<not> Action_IsFailure (dd_Action d)" using assms(3) by (simp add: Action_IsFailure_def Action_defs)
  then have des: "desired x snap env dep = Some (dd_Values d, dd_Hash d)" and deps: "deps_satisfied snap env dep"
    and instr: "case latest_instr snap env dep of None \<Rightarrow> True
       | Some i \<Rightarrow> \<not> IsInProgress (li_Status i) \<and> li_Hash i \<noteq> dd_Hash d"
    using computeAction_settled[OF comp] assms(3) by auto
  obtain configMap mv where rend: "RenderHelmValues x (render_data env (merged_config snap env (ra_Feature dep)) configMap mv) (ra_Feature dep) True = Inr (dd_Values d)"
    and hash: "generateHash x (dd_Values d) (ra_Feature dep) = Inr (dd_Hash d)"
    using des by (rule desired_SomeE)
  have "ValidateFields (f_Values (ra_Feature dep)) (en_Kind env) (merged_config snap env (ra_Feature dep)) (dd_Values d) = []"
    using RenderHelmValues_valid[OF rend] by (simp add: render_data_def)
  moreover have "\<exists>t. map_of (s_healthByEnv snap) (en_ID env) = Some t \<and> now - t \<le> 3 * minute"
    using healthy by (auto simp: healthy_env_def split: option.splits)
  ultimately show ?thesis
    using item dispatchDecision_for[OF disp] enabled deps hash instr
    by (auto simp: work_items_iff env_winners_def)
qed

theorem deploy_decision_safe_witness:
  "\<exists>env dep. env \<in> set (s_environments example_snapshot) \<and> decision_for env dep example_decision
    \<and> deps_satisfied example_snapshot env dep"
  using deploy_decision_safe[OF example_computeActions, of example_decision]
  by (simp add: example_decision_def) blast

text \<open>
  A label missing from an environment counts as the empty string in the reconciler: a target that
  asks for an empty label value matches environments without that label, which the database's
  superset test, used for the pages, does not match. For targets without empty values the two agree.
\<close>

theorem labelsContain_empty_value:
  "labelsContain [(''tenant'', ''acme'')] [(''team'', [])]
   \<and> \<not> labels_superset [(''tenant'', ''acme'')] [(''team'', [])]"
  by (simp add: labelsContain_def labels_superset_def)

end
