(* ===== verification/Snapshot.thy ===== *)
theory Snapshot
  imports Compute
begin

text \<open>
  Reading the database into a snapshot, \<open>internal/reconciler/fetch.go\<close> and \<open>assignmentFromRow\<close> of
  \<open>model.go\<close>, with the queries of \<open>internal/reconciler/reconcilersql\<close>.

  \<open>fails\<close> says which queries fail. The queries after the first run concurrently in the code; when
  several fail, which error is reported depends on the scheduler, and the model reports the first in
  the order of the code. \<open>aud\<close> is the process-wide IAP audience.
\<close>

section \<open>Queries\<close>

record TenantEnvRow =
  te_ID :: uuid
  te_Name :: string
  te_Kind :: EnvironmentKind
  te_Labels :: Labels
  te_Reconcile :: bool
  te_TenantID :: uuid
  te_TenantName :: string

definition query :: "(string \<Rightarrow> bool) \<Rightarrow> string \<Rightarrow> 'a \<Rightarrow> err + 'a" where
  "query fails name rows = (if fails name then Inl (ErrQuery name) else Inr rows)"

definition wrapE :: "string \<Rightarrow> err + 'a \<Rightarrow> err + 'a" where
  "wrapE msg r = (case r of Inl e \<Rightarrow> Inl (Wrap msg e) | Inr a \<Rightarrow> Inr a)"

lemma wrapE_simps [simp]: "wrapE msg (Inr a) = Inr a" "wrapE msg (Inl e) = Inl (Wrap msg e)"
  by (simp_all add: wrapE_def)

lemma wrapE_Inr_iff [simp]: "wrapE msg r = Inr a \<longleftrightarrow> r = Inr a"
  by (cases r) simp_all

lemma query_Inr_iff [simp]: "query fails name rows = Inr a \<longleftrightarrow> \<not> fails name \<and> a = rows"
  by (auto simp: query_def)

definition ListAllTenantEnvironments :: "db \<Rightarrow> TenantEnvRow list" where
  "ListAllTenantEnvironments d = sort_key (\<lambda>r. (te_TenantName r, te_Name r))
     (concat (map (\<lambda>e. map (\<lambda>t. \<lparr>te_ID = e_ID e, te_Name = e_Name e, te_Kind = e_Kind e, te_Labels = e_Labels e,
          te_Reconcile = e_Reconcile e, te_TenantID = t_ID t, te_TenantName = t_Name t\<rparr>)
        (filter (\<lambda>t. t_ID t = e_TenantID e) (tenants d))) (environments d)))"

definition ListLatestFeatureAssignments :: "db \<Rightarrow> (AssignmentRow \<times> FeatureDatum) list" where
  "ListLatestFeatureAssignments d = distinct_on (\<lambda>(a, fd). (fa_feature_name a, fa_target a))
     (sort_key (\<lambda>(a, fd). (fa_feature_name a, fa_target a, - fa_created a))
       (concat (map (\<lambda>a. map (Pair a)
          (filter (\<lambda>fd. fa_feature_name a = fd_name fd \<and> fa_version a = fd_version fd) (feature_data d)))
        (filter fa_active (feature_assignments d)))))"

definition ListAllGlobalConfigs :: "db \<Rightarrow> ConfigurationsGlobal list" where
  "ListAllGlobalConfigs d = sort_key (\<lambda>r. (g_Feature r, g_Key r)) (configurations_global d)"

definition ListAllEnvConfigs :: "db \<Rightarrow> ConfigurationsEnvironment list" where
  "ListAllEnvConfigs d = sort_key (\<lambda>r. (c_EnvironmentID r, c_Feature r, c_Key r)) (configurations_environment d)"

definition ListAllEnvironmentValues :: "db \<Rightarrow> EnvironmentValue list" where
  "ListAllEnvironmentValues d = sort_key (\<lambda>r. (ev_EnvironmentID r, ev_Key r)) (environment_values d)"

definition ListHealthStatuses :: "db \<Rightarrow> (uuid \<times> gotime) list" where
  "ListHealthStatuses d = health_statuses d"

definition ListDisabledFeatures :: "db \<Rightarrow> (uuid \<times> string) list" where
  "ListDisabledFeatures d = map fst (disabled_features d)"

definition ListLatestDeploys :: "db \<Rightarrow> ((uuid \<times> string) \<times> DeployCurrent) list" where
  "ListLatestDeploys d = deploy_current d"

definition ListDeployedFeatures :: "db \<Rightarrow> (uuid \<times> string) list" where
  "ListDeployedFeatures d = map fst (filter (\<lambda>(k, c). dc_status c = ''deployed'') (deploy_current d))"

section \<open>Building the snapshot\<close>

definition assignmentFromRow :: "externals \<Rightarrow> AssignmentRow \<times> FeatureDatum \<Rightarrow> err + reconcileAssignment" where
  "assignmentFromRow x row = (case row of (a, fd) \<Rightarrow>
     bindE (wrapE (''unmarshal dependencies for '' @ fa_feature_name a) (x_decode_dependencies x (fd_dependencies fd))) (\<lambda>deps.
     bindE (wrapE (''unmarshal values for '' @ fa_feature_name a) (x_decode_values x (fd_values fd))) (\<lambda>vals.
     bindE (wrapE (''unmarshal default values for '' @ fa_feature_name a) (x_decode_defaults x (fd_default_values fd))) (\<lambda>defaults.
     Inr \<lparr>ra_ID = fa_id a,
          ra_Feature = \<lparr>f_Dependencies = deps, f_EnvironmentKinds = fd_kinds fd, f_Timeout = fd_timeout fd * 1000000,
             f_Values = vals, f_Name = fa_feature_name a, f_Chart = fd_chart fd, f_Version = fa_version a,
             f_Description = fd_description fd, f_Source = fd_source fd, f_ValuesYAML = defaults,
             f_SpecVersion = ''v2'', f_TplDetails = fd_tpl_details fd\<rparr>,
          ra_TargetLabels = fa_target a, ra_Created = fa_created a\<rparr>))))"

definition environment_of_row :: "TenantEnvRow \<Rightarrow> environment" where
  "environment_of_row r = \<lparr>en_ID = te_ID r, en_Name = te_Name r, en_Kind = te_Kind r, en_Labels = te_Labels r,
     en_TenantID = te_TenantID r, en_TenantName = te_TenantName r\<rparr>"

definition buildGlobalConfigMap :: "db \<Rightarrow> (string, MergedConfigRow list) gomap" where
  "buildGlobalConfigMap d = group_by g_Feature merged_of_global (ListAllGlobalConfigs d)"

definition put_env_config ::
  "ConfigurationsEnvironment \<Rightarrow> (uuid, (string, MergedConfigRow list) gomap) gomap \<Rightarrow> (uuid, (string, MergedConfigRow list) gomap) gomap" where
  "put_env_config row m =
     gm_put (c_EnvironmentID row) (gm_append (c_Feature row) (merged_of_env row)
       (case map_of m (c_EnvironmentID row) of None \<Rightarrow> [] | Some fm \<Rightarrow> fm)) m"

definition buildEnvConfigMap :: "db \<Rightarrow> (uuid, (string, MergedConfigRow list) gomap) gomap" where
  "buildEnvConfigMap d = fold put_env_config (ListAllEnvConfigs d) []"

text \<open>The values of one environment: its name and kind, overwritten by its stored values.\<close>

definition env_value_map :: "externals \<Rightarrow> (string \<Rightarrow> string) \<Rightarrow> string \<Rightarrow> EnvironmentKind \<Rightarrow> EnvironmentValue list \<Rightarrow> err + gmap" where
  "env_value_map x errmsg name kind vals =
     foldE (\<lambda>v m. bindE (wrapE (errmsg (ev_Key v)) (x_unmarshal x (ev_Value v))) (\<lambda>val. Inr (gm_put (ev_Key v) val m)))
       vals (gm_put ''kind'' (GStr kind) (gm_put ''name'' (GStr name) []))"

definition tenant_values ::
  "string \<Rightarrow> string \<Rightarrow> (TenantEnvRow \<times> gmap) list \<Rightarrow> TenantEnvRow \<Rightarrow> gmap \<Rightarrow> ComputedValues" where
  "tenant_values aud tenantName parsed target envVals =
     \<lparr>cv_Kind = te_Kind target, cv_Tenant = tenantName, cv_IAPAudience = aud,
      cv_Management = fold (\<lambda>(info, vals) m. if te_Kind info = EnvironmentKindManagement then Some vals else m) parsed None,
      cv_Env = envVals,
      cv_Envs = map snd (filter (\<lambda>(info, vals). te_Kind info \<noteq> EnvironmentKindManagement) parsed),
      cv_Configs = []\<rparr>"

definition buildEnvValues ::
  "externals \<Rightarrow> string \<Rightarrow> EnvironmentValue list \<Rightarrow> TenantEnvRow list \<Rightarrow> err + (uuid, ComputedValues) gomap" where
  "buildEnvValues x aud valueRows envRows =
     (let byEnv = group_by ev_EnvironmentID id valueRows;
          tenantEnvs = group_by te_TenantID id envRows;
          tenantNames = index_by te_TenantID te_TenantName envRows
      in foldE (\<lambda>(tenantID, envInfos) result.
           bindE (mapE (\<lambda>ei. bindE (env_value_map x (\<lambda>k. ''unmarshal env value '' @ te_Name ei @ ''/'' @ k)
               (te_Name ei) (te_Kind ei) (gm_list byEnv (te_ID ei))) (\<lambda>vals. Inr (ei, vals))) envInfos) (\<lambda>parsed.
           foldE (\<lambda>(info, _) result.
             bindE (env_value_map x (\<lambda>k. ''unmarshal env value'') (te_Name info) (te_Kind info)
               (gm_list byEnv (te_ID info))) (\<lambda>envVals.
             Inr (gm_put (te_ID info)
               (tenant_values aud (case map_of tenantNames tenantID of Some n \<Rightarrow> n | None \<Rightarrow> []) parsed info envVals) result)))
             parsed result)) tenantEnvs [])"

definition fetchSnapshot :: "externals \<Rightarrow> string \<Rightarrow> (string \<Rightarrow> bool) \<Rightarrow> db \<Rightarrow> err + snapshot" where
  "fetchSnapshot x aud fails d =
     bindE (wrapE ''list environments'' (query fails ''ListAllTenantEnvironments'' (ListAllTenantEnvironments d))) (\<lambda>allEnvRows.
     bindE (wrapE ''list health'' (query fails ''ListHealthStatuses'' (ListHealthStatuses d))) (\<lambda>health.
     bindE (wrapE ''list assignments'' (query fails ''ListLatestFeatureAssignments'' (ListLatestFeatureAssignments d))) (\<lambda>assignRows.
     bindE (mapE (assignmentFromRow x) assignRows) (\<lambda>deps.
     bindE (wrapE ''list disabled'' (query fails ''ListDisabledFeatures'' (ListDisabledFeatures d))) (\<lambda>disabled.
     bindE (wrapE ''list global configs'' (query fails ''ListAllGlobalConfigs'' (buildGlobalConfigMap d))) (\<lambda>globalConfig.
     bindE (wrapE ''list env configs'' (query fails ''ListAllEnvConfigs'' (buildEnvConfigMap d))) (\<lambda>envConfig.
     bindE (wrapE ''list env values'' (query fails ''ListAllEnvironmentValues'' (ListAllEnvironmentValues d))) (\<lambda>valueRows.
     bindE (buildEnvValues x aud valueRows allEnvRows) (\<lambda>envValues.
     bindE (wrapE ''list instructions'' (query fails ''ListLatestDeploys'' (ListLatestDeploys d))) (\<lambda>instrRows.
     bindE (wrapE ''list deployed'' (query fails ''ListDeployedFeatures'' (ListDeployedFeatures d))) (\<lambda>deployed.
     Inr \<lparr>s_environments = map environment_of_row (filter te_Reconcile allEnvRows),
          s_assignments = deps,
          s_healthByEnv = index_by fst snd health,
          s_disabledByEnv = index2_by fst snd (\<lambda>_. True) disabled,
          s_globalConfig = globalConfig,
          s_envConfig = envConfig,
          s_envValues = envValues,
          s_envKinds = index_by te_ID te_Kind allEnvRows,
          s_envTenantNames = index_by te_ID te_TenantName allEnvRows,
          s_latestInstr = index2_by (\<lambda>r. fst (fst r)) (\<lambda>r. snd (fst r))
            (\<lambda>r. \<lparr>li_Hash = dc_hash (snd r), li_Status = dc_status (snd r)\<rparr>) instrRows,
          s_deployedFeats = index2_by fst snd (\<lambda>_. True) deployed\<rparr>)))))))))))"

text \<open>A snapshot does not depend on what is rendered.\<close>

lemma fetchSnapshot_libraries:
  assumes "same_libraries x x'"
  shows "fetchSnapshot x' aud fails d = fetchSnapshot x aud fails d"
proof -
  note lib = same_libraries_fields [OF assms]
  have "assignmentFromRow x' = assignmentFromRow x" by (intro ext) (simp add: assignmentFromRow_def lib)
  moreover have "env_value_map x' = env_value_map x" by (intro ext) (simp add: env_value_map_def lib)
  then have "buildEnvValues x' = buildEnvValues x" by (intro ext) (simp add: buildEnvValues_def)
  ultimately show ?thesis by (simp add: fetchSnapshot_def)
qed

section \<open>What the snapshot says about the database\<close>

lemma find_rev_unique: "distinct (map f xs) \<Longrightarrow> find (\<lambda>x. f x = k) (rev xs) = find (\<lambda>x. f x = k) xs"
proof (cases "\<exists>x \<in> set xs. f x = k")
  case True
  assume d: "distinct (map f xs)"
  obtain x where x: "x \<in> set xs" and k: "k = f x" using True by blast
  have "distinct (map f (rev xs))" using d by (simp add: rev_map[symmetric])
  then show ?thesis using find_unique[OF d x] find_unique[of f "rev xs" x] x k by simp
next
  case False
  then have "find (\<lambda>x. f x = k) xs = None" and "find (\<lambda>x. f x = k) (rev xs) = None"
    by (auto simp: find_None_iff)
  then show ?thesis by simp
qed

lemma find_map_of: "map_option h (find (\<lambda>e. fst e = k) m) = map_option (\<lambda>v. h (k, v)) (map_of m k)"
  by (induction m) auto

lemma index2_by_table:
  assumes "gm_ok m"
  shows "gm_get2 (index2_by (\<lambda>r. fst (fst r)) (\<lambda>r. snd (fst r)) h m) a b = map_option (\<lambda>c. h ((a, b), c)) (map_of m (a, b))"
proof -
  have "(\<lambda>r :: ('a \<times> 'b) \<times> 'c. fst (fst r) = a \<and> snd (fst r) = b) = (\<lambda>r. fst r = (a, b))" by auto
  then show ?thesis
    by (simp add: gm_get2_index2_by find_rev_unique[OF gm_ok_distinct[OF assms]] find_map_of)
qed

lemma flag2_index2: "flag2 (index2_by fst snd (\<lambda>_. True) rows) a b \<longleftrightarrow> (a, b) \<in> set rows"
proof (cases "find (\<lambda>r. fst r = a \<and> snd r = b) (rev rows)")
  case None
  then have "(a, b) \<notin> set rows" by (auto simp: find_None_iff)
  with None show ?thesis by (simp add: flag2_def gm_get2_index2_by)
next
  case (Some r)
  then show ?thesis using find_SomeD[OF Some] by (auto simp: flag2_def gm_get2_index2_by)
qed

lemma index_by_table: "gm_ok m \<Longrightarrow> map_of (index_by fst snd m) k = map_of m k"
  by (simp add: map_of_index_by find_rev_unique[OF gm_ok_distinct] find_map_of option.map_ident)

lemma fetchSnapshot_InrD:
  assumes "fetchSnapshot x aud fails d = Inr snap"
  shows "s_environments snap = map environment_of_row (filter te_Reconcile (ListAllTenantEnvironments d))"
    and "s_healthByEnv snap = index_by fst snd (ListHealthStatuses d)"
    and "s_disabledByEnv snap = index2_by fst snd (\<lambda>_. True) (ListDisabledFeatures d)"
    and "s_globalConfig snap = buildGlobalConfigMap d" and "s_envConfig snap = buildEnvConfigMap d"
    and "s_latestInstr snap = index2_by (\<lambda>r. fst (fst r)) (\<lambda>r. snd (fst r))
            (\<lambda>r. \<lparr>li_Hash = dc_hash (snd r), li_Status = dc_status (snd r)\<rparr>) (ListLatestDeploys d)"
    and "s_deployedFeats snap = index2_by fst snd (\<lambda>_. True) (ListDeployedFeatures d)"
    and "mapE (assignmentFromRow x) (ListLatestFeatureAssignments d) = Inr (s_assignments snap)"
    and "buildEnvValues x aud (ListAllEnvironmentValues d) (ListAllTenantEnvironments d) = Inr (s_envValues snap)"
  using assms by (auto simp: fetchSnapshot_def bindE_eq_Inr)

lemma db_ok_gm: "db_ok d \<Longrightarrow> gm_ok (deploy_current d) \<and> gm_ok (decision_current d) \<and>
    gm_ok (disabled_features d) \<and> gm_ok (health_statuses d) \<and> gm_ok (release_statuses d)"
  by (simp add: db_ok_def dl.tracks_def cl.tracks_def)

lemma snapshot_latestInstr:
  assumes "fetchSnapshot x aud fails d = Inr snap" and "db_ok d"
  shows "gm_get2 (s_latestInstr snap) e f =
    map_option (\<lambda>c. \<lparr>li_Hash = dc_hash c, li_Status = dc_status c\<rparr>) (map_of (deploy_current d) (e, f))"
  using fetchSnapshot_InrD(6)[OF assms(1)] db_ok_gm[OF assms(2)]
  by (simp add: ListLatestDeploys_def index2_by_table)

lemma snapshot_deployed:
  assumes "fetchSnapshot x aud fails d = Inr snap" and "db_ok d"
  shows "flag2 (s_deployedFeats snap) e f \<longleftrightarrow> (\<exists>c. map_of (deploy_current d) (e, f) = Some c \<and> dc_status c = DeployStatusDeployed)"
proof -
  have "flag2 (s_deployedFeats snap) e f \<longleftrightarrow> (\<exists>c. ((e, f), c) \<in> set (deploy_current d) \<and> dc_status c = ''deployed'')"
    using fetchSnapshot_InrD(7)[OF assms(1)] by (force simp: flag2_index2 ListDeployedFeatures_def)
  then show ?thesis using db_ok_gm[OF assms(2)] by (simp add: gm_entry_iff DeployStatusDeployed_def)
qed

lemma snapshot_disabled:
  assumes "fetchSnapshot x aud fails d = Inr snap"
  shows "flag2 (s_disabledByEnv snap) e f \<longleftrightarrow> map_of (disabled_features d) (e, f) \<noteq> None"
  using fetchSnapshot_InrD(3)[OF assms] by (simp add: flag2_index2 ListDisabledFeatures_def map_of_eq_None_iff)

lemma snapshot_health:
  assumes "fetchSnapshot x aud fails d = Inr snap" and "db_ok d"
  shows "map_of (s_healthByEnv snap) e = map_of (health_statuses d) e"
  using fetchSnapshot_InrD(2)[OF assms(1)] db_ok_gm[OF assms(2)] by (simp add: ListHealthStatuses_def index_by_table)

lemma snapshot_globalConfig:
  assumes "fetchSnapshot x aud fails d = Inr snap"
  shows "gm_list (s_globalConfig snap) f = map merged_of_global (filter (\<lambda>r. g_Feature r = f) (ListAllGlobalConfigs d))"
  using fetchSnapshot_InrD(4)[OF assms] by (simp add: buildGlobalConfigMap_def gm_list_group_by)

lemma envConfig_put:
  "envConfigForFeature (put_env_config row m) e f = envConfigForFeature m e f @
     (if c_EnvironmentID row = e \<and> c_Feature row = f then [merged_of_env row] else [])"
  by (auto simp: envConfigForFeature_def put_env_config_def gm_list_def gm_append_def split: option.splits)

lemma snapshot_envConfig:
  assumes "fetchSnapshot x aud fails d = Inr snap"
  shows "envConfigForFeature (s_envConfig snap) e f =
    map merged_of_env (filter (\<lambda>r. c_EnvironmentID r = e \<and> c_Feature r = f) (ListAllEnvConfigs d))"
proof -
  have "envConfigForFeature (fold put_env_config rows m) e f = envConfigForFeature m e f @
      map merged_of_env (filter (\<lambda>r. c_EnvironmentID r = e \<and> c_Feature r = f) rows)" for rows m
    by (induction rows arbitrary: m) (auto simp: envConfig_put)
  then show ?thesis
    using fetchSnapshot_InrD(5)[OF assms] by (simp add: buildEnvConfigMap_def envConfigForFeature_def)
qed

lemma filter_unique_key: "distinct (map f xs) \<Longrightarrow> length (filter (\<lambda>x. f x = k) xs) \<le> 1"
  by (induction xs) (auto simp: filter_empty_conv image_iff)

lemma distinct_concat_keys:
  assumes "distinct (map f xs)" and "\<And>x y. x \<in> set xs \<Longrightarrow> y \<in> set (g x) \<Longrightarrow> h y = f x" and "\<And>x. length (g x) \<le> 1"
  shows "distinct (map h (concat (map g xs)))"
  using assms
proof (induction xs)
  case (Cons x xs)
  have "distinct (map h (g x))" using Cons.prems(3)[of x] by (cases "g x"; cases "tl (g x)") auto
  moreover have "h ` set (g x) \<inter> h ` set (concat (map g xs)) = {}"
  proof (rule ccontr)
    assume "h ` set (g x) \<inter> h ` set (concat (map g xs)) \<noteq> {}"
    then obtain y z x' where "y \<in> set (g x)" "z \<in> set (g x')" "x' \<in> set xs" "h y = h z" by auto
    then have "f x = f x'" using Cons.prems(2)[of x y] Cons.prems(2)[of x' z] by simp
    then show False using Cons.prems(1) \<open>x' \<in> set xs\<close> by auto
  qed
  ultimately show ?case using Cons by simp
qed simp

lemma snapshot_env_ids:
  assumes "fetchSnapshot x aud fails d = Inr snap" and "db_ok d"
  shows "distinct (map en_ID (s_environments snap))"
proof -
  let ?rows = "concat (map (\<lambda>e. map (\<lambda>t. \<lparr>te_ID = e_ID e, te_Name = e_Name e, te_Kind = e_Kind e, te_Labels = e_Labels e,
          te_Reconcile = e_Reconcile e, te_TenantID = t_ID t, te_TenantName = t_Name t\<rparr>)
        (filter (\<lambda>t. t_ID t = e_TenantID e) (tenants d))) (environments d))"
  have "distinct (map te_ID ?rows)"
    by (rule distinct_concat_keys[where f = e_ID])
      (use assms(2) filter_unique_key[of t_ID "tenants d"] in \<open>auto simp: db_ok_def\<close>)
  then have "distinct (map te_ID (ListAllTenantEnvironments d))"
    unfolding ListAllTenantEnvironments_def distinct_map_sort_key .
  then have "distinct (map te_ID (filter te_Reconcile (ListAllTenantEnvironments d)))"
    by (rule distinct_map_filter)
  then show ?thesis
    using fetchSnapshot_InrD(1)[OF assms(1)] by (simp add: environment_of_row_def comp_def)
qed

text \<open>Only environments that are marked for reconciling are in a snapshot.\<close>

lemma snapshot_reconciled:
  assumes "fetchSnapshot x aud fails d = Inr snap" and "env \<in> set (s_environments snap)"
  shows "\<exists>e \<in> set (environments d). e_ID e = en_ID env \<and> e_Reconcile e \<and> e_Labels e = en_Labels env \<and> e_Name e = en_Name env"
proof -
  obtain r where "r \<in> set (ListAllTenantEnvironments d)" and "te_Reconcile r" and "env = environment_of_row r"
    using fetchSnapshot_InrD(1)[OF assms(1)] assms(2) by auto
  moreover from this(1) have "\<exists>e \<in> set (environments d). e_ID e = te_ID r \<and> e_Reconcile e = te_Reconcile r \<and>
      e_Labels e = te_Labels r \<and> e_Name e = te_Name r"
    by (auto simp: ListAllTenantEnvironments_def)
  ultimately show ?thesis by (auto simp: environment_of_row_def)
qed

text \<open>
  Environment configuration overrides global configuration: in the snapshot of a database, the
  configuration of a feature for an environment has, for every key that the feature declares for the
  environment's kind, the environment's row if there is one and else the global row.
\<close>

theorem merged_config_override:
  assumes "fetchSnapshot x aud fails d = Inr snap"
  shows "merged_lookup (merged_config snap env f) key =
    (if include_row (configIncludeKeys f (en_Kind env)) key
     then (case last_row key (map merged_of_env (filter (\<lambda>r. c_EnvironmentID r = en_ID env \<and> c_Feature r = f_Name f) (ListAllEnvConfigs d))) of
             Some r \<Rightarrow> Some r
           | None \<Rightarrow> last_row key (map merged_of_global (filter (\<lambda>r. g_Feature r = f_Name f) (ListAllGlobalConfigs d))))
     else None)"
  by (simp add: merged_config_def mergeConfigRows_lookup snapshot_globalConfig[OF assms] snapshot_envConfig[OF assms])

section \<open>A small installation\<close>

definition example_externals :: externals where
  "example_externals = echo_externals \<lparr>x_decode_values := \<lambda>s. Inr (f_Values example_feature)\<rparr>"

definition example_db :: db where
  "example_db = empty_db \<lparr>
     tenants := [\<lparr>t_ID = 9, t_Name = ''acme'', t_Description = None, t_Created = 0, t_LastModified = 0, t_Ci = False\<rparr>],
     environments := [\<lparr>e_ID = 1, e_Name = ''prod'', e_Description = None, e_Created = 0, e_LastModified = 0,
        e_Kind = EnvironmentKindTenant, e_Reconcile = True, e_TenantID = 9,
        e_Labels = [(''name'', ''prod''), (''tenant'', ''acme'')], e_OIDCIssuer = None, e_OIDCDiscoveryURL = None\<rparr>],
     feature_data := [\<lparr>fd_name = ''loki'', fd_version = ''1'', fd_chart = ''oci://charts/loki'', fd_description = [],
        fd_source = [], fd_kinds = [], fd_dependencies = [], fd_values = [], fd_default_values = [], fd_timeout = 0,
        fd_tpl_details = []\<rparr>],
     feature_assignments := [\<lparr>fa_id = 2, fa_feature_name = ''loki'', fa_version = ''1'',
        fa_target = [(''tenant'', ''acme'')], fa_created = 100, fa_gh_ref = None, fa_description = None, fa_active = True\<rparr>],
     configurations_global := [\<lparr>g_ID = 1, g_Feature = ''loki'', g_Key = ''a'', g_Value = ''true'', g_Description = None,
        g_Secret = False, g_Created = 0\<rparr>],
     health_statuses := [(1, 1000)]\<rparr>"

lemma example_db_ok: "db_ok example_db"
  by (simp add: example_db_def db_ok_def empty_db_def dl.tracks_empty cl.tracks_empty gm_ok_Cons)

lemmas fetch_eval = fetchSnapshot_def query_def ListAllTenantEnvironments_def ListLatestFeatureAssignments_def
  ListHealthStatuses_def ListDisabledFeatures_def ListAllGlobalConfigs_def ListAllEnvConfigs_def
  ListAllEnvironmentValues_def ListLatestDeploys_def ListDeployedFeatures_def buildGlobalConfigMap_def
  buildEnvConfigMap_def buildEnvValues_def env_value_map_def tenant_values_def assignmentFromRow_def
  environment_of_row_def group_by_def gm_append_def gm_list_def index_by_def index2_by_def

lemma example_fetch: "fetchSnapshot example_externals [] (\<lambda>_. False) example_db = Inr example_snapshot"
  by (simp add: fetch_eval example_db_def empty_db_def example_snapshot_def example_env_def example_assignment_def
      example_externals_def echo_externals_def example_feature_def example_cv_def example_row_def merged_of_global_def
      EnvironmentKindTenant_def EnvironmentKindManagement_def)

theorem merged_config_override_witness:
  "merged_lookup (merged_config example_snapshot example_env example_feature) ''a'' = Some (example_row ''a'')"
  using merged_config_override[OF example_fetch, of example_env example_feature "''a''"]
  by (simp add: configIncludeKeys_def include_row_def example_feature_def required_value_def computed_value_def
      example_env_def EnvironmentKindTenant_def EnvironmentKindManagement_def ListAllEnvConfigs_def ListAllGlobalConfigs_def
      example_db_def empty_db_def last_row_def merged_of_global_def example_row_def)

end
