(* ===== verification/Store.thy ===== *)
theory Store
  imports Snapshot
begin

text \<open>
  Writing to the database: transactions (\<open>internal/dbtx\<close>), the audit log
  (\<open>internal/audit/queries.go\<close>) and the environments (\<open>internal/environment/queries.go\<close>).

  An operation takes the tables to its result and the tables it leaves. The queriers of the feature,
  assignment and audit packages join the transaction of their context; the querier of the environment
  package always runs on the pool, so its statements are committed on their own whatever becomes of
  the transaction around them (\<open>pool_tx\<close>).
\<close>

section \<open>Operations on the tables\<close>

type_synonym 'a op = "db \<Rightarrow> (err + 'a) \<times> db"

definition returnT :: "'a \<Rightarrow> 'a op" where
  "returnT a d = (Inr a, d)"

definition liftT :: "err + 'a \<Rightarrow> 'a op" where
  "liftT r d = (r, d)"

definition bindT :: "'a op \<Rightarrow> ('a \<Rightarrow> 'b op) \<Rightarrow> 'b op" where
  "bindT m f d = (case m d of (Inl e, d') \<Rightarrow> (Inl e, d') | (Inr a, d') \<Rightarrow> f a d')"

definition wrapT :: "string \<Rightarrow> 'a op \<Rightarrow> 'a op" where
  "wrapT msg m d = (wrapE msg (fst (m d)), snd (m d))"

text \<open>A statement without result, and a query for one row.\<close>

definition execT :: "io \<Rightarrow> string \<Rightarrow> (db \<Rightarrow> db) \<Rightarrow> unit op" where
  "execT io name f d = (if io_fails io name then (Inl (ErrQuery name), d) else (Inr (), f d))"

definition one :: "io \<Rightarrow> string \<Rightarrow> 'a option \<Rightarrow> err + 'a" where
  "one io name r = (if io_fails io name then Inl (ErrQuery name) else case r of None \<Rightarrow> Inl ErrNoRows | Some a \<Rightarrow> Inr a)"

lemma bindT_eq_Inr: "bindT m f d = (Inr b, d2) \<longleftrightarrow> (\<exists>a d1. m d = (Inr a, d1) \<and> f a d1 = (Inr b, d2))"
  by (auto simp: bindT_def split: prod.splits sum.splits)

lemma execT_eq_Inr [simp]: "execT io name f d = (Inr u, d') \<longleftrightarrow> \<not> io_fails io name \<and> d' = f d"
  by (auto simp: execT_def)

lemma liftT_eq [simp]: "liftT r d = (r', d') \<longleftrightarrow> r = r' \<and> d' = d"
  by (auto simp: liftT_def)

lemma returnT_eq [simp]: "returnT a d = (r, d') \<longleftrightarrow> r = Inr a \<and> d' = d"
  by (auto simp: returnT_def)

lemma wrapT_eq_Inr [simp]: "wrapT msg m d = (Inr a, d') \<longleftrightarrow> m d = (Inr a, d')"
  by (auto simp: wrapT_def prod_eq_iff)

lemma one_eq_Inr [simp]: "one io name r = Inr a \<longleftrightarrow> \<not> io_fails io name \<and> r = Some a"
  by (auto simp: one_def split: option.splits)

section \<open>Transactions\<close>

definition WithTx :: "io \<Rightarrow> 'a op \<Rightarrow> 'a op" where
  "WithTx io fn d =
     (if io_fails io ''begin'' then (Inl (Wrap ''begin tx'' (ErrQuery ''begin'')), d)
      else case fn d of
        (Inl e, _) \<Rightarrow> (Inl e, d)
      | (Inr a, d') \<Rightarrow> if io_fails io ''commit'' then (Inl (Wrap ''commit tx'' (ErrQuery ''commit'')), d) else (Inr a, d'))"

text \<open>
  A transaction whose first statements run on the pool: they stay when the rest, or the commit, fails.
\<close>

definition pool_tx :: "io \<Rightarrow> 'a op \<Rightarrow> ('a \<Rightarrow> unit op) \<Rightarrow> 'a op" where
  "pool_tx io outside inside d =
     (if io_fails io ''begin'' then (Inl (Wrap ''begin tx'' (ErrQuery ''begin'')), d)
      else case outside d of
        (Inl e, d') \<Rightarrow> (Inl e, d')
      | (Inr a, d1) \<Rightarrow> (case inside a d1 of
            (Inl e, _) \<Rightarrow> (Inl e, d1)
          | (Inr u, d2) \<Rightarrow> if io_fails io ''commit'' then (Inl (Wrap ''commit tx'' (ErrQuery ''commit'')), d1) else (Inr a, d2)))"

lemma WithTx_rollback: "fst (WithTx io fn d) = Inl e \<Longrightarrow> snd (WithTx io fn d) = d"
  by (auto simp: WithTx_def split: prod.splits sum.splits if_splits)

lemma WithTx_eq_Inr: "WithTx io fn d = (Inr a, d') \<longleftrightarrow> \<not> io_fails io ''begin'' \<and> \<not> io_fails io ''commit'' \<and> fn d = (Inr a, d')"
  by (auto simp: WithTx_def split: prod.splits sum.splits if_splits)

lemma WithTx_cases:
  assumes "\<And>a d'. fn d = (Inr a, d') \<Longrightarrow> P d'"
  shows "case WithTx io fn d of (r, d') \<Rightarrow> if isl r then d' = d else P d'"
proof (cases "WithTx io fn d")
  case (Pair r d')
  show ?thesis
  proof (cases r)
    case (Inl e)
    then show ?thesis using Pair WithTx_rollback[of io fn d e] by simp
  next
    case (Inr a)
    then have "fn d = (Inr a, d')" using Pair by (simp add: WithTx_eq_Inr)
    then show ?thesis using Pair Inr assms by simp
  qed
qed

lemma pool_tx_eq_Inr:
  "pool_tx io outside inside d = (Inr a, d') \<longleftrightarrow> \<not> io_fails io ''begin'' \<and> \<not> io_fails io ''commit'' \<and>
     (\<exists>d1. outside d = (Inr a, d1) \<and> inside a d1 = (Inr (), d'))"
  by (auto simp: pool_tx_def split: prod.splits sum.splits if_splits)

section \<open>Rows with a unique key\<close>

text \<open>\<open>INSERT ... ON CONFLICT (key) DO UPDATE\<close>.\<close>

definition upsert_row :: "('r \<Rightarrow> 'k) \<Rightarrow> ('r \<Rightarrow> 'r) \<Rightarrow> 'r \<Rightarrow> 'r list \<Rightarrow> 'r list" where
  "upsert_row key upd new rows =
     (if list_ex (\<lambda>r. key r = key new) rows then map (\<lambda>r. if key r = key new then upd r else r) rows else rows @ [new])"

lemma upsert_row_keys:
  "(\<And>r. key (upd r) = key r) \<Longrightarrow> distinct (map key rows) \<Longrightarrow> distinct (map key (upsert_row key upd new rows))"
proof -
  assume k: "\<And>r. key (upd r) = key r" and d: "distinct (map key rows)"
  have "map key (map (\<lambda>r. if key r = key new then upd r else r) rows) = map key rows" by (simp add: k)
  then show ?thesis using d by (auto simp: upsert_row_def list_ex_iff simp del: map_map)
qed

lemma find_map_key: "(\<And>r. key (h r) = key r) \<Longrightarrow> find (\<lambda>r. key r = k) (map h rows) = map_option h (find (\<lambda>r. key r = k) rows)"
  by (induction rows) auto

lemma find_upsert_row:
  assumes "\<And>r. key (upd r) = key r"
  shows "find (\<lambda>r. key r = k) (upsert_row key upd new rows) =
    (if k = key new then Some (case find (\<lambda>r. key r = k) rows of None \<Rightarrow> new | Some r \<Rightarrow> upd r)
     else find (\<lambda>r. key r = k) rows)"
proof (cases "find (\<lambda>r. key r = key new) rows")
  case None
  then have none: "\<not> list_ex (\<lambda>r. key r = key new) rows" by (auto simp: find_None_iff list_ex_iff)
  then have u: "upsert_row key upd new rows = rows @ [new]" by (simp add: upsert_row_def)
  show ?thesis unfolding u find_append using None by (auto split: option.splits)
next
  case (Some r0)
  then have "list_ex (\<lambda>r. key r = key new) rows" by (auto simp: list_ex_iff dest!: find_SomeD)
  then have u: "upsert_row key upd new rows = map (\<lambda>r. if key r = key new then upd r else r) rows"
    by (simp add: upsert_row_def)
  have f: "find (\<lambda>r. key r = k) (upsert_row key upd new rows) =
      map_option (\<lambda>r. if key r = key new then upd r else r) (find (\<lambda>r. key r = k) rows)"
    unfolding u by (rule find_map_key) (simp add: assms)
  show ?thesis
  proof (cases "k = key new")
    case True
    then show ?thesis using f Some find_SomeD[OF Some] by simp
  next
    case False
    then show ?thesis using f by (cases "find (\<lambda>r. key r = k) rows") (auto dest!: find_SomeD)
  qed
qed

section \<open>The audit log\<close>

definition UnauthorizedName :: string where
  "UnauthorizedName = ''unauthorized''"

definition unknownActor :: string where
  "unknownActor = ''unknown''"

definition ActionCreated :: string where "ActionCreated = ''created''"
definition ActionUpdated :: string where "ActionUpdated = ''updated''"
definition ActionDeleted :: string where "ActionDeleted = ''deleted''"
definition ActionEnabled :: string where "ActionEnabled = ''enabled''"
definition ActionDisabled :: string where "ActionDisabled = ''disabled''"
definition ActionRedeploy :: string where "ActionRedeploy = ''redeploy''"
definition ActionUninstall :: string where "ActionUninstall = ''uninstall''"
definition ObjectTypeFeatureAssignment :: string where "ObjectTypeFeatureAssignment = ''assignment''"
definition ObjectTypeEnvironment :: string where "ObjectTypeEnvironment = ''environment''"
definition ObjectTypeEnvironmentValue :: string where "ObjectTypeEnvironmentValue = ''environment_value''"
definition ObjectTypeTenant :: string where "ObjectTypeTenant = ''tenant''"
definition ObjectTypeFeature :: string where "ObjectTypeFeature = ''feature''"
definition ObjectTypeConfiguration :: string where "ObjectTypeConfiguration = ''configuration''"

record CreateParams =
  ap_Action :: string
  ap_Description :: string
  ap_ObjectType :: string
  ap_ObjectID :: string
  ap_Feature :: string
  ap_EnvironmentID :: "uuid option"
  ap_Metadata :: "gval option"

text \<open>The email of the context, when a request set one.\<close>

definition GetEmail :: "string option \<Rightarrow> string" where
  "GetEmail email = (case email of None \<Rightarrow> UnauthorizedName | Some e \<Rightarrow> e)"

definition actorOrUnknown :: "string option \<Rightarrow> string" where
  "actorOrUnknown email = (if GetEmail email = UnauthorizedName then unknownActor else GetEmail email)"

definition audit_row :: "io \<Rightarrow> string option \<Rightarrow> CreateParams \<Rightarrow> AuditRow" where
  "audit_row io email p = \<lparr>au_actor = actorOrUnknown email, au_action = ap_Action p, au_description = ap_Description p,
     au_object_type = ap_ObjectType p, au_object_id = ap_ObjectID p, au_feature = ap_Feature p,
     au_environment_id = ap_EnvironmentID p, au_metadata = ap_Metadata p, au_created_at = io_now io\<rparr>"

definition audit_Create :: "io \<Rightarrow> string option \<Rightarrow> CreateParams \<Rightarrow> unit op" where
  "audit_Create io email p = execT io ''audit.Create'' (\<lambda>d. d \<lparr>audits := audits d @ [audit_row io email p]\<rparr>)"

lemma audit_Create_eq_Inr [simp]:
  "audit_Create io email p d = (Inr u, d') \<longleftrightarrow> \<not> io_fails io ''audit.Create'' \<and> d' = d \<lparr>audits := audits d @ [audit_row io email p]\<rparr>"
  by (simp add: audit_Create_def)

section \<open>Environments and tenants\<close>

definition environment_Get :: "io \<Rightarrow> uuid \<Rightarrow> db \<Rightarrow> err + Environment" where
  "environment_Get io envID d = one io ''GetEnvironment'' (find (\<lambda>e. e_ID e = envID) (environments d))"

definition environment_GetByName :: "io \<Rightarrow> uuid \<Rightarrow> string \<Rightarrow> db \<Rightarrow> err + Environment" where
  "environment_GetByName io tenantID name d =
     one io ''GetEnvironmentByName'' (find (\<lambda>e. (e_TenantID e, e_Name e) = (tenantID, name)) (environments d))"

definition GetTenant :: "io \<Rightarrow> uuid \<Rightarrow> db \<Rightarrow> err + Tenant" where
  "GetTenant io tenantID d = one io ''GetTenant'' (find (\<lambda>t. t_ID t = tenantID) (tenants d))"

definition GetTenantByName :: "io \<Rightarrow> string \<Rightarrow> db \<Rightarrow> err + Tenant" where
  "GetTenantByName io name d = one io ''GetTenantByName'' (find (\<lambda>t. t_Name t = name) (tenants d))"

definition GetLabels :: "io \<Rightarrow> uuid \<Rightarrow> db \<Rightarrow> err + Labels" where
  "GetLabels io envID d = one io ''GetEnvironmentLabels'' (map_option e_Labels (find (\<lambda>e. e_ID e = envID) (environments d)))"

definition ListTenantEnvironments :: "io \<Rightarrow> bool \<Rightarrow> db \<Rightarrow> err + (Environment \<times> string \<times> uuid) list" where
  "ListTenantEnvironments io onlyReconciled d = query (io_fails io) ''ListTenantEnvironments''
     (sort_key (\<lambda>(e, tenantName, tenantID). (tenantName, e_Name e))
       (concat (map (\<lambda>e. map (\<lambda>t. (e, t_Name t, t_ID t)) (filter (\<lambda>t. t_ID t = e_TenantID e) (tenants d)))
          (filter (\<lambda>e. \<not> onlyReconciled \<or> e_Reconcile e) (environments d)))))"

definition environment_List :: "io \<Rightarrow> uuid \<Rightarrow> db \<Rightarrow> err + Environment list" where
  "environment_List io tenantID d = query (io_fails io) ''ListEnvironments''
     (sort_key (\<lambda>e. (if e_Name e = ''management'' then 1 else 2 :: nat, e_Name e))
       (filter (\<lambda>e. e_TenantID e = tenantID) (environments d)))"

text \<open>Secret values are masked by the query itself unless the caller asks for them.\<close>

definition ListEnvironmentValuesForEnvironment :: "io \<Rightarrow> uuid \<Rightarrow> bool \<Rightarrow> db \<Rightarrow> err + EnvironmentValue list" where
  "ListEnvironmentValuesForEnvironment io envID showSensitive d = query (io_fails io) ''ListEnvironmentValuesForEnvironment''
     (map (\<lambda>v. if ev_Secret v \<and> \<not> showSensitive then v \<lparr>ev_Value := [CHR 0x22] @ ''*****'' @ [CHR 0x22]\<rparr> else v)
       (sort_key ev_Key (filter (\<lambda>v. ev_EnvironmentID v = envID) (environment_values d))))"

record EnvironmentCreate =
  ec_Name :: string
  ec_Description :: "string option"
  ec_TenantID :: uuid
  ec_Kind :: EnvironmentKind
  ec_Labels :: Labels

definition environment_kinds :: "string list" where
  "environment_kinds = [''tenant'', ''management'', ''onprem'', ''legacy'']"

definition CreateEnvironment :: "io \<Rightarrow> EnvironmentCreate \<Rightarrow> Environment op" where
  "CreateEnvironment io p d =
     (if io_fails io ''CreateEnvironment'' then (Inl (ErrQuery ''CreateEnvironment''), d)
      else if \<not> List.member environment_kinds (ec_Kind p) then (Inl (PgError ''22P02''), d)
      else if \<not> list_ex (\<lambda>t. t_ID t = ec_TenantID p) (tenants d) then (Inl (PgError ''23503''), d)
      else if list_ex (\<lambda>e. (e_TenantID e, e_Name e) = (ec_TenantID p, ec_Name p)) (environments d) then (Inl (PgError ''23505''), d)
      else let e = \<lparr>e_ID = io_diid io 0, e_Name = ec_Name p, e_Description = ec_Description p, e_Created = io_now io,
                 e_LastModified = io_now io, e_Kind = ec_Kind p, e_Reconcile = True, e_TenantID = ec_TenantID p,
                 e_Labels = ec_Labels p, e_OIDCIssuer = None, e_OIDCDiscoveryURL = None\<rparr>
           in (Inr e, d \<lparr>environments := environments d @ [e]\<rparr>))"

definition env_labels :: "EnvironmentCreate \<Rightarrow> string \<Rightarrow> Labels" where
  "env_labels p tenantName = gm_put ''tenant'' tenantName (gm_put ''name'' (ec_Name p) (ec_Labels p))"

definition environment_Create :: "io \<Rightarrow> string option \<Rightarrow> EnvironmentCreate \<Rightarrow> (Environment \<times> string) op" where
  "environment_Create io email p =
     pool_tx io
       (bindT (\<lambda>d. liftT (wrapE ''get tenant for labels'' (GetTenant io (ec_TenantID p) d)) d) (\<lambda>tenant.
        bindT (CreateEnvironment io (p \<lparr>ec_Labels := env_labels p (t_Name tenant)\<rparr>)) (\<lambda>ret.
        returnT (ret, t_Name tenant))))
       (\<lambda>(ret, tenantName). audit_Create io email \<lparr>ap_Action = ActionCreated, ap_Description = [], ap_ObjectType = ObjectTypeEnvironment,
          ap_ObjectID = tenantName @ ''/'' @ ec_Name p, ap_Feature = [], ap_EnvironmentID = None, ap_Metadata = None\<rparr>)"

record TenantCreate =
  tc_Name :: string
  tc_Description :: "string option"

definition CreateTenant :: "io \<Rightarrow> string option \<Rightarrow> TenantCreate \<Rightarrow> Tenant op" where
  "CreateTenant io email p =
     pool_tx io
       (\<lambda>d. if io_fails io ''CreateTenant'' then (Inl (ErrQuery ''CreateTenant''), d)
            else if list_ex (\<lambda>t. t_Name t = tc_Name p) (tenants d) then (Inl (PgError ''23505''), d)
            else let t = \<lparr>t_ID = io_diid io 0, t_Name = tc_Name p, t_Description = tc_Description p, t_Created = io_now io,
                       t_LastModified = io_now io, t_Ci = False\<rparr>
                 in (Inr t, d \<lparr>tenants := tenants d @ [t]\<rparr>))
       (\<lambda>t. audit_Create io email \<lparr>ap_Action = ActionCreated, ap_Description = [], ap_ObjectType = ObjectTypeTenant,
          ap_ObjectID = tc_Name p, ap_Feature = [], ap_EnvironmentID = None, ap_Metadata = None\<rparr>)"

text \<open>An update of an environment also sets its modification time, by a trigger.\<close>

definition SetEnvironmentLabels :: "gotime \<Rightarrow> uuid \<Rightarrow> Labels \<Rightarrow> db \<Rightarrow> db" where
  "SetEnvironmentLabels now envID labels d =
     d \<lparr>environments := map (\<lambda>e. if e_ID e = envID then e \<lparr>e_LastModified := now, e_Labels := labels\<rparr> else e) (environments d)\<rparr>"

definition maps_Copy :: "('k::linorder, 'v) gomap \<Rightarrow> ('k, 'v) gomap \<Rightarrow> ('k, 'v) gomap" where
  "maps_Copy dst src = fold (\<lambda>(k, v) m. gm_put k v m) src dst"

text \<open>A failure to read the existing labels is taken as no labels.\<close>

definition SetLabels :: "io \<Rightarrow> string option \<Rightarrow> uuid \<Rightarrow> Labels \<Rightarrow> unit op" where
  "SetLabels io email envID labels d =
     (let existing = (case GetLabels io envID d of Inl e \<Rightarrow> [] | Inr l \<Rightarrow> l);
          lbls = maps_Copy (maps_Copy [] existing) labels
      in bindT (execT io ''SetEnvironmentLabels'' (SetEnvironmentLabels (io_now io) envID lbls)) (\<lambda>u.
         audit_Create io email \<lparr>ap_Action = ActionUpdated, ap_Description = [], ap_ObjectType = ObjectTypeEnvironment,
           ap_ObjectID = ''labels'', ap_Feature = [], ap_EnvironmentID = Some envID,
           ap_Metadata = Some (GSMap labels)\<rparr>) d)"

definition ev_key :: "EnvironmentValue \<Rightarrow> uuid \<times> string" where
  "ev_key v = (ev_EnvironmentID v, ev_Key v)"

definition SetEnvironmentValue_sql :: "io \<Rightarrow> EnvironmentValue \<Rightarrow> unit op" where
  "SetEnvironmentValue_sql io v d =
     (if io_fails io ''SetEnvironmentValue'' then (Inl (ErrQuery ''SetEnvironmentValue''), d)
      else if \<not> list_ex (\<lambda>e. e_ID e = ev_EnvironmentID v) (environments d) then (Inl (PgError ''23503''), d)
      else case io_jsonb io (ev_Value v) of
        None \<Rightarrow> (Inl (PgError ''22P02''), d)
      | Some j \<Rightarrow> (Inr (), d \<lparr>environment_values :=
            upsert_row ev_key (\<lambda>r. r \<lparr>ev_Value := j, ev_Secret := ev_Secret v\<rparr>) (v \<lparr>ev_Value := j\<rparr>) (environment_values d)\<rparr>))"

definition SetEnvironmentValue :: "io \<Rightarrow> string option \<Rightarrow> uuid \<Rightarrow> string \<Rightarrow> string \<Rightarrow> bool \<Rightarrow> unit op" where
  "SetEnvironmentValue io email envID key val secret =
     pool_tx io
       (wrapT ''failed to store environment value'' (SetEnvironmentValue_sql io
          \<lparr>ev_EnvironmentID = envID, ev_Key = key, ev_Value = val, ev_Secret = secret\<rparr>))
       (\<lambda>u. audit_Create io email \<lparr>ap_Action = ActionUpdated, ap_Description = [], ap_ObjectType = ObjectTypeEnvironmentValue,
          ap_ObjectID = key, ap_Feature = [], ap_EnvironmentID = Some envID, ap_Metadata = Some (GMap [(''secret'', GBool secret)])\<rparr>)"

definition DeleteEnvironmentValue :: "io \<Rightarrow> string option \<Rightarrow> uuid \<Rightarrow> string \<Rightarrow> unit op" where
  "DeleteEnvironmentValue io email envID key =
     pool_tx io
       (wrapT ''failed to delete environment value'' (execT io ''DeleteEnvironmentValue''
          (\<lambda>d. d \<lparr>environment_values := filter (\<lambda>v. ev_key v \<noteq> (envID, key)) (environment_values d)\<rparr>)))
       (\<lambda>u. audit_Create io email \<lparr>ap_Action = ActionDeleted, ap_Description = [], ap_ObjectType = ObjectTypeEnvironmentValue,
          ap_ObjectID = key, ap_Feature = [], ap_EnvironmentID = Some envID, ap_Metadata = None\<rparr>)"

section \<open>What the operations leave\<close>

lemma environment_Create_Inr:
  assumes "environment_Create io email p d = (Inr (e, tname), d')"
  shows "\<exists>t. find (\<lambda>t. t_ID t = ec_TenantID p) (tenants d) = Some t \<and> t_Name t = tname \<and>
    environments d' = environments d @ [e] \<and> tenants d' = tenants d \<and> deploy_log d' = deploy_log d \<and>
    e = \<lparr>e_ID = io_diid io 0, e_Name = ec_Name p, e_Description = ec_Description p, e_Created = io_now io,
         e_LastModified = io_now io, e_Kind = ec_Kind p, e_Reconcile = True, e_TenantID = ec_TenantID p,
         e_Labels = env_labels p tname, e_OIDCIssuer = None, e_OIDCDiscoveryURL = None\<rparr> \<and>
    \<not> list_ex (\<lambda>e. (e_TenantID e, e_Name e) = (ec_TenantID p, ec_Name p)) (environments d) \<and>
    d' = d \<lparr>environments := environments d @ [e], audits := audits d' \<rparr>"
  using assms
  by (auto simp: environment_Create_def pool_tx_eq_Inr bindT_eq_Inr GetTenant_def CreateEnvironment_def Let_def
      split: if_splits)

text \<open>
  Creating an environment: on success the environment is found under its tenant and name, is
  reconciled, and carries the labels \<open>name\<close> and \<open>tenant\<close> with its name and its tenant's name, whatever
  labels were asked for under these keys; the other labels are the ones asked for; one audit row is
  written, and with a fresh identifier the database stays well formed.
\<close>

theorem environment_Create_result:
  assumes "environment_Create io email p d = (Inr (e, tname), d')" and "\<not> io_fails io ''GetEnvironmentByName''"
    and "db_ok d" and "io_diid io 0 \<notin> e_ID ` set (environments d)"
  shows "environment_GetByName io (ec_TenantID p) (ec_Name p) d' = Inr e \<and> e_Reconcile e \<and>
    map_of (e_Labels e) ''name'' = Some (ec_Name p) \<and> map_of (e_Labels e) ''tenant'' = Some tname \<and>
    (\<forall>k. k \<noteq> ''name'' \<and> k \<noteq> ''tenant'' \<longrightarrow> map_of (e_Labels e) k = map_of (ec_Labels p) k) \<and>
    length (audits d') = Suc (length (audits d)) \<and> db_ok d'"
proof -
  obtain t where envs: "environments d' = environments d @ [e]"
    and e: "e = \<lparr>e_ID = io_diid io 0, e_Name = ec_Name p, e_Description = ec_Description p, e_Created = io_now io,
         e_LastModified = io_now io, e_Kind = ec_Kind p, e_Reconcile = True, e_TenantID = ec_TenantID p,
         e_Labels = env_labels p tname, e_OIDCIssuer = None, e_OIDCDiscoveryURL = None\<rparr>"
    and fresh: "\<not> list_ex (\<lambda>e. (e_TenantID e, e_Name e) = (ec_TenantID p, ec_Name p)) (environments d)"
    and d': "d' = d \<lparr>environments := environments d @ [e], audits := audits d' \<rparr>"
    using environment_Create_Inr[OF assms(1)] by blast
  have "find (\<lambda>e. (e_TenantID e, e_Name e) = (ec_TenantID p, ec_Name p)) (environments d) = None"
    using fresh by (auto simp: find_None_iff list_ex_iff)
  then have "environment_GetByName io (ec_TenantID p) (ec_Name p) d' = Inr e"
    using assms(2) envs e by (simp add: environment_GetByName_def find_append)
  moreover have "length (audits d') = Suc (length (audits d))"
    using assms(1) by (auto simp: environment_Create_def pool_tx_eq_Inr bindT_eq_Inr CreateEnvironment_def Let_def split: if_splits)
  moreover have "db_ok d'"
  proof -
    have "db_ok (d \<lparr>environments := environments d @ [e], audits := audits d'\<rparr>)"
      using assms(3,4) e by (auto simp: db_ok_def)
    then show ?thesis using d' by simp
  qed
  ultimately show ?thesis using e by (simp add: env_labels_def)
qed

definition store_io :: io where
  "store_io = \<lparr>io_now = 1000, io_fails = \<lambda>_. False, io_accepts = \<lambda>_ _. True, io_diid = \<lambda>n. 50 + n, io_jsonb = Some\<rparr>"

definition example_create :: EnvironmentCreate where
  "example_create = \<lparr>ec_Name = ''dev'', ec_Description = None, ec_TenantID = 9, ec_Kind = EnvironmentKindTenant,
     ec_Labels = [(''name'', ''x''), (''zone'', ''north'')]\<rparr>"

lemma store_io_simps [simp]:
  "io_now store_io = 1000" "io_fails store_io q = False" "io_diid store_io n = 50 + n" "io_jsonb store_io v = Some v"
  by (simp_all add: store_io_def)

lemma example_Create: "\<exists>e d'. environment_Create store_io None example_create example_db = (Inr (e, ''acme''), d')"
  by (simp add: environment_Create_def pool_tx_def bindT_def GetTenant_def CreateEnvironment_def one_def wrapE_def liftT_def
      returnT_def audit_Create_def execT_def example_create_def example_db_def environment_kinds_def EnvironmentKindTenant_def Let_def)

theorem environment_Create_result_witness:
  "\<exists>e d'. environment_Create store_io None example_create example_db = (Inr (e, ''acme''), d') \<and>
     map_of (e_Labels e) ''name'' = Some ''dev'' \<and> map_of (e_Labels e) ''tenant'' = Some ''acme'' \<and> db_ok d'"
proof -
  obtain e d' where c: "environment_Create store_io None example_create example_db = (Inr (e, ''acme''), d')"
    using example_Create by blast
  show ?thesis
    using environment_Create_result[OF c _ example_db_ok] c by (simp add: example_db_def example_create_def)
qed

lemma map_of_maps_Copy: "gm_ok src \<Longrightarrow> map_of (maps_Copy dst src) k = (case map_of src k of None \<Rightarrow> map_of dst k | Some v \<Rightarrow> Some v)"
proof -
  assume ok: "gm_ok src"
  have "map_of (fold (\<lambda>(k, v) m. gm_put k v m) src dst) k = (case map_of (rev src) k of None \<Rightarrow> map_of dst k | Some v \<Rightarrow> Some v)"
    by (induction src arbitrary: dst) (auto simp: map_of_append map_add_def split: option.splits)
  moreover have "map_of (rev src) = map_of src" 
    using gm_ok_distinct[OF ok] map_of_inject_set[of "rev src" src] by (simp add: rev_map[symmetric])
  ultimately show ?thesis by (simp add: maps_Copy_def)
qed

text \<open>
  Labels are merged: setting labels on an environment overwrites the labels named and keeps the
  others.
\<close>

theorem SetLabels_merge:
  assumes "SetLabels io email envID labels d = (Inr (), d')" and "GetLabels io envID d = Inr existing"
    and "gm_ok existing" and "gm_ok labels"
  shows "\<exists>merged. GetLabels io envID d' = Inr merged \<and>
    (\<forall>k. map_of merged k = (case map_of labels k of None \<Rightarrow> map_of existing k | Some v \<Rightarrow> Some v))"
proof -
  let ?m = "maps_Copy (maps_Copy [] existing) labels"
  have ok: "\<not> io_fails io ''GetEnvironmentLabels''" 
    using assms(2) by (auto simp: GetLabels_def)
  obtain e where e: "find (\<lambda>e. e_ID e = envID) (environments d) = Some e" using assms(2) by (auto simp: GetLabels_def)
  have "environments d' = map (\<lambda>e. if e_ID e = envID then e \<lparr>e_LastModified := io_now io, e_Labels := ?m\<rparr> else e) (environments d)"
    using assms(1,2) by (auto simp: SetLabels_def Let_def bindT_eq_Inr SetEnvironmentLabels_def)
  then have "find (\<lambda>e. e_ID e = envID) (environments d') =
      map_option (\<lambda>e. if e_ID e = envID then e \<lparr>e_LastModified := io_now io, e_Labels := ?m\<rparr> else e) (find (\<lambda>e. e_ID e = envID) (environments d))"
    by (simp only:) (rule find_map_key, simp)
  then have "GetLabels io envID d' = Inr ?m"
    using ok e find_SomeD[OF e] by (simp add: GetLabels_def one_def)
  then show ?thesis
    using map_of_maps_Copy[OF assms(3), of "[]"] map_of_maps_Copy[OF assms(4)] by (auto split: option.splits)
qed

lemma SetLabels_example: "\<exists>d'. SetLabels store_io None 1 [(''zone'', ''north'')] example_db = (Inr (), d')"
  by (simp add: SetLabels_def Let_def bindT_def execT_def audit_Create_def)

theorem SetLabels_merge_witness:
  "\<exists>d' merged. SetLabels store_io None 1 [(''zone'', ''north'')] example_db = (Inr (), d') \<and>
     GetLabels store_io 1 d' = Inr merged \<and> map_of merged ''zone'' = Some ''north'' \<and> map_of merged ''tenant'' = Some ''acme''"
proof -
  obtain d' where d': "SetLabels store_io None 1 [(''zone'', ''north'')] example_db = (Inr (), d')"
    using SetLabels_example by blast
  have "GetLabels store_io 1 example_db = Inr [(''name'', ''prod''), (''tenant'', ''acme'')]"
    by (simp add: GetLabels_def example_db_def)
  from SetLabels_merge[OF d' this] obtain merged where "GetLabels store_io 1 d' = Inr merged"
    and "\<forall>k. map_of merged k = (case map_of [(''zone'', ''north'')] k of
        None \<Rightarrow> map_of [(''name'', ''prod''), (''tenant'', ''acme'')] k | Some v \<Rightarrow> Some v)"
    by (auto simp: gm_ok_Cons)
  then show ?thesis using d' by simp
qed

subsection \<open>Environment values\<close>

lemma SetEnvironmentValue_sql_find:
  assumes "SetEnvironmentValue_sql io v d = (Inr (), d')"
  shows "\<exists>j. io_jsonb io (ev_Value v) = Some j \<and> (\<forall>k. find (\<lambda>r. ev_key r = k) (environment_values d') =
    (if k = ev_key v then Some (v \<lparr>ev_Value := j\<rparr>) else find (\<lambda>r. ev_key r = k) (environment_values d)))"
proof -
  obtain j where j: "io_jsonb io (ev_Value v) = Some j"
    and d': "environment_values d' = upsert_row ev_key (\<lambda>r. r \<lparr>ev_Value := j, ev_Secret := ev_Secret v\<rparr>) (v \<lparr>ev_Value := j\<rparr>) (environment_values d)"
    using assms by (auto simp: SetEnvironmentValue_sql_def split: if_splits option.splits)
  have key: "ev_key (r \<lparr>ev_Value := j, ev_Secret := s\<rparr>) = ev_key r" "ev_key (r \<lparr>ev_Value := j\<rparr>) = ev_key r" for r s
    by (simp_all add: ev_key_def)
  have same: "r \<lparr>ev_Value := j, ev_Secret := ev_Secret v\<rparr> = v \<lparr>ev_Value := j\<rparr>" if "ev_key r = ev_key v" for r
    using that by (cases r; cases v) (simp add: ev_key_def)
  have "find (\<lambda>r. ev_key r = k) (environment_values d') =
    (if k = ev_key v then Some (v \<lparr>ev_Value := j\<rparr>) else find (\<lambda>r. ev_key r = k) (environment_values d))" for k
    unfolding d' find_upsert_row[of ev_key, OF key(1)] key(2)
    by (auto simp: same split: option.splits dest!: find_SomeD)
  then show ?thesis using j by blast
qed

text \<open>
  Environment values: storing a value makes it the value of its key in its environment and leaves
  all other values; listing the values of an environment for display never returns a stored secret.
\<close>

theorem environment_values_correct:
  assumes "SetEnvironmentValue io email envID key val secret d = (Inr (), d')"
  shows "(\<exists>j. io_jsonb io val = Some j \<and> (\<forall>k. find (\<lambda>r. ev_key r = k) (environment_values d') =
      (if k = (envID, key) then Some \<lparr>ev_EnvironmentID = envID, ev_Key = key, ev_Value = j, ev_Secret = secret\<rparr>
       else find (\<lambda>r. ev_key r = k) (environment_values d)))) \<and>
    (\<forall>vs v. ListEnvironmentValuesForEnvironment io envID False d' = Inr vs \<and> v \<in> set vs \<and> ev_Secret v \<longrightarrow>
       ev_Value v = [CHR 0x22] @ ''*****'' @ [CHR 0x22])"
proof
  obtain d1 where d1: "SetEnvironmentValue_sql io \<lparr>ev_EnvironmentID = envID, ev_Key = key, ev_Value = val, ev_Secret = secret\<rparr> d = (Inr (), d1)"
    and "environment_values d' = environment_values d1"
    using assms by (auto simp: SetEnvironmentValue_def pool_tx_eq_Inr)
  moreover have "ev_key \<lparr>ev_EnvironmentID = envID, ev_Key = key, ev_Value = val, ev_Secret = secret\<rparr> = (envID, key)"
    by (simp add: ev_key_def)
  ultimately show "\<exists>j. io_jsonb io val = Some j \<and> (\<forall>k. find (\<lambda>r. ev_key r = k) (environment_values d') =
      (if k = (envID, key) then Some \<lparr>ev_EnvironmentID = envID, ev_Key = key, ev_Value = j, ev_Secret = secret\<rparr>
       else find (\<lambda>r. ev_key r = k) (environment_values d)))"
    using SetEnvironmentValue_sql_find[OF d1] by auto
qed (auto simp: ListEnvironmentValuesForEnvironment_def split: if_splits)

theorem environment_values_correct_witness:
  "\<exists>d'. SetEnvironmentValue store_io None 1 ''token'' ''t'' True example_db = (Inr (), d') \<and>
     find (\<lambda>r. ev_key r = (1, ''token'')) (environment_values d') =
       Some \<lparr>ev_EnvironmentID = 1, ev_Key = ''token'', ev_Value = ''t'', ev_Secret = True\<rparr>"
proof -
  obtain d' where d': "SetEnvironmentValue store_io None 1 ''token'' ''t'' True example_db = (Inr (), d')"
    by (simp add: SetEnvironmentValue_def pool_tx_def wrapT_def SetEnvironmentValue_sql_def audit_Create_def execT_def example_db_def)
  show ?thesis using environment_values_correct[OF d'] d' by simp
qed

text \<open>
  The transaction around an environment write covers the audit row only: when writing the audit
  row fails, \<open>SetEnvironmentValue\<close> returns an error and yet the value is stored, unaudited.
\<close>

theorem SetEnvironmentValue_not_atomic:
  assumes "\<not> io_fails io ''begin''" and "\<not> io_fails io ''SetEnvironmentValue''" and "io_jsonb io val = Some j"
    and "io_fails io ''audit.Create''" and "e \<in> set (environments d)" and "e_ID e = envID"
  shows "fst (SetEnvironmentValue io email envID key val secret d) = Inl (ErrQuery ''audit.Create'') \<and>
    find (\<lambda>r. ev_key r = (envID, key)) (environment_values (snd (SetEnvironmentValue io email envID key val secret d))) =
      Some \<lparr>ev_EnvironmentID = envID, ev_Key = key, ev_Value = j, ev_Secret = secret\<rparr> \<and>
    audits (snd (SetEnvironmentValue io email envID key val secret d)) = audits d"
proof -
  let ?v = "\<lparr>ev_EnvironmentID = envID, ev_Key = key, ev_Value = val, ev_Secret = secret\<rparr>"
  obtain d1 where d1: "SetEnvironmentValue_sql io ?v d = (Inr (), d1)" and a: "audits d1 = audits d"
  proof -
    have "list_ex (\<lambda>e. e_ID e = envID) (environments d)" using assms(5,6) by (auto simp: list_ex_iff)
    then show ?thesis using that assms(2,3) by (simp add: SetEnvironmentValue_sql_def)
  qed
  have "SetEnvironmentValue io email envID key val secret d = (Inl (ErrQuery ''audit.Create''), d1)"
    using assms(1,4) d1 by (simp add: SetEnvironmentValue_def pool_tx_def wrapT_def audit_Create_def execT_def)
  then show ?thesis
    using SetEnvironmentValue_sql_find[OF d1] assms(3) a by (simp add: ev_key_def)
qed

theorem SetEnvironmentValue_not_atomic_witness:
  "fst (SetEnvironmentValue (store_io \<lparr>io_fails := \<lambda>q. q = ''audit.Create''\<rparr>) None 1 ''token'' ''t'' True example_db)
   = Inl (ErrQuery ''audit.Create'')"
proof -
  have "hd (environments example_db) \<in> set (environments example_db)" "e_ID (hd (environments example_db)) = 1"
    by (simp_all add: example_db_def)
  then show ?thesis
    using SetEnvironmentValue_not_atomic[of "store_io \<lparr>io_fails := \<lambda>q. q = ''audit.Create''\<rparr>" "''t''" "''t''"] by simp
qed

end
