(* ===== verification/Config_Store.thy ===== *)
theory Config_Store
  imports Store
begin

text \<open>
  Configuration rows and disabled features: \<open>internal/feature/queries_configurations.go\<close> and
  \<open>internal/feature/queries_disabled_features.go\<close>, with their statements.

  \<open>CreateEnvConfig\<close> and \<open>CreateGlobalConfig\<close> run their statements one by one; the other writes are
  transactions. The value of a row is the text that PostgreSQL gives back for the JSONB column.
\<close>

section \<open>Rows\<close>

definition g_key :: "ConfigurationsGlobal \<Rightarrow> string \<times> string" where
  "g_key r = (g_Feature r, g_Key r)"

definition c_key :: "ConfigurationsEnvironment \<Rightarrow> uuid \<times> string \<times> string" where
  "c_key r = (c_EnvironmentID r, c_Feature r, c_Key r)"

definition ConfigSourceGlobal :: string where "ConfigSourceGlobal = ''GLOBAL''"
definition ConfigSourceEnv :: string where "ConfigSourceEnv = ''ENV''"

record Configuration =
  conf_ID :: uuid
  conf_Key :: string
  conf_Content :: string
  conf_Created :: gotime
  conf_Source :: string

record NewConfiguration =
  nc_EnvironmentID :: "uuid option"
  nc_Feature :: string
  nc_Description :: "string option"
  nc_Key :: string
  nc_Value :: string
  nc_Secret :: bool

record UpdateConfiguration =
  uc_Description :: "string option"
  uc_Value :: string

definition environmentConfigurationFromSQL :: "ConfigurationsEnvironment \<Rightarrow> Configuration" where
  "environmentConfigurationFromSQL c = \<lparr>conf_ID = c_ID c, conf_Key = c_Key c, conf_Content = c_Value c,
     conf_Created = c_Created c, conf_Source = ConfigSourceEnv\<rparr>"

definition globalConfigFromSQL :: "ConfigurationsGlobal \<Rightarrow> Configuration" where
  "globalConfigFromSQL c = \<lparr>conf_ID = g_ID c, conf_Key = g_Key c, conf_Content = g_Value c,
     conf_Created = g_Created c, conf_Source = ConfigSourceGlobal\<rparr>"

section \<open>Reading\<close>

definition ListGlobalConfigByFeature :: "string \<Rightarrow> db \<Rightarrow> ConfigurationsGlobal list" where
  "ListGlobalConfigByFeature feature d = sort_key g_Key (filter (\<lambda>r. g_Feature r = feature) (configurations_global d))"

definition ListEnvConfigByFeature :: "string \<Rightarrow> uuid \<Rightarrow> db \<Rightarrow> ConfigurationsEnvironment list" where
  "ListEnvConfigByFeature feature envID d =
     sort_key c_Key (filter (\<lambda>r. c_Feature r = feature \<and> c_EnvironmentID r = envID) (configurations_environment d))"

definition GetEnvConfig :: "io \<Rightarrow> string \<Rightarrow> uuid \<Rightarrow> db \<Rightarrow> err + Configuration list" where
  "GetEnvConfig io feature envID d =
     bindE (query (io_fails io) ''ListGlobalConfigByFeature'' (ListGlobalConfigByFeature feature d)) (\<lambda>globalConfigs.
     bindE (query (io_fails io) ''ListEnvConfigByFeature'' (ListEnvConfigByFeature feature envID d)) (\<lambda>envConfigs.
     Inr (map (\<lambda>conf. \<lparr>conf_ID = m_ID conf, conf_Key = m_Key conf, conf_Content = m_Value conf, conf_Created = m_Created conf,
            conf_Source = (if m_EnvironmentID conf \<noteq> None then ConfigSourceEnv else ConfigSourceGlobal)\<rparr>)
          (MergeConfigs globalConfigs envConfigs []))))"

definition GetGlobalConfig :: "io \<Rightarrow> string \<Rightarrow> db \<Rightarrow> err + Configuration list" where
  "GetGlobalConfig io feature d =
     bindE (query (io_fails io) ''ListGlobalConfigByFeature'' (ListGlobalConfigByFeature feature d)) (\<lambda>config.
     Inr (map globalConfigFromSQL config))"

definition ListAllEnvConfigByFeature :: "io \<Rightarrow> string \<Rightarrow> db \<Rightarrow> err + (uuid \<times> string \<times> string) list" where
  "ListAllEnvConfigByFeature io feature d = query (io_fails io) ''ListAllEnvConfigByFeature''
     (map (\<lambda>r. (c_EnvironmentID r, c_Key r, c_Value r))
       (sort_key (\<lambda>r. (c_EnvironmentID r, c_Key r)) (filter (\<lambda>r. c_Feature r = feature) (configurations_environment d))))"

definition GetGlobalConfigByKey :: "io \<Rightarrow> string \<Rightarrow> string \<Rightarrow> db \<Rightarrow> err + ConfigurationsGlobal" where
  "GetGlobalConfigByKey io feature key d = one io ''GetGlobalConfigByKey'' (find (\<lambda>r. g_key r = (feature, key)) (configurations_global d))"

definition GetEnvConfigByKey :: "io \<Rightarrow> uuid \<Rightarrow> string \<Rightarrow> string \<Rightarrow> db \<Rightarrow> err + ConfigurationsEnvironment" where
  "GetEnvConfigByKey io envID feature key d =
     one io ''GetEnvConfigByKey'' (find (\<lambda>r. c_key r = (envID, feature, key)) (configurations_environment d))"

definition GetGlobalConfigByID :: "io \<Rightarrow> uuid \<Rightarrow> db \<Rightarrow> err + ConfigurationsGlobal" where
  "GetGlobalConfigByID io cid d = one io ''GetGlobalConfigByID'' (find (\<lambda>r. g_ID r = cid) (configurations_global d))"

definition GetEnvConfigByID :: "io \<Rightarrow> uuid \<Rightarrow> db \<Rightarrow> err + ConfigurationsEnvironment" where
  "GetEnvConfigByID io cid d = one io ''GetEnvConfigByID'' (find (\<lambda>r. c_ID r = cid) (configurations_environment d))"

text \<open>A query whose missing row is not an error.\<close>

definition optional_row :: "err + 'a \<Rightarrow> err + 'a option" where
  "optional_row r = (case r of Inr a \<Rightarrow> Inr (Some a) | Inl e \<Rightarrow> if errors_Is e ErrNoRows then Inr None else Inl e)"

section \<open>The audit metadata of a change\<close>

record configAuditInfo =
  ci_feature :: string
  ci_key :: string
  ci_envID :: "uuid option"
  ci_secret :: bool
  ci_oldVal :: "string option"
  ci_newVal :: "string option"

text \<open>A \<open>nil\<close> map inside the metadata interface is not a \<open>nil\<close> interface: it is stored as JSON null.\<close>

definition configChangeMetadata :: "configAuditInfo \<Rightarrow> gval" where
  "configChangeMetadata info =
     (if ci_secret info then GSMap [(''secret'', ''true'')]
      else let m = (case ci_oldVal info of None \<Rightarrow> [] | Some v \<Rightarrow> gm_put ''old'' v []);
               m' = (case ci_newVal info of None \<Rightarrow> m | Some v \<Rightarrow> gm_put ''new'' v m)
           in if length m' = 0 then GNil else GSMap m')"

definition writeConfigUpsertAudit :: "io \<Rightarrow> string option \<Rightarrow> bool \<Rightarrow> configAuditInfo \<Rightarrow> unit op" where
  "writeConfigUpsertAudit io email hadExisting info =
     audit_Create io email \<lparr>ap_Action = (if hadExisting then ActionUpdated else ActionCreated), ap_Description = [],
       ap_ObjectType = ObjectTypeConfiguration, ap_ObjectID = ci_feature info @ ''/'' @ ci_key info, ap_Feature = ci_feature info,
       ap_EnvironmentID = ci_envID info, ap_Metadata = Some (configChangeMetadata info)\<rparr>"

section \<open>Creating and replacing rows\<close>

definition UpsertGlobalConfig :: "io \<Rightarrow> NewConfiguration \<Rightarrow> ConfigurationsGlobal op" where
  "UpsertGlobalConfig io c d =
     (if io_fails io ''UpsertGlobalConfig'' then (Inl (ErrQuery ''UpsertGlobalConfig''), d)
      else case io_jsonb io (nc_Value c) of
        None \<Rightarrow> (Inl (PgError ''22P02''), d)
      | Some j \<Rightarrow>
          let new = \<lparr>g_ID = io_diid io 0, g_Feature = nc_Feature c, g_Key = nc_Key c, g_Value = j, g_Description = nc_Description c,
                g_Secret = nc_Secret c, g_Created = io_now io\<rparr>;
              upd = (\<lambda>r. r \<lparr>g_Value := j, g_Description := nc_Description c\<rparr>)
          in (Inr (case find (\<lambda>r. g_key r = g_key new) (configurations_global d) of None \<Rightarrow> new | Some r \<Rightarrow> upd r),
              d \<lparr>configurations_global := upsert_row g_key upd new (configurations_global d)\<rparr>))"

definition UpsertEnvConfig :: "io \<Rightarrow> uuid \<Rightarrow> NewConfiguration \<Rightarrow> ConfigurationsEnvironment op" where
  "UpsertEnvConfig io envID c d =
     (if io_fails io ''UpsertEnvConfig'' then (Inl (ErrQuery ''UpsertEnvConfig''), d)
      else case io_jsonb io (nc_Value c) of
        None \<Rightarrow> (Inl (PgError ''22P02''), d)
      | Some j \<Rightarrow>
          let new = \<lparr>c_ID = io_diid io 0, c_Feature = nc_Feature c, c_Key = nc_Key c, c_Value = j, c_Description = nc_Description c,
                c_Secret = nc_Secret c, c_Created = io_now io, c_EnvironmentID = envID\<rparr>;
              upd = (\<lambda>r. r \<lparr>c_Value := j, c_Description := nc_Description c\<rparr>)
          in if \<not> list_ex (\<lambda>e. e_ID e = envID) (environments d) then (Inl (PgError ''23503''), d)
             else (Inr (case find (\<lambda>r. c_key r = c_key new) (configurations_environment d) of None \<Rightarrow> new | Some r \<Rightarrow> upd r),
                   d \<lparr>configurations_environment := upsert_row c_key upd new (configurations_environment d)\<rparr>))"

definition CreateEnvConfig :: "externals \<Rightarrow> io \<Rightarrow> string option \<Rightarrow> NewConfiguration \<Rightarrow> Configuration op" where
  "CreateEnvConfig x io email c d =
     (case x_marshal x (GRaw (nc_Value c)) of
        Inl e \<Rightarrow> (Inl e, d)
      | Inr v \<Rightarrow> (case nc_EnvironmentID c of
        None \<Rightarrow> (Inl (Panic ''invalid memory address or nil pointer dereference''), d)
      | Some envID \<Rightarrow> (case optional_row (GetEnvConfigByKey io envID (nc_Feature c) (nc_Key c) d) of
        Inl e \<Rightarrow> (Inl e, d)
      | Inr existing \<Rightarrow>
          let previousVal = (case existing of
                Some r \<Rightarrow> Some (c_Value r)
              | None \<Rightarrow> (case GetGlobalConfigByKey io (nc_Feature c) (nc_Key c) d of Inr g \<Rightarrow> Some (g_Value g) | Inl _ \<Rightarrow> None));
              write = bindT (UpsertEnvConfig io envID (c \<lparr>nc_Value := v\<rparr>)) (\<lambda>config.
                bindT (writeConfigUpsertAudit io email (existing \<noteq> None)
                  \<lparr>ci_feature = c_Feature config, ci_key = c_Key config, ci_envID = Some (c_EnvironmentID config),
                   ci_secret = nc_Secret c, ci_oldVal = previousVal, ci_newVal = Some v\<rparr>) (\<lambda>u.
                returnT (environmentConfigurationFromSQL config)))
          in case existing of
               Some r \<Rightarrow> if c_Value r = v \<and> c_Description r = nc_Description c \<and> c_Secret r = nc_Secret c
                         then (Inr (environmentConfigurationFromSQL r), d) else write d
             | None \<Rightarrow> write d)))"

definition CreateGlobalConfig :: "externals \<Rightarrow> io \<Rightarrow> string option \<Rightarrow> NewConfiguration \<Rightarrow> Configuration op" where
  "CreateGlobalConfig x io email c d =
     (case x_marshal x (GRaw (nc_Value c)) of
        Inl e \<Rightarrow> (Inl e, d)
      | Inr v \<Rightarrow> (case optional_row (GetGlobalConfigByKey io (nc_Feature c) (nc_Key c) d) of
        Inl e \<Rightarrow> (Inl e, d)
      | Inr existing \<Rightarrow>
          let write = bindT (UpsertGlobalConfig io (c \<lparr>nc_Value := v\<rparr>)) (\<lambda>config.
                bindT (writeConfigUpsertAudit io email (existing \<noteq> None)
                  \<lparr>ci_feature = g_Feature config, ci_key = g_Key config, ci_envID = None,
                   ci_secret = nc_Secret c, ci_oldVal = map_option g_Value existing, ci_newVal = Some v\<rparr>) (\<lambda>u.
                returnT (globalConfigFromSQL config)))
          in case existing of
               Some r \<Rightarrow> if g_Value r = v \<and> g_Description r = nc_Description c \<and> g_Secret r = nc_Secret c
                         then (Inr (globalConfigFromSQL r), d) else write d
             | None \<Rightarrow> write d))"

section \<open>Updating and deleting rows\<close>

definition UpdateGlobalConfig :: "io \<Rightarrow> uuid \<Rightarrow> UpdateConfiguration \<Rightarrow> ConfigurationsGlobal op" where
  "UpdateGlobalConfig io cid c d =
     (if io_fails io ''UpdateGlobalConfig'' then (Inl (ErrQuery ''UpdateGlobalConfig''), d)
      else case io_jsonb io (uc_Value c) of
        None \<Rightarrow> (Inl (PgError ''22P02''), d)
      | Some j \<Rightarrow> let upd = (\<lambda>r. r \<lparr>g_Description := uc_Description c, g_Value := j\<rparr>)
          in (case find (\<lambda>r. g_ID r = cid) (configurations_global d) of
                None \<Rightarrow> (Inl ErrNoRows, d)
              | Some r \<Rightarrow> (Inr (upd r), d \<lparr>configurations_global :=
                    map (\<lambda>r. if g_ID r = cid then upd r else r) (configurations_global d)\<rparr>)))"

definition UpdateEnvConfig_sql :: "io \<Rightarrow> uuid \<Rightarrow> UpdateConfiguration \<Rightarrow> ConfigurationsEnvironment op" where
  "UpdateEnvConfig_sql io cid c d =
     (if io_fails io ''UpdateEnvConfig'' then (Inl (ErrQuery ''UpdateEnvConfig''), d)
      else case io_jsonb io (uc_Value c) of
        None \<Rightarrow> (Inl (PgError ''22P02''), d)
      | Some j \<Rightarrow> let upd = (\<lambda>r. r \<lparr>c_Description := uc_Description c, c_Value := j\<rparr>)
          in (case find (\<lambda>r. c_ID r = cid) (configurations_environment d) of
                None \<Rightarrow> (Inl ErrNoRows, d)
              | Some r \<Rightarrow> (Inr (upd r), d \<lparr>configurations_environment :=
                    map (\<lambda>r. if c_ID r = cid then upd r else r) (configurations_environment d)\<rparr>)))"

definition change_audit :: "string \<Rightarrow> string \<Rightarrow> string \<Rightarrow> uuid option \<Rightarrow> bool \<Rightarrow> string option \<Rightarrow> string option \<Rightarrow> CreateParams" where
  "change_audit action feature key envID secret oldVal newVal =
     \<lparr>ap_Action = action, ap_Description = [], ap_ObjectType = ObjectTypeConfiguration, ap_ObjectID = feature @ ''/'' @ key,
      ap_Feature = feature, ap_EnvironmentID = envID,
      ap_Metadata = Some (configChangeMetadata \<lparr>ci_feature = [], ci_key = [], ci_envID = None, ci_secret = secret,
         ci_oldVal = oldVal, ci_newVal = newVal\<rparr>)\<rparr>"

definition UpdateConfig :: "io \<Rightarrow> string option \<Rightarrow> uuid \<Rightarrow> UpdateConfiguration \<Rightarrow> Configuration op" where
  "UpdateConfig io email cid c =
     WithTx io (bindT (\<lambda>d. liftT (GetGlobalConfigByID io cid d) d) (\<lambda>conf.
       if g_Value conf = uc_Value c \<and> g_Description conf = uc_Description c then returnT (globalConfigFromSQL conf)
       else bindT (UpdateGlobalConfig io cid c) (\<lambda>conf'.
            bindT (audit_Create io email (change_audit ActionUpdated (g_Feature conf') (g_Key conf') None (g_Secret conf')
              (Some (g_Value conf)) (Some (g_Value conf')))) (\<lambda>u. returnT (globalConfigFromSQL conf')))))"

definition UpdateEnvConfig :: "io \<Rightarrow> string option \<Rightarrow> uuid \<Rightarrow> UpdateConfiguration \<Rightarrow> Configuration op" where
  "UpdateEnvConfig io email cid c =
     WithTx io (bindT (\<lambda>d. liftT (GetEnvConfigByID io cid d) d) (\<lambda>conf.
       if c_Value conf = uc_Value c \<and> c_Description conf = uc_Description c then returnT (environmentConfigurationFromSQL conf)
       else bindT (UpdateEnvConfig_sql io cid c) (\<lambda>conf'.
            bindT (audit_Create io email (change_audit ActionUpdated (c_Feature conf') (c_Key conf') (Some (c_EnvironmentID conf'))
              (c_Secret conf') (Some (c_Value conf)) (Some (c_Value conf')))) (\<lambda>u. returnT (environmentConfigurationFromSQL conf')))))"

definition DeleteConfig :: "io \<Rightarrow> string option \<Rightarrow> uuid \<Rightarrow> unit op" where
  "DeleteConfig io email cid =
     WithTx io (bindT (\<lambda>d. liftT (optional_row (GetGlobalConfigByID io cid d)) d) (\<lambda>existing.
       case existing of
         None \<Rightarrow> returnT ()
       | Some r \<Rightarrow> bindT (execT io ''DeleteGlobalConfig'' (\<lambda>d. d \<lparr>configurations_global := filter (\<lambda>r. g_ID r \<noteq> cid) (configurations_global d)\<rparr>)) (\<lambda>u.
           audit_Create io email (change_audit ActionDeleted (g_Feature r) (g_Key r) None (g_Secret r) (Some (g_Value r)) None))))"

definition DeleteEnvConfig :: "io \<Rightarrow> string option \<Rightarrow> uuid \<Rightarrow> unit op" where
  "DeleteEnvConfig io email cid =
     WithTx io (bindT (\<lambda>d. liftT (optional_row (GetEnvConfigByID io cid d)) d) (\<lambda>existing.
       case existing of
         None \<Rightarrow> returnT ()
       | Some r \<Rightarrow> bindT (execT io ''DeleteEnvConfig'' (\<lambda>d. d \<lparr>configurations_environment := filter (\<lambda>r. c_ID r \<noteq> cid) (configurations_environment d)\<rparr>)) (\<lambda>u.
           audit_Create io email (change_audit ActionDeleted (c_Feature r) (c_Key r) (Some (c_EnvironmentID r)) (c_Secret r)
             (Some (c_Value r)) None))))"

section \<open>Disabled features\<close>

definition insert_disabled :: "gotime \<Rightarrow> uuid \<Rightarrow> string \<Rightarrow> db \<Rightarrow> db" where
  "insert_disabled now envID feature d =
     (case map_of (disabled_features d) (envID, feature) of
        Some _ \<Rightarrow> d
      | None \<Rightarrow> d \<lparr>disabled_features := gm_put (envID, feature) now (disabled_features d)\<rparr>)"

definition SetDisabledFeature :: "io \<Rightarrow> uuid \<Rightarrow> string \<Rightarrow> unit op" where
  "SetDisabledFeature io envID feature d =
     (if \<not> io_fails io ''SetDisabledFeature'' \<and> map_of (disabled_features d) (envID, feature) = None \<and>
         \<not> list_ex (\<lambda>e. e_ID e = envID) (environments d)
      then (Inl (PgError ''23503''), d)
      else execT io ''SetDisabledFeature'' (insert_disabled (io_now io) envID feature) d)"

lemma SetDisabledFeature_Inr:
  "SetDisabledFeature io envID feature d = (Inr u, d') \<Longrightarrow> d' = insert_disabled (io_now io) envID feature d"
  by (simp add: SetDisabledFeature_def split: if_splits)

definition DisableFeature :: "io \<Rightarrow> string option \<Rightarrow> uuid \<Rightarrow> string \<Rightarrow> string \<Rightarrow> unit op" where
  "DisableFeature io email envID featureName rawReason =
     (let reason = strings_TrimSpace rawReason
      in if reason = [] then (\<lambda>d. (Inl (Errorf ''disable reason is required''), d))
         else if length reason > 1000 then (\<lambda>d. (Inl (Errorf ''disable reason must be at most 1000 chars''), d))
         else WithTx io (bindT (SetDisabledFeature io envID featureName) (\<lambda>u.
           audit_Create io email \<lparr>ap_Action = ActionDisabled, ap_Description = reason, ap_ObjectType = ObjectTypeFeature,
             ap_ObjectID = featureName, ap_Feature = featureName, ap_EnvironmentID = Some envID, ap_Metadata = None\<rparr>)))"

definition EnableFeature :: "io \<Rightarrow> string option \<Rightarrow> uuid \<Rightarrow> string \<Rightarrow> unit op" where
  "EnableFeature io email envID featureName =
     WithTx io (bindT (execT io ''DeleteDisabledFeature''
         (\<lambda>d. d \<lparr>disabled_features := gm_del (envID, featureName) (disabled_features d)\<rparr>)) (\<lambda>u.
       audit_Create io email \<lparr>ap_Action = ActionEnabled, ap_Description = [], ap_ObjectType = ObjectTypeFeature,
         ap_ObjectID = featureName, ap_Feature = featureName, ap_EnvironmentID = Some envID, ap_Metadata = None\<rparr>))"

definition GetFeatureDisabledAt :: "io \<Rightarrow> uuid \<Rightarrow> string \<Rightarrow> db \<Rightarrow> err + gotime option" where
  "GetFeatureDisabledAt io envID featureName d =
     optional_row (one io ''GetDisabledFeature'' (map_of (disabled_features d) (envID, featureName)))"

definition ListDisabledEnvironmentsForFeature :: "io \<Rightarrow> string \<Rightarrow> db \<Rightarrow> err + (uuid, gotime) gomap" where
  "ListDisabledEnvironmentsForFeature io featureName d =
     bindE (query (io_fails io) ''ListDisabledFeatureEnvironments''
       (map (\<lambda>((envID, f), t). (envID, t)) (filter (\<lambda>((envID, f), t). f = featureName) (disabled_features d)))) (\<lambda>rows.
     Inr (index_by fst snd rows))"

section \<open>Transactions are atomic and audited\<close>

lemma config_writes_atomic:
  shows "case UpdateConfig io email cid c d of (r, d') \<Rightarrow>
      if isl r then d' = d else d' = d \<or> length (audits d') = Suc (length (audits d))"
    and "case UpdateEnvConfig io email cid c d of (r, d') \<Rightarrow>
      if isl r then d' = d else d' = d \<or> length (audits d') = Suc (length (audits d))"
    and "case DeleteConfig io email cid d of (r, d') \<Rightarrow>
      if isl r then d' = d else d' = d \<or> length (audits d') = Suc (length (audits d))"
    and "case DeleteEnvConfig io email cid d of (r, d') \<Rightarrow>
      if isl r then d' = d else d' = d \<or> length (audits d') = Suc (length (audits d))"
    and "case DisableFeature io email envID f reason d of (r, d') \<Rightarrow>
      if isl r then d' = d else length (audits d') = Suc (length (audits d))"
    and "case EnableFeature io email envID f d of (r, d') \<Rightarrow>
      if isl r then d' = d else length (audits d') = Suc (length (audits d))"
proof -
  show "case UpdateConfig io email cid c d of (r, d') \<Rightarrow>
      if isl r then d' = d else d' = d \<or> length (audits d') = Suc (length (audits d))"
    unfolding UpdateConfig_def
    by (rule WithTx_cases) (auto simp: bindT_eq_Inr UpdateGlobalConfig_def Let_def split: if_splits option.splits)
  show "case UpdateEnvConfig io email cid c d of (r, d') \<Rightarrow>
      if isl r then d' = d else d' = d \<or> length (audits d') = Suc (length (audits d))"
    unfolding UpdateEnvConfig_def
    by (rule WithTx_cases) (auto simp: bindT_eq_Inr UpdateEnvConfig_sql_def Let_def split: if_splits option.splits)
  show "case DeleteConfig io email cid d of (r, d') \<Rightarrow>
      if isl r then d' = d else d' = d \<or> length (audits d') = Suc (length (audits d))"
    unfolding DeleteConfig_def by (rule WithTx_cases) (auto simp: bindT_eq_Inr split: option.splits)
  show "case DeleteEnvConfig io email cid d of (r, d') \<Rightarrow>
      if isl r then d' = d else d' = d \<or> length (audits d') = Suc (length (audits d))"
    unfolding DeleteEnvConfig_def by (rule WithTx_cases) (auto simp: bindT_eq_Inr split: option.splits)
  have "case WithTx io (bindT (SetDisabledFeature io envID f) (\<lambda>u.
           audit_Create io email p)) d of (r, d') \<Rightarrow> if isl r then d' = d else length (audits d') = Suc (length (audits d))" for p
    by (rule WithTx_cases) (auto simp: bindT_eq_Inr insert_disabled_def dest!: SetDisabledFeature_Inr split: option.splits)
  then show "case DisableFeature io email envID f reason d of (r, d') \<Rightarrow>
      if isl r then d' = d else length (audits d') = Suc (length (audits d))"
    by (auto simp: DisableFeature_def Let_def)
  show "case EnableFeature io email envID f d of (r, d') \<Rightarrow>
      if isl r then d' = d else length (audits d') = Suc (length (audits d))"
    unfolding EnableFeature_def by (rule WithTx_cases) (auto simp: bindT_eq_Inr)
qed

text \<open>
  The transactional writes are all or nothing and leave a trail: when updating or deleting a
  configuration row, or disabling or enabling a feature, returns an error, the database is as it was;
  when one succeeds, either nothing was to be done and the database is as it was, or exactly one audit
  row was added.
\<close>

theorem transactional_writes_atomic:
  "(case UpdateConfig io email cid c d of (r, d') \<Rightarrow>
      if isl r then d' = d else d' = d \<or> length (audits d') = Suc (length (audits d))) \<and>
   (case UpdateEnvConfig io email cid c d of (r, d') \<Rightarrow>
      if isl r then d' = d else d' = d \<or> length (audits d') = Suc (length (audits d))) \<and>
   (case DeleteConfig io email cid d of (r, d') \<Rightarrow>
      if isl r then d' = d else d' = d \<or> length (audits d') = Suc (length (audits d))) \<and>
   (case DeleteEnvConfig io email cid d of (r, d') \<Rightarrow>
      if isl r then d' = d else d' = d \<or> length (audits d') = Suc (length (audits d))) \<and>
   (case DisableFeature io email envID f reason d of (r, d') \<Rightarrow>
      if isl r then d' = d else length (audits d') = Suc (length (audits d))) \<and>
   (case EnableFeature io email envID f d of (r, d') \<Rightarrow>
      if isl r then d' = d else length (audits d') = Suc (length (audits d)))"
  by (intro conjI config_writes_atomic)

section \<open>What a new configuration row changes\<close>

lemma g_key_upd [simp]: "g_key (r \<lparr>g_Value := v, g_Description := t\<rparr>) = g_key r"
  by (simp add: g_key_def)

lemma c_key_upd [simp]: "c_key (r \<lparr>c_Value := v, c_Description := t\<rparr>) = c_key r"
  by (simp add: c_key_def)

text \<open>The row that an upsert leaves at its key, and that it leaves all others.\<close>

definition env_row_after :: "io \<Rightarrow> uuid \<Rightarrow> NewConfiguration \<Rightarrow> string \<Rightarrow> db \<Rightarrow> ConfigurationsEnvironment" where
  "env_row_after io envID c j d =
     (case find (\<lambda>r. c_key r = (envID, nc_Feature c, nc_Key c)) (configurations_environment d) of
        None \<Rightarrow> \<lparr>c_ID = io_diid io 0, c_Feature = nc_Feature c, c_Key = nc_Key c, c_Value = j, c_Description = nc_Description c,
                c_Secret = nc_Secret c, c_Created = io_now io, c_EnvironmentID = envID\<rparr>
      | Some r \<Rightarrow> r \<lparr>c_Value := j, c_Description := nc_Description c\<rparr>)"

lemma UpsertEnvConfig_Inr:
  assumes "UpsertEnvConfig io envID c d = (Inr row, d')"
  shows "\<exists>j. io_jsonb io (nc_Value c) = Some j \<and> row = env_row_after io envID c j d \<and> audits d' = audits d \<and>
    (\<forall>k. find (\<lambda>r. c_key r = k) (configurations_environment d') =
       (if k = (envID, nc_Feature c, nc_Key c) then Some row else find (\<lambda>r. c_key r = k) (configurations_environment d))) \<and>
    (distinct (map c_key (configurations_environment d)) \<longrightarrow> distinct (map c_key (configurations_environment d'))) \<and>
    d' = d \<lparr>configurations_environment := configurations_environment d'\<rparr>"
proof -
  obtain j where j: "io_jsonb io (nc_Value c) = Some j"
    using assms by (auto simp: UpsertEnvConfig_def split: if_splits option.splits)
  let ?new = "\<lparr>c_ID = io_diid io 0, c_Feature = nc_Feature c, c_Key = nc_Key c, c_Value = j, c_Description = nc_Description c,
                c_Secret = nc_Secret c, c_Created = io_now io, c_EnvironmentID = envID\<rparr>"
  let ?upd = "\<lambda>r :: ConfigurationsEnvironment. r \<lparr>c_Value := j, c_Description := nc_Description c\<rparr>"
  have key: "c_key ?new = (envID, nc_Feature c, nc_Key c)" by (simp add: c_key_def)
  have d': "d' = d \<lparr>configurations_environment := upsert_row c_key ?upd ?new (configurations_environment d)\<rparr>"
    and row: "row = env_row_after io envID c j d"
    using assms j by (auto simp: UpsertEnvConfig_def env_row_after_def key Let_def split: if_splits)
  have tab: "configurations_environment d' = upsert_row c_key ?upd ?new (configurations_environment d)"
    and aud: "audits d' = audits d" using d' by simp_all
  have u: "c_key (?upd r) = c_key r" for r by simp
  have "find (\<lambda>r. c_key r = k) (configurations_environment d') =
       (if k = (envID, nc_Feature c, nc_Key c) then Some row else find (\<lambda>r. c_key r = k) (configurations_environment d))" for k
    unfolding tab find_upsert_row[of c_key, OF u] key row env_row_after_def by simp
  moreover have "distinct (map c_key (configurations_environment d)) \<longrightarrow> distinct (map c_key (configurations_environment d'))"
    unfolding tab using upsert_row_keys[of c_key, OF u] by blast
  ultimately show ?thesis using j row aud d' by simp
qed

lemma optional_row_one [simp]: "optional_row (one io name r) = Inr a \<longleftrightarrow> \<not> io_fails io name \<and> a = r"
  by (auto simp: optional_row_def one_def split: option.splits)

text \<open>JSONB gives back a stored text as it is.\<close>

definition jsonb_stored :: "io \<Rightarrow> db \<Rightarrow> bool" where
  "jsonb_stored io d \<longleftrightarrow> (\<forall>r \<in> set (configurations_environment d). io_jsonb io (c_Value r) = Some (c_Value r)) \<and>
     (\<forall>r \<in> set (configurations_global d). io_jsonb io (g_Value r) = Some (g_Value r))"

text \<open>
  Setting a configuration value for an environment: on success the row of that environment, feature
  and key has the new value and description, and every other row is as before; a row that existed keeps
  its identifier and its secret flag. Either the row was already like that and nothing was written, or
  exactly one audit row was added.
\<close>

theorem CreateEnvConfig_sets:
  assumes "CreateEnvConfig x io email c d = (Inr conf, d')" and "jsonb_stored io d"
    and "nc_EnvironmentID c = Some envID" and "x_marshal x (GRaw (nc_Value c)) = Inr v"
  shows "\<exists>j. io_jsonb io v = Some j \<and> conf = environmentConfigurationFromSQL (env_row_after io envID c j d) \<and>
    (\<forall>k. find (\<lambda>r. c_key r = k) (configurations_environment d') =
       (if k = (envID, nc_Feature c, nc_Key c) then Some (env_row_after io envID c j d)
        else find (\<lambda>r. c_key r = k) (configurations_environment d))) \<and>
    (d' = d \<or> length (audits d') = Suc (length (audits d)))"
proof -
  let ?old = "find (\<lambda>r. c_key r = (envID, nc_Feature c, nc_Key c)) (configurations_environment d)"
  show ?thesis
  proof (cases "\<exists>r. ?old = Some r \<and> c_Value r = v \<and> c_Description r = nc_Description c \<and> c_Secret r = nc_Secret c")
    case True
    then obtain r where r: "?old = Some r" and v: "c_Value r = v" and same: "c_Description r = nc_Description c" "c_Secret r = nc_Secret c"
      by blast
    have "io_jsonb io v = Some v" using assms(2) find_SomeD[OF r] v by (auto simp: jsonb_stored_def)
    moreover have "env_row_after io envID c v d = r" using r v same by (simp add: env_row_after_def)
    moreover have "conf = environmentConfigurationFromSQL r" and "d' = d"
      using assms(1,3,4) r v same by (auto simp: CreateEnvConfig_def GetEnvConfigByKey_def Let_def split: sum.splits)
    ultimately show ?thesis using r by auto
  next
    case False
    then obtain row d1 where up: "UpsertEnvConfig io envID (c \<lparr>nc_Value := v\<rparr>) d = (Inr row, d1)"
      and conf: "conf = environmentConfigurationFromSQL row" and ce: "configurations_environment d' = configurations_environment d1"
      and aud: "length (audits d') = Suc (length (audits d1))"
      using assms(1,3,4)
      by (auto simp: CreateEnvConfig_def GetEnvConfigByKey_def Let_def bindT_eq_Inr writeConfigUpsertAudit_def
          split: sum.splits option.splits if_splits)
    from UpsertEnvConfig_Inr[OF up] obtain j where "io_jsonb io v = Some j" and "row = env_row_after io envID (c \<lparr>nc_Value := v\<rparr>) j d"
      and "audits d1 = audits d" and "\<forall>k. find (\<lambda>r. c_key r = k) (configurations_environment d1) =
       (if k = (envID, nc_Feature c, nc_Key c) then Some row else find (\<lambda>r. c_key r = k) (configurations_environment d))"
      by auto
    moreover have "env_row_after io envID (c \<lparr>nc_Value := v\<rparr>) j d = env_row_after io envID c j d" for j
      by (simp add: env_row_after_def split: option.split)
    ultimately show ?thesis using conf ce aud by auto
  qed
qed

definition config_externals :: externals where
  "config_externals = echo_externals \<lparr>x_marshal := \<lambda>v. case v of GRaw s \<Rightarrow> Inr s | _ \<Rightarrow> Inr []\<rparr>"

definition example_new :: NewConfiguration where
  "example_new = \<lparr>nc_EnvironmentID = Some 1, nc_Feature = ''loki'', nc_Description = None, nc_Key = ''a'',
     nc_Value = ''false'', nc_Secret = False\<rparr>"

lemma config_externals_marshal [simp]: "x_marshal config_externals (GRaw s) = Inr s"
  by (simp add: config_externals_def)

lemma example_jsonb_stored [simp]: "jsonb_stored store_io d"
  by (simp add: jsonb_stored_def)

lemma example_CreateEnvConfig: "\<exists>conf d'. CreateEnvConfig config_externals store_io None example_new example_db = (Inr conf, d')"
  by (simp add: CreateEnvConfig_def example_new_def GetEnvConfigByKey_def optional_row_def one_def example_db_def empty_db_def
      bindT_def UpsertEnvConfig_def writeConfigUpsertAudit_def audit_Create_def execT_def returnT_def Let_def)

theorem CreateEnvConfig_sets_witness:
  "\<exists>conf d' row. CreateEnvConfig config_externals store_io None example_new example_db = (Inr conf, d') \<and>
     find (\<lambda>r. c_key r = (1, ''loki'', ''a'')) (configurations_environment d') = Some row \<and> c_Value row = ''false''"
proof -
  obtain conf d' where c: "CreateEnvConfig config_externals store_io None example_new example_db = (Inr conf, d')"
    using example_CreateEnvConfig by blast
  have "nc_EnvironmentID example_new = Some 1" "x_marshal config_externals (GRaw (nc_Value example_new)) = Inr ''false''"
    by (simp_all add: example_new_def)
  from CreateEnvConfig_sets[OF c example_jsonb_stored this] c show ?thesis
    by (auto simp: example_new_def env_row_after_def example_db_def empty_db_def)
qed

section \<open>The secret flag\<close>

text \<open>
  The secret flag of an existing global row cannot be changed by writing it again: the upsert does
  not set the column, so the row keeps its flag and every such write is audited as a change anew; and
  when the row is secret and the write is not, the audit row carries the stored secret in clear.
\<close>

theorem CreateGlobalConfig_keeps_secret_flag:
  assumes "CreateGlobalConfig x io email c d = (Inr conf, d')"
    and "find (\<lambda>r. g_key r = (nc_Feature c, nc_Key c)) (configurations_global d) = Some r" and "g_Secret r \<noteq> nc_Secret c"
  shows "\<exists>row a. find (\<lambda>r. g_key r = (nc_Feature c, nc_Key c)) (configurations_global d') = Some row \<and> g_Secret row = g_Secret r \<and>
    audits d' = audits d @ [a] \<and>
    (g_Secret r \<longrightarrow> (\<exists>m. au_metadata a = Some (GSMap m) \<and> map_of m ''old'' = Some (g_Value r)))"
proof -
  obtain v where v: "x_marshal x (GRaw (nc_Value c)) = Inr v" using assms(1) by (auto simp: CreateGlobalConfig_def split: sum.splits)
  let ?info = "\<lambda>row. \<lparr>ci_feature = g_Feature row, ci_key = g_Key row, ci_envID = None,
        ci_secret = nc_Secret c, ci_oldVal = Some (g_Value r), ci_newVal = Some v\<rparr>"
  obtain row d1 where up: "UpsertGlobalConfig io (c \<lparr>nc_Value := v\<rparr>) d = (Inr row, d1)"
    and w: "writeConfigUpsertAudit io email True (?info row) d1 = (Inr (), d')"
    using assms v by (auto simp: CreateGlobalConfig_def GetGlobalConfigByKey_def Let_def bindT_eq_Inr split: sum.splits)
  then obtain a where d': "d' = d1 \<lparr>audits := audits d1 @ [a]\<rparr>" and a: "au_metadata a = Some (configChangeMetadata (?info row))"
    unfolding writeConfigUpsertAudit_def audit_Create_eq_Inr by (simp add: audit_row_def)
  obtain j where j: "io_jsonb io v = Some j" and ok: "\<not> io_fails io ''UpsertGlobalConfig''"
    using up by (auto simp: UpsertGlobalConfig_def split: if_splits option.splits)
  let ?new = "\<lparr>g_ID = io_diid io 0, g_Feature = nc_Feature c, g_Key = nc_Key c, g_Value = j, g_Description = nc_Description c,
                g_Secret = nc_Secret c, g_Created = io_now io\<rparr>"
  let ?upd = "\<lambda>r :: ConfigurationsGlobal. r \<lparr>g_Value := j, g_Description := nc_Description c\<rparr>"
  have key: "g_key ?new = (nc_Feature c, nc_Key c)" by (simp add: g_key_def)
  have d1: "configurations_global d1 = upsert_row g_key ?upd ?new (configurations_global d)" "audits d1 = audits d"
    using up j ok by (auto simp: UpsertGlobalConfig_def Let_def)
  have u: "g_key (?upd r) = g_key r" for r by simp
  have "find (\<lambda>r. g_key r = (nc_Feature c, nc_Key c)) (configurations_global d') = Some (?upd r)"
    using assms(2) d' unfolding d1(1) by (simp add: d1(1) find_upsert_row[of g_key, OF u] key)
  then show ?thesis using d' d1(2) a assms(3) by (auto simp: configChangeMetadata_def Let_def)
qed

definition secret_db :: db where
  "secret_db = example_db \<lparr>configurations_global := [\<lparr>g_ID = 1, g_Feature = ''loki'', g_Key = ''a'', g_Value = ''hunter2'',
     g_Description = None, g_Secret = True, g_Created = 0\<rparr>]\<rparr>"

theorem CreateGlobalConfig_keeps_secret_flag_witness:
  "\<exists>conf d' a m. CreateGlobalConfig config_externals store_io None example_new secret_db = (Inr conf, d') \<and> a \<in> set (audits d') \<and>
     au_metadata a = Some (GSMap m) \<and> map_of m ''old'' = Some ''hunter2''"
proof -
  have "\<exists>conf d'. CreateGlobalConfig config_externals store_io None example_new secret_db = (Inr conf, d')"
    by (simp add: CreateGlobalConfig_def example_new_def GetGlobalConfigByKey_def optional_row_def one_def secret_db_def g_key_def
        bindT_def UpsertGlobalConfig_def writeConfigUpsertAudit_def audit_Create_def execT_def returnT_def Let_def)
  then obtain conf d' where c: "CreateGlobalConfig config_externals store_io None example_new secret_db = (Inr conf, d')" by blast
  have "find (\<lambda>r. g_key r = (nc_Feature example_new, nc_Key example_new)) (configurations_global secret_db) = Some
      \<lparr>g_ID = 1, g_Feature = ''loki'', g_Key = ''a'', g_Value = ''hunter2'', g_Description = None, g_Secret = True, g_Created = 0\<rparr>"
    by (simp add: secret_db_def example_new_def g_key_def)
  from CreateGlobalConfig_keeps_secret_flag[OF c this] c show ?thesis by (auto simp: example_new_def)
qed

end
