(* ===== verification/Deployer.thy ===== *)
theory Deployer
  imports Snapshot
begin

text \<open>
  Carrying out decisions: \<open>internal/reconciler/reconciler.go\<close> (the cycle, the decision log, timeouts),
  \<open>deployer.go\<close> (publishing to the agents and the deploy log), \<open>multideployer.go\<close> and \<open>redeploy.go\<close>.

  The world is the database and the messages published so far, by topic. Publishing is a parameter
  that says whether a message is accepted; fresh deploy instruction identifiers are drawn from a
  given sequence. An operation returns its result and the world it leaves, so what a failure leaves
  behind is part of the model.
\<close>

section \<open>World\<close>

record world =
  w_db :: db
  w_sent :: "(string \<times> DeployInstruction) list"

type_synonym result = "(err + unit) \<times> world"

record Deployer =
  dep_Deploy :: "DeployDecision list \<Rightarrow> world \<Rightarrow> result"
  dep_Uninstall :: "uuid \<Rightarrow> string \<Rightarrow> string \<Rightarrow> string \<Rightarrow> world \<Rightarrow> result"

section \<open>The Pub/Sub deployer\<close>

definition naisdTopicID :: "string \<Rightarrow> string \<Rightarrow> string" where
  "naisdTopicID tenantName envName = ''naisd-'' @ tenantName @ ''-'' @ envName"

record publishItem =
  pi_topicID :: string
  pi_diid :: uuid
  pi_vals :: string
  pi_instruction :: DeployInstruction
  pi_res :: DeployDecision

definition publish_item :: "externals \<Rightarrow> DeployDecision \<times> uuid \<Rightarrow> err + publishItem" where
  "publish_item x rd = (case rd of (res, diid) \<Rightarrow>
     bindE (wrapE (''marshal values for '' @ f_Name (dd_Feature res)) (x_marshal x (GMap (dd_Values res)))) (\<lambda>vals.
     Inr \<lparr>pi_topicID = naisdTopicID (dd_TenantName res) (dd_EnvironmentName res), pi_diid = diid, pi_vals = vals,
          pi_instruction = \<lparr>mi_ID = diid, mi_Name = f_Name (dd_Feature res), mi_Version = f_Version (dd_Feature res),
             mi_Chart = f_Chart (dd_Feature res), mi_ConfigHash = dd_Hash res, mi_Timeout = f_Timeout (dd_Feature res),
             mi_Values = dd_Values res, mi_Uninstall = False\<rparr>,
          pi_res = res\<rparr>))"

definition deploy_row :: "publishItem \<Rightarrow> DeployLog" where
  "deploy_row item = \<lparr>dl_id = 0, dl_diid = pi_diid item, dl_environment_id = dd_EnvironmentID (pi_res item),
     dl_feature_assignment_id = dd_FeatureAssignmentID (pi_res item), dl_feature_name = f_Name (dd_Feature (pi_res item)),
     dl_feature_version = f_Version (dd_Feature (pi_res item)), dl_status = DeployStatusSent,
     dl_hash = dd_Hash (pi_res item), dl_values = pi_vals item, dl_created = 0\<rparr>"

definition to_publish :: "externals \<Rightarrow> io \<Rightarrow> DeployDecision list \<Rightarrow> err + publishItem list" where
  "to_publish x io decisions =
     (let deploys = filter (\<lambda>res. dd_Action res = ActionDeploy) decisions
      in mapE (publish_item x) (zip deploys (map (io_diid io) [0..<length deploys])))"

definition accepted :: "io \<Rightarrow> publishItem list \<Rightarrow> publishItem list" where
  "accepted io items = filter (\<lambda>item. io_accepts io (pi_topicID item) (pi_instruction item)) items"

definition Deploy :: "externals \<Rightarrow> io \<Rightarrow> DeployDecision list \<Rightarrow> world \<Rightarrow> result" where
  "Deploy x io decisions w =
     (case to_publish x io decisions of
        Inl e \<Rightarrow> (Inl e, w)
      | Inr toPublish \<Rightarrow>
          let sent = accepted io toPublish;
              w' = w \<lparr>w_sent := w_sent w @ map (\<lambda>item. (pi_topicID item, pi_instruction item)) sent\<rparr>;
              deployRows = map deploy_row sent
          in if length deployRows > 0
             then if io_fails io ''AppendDeploys'' then (Inl (Wrap ''append deploys'' (ErrQuery ''AppendDeploys'')), w')
                  else (Inr (), w' \<lparr>w_db := AppendDeploys (io_now io) deployRows (w_db w')\<rparr>)
             else (Inr (), w'))"

definition Uninstall_pubsub :: "io \<Rightarrow> uuid \<Rightarrow> string \<Rightarrow> string \<Rightarrow> string \<Rightarrow> world \<Rightarrow> result" where
  "Uninstall_pubsub io diid tenantName envName releaseName w =
     (let topic = naisdTopicID tenantName envName;
          msg = \<lparr>mi_ID = diid, mi_Name = releaseName, mi_Version = [], mi_Chart = [], mi_ConfigHash = [], mi_Timeout = 0,
             mi_Values = [], mi_Uninstall = True\<rparr>
      in if io_accepts io topic msg then (Inr (), w \<lparr>w_sent := w_sent w @ [(topic, msg)]\<rparr>)
         else (Inl (ErrQuery ''publish''), w))"

definition NewPubSubDeployer :: "externals \<Rightarrow> io \<Rightarrow> Deployer" where
  "NewPubSubDeployer x io = \<lparr>dep_Deploy = Deploy x io, dep_Uninstall = Uninstall_pubsub io\<rparr>"

section \<open>Several deployers\<close>

text \<open>The primary decides the result; the secondaries run after it and only their errors are dropped.\<close>

definition MultiDeployer_Deploy :: "Deployer \<Rightarrow> Deployer list \<Rightarrow> DeployDecision list \<Rightarrow> world \<Rightarrow> result" where
  "MultiDeployer_Deploy primary secondaries decisions w =
     (case dep_Deploy primary decisions w of
        (Inl e, w') \<Rightarrow> (Inl e, w')
      | (Inr u, w') \<Rightarrow> (Inr (), fold (\<lambda>d w. snd (dep_Deploy d decisions w)) secondaries w'))"

definition MultiDeployer_Uninstall ::
  "Deployer \<Rightarrow> Deployer list \<Rightarrow> uuid \<Rightarrow> string \<Rightarrow> string \<Rightarrow> string \<Rightarrow> world \<Rightarrow> result" where
  "MultiDeployer_Uninstall primary secondaries diid tenantName envName releaseName w =
     (case dep_Uninstall primary diid tenantName envName releaseName w of
        (Inl e, w') \<Rightarrow> (Inl e, w')
      | (Inr u, w') \<Rightarrow> (Inr (), fold (\<lambda>d w. snd (dep_Uninstall d diid tenantName envName releaseName w)) secondaries w'))"

definition NewMultiDeployer :: "Deployer \<Rightarrow> Deployer list \<Rightarrow> Deployer" where
  "NewMultiDeployer primary secondaries =
     \<lparr>dep_Deploy = MultiDeployer_Deploy primary secondaries, dep_Uninstall = MultiDeployer_Uninstall primary secondaries\<rparr>"

section \<open>The decision log\<close>

definition decision_row :: "DeployDecision \<Rightarrow> DecisionLog" where
  "decision_row res = \<lparr>cl_id = 0, cl_environment_id = dd_EnvironmentID res,
     cl_feature_assignment_id = dd_FeatureAssignmentID res, cl_feature_name = f_Name (dd_Feature res),
     cl_feature_version = f_Version (dd_Feature res), cl_action = dd_Action res, cl_message = dd_Message res, cl_created = 0\<rparr>"

definition ListLatestDecisions :: "db \<Rightarrow> ((uuid \<times> string) \<times> DecisionCurrent) list" where
  "ListLatestDecisions d = decision_current d"

definition unchanged_decision :: "(uuid \<times> string, DecisionCurrent) gomap \<Rightarrow> DeployDecision \<Rightarrow> bool" where
  "unchanged_decision prev res =
     (case map_of prev (dd_EnvironmentID res, f_Name (dd_Feature res)) of
        None \<Rightarrow> False
      | Some p \<Rightarrow> cc_feature_assignment_id p = dd_FeatureAssignmentID res \<and> cc_feature_version p = f_Version (dd_Feature res) \<and>
          cc_action p = dd_Action res \<and> cc_message p = dd_Message res)"

definition writeResultLogs :: "io \<Rightarrow> DeployDecision list \<Rightarrow> world \<Rightarrow> result" where
  "writeResultLogs io results w =
     (if io_fails io ''ListLatestDecisions'' then (Inl (Wrap ''list latest decisions'' (ErrQuery ''ListLatestDecisions'')), w)
      else let prev = index_by fst snd (ListLatestDecisions (w_db w));
               changed = map decision_row (filter (\<lambda>res. \<not> unchanged_decision prev res) results)
           in if length changed > 0
              then if io_fails io ''AppendDecisions'' then (Inl (Wrap ''append decisions'' (ErrQuery ''AppendDecisions'')), w)
                   else (Inr (), w \<lparr>w_db := AppendDecisions (io_now io) changed (w_db w)\<rparr>)
              else (Inr (), w))"

section \<open>The cycle\<close>

definition ComputeDesiredState :: "externals \<Rightarrow> string \<Rightarrow> io \<Rightarrow> db \<Rightarrow> err + DeployDecision list" where
  "ComputeDesiredState x aud io d =
     bindE (wrapE ''fetch snapshot'' (fetchSnapshot x aud (io_fails io) d)) (computeActions x (io_now io))"

text \<open>One round of \<open>Run\<close>. Errors are logged and the loop goes on; a panic ends the process.\<close>

definition run_cycle :: "externals \<Rightarrow> string \<Rightarrow> io \<Rightarrow> Deployer \<Rightarrow> world \<Rightarrow> err + world" where
  "run_cycle x aud io deployer w =
     (case ComputeDesiredState x aud io (w_db w) of
        Inl e \<Rightarrow> if is_panic e then Inl e else Inr w
      | Inr results \<Rightarrow> (case writeResultLogs io results w of
            (Inl e, w') \<Rightarrow> Inr w'
          | (Inr u, w') \<Rightarrow> Inr (snd (dep_Deploy deployer results w'))))"

text \<open>\<open>StreamDecisions\<close> with its lock, and the trigger channel of capacity one.\<close>

definition StreamDecisions :: "externals \<Rightarrow> string \<Rightarrow> io \<Rightarrow> bool \<Rightarrow> db \<Rightarrow> err + DeployDecision list" where
  "StreamDecisions x aud io locked d =
     (if locked then Inl ErrReconcileInProgress
      else bindE (wrapE ''fetch snapshot'' (fetchSnapshot x aud (io_fails io) d)) (computeActions x (io_now io)))"

definition TriggerReconcile :: "nat \<Rightarrow> nat" where
  "TriggerReconcile pending = (if pending < 1 then Suc pending else pending)"

definition pending_row :: "(uuid \<times> string) \<times> DeployCurrent \<Rightarrow> DeployLog" where
  "pending_row kc = (case kc of ((envID, feat), c) \<Rightarrow> \<lparr>dl_id = 0, dl_diid = dc_diid c, dl_environment_id = envID,
     dl_feature_assignment_id = dc_feature_assignment_id c, dl_feature_name = feat,
     dl_feature_version = dc_feature_version c, dl_status = DeployStatusFailed, dl_hash = dc_hash c,
     dl_values = ''{}'', dl_created = 0\<rparr>)"

definition TimeoutPendingDeploys :: "gotime \<Rightarrow> db \<Rightarrow> db" where
  "TimeoutPendingDeploys now d =
     AppendDeploys now (map pending_row (filter (\<lambda>(k, c). (dc_status c = ''sent'' \<or> dc_status c = ''installing'') \<and>
        dc_created c < now - hour) (deploy_current d))) d"

section \<open>Manual operations\<close>

definition protectedReleases :: "string list" where
  "protectedReleases = [''naisd'', ''fasitd'']"

definition Uninstall :: "Deployer option \<Rightarrow> uuid \<Rightarrow> string \<Rightarrow> string \<Rightarrow> string \<Rightarrow> world \<Rightarrow> (err + uuid) \<times> world" where
  "Uninstall deployer diid tenantName envName releaseName w =
     (case deployer of
        None \<Rightarrow> (Inl (Errorf ''reconciler has no deployer configured''), w)
      | Some dep \<Rightarrow>
          if releaseName = [] \<or> List.member protectedReleases releaseName then (Inl ErrUninstallProtected, w)
          else (case dep_Uninstall dep diid tenantName envName releaseName w of
              (Inl e, w') \<Rightarrow> (Inl e, w')
            | (Inr u, w') \<Rightarrow> (Inr diid, w')))"

definition Redeploy :: "externals \<Rightarrow> string \<Rightarrow> io \<Rightarrow> Deployer option \<Rightarrow> uuid \<Rightarrow> string \<Rightarrow> world \<Rightarrow> result" where
  "Redeploy x aud io deployer envID featureName w =
     (case deployer of
        None \<Rightarrow> (Inl (Errorf ''reconciler has no deployer configured''), w)
      | Some dep \<Rightarrow>
     (case fetchSnapshot x aud (io_fails io) (w_db w) of
        Inl e \<Rightarrow> (Inl (Wrap ''fetch snapshot'' e), w)
      | Inr snap \<Rightarrow>
     (case find (\<lambda>env. en_ID env = envID) (s_environments snap) of
        None \<Rightarrow> (Inl ErrRedeployTargetNotFound, w)
      | Some env \<Rightarrow>
     (case find (\<lambda>a. f_Name (ra_Feature a) = featureName) (env_winners snap env) of
        None \<Rightarrow> (Inl ErrRedeployTargetNotFound, w)
      | Some a \<Rightarrow>
     if \<not> healthy_env (io_now io) snap (en_ID env) then (Inl (WrapBefore ErrRedeployNotSettled ''naisd is unhealthy''), w)
     else if flag2 (s_disabledByEnv snap) (en_ID env) featureName
     then (Inl (WrapBefore ErrRedeployNotSettled ''feature reconcile disabled''), w)
     else
     (case computeAction x snap env a of
        Inl e \<Rightarrow> (Inl e, w)
      | Inr decision \<Rightarrow>
     if dd_Action decision \<noteq> ActionSkipUnchanged then (Inl (WrapBefore ErrRedeployNotSettled (dd_Message decision)), w)
     else
     (case dep_Deploy dep [decision \<lparr>dd_Action := ActionDeploy, dd_Message := ''redeploy requested''\<rparr>] w of
        (Inl e, w') \<Rightarrow> (Inl (Wrap ''deploy'' e), w')
      | (Inr u, w') \<Rightarrow> (Inr (), w')))))))"

section \<open>Publishing and the deploy log\<close>

lemma deploy_row_key [simp]: "dl_key (deploy_row item) = decision_key (pi_res item)"
  by (simp add: dl_key_def deploy_row_def decision_key_def)

lemma AppendDeploys_log:
  "\<exists>rows'. deploy_log (AppendDeploys now rows d) = deploy_log d @ rows' \<and>
     list_all2 (\<lambda>r r'. \<exists>n. r' = r \<lparr>dl_id := n, dl_created := now\<rparr>) rows rows'"
proof (induction rows arbitrary: d)
  case (Cons r rows)
  obtain rows' where "deploy_log (AppendDeploys now rows (append_deploy_row now r d)) = deploy_log (append_deploy_row now r d) @ rows'"
    and "list_all2 (\<lambda>r r'. \<exists>n. r' = r \<lparr>dl_id := n, dl_created := now\<rparr>) rows rows'"
    using Cons.IH by blast
  then show ?case
    by (intro exI[of _ "r \<lparr>dl_id := deploy_seq d, dl_created := now\<rparr> # rows'"]) (auto simp: AppendDeploys_Cons)
qed (simp add: AppendDeploys_def)

lemma publish_item_facts:
  assumes "publish_item x (res, diid) = Inr item"
  shows "pi_res item = res" and "pi_diid item = diid"
    and "pi_topicID item = naisdTopicID (dd_TenantName res) (dd_EnvironmentName res)"
    and "mi_ID (pi_instruction item) = diid" and "mi_Name (pi_instruction item) = f_Name (dd_Feature res)"
    and "mi_Version (pi_instruction item) = f_Version (dd_Feature res)"
    and "mi_ConfigHash (pi_instruction item) = dd_Hash res" and "\<not> mi_Uninstall (pi_instruction item)"
  using assms by (auto simp: publish_item_def bindE_eq_Inr)

lemma to_publish_items:
  assumes "to_publish x io ds = Inr items"
  shows "map pi_res items = filter (\<lambda>res. dd_Action res = ActionDeploy) ds"
    and "item \<in> set items \<Longrightarrow> \<exists>diid. publish_item x (pi_res item, diid) = Inr item"
proof -
  let ?ds = "filter (\<lambda>res. dd_Action res = ActionDeploy) ds"
  let ?z = "zip ?ds (map (io_diid io) [0..<length ?ds])"
  have l: "list_all2 (\<lambda>rd item. publish_item x rd = Inr item) ?z items"
    using assms by (simp add: to_publish_def Let_def mapE_Inr_iff)
  then have len: "length items = length ?ds" by (auto dest: list_all2_lengthD)
  have nth: "publish_item x (?ds ! i, io_diid io i) = Inr (items ! i)" if "i < length items" for i
    using l that len by (auto simp: list_all2_conv_all_nth)
  show "map pi_res items = ?ds"
    using len publish_item_facts(1)[OF nth] by (intro nth_equalityI) auto
  show "item \<in> set items \<Longrightarrow> \<exists>diid. publish_item x (pi_res item, diid) = Inr item"
    using nth publish_item_facts(1)[OF nth] by (metis in_set_conv_nth)
qed

lemma to_publish_instruction:
  assumes "to_publish x io ds = Inr items" and "item \<in> set items"
  shows "mi_ID (pi_instruction item) = pi_diid item"
    and "mi_Name (pi_instruction item) = f_Name (dd_Feature (pi_res item))"
    and "mi_Version (pi_instruction item) = f_Version (dd_Feature (pi_res item))"
    and "mi_ConfigHash (pi_instruction item) = dd_Hash (pi_res item)"
    and "pi_topicID item = naisdTopicID (dd_TenantName (pi_res item)) (dd_EnvironmentName (pi_res item))"
proof -
  obtain diid where "publish_item x (pi_res item, diid) = Inr item"
    using to_publish_items(2)[OF assms] by blast
  note facts = publish_item_facts[OF this]
  show "mi_ID (pi_instruction item) = pi_diid item" using facts by simp
  show "mi_Name (pi_instruction item) = f_Name (dd_Feature (pi_res item))" using facts by simp
  show "mi_Version (pi_instruction item) = f_Version (dd_Feature (pi_res item))" using facts by simp
  show "mi_ConfigHash (pi_instruction item) = dd_Hash (pi_res item)" using facts by simp
  show "pi_topicID item = naisdTopicID (dd_TenantName (pi_res item)) (dd_EnvironmentName (pi_res item))" using facts by simp
qed

lemma Deploy_Inr:
  assumes "Deploy x io ds w = (Inr (), w')"
  shows "\<exists>items. to_publish x io ds = Inr items \<and>
    w_sent w' = w_sent w @ map (\<lambda>item. (pi_topicID item, pi_instruction item)) (accepted io items) \<and>
    w_db w' = AppendDeploys (io_now io) (map deploy_row (accepted io items)) (w_db w)"
  using assms by (auto simp: Deploy_def Let_def AppendDeploys_def split: sum.splits if_splits)

text \<open>What a message and a log row have in common.\<close>

definition msg_id :: "string \<times> DeployInstruction \<Rightarrow> uuid \<times> string \<times> string \<times> string" where
  "msg_id tm = (mi_ID (snd tm), mi_Name (snd tm), mi_Version (snd tm), mi_ConfigHash (snd tm))"

definition row_id :: "DeployLog \<Rightarrow> uuid \<times> string \<times> string \<times> string" where
  "row_id r = (dl_diid r, dl_feature_name r, dl_feature_version r, dl_hash r)"

lemma row_id_update [simp]: "row_id (r \<lparr>dl_id := n, dl_created := t\<rparr>) = row_id r"
  by (simp add: row_id_def)

lemma Deploy_rows:
  "(\<exists>rows. deploy_log (w_db (snd (Deploy x io ds w))) = deploy_log (w_db w) @ rows \<and>
      (case fst (Deploy x io ds w) of
         Inr _ \<Rightarrow> map row_id rows = map msg_id (drop (length (w_sent w)) (w_sent (snd (Deploy x io ds w)))) \<and>
           list_all (\<lambda>r. dl_status r = DeployStatusSent) rows
       | Inl _ \<Rightarrow> rows = []))"
proof (cases "fst (Deploy x io ds w)")
  case (Inl e)
  then show ?thesis by (auto simp: Deploy_def Let_def split: sum.splits if_splits)
next
  case (Inr u)
  then have ok: "Deploy x io ds w = (Inr (), snd (Deploy x io ds w))" by (metis old.unit.exhaust prod.collapse)
  obtain items where items: "to_publish x io ds = Inr items"
    and sent: "w_sent (snd (Deploy x io ds w)) = w_sent w @ map (\<lambda>item. (pi_topicID item, pi_instruction item)) (accepted io items)"
    and log: "w_db (snd (Deploy x io ds w)) = AppendDeploys (io_now io) (map deploy_row (accepted io items)) (w_db w)"
    using Deploy_Inr[OF ok] by blast
  obtain rows where rows: "deploy_log (w_db (snd (Deploy x io ds w))) = deploy_log (w_db w) @ rows"
    and l: "list_all2 (\<lambda>r r'. \<exists>n. r' = r \<lparr>dl_id := n, dl_created := io_now io\<rparr>) (map deploy_row (accepted io items)) rows"
    using AppendDeploys_log log by metis
  have same: "row_id (deploy_row item) = msg_id (pi_topicID item, pi_instruction item)" if "item \<in> set (accepted io items)" for item
    using to_publish_instruction[OF items, of item] that by (simp add: row_id_def msg_id_def deploy_row_def accepted_def)
  have nth: "rows ! i = (deploy_row (accepted io items ! i)) \<lparr>dl_id := dl_id (rows ! i), dl_created := io_now io\<rparr>"
    if "i < length rows" for i
    using l that by (auto simp: list_all2_conv_all_nth)
  have len: "length rows = length (accepted io items)" using l by (auto dest: list_all2_lengthD)
  have "map row_id rows = map msg_id (map (\<lambda>item. (pi_topicID item, pi_instruction item)) (accepted io items))"
  proof (rule nth_equalityI)
    fix i assume i: "i < length (map row_id rows)"
    then have "i < length rows" by simp
    then have "row_id (rows ! i) = row_id (deploy_row (accepted io items ! i))"
      using nth[of i] row_id_update by metis
    then show "map row_id rows ! i = map msg_id (map (\<lambda>item. (pi_topicID item, pi_instruction item)) (accepted io items)) ! i"
      using i len same by simp
  qed (simp add: len)
  moreover have "dl_status (rows ! i) = DeployStatusSent" if "i < length rows" for i
    by (subst nth[OF that]) (simp add: deploy_row_def)
  ultimately show ?thesis using rows sent Inr by (auto simp: list_all_length)
qed

text \<open>
  Publishing and logging agree: when \<open>Deploy\<close> returns no error, the rows it appended to the deploy
  log are, in order, exactly the messages it published, with the same instruction identifier, feature,
  version and hash and with status sent; a decision whose publishing failed leaves no row, so the
  next cycle decides on it again. When it returns an error it has appended nothing.
\<close>

theorem Deploy_rows_match_messages:
  "(\<exists>rows. deploy_log (w_db (snd (Deploy x io ds w))) = deploy_log (w_db w) @ rows \<and>
      (case fst (Deploy x io ds w) of
         Inr _ \<Rightarrow> map row_id rows = map msg_id (drop (length (w_sent w)) (w_sent (snd (Deploy x io ds w)))) \<and>
           list_all (\<lambda>r. dl_status r = DeployStatusSent) rows
       | Inl _ \<Rightarrow> rows = []))"
  by (rule Deploy_rows)

lemma deploy_current_deploy_row:
  "deploy_current_of ((deploy_row item) \<lparr>dl_id := n, dl_created := t\<rparr>) =
     \<lparr>dc_log_id = n, dc_diid = pi_diid item, dc_feature_assignment_id = dd_FeatureAssignmentID (pi_res item),
      dc_feature_version = f_Version (dd_Feature (pi_res item)), dc_status = DeployStatusSent,
      dc_hash = dd_Hash (pi_res item), dc_created = t\<rparr>"
  by (simp add: deploy_current_of_def deploy_row_def)

lemma to_publish_distinct:
  assumes "to_publish x io ds = Inr items" and "distinct (map decision_key ds)"
  shows "distinct (map dl_key (map deploy_row (accepted io items)))"
proof -
  have "map (decision_key \<circ> pi_res) items = map decision_key (filter (\<lambda>res. dd_Action res = ActionDeploy) ds)"
    using to_publish_items(1)[OF assms(1)] by (metis map_map)
  then have "distinct (map (decision_key \<circ> pi_res) items)" using assms(2) by (simp add: distinct_map_filter)
  then show ?thesis by (simp add: accepted_def comp_def distinct_map_filter)
qed

text \<open>What an accepted item leaves as the current row, and that all other rows stay.\<close>

lemma Deploy_accepted:
  assumes "db_ok (w_db w)" and "clock_ok (io_now io) (w_db w)" and "distinct (map decision_key ds)"
    and "Deploy x io ds w = (Inr (), w')" and "to_publish x io ds = Inr items" and "item \<in> set (accepted io items)"
  shows "\<exists>n. map_of (deploy_current (w_db w')) (decision_key (pi_res item)) =
    Some \<lparr>dc_log_id = n, dc_diid = pi_diid item, dc_feature_assignment_id = dd_FeatureAssignmentID (pi_res item),
      dc_feature_version = f_Version (dd_Feature (pi_res item)), dc_status = DeployStatusSent,
      dc_hash = dd_Hash (pi_res item), dc_created = io_now io\<rparr>"
proof -
  have "w_db w' = AppendDeploys (io_now io) (map deploy_row (accepted io items)) (w_db w)"
    using Deploy_Inr[OF assms(4)] assms(5) by auto
  then show ?thesis
    using AppendDeploys_current[OF assms(1,2) to_publish_distinct[OF assms(5,3)], of "deploy_row item"] assms(6)
    by (simp add: deploy_current_deploy_row)
qed

text \<open>The message of a decision, the \<open>n\<close>-th of those to deploy, with its topic.\<close>

definition decision_message :: "io \<Rightarrow> DeployDecision \<times> nat \<Rightarrow> string \<times> DeployInstruction" where
  "decision_message io rn = (case rn of (res, n) \<Rightarrow>
     (naisdTopicID (dd_TenantName res) (dd_EnvironmentName res),
      \<lparr>mi_ID = io_diid io n, mi_Name = f_Name (dd_Feature res), mi_Version = f_Version (dd_Feature res),
       mi_Chart = f_Chart (dd_Feature res), mi_ConfigHash = dd_Hash res, mi_Timeout = f_Timeout (dd_Feature res),
       mi_Values = dd_Values res, mi_Uninstall = False\<rparr>))"

definition decision_messages :: "io \<Rightarrow> DeployDecision list \<Rightarrow> (string \<times> DeployInstruction) list" where
  "decision_messages io deploys = map (decision_message io) (zip deploys [0..<length deploys])"

lemma publish_item_message:
  "publish_item x (res, io_diid io i) = Inr item \<Longrightarrow> (pi_topicID item, pi_instruction item) = decision_message io (res, i)"
  by (cases item) (auto simp: publish_item_def decision_message_def bindE_eq_Inr)

lemma to_publish_messages:
  assumes "to_publish x io ds = Inr items"
  shows "map (\<lambda>item. (pi_topicID item, pi_instruction item)) items =
    decision_messages io (filter (\<lambda>res. dd_Action res = ActionDeploy) ds)"
proof -
  let ?ds = "filter (\<lambda>res. dd_Action res = ActionDeploy) ds"
  have l: "list_all2 (\<lambda>rd item. publish_item x rd = Inr item) (zip ?ds (map (io_diid io) [0..<length ?ds])) items"
    using assms by (simp add: to_publish_def Let_def mapE_Inr_iff)
  then have len: "length items = length ?ds" by (auto dest: list_all2_lengthD)
  have "(pi_topicID (items ! i), pi_instruction (items ! i)) = decision_message io (?ds ! i, i)" if "i < length items" for i
  proof -
    have "publish_item x (?ds ! i, io_diid io i) = Inr (items ! i)"
      using l that len by (auto simp: list_all2_conv_all_nth)
    then show ?thesis by (rule publish_item_message)
  qed
  then show ?thesis using len by (intro nth_equalityI) (simp_all add: decision_messages_def)
qed

text \<open>The messages that go out, and what becomes of the current row of each item, in terms of the decisions.\<close>

lemma Deploy_messages:
  assumes "Deploy x io ds w = (Inr (), w')"
  shows "w_sent w' = w_sent w @ filter (\<lambda>(topic, m). io_accepts io topic m)
    (decision_messages io (filter (\<lambda>res. dd_Action res = ActionDeploy) ds))"
proof -
  obtain items where items: "to_publish x io ds = Inr items"
    and sent: "w_sent w' = w_sent w @ map (\<lambda>item. (pi_topicID item, pi_instruction item)) (accepted io items)"
    using Deploy_Inr [OF assms] by blast
  show ?thesis unfolding to_publish_messages [OF items, symmetric] by (simp add: sent accepted_def filter_map comp_def)
qed

lemma Deploy_item:
  assumes "db_ok (w_db w)" and "clock_ok (io_now io) (w_db w)" and "distinct (map decision_key ds)"
    and "Deploy x io ds w = (Inr (), w')" and "to_publish x io ds = Inr items"
  shows "(\<And>item. item \<in> set items \<Longrightarrow> io_accepts io (pi_topicID item) (pi_instruction item) \<Longrightarrow> decision_key (pi_res item) \<noteq> k) \<Longrightarrow>
      map_of (deploy_current (w_db w')) k = map_of (deploy_current (w_db w)) k"
    and "item \<in> set items \<Longrightarrow> decision_key (pi_res item) = k \<Longrightarrow>
      if io_accepts io (pi_topicID item) (pi_instruction item)
      then \<exists>c. map_of (deploy_current (w_db w')) k = Some c \<and> dc_status c = DeployStatusSent \<and> dc_hash c = dd_Hash (pi_res item) \<and>
         dc_feature_version c = f_Version (dd_Feature (pi_res item)) \<and> dc_feature_assignment_id c = dd_FeatureAssignmentID (pi_res item) \<and>
         dc_diid c = mi_ID (pi_instruction item) \<and> mi_Name (pi_instruction item) = snd k
      else map_of (deploy_current (w_db w')) k = map_of (deploy_current (w_db w)) k"
proof -
  have log: "w_db w' = AppendDeploys (io_now io) (map deploy_row (accepted io items)) (w_db w)"
    using Deploy_Inr [OF assms(4)] assms(5) by auto
  show unchanged: "map_of (deploy_current (w_db w')) k = map_of (deploy_current (w_db w)) k"
    if "\<And>item. item \<in> set items \<Longrightarrow> io_accepts io (pi_topicID item) (pi_instruction item) \<Longrightarrow> decision_key (pi_res item) \<noteq> k"
  proof -
    have "k \<notin> dl_key ` set (map deploy_row (accepted io items))" by (auto simp: accepted_def dest: that)
    then show ?thesis using AppendDeploys_current_other [OF assms(1,2)] log by simp
  qed
  have "distinct (map decision_key (map pi_res items))"
    unfolding to_publish_items(1) [OF assms(5)] by (rule distinct_map_filter [OF assms(3)])
  then have inj: "inj_on (\<lambda>item. decision_key (pi_res item)) (set items)" by (simp add: distinct_map comp_def)
  assume item: "item \<in> set items" "decision_key (pi_res item) = k"
  show "if io_accepts io (pi_topicID item) (pi_instruction item)
      then \<exists>c. map_of (deploy_current (w_db w')) k = Some c \<and> dc_status c = DeployStatusSent \<and> dc_hash c = dd_Hash (pi_res item) \<and>
         dc_feature_version c = f_Version (dd_Feature (pi_res item)) \<and> dc_feature_assignment_id c = dd_FeatureAssignmentID (pi_res item) \<and>
         dc_diid c = mi_ID (pi_instruction item) \<and> mi_Name (pi_instruction item) = snd k
      else map_of (deploy_current (w_db w')) k = map_of (deploy_current (w_db w)) k"
  proof (cases "io_accepts io (pi_topicID item) (pi_instruction item)")
    case True
    then have "item \<in> set (accepted io items)" using item(1) by (simp add: accepted_def)
    from Deploy_accepted [OF assms this] show ?thesis
      using True item to_publish_instruction [OF assms(5) item(1)] by (auto simp: decision_key_def)
  next
    case False
    have "item = item'" if "item' \<in> set items" "decision_key (pi_res item') = k" for item'
      using that item inj by (simp add: inj_on_def)
    then show ?thesis using False unchanged by auto
  qed
qed

text \<open>
  C31. What a cycle publishes and leaves in the table that the next cycle reads: when \<open>Deploy\<close> returns no error, the messages sent
  are those of the decisions to deploy that the broker accepts, in their order. For an environment and feature with such a
  decision the current row is, when its message was accepted, that message in status sent, with the decision's hash, version and
  assignment, and what it was when the message was refused; no other row changes.
\<close>

theorem Deploy_current:
  assumes "db_ok (w_db w)" and "clock_ok (io_now io) (w_db w)" and "distinct (map decision_key ds)"
    and "Deploy x io ds w = (Inr (), w')" and "deploys = filter (\<lambda>res. dd_Action res = ActionDeploy) ds"
  shows "w_sent w' = w_sent w @ filter (\<lambda>(topic, m). io_accepts io topic m) (decision_messages io deploys) \<and>
    (case find (\<lambda>res. dd_Action res = ActionDeploy \<and> decision_key res = k) ds of
      None \<Rightarrow> map_of (deploy_current (w_db w')) k = map_of (deploy_current (w_db w)) k
    | Some res \<Rightarrow> \<exists>n topic m. n < length deploys \<and> deploys ! n = res \<and> decision_message io (res, n) = (topic, m) \<and>
        (if io_accepts io topic m
         then \<exists>c. map_of (deploy_current (w_db w')) k = Some c \<and> dc_status c = DeployStatusSent \<and> dc_hash c = dd_Hash res \<and>
           dc_feature_version c = f_Version (dd_Feature res) \<and> dc_feature_assignment_id c = dd_FeatureAssignmentID res \<and>
           dc_diid c = mi_ID m \<and> mi_Name m = snd k
         else map_of (deploy_current (w_db w')) k = map_of (deploy_current (w_db w)) k))"
proof (intro conjI)
  show "w_sent w' = w_sent w @ filter (\<lambda>(topic, m). io_accepts io topic m) (decision_messages io deploys)"
    unfolding assms(5) by (rule Deploy_messages [OF assms(4)])
  obtain items where items: "to_publish x io ds = Inr items" using Deploy_Inr [OF assms(4)] by blast
  note item = Deploy_item [OF assms(1-4) items]
  note msgs = to_publish_messages [OF items, folded assms(5)] and ress = to_publish_items(1) [OF items, folded assms(5)]
  show "case find (\<lambda>res. dd_Action res = ActionDeploy \<and> decision_key res = k) ds of
      None \<Rightarrow> map_of (deploy_current (w_db w')) k = map_of (deploy_current (w_db w)) k
    | Some res \<Rightarrow> \<exists>n topic m. n < length deploys \<and> deploys ! n = res \<and> decision_message io (res, n) = (topic, m) \<and>
        (if io_accepts io topic m
         then \<exists>c. map_of (deploy_current (w_db w')) k = Some c \<and> dc_status c = DeployStatusSent \<and> dc_hash c = dd_Hash res \<and>
           dc_feature_version c = f_Version (dd_Feature res) \<and> dc_feature_assignment_id c = dd_FeatureAssignmentID res \<and>
           dc_diid c = mi_ID m \<and> mi_Name m = snd k
         else map_of (deploy_current (w_db w')) k = map_of (deploy_current (w_db w)) k)"
  proof (cases "find (\<lambda>res. dd_Action res = ActionDeploy \<and> decision_key res = k) ds")
    case None
    then have "k \<notin> decision_key ` pi_res ` set items" using arg_cong [OF ress, of set] assms(5) by (auto simp: find_None_iff)
    then show ?thesis unfolding None option.case by (intro item(1)) blast
  next
    case (Some res)
    then have res: "res \<in> set deploys" "decision_key res = k" using assms(5) by (auto simp: find_Some_iff)
    then obtain n where n: "n < length deploys" "deploys ! n = res" by (auto simp: in_set_conv_nth)
    have len: "n < length items" using n(1) ress by (metis length_map)
    have "pi_res (items ! n) = res" "decision_message io (res, n) = (pi_topicID (items ! n), pi_instruction (items ! n))"
      using arg_cong [OF ress, of "\<lambda>l. l ! n"] arg_cong [OF msgs, of "\<lambda>l. l ! n"] n len by (simp_all add: decision_messages_def)
    then show ?thesis unfolding Some option.case using n item(2) [OF nth_mem [OF len]] res(2) by blast
  qed
qed

definition example_io :: io where
  "example_io = \<lparr>io_now = 1000, io_fails = \<lambda>_. False, io_accepts = \<lambda>_ _. True, io_diid = \<lambda>n. 100 + n, io_jsonb = Some\<rparr>"

definition example_world :: world where
  "example_world = \<lparr>w_db = example_db, w_sent = []\<rparr>"

definition example_sent_world :: world where
  "example_sent_world = snd (Deploy example_externals example_io [example_decision] example_world)"

lemma example_io_simps [simp]:
  "io_now example_io = 1000" "io_fails example_io q = False" "io_accepts example_io t m = True" "io_diid example_io n = 100 + n"
  "io_jsonb example_io v = Some v"
  by (simp_all add: example_io_def)

lemma example_clock: "clock_ok (io_now example_io) (w_db example_world)"
  by (simp add: clock_ok_def example_world_def example_db_def empty_db_def)

lemma example_world_ok: "db_ok (w_db example_world)"
  by (simp add: example_world_def example_db_ok)

lemma example_to_publish:
  "to_publish example_externals example_io [example_decision] = Inr
     [\<lparr>pi_topicID = ''naisd-acme-prod'', pi_diid = 100, pi_vals = [],
       pi_instruction = \<lparr>mi_ID = 100, mi_Name = ''loki'', mi_Version = ''1'', mi_Chart = ''oci://charts/loki'',
          mi_ConfigHash = ''1oci://charts/loki'', mi_Timeout = 0, mi_Values = example_values, mi_Uninstall = False\<rparr>,
       pi_res = example_decision\<rparr>]"
  by (simp add: to_publish_def publish_item_def example_decision_def example_externals_def echo_externals_def
      naisdTopicID_def example_env_def example_assignment_def example_feature_def decide_def base_decision_def)

lemma example_Deploy: "Deploy example_externals example_io [example_decision] example_world = (Inr (), example_sent_world)"
  by (simp add: example_sent_world_def Deploy_def example_to_publish accepted_def)

lemma example_sent_current:
  "\<exists>n. map_of (deploy_current (w_db example_sent_world)) (1, ''loki'') = Some \<lparr>dc_log_id = n, dc_diid = 100,
     dc_feature_assignment_id = 2, dc_feature_version = ''1'', dc_status = DeployStatusSent,
     dc_hash = ''1oci://charts/loki'', dc_created = 1000\<rparr>"
  using Deploy_accepted[OF example_world_ok example_clock _ example_Deploy example_to_publish]
  by (simp add: accepted_def example_decision_def decision_key_def example_env_def example_assignment_def
      example_feature_def)

theorem Deploy_current_witness:
  "length (w_sent example_sent_world) = 1 \<and>
   (\<exists>c. map_of (deploy_current (w_db example_sent_world)) (1, ''loki'') = Some c \<and> dc_status c = DeployStatusSent \<and>
     dc_hash c = ''1oci://charts/loki'')"
  using Deploy_current[OF example_world_ok example_clock _ example_Deploy refl, of "(1, ''loki'')"]
  by (auto simp: decision_key_def example_decision_def example_env_def example_assignment_def example_feature_def
      decision_messages_def example_world_def)

section \<open>The decision log says what was decided\<close>

lemma decision_row_key [simp]: "cl_key (decision_row res) = decision_key res"
  by (simp add: cl_key_def decision_row_def decision_key_def)

lemma prev_decisions:
  "db_ok d \<Longrightarrow> map_of (index_by fst snd (ListLatestDecisions d)) k = map_of (decision_current d) k"
  using db_ok_gm[of d] by (simp add: ListLatestDecisions_def index_by_table)

lemma unchanged_decision_iff:
  "db_ok d \<Longrightarrow> unchanged_decision (index_by fst snd (ListLatestDecisions d)) res \<longleftrightarrow>
     (\<exists>c. map_of (decision_current d) (decision_key res) = Some c \<and> cc_feature_assignment_id c = dd_FeatureAssignmentID res \<and>
        cc_feature_version c = f_Version (dd_Feature res) \<and> cc_action c = dd_Action res \<and> cc_message c = dd_Message res)"
  by (auto simp: unchanged_decision_def prev_decisions decision_key_def split: option.splits)

lemma writeResultLogs_Inr:
  assumes "writeResultLogs io results w = (Inr (), w')"
  shows "w_sent w' = w_sent w \<and> w_db w' = AppendDecisions (io_now io) (map decision_row
    (filter (\<lambda>res. \<not> unchanged_decision (index_by fst snd (ListLatestDecisions (w_db w))) res) results)) (w_db w)"
  using assms unfolding writeResultLogs_def Let_def
  by (simp only: split: if_splits) (auto simp: AppendDecisions_def)

text \<open>
  C32. The decision log: after a cycle has logged its decisions, the latest logged decision of every
  environment and feature in the cycle is the one just made (assignment, version, action and message),
  only changed decisions were appended, and logging the same decisions again appends nothing.
\<close>

theorem writeResultLogs_records:
  assumes "db_ok (w_db w)" and "clock_ok (io_now io) (w_db w)" and "distinct (map decision_key results)"
    and "writeResultLogs io results w = (Inr (), w')"
  shows "(\<forall>res \<in> set results. \<exists>c. map_of (decision_current (w_db w')) (decision_key res) = Some c \<and>
        cc_feature_assignment_id c = dd_FeatureAssignmentID res \<and> cc_feature_version c = f_Version (dd_Feature res) \<and>
        cc_action c = dd_Action res \<and> cc_message c = dd_Message res) \<and>
    writeResultLogs io results w' = (Inr (), w') \<and>
    length (decision_log (w_db w')) = length (decision_log (w_db w)) + length (filter (\<lambda>res.
       map_option (\<lambda>c. (cc_feature_assignment_id c, cc_feature_version c, cc_action c, cc_message c)) (map_of (decision_current (w_db w)) (decision_key res))
       \<noteq> Some (dd_FeatureAssignmentID res, f_Version (dd_Feature res), dd_Action res, dd_Message res)) results)"
proof -
  let ?same = "unchanged_decision (index_by fst snd (ListLatestDecisions (w_db w)))"
  let ?changed = "map decision_row (filter (\<lambda>res. \<not> ?same res) results)"
  have db': "w_db w' = AppendDecisions (io_now io) ?changed (w_db w)" using writeResultLogs_Inr[OF assms(4)] by simp
  have dist: "distinct (map cl_key ?changed)" using assms(3) by (simp add: comp_def distinct_map_filter)
  have rec: "\<exists>c. map_of (decision_current (w_db w')) (decision_key res) = Some c \<and>
        cc_feature_assignment_id c = dd_FeatureAssignmentID res \<and> cc_feature_version c = f_Version (dd_Feature res) \<and>
        cc_action c = dd_Action res \<and> cc_message c = dd_Message res" if res: "res \<in> set results" for res
  proof (cases "?same res")
    case True
    have "decision_key res \<notin> cl_key ` set ?changed"
      using True res assms(3) by (auto simp: distinct_map inj_on_eq_iff)
    then show ?thesis using True db' by (simp add: AppendDecisions_current_other unchanged_decision_iff[OF assms(1)])
  next
    case False
    then have "decision_row res \<in> set ?changed" using res by simp
    from AppendDecisions_current[OF assms(1,2) dist this]
    obtain n where "map_of (decision_current (w_db w')) (decision_key res) =
        Some (decision_current_of ((decision_row res) \<lparr>cl_id := n, cl_created := io_now io\<rparr>))"
      unfolding db' decision_row_key by blast
    then show ?thesis by (simp add: decision_current_of_def decision_row_def)
  qed
  have ok': "db_ok (w_db w')" using assms(1) db' by (simp add: db_ok_AppendDecisions)
  have "filter (\<lambda>res. \<not> unchanged_decision (index_by fst snd (ListLatestDecisions (w_db w'))) res) results = []"
    unfolding filter_empty_conv unchanged_decision_iff[OF ok'] not_not by (intro ballI rec)
  moreover have "\<not> io_fails io ''ListLatestDecisions''" using assms(4) by (auto simp: writeResultLogs_def)
  ultimately have "writeResultLogs io results w' = (Inr (), w')" by (simp add: writeResultLogs_def Let_def)
  moreover have "length (decision_log (w_db w')) = length (decision_log (w_db w)) + length ?changed"
    using AppendDecisions_log[of "io_now io" ?changed "w_db w"] db' by (auto dest: list_all2_lengthD)
  moreover have "(\<not> ?same res) = (map_option (\<lambda>c. (cc_feature_assignment_id c, cc_feature_version c, cc_action c, cc_message c))
      (map_of (decision_current (w_db w)) (decision_key res)) \<noteq>
      Some (dd_FeatureAssignmentID res, f_Version (dd_Feature res), dd_Action res, dd_Message res))" for res
    by (cases "map_of (decision_current (w_db w)) (decision_key res)") (auto simp: unchanged_decision_iff[OF assms(1)])
  ultimately show ?thesis using rec by simp
qed

theorem writeResultLogs_records_witness:
  "\<exists>c. map_of (decision_current (w_db (snd (writeResultLogs example_io [example_decision] example_world)))) (1, ''loki'') = Some c \<and>
     cc_action c = ActionDeploy"
proof -
  have "writeResultLogs example_io [example_decision] example_world = (Inr (), snd (writeResultLogs example_io [example_decision] example_world))"
    by (simp add: writeResultLogs_def Let_def)
  from writeResultLogs_records[OF example_world_ok example_clock _ this] show ?thesis
    by (simp add: decision_key_def example_decision_def example_env_def example_assignment_def example_feature_def) blast
qed

section \<open>Timeouts\<close>

definition stuck :: "gotime \<Rightarrow> DeployCurrent \<Rightarrow> bool" where
  "stuck now c \<longleftrightarrow> (dc_status c = ''sent'' \<or> dc_status c = ''installing'') \<and> dc_created c < now - hour"

lemma pending_row_key [simp]: "dl_key (pending_row kc) = fst kc"
  by (cases kc) (auto simp: dl_key_def pending_row_def)

lemma pending_current:
  "deploy_current_of ((pending_row (k, c)) \<lparr>dl_id := n, dl_created := t\<rparr>) =
     c \<lparr>dc_log_id := n, dc_status := DeployStatusFailed, dc_created := t\<rparr>"
  by (cases k; cases c) (simp add: deploy_current_of_def pending_row_def)

lemma pending_rows_distinct:
  assumes "gm_ok m"
  shows "distinct (map dl_key (map pending_row (filter P m)))"
  using gm_ok_distinct[OF assms] by (simp add: comp_def distinct_map_filter)

text \<open>
  C33. Timeouts: marking pending deploys gives every instruction that has been in status sent or
  installing for more than an hour a failed row with the same identifier, assignment, version and
  hash, and changes no other row; afterwards no such instruction is left, so every environment and
  feature becomes decidable again.
\<close>

theorem TimeoutPendingDeploys_clears:
  assumes "db_ok d" and "clock_ok now d"
  shows "(case map_of (deploy_current d) k of
      None \<Rightarrow> map_of (deploy_current (TimeoutPendingDeploys now d)) k = None
    | Some c \<Rightarrow> if stuck now c
        then \<exists>n. map_of (deploy_current (TimeoutPendingDeploys now d)) k =
               Some (c \<lparr>dc_log_id := n, dc_status := DeployStatusFailed, dc_created := now\<rparr>)
        else map_of (deploy_current (TimeoutPendingDeploys now d)) k = Some c) \<and>
    (\<forall>(k, c) \<in> set (deploy_current (TimeoutPendingDeploys now d)). \<not> stuck now c)"
proof -
  let ?stuck = "filter (\<lambda>(k, c). stuck now c) (deploy_current d)"
  let ?d' = "TimeoutPendingDeploys now d"
  have d': "?d' = AppendDeploys now (map pending_row ?stuck) d"
    by (simp add: TimeoutPendingDeploys_def stuck_def)
  have ok: "gm_ok (deploy_current d)" using db_ok_gm[OF assms(1)] by simp
  have other: "map_of (deploy_current ?d') k = map_of (deploy_current d) k" if "k \<notin> fst ` set ?stuck" for k
    unfolding d' by (rule AppendDeploys_current_other[OF assms]) (use that in \<open>auto simp: image_iff\<close>)
  have hit: "\<exists>n. map_of (deploy_current ?d') k = Some (c \<lparr>dc_log_id := n, dc_status := DeployStatusFailed, dc_created := now\<rparr>)"
    if "map_of (deploy_current d) k = Some c" and "stuck now c" for k c
  proof -
    have "pending_row (k, c) \<in> set (map pending_row ?stuck)" using that by (auto simp: map_of_SomeD)
    from AppendDeploys_current[OF assms pending_rows_distinct[OF ok] this] show ?thesis
      unfolding d' pending_row_key pending_current by simp
  qed
  have miss: "k \<notin> fst ` set ?stuck \<longleftrightarrow> (\<forall>c. map_of (deploy_current d) k = Some c \<longrightarrow> \<not> stuck now c)" for k
    by (cases k) (auto simp: image_iff gm_entry_iff[OF ok])
  have 1: "case map_of (deploy_current d) k of
      None \<Rightarrow> map_of (deploy_current ?d') k = None
    | Some c \<Rightarrow> if stuck now c
        then \<exists>n. map_of (deploy_current ?d') k = Some (c \<lparr>dc_log_id := n, dc_status := DeployStatusFailed, dc_created := now\<rparr>)
        else map_of (deploy_current ?d') k = Some c" for k
    using other[of k] hit[of k] miss[of k] by (simp split: option.split)
  have "\<not> stuck now c" if "map_of (deploy_current ?d') k = Some c" for k c
    using 1[of k] that by (auto simp: stuck_def DeployStatusFailed_def split: option.splits if_splits)
  moreover have "gm_ok (deploy_current ?d')" using db_ok_gm[OF db_ok_AppendDeploys[OF assms(1)]] d' by simp
  ultimately show ?thesis using 1 by (auto simp: gm_entry_iff)
qed

lemma clock_ok_AppendDeploys: "clock_ok now d \<Longrightarrow> clock_ok now (AppendDeploys now rows d)"
  unfolding AppendDeploys_def by (induction rows arbitrary: d) simp_all

theorem TimeoutPendingDeploys_clears_witness:
  "\<exists>c. map_of (deploy_current (TimeoutPendingDeploys (5 + 2 * hour) (AppendDeploys 5 [example_deploy_row 7 ''sent''] empty_db))) (1, ''loki'')
    = Some c \<and> dc_status c = DeployStatusFailed"
proof -
  let ?d = "AppendDeploys 5 [example_deploy_row 7 ''sent''] empty_db"
  have ok: "db_ok ?d" by (simp add: db_ok_AppendDeploys)
  have clock: "clock_ok (5 + 2 * hour) ?d" and e: "clock_ok 5 empty_db"
    by (simp_all add: clock_ok_def AppendDeploys_def append_deploy_row_def insert_deploy_def empty_db_def)
  obtain n where "map_of (deploy_current ?d) (1, ''loki'') =
      Some (deploy_current_of ((example_deploy_row 7 ''sent'') \<lparr>dl_id := n, dl_created := 5\<rparr>))"
    using AppendDeploys_current[OF db_ok_empty e, of "[example_deploy_row 7 ''sent'']"]
    by (auto simp: dl_key_def example_deploy_row_def)
  then show ?thesis
    using TimeoutPendingDeploys_clears[OF ok clock, of "(1, ''loki'')"]
    by (auto simp: stuck_def deploy_current_of_def example_deploy_row_def)
qed

section \<open>Manual operations\<close>

text \<open>
  C34. Redeploying by hand keeps the reconciler's rules: when \<open>Redeploy\<close> returns no error, the
  environment had reported within three minutes, the feature was not disabled there, its current
  instruction was not in progress, and what was published (at most one message) is that feature with
  the hash of the current instruction.
\<close>

theorem Redeploy_settled:
  assumes "db_ok (w_db w)" and "Redeploy x aud io (Some (NewPubSubDeployer x io)) envID featureName w = (Inr (), w')"
  shows "\<exists>c. map_of (deploy_current (w_db w)) (envID, featureName) = Some c \<and> \<not> IsInProgress (dc_status c) \<and>
    map_of (disabled_features (w_db w)) (envID, featureName) = None \<and>
    (\<exists>t. map_of (health_statuses (w_db w)) envID = Some t \<and> io_now io - t \<le> 3 * minute) \<and>
    (w_sent w' = w_sent w \<or> (\<exists>topic m. w_sent w' = w_sent w @ [(topic, m)] \<and> mi_Name m = featureName \<and>
       mi_ConfigHash m = dc_hash c \<and> \<not> mi_Uninstall m))"
proof -
  obtain snap env a decision where snap: "fetchSnapshot x aud (io_fails io) (w_db w) = Inr snap"
    and env: "find (\<lambda>env. en_ID env = envID) (s_environments snap) = Some env"
    and a: "find (\<lambda>a. f_Name (ra_Feature a) = featureName) (env_winners snap env) = Some a"
    and healthy: "healthy_env (io_now io) snap (en_ID env)"
    and enabled: "\<not> flag2 (s_disabledByEnv snap) (en_ID env) featureName"
    and dec: "computeAction x snap env a = Inr decision" and act: "dd_Action decision = ActionSkipUnchanged"
    and dep: "Deploy x io [decision \<lparr>dd_Action := ActionDeploy, dd_Message := ''redeploy requested''\<rparr>] w = (Inr (), w')"
    using assms(2) by (auto simp: Redeploy_def NewPubSubDeployer_def split: sum.splits option.splits if_splits prod.splits)
  have ids: "en_ID env = envID" "f_Name (ra_Feature a) = featureName"
    using find_SomeD[OF env] find_SomeD[OF a] by simp_all
  have "\<not> Action_IsFailure (dd_Action decision)" by (simp add: act Action_IsFailure_def Action_defs)
  from computeAction_settled[OF dec this] act obtain i where i: "latest_instr snap env a = Some i"
    and prog: "\<not> IsInProgress (li_Status i)" and hash: "li_Hash i = dd_Hash decision" by auto
  then obtain c where c: "map_of (deploy_current (w_db w)) (envID, featureName) = Some c"
    and ic: "li_Hash i = dc_hash c" "li_Status i = dc_status c"
    using snapshot_latestInstr[OF snap assms(1)] ids by (auto simp: latest_instr_def)
  have f: "dd_Feature decision = ra_Feature a" using computeAction_for[OF dec] by (simp add: decision_for_def)
  let ?d = "decision \<lparr>dd_Action := ActionDeploy, dd_Message := ''redeploy requested''\<rparr>"
  obtain items where items: "to_publish x io [?d] = Inr items"
    and sent: "w_sent w' = w_sent w @ map (\<lambda>item. (pi_topicID item, pi_instruction item)) (accepted io items)"
    using Deploy_Inr[OF dep] by blast
  from items obtain item where item: "items = [item]" and pub: "publish_item x (?d, io_diid io 0) = Inr item"
    by (auto simp: to_publish_def bindE_eq_Inr)
  have "w_sent w' = w_sent w \<or> (\<exists>topic m. w_sent w' = w_sent w @ [(topic, m)] \<and> mi_Name m = featureName \<and>
       mi_ConfigHash m = dc_hash c \<and> \<not> mi_Uninstall m)"
    using sent item publish_item_facts[OF pub] f ids hash ic by (auto simp: accepted_def)
  moreover have "\<exists>t. map_of (health_statuses (w_db w)) envID = Some t \<and> io_now io - t \<le> 3 * minute"
    using healthy ids snapshot_health[OF snap assms(1)] by (auto simp: healthy_env_def split: option.splits)
  ultimately show ?thesis
    using c prog ic enabled ids snapshot_disabled[OF snap] by auto
qed

definition settled_row :: DeployLog where
  "settled_row = \<lparr>dl_id = 0, dl_diid = 7, dl_environment_id = 1, dl_feature_assignment_id = 2, dl_feature_name = ''loki'',
     dl_feature_version = ''1'', dl_status = DeployStatusDeployed, dl_hash = ''1oci://charts/loki'', dl_values = [], dl_created = 0\<rparr>"

definition settled_world :: world where
  "settled_world = \<lparr>w_db = AppendDeploys 900 [settled_row] example_db, w_sent = []\<rparr>"

definition settled_snapshot :: snapshot where
  "settled_snapshot = example_snapshot \<lparr>
     s_latestInstr := [(1, [(''loki'', \<lparr>li_Hash = ''1oci://charts/loki'', li_Status = DeployStatusDeployed\<rparr>)])],
     s_deployedFeats := [(1, [(''loki'', True)])]\<rparr>"

lemma settled_world_ok: "db_ok (w_db settled_world)"
  by (simp add: settled_world_def db_ok_AppendDeploys example_db_ok)

lemma settled_fetch: "fetchSnapshot example_externals [] (\<lambda>_. False) (w_db settled_world) = Inr settled_snapshot"
  by (simp add: fetch_eval settled_world_def settled_row_def AppendDeploys_def append_deploy_row_def insert_deploy_def
      deploy_log_to_current_def gm_put2_def dl_key_def deploy_current_of_def settled_snapshot_def DeployStatusDeployed_def
      example_db_def empty_db_def example_snapshot_def example_env_def example_assignment_def
      example_externals_def echo_externals_def example_feature_def example_cv_def example_row_def merged_of_global_def
      EnvironmentKindTenant_def EnvironmentKindManagement_def)

lemma desired_ignores_deploys [simp]:
  "desired x (snap \<lparr>s_latestInstr := l, s_deployedFeats := f\<rparr>) env a = desired x snap env a"
  by (simp add: desired_def merged_config_def Let_def cong: option.case_cong sum.case_cong)

lemma desired_example_externals [simp]:
  "desired example_externals example_snapshot example_env example_assignment = Some (example_values, ''1oci://charts/loki'')"
proof -
  have "desired example_externals example_snapshot example_env example_assignment =
      desired echo_externals example_snapshot example_env example_assignment"
    by (simp add: desired_def example_externals_def RenderHelmValues_decode generateHash_def Let_def
        cong: option.case_cong sum.case_cong)
  then show ?thesis by (simp add: example_desired)
qed

lemma settled_action:
  "computeAction example_externals settled_snapshot example_env example_assignment = Inr
     (decide ActionSkipUnchanged ''in sync'' ((base_decision example_env example_assignment)
        \<lparr>dd_Values := example_values, dd_Hash := ''1oci://charts/loki''\<rparr>))"
proof -
  have deps: "deps_satisfied settled_snapshot example_env example_assignment"
    by (simp add: deps_satisfied_def example_assignment_def example_feature_def)
  have des: "desired example_externals settled_snapshot example_env example_assignment = Some (example_values, ''1oci://charts/loki'')"
    by (simp add: settled_snapshot_def)
  have i: "latest_instr settled_snapshot example_env example_assignment =
      Some \<lparr>li_Hash = ''1oci://charts/loki'', li_Status = DeployStatusDeployed\<rparr>"
    by (simp add: latest_instr_def settled_snapshot_def gm_get2_def example_env_def example_assignment_def example_feature_def)
  show ?thesis
    by (simp add: computeAction_renders[OF deps des] i IsInProgress_def DeployStatusDeployed_def DeployStatusSent_def
        DeployStatusInstalling_def)
qed

lemma example_marshal [simp]: "x_marshal example_externals v = Inr []"
  by (simp add: example_externals_def echo_externals_def)

lemma example_Deploy_ok: "fst (Deploy example_externals example_io [d] w) = Inr ()"
  by (simp add: Deploy_def to_publish_def publish_item_def accepted_def Let_def)

lemma settled_Redeploy:
  "\<exists>w'. Redeploy example_externals [] example_io (Some (NewPubSubDeployer example_externals example_io)) 1 ''loki'' settled_world = (Inr (), w')"
proof -
  have w: "env_winners settled_snapshot example_env = [example_assignment]"
    by (simp add: env_winners_def matchAssignments_def settled_snapshot_def example_snapshot_def example_assignment_def
        example_env_def labelsContain_def mostSpecificPerFeature_def ra_winner_def)
  have env: "s_environments settled_snapshot = [example_env]" "en_ID example_env = 1"
    by (simp_all add: settled_snapshot_def example_snapshot_def example_env_def)
  have f: "f_Name (ra_Feature example_assignment) = ''loki''"
    by (simp add: example_assignment_def example_feature_def)
  have h: "healthy_env (io_now example_io) settled_snapshot 1" and e: "\<not> flag2 (s_disabledByEnv settled_snapshot) 1 ''loki''"
    by (simp_all add: healthy_env_def flag2_def gm_get2_def settled_snapshot_def example_snapshot_def)
  have q: "io_fails example_io = (\<lambda>_. False)" by (simp add: example_io_def)
  let ?d = "(decide ActionSkipUnchanged ''in sync'' ((base_decision example_env example_assignment)
        \<lparr>dd_Values := example_values, dd_Hash := ''1oci://charts/loki''\<rparr>)) \<lparr>dd_Action := ActionDeploy, dd_Message := ''redeploy requested''\<rparr>"
  obtain w' where "Deploy example_externals example_io [?d] settled_world = (Inr (), w')"
    using example_Deploy_ok by (metis prod.collapse)
  then have "Redeploy example_externals [] example_io (Some (NewPubSubDeployer example_externals example_io)) 1 ''loki'' settled_world = (Inr (), w')"
    unfolding Redeploy_def q settled_fetch using env w f h e settled_action by (simp add: NewPubSubDeployer_def)
  then show ?thesis by blast
qed

theorem Redeploy_settled_witness:
  "\<exists>c. map_of (deploy_current (w_db settled_world)) (1, ''loki'') = Some c \<and> \<not> IsInProgress (dc_status c)"
  using settled_Redeploy Redeploy_settled[OF settled_world_ok] by blast

end
