(* ===== verification/Receiver.thy ===== *)
theory Receiver
  imports Deployer Store "HOL-Library.Word"
begin

text \<open>
  Reports from the agents: \<open>internal/reconciler/receiver.go\<close> with its statements, the message types of
  \<open>internal/message/status.go\<close>, and the readers of what was reported
  (\<open>internal/naisdstatus/queries.go\<close>).

  A message is acknowledged when its handler returns no error and delivered again otherwise. Decoding
  the JSON body of a message is a parameter per kind of message (\<open>None\<close> when it is not valid). The
  statements of the receiver run on the pool, also inside \<open>WithTx\<close>, because its querier was made from the
  pool.
\<close>

section \<open>Messages\<close>

type_synonym StatusType = int

definition StatusTypeKubernetesEvent :: StatusType where "StatusTypeKubernetesEvent = 1"
definition StatusTypeHelm :: StatusType where "StatusTypeHelm = 2"
definition StatusTypeHelmReleases :: StatusType where "StatusTypeHelmReleases = 3"
definition StatusTypeHealth :: StatusType where "StatusTypeHealth = 4"
definition StatusKubernetesNodes_deprecated :: StatusType where "StatusKubernetesNodes_deprecated = 5"
definition StatusTypeLog :: StatusType where "StatusTypeLog = 6"

lemmas StatusType_defs = StatusTypeKubernetesEvent_def StatusTypeHelm_def StatusTypeHelmReleases_def
  StatusTypeHealth_def StatusKubernetesNodes_deprecated_def StatusTypeLog_def

definition StatusType_String :: "StatusType \<Rightarrow> string" where
  "StatusType_String s =
     (if s = StatusTypeKubernetesEvent then ''kubernetes_event''
      else if s = StatusTypeHelm then ''helm''
      else if s = StatusTypeHelmReleases then ''helm_releases''
      else if s = StatusTypeHealth then ''health''
      else if s = StatusTypeLog then ''log''
      else ''unknown'')"

record Status =
  st_Tenant :: string
  st_Environment :: string
  st_Type :: StatusType
  st_Data :: string

record Helm =
  h_DIID :: uuid
  h_Name :: string
  h_Version :: string
  h_RolloutStatus :: DeployStatus
  h_ConfigHash :: string
  h_Log :: string
  h_Error :: string

record Release =
  rel_Name :: string
  rel_Version :: string
  rel_Status :: string
  rel_Revision :: int
  rel_LastDeployed :: gotime

record HelmRelease =
  hr_Created :: gotime
  hr_Releases :: "Release list"

record LogLine =
  ll_Time :: gotime
  ll_Msg :: string
  ll_Kind :: string

record StatusLog =
  sl_DIID :: uuid
  sl_Logs :: "LogLine list"

text \<open>\<open>json.Unmarshal\<close> into each of the message types.\<close>

record decoders =
  dec_helm :: "string \<Rightarrow> Helm option"
  dec_releases :: "string \<Rightarrow> HelmRelease option"
  dec_health :: "string \<Rightarrow> gotime option"
  dec_log :: "string \<Rightarrow> StatusLog option"

text \<open>The tables and the notices posted to Slack (feature, tenant, environment).\<close>

record inbox =
  ib_db :: db
  ib_slack :: "(string \<times> string \<times> string) list"

section \<open>Deploy reports\<close>

definition LatestDeployByDIID :: "uuid \<Rightarrow> db \<Rightarrow> DeployLog option" where
  "LatestDeployByDIID diid d =
     (case sort_key (\<lambda>r. (- dl_created r, - int (dl_id r))) (filter (\<lambda>r. dl_diid r = diid) (deploy_log d)) of
        [] \<Rightarrow> None | r # _ \<Rightarrow> Some r)"

definition status_row :: "Helm \<Rightarrow> DeployLog \<Rightarrow> DeployLog" where
  "status_row helmStatus deploy = \<lparr>dl_id = 0, dl_diid = h_DIID helmStatus, dl_environment_id = dl_environment_id deploy,
     dl_feature_assignment_id = dl_feature_assignment_id deploy, dl_feature_name = dl_feature_name deploy,
     dl_feature_version = dl_feature_version deploy, dl_status = h_RolloutStatus helmStatus, dl_hash = dl_hash deploy,
     dl_values = ''{}'', dl_created = 0\<rparr>"

definition AppendDeployStatus :: "io \<Rightarrow> DeployLog \<Rightarrow> unit op" where
  "AppendDeployStatus io row = execT io ''AppendDeployStatus'' (append_deploy_row (io_now io) row)"

definition append_status :: "io \<Rightarrow> Helm \<Rightarrow> DeployLog \<Rightarrow> inbox \<Rightarrow> (err + unit) \<times> inbox" where
  "append_status io helmStatus deploy w =
     (case AppendDeployStatus io (status_row helmStatus deploy) (ib_db w) of
        (Inl e, d) \<Rightarrow> (Inl (Wrap ''appending deploy status'' e), w \<lparr>ib_db := d\<rparr>)
      | (Inr u, d) \<Rightarrow> (Inr (), w \<lparr>ib_db := d\<rparr>))"

definition notify_failed :: "io \<Rightarrow> DeployLog \<Rightarrow> Environment \<Rightarrow> string \<Rightarrow> inbox \<Rightarrow> inbox" where
  "notify_failed io deploy env tenantName w =
     (if io_fails io ''PostMessage'' then w
      else w \<lparr>ib_slack := ib_slack w @ [(dl_feature_name deploy, tenantName, e_Name env)]\<rparr>)"

definition handlerHelm :: "decoders \<Rightarrow> io \<Rightarrow> Status \<Rightarrow> inbox \<Rightarrow> (err + unit) \<times> inbox" where
  "handlerHelm dec io status w =
     (case dec_helm dec (st_Data status) of
        None \<Rightarrow> (Inr (), w)
      | Some helmStatus \<Rightarrow>
     (case one io ''LatestDeployByDIID'' (LatestDeployByDIID (h_DIID helmStatus) (ib_db w)) of
        Inl e \<Rightarrow> if errors_Is e ErrNoRows then (Inr (), w) else (Inl e, w)
      | Inr deploy \<Rightarrow>
     (case environment_Get io (dl_environment_id deploy) (ib_db w) of
        Inl e \<Rightarrow> if errors_Is e ErrNoRows then (Inr (), w) else (Inl e, w)
      | Inr env \<Rightarrow>
     if h_RolloutStatus helmStatus = DeployStatusFailed
     then (case GetTenant io (e_TenantID env) (ib_db w) of
             Inl e \<Rightarrow> (Inl (Wrap ''getting tenant'' e), w)
           | Inr tenant \<Rightarrow> append_status io helmStatus deploy (notify_failed io deploy env (t_Name tenant) w))
     else append_status io helmStatus deploy w)))"

section \<open>Release and health reports\<close>

text \<open>The conversion \<open>int32(x)\<close>: the low 32 bits, signed.\<close>

definition int32 :: "int \<Rightarrow> int" where
  "int32 i = sint (word_of_int i :: 32 word)"

definition DeleteReleaseStatusesInEnvironment :: "uuid \<Rightarrow> db \<Rightarrow> db" where
  "DeleteReleaseStatusesInEnvironment envID d =
     d \<lparr>release_statuses := filter (\<lambda>e. fst (fst e) \<noteq> envID) (release_statuses d)\<rparr>"

definition SetReleaseStatus :: "gotime \<Rightarrow> uuid \<Rightarrow> Release \<Rightarrow> db \<Rightarrow> db" where
  "SetReleaseStatus now envID rel d =
     d \<lparr>release_statuses := gm_put (envID, rel_Name rel)
       (case map_of (release_statuses d) (envID, rel_Name rel) of
          None \<Rightarrow> \<lparr>rs_version = rel_Version rel, rs_status = rel_Status rel, rs_revision = int32 (rel_Revision rel),
                   rs_last_deployed = rel_LastDeployed rel, rs_created = now, rs_last_modified = now\<rparr>
        | Some r \<Rightarrow> r \<lparr>rs_version := rel_Version rel, rs_status := rel_Status rel, rs_revision := int32 (rel_Revision rel),
                       rs_last_deployed := rel_LastDeployed rel, rs_last_modified := now\<rparr>)
       (release_statuses d)\<rparr>"

fun set_releases :: "io \<Rightarrow> uuid \<Rightarrow> Release list \<Rightarrow> unit op" where
  "set_releases io envID [] = returnT ()"
| "set_releases io envID (rel # rels) =
     bindT (wrapT ''creating release status'' (execT io (''SetReleaseStatus '' @ rel_Name rel) (SetReleaseStatus (io_now io) envID rel)))
       (\<lambda>u. set_releases io envID rels)"

definition write_releases :: "io \<Rightarrow> uuid \<Rightarrow> Release list \<Rightarrow> unit op" where
  "write_releases io envID rels =
     pool_tx io
       (bindT (wrapT ''deleting release status'' (execT io ''DeleteReleaseStatusesInEnvironment'' (DeleteReleaseStatusesInEnvironment envID)))
          (\<lambda>u. set_releases io envID rels))
       (\<lambda>u. returnT ())"

definition releaseStatus :: "decoders \<Rightarrow> io \<Rightarrow> Status \<Rightarrow> unit op" where
  "releaseStatus dec io msg d =
     (case dec_releases dec (st_Data msg) of
        None \<Rightarrow> (Inr (), d)
      | Some status \<Rightarrow>
     (case GetTenantByName io (st_Tenant msg) d of
        Inl e \<Rightarrow> (Inr (), d)
      | Inr t \<Rightarrow>
     (case environment_GetByName io (t_ID t) (st_Environment msg) d of
        Inl e \<Rightarrow> if errors_Is e ErrNoRows then (Inr (), d) else (Inl (Wrap ''getting environment id'' e), d)
      | Inr env \<Rightarrow> write_releases io (e_ID env) (hr_Releases status) d)))"

definition naisdstatus_Set :: "io \<Rightarrow> uuid \<Rightarrow> gotime \<Rightarrow> unit op" where
  "naisdstatus_Set io envID reportedAt =
     execT io ''SetNaisdHealthStatus'' (\<lambda>d. d \<lparr>health_statuses := gm_put envID reportedAt (health_statuses d)\<rparr>)"

definition healthStatus :: "decoders \<Rightarrow> io \<Rightarrow> Status \<Rightarrow> unit op" where
  "healthStatus dec io msg d =
     (case dec_health dec (st_Data msg) of
        None \<Rightarrow> (Inr (), d)
      | Some reportedAt \<Rightarrow>
     (case GetTenantByName io (st_Tenant msg) d of
        Inl e \<Rightarrow> (Inr (), d)
      | Inr t \<Rightarrow>
     (case environment_GetByName io (t_ID t) (st_Environment msg) d of
        Inl e \<Rightarrow> if errors_Is e ErrNoRows then (Inr (), d) else (Inl e, d)
      | Inr env \<Rightarrow> naisdstatus_Set io (e_ID env) reportedAt d)))"

section \<open>Log lines\<close>

definition log_row :: "uuid \<Rightarrow> LogLine \<Rightarrow> LogRow" where
  "log_row diid line = \<lparr>lr_deploy_instruction = diid, lr_time = ll_Time line, lr_message = ll_Msg line, lr_kind = ll_Kind line\<rparr>"

text \<open>The lines are one batch, which PostgreSQL runs as one transaction.\<close>

definition logCreate :: "io \<Rightarrow> uuid \<Rightarrow> LogLine list \<Rightarrow> unit op" where
  "logCreate io diid lines = execT io ''LogsCreate'' (\<lambda>d. d \<lparr>logs := logs d @ map (log_row diid) lines\<rparr>)"

definition handleStatusLog :: "decoders \<Rightarrow> io \<Rightarrow> Status \<Rightarrow> unit op" where
  "handleStatusLog dec io msg d =
     (case dec_log dec (st_Data msg) of
        None \<Rightarrow> (Inr (), d)
      | Some status \<Rightarrow> (Inr (), snd (logCreate io (sl_DIID status) (sl_Logs status) d)))"

section \<open>The handler\<close>

definition on_db :: "unit op \<Rightarrow> inbox \<Rightarrow> (err + unit) \<times> inbox" where
  "on_db f w = (case f (ib_db w) of (r, d) \<Rightarrow> (r, w \<lparr>ib_db := d\<rparr>))"

definition handler :: "decoders \<Rightarrow> io \<Rightarrow> Status \<Rightarrow> inbox \<Rightarrow> (err + unit) \<times> inbox" where
  "handler dec io msg w =
     (if st_Type msg = StatusTypeHelm then handlerHelm dec io msg w
      else if st_Type msg = StatusTypeHelmReleases then on_db (releaseStatus dec io msg) w
      else if st_Type msg = StatusTypeHealth then on_db (healthStatus dec io msg) w
      else if st_Type msg = StatusTypeLog then on_db (handleStatusLog dec io msg) w
      else (Inr (), w))"

section \<open>Reading what was reported\<close>

record FeatureRelease =
  fr_Name :: string
  fr_Version :: string
  fr_Status :: string
  fr_Revision :: int
  fr_LastDeployed :: gotime
  fr_Created :: gotime
  fr_LastModified :: gotime

definition release_of_row :: "string \<Rightarrow> ReleaseStatus \<Rightarrow> FeatureRelease" where
  "release_of_row feature r = \<lparr>fr_Name = feature, fr_Version = rs_version r, fr_Status = rs_status r, fr_Revision = rs_revision r,
     fr_LastDeployed = rs_last_deployed r, fr_Created = rs_created r, fr_LastModified = rs_last_modified r\<rparr>"

text \<open>The time that stands for an environment that never reported, 1969-06-09 06:09:06.000000009 UTC.\<close>

definition never_reported :: gotime where
  "never_reported = 718956 * 24 * hour + 6 * hour + 9 * minute + 6 * second + 9"

definition naisdstatus_Get :: "io \<Rightarrow> uuid \<Rightarrow> db \<Rightarrow> err + gotime" where
  "naisdstatus_Get io envID d =
     (case one io ''GetNaisdHealthStatus'' (map_of (health_statuses d) envID) of
        Inl e \<Rightarrow> if errors_Is e ErrNoRows then Inr never_reported else Inl e
      | Inr t \<Rightarrow> Inr t)"

definition ListReleaseStatuses :: "io \<Rightarrow> uuid \<Rightarrow> db \<Rightarrow> err + FeatureRelease list" where
  "ListReleaseStatuses io envID d = query (io_fails io) ''ListReleaseStatuses''
     (map (\<lambda>((e, f), r). release_of_row f r) (filter (\<lambda>((e, f), r). e = envID) (release_statuses d)))"

definition ReleaseStatusesForFeature :: "io \<Rightarrow> string \<Rightarrow> db \<Rightarrow> err + (uuid, FeatureRelease) gomap" where
  "ReleaseStatusesForFeature io featureName d =
     bindE (query (io_fails io) ''ListReleaseStatusesForFeature'' (filter (\<lambda>((e, f), r). f = featureName) (release_statuses d))) (\<lambda>rows.
     Inr (index_by (\<lambda>((e, f), r). e) (\<lambda>((e, f), r). release_of_row f r) rows))"

definition GetReleaseStatus :: "io \<Rightarrow> uuid \<Rightarrow> string \<Rightarrow> db \<Rightarrow> err + FeatureRelease option" where
  "GetReleaseStatus io envID featureName d =
     (case one io ''GetReleaseStatus'' (map_of (release_statuses d) (envID, featureName)) of
        Inl e \<Rightarrow> if errors_Is e ErrNoRows then Inr None else Inl e
      | Inr r \<Rightarrow> Inr (Some (release_of_row featureName r)))"

section \<open>A deploy report\<close>

lemma LatestDeployByDIID_None: "LatestDeployByDIID diid d = None \<longleftrightarrow> diid \<notin> dl_diid ` set (deploy_log d)"
proof -
  have "LatestDeployByDIID diid d = None \<longleftrightarrow> filter (\<lambda>r. dl_diid r = diid) (deploy_log d) = []"
    unfolding LatestDeployByDIID_def
    by (metis (no_types, lifting) list.case_eq_if list.exhaust_sel list.simps(4) option.distinct(1) set_empty set_sort)
  then show ?thesis by (auto simp: filter_empty_conv)
qed

lemma LatestDeployByDIID_Some:
  assumes "LatestDeployByDIID diid d = Some r"
  shows "r \<in> set (deploy_log d)" and "dl_diid r = diid"
    and "r' \<in> set (deploy_log d) \<Longrightarrow> dl_diid r' = diid \<Longrightarrow> dl_rank r' \<le> dl_rank r"
proof -
  let ?k = "\<lambda>r. (- dl_created r, - int (dl_id r))"
  let ?rows = "filter (\<lambda>r. dl_diid r = diid) (deploy_log d)"
  obtain rs where s: "sort_key ?k ?rows = r # rs"
    using assms by (auto simp: LatestDeployByDIID_def split: list.splits)
  then have mem: "r \<in> set ?rows" by (metis list.set_intros(1) set_sort)
  then show "r \<in> set (deploy_log d)" and "dl_diid r = diid" by auto
  assume r': "r' \<in> set (deploy_log d)" "dl_diid r' = diid"
  then have "r' \<in> set (sort_key ?k ?rows)" by simp
  then have "r' \<in> set (r # rs)" using s by simp
  moreover have "sorted (map ?k (r # rs))" using s sorted_sort_key[of ?k ?rows] by simp
  ultimately have "?k r \<le> ?k r'" by auto
  then show "dl_rank r' \<le> dl_rank r" by (auto simp: dl_rank_def)
qed

lemma status_row_key [simp]: "dl_key (status_row h r) = dl_key r"
  by (simp add: dl_key_def status_row_def)

lemma append_status_Inr:
  "append_status io h r w = (Inr (), w') \<longleftrightarrow> \<not> io_fails io ''AppendDeployStatus'' \<and>
     w' = w \<lparr>ib_db := append_deploy_row (io_now io) (status_row h r) (ib_db w)\<rparr>"
  by (auto simp: append_status_def AppendDeployStatus_def execT_def)

lemma one_cases:
  "one io name x = r \<Longrightarrow> (r = Inl (ErrQuery name) \<and> io_fails io name) \<or> (r = Inl ErrNoRows \<and> x = None) \<or> (\<exists>a. r = Inr a \<and> x = Some a)"
  by (auto simp: one_def split: if_splits option.splits)

text \<open>A report is dropped, refused with the tables as they were, or appended.\<close>

lemma handlerHelm_shape:
  assumes "dec_helm dec (st_Data msg) = Some h"
  shows "(\<exists>e. handlerHelm dec io msg w = (Inl e, w)) \<or>
    (handlerHelm dec io msg w = (Inr (), w) \<and>
       (\<forall>r. LatestDeployByDIID (h_DIID h) (ib_db w) = Some r \<longrightarrow> dl_environment_id r \<notin> e_ID ` set (environments (ib_db w)))) \<or>
    (\<exists>r w1. LatestDeployByDIID (h_DIID h) (ib_db w) = Some r \<and> dl_environment_id r \<in> e_ID ` set (environments (ib_db w)) \<and>
       ib_db w1 = ib_db w \<and> handlerHelm dec io msg w = append_status io h r w1)"
proof -
  note unf = handlerHelm_def assms option.case
  consider (fail) "io_fails io ''LatestDeployByDIID''" | (none) "\<not> io_fails io ''LatestDeployByDIID''" "LatestDeployByDIID (h_DIID h) (ib_db w) = None"
    | (some) r where "\<not> io_fails io ''LatestDeployByDIID''" "LatestDeployByDIID (h_DIID h) (ib_db w) = Some r"
    by fastforce
  then show ?thesis
  proof cases
    case fail
    then have "handlerHelm dec io msg w = (Inl (ErrQuery ''LatestDeployByDIID''), w)" by (simp add: unf one_def)
    then show ?thesis by blast
  next
    case none
    then show ?thesis by (simp add: unf one_def)
  next
    case some
    show ?thesis
    proof (cases "environment_Get io (dl_environment_id r) (ib_db w)")
      case (Inl e)
      then show ?thesis
        using some one_cases[of io "''GetEnvironment''" "find (\<lambda>e. e_ID e = dl_environment_id r) (environments (ib_db w))" "Inl e"]
        by (auto simp: unf one_def[of io "''LatestDeployByDIID''"] environment_Get_def find_None_iff)
    next
      case (Inr env)
      then have "env \<in> set (environments (ib_db w)) \<and> e_ID env = dl_environment_id r"
        by (auto simp: environment_Get_def dest!: find_SomeD)
      then have mem: "dl_environment_id r \<in> e_ID ` set (environments (ib_db w))" by (metis imageI)
      have one: "one io ''LatestDeployByDIID'' (LatestDeployByDIID (h_DIID h) (ib_db w)) = Inr r" using some by simp
      show ?thesis
      proof (cases "h_RolloutStatus h = DeployStatusFailed")
        case False
        then have "handlerHelm dec io msg w = append_status io h r w" by (simp add: unf one Inr)
        then show ?thesis using some mem by blast
      next
        case True
        show ?thesis
        proof (cases "GetTenant io (e_TenantID env) (ib_db w)")
          case (Inl e)
          then have "handlerHelm dec io msg w = (Inl (Wrap ''getting tenant'' e), w)" by (simp add: unf one Inr True)
          then show ?thesis by blast
        next
          case (Inr tenant)
          then have "handlerHelm dec io msg w = append_status io h r (notify_failed io r env (t_Name tenant) w)"
            using True by (simp add: unf one \<open>environment_Get io (dl_environment_id r) (ib_db w) = Inr env\<close>)
          moreover have "ib_db (notify_failed io r env (t_Name tenant) w) = ib_db w" by (simp add: notify_failed_def)
          ultimately show ?thesis using some mem by blast
        qed
      qed
    qed
  qed
qed

lemma append_status_db: "fst (append_status io h r w) = Inl e \<Longrightarrow> ib_db (snd (append_status io h r w)) = ib_db w"
  by (auto simp: append_status_def AppendDeployStatus_def execT_def split: if_splits)

text \<open>
  C35. A deploy report is recorded against the instruction that was sent: a report with an identifier that
  the deploy log does not know changes nothing; otherwise one row is appended that has the reported
  status and takes environment, assignment, feature, version and hash from the latest row of that
  identifier, and this row becomes the current one of its environment and feature while all others
  stay. When handling fails, the database is as it was, so that the message can be delivered again.
\<close>

theorem handlerHelm_records:
  assumes "db_ok (ib_db w)" and "clock_ok (io_now io) (ib_db w)" and "dec_helm dec (st_Data msg) = Some h"
  shows "(case handlerHelm dec io msg w of
      (Inl e, w') \<Rightarrow> ib_db w' = ib_db w
    | (Inr u, w') \<Rightarrow> (case LatestDeployByDIID (h_DIID h) (ib_db w) of
          None \<Rightarrow> w' = w
        | Some r \<Rightarrow> if dl_environment_id r \<notin> e_ID ` set (environments (ib_db w)) then w' = w
            else \<exists>row. deploy_log (ib_db w') = deploy_log (ib_db w) @ [row] \<and>
              row_id row = (h_DIID h, dl_feature_name r, dl_feature_version r, dl_hash r) \<and>
              dl_status row = h_RolloutStatus h \<and> dl_environment_id row = dl_environment_id r \<and>
              dl_feature_assignment_id row = dl_feature_assignment_id r \<and>
              (\<forall>k. map_of (deploy_current (ib_db w')) k =
                 (if k = dl_key r then Some (deploy_current_of row) else map_of (deploy_current (ib_db w)) k))))"
proof -
  consider (err) e where "handlerHelm dec io msg w = (Inl e, w)"
    | (drop) "handlerHelm dec io msg w = (Inr (), w)"
      "\<forall>r. LatestDeployByDIID (h_DIID h) (ib_db w) = Some r \<longrightarrow> dl_environment_id r \<notin> e_ID ` set (environments (ib_db w))"
    | (app) r w1 where "LatestDeployByDIID (h_DIID h) (ib_db w) = Some r" "dl_environment_id r \<in> e_ID ` set (environments (ib_db w))"
      "ib_db w1 = ib_db w" "handlerHelm dec io msg w = append_status io h r w1"
    using handlerHelm_shape[OF assms(3)] by blast
  then show ?thesis
  proof cases
    case err
    then show ?thesis by simp
  next
    case drop
    then show ?thesis by (auto split: option.splits)
  next
    case app
    let ?row = "(status_row h r) \<lparr>dl_id := deploy_seq (ib_db w), dl_created := io_now io\<rparr>"
    show ?thesis
    proof (cases "append_status io h r w1")
      case (Pair res w')
      show ?thesis
      proof (cases res)
        case (Inl e)
        then show ?thesis using app Pair append_status_db[of io h r w1 e] by simp
      next
        case (Inr u)
        then have w': "ib_db w' = append_deploy_row (io_now io) (status_row h r) (ib_db w)"
          using app(3) Pair by (auto simp: append_status_Inr)
        have "\<exists>row. deploy_log (ib_db w') = deploy_log (ib_db w) @ [row] \<and>
              row_id row = (h_DIID h, dl_feature_name r, dl_feature_version r, dl_hash r) \<and>
              dl_status row = h_RolloutStatus h \<and> dl_environment_id row = dl_environment_id r \<and>
              dl_feature_assignment_id row = dl_feature_assignment_id r \<and>
              (\<forall>k. map_of (deploy_current (ib_db w')) k =
                 (if k = dl_key r then Some (deploy_current_of row) else map_of (deploy_current (ib_db w)) k))"
          using append_deploy_current[OF assms(1,2), of "status_row h r"]
          by (intro exI[of _ ?row]) (simp add: w', simp add: row_id_def status_row_def)
        then show ?thesis using app Pair Inr by simp
      qed
    qed
  qed
qed

definition example_report :: Helm where
  "example_report = \<lparr>h_DIID = 100, h_Name = ''loki'', h_Version = ''1'', h_RolloutStatus = DeployStatusDeployed,
     h_ConfigHash = ''1oci://charts/loki'', h_Log = [], h_Error = []\<rparr>"

definition example_decoders :: decoders where
  "example_decoders = \<lparr>dec_helm = \<lambda>_. Some example_report,
     dec_releases = \<lambda>_. Some \<lparr>hr_Created = 0, hr_Releases = [\<lparr>rel_Name = ''loki'', rel_Version = ''1'', rel_Status = ''deployed'',
       rel_Revision = 2 ^ 31, rel_LastDeployed = 5\<rparr>]\<rparr>,
     dec_health = \<lambda>_. Some 1000, dec_log = \<lambda>_. None\<rparr>"

definition example_msg :: Status where
  "example_msg = \<lparr>st_Tenant = ''acme'', st_Environment = ''prod'', st_Type = StatusTypeHelm, st_Data = []\<rparr>"

definition sent_row :: DeployLog where
  "sent_row = \<lparr>dl_id = 0, dl_diid = 100, dl_environment_id = 1, dl_feature_assignment_id = 2,
     dl_feature_name = ''loki'', dl_feature_version = ''1'', dl_status = DeployStatusSent, dl_hash = ''1oci://charts/loki'',
     dl_values = [], dl_created = 0\<rparr>"

lemma example_sent_db: "w_db example_sent_world = AppendDeploys 1000 [sent_row] example_db"
proof -
  have row: "\<lparr>dl_id = 0, dl_diid = 100, dl_environment_id = dd_EnvironmentID example_decision,
     dl_feature_assignment_id = dd_FeatureAssignmentID example_decision, dl_feature_name = f_Name (dd_Feature example_decision),
     dl_feature_version = f_Version (dd_Feature example_decision), dl_status = DeployStatusSent,
     dl_hash = dd_Hash example_decision, dl_values = [], dl_created = 0\<rparr> = sent_row"
    by (simp add: example_decision_def example_env_def example_assignment_def example_feature_def sent_row_def)
  show ?thesis
    by (simp add: example_sent_world_def Deploy_def example_to_publish accepted_def example_world_def deploy_row_def row)
qed

lemma example_sent_log: "deploy_log (w_db example_sent_world) = [sent_row \<lparr>dl_id := 1, dl_created := 1000\<rparr>]"
  by (simp add: example_sent_db AppendDeploys_def append_deploy_row_def insert_deploy_def example_db_def empty_db_def)

lemma example_sent_ok: "db_ok (w_db example_sent_world)" "clock_ok 1000 (w_db example_sent_world)"
proof -
  have "clock_ok 1000 example_db" using example_clock by (simp add: example_world_def)
  then show "db_ok (w_db example_sent_world)" "clock_ok 1000 (w_db example_sent_world)"
    by (simp_all add: example_sent_db db_ok_AppendDeploys example_db_ok clock_ok_AppendDeploys)
qed

definition example_inbox :: inbox where
  "example_inbox = \<lparr>ib_db = w_db example_sent_world, ib_slack = []\<rparr>"

lemma example_environments: "environments (w_db example_sent_world) = environments example_db"
  by (simp add: example_sent_db AppendDeploys_def append_deploy_row_def insert_deploy_def)

lemma example_handled: "fst (handlerHelm example_decoders example_io example_msg example_inbox) = Inr ()"
  by (simp add: handlerHelm_def example_decoders_def example_report_def example_inbox_def LatestDeployByDIID_def example_sent_log sent_row_def
      environment_Get_def one_def example_environments example_db_def append_status_def AppendDeployStatus_def execT_def
      DeployStatusDeployed_def DeployStatusFailed_def)

theorem handlerHelm_records_witness:
  "\<exists>c. map_of (deploy_current (ib_db (snd (handlerHelm example_decoders example_io example_msg example_inbox)))) (1, ''loki'') = Some c \<and>
     dc_status c = DeployStatusDeployed \<and> dc_hash c = ''1oci://charts/loki''"
proof -
  have dec: "dec_helm example_decoders (st_Data example_msg) = Some example_report" by (simp add: example_decoders_def)
  have ok: "db_ok (ib_db example_inbox)" "clock_ok (io_now example_io) (ib_db example_inbox)"
    using example_sent_ok by (simp_all add: example_inbox_def)
  obtain w' where w': "handlerHelm example_decoders example_io example_msg example_inbox = (Inr (), w')"
    using example_handled by (metis prod.collapse)
  have latest: "LatestDeployByDIID (h_DIID example_report) (ib_db example_inbox) = Some (hd (deploy_log (w_db example_sent_world)))"
    and env: "dl_environment_id (hd (deploy_log (w_db example_sent_world))) \<in> e_ID ` set (environments (ib_db example_inbox))"
    and key: "dl_key (hd (deploy_log (w_db example_sent_world))) = (1, ''loki'')"
    by (simp_all add: LatestDeployByDIID_def example_inbox_def example_sent_log sent_row_def example_report_def dl_key_def example_environments example_db_def)
  have "\<exists>row. row_id row = (100, ''loki'', ''1'', ''1oci://charts/loki'') \<and> dl_status row = DeployStatusDeployed \<and>
      map_of (deploy_current (ib_db w')) (1, ''loki'') = Some (deploy_current_of row)"
    using handlerHelm_records[OF ok dec] w' latest env key
    by (auto simp: example_report_def example_sent_log sent_row_def)
  then show ?thesis using w' by (auto simp: row_id_def deploy_current_of_def)
qed

section \<open>A release report\<close>

lemma int32_eq: "int32 i = (i + 2 ^ 31) mod 2 ^ 32 - 2 ^ 31"
  by (simp add: int32_def int_word_sint)

lemma int32_bounds: "- (2 ^ 31) \<le> int32 i \<and> int32 i < 2 ^ 31"
  unfolding int32_eq by simp

lemma int32_id: "- (2 ^ 31) \<le> i \<Longrightarrow> i < 2 ^ 31 \<Longrightarrow> int32 i = i"
  unfolding int32_eq by simp

definition release_row :: "gotime \<Rightarrow> Release \<Rightarrow> ReleaseStatus" where
  "release_row now rel = \<lparr>rs_version = rel_Version rel, rs_status = rel_Status rel, rs_revision = int32 (rel_Revision rel),
     rs_last_deployed = rel_LastDeployed rel, rs_created = now, rs_last_modified = now\<rparr>"

lemma SetReleaseStatus_lookup:
  assumes "\<And>f r. map_of (release_statuses d) (envID, f) = Some r \<Longrightarrow> rs_created r = now"
  shows "map_of (release_statuses (SetReleaseStatus now envID rel d)) k =
    (if k = (envID, rel_Name rel) then Some (release_row now rel) else map_of (release_statuses d) k)"
proof (cases "map_of (release_statuses d) (envID, rel_Name rel)")
  case (Some r)
  then show ?thesis using assms[OF Some] by (cases r) (auto simp: SetReleaseStatus_def release_row_def)
qed (auto simp: SetReleaseStatus_def release_row_def)

lemma set_releases_lookup:
  assumes "set_releases io envID rels d = (Inr (), d')"
    and "\<And>f r. map_of (release_statuses d) (envID, f) = Some r \<Longrightarrow> rs_created r = io_now io"
  shows "map_of (release_statuses d') (e, f) = (case find (\<lambda>rel. e = envID \<and> rel_Name rel = f) (rev rels) of
      Some rel \<Rightarrow> Some (release_row (io_now io) rel) | None \<Rightarrow> map_of (release_statuses d) (e, f))"
  using assms
proof (induction rels arbitrary: d)
  case (Cons rel rels)
  let ?d = "SetReleaseStatus (io_now io) envID rel d"
  have step: "map_of (release_statuses ?d) k =
      (if k = (envID, rel_Name rel) then Some (release_row (io_now io) rel) else map_of (release_statuses d) k)" for k
    by (rule SetReleaseStatus_lookup) (rule Cons.prems(2))
  have "set_releases io envID rels ?d = (Inr (), d')" using Cons.prems(1) by (auto simp: bindT_eq_Inr)
  moreover have "rs_created r = io_now io" if "map_of (release_statuses ?d) (envID, f) = Some r" for f r
    using that Cons.prems(2)[of f r] unfolding step by (auto simp: release_row_def split: if_splits)
  ultimately show ?case
    using Cons.IH[of ?d] step[of "(e, f)"] by (auto simp: find_append split: option.splits)
qed simp

lemma write_releases_lookup:
  assumes "write_releases io envID rels d = (Inr (), d')"
  shows "map_of (release_statuses d') (e, f) =
    (if e = envID then map_option (release_row (io_now io)) (find (\<lambda>rel. rel_Name rel = f) (rev rels))
     else map_of (release_statuses d) (e, f))"
proof -
  let ?d = "DeleteReleaseStatusesInEnvironment envID d"
  have gone: "map_of (release_statuses ?d) (e, f) = (if e = envID then None else map_of (release_statuses d) (e, f))" for e f
  proof -
    have "map_of (filter (\<lambda>e. fst (fst e) \<noteq> envID) m) (e, f) = (if e = envID then None else map_of m (e, f))"
      for m :: "((uuid \<times> string) \<times> ReleaseStatus) list"
      by (induction m) auto
    then show ?thesis by (simp add: DeleteReleaseStatusesInEnvironment_def)
  qed
  have "set_releases io envID rels ?d = (Inr (), d')"
    using assms by (auto simp: write_releases_def pool_tx_eq_Inr bindT_eq_Inr)
  from set_releases_lookup[OF this, of e f] gone show ?thesis
    by (cases "e = envID") (auto split: option.splits dest: find_SomeD)
qed

text \<open>
  C36. A release report replaces what is known of its environment: after it is handled, the release
  statuses of the environment are exactly the reported releases (the last one of each name), every
  other environment's are as before, and each revision is within 32 bits, equal to the reported one
  when that is.
\<close>

theorem releaseStatus_replaces:
  assumes "releaseStatus dec io msg d = (Inr (), d')" and "dec_releases dec (st_Data msg) = Some status"
    and "GetTenantByName io (st_Tenant msg) d = Inr t" and "environment_GetByName io (t_ID t) (st_Environment msg) d = Inr env"
  shows "(if e = e_ID env
     then (case find (\<lambda>rel. rel_Name rel = f) (rev (hr_Releases status)) of
        None \<Rightarrow> map_of (release_statuses d') (e, f) = None
      | Some rel \<Rightarrow> \<exists>r. map_of (release_statuses d') (e, f) = Some r \<and> rs_version r = rel_Version rel \<and> rs_status r = rel_Status rel \<and>
          - (2 ^ 31) \<le> rs_revision r \<and> rs_revision r < 2 ^ 31 \<and>
          (rs_revision r = rel_Revision rel \<longleftrightarrow> - (2 ^ 31) \<le> rel_Revision rel \<and> rel_Revision rel < 2 ^ 31))
     else map_of (release_statuses d') (e, f) = map_of (release_statuses d) (e, f))"
proof -
  have w: "write_releases io (e_ID env) (hr_Releases status) d = (Inr (), d')"
    using assms by (simp add: releaseStatus_def)
  have "int32 i = i \<longleftrightarrow> - (2 ^ 31) \<le> i \<and> i < 2 ^ 31" for i using int32_bounds[of i] int32_id[of i] by auto
  then show ?thesis
    using write_releases_lookup[OF w, of e f] int32_bounds by (auto simp: release_row_def split: option.splits)
qed

theorem releaseStatus_replaces_witness:
  "\<exists>d' r. releaseStatus example_decoders example_io example_msg example_db = (Inr (), d') \<and>
     map_of (release_statuses d') (1, ''loki'') = Some r \<and> rs_revision r \<noteq> 2 ^ 31 \<and> rs_revision r < 2 ^ 31"
proof -
  let ?t = "\<lparr>t_ID = 9, t_Name = ''acme'', t_Description = None, t_Created = 0, t_LastModified = 0, t_Ci = False\<rparr>"
  have t: "GetTenantByName example_io (st_Tenant example_msg) example_db = Inr ?t"
    by (simp add: GetTenantByName_def example_msg_def example_db_def)
  obtain env where env: "environment_GetByName example_io (t_ID ?t) (st_Environment example_msg) example_db = Inr env"
    and eid: "e_ID env = 1" by (simp add: environment_GetByName_def example_msg_def example_db_def)
  obtain status where st: "dec_releases example_decoders (st_Data example_msg) = Some status"
    and rels: "hr_Releases status = [\<lparr>rel_Name = ''loki'', rel_Version = ''1'', rel_Status = ''deployed'', rel_Revision = 2 ^ 31, rel_LastDeployed = 5\<rparr>]"
    by (simp add: example_decoders_def)
  have "\<exists>d'. write_releases example_io 1 (hr_Releases status) example_db = (Inr (), d')"
    unfolding rels by (simp add: write_releases_def pool_tx_def bindT_def wrapT_def execT_def returnT_def)
  then obtain d' where d': "releaseStatus example_decoders example_io example_msg example_db = (Inr (), d')"
    using t env eid st by (auto simp: releaseStatus_def)
  from releaseStatus_replaces[OF d' st t env, of 1 "''loki''"] d' show ?thesis by (auto simp: eid rels)
qed

end
