(* ===== verification/Template_Parser.thy ===== *)
theory Template_Parser
  imports Domain
begin

text \<open>
  Which environment values and functions the templates of a feature use:
  \<open>internal/feature/template_parser.go\<close>.

  The parser is Go's \<open>text/template\<close>; it is a parameter that maps a template to its tree. The tree has the
  node types of \<open>text/template/parse\<close>; a node type that the walk does not know is \<open>OtherNode\<close>. What the walk
  collects is passed along; \<open>panic\<close> is an error.
\<close>

section \<open>Trees\<close>

text \<open>
  A pipe has its declared variables, each with its identifier path, and its commands. A branch has its pipe,
  its list and its else list, which may be missing.
\<close>

datatype node =
    ListNode "node list"
  | ActionNode node
  | PipeNode "string list list" "node list"
  | CommandNode "node list"
  | FieldNode "string list"
  | VariableNode "string list"
  | IdentifierNode string
  | IfNode node node "node option"
  | RangeNode node node "node option"
  | WithNode node node "node option"
  | TemplateNode
  | TextNode
  | StringNode string
  | BoolNode bool
  | NumberNode string
  | DotNode
  | ChainNode node "string list"
  | NilNode
  | ContinueNode
  | BreakNode
  | OtherNode

text \<open>\<open>String\<close> of the nodes that can be the argument of a command.\<close>

fun node_String :: "node \<Rightarrow> string" where
  "node_String (PipeNode decl cmds) =
     (if decl = [] then [] else strings_Join (map (\<lambda>ident. strings_Join ident ''.'') decl) '', '' @ '' := '') @
     strings_Join (map node_String cmds) '' | ''"
| "node_String (CommandNode args) = strings_Join (map (\<lambda>a. case a of
      PipeNode _ _ \<Rightarrow> ''('' @ node_String a @ '')'' | _ \<Rightarrow> node_String a) args) '' ''"
| "node_String (FieldNode ident) = concat (map (\<lambda>i. ''.'' @ i) ident)"
| "node_String (VariableNode ident) = strings_Join ident ''.''"
| "node_String (IdentifierNode ident) = ident"
| "node_String (StringNode quoted) = quoted"
| "node_String (BoolNode b) = (if b then ''true'' else ''false'')"
| "node_String (NumberNode t) = t"
| "node_String DotNode = ''.''"
| "node_String NilNode = ''nil''"
| "node_String (ChainNode n field) =
     (case n of PipeNode _ _ \<Rightarrow> ''('' @ node_String n @ '')'' | _ \<Rightarrow> node_String n) @ concat (map (\<lambda>i. ''.'' @ i) field)"
| "node_String _ = []"

section \<open>Details\<close>

record FeatureTemplateDetails =
  td_Management :: "string list"
  td_Env :: "string list"
  td_Envs :: "string list"
  td_All :: "string list"
  td_Functions :: "string list"

text \<open>A scope is the chain of its frames, the innermost first; the map of a frame is \<open>nil\<close> until its first entry.\<close>

type_synonym scope = "(string, string list) gomap option list"

fun scope_Get :: "scope \<Rightarrow> string \<Rightarrow> string list" where
  "scope_Get [] name = []"
| "scope_Get (None # root) name = []"
| "scope_Get (Some references # root) name =
     (case map_of references name of
        Some target \<Rightarrow> if target = [] then scope_Get root name else target
      | None \<Rightarrow> scope_Get root name)"

definition scope_New :: "scope \<Rightarrow> scope" where
  "scope_New s = None # s"

fun scope_Add :: "string \<Rightarrow> string list \<Rightarrow> scope \<Rightarrow> scope" where
  "scope_Add name target [] = []"
| "scope_Add name target (references # root) =
     Some (gm_put name target (case references of None \<Rightarrow> [] | Some m \<Rightarrow> m)) # root"

definition toSlice :: "node \<Rightarrow> string list" where
  "toSlice n = strings_Split (strings_Trim (node_String n) CHR ''.'') CHR ''.''"

text \<open>\<open>cmd.Args[0]\<close> and \<open>Decl[0].Ident[0]\<close> panic when there is none.\<close>

fun AddPipe :: "node \<Rightarrow> scope \<Rightarrow> err + scope" where
  "AddPipe (PipeNode decl cmds) s =
     (if length decl > 1 then Inr s
      else if length cmds > 1 then Inl (Panic ''more than one pipe cmd not supported'')
      else if cmds = [] then Inr s
      else case hd cmds of
        CommandNode (arg # _) \<Rightarrow>
          (case decl of
             [] \<Rightarrow> Inr (scope_Add [] (toSlice arg) s)
           | (name # _) # _ \<Rightarrow> Inr (scope_Add name (toSlice arg) s)
           | [] # _ \<Rightarrow> Inl (Panic ''index out of range''))
      | _ \<Rightarrow> Inl (Panic ''index out of range''))"
| "AddPipe _ s = Inr s"

definition resolve :: "scope \<Rightarrow> string list \<Rightarrow> string list" where
  "resolve s ident =
     (if strings_HasPrefix (hd ident) ''$'' then
        let n = scope_Get s (hd ident) in
        if n = [] then ident else if n = [''''] then tl ident else n @ tl ident
      else ident)"

definition record_ident :: "string list \<Rightarrow> FeatureTemplateDetails \<Rightarrow> FeatureTemplateDetails" where
  "record_ident ident e =
     (let e = e\<lparr>td_All := td_All e @ [strings_Join ident ''.'']\<rparr>; rest = strings_Join (tl ident) ''.'' in
      if length ident > 1 then
        if hd ident = ''Management'' then e\<lparr>td_Management := td_Management e @ [rest]\<rparr>
        else if hd ident = ''Env'' then e\<lparr>td_Env := td_Env e @ [rest]\<rparr>
        else if hd ident = ''Envs'' then e\<lparr>td_Envs := td_Envs e @ [rest]\<rparr>
        else e
      else e)"

definition addIdent :: "scope \<Rightarrow> string list \<Rightarrow> FeatureTemplateDetails \<Rightarrow> FeatureTemplateDetails" where
  "addIdent s ident e = (if ident = [] then e else record_ident (resolve s ident) e)"

definition addFunction :: "string \<Rightarrow> FeatureTemplateDetails \<Rightarrow> FeatureTemplateDetails" where
  "addFunction name e = e\<lparr>td_Functions := td_Functions e @ [name]\<rparr>"

definition sorted_unique :: "string list \<Rightarrow> string list" where
  "sorted_unique v = sort (remdups v)"

definition clean :: "FeatureTemplateDetails \<Rightarrow> FeatureTemplateDetails" where
  "clean e =
     \<lparr>td_Management = sorted_unique (td_Management e), td_Env = sorted_unique (td_Env e), td_Envs = sorted_unique (td_Envs e),
      td_All = sorted_unique (td_All e), td_Functions = sorted_unique (td_Functions e)\<rparr>"

section \<open>The walk\<close>

text \<open>The walk threads the details and the unknown nodes. A missing else list is a \<open>nil\<close> list.\<close>

type_synonym found = "FeatureTemplateDetails \<times> node list"

fun walk :: "scope \<Rightarrow> node \<Rightarrow> found \<Rightarrow> err + found"
  and walk_all :: "scope \<Rightarrow> node list \<Rightarrow> found \<Rightarrow> err + found"
  and walk_else :: "scope \<Rightarrow> node option \<Rightarrow> found \<Rightarrow> err + found" where
  "walk s (ListNode nodes) acc = walk_all s nodes acc"
| "walk s (ActionNode pipe) acc = walk s pipe acc"
| "walk s (PipeNode decl cmds) acc =
     walk_all s cmds (fold (\<lambda>ident. apfst (addIdent s ident)) decl acc)"
| "walk s (CommandNode args) acc = walk_all s args acc"
| "walk s (FieldNode ident) acc = Inr (apfst (addIdent s ident) acc)"
| "walk s (VariableNode ident) acc = Inr (apfst (addIdent s ident) acc)"
| "walk s (IdentifierNode ident) acc = Inr (apfst (addFunction ident) acc)"
| "walk s (IfNode pipe body els) acc =
     bindE (walk s pipe acc) (\<lambda>acc. bindE (walk (scope_New s) body acc) (walk_else (scope_New s) els))"
| "walk s (RangeNode pipe body els) acc =
     bindE (AddPipe pipe (scope_New s)) (\<lambda>inner. bindE (walk inner body acc) (walk_else inner els))"
| "walk s (WithNode pipe body els) acc = bindE (AddPipe pipe (scope_New s)) (\<lambda>inner. walk inner body acc)"
| "walk s OtherNode acc = Inr (apsnd (\<lambda>unknown. unknown @ [OtherNode]) acc)"
| "walk s TemplateNode acc = Inr acc"
| "walk s TextNode acc = Inr acc"
| "walk s (StringNode _) acc = Inr acc"
| "walk s (BoolNode _) acc = Inr acc"
| "walk s (NumberNode _) acc = Inr acc"
| "walk s DotNode acc = Inr acc"
| "walk s (ChainNode _ _) acc = Inr acc"
| "walk s NilNode acc = Inr acc"
| "walk s ContinueNode acc = Inr acc"
| "walk s BreakNode acc = Inr acc"
| "walk_all s [] acc = Inr acc"
| "walk_all s (n # ns) acc = bindE (walk s n acc) (walk_all s ns)"
| "walk_else s None acc = Inr acc"
| "walk_else s (Some n) acc = walk s n acc"

text \<open>The parser maps a template to its tree or its error.\<close>

definition parseComputedDetails ::
  "(string \<Rightarrow> err + node) \<Rightarrow> Computed \<Rightarrow> FeatureTemplateDetails \<Rightarrow> err + FeatureTemplateDetails" where
  "parseComputedDetails parser cv eviu =
     (case parser (cmp_Template cv) of
        Inl e \<Rightarrow> Inl (Wrap ''parse'' e)
      | Inr root \<Rightarrow> bindE (walk [None] root (eviu, [])) (\<lambda>(eviu, unknown).
          if unknown \<noteq> [] then Inl (Errorf ''unknown nodes'') else Inr eviu))"

definition no_details :: FeatureTemplateDetails where
  "no_details = \<lparr>td_Management = [], td_Env = [], td_Envs = [], td_All = [], td_Functions = []\<rparr>"

text \<open>A panic is not wrapped.\<close>

definition wrap_details :: "err + FeatureTemplateDetails \<Rightarrow> err + FeatureTemplateDetails" where
  "wrap_details r = (case r of
      Inl (Panic m) \<Rightarrow> Inl (Panic m) | Inl e \<Rightarrow> Inl (Wrap ''parse computed'' e) | Inr d \<Rightarrow> Inr d)"

definition ParseTemplateDetails :: "(string \<Rightarrow> err + node) \<Rightarrow> Values \<Rightarrow> err + FeatureTemplateDetails" where
  "ParseTemplateDetails parser content =
     bindE (foldE (\<lambda>(_, cv) eviu. case v_Computed cv of
              None \<Rightarrow> Inr eviu
            | Some computed \<Rightarrow> wrap_details (parseComputedDetails parser computed eviu)) content no_details)
       (\<lambda>eviu. Inr (clean eviu))"

section \<open>Independence of the order\<close>

definition details_append :: "FeatureTemplateDetails \<Rightarrow> FeatureTemplateDetails \<Rightarrow> FeatureTemplateDetails" where
  "details_append a b =
     \<lparr>td_Management = td_Management a @ td_Management b, td_Env = td_Env a @ td_Env b, td_Envs = td_Envs a @ td_Envs b,
      td_All = td_All a @ td_All b, td_Functions = td_Functions a @ td_Functions b\<rparr>"

definition found_append :: "found \<Rightarrow> found \<Rightarrow> found" where
  "found_append a b = (details_append (fst a) (fst b), snd a @ snd b)"

lemma details_append_assoc: "details_append (details_append a b) c = details_append a (details_append b c)"
  by (simp add: details_append_def)

lemma found_append_assoc: "found_append (found_append a b) c = found_append a (found_append b c)"
  by (simp add: found_append_def details_append_assoc)

lemma details_append_none [simp]: "details_append a no_details = a" "details_append no_details a = a"
  by (simp_all add: details_append_def no_details_def)

lemma found_append_none [simp]: "found_append a (no_details, []) = a" "found_append (no_details, []) a = a"
  by (simp_all add: found_append_def)

lemma record_ident_append: "record_ident ident (details_append a b) = details_append a (record_ident ident b)"
  by (simp add: record_ident_def details_append_def Let_def)

lemma addIdent_append: "addIdent s ident (details_append a b) = details_append a (addIdent s ident b)"
  by (simp add: addIdent_def record_ident_append)

lemma addFunction_append: "addFunction name (details_append a b) = details_append a (addFunction name b)"
  by (simp add: addFunction_def details_append_def)

lemma addIdent_found: "apfst (addIdent s ident) (found_append a b) = found_append a (apfst (addIdent s ident) b)"
  by (simp add: found_append_def addIdent_append)

lemma addIdents_found:
  "fold (\<lambda>ident. apfst (addIdent s ident)) decl (found_append a b) =
     found_append a (fold (\<lambda>ident. apfst (addIdent s ident)) decl b)"
  by (induction decl arbitrary: b) (simp_all add: addIdent_found)

lemma addFunction_found: "apfst (addFunction name) (found_append a b) = found_append a (apfst (addFunction name) b)"
  by (simp add: found_append_def addFunction_append)

lemma unknown_found: "apsnd (\<lambda>us. us @ [n]) (found_append a b) = found_append a (apsnd (\<lambda>us. us @ [n]) b)"
  by (simp add: found_append_def)

lemma bindE_map_sum:
  "(\<And>x. r = Inr x \<Longrightarrow> h (g x) = map_sum f k (l x)) \<Longrightarrow> bindE (map_sum f g r) h = map_sum f k (bindE r l)"
  by (cases r) simp_all

lemma bindE_map_right:
  "(\<And>x. r = Inr x \<Longrightarrow> h x = map_sum (\<lambda>e. e) k (l x)) \<Longrightarrow> bindE r h = map_sum (\<lambda>e. e) k (bindE r l)"
  by (cases r) simp_all

text \<open>What a walk adds does not depend on what was found before.\<close>

lemma walk_found:
  "walk s n (found_append a b) = map_sum id (found_append a) (walk s n b)"
  "walk_all s ns (found_append a b) = map_sum id (found_append a) (walk_all s ns b)"
  "walk_else s els (found_append a b) = map_sum id (found_append a) (walk_else s els b)"
  by (induction s n b and s ns b and s els b rule: walk_walk_all_walk_else.induct)
    (simp_all add: addIdent_found addIdents_found addFunction_found unknown_found bindE_map_sum bindE_map_right)

definition contribution :: "(string \<Rightarrow> err + node) \<Rightarrow> Value \<Rightarrow> err + FeatureTemplateDetails" where
  "contribution parser cv = (case v_Computed cv of
      None \<Rightarrow> Inr no_details | Some computed \<Rightarrow> wrap_details (parseComputedDetails parser computed no_details))"

lemma parseComputedDetails_append:
  "parseComputedDetails parser cv eviu = map_sum id (details_append eviu) (parseComputedDetails parser cv no_details)"
proof (cases "parser (cmp_Template cv)")
  case (Inr root)
  have "walk [None] root (eviu, []) = map_sum id (found_append (eviu, [])) (walk [None] root (no_details, []))"
    using walk_found(1) [of "[None]" root "(eviu, [])" "(no_details, [])"] by simp
  then show ?thesis
    using Inr by (cases "walk [None] root (no_details, [])") (auto simp: parseComputedDetails_def found_append_def)
qed (simp add: parseComputedDetails_def)

lemma wrap_details_append: "wrap_details (map_sum id f r) = map_sum id f (wrap_details r)"
  by (auto simp: wrap_details_def split: sum.split err.split)

lemma contribution_append:
  "(case v_Computed cv of None \<Rightarrow> Inr eviu | Some c \<Rightarrow> wrap_details (parseComputedDetails parser c eviu)) =
     map_sum id (details_append eviu) (contribution parser cv)"
  using parseComputedDetails_append [of parser _ eviu]
  by (auto simp: contribution_def wrap_details_append split: option.split)

lemma ParseTemplateDetails_eq:
  "ParseTemplateDetails parser content =
     bindE (mapE (\<lambda>(_, cv). contribution parser cv) content) (\<lambda>ds. Inr (clean (foldl details_append no_details ds)))"
proof -
  have "foldE (\<lambda>(_, cv) eviu. map_sum id (details_append eviu) (contribution parser cv)) content d =
      bindE (mapE (\<lambda>(_, cv). contribution parser cv) content) (\<lambda>ds. Inr (foldl details_append d ds))" for d
  proof (induction content arbitrary: d)
    case (Cons kv content)
    then show ?case
      by (cases kv; cases "contribution parser (snd kv)";
          cases "mapE (\<lambda>(_, cv). contribution parser cv) content") simp_all
  qed simp
  then show ?thesis
    by (cases "mapE (\<lambda>(_, cv). contribution parser cv) content")
      (simp_all add: ParseTemplateDetails_def contribution_append)
qed

lemma set_foldl_details:
  "set (td_Management (foldl details_append d ds)) = set (td_Management d) \<union> (\<Union>e\<in>set ds. set (td_Management e))"
  "set (td_Env (foldl details_append d ds)) = set (td_Env d) \<union> (\<Union>e\<in>set ds. set (td_Env e))"
  "set (td_Envs (foldl details_append d ds)) = set (td_Envs d) \<union> (\<Union>e\<in>set ds. set (td_Envs e))"
  "set (td_All (foldl details_append d ds)) = set (td_All d) \<union> (\<Union>e\<in>set ds. set (td_All e))"
  "set (td_Functions (foldl details_append d ds)) = set (td_Functions d) \<union> (\<Union>e\<in>set ds. set (td_Functions e))"
  by (induction ds arbitrary: d) (auto simp: details_append_def)

lemma sorted_unique_eq: "sorted_unique v = sorted_list_of_set (set v)"
  by (simp add: sorted_unique_def sorted_list_of_set_sort_remdups)

lemma clean_foldl_cong: "set ds = set es \<Longrightarrow> clean (foldl details_append d ds) = clean (foldl details_append d es)"
  by (simp add: clean_def sorted_unique_eq set_foldl_details)

lemma mapE_Inr_set: "mapE f xs = Inr ys \<Longrightarrow> y \<in> set ys \<longleftrightarrow> (\<exists>x \<in> set xs. f x = Inr y)"
  by (induction xs arbitrary: ys) (auto simp: bindE_eq_Inr)

lemma mapE_Inr_all: "(\<exists>ys. mapE f xs = Inr ys) \<longleftrightarrow> (\<forall>x \<in> set xs. \<exists>y. f x = Inr y)"
  by (induction xs) (auto simp: bindE_eq_Inr)

lemma mapE_set:
  assumes "mapE f xs = Inr ys" and "set xs = set xs'"
  shows "\<exists>ys'. mapE f xs' = Inr ys' \<and> set ys' = set ys"
proof -
  have "\<forall>x \<in> set xs'. \<exists>y. f x = Inr y" using mapE_Inr_all [of f xs] assms by auto
  then obtain ys' where ys': "mapE f xs' = Inr ys'" using mapE_Inr_all [of f xs'] by auto
  have "set ys' = set ys" using mapE_Inr_set [OF ys'] mapE_Inr_set [OF assms(1)] assms(2) by auto
  then show ?thesis using ys' by simp
qed

definition detail_lists :: "(FeatureTemplateDetails \<Rightarrow> string list) set" where
  "detail_lists = {td_Management, td_Env, td_Envs, td_All, td_Functions}"

lemma detail_list_clean:
  assumes "sel \<in> detail_lists"
  shows "sorted (sel (clean d))" and "distinct (sel (clean d))"
    and "set (sel (clean (foldl details_append no_details ds))) = (\<Union>e\<in>set ds. set (sel e))"
  using assms by (auto simp: detail_lists_def clean_def sorted_unique_def set_foldl_details no_details_def)

text \<open>
  The details of a feature do not depend on the order in which the map of its values is visited: when one
  order succeeds, every order gives the same details. Each of the five lists is sorted without duplicates, and
  an identifier is in it exactly when the template of one of the values gives it on its own.
\<close>

theorem ParseTemplateDetails_order:
  assumes "ParseTemplateDetails parser content = Inr details" and "mset content' = mset content"
  shows "ParseTemplateDetails parser content' = Inr details \<and>
    (\<forall>sel \<in> detail_lists. sorted (sel details) \<and> distinct (sel details) \<and>
       (\<forall>ident. ident \<in> set (sel details) \<longleftrightarrow>
          (\<exists>(key, cv) \<in> set content. \<exists>d. contribution parser cv = Inr d \<and> ident \<in> set (sel d))))"
proof -
  let ?f = "\<lambda>(_, cv). contribution parser cv"
  obtain ds where ds: "mapE ?f content = Inr ds" "details = clean (foldl details_append no_details ds)"
    using assms(1) by (auto simp: ParseTemplateDetails_eq bindE_eq_Inr)
  obtain ds' where "mapE ?f content' = Inr ds'" "set ds' = set ds"
    using mapE_set [OF ds(1)] mset_eq_setD [OF assms(2)] by metis
  then have "ParseTemplateDetails parser content' = Inr details"
    using clean_foldl_cong [of ds' ds] by (simp add: ParseTemplateDetails_eq ds(2))
  moreover have "ident \<in> set (sel details) \<longleftrightarrow>
      (\<exists>(key, cv) \<in> set content. \<exists>d. contribution parser cv = Inr d \<and> ident \<in> set (sel d))"
    if "sel \<in> detail_lists" for sel ident
    using mapE_Inr_set [OF ds(1)] by (fastforce simp: ds(2) detail_list_clean(3) [OF that])
  ultimately show ?thesis using detail_list_clean(1,2) by (simp add: ds(2))
qed

text \<open>A value with \<open>{{with $cn := .Env.name}}{{$cn}}{{end}}\<close> and a value with \<open>{{.Env.value | quote}}\<close>.\<close>

definition example_parser :: "string \<Rightarrow> err + node" where
  "example_parser t =
     (if t = ''c'' then
        Inr (ListNode [WithNode (PipeNode [[''$cn'']] [CommandNode [FieldNode [''Env'', ''name'']]])
          (ListNode [ActionNode (PipeNode [] [CommandNode [VariableNode [''$cn'']]])]) None])
      else if t = ''d'' then
        Inr (ListNode [TextNode, ActionNode (PipeNode [] [CommandNode [FieldNode [''Env'', ''value'']], CommandNode [IdentifierNode ''quote'']])])
      else Inl (Errorf ''unexpected''))"

definition example_value :: "string \<Rightarrow> Value" where
  "example_value t = \<lparr>v_Description = [], v_DisplayName = [], v_Required = False, v_Computed = Some \<lparr>cmp_Template = t\<rparr>,
     v_Config = None, v_IgnoreKind = []\<rparr>"

definition example_details :: FeatureTemplateDetails where
  "example_details = \<lparr>td_Management = [], td_Env = [''name'', ''value''], td_Envs = [],
     td_All = [''Env.name'', ''Env.value''], td_Functions = [''quote'']\<rparr>"

lemma example_details_parsed:
  "ParseTemplateDetails example_parser [(''a'', example_value ''c''), (''b'', example_value ''d'')] = Inr example_details"
  by code_simp

theorem ParseTemplateDetails_order_witness:
  "ParseTemplateDetails example_parser [(''b'', example_value ''d''), (''a'', example_value ''c'')] = Inr example_details"
proof -
  have "mset [(''b'', example_value ''d''), (''a'', example_value ''c'')] =
      mset [(''a'', example_value ''c''), (''b'', example_value ''d'')]"
    by simp
  from ParseTemplateDetails_order [OF example_details_parsed this] show ?thesis by blast
qed

section \<open>What is not reported\<close>

text \<open>
  What the walk misses. The pipe of a \<open>with\<close> or a \<open>range\<close> is not visited, so a value that is only used there
  is not reported; nor is anything in the else list of a \<open>with\<close>. A pipe with two commands makes both panic. A
  value that a template reaches through \<open>$\<close> is not counted under its environment.
\<close>

theorem walk_misses:
  "walk s (WithNode (PipeNode [] [CommandNode (FieldNode ident # args)]) (ListNode []) els) acc = Inr acc \<and>
   walk s (RangeNode (PipeNode [] [CommandNode (FieldNode ident # args)]) (ListNode []) None) acc = Inr acc \<and>
   walk s (WithNode (PipeNode [] (cmd # cmd' # cmds)) body els) acc = Inl (Panic ''more than one pipe cmd not supported'') \<and>
   walk s (RangeNode (PipeNode [] (cmd # cmd' # cmds)) body els) acc = Inl (Panic ''more than one pipe cmd not supported'') \<and>
   map_sum id (td_Env \<circ> fst) (walk [None] (VariableNode [''$'', ''Env'', key]) acc) = Inr (td_Env (fst acc))"
  by (simp add: addIdent_def resolve_def record_ident_def strings_HasPrefix_def Let_def)

end
