(* ===== verification/Feature_Store.thy ===== *)
theory Feature_Store
  imports Store Template_Parser
begin

text \<open>
  Feature data: reading a feature from its chart (\<open>FromChart\<close> of \<open>internal/feature/model.go\<close>), storing it
  (\<open>CreateFeatureData\<close> of \<open>internal/feature/queries.go\<close>) and reading it back, with the statements of
  \<open>internal/feature/featuresql/features.sql.go\<close>.

  Downloading and loading a chart are Helm's; the JSON encoders are Go's. Both are parameters.
\<close>

section \<open>Charts\<close>

text \<open>A loaded chart: its other files, its metadata and its default values.\<close>

record chart =
  ch_Files :: "(string \<times> string) list"
  ch_Name :: string
  ch_Version :: string
  ch_Description :: string
  ch_Sources :: "string list"
  ch_Values :: "gmap option"

record helm =
  hm_download :: "string \<Rightarrow> string \<Rightarrow> err + string"
  hm_load :: "string \<Rightarrow> err + chart"
  hm_process :: "chart \<Rightarrow> err + chart"
  hm_decode :: "string \<Rightarrow> err + FeatureYAML"

definition empty_feature :: "string \<Rightarrow> FeatureYAML \<Rightarrow> Feature" where
  "empty_feature chartURL y = \<lparr>f_Dependencies = f_Dependencies y, f_EnvironmentKinds = f_EnvironmentKinds y, f_Timeout = f_Timeout y,
     f_Values = f_Values y, f_Name = [], f_Chart = chartURL, f_Version = [], f_Description = [], f_Source = [], f_ValuesYAML = [],
     f_SpecVersion = [], f_TplDetails = []\<rparr>"

definition parseChartYAML :: "chart \<Rightarrow> Feature \<Rightarrow> Feature" where
  "parseChartYAML meta f =
     (let f = f \<lparr>f_Name := ch_Name meta, f_Version := ch_Version meta, f_Description := ch_Description meta\<rparr>
      in if length (ch_Sources meta) > 0 then f \<lparr>f_Source := hd (ch_Sources meta)\<rparr> else f)"

definition FromChart :: "(gval \<Rightarrow> err + string) \<Rightarrow> helm \<Rightarrow> string \<Rightarrow> string \<Rightarrow> err + Feature" where
  "FromChart marshal h chartURL version =
     bindE (wrapE ''failed to download chart'' (hm_download h chartURL version)) (\<lambda>resp.
     bindE (wrapE ''unable to load chart'' (hm_load h resp)) (\<lambda>chart.
     case find (\<lambda>(name, data). name = ''Feature.yaml'') (ch_Files chart) of
       None \<Rightarrow> Inl (Errorf ''file Feature.yaml not found'')
     | Some (name, data) \<Rightarrow>
         bindE (wrapE ''failed to parse Feature.yaml'' (hm_decode h data)) (\<lambda>yaml.
         bindE (wrapE ''unable to process dependencies'' (hm_process h chart)) (\<lambda>processed.
         Inr (normalizedYAML marshal (ch_Values processed) (parseChartYAML chart (empty_feature chartURL yaml)))))))"

section \<open>Storing a feature\<close>

text \<open>
  \<open>json.Marshal\<close> on the types that are stored. A duration is divided by a million towards zero.
\<close>

record encoders =
  j_dependencies :: "Dependencies \<Rightarrow> err + string"
  j_values :: "Values \<Rightarrow> err + string"
  j_defaults :: "(string, string) gomap \<Rightarrow> err + string"
  j_details :: "FeatureTemplateDetails \<Rightarrow> err + string"
  j_string :: "string \<Rightarrow> err + string"

definition Milliseconds :: "duration \<Rightarrow> int" where
  "Milliseconds t = (if t < 0 then - ((- t) div 1000000) else t div 1000000)"

definition environmentKindToSQL :: "EnvironmentKind list \<Rightarrow> string list" where
  "environmentKindToSQL kinds = sort kinds"

definition oci_chart :: "string \<Rightarrow> bool" where
  "oci_chart chart \<longleftrightarrow> strings_HasPrefix chart ''oci://'' \<and> length chart > length ''oci://''"

definition fd_key :: "FeatureDatum \<Rightarrow> string \<times> string" where
  "fd_key fd = (fd_name fd, fd_version fd)"

text \<open>The statement: the columns are JSONB, the kinds an enumeration, the chart is checked, name and version are the key.\<close>

definition jsonb_columns :: "io \<Rightarrow> FeatureDatum \<Rightarrow> FeatureDatum option" where
  "jsonb_columns io fd =
     (case (io_jsonb io (fd_dependencies fd), io_jsonb io (fd_values fd), io_jsonb io (fd_default_values fd), io_jsonb io (fd_tpl_details fd)) of
        (Some deps, Some vals, Some defaults, Some details) \<Rightarrow>
          Some (fd \<lparr>fd_dependencies := deps, fd_values := vals, fd_default_values := defaults, fd_tpl_details := details\<rparr>)
      | _ \<Rightarrow> None)"

definition CreateFeatureData_sql :: "io \<Rightarrow> FeatureDatum \<Rightarrow> unit op" where
  "CreateFeatureData_sql io fd d =
     (if io_fails io ''CreateFeatureData'' then (Inl (ErrQuery ''CreateFeatureData''), d)
      else case jsonb_columns io fd of
        None \<Rightarrow> (Inl (PgError ''22P02''), d)
      | Some row \<Rightarrow>
          if \<not> list_all (List.member environment_kinds) (fd_kinds row) then (Inl (PgError ''22P02''), d)
          else if \<not> oci_chart (fd_chart row) then (Inl (PgError ''23514''), d)
          else if list_ex (\<lambda>r. fd_key r = fd_key row) (feature_data d) then (Inl (PgError ''23505''), d)
          else (Inr (), d \<lparr>feature_data := feature_data d @ [row]\<rparr>))"

definition CreateFeatureData :: "encoders \<Rightarrow> io \<Rightarrow> Feature \<Rightarrow> FeatureTemplateDetails \<Rightarrow> unit op" where
  "CreateFeatureData j io feat details d =
     (case bindE (wrapE ''marshal dependencies to json'' (j_dependencies j (f_Dependencies feat))) (\<lambda>dep.
           bindE (wrapE ''marshal values to json'' (j_values j (f_Values feat))) (\<lambda>vals.
           bindE (wrapE ''marshal default values to json'' (j_defaults j (f_ValuesYAML feat))) (\<lambda>defaultVals.
           bindE (wrapE ''marshal details to json'' (j_details j details)) (\<lambda>detailsBytes.
           Inr \<lparr>fd_name = f_Name feat, fd_version = f_Version feat, fd_chart = f_Chart feat, fd_description = f_Description feat,
                fd_source = f_Source feat, fd_kinds = environmentKindToSQL (f_EnvironmentKinds feat), fd_dependencies = dep,
                fd_values = vals, fd_default_values = defaultVals, fd_timeout = Milliseconds (f_Timeout feat),
                fd_tpl_details = detailsBytes\<rparr>)))) of
        Inl e \<Rightarrow> (Inl e, d)
      | Inr fd \<Rightarrow> CreateFeatureData_sql io fd d)"

section \<open>Reading a feature\<close>

definition makeFeatureYAML :: "externals \<Rightarrow> FeatureDatum \<Rightarrow> err + FeatureYAML \<times> (string, string) gomap" where
  "makeFeatureYAML x fd =
     bindE (wrapE ''unmarshal dependencies'' (x_decode_dependencies x (fd_dependencies fd))) (\<lambda>deps.
     bindE (wrapE ''unmarshal default values'' (x_decode_defaults x (fd_default_values fd))) (\<lambda>defaults.
     bindE (wrapE ''unmarshal values'' (x_decode_values x (fd_values fd))) (\<lambda>vals.
     Inr (\<lparr>f_Dependencies = deps, f_EnvironmentKinds = fd_kinds fd, f_Timeout = fd_timeout fd * 1000000, f_Values = vals\<rparr>, defaults))))"

definition featureFromSQL :: "externals \<Rightarrow> FeatureDatum \<Rightarrow> err + Feature" where
  "featureFromSQL x f =
     bindE (wrapE ''make feature yaml'' (makeFeatureYAML x f)) (\<lambda>(fyaml, defaultValues).
     Inr \<lparr>f_Dependencies = f_Dependencies fyaml, f_EnvironmentKinds = f_EnvironmentKinds fyaml, f_Timeout = f_Timeout fyaml,
          f_Values = f_Values fyaml, f_Name = fd_name f, f_Chart = fd_chart f, f_Version = fd_version f,
          f_Description = fd_description f, f_Source = fd_source f, f_ValuesYAML = defaultValues, f_SpecVersion = ''v2'',
          f_TplDetails = fd_tpl_details f\<rparr>)"

definition assignment_data :: "db \<Rightarrow> AssignmentRow \<Rightarrow> FeatureDatum list" where
  "assignment_data d a = filter (\<lambda>fd. fa_feature_name a = fd_name fd \<and> fa_version a = fd_version fd) (feature_data d)"

definition LatestFeatureData :: "string \<Rightarrow> db \<Rightarrow> FeatureDatum option" where
  "LatestFeatureData name d =
     (case sort_key (\<lambda>(a, fd). - fa_created a)
             (concat (map (\<lambda>a. map (Pair a) (assignment_data d a))
                (filter (\<lambda>a. fa_feature_name a = name \<and> fa_active a) (feature_assignments d)))) of
        [] \<Rightarrow> None | (a, fd) # _ \<Rightarrow> Some fd)"

definition FeatureDataByVersion :: "string \<Rightarrow> string \<Rightarrow> db \<Rightarrow> FeatureDatum option" where
  "FeatureDataByVersion name version d = find (\<lambda>fd. fd_key fd = (name, version)) (feature_data d)"

definition FeatureByName :: "externals \<Rightarrow> io \<Rightarrow> string \<Rightarrow> db \<Rightarrow> err + Feature" where
  "FeatureByName x io name d =
     bindE (wrapE (''get latest feature data for '' @ name) (one io ''LatestFeatureData'' (LatestFeatureData name d))) (featureFromSQL x)"

definition FeatureByNameVersion :: "externals \<Rightarrow> io \<Rightarrow> string \<Rightarrow> string \<Rightarrow> db \<Rightarrow> err + Feature" where
  "FeatureByNameVersion x io name version d =
     bindE (wrapE (''get feature data for '' @ name @ '' version '' @ version)
       (one io ''FeatureDataByVersion'' (FeatureDataByVersion name version d))) (featureFromSQL x)"

definition FeatureNames :: "io \<Rightarrow> db \<Rightarrow> err + string list" where
  "FeatureNames io d = query (io_fails io) ''FeatureNames'' (sort (remdups (map fa_feature_name (filter fa_active (feature_assignments d)))))"

section \<open>Storing and reading back\<close>

text \<open>Decoding what the database gives back for an encoded value yields the value.\<close>

definition json_roundtrip :: "('a \<Rightarrow> err + string) \<Rightarrow> (string \<Rightarrow> string option) \<Rightarrow> (string \<Rightarrow> err + 'a) \<Rightarrow> 'a \<Rightarrow> bool" where
  "json_roundtrip encode store decode v \<longleftrightarrow> (\<forall>t t'. encode v = Inr t \<longrightarrow> store t = Some t' \<longrightarrow> decode t' = Inr v)"

definition codecs_ok :: "externals \<Rightarrow> encoders \<Rightarrow> io \<Rightarrow> Feature \<Rightarrow> bool" where
  "codecs_ok x j io feat \<longleftrightarrow>
     json_roundtrip (j_dependencies j) (io_jsonb io) (x_decode_dependencies x) (f_Dependencies feat) \<and>
     json_roundtrip (j_values j) (io_jsonb io) (x_decode_values x) (f_Values feat) \<and>
     json_roundtrip (j_defaults j) (io_jsonb io) (x_decode_defaults x) (f_ValuesYAML feat)"

text \<open>What is lost: the order of the kinds, the fraction of a millisecond of the timeout, the specification version.\<close>

definition stored_feature :: "string \<Rightarrow> Feature \<Rightarrow> Feature" where
  "stored_feature details feat = feat \<lparr>f_EnvironmentKinds := sort (f_EnvironmentKinds feat),
     f_Timeout := Milliseconds (f_Timeout feat) * 1000000, f_SpecVersion := ''v2'', f_TplDetails := details\<rparr>"

lemma jsonb_columns_SomeD:
  assumes "jsonb_columns io fd = Some row"
  obtains deps vals defaults details where "io_jsonb io (fd_dependencies fd) = Some deps" "io_jsonb io (fd_values fd) = Some vals"
    "io_jsonb io (fd_default_values fd) = Some defaults" "io_jsonb io (fd_tpl_details fd) = Some details"
    "row = fd \<lparr>fd_dependencies := deps, fd_values := vals, fd_default_values := defaults, fd_tpl_details := details\<rparr>"
  using assms by (auto simp: jsonb_columns_def split: option.splits)

lemma CreateFeatureData_sql_InrD:
  assumes "CreateFeatureData_sql io fd d = (Inr u, d')"
  shows "\<exists>row. jsonb_columns io fd = Some row \<and> d' = d \<lparr>feature_data := feature_data d @ [row]\<rparr> \<and>
    oci_chart (fd_chart row) \<and> fd_key row \<notin> fd_key ` set (feature_data d)"
  using assms by (auto simp: CreateFeatureData_sql_def list_ex_iff split: if_splits option.splits)

lemma CreateFeatureData_InrD:
  assumes "CreateFeatureData j io feat details d = (Inr u, d')"
  shows "\<exists>row. d' = d \<lparr>feature_data := feature_data d @ [row]\<rparr> \<and> fd_key row = (f_Name feat, f_Version feat) \<and>
    fd_key row \<notin> fd_key ` set (feature_data d) \<and> oci_chart (f_Chart feat) \<and>
    (codecs_ok x j io feat \<longrightarrow> featureFromSQL x row = Inr (stored_feature (fd_tpl_details row) feat))"
proof -
  obtain dep vals defs det where enc: "j_dependencies j (f_Dependencies feat) = Inr dep" "j_values j (f_Values feat) = Inr vals"
      "j_defaults j (f_ValuesYAML feat) = Inr defs" "j_details j details = Inr det"
    using assms by (auto simp: CreateFeatureData_def bindE_eq_Inr bindE_eq_Inl split: sum.splits)
  let ?fd = "\<lparr>fd_name = f_Name feat, fd_version = f_Version feat, fd_chart = f_Chart feat, fd_description = f_Description feat,
      fd_source = f_Source feat, fd_kinds = environmentKindToSQL (f_EnvironmentKinds feat), fd_dependencies = dep,
      fd_values = vals, fd_default_values = defs, fd_timeout = Milliseconds (f_Timeout feat), fd_tpl_details = det\<rparr>"
  have "CreateFeatureData_sql io ?fd d = (Inr u, d')" using assms by (simp add: CreateFeatureData_def enc)
  from CreateFeatureData_sql_InrD [OF this] obtain row where row: "jsonb_columns io ?fd = Some row"
    "d' = d \<lparr>feature_data := feature_data d @ [row]\<rparr>" "oci_chart (fd_chart row)" "fd_key row \<notin> fd_key ` set (feature_data d)"
    by blast
  from row(1) show ?thesis
  proof (rule jsonb_columns_SomeD)
    fix deps' vals' defs' det'
    assume j: "io_jsonb io (fd_dependencies ?fd) = Some deps'" "io_jsonb io (fd_values ?fd) = Some vals'"
      "io_jsonb io (fd_default_values ?fd) = Some defs'" "io_jsonb io (fd_tpl_details ?fd) = Some det'"
      and r: "row = ?fd \<lparr>fd_dependencies := deps', fd_values := vals', fd_default_values := defs', fd_tpl_details := det'\<rparr>"
    have "featureFromSQL x row = Inr (stored_feature (fd_tpl_details row) feat)" if "codecs_ok x j io feat"
      using that j enc by (simp add: codecs_ok_def json_roundtrip_def featureFromSQL_def makeFeatureYAML_def r stored_feature_def
          environmentKindToSQL_def)
    then show ?thesis using row(2-4) by (auto simp: r fd_key_def)
  qed
qed

text \<open>
  A stored feature reads back: when \<open>CreateFeatureData\<close> succeeds, the version was new and its chart is an OCI
  reference, and \<open>FeatureByNameVersion\<close> then returns the feature, with its kinds sorted, its timeout cut to whole
  milliseconds and the template details that were stored; every other version reads as before. The encoders and
  decoders of JSON are inverse on the feature.
\<close>

theorem CreateFeatureData_roundtrip:
  assumes "CreateFeatureData j io feat details d = (Inr (), d')" and "codecs_ok x j io feat"
    and "\<not> io_fails io' ''FeatureDataByVersion''"
  shows "(\<exists>tpl. FeatureByNameVersion x io' (f_Name feat) (f_Version feat) d' = Inr (stored_feature tpl feat)) \<and>
    FeatureDataByVersion (f_Name feat) (f_Version feat) d = None \<and> oci_chart (f_Chart feat) \<and>
    ((name, version) \<noteq> (f_Name feat, f_Version feat) \<longrightarrow>
       FeatureByNameVersion x io' name version d' = FeatureByNameVersion x io' name version d)"
proof -
  obtain row where row: "d' = d \<lparr>feature_data := feature_data d @ [row]\<rparr>" "fd_key row = (f_Name feat, f_Version feat)"
    "fd_key row \<notin> fd_key ` set (feature_data d)" "oci_chart (f_Chart feat)"
    "featureFromSQL x row = Inr (stored_feature (fd_tpl_details row) feat)"
    using CreateFeatureData_InrD [OF assms(1), of x] assms(2) by blast
  have none: "find (\<lambda>fd. fd_key fd = (f_Name feat, f_Version feat)) (feature_data d) = None"
    using row(2,3) by (auto simp: find_None_iff image_iff)
  then have "FeatureDataByVersion (f_Name feat) (f_Version feat) d' = Some row"
    by (simp add: FeatureDataByVersion_def row(1,2) find_append)
  then have "FeatureByNameVersion x io' (f_Name feat) (f_Version feat) d' = Inr (stored_feature (fd_tpl_details row) feat)"
    using assms(3) row(5) by (simp add: FeatureByNameVersion_def one_def)
  moreover have "FeatureDataByVersion name version d' = FeatureDataByVersion name version d"
    if "(name, version) \<noteq> (f_Name feat, f_Version feat)"
    using that by (auto simp: FeatureDataByVersion_def row(1,2) find_append split: option.split)
  ultimately show ?thesis using row(4) none by (auto simp: FeatureDataByVersion_def FeatureByNameVersion_def)
qed

definition plain_encoders :: encoders where
  "plain_encoders = \<lparr>j_dependencies = \<lambda>_. Inr ''[]'', j_values = \<lambda>_. Inr ''{}'', j_defaults = \<lambda>_. Inr ''{}'',
     j_details = \<lambda>_. Inr ''{}'', j_string = \<lambda>s. Inr (CHR 0x22 # s @ [CHR 0x22])\<rparr>"

definition plain_externals :: externals where
  "plain_externals = echo_externals \<lparr>x_decode_dependencies := \<lambda>_. Inr [], x_decode_values := \<lambda>_. Inr [],
     x_decode_defaults := \<lambda>_. Inr []\<rparr>"

definition plain_feature :: Feature where
  "plain_feature = \<lparr>f_Dependencies = [], f_EnvironmentKinds = [''tenant'', ''management''], f_Timeout = 1500000, f_Values = [],
     f_Name = ''loki'', f_Chart = ''oci://charts/loki'', f_Version = ''2'', f_Description = [], f_Source = ''src'', f_ValuesYAML = [],
     f_SpecVersion = [], f_TplDetails = []\<rparr>"

lemma plain_codecs: "codecs_ok plain_externals plain_encoders io plain_feature"
  by (simp add: codecs_ok_def json_roundtrip_def plain_externals_def plain_encoders_def plain_feature_def)

lemma plain_created:
  "CreateFeatureData plain_encoders store_io plain_feature no_details empty_db =
     (Inr (), empty_db \<lparr>feature_data := [\<lparr>fd_name = ''loki'', fd_version = ''2'', fd_chart = ''oci://charts/loki'', fd_description = [],
        fd_source = ''src'', fd_kinds = [''management'', ''tenant''], fd_dependencies = ''[]'', fd_values = ''{}'',
        fd_default_values = ''{}'', fd_timeout = 1, fd_tpl_details = ''{}''\<rparr>]\<rparr>)"
  by code_simp

theorem CreateFeatureData_roundtrip_witness:
  "\<exists>tpl. FeatureByNameVersion plain_externals store_io ''loki'' ''2''
     (snd (CreateFeatureData plain_encoders store_io plain_feature no_details empty_db)) =
     Inr (plain_feature \<lparr>f_EnvironmentKinds := [''management'', ''tenant''], f_Timeout := 1000000, f_SpecVersion := ''v2'', f_TplDetails := tpl\<rparr>)"
proof -
  let ?d' = "snd (CreateFeatureData plain_encoders store_io plain_feature no_details empty_db)"
  have "CreateFeatureData plain_encoders store_io plain_feature no_details empty_db = (Inr (), ?d')"
    using plain_created by simp
  from CreateFeatureData_roundtrip [OF this plain_codecs, of store_io]
  have "\<exists>tpl. FeatureByNameVersion plain_externals store_io ''loki'' ''2'' ?d' = Inr (stored_feature tpl plain_feature)"
    by (simp add: plain_feature_def)
  moreover have "stored_feature tpl plain_feature =
      plain_feature \<lparr>f_EnvironmentKinds := [''management'', ''tenant''], f_Timeout := 1000000, f_SpecVersion := ''v2'', f_TplDetails := tpl\<rparr>" for tpl
    by (simp add: stored_feature_def plain_feature_def Milliseconds_def)
  ultimately show ?thesis by simp
qed

end
