(* ===== verification/Assignment_Store.thy ===== *)
theory Assignment_Store
  imports Feature_Store
begin

text \<open>
  Assignments of features to environments: \<open>internal/featureassignment/queries.go\<close> and \<open>model.go\<close> with the
  statements of \<open>featureassignmentsql\<close>.

  Downloading the chart of a feature is a parameter. The theorems: creating an assignment leaves one active
  assignment per feature and target, and the assignments the pages show are the ones the reconciler acts on.
\<close>

section \<open>Rows\<close>

text \<open>The text of a UUID: 32 hexadecimal digits in groups.\<close>

definition hex_digit :: "nat \<Rightarrow> char" where
  "hex_digit n = (if n < 10 then char_of (48 + n) else char_of (87 + n))"

fun hex_digits :: "nat \<Rightarrow> nat \<Rightarrow> string" where
  "hex_digits 0 n = []"
| "hex_digits (Suc k) n = hex_digits k (n div 16) @ [hex_digit (n mod 16)]"

definition uuid_String :: "uuid \<Rightarrow> string" where
  "uuid_String u = (let h = hex_digits 32 u in
     take 8 h @ ''-'' @ take 4 (drop 8 h) @ ''-'' @ take 4 (drop 12 h) @ ''-'' @ take 4 (drop 16 h) @ ''-'' @ drop 20 h)"

record GitHubCommit =
  gc_Owner :: string
  gc_Repo :: string
  gc_Ref :: string

record CreateFeatureAssignment =
  ca_Chart :: string
  ca_Version :: string
  ca_Description :: "string option"
  ca_Commit :: "GitHubCommit option"
  ca_Target :: Labels

definition featureAssignmentFromSQL :: "externals \<Rightarrow> AssignmentRow \<times> FeatureDatum \<Rightarrow> err + FeatureAssignment" where
  "featureAssignmentFromSQL x row = (case row of (d, fd) \<Rightarrow>
     bindE (wrapE ''make feature'' (featureFromSQL x fd)) (\<lambda>feature.
     Inr \<lparr>as_ID = fa_id d, as_Feature = feature, as_Description = fa_description d, as_GHRef = fa_gh_ref d, as_Created = fa_created d,
          as_Active = fa_active d, as_TargetLabels = fa_target d, as_FeatureDisabled = False\<rparr>))"

definition featureAssignmentsFromRows ::
  "externals \<Rightarrow> ((AssignmentRow \<times> FeatureDatum) \<times> bool) list \<Rightarrow> err + FeatureAssignment list" where
  "featureAssignmentsFromRows x rows =
     mapE (\<lambda>(row, disabled). bindE (wrapE ''make feature assignment'' (featureAssignmentFromSQL x row))
       (\<lambda>dep. Inr (dep \<lparr>as_FeatureDisabled := disabled\<rparr>))) rows"

definition assignments_from ::
  "externals \<Rightarrow> (AssignmentRow \<times> FeatureDatum) list \<Rightarrow> err + FeatureAssignment list" where
  "assignments_from x rows = mapE (\<lambda>row. wrapE ''make feature assignment'' (featureAssignmentFromSQL x row)) rows"

definition fa_key :: "AssignmentRow \<Rightarrow> string \<times> Labels" where
  "fa_key a = (fa_feature_name a, fa_target a)"

text \<open>The rows of a table joined with their feature data.\<close>

definition with_data :: "db \<Rightarrow> AssignmentRow list \<Rightarrow> (AssignmentRow \<times> FeatureDatum) list" where
  "with_data d rows = concat (map (\<lambda>a. map (Pair a) (assignment_data d a)) rows)"

section \<open>Statements\<close>

definition ListFeatureAssignmentsForEnvironment :: "uuid \<Rightarrow> db \<Rightarrow> ((AssignmentRow \<times> FeatureDatum) \<times> bool) list" where
  "ListFeatureAssignmentsForEnvironment envID d =
     map (\<lambda>row. (row, map_of (disabled_features d) (envID, fa_feature_name (fst row)) \<noteq> None))
       (distinct_on (\<lambda>(a, fd). (fa_feature_name a, fa_target a)) (sort_key (\<lambda>(a, fd). (fa_feature_name a, fa_target a, - fa_created a))
         (concat (map (\<lambda>e. with_data d (filter (\<lambda>a. fa_active a \<and> labels_superset (e_Labels e) (fa_target a)) (feature_assignments d)))
            (filter (\<lambda>e. e_ID e = envID) (environments d))))))"

definition ListFeatureAssignmentsForFeatureInEnvironment :: "uuid \<Rightarrow> string \<Rightarrow> db \<Rightarrow> (AssignmentRow \<times> FeatureDatum) list" where
  "ListFeatureAssignmentsForFeatureInEnvironment envID featureName d =
     distinct_on (\<lambda>(a, fd). (fa_feature_name a, fa_target a)) (sort_key (\<lambda>(a, fd). (fa_feature_name a, fa_target a, - fa_created a))
       (concat (map (\<lambda>e. with_data d (filter (\<lambda>a. fa_feature_name a = featureName \<and> fa_active a \<and>
            labels_superset (e_Labels e) (fa_target a)) (feature_assignments d)))
          (filter (\<lambda>e. e_ID e = envID) (environments d)))))"

definition GetFeatureAssignment :: "uuid \<Rightarrow> db \<Rightarrow> (AssignmentRow \<times> FeatureDatum) option" where
  "GetFeatureAssignment faID d = find (\<lambda>(a, fd). fa_id a = faID) (with_data d (feature_assignments d))"

text \<open>One row per feature and target: an active one first, then the latest.\<close>

definition ListAllFeatureAssignments :: "db \<Rightarrow> (AssignmentRow \<times> FeatureDatum) list" where
  "ListAllFeatureAssignments d =
     (let best = map fa_id (distinct_on fa_key
            (sort_key (\<lambda>a. (fa_feature_name a, fa_target a, \<not> fa_active a, - fa_created a)) (feature_assignments d)))
      in sort_key (\<lambda>(a, fd). - fa_created a) (with_data d (filter (\<lambda>a. fa_id a \<in> set best) (feature_assignments d))))"

definition ListFeatureAssignmentsByFeature :: "string \<Rightarrow> db \<Rightarrow> (AssignmentRow \<times> FeatureDatum) list" where
  "ListFeatureAssignmentsByFeature name d = sort_key (\<lambda>(a, fd). - fa_created a)
     (with_data d (filter (\<lambda>a. fa_feature_name a = name \<and> fa_active a) (feature_assignments d)))"

definition ListAllFeatureAssignmentsByFeature :: "string \<Rightarrow> db \<Rightarrow> (AssignmentRow \<times> FeatureDatum) list" where
  "ListAllFeatureAssignmentsByFeature name d = sort_key (\<lambda>(a, fd). (\<not> fa_active a, - fa_created a))
     (with_data d (filter (\<lambda>a. fa_feature_name a = name) (feature_assignments d)))"

definition deactivate_where :: "(AssignmentRow \<Rightarrow> bool) \<Rightarrow> db \<Rightarrow> db" where
  "deactivate_where P d =
     d \<lparr>feature_assignments := map (\<lambda>a. if P a then a \<lparr>fa_active := False\<rparr> else a) (feature_assignments d)\<rparr>"

definition DeactivateFeatureAssignment :: "uuid \<Rightarrow> db \<Rightarrow> db" where
  "DeactivateFeatureAssignment faID = deactivate_where (\<lambda>a. fa_id a = faID)"

definition DeactivateActiveFeatureAssignmentForTarget :: "string \<Rightarrow> Labels \<Rightarrow> db \<Rightarrow> db" where
  "DeactivateActiveFeatureAssignmentForTarget name target =
     deactivate_where (\<lambda>a. fa_feature_name a = name \<and> fa_target a = target \<and> fa_active a)"

definition DeactivateFeatureAssignmentsByFeatureAndTarget :: "string \<Rightarrow> Labels \<Rightarrow> db \<Rightarrow> db" where
  "DeactivateFeatureAssignmentsByFeatureAndTarget name target =
     deactivate_where (\<lambda>a. fa_feature_name a = name \<and> fa_target a = target \<and> fa_active a)"

text \<open>The foreign key to the feature data, and the index that allows one active row per feature and target.\<close>

definition CreateFeatureAssignment_sql :: "io \<Rightarrow> string \<Rightarrow> string \<Rightarrow> Labels \<Rightarrow> string option \<Rightarrow> string option \<Rightarrow> AssignmentRow op" where
  "CreateFeatureAssignment_sql io name version target ghRef description d =
     (if io_fails io ''CreateFeatureAssignment'' then (Inl (ErrQuery ''CreateFeatureAssignment''), d)
      else if ghRef \<noteq> None \<and> io_jsonb io (the ghRef) = None then (Inl (PgError ''22P02''), d)
      else if list_ex (\<lambda>a. fa_active a \<and> fa_feature_name a = name \<and> fa_target a = target) (feature_assignments d)
        then (Inl (PgError ''23505''), d)
      else if \<not> list_ex (\<lambda>fd. fd_name fd = name \<and> fd_version fd = version) (feature_data d) then (Inl (PgError ''23503''), d)
      else let a = \<lparr>fa_id = io_diid io 0, fa_feature_name = name, fa_version = version, fa_target = target, fa_created = io_now io,
                 fa_gh_ref = (case ghRef of None \<Rightarrow> None | Some r \<Rightarrow> io_jsonb io r), fa_description = description, fa_active = True\<rparr>
           in (Inr a, d \<lparr>feature_assignments := feature_assignments d @ [a]\<rparr>))"

section \<open>Writing\<close>

definition formatLabels :: "Labels \<Rightarrow> string" where
  "formatLabels labels =
     (if labels = [] then ''all environments''
      else strings_Join (map (\<lambda>k. k @ ''='' @ (case map_of labels k of Some v \<Rightarrow> v | None \<Rightarrow> [])) (sort (map fst labels))) '', '')"

text \<open>\<open>%w\<close> of a \<open>nil\<close> pointer prints \<open><nil>\<close>.\<close>

definition feature_data_error :: "err \<Rightarrow> err" where
  "feature_data_error e = (case pg_code_of e of
      None \<Rightarrow> Errorf ''unable to create feature data: <nil>''
    | Some code \<Rightarrow> Wrap ''unable to create feature data'' (PgError code))"

definition encode_ref :: "encoders \<Rightarrow> GitHubCommit option \<Rightarrow> err + string option" where
  "encode_ref j githubRef = (case githubRef of
      None \<Rightarrow> Inr None
    | Some c \<Rightarrow> bindE (wrapE ''marshal gh ref'' (j_string j (gc_Ref c))) (\<lambda>b. Inr (Some b)))"

definition replace_assignment :: "io \<Rightarrow> Feature \<Rightarrow> string option \<Rightarrow> string option \<Rightarrow> Labels \<Rightarrow> AssignmentRow op" where
  "replace_assignment io feat description ghRef target =
     WithTx io
       (bindT (wrapT ''deactivate previous assignment'' (execT io ''DeactivateActiveFeatureAssignmentForTarget''
           (DeactivateActiveFeatureAssignmentForTarget (f_Name feat) target))) (\<lambda>u.
        wrapT ''unable to create feature assignment''
          (CreateFeatureAssignment_sql io (f_Name feat) (f_Version feat) target ghRef description)))"

definition createFeatureAssignment ::
  "(string \<Rightarrow> err + node) \<Rightarrow> encoders \<Rightarrow> io \<Rightarrow> Feature \<Rightarrow> string option \<Rightarrow> GitHubCommit option \<Rightarrow> Labels \<Rightarrow> uuid op" where
  "createFeatureAssignment parser j io feat description githubRef target d =
     (case ParseTemplateDetails parser (f_Values feat) of
        Inl (Panic m) \<Rightarrow> (Inl (Panic m), d)
      | Inl e \<Rightarrow> (Inl (Wrap ''unable to parse feature template details'' e), d)
      | Inr details \<Rightarrow>
     (case CreateFeatureData j io feat details d of (r, d1) \<Rightarrow>
     (case r of
        Inl e \<Rightarrow> if pg_code_of e \<noteq> Some ''23505'' then (Inl (feature_data_error e), d1)
                 else bindT (liftT (encode_ref j githubRef)) (\<lambda>ghRef.
                   bindT (replace_assignment io feat description ghRef target) (\<lambda>a. returnT (fa_id a))) d1
      | Inr u \<Rightarrow> bindT (liftT (encode_ref j githubRef)) (\<lambda>ghRef.
                   bindT (replace_assignment io feat description ghRef target) (\<lambda>a. returnT (fa_id a))) d1)))"

definition right_arrow :: string where
  "right_arrow = [CHR 0xE2, CHR 0x86, CHR 0x92]"

text \<open>A failure to audit is ignored.\<close>

definition Create :: "(string \<Rightarrow> string \<Rightarrow> err + Feature) \<Rightarrow> (string \<Rightarrow> err + node) \<Rightarrow> encoders \<Rightarrow> io \<Rightarrow> string option \<Rightarrow>
    CreateFeatureAssignment \<Rightarrow> (uuid \<times> string) op" where
  "Create ChartDownloader parser j io email inp d =
     (case ChartDownloader (ca_Chart inp) (ca_Version inp) of
        Inl e \<Rightarrow> (Inl (Wrap ''unable to convert oci chart'' e), d)
      | Inr feat \<Rightarrow>
          if f_Source feat = [] then (Inl (Errorf ''no source url found in Chart.yaml''), d)
          else bindT (createFeatureAssignment parser j io feat (ca_Description inp) (ca_Commit inp) (ca_Target inp)) (\<lambda>id d'.
            (Inr (id, f_Name feat), snd (audit_Create io email
               \<lparr>ap_Action = ActionCreated,
                ap_Description = ''version '' @ ca_Version inp @ '' '' @ right_arrow @ '' '' @ formatLabels (ca_Target inp),
                ap_ObjectType = ObjectTypeFeatureAssignment, ap_ObjectID = f_Name feat, ap_Feature = f_Name feat, ap_EnvironmentID = None,
                ap_Metadata = Some (GMap [(''assignmentId'', GStr (uuid_String id)), (''chart'', GStr (ca_Chart inp)),
                  (''target'', GSMap (ca_Target inp))])\<rparr> d'))) d)"

definition deactivated :: "io \<Rightarrow> string option \<Rightarrow> uuid \<Rightarrow> string \<Rightarrow> string \<Rightarrow> string op" where
  "deactivated io email faID objectID featureName =
     bindT (execT io ''DeactivateFeatureAssignment'' (DeactivateFeatureAssignment faID)) (\<lambda>u.
     bindT (audit_Create io email \<lparr>ap_Action = ActionDeleted, ap_Description = [], ap_ObjectType = ObjectTypeFeatureAssignment,
        ap_ObjectID = objectID, ap_Feature = featureName, ap_EnvironmentID = None,
        ap_Metadata = Some (GMap [(''assignmentId'', GStr (uuid_String faID))])\<rparr>) (\<lambda>u. returnT featureName))"

definition Deactivate :: "io \<Rightarrow> string option \<Rightarrow> uuid \<Rightarrow> string op" where
  "Deactivate io email faID = WithTx io (\<lambda>d.
     case one io ''GetFeatureAssignment'' (GetFeatureAssignment faID d) of
       Inr row \<Rightarrow> deactivated io email faID (fa_feature_name (fst row)) (fa_feature_name (fst row)) d
     | Inl e \<Rightarrow> if errors_Is e ErrNoRows then deactivated io email faID (uuid_String faID) [] d else (Inl e, d))"

definition DeactivateByFeatureAndTarget :: "io \<Rightarrow> string option \<Rightarrow> string \<Rightarrow> Labels \<Rightarrow> unit op" where
  "DeactivateByFeatureAndTarget io email featureName target = WithTx io
     (bindT (execT io ''DeactivateFeatureAssignmentsByFeatureAndTarget'' (DeactivateFeatureAssignmentsByFeatureAndTarget featureName target)) (\<lambda>u.
      audit_Create io email \<lparr>ap_Action = ActionDeleted, ap_Description = [], ap_ObjectType = ObjectTypeFeatureAssignment,
        ap_ObjectID = featureName, ap_Feature = [], ap_EnvironmentID = None, ap_Metadata = Some (GMap [(''target'', GSMap target)])\<rparr>))"

section \<open>Reading\<close>

definition ListForEnvironment :: "externals \<Rightarrow> io \<Rightarrow> uuid \<Rightarrow> db \<Rightarrow> err + FeatureAssignment list" where
  "ListForEnvironment x io envID d =
     bindE (wrapE ''list feature assignments for environment''
       (query (io_fails io) ''ListFeatureAssignmentsForEnvironment'' (ListFeatureAssignmentsForEnvironment envID d))) (\<lambda>rows.
     bindE (featureAssignmentsFromRows x rows) (\<lambda>deps. Inr (mostSpecificPerFeature_fa deps)))"

definition featureassignment_Get :: "externals \<Rightarrow> io \<Rightarrow> uuid \<Rightarrow> db \<Rightarrow> err + FeatureAssignment" where
  "featureassignment_Get x io faID d =
     bindE (wrapE ''getting feature assignment from db'' (one io ''GetFeatureAssignment'' (GetFeatureAssignment faID d))) (\<lambda>row.
     wrapE ''converting feature assignment from sql'' (featureAssignmentFromSQL x row))"

definition ListAll :: "externals \<Rightarrow> io \<Rightarrow> db \<Rightarrow> err + FeatureAssignment list" where
  "ListAll x io d =
     bindE (query (io_fails io) ''ListAllFeatureAssignments'' (ListAllFeatureAssignments d)) (assignments_from x)"

definition ListByFeature :: "externals \<Rightarrow> io \<Rightarrow> string \<Rightarrow> db \<Rightarrow> err + FeatureAssignment list" where
  "ListByFeature x io name d =
     bindE (query (io_fails io) ''ListFeatureAssignmentsByFeature'' (ListFeatureAssignmentsByFeature name d)) (assignments_from x)"

definition ListAllByFeature :: "externals \<Rightarrow> io \<Rightarrow> string \<Rightarrow> db \<Rightarrow> err + FeatureAssignment list" where
  "ListAllByFeature x io name d =
     bindE (query (io_fails io) ''ListAllFeatureAssignmentsByFeature'' (ListAllFeatureAssignmentsByFeature name d)) (assignments_from x)"

definition mostSpecificAssignment :: "externals \<Rightarrow> io \<Rightarrow> uuid \<Rightarrow> string \<Rightarrow> db \<Rightarrow> err + FeatureAssignment" where
  "mostSpecificAssignment x io envID featureName d =
     bindE (wrapE (''query feature assignments for feature '' @ featureName)
       (query (io_fails io) ''ListFeatureAssignmentsForFeatureInEnvironment'' (ListFeatureAssignmentsForFeatureInEnvironment envID featureName d))) (\<lambda>rows.
     if length rows = 0 then Inl (WrapBefore ErrFeatureNotFound (featureName @ '' in environment''))
     else bindE (assignments_from x rows) (\<lambda>deps.
       case mostSpecificPerFeature_fa deps of
         [] \<Rightarrow> Inl (WrapBefore ErrFeatureNotFound (featureName @ '' in environment after filtering''))
       | winner # _ \<Rightarrow> Inr winner))"

definition WinningAssignment :: "externals \<Rightarrow> io \<Rightarrow> uuid \<Rightarrow> string \<Rightarrow> db \<Rightarrow> err + FeatureAssignment" where
  "WinningAssignment = mostSpecificAssignment"

definition FeatureForEnvironment :: "externals \<Rightarrow> io \<Rightarrow> uuid \<Rightarrow> string \<Rightarrow> db \<Rightarrow> err + Feature" where
  "FeatureForEnvironment x io envID featureName d =
     bindE (mostSpecificAssignment x io envID featureName d) (\<lambda>dep. Inr (as_Feature dep))"

definition HasActiveAssignments :: "io \<Rightarrow> string \<Rightarrow> db \<Rightarrow> err + bool" where
  "HasActiveAssignments io name d = query (io_fails io) ''HasActiveAssignments''
     (list_ex (\<lambda>a. fa_feature_name a = name \<and> fa_active a) (feature_assignments d))"

section \<open>The winners of the pages and of the reconciler\<close>

lemma distinct_on_filter: "distinct_on f (filter (\<lambda>x. P (f x)) xs) = filter (\<lambda>x. P (f x)) (distinct_on f xs)"
proof (induction f xs rule: distinct_on.induct)
  case (2 f x xs)
  have "filter (\<lambda>y. f y \<noteq> f x) (filter (\<lambda>y. P (f y)) xs) = filter (\<lambda>y. P (f y)) (filter (\<lambda>y. f y \<noteq> f x) xs)"
    by (simp add: filter_filter conj_commute)
  moreover have "\<not> P (f x) \<Longrightarrow> filter (\<lambda>y. P (f y)) (filter (\<lambda>y. f y \<noteq> f x) ys) = filter (\<lambda>y. P (f y)) ys" for ys
    by (induction ys) auto
  ultimately show ?case using 2 by (auto simp del: filter_filter)
qed simp

lemma with_data_filter:
  "with_data d (filter P rows) = filter (\<lambda>(a, fd). P a) (with_data d rows)"
  by (induction rows) (auto simp: with_data_def filter_map comp_def)

lemma ListLatestFeatureAssignments_with_data:
  "ListLatestFeatureAssignments d = distinct_on (\<lambda>(a, fd). (fa_feature_name a, fa_target a))
     (sort_key (\<lambda>(a, fd). (fa_feature_name a, fa_target a, - fa_created a)) (with_data d (filter fa_active (feature_assignments d))))"
  by (simp add: ListLatestFeatureAssignments_def with_data_def assignment_data_def)

lemma latest_rows_where:
  "distinct_on (\<lambda>(a, fd). (fa_feature_name a, fa_target a)) (sort_key (\<lambda>(a, fd). (fa_feature_name a, fa_target a, - fa_created a))
     (with_data d (filter (\<lambda>a. fa_active a \<and> P (fa_feature_name a, fa_target a)) (feature_assignments d)))) =
   filter (\<lambda>(a, fd). P (fa_feature_name a, fa_target a)) (ListLatestFeatureAssignments d)"
proof -
  let ?k = "\<lambda>(a :: AssignmentRow, fd :: FeatureDatum). (fa_feature_name a, fa_target a)"
  let ?s = "\<lambda>(a :: AssignmentRow, fd :: FeatureDatum). (fa_feature_name a, fa_target a, - fa_created a)"
  have p: "(\<lambda>(a, fd). P (fa_feature_name a, fa_target a)) = (\<lambda>x. P (?k x))" by auto
  have "with_data d (filter (\<lambda>a. fa_active a \<and> P (fa_feature_name a, fa_target a)) (feature_assignments d)) =
      filter (\<lambda>x. P (?k x)) (with_data d (filter fa_active (feature_assignments d)))"
    using with_data_filter [of d "\<lambda>a. P (fa_feature_name a, fa_target a)" "filter fa_active (feature_assignments d)"]
    by (simp add: filter_filter conj_commute p)
  then show ?thesis
    unfolding ListLatestFeatureAssignments_with_data p
    by (simp only: filter_sort [symmetric] distinct_on_filter)
qed

lemma with_data_rows: "(a, fd) \<in> set (with_data d rows) \<Longrightarrow> a \<in> set rows \<and> fa_feature_name a = fd_name fd \<and> fa_version a = fd_version fd"
  by (auto simp: with_data_def assignment_data_def)

lemma latest_rows_data:
  "(a, fd) \<in> set (ListLatestFeatureAssignments d) \<Longrightarrow>
     a \<in> set (feature_assignments d) \<and> fa_active a \<and> fa_feature_name a = fd_name fd \<and> fa_version a = fd_version fd"
  unfolding ListLatestFeatureAssignments_with_data
  by (drule subsetD [OF set_distinct_on]) (auto dest: with_data_rows)

text \<open>Both conversions of a row give the same feature.\<close>

lemma conversions_agree:
  assumes "fa_feature_name a = fd_name fd" and "fa_version a = fd_version fd"
  shows "(\<exists>r. assignmentFromRow x (a, fd) = Inr r) \<longleftrightarrow> (\<exists>s. featureAssignmentFromSQL x (a, fd) = Inr s)"
    and "assignmentFromRow x (a, fd) = Inr r \<Longrightarrow> featureAssignmentFromSQL x (a, fd) = Inr s \<Longrightarrow>
      ra_of_as s = r \<and> as_TargetLabels s = fa_target a \<and> as_key s = fa_feature_name a"
  using assms
  by (auto simp: assignmentFromRow_def featureAssignmentFromSQL_def featureFromSQL_def makeFeatureYAML_def bindE_eq_Inr ra_of_as_def as_key_def)

lemma mapE_filter:
  assumes "mapE f xs = Inr ys" and "\<And>x y. x \<in> set xs \<Longrightarrow> f x = Inr y \<Longrightarrow> P x \<longleftrightarrow> Q y"
  shows "mapE f (filter P xs) = Inr (filter Q ys)"
  using assms by (induction xs arbitrary: ys) (auto simp: bindE_eq_Inr)

lemma mapE_related:
  assumes "mapE f xs = Inr ys" and "\<And>x y. x \<in> set xs \<Longrightarrow> f x = Inr y \<Longrightarrow> \<exists>z. g x = Inr z \<and> h z = y"
  shows "\<exists>zs. mapE g xs = Inr zs \<and> map h zs = ys"
  using assms
proof (induction xs arbitrary: ys)
  case (Cons x xs)
  obtain y ys' where y: "f x = Inr y" "mapE f xs = Inr ys'" "ys = y # ys'" using Cons.prems(1) by (auto simp: bindE_eq_Inr)
  obtain zs where "mapE g xs = Inr zs" "map h zs = ys'" using Cons.IH [OF y(2)] Cons.prems(2) by auto
  moreover obtain z where "g x = Inr z" "h z = y" using Cons.prems(2) [of x y] y(1) by auto
  ultimately show ?case using y(3) by auto
qed simp

text \<open>The environments of a snapshot are those of the database.\<close>

lemma snapshot_env_row:
  assumes "fetchSnapshot x aud fails d = Inr snap" and "env \<in> set (s_environments snap)"
  shows "\<exists>e \<in> set (environments d). e_ID e = en_ID env \<and> e_Labels e = en_Labels env \<and> e_Reconcile e"
  using assms(2) unfolding fetchSnapshot_InrD(1) [OF assms(1)]
  by (auto simp: ListAllTenantEnvironments_def environment_of_row_def)

lemma filter_id_unique: "distinct (map f xs) \<Longrightarrow> x \<in> set xs \<Longrightarrow> filter (\<lambda>y. f y = f x) xs = [x]"
  by (induction xs) (auto simp: filter_empty_conv image_iff)

lemma env_filter:
  assumes "fetchSnapshot x aud fails d = Inr snap" and "env \<in> set (s_environments snap)" and "distinct (map e_ID (environments d))"
  shows "\<exists>e. filter (\<lambda>e. e_ID e = en_ID env) (environments d) = [e] \<and> e_Labels e = en_Labels env"
proof -
  obtain e where e: "e \<in> set (environments d)" "e_ID e = en_ID env" "e_Labels e = en_Labels env"
    using snapshot_env_row [OF assms(1,2)] by blast
  then show ?thesis using filter_id_unique [OF assms(3) e(1)] by simp
qed

definition targets_filled :: "db \<Rightarrow> bool" where
  "targets_filled d \<longleftrightarrow> list_all (\<lambda>a. list_all (\<lambda>(k, v). v \<noteq> []) (fa_target a)) (feature_assignments d)"

lemma matching_rows:
  assumes snap: "fetchSnapshot x aud fails d = Inr snap" and "targets_filled d"
  shows "mapE (assignmentFromRow x) (filter (\<lambda>(a, fd). labels_superset labels (fa_target a)) (ListLatestFeatureAssignments d)) =
    Inr (filter (\<lambda>dep. labelsContain labels (ra_TargetLabels dep)) (s_assignments snap))"
proof (rule mapE_filter [OF fetchSnapshot_InrD(8) [OF snap]])
  fix row r assume row: "row \<in> set (ListLatestFeatureAssignments d)" and r: "assignmentFromRow x row = Inr r"
  obtain a fd where rw: "row = (a, fd)" by (cases row)
  have "ra_TargetLabels r = fa_target a" using r by (auto simp: rw assignmentFromRow_def bindE_eq_Inr)
  moreover have "list_all (\<lambda>(k, v). v \<noteq> []) (fa_target a)"
    using assms(2) latest_rows_data [of a fd d] row by (auto simp: rw targets_filled_def list_all_iff)
  ultimately show "(case row of (a, fd) \<Rightarrow> labels_superset labels (fa_target a)) \<longleftrightarrow> labelsContain labels (ra_TargetLabels r)"
    by (simp add: rw labelsContain_superset)
qed

lemma mapE_map: "mapE f (map g xs) = mapE (\<lambda>x. f (g x)) xs"
  by (induction xs) simp_all

lemma ra_of_as_flag [simp]: "ra_of_as (a \<lparr>as_FeatureDisabled := b\<rparr>) = ra_of_as a"
  by (simp add: ra_of_as_def)

lemma env_rows:
  assumes "filter (\<lambda>e. e_ID e = envID) (environments d) = [e]"
  shows "ListFeatureAssignmentsForEnvironment envID d =
      map (\<lambda>row. (row, map_of (disabled_features d) (envID, fa_feature_name (fst row)) \<noteq> None))
        (filter (\<lambda>(a, fd). labels_superset (e_Labels e) (fa_target a)) (ListLatestFeatureAssignments d))"
    and "ListFeatureAssignmentsForFeatureInEnvironment envID name d =
      filter (\<lambda>(a, fd). fa_feature_name a = name)
        (filter (\<lambda>(a, fd). labels_superset (e_Labels e) (fa_target a)) (ListLatestFeatureAssignments d))"
proof -
  show "ListFeatureAssignmentsForEnvironment envID d =
      map (\<lambda>row. (row, map_of (disabled_features d) (envID, fa_feature_name (fst row)) \<noteq> None))
        (filter (\<lambda>(a, fd). labels_superset (e_Labels e) (fa_target a)) (ListLatestFeatureAssignments d))"
    using latest_rows_where [of d "\<lambda>(n, t). labels_superset (e_Labels e) t"]
    by (simp add: ListFeatureAssignmentsForEnvironment_def assms)
  have eq: "(\<lambda>a. fa_feature_name a = name \<and> fa_active a \<and> labels_superset (e_Labels e) (fa_target a)) =
      (\<lambda>a. fa_active a \<and> (case (fa_feature_name a, fa_target a) of (n, t) \<Rightarrow> n = name \<and> labels_superset (e_Labels e) t))"
    by auto
  have two: "filter (\<lambda>(a, fd). fa_feature_name a = name) (filter (\<lambda>(a, fd). labels_superset (e_Labels e) (fa_target a)) rows) =
      filter (\<lambda>(a, fd). case (fa_feature_name a, fa_target a) of (n, t) \<Rightarrow> n = name \<and> labels_superset (e_Labels e) t) rows" for rows
    by (induction rows) auto
  show "ListFeatureAssignmentsForFeatureInEnvironment envID name d =
      filter (\<lambda>(a, fd). fa_feature_name a = name)
        (filter (\<lambda>(a, fd). labels_superset (e_Labels e) (fa_target a)) (ListLatestFeatureAssignments d))"
    by (simp only: ListFeatureAssignmentsForFeatureInEnvironment_def assms list.map concat.simps append_Nil2 eq two
        latest_rows_where [of d "\<lambda>(n, t). n = name \<and> labels_superset (e_Labels e) t"])
qed

lemma row_related:
  assumes "(a, fd) \<in> set (ListLatestFeatureAssignments d)" and "assignmentFromRow x (a, fd) = Inr r"
  shows "\<exists>s. featureAssignmentFromSQL x (a, fd) = Inr s \<and> ra_of_as s = r \<and> as_key s = fa_feature_name a"
proof -
  have eq: "fa_feature_name a = fd_name fd" "fa_version a = fd_version fd" using latest_rows_data [OF assms(1)] by simp_all
  obtain s where "featureAssignmentFromSQL x (a, fd) = Inr s" using conversions_agree(1) [OF eq, of x] assms(2) by blast
  then show ?thesis using conversions_agree(2) [OF eq assms(2)] by blast
qed

text \<open>All assignments of an environment, as the pages list them.\<close>

lemma ListForEnvironment_winners:
  assumes "fetchSnapshot x aud fails d = Inr snap" and "env \<in> set (s_environments snap)"
    and "distinct (map e_ID (environments d))" and "targets_filled d"
    and "\<not> io_fails io ''ListFeatureAssignmentsForEnvironment''"
  shows "\<exists>deps. ListForEnvironment x io (en_ID env) d = Inr deps \<and> map ra_of_as deps = env_winners snap env \<and>
    list_all (\<lambda>a. as_FeatureDisabled a = flag2 (s_disabledByEnv snap) (en_ID env) (as_key a)) deps"
proof -
  obtain e where e: "filter (\<lambda>e. e_ID e = en_ID env) (environments d) = [e]" "e_Labels e = en_Labels env"
    using env_filter [OF assms(1-3)] by blast
  define rows where "rows = filter (\<lambda>(a, fd). labels_superset (en_Labels env) (fa_target a)) (ListLatestFeatureAssignments d)"
  define dis where "dis n \<longleftrightarrow> map_of (disabled_features d) (en_ID env, n) \<noteq> None" for n
  define g where "g row = bindE (wrapE ''make feature assignment'' (featureAssignmentFromSQL x row))
      (\<lambda>dep. Inr (dep \<lparr>as_FeatureDisabled := dis (fa_feature_name (fst row))\<rparr>))" for row
  have src: "mapE (assignmentFromRow x) rows = Inr (matchAssignments (s_assignments snap) env)"
    using matching_rows [OF assms(1,4)] by (simp add: matchAssignments_def rows_def)
  have rel: "\<exists>z. g row = Inr z \<and> ra_of_as z = r \<and> as_FeatureDisabled z = dis (as_key z)"
    if "row \<in> set rows" "assignmentFromRow x row = Inr r" for row r
    using row_related [of "fst row" "snd row" d x r] that by (auto simp: as_key_def g_def rows_def)
  obtain zs where zs: "mapE g rows = Inr zs" "map ra_of_as zs = matchAssignments (s_assignments snap) env"
    using mapE_related [OF src, of g ra_of_as] rel by metis
  have flags: "as_FeatureDisabled z = dis (as_key z)" if z: "z \<in> set zs" for z
  proof -
    obtain row where row: "row \<in> set rows" "g row = Inr z" using mapE_Inr_set [OF zs(1), of z] z by blast
    obtain r where "assignmentFromRow x row = Inr r" using mapE_Inr_all [of "assignmentFromRow x" rows] src row(1) by blast
    then show ?thesis using rel [OF row(1)] row(2) by auto
  qed
  have "ListForEnvironment x io (en_ID env) d = Inr (mostSpecificPerFeature_fa zs)"
    using zs(1) assms(5)
    by (simp add: ListForEnvironment_def env_rows(1) [OF e(1)] e(2) featureAssignmentsFromRows_def mapE_map query_def
        rows_def g_def [abs_def] dis_def)
  moreover have "map ra_of_as (mostSpecificPerFeature_fa zs) = env_winners snap env"
    by (simp add: winners_agree zs(2) env_winners_def)
  moreover have "list_all (\<lambda>a. as_FeatureDisabled a = flag2 (s_disabledByEnv snap) (en_ID env) (as_key a)) (mostSpecificPerFeature_fa zs)"
    using flags fa.pick_subset [of zs] by (auto simp: list_all_iff snapshot_disabled [OF assms(1)] dis_def)
  ultimately show ?thesis by blast
qed

text \<open>The winning assignment of one feature.\<close>

lemma WinningAssignment_correct:
  assumes "fetchSnapshot x aud fails d = Inr snap" and "env \<in> set (s_environments snap)"
    and "distinct (map e_ID (environments d))" and "targets_filled d"
    and "\<not> io_fails io ''ListFeatureAssignmentsForFeatureInEnvironment''"
  shows "case WinningAssignment x io (en_ID env) name d of
      Inr w \<Rightarrow> ra_of_as w \<in> set (env_winners snap env) \<and> as_key w = name
    | Inl err \<Rightarrow> errors_Is err ErrFeatureNotFound \<and> name \<notin> ra_key ` set (env_winners snap env)"
proof -
  obtain e where e: "filter (\<lambda>e. e_ID e = en_ID env) (environments d) = [e]" "e_Labels e = en_Labels env"
    using env_filter [OF assms(1-3)] by blast
  let ?m = "filter (\<lambda>(a, fd). labels_superset (en_Labels env) (fa_target a)) (ListLatestFeatureAssignments d)"
  let ?rows = "filter (\<lambda>(a, fd). fa_feature_name a = name) ?m"
  let ?deps = "filter (\<lambda>r. ra_key r = name) (matchAssignments (s_assignments snap) env)"
  have "mapE (assignmentFromRow x) ?m = Inr (matchAssignments (s_assignments snap) env)"
    using matching_rows [OF assms(1,4)] by (simp add: matchAssignments_def)
  then have src: "mapE (assignmentFromRow x) ?rows = Inr ?deps"
    by (rule mapE_filter) (auto simp: assignmentFromRow_def bindE_eq_Inr ra_key_def)
  have "\<exists>s. wrapE ''make feature assignment'' (featureAssignmentFromSQL x row) = Inr s \<and> ra_of_as s = r"
    if "row \<in> set ?rows" "assignmentFromRow x row = Inr r" for row r
    using row_related [of "fst row" "snd row" d x r] that by auto
  then obtain zs where zs: "assignments_from x ?rows = Inr zs" "map ra_of_as zs = ?deps"
    using mapE_related [OF src, of "\<lambda>row. wrapE ''make feature assignment'' (featureAssignmentFromSQL x row)" ra_of_as]
    by (auto simp: assignments_from_def)
  have "length ?rows = length zs" using mapE_length [OF src] zs(2) by (metis length_map)
  then have emp: "?rows = [] \<longleftrightarrow> zs = []" by (metis length_0_conv)
  have win: "ra_of_as ` set (mostSpecificPerFeature_fa zs) = {w \<in> set (env_winners snap env). ra_key w = name}"
    using ra.pick_filter [of _ name "matchAssignments (s_assignments snap) env"] winners_agree [of zs]
    by (auto simp: zs(2) env_winners_def simp flip: set_map)
  have run: "WinningAssignment x io (en_ID env) name d =
      (if zs = [] then Inl (WrapBefore ErrFeatureNotFound (name @ '' in environment''))
       else case mostSpecificPerFeature_fa zs of
         [] \<Rightarrow> Inl (WrapBefore ErrFeatureNotFound (name @ '' in environment after filtering'')) | w # _ \<Rightarrow> Inr w)"
    using zs(1) emp assms(5)
    by (simp add: WinningAssignment_def mostSpecificAssignment_def env_rows(2) [OF e(1)] e(2) query_def del: filter_filter)
  show ?thesis
  proof (cases "mostSpecificPerFeature_fa zs")
    case Nil
    then have "name \<notin> ra_key ` set (env_winners snap env)" using win by auto
    then show ?thesis using Nil by (simp add: run)
  next
    case (Cons w ws)
    then have "ra_of_as w \<in> {w \<in> set (env_winners snap env). ra_key w = name}" using win by (metis imageI list.set_intros(1))
    moreover have "zs \<noteq> []" using Cons fa.pick_subset [of zs] by auto
    ultimately show ?thesis using Cons by (simp add: run)
  qed
qed

lemma example_targets: "targets_filled example_db" "distinct (map e_ID (environments example_db))"
  by (simp_all add: targets_filled_def example_db_def empty_db_def)

lemma example_env_mem: "example_env \<in> set (s_environments example_snapshot)"
  by (simp add: example_snapshot_def)

lemma example_winning: "\<exists>w. WinningAssignment example_externals store_io (en_ID example_env) ''loki'' example_db = Inr w"
  by (simp add: WinningAssignment_def mostSpecificAssignment_def ListFeatureAssignmentsForFeatureInEnvironment_def query_def
      example_db_def empty_db_def example_env_def labels_superset_def with_data_def assignment_data_def assignments_from_def
      featureAssignmentFromSQL_def featureFromSQL_def makeFeatureYAML_def example_externals_def echo_externals_def
      mostSpecificPerFeature_fa_def as_winner_def as_key_def)

text \<open>
  C37. The pages show what the reconciler acts on. For a reconciled environment of the snapshot, the assignments that
  \<open>ListForEnvironment\<close> returns are, in the same order, the winners that the reconciler computes from the snapshot,
  although one matches labels in the database and the other in Go; each is marked disabled exactly when the
  reconciler finds the feature disabled there. \<open>WinningAssignment\<close> returns the winner of one feature, and it fails
  with \<open>ErrFeatureNotFound\<close> exactly when there is none. Target labels have no empty values and environment
  identifiers are distinct.
\<close>

theorem pages_agree_with_reconciler:
  assumes "fetchSnapshot x aud fails d = Inr snap" and "env \<in> set (s_environments snap)"
    and "distinct (map e_ID (environments d))" and "targets_filled d"
    and "\<not> io_fails io ''ListFeatureAssignmentsForEnvironment''"
    and "\<not> io_fails io ''ListFeatureAssignmentsForFeatureInEnvironment''"
  shows "(\<exists>deps. ListForEnvironment x io (en_ID env) d = Inr deps \<and> map ra_of_as deps = env_winners snap env \<and>
      list_all (\<lambda>a. as_FeatureDisabled a = flag2 (s_disabledByEnv snap) (en_ID env) (as_key a)) deps) \<and>
    (case WinningAssignment x io (en_ID env) name d of
       Inr w \<Rightarrow> ra_of_as w \<in> set (env_winners snap env) \<and> as_key w = name
     | Inl err \<Rightarrow> errors_Is err ErrFeatureNotFound \<and> name \<notin> ra_key ` set (env_winners snap env))"
  using ListForEnvironment_winners [OF assms(1-5)] WinningAssignment_correct [OF assms(1-4,6)] by (rule conjI)

theorem pages_agree_with_reconciler_witness:
  "(\<exists>deps. ListForEnvironment example_externals store_io (en_ID example_env) example_db = Inr deps \<and>
      map ra_of_as deps = env_winners example_snapshot example_env) \<and>
   (\<exists>w. WinningAssignment example_externals store_io (en_ID example_env) ''loki'' example_db = Inr w \<and>
      ra_of_as w \<in> set (env_winners example_snapshot example_env))"
proof -
  have io: "\<not> io_fails store_io q" for q by simp
  show ?thesis
    using pages_agree_with_reconciler [OF example_fetch example_env_mem example_targets(2,1) io io, of "''loki''"] example_winning by auto
qed

section \<open>Creating an assignment\<close>

text \<open>At most one active assignment per feature and target.\<close>

definition assignments_ok :: "db \<Rightarrow> bool" where
  "assignments_ok d \<longleftrightarrow> distinct (map fa_key (filter fa_active (feature_assignments d)))"

definition retire :: "string \<times> Labels \<Rightarrow> AssignmentRow \<Rightarrow> AssignmentRow" where
  "retire key a = (if fa_key a = key then a \<lparr>fa_active := False\<rparr> else a)"

lemma retire_active: "filter fa_active (map (retire key) rows) = filter (\<lambda>a. fa_key a \<noteq> key) (filter fa_active rows)"
  by (induction rows) (auto simp: retire_def)

lemma DeactivateActive_retire:
  "feature_assignments (DeactivateActiveFeatureAssignmentForTarget name target d) = map (retire (name, target)) (feature_assignments d)"
  by (auto simp: DeactivateActiveFeatureAssignmentForTarget_def deactivate_where_def retire_def fa_key_def)

lemma deactivate_feature_data [simp]:
  "feature_data (DeactivateActiveFeatureAssignmentForTarget name target d) = feature_data d"
  by (simp add: DeactivateActiveFeatureAssignmentForTarget_def deactivate_where_def)

lemma audit_Create_tables [simp]:
  "feature_assignments (snd (audit_Create io email p d)) = feature_assignments d" "feature_data (snd (audit_Create io email p d)) = feature_data d"
  "environments (snd (audit_Create io email p d)) = environments d"
  by (simp_all add: audit_Create_def execT_def)

definition assignment_replaced :: "io \<Rightarrow> Feature \<Rightarrow> Labels \<Rightarrow> uuid \<Rightarrow> db \<Rightarrow> db \<Rightarrow> bool" where
  "assignment_replaced io feat target faID d d' \<longleftrightarrow>
     (\<exists>row. feature_assignments d' = map (retire (f_Name feat, target)) (feature_assignments d) @ [row] \<and>
        fa_id row = faID \<and> fa_key row = (f_Name feat, target) \<and> fa_version row = f_Version feat \<and> fa_created row = io_now io \<and>
        fa_active row \<and> assignment_data d' row \<noteq> [])"

lemma replace_assignment_Inr:
  assumes "replace_assignment io feat description ghRef target d = (Inr row, d')"
  shows "assignment_replaced io feat target (fa_id row) d d' \<and> feature_data d' = feature_data d"
  using assms unfolding replace_assignment_def
  by (auto simp: WithTx_eq_Inr bindT_eq_Inr CreateFeatureAssignment_sql_def assignment_replaced_def DeactivateActive_retire Let_def
      list_ex_iff fa_key_def assignment_data_def filter_empty_conv eq_commute [of "f_Name feat"] eq_commute [of "f_Version feat"] split: if_splits)

lemma replace_assignment_Inl: "replace_assignment io feat description ghRef target d = (Inl e, d') \<Longrightarrow> d' = d"
  using WithTx_rollback [of io _ d e] by (metis fst_conv replace_assignment_def snd_conv)

lemma CreateFeatureData_assignments:
  "CreateFeatureData j io feat details d = (r, d') \<Longrightarrow> feature_assignments d' = feature_assignments d"
  by (auto simp: CreateFeatureData_def CreateFeatureData_sql_def split: sum.splits if_splits option.splits)

lemma createFeatureAssignment_cases:
  assumes "createFeatureAssignment parser j io feat description commit target d = (r, d')"
  shows "case r of Inl e \<Rightarrow> feature_assignments d' = feature_assignments d
    | Inr faID \<Rightarrow> assignment_replaced io feat target faID d d'"
proof -
  define tail where "tail = bindT (liftT (encode_ref j commit)) (\<lambda>ghRef.
      bindT (replace_assignment io feat description ghRef target) (\<lambda>a. returnT (fa_id a)))"
  have t: "case r of Inl e \<Rightarrow> d' = d1 | Inr faID \<Rightarrow> assignment_replaced io feat target faID d1 d'" if "tail d1 = (r, d')" for d1
  proof (cases r)
    case (Inl e)
    then show ?thesis
      using that by (auto simp: tail_def bindT_def liftT_def returnT_def split: prod.splits sum.splits dest: replace_assignment_Inl)
  next
    case (Inr faID)
    then show ?thesis using that by (auto simp: tail_def bindT_eq_Inr dest: replace_assignment_Inr)
  qed
  have same: "assignment_replaced io feat target faID d d'" if "assignment_replaced io feat target faID d1 d'"
    "feature_assignments d1 = feature_assignments d" for faID d1
    using that by (simp add: assignment_replaced_def)
  consider e where "r = Inl e" "d' = d" | details r1 d1 where "CreateFeatureData j io feat details d = (r1, d1)"
      "(\<exists>e. r = Inl e \<and> d' = d1) \<or> tail d1 = (r, d')"
    using assms unfolding createFeatureAssignment_def tail_def [symmetric]
    by (auto split: sum.splits err.splits prod.splits if_splits)
  then show ?thesis
  proof cases
    case 2
    then have "feature_assignments d1 = feature_assignments d" by (intro CreateFeatureData_assignments)
    then show ?thesis using 2(2) t [of d1] same [of _ d1] by (cases r) auto
  qed simp
qed

lemma Create_cases:
  assumes "Create ChartDownloader parser j io email inp d = (r, d')"
  shows "case r of Inl e \<Rightarrow> feature_assignments d' = feature_assignments d
    | Inr (faID, name) \<Rightarrow> (\<exists>feat. ChartDownloader (ca_Chart inp) (ca_Version inp) = Inr feat \<and> name = f_Name feat \<and> f_Source feat \<noteq> [] \<and>
        assignment_replaced io feat (ca_Target inp) faID d d')"
proof (cases "ChartDownloader (ca_Chart inp) (ca_Version inp)")
  case (Inr feat)
  obtain r1 d1 where c: "createFeatureAssignment parser j io feat (ca_Description inp) (ca_Commit inp) (ca_Target inp) d = (r1, d1)"
    by (cases "createFeatureAssignment parser j io feat (ca_Description inp) (ca_Commit inp) (ca_Target inp) d")
  show ?thesis
  proof (cases "f_Source feat = []")
    case False
    then show ?thesis
      using assms createFeatureAssignment_cases [OF c] Inr
      by (cases r1) (auto simp: Create_def bindT_def c assignment_replaced_def assignment_data_def)
  qed (use assms Inr in \<open>auto simp: Create_def\<close>)
qed (use assms in \<open>auto simp: Create_def\<close>)

lemma replaced_ok: "assignments_ok d \<Longrightarrow> assignment_replaced io feat target faID d d' \<Longrightarrow> assignments_ok d'"
  by (auto simp: assignments_ok_def assignment_replaced_def retire_active distinct_map_filter simp del: filter_filter)

lemma replaced_row:
  "assignment_replaced io feat target faID d d' \<Longrightarrow>
     \<exists>row \<in> set (feature_assignments d'). fa_active row \<and> assignment_data d' row \<noteq> [] \<and> fa_key row = (f_Name feat, target)"
  unfolding assignment_replaced_def by force

lemma replaced_active:
  "assignment_replaced io feat target faID d d' \<Longrightarrow> a \<in> set (feature_assignments d') \<Longrightarrow> fa_active a \<Longrightarrow>
     a \<in> set (feature_assignments d) \<and> fa_key a \<noteq> (f_Name feat, target) \<or> fa_id a = faID \<and> fa_key a = (f_Name feat, target) \<and> fa_created a = io_now io"
  by (auto simp: assignment_replaced_def retire_def split: if_splits)

text \<open>
  C38. Creating an assignment replaces: when \<open>Create\<close> succeeds, the earlier assignments of the same feature and target
  are inactive and otherwise unchanged, the new one is appended, active, for the version of the downloaded chart and
  with stored feature data, and there is still at most one active assignment per feature and target; when it fails,
  no assignment has changed.
\<close>

theorem Create_one_active:
  assumes "Create ChartDownloader parser j io email inp d = (r, d')" and "assignments_ok d"
  shows "assignments_ok d' \<and>
    (case r of
       Inl e \<Rightarrow> feature_assignments d' = feature_assignments d
     | Inr (faID, name) \<Rightarrow> \<exists>feat row. ChartDownloader (ca_Chart inp) (ca_Version inp) = Inr feat \<and> name = f_Name feat \<and>
         feature_assignments d' = map (retire (name, ca_Target inp)) (feature_assignments d) @ [row] \<and>
         fa_id row = faID \<and> fa_key row = (name, ca_Target inp) \<and> fa_version row = f_Version feat \<and> fa_active row \<and>
         assignment_data d' row \<noteq> [])"
proof (cases r)
  case (Inl e)
  then show ?thesis using Create_cases [OF assms(1)] assms(2) by (simp add: assignments_ok_def)
next
  case (Inr p)
  obtain faID name where p: "p = (faID, name)" by (cases p)
  obtain feat where f: "ChartDownloader (ca_Chart inp) (ca_Version inp) = Inr feat" "name = f_Name feat"
      "assignment_replaced io feat (ca_Target inp) faID d d'"
    using Create_cases [OF assms(1)] by (auto simp: Inr p)
  then show ?thesis using replaced_ok [OF assms(2) f(3)] by (auto simp: Inr p assignment_replaced_def)
qed

definition example_inp :: CreateFeatureAssignment where
  "example_inp = \<lparr>ca_Chart = ''oci://charts/loki'', ca_Version = ''2'', ca_Description = None, ca_Commit = None,
     ca_Target = [(''tenant'', ''acme'')]\<rparr>"

definition example_downloader :: "string \<Rightarrow> string \<Rightarrow> err + Feature" where
  "example_downloader chart version = Inr plain_feature"

lemma example_assignments_ok: "assignments_ok example_db"
  by (simp add: assignments_ok_def example_db_def empty_db_def)

text \<open>Evaluating \<open>Create\<close> on the example.\<close>

lemmas create_eval = Create_def example_downloader_def plain_feature_def createFeatureAssignment_def ParseTemplateDetails_eq
  CreateFeatureData_def plain_encoders_def CreateFeatureData_sql_def jsonb_columns_def environmentKindToSQL_def environment_kinds_def
  oci_chart_def strings_HasPrefix_def fd_key_def example_db_def empty_db_def bindT_def liftT_def encode_ref_def example_inp_def
  replace_assignment_def WithTx_def wrapT_def execT_def CreateFeatureAssignment_sql_def DeactivateActiveFeatureAssignmentForTarget_def
  deactivate_where_def returnT_def Let_def

lemma example_Create_assignment:
  "fst (Create example_downloader example_parser plain_encoders store_io None example_inp example_db) = Inr (50, ''loki'')"
  by (simp add: create_eval)

theorem Create_one_active_witness:
  "assignments_ok (snd (Create example_downloader example_parser plain_encoders store_io None example_inp example_db)) \<and>
   (\<exists>row. feature_assignments (snd (Create example_downloader example_parser plain_encoders store_io None example_inp example_db)) =
      map (retire (''loki'', [(''tenant'', ''acme'')])) (feature_assignments example_db) @ [row] \<and> fa_id row = 50 \<and> fa_version row = ''2'')"
proof -
  let ?c = "Create example_downloader example_parser plain_encoders store_io None example_inp example_db"
  have "?c = (Inr (50, ''loki''), snd ?c)" using example_Create_assignment by (metis prod.collapse)
  from Create_one_active [OF this example_assignments_ok] show ?thesis
    by (auto simp: example_inp_def example_downloader_def plain_feature_def)
qed

section \<open>A new assignment reaches the environments\<close>

lemma latest_has_key:
  assumes "a \<in> set (feature_assignments d)" and "fa_active a" and "assignment_data d a \<noteq> []"
  shows "\<exists>b fd. (b, fd) \<in> set (ListLatestFeatureAssignments d) \<and> fa_key b = fa_key a"
proof -
  let ?k = "\<lambda>(a :: AssignmentRow, fd :: FeatureDatum). (fa_feature_name a, fa_target a)"
  obtain fd where "fd \<in> set (assignment_data d a)" using hd_in_set [OF assms(3)] by blast
  then have "(a, fd) \<in> set (with_data d (filter fa_active (feature_assignments d)))" using assms(1,2) by (auto simp: with_data_def)
  then have "?k (a, fd) \<in> ?k ` set (ListLatestFeatureAssignments d)"
    unfolding ListLatestFeatureAssignments_with_data distinct_on_keys by (simp only: set_sort imageI)
  then show ?thesis by (auto simp: fa_key_def)
qed

lemma snapshot_assignment_of_row:
  assumes "fetchSnapshot x aud fails d = Inr snap" and "(a, fd) \<in> set (ListLatestFeatureAssignments d)"
  shows "\<exists>dep \<in> set (s_assignments snap). ra_ID dep = fa_id a \<and> (ra_key dep, ra_TargetLabels dep) = fa_key a \<and> ra_Created dep = fa_created a"
proof -
  note m = fetchSnapshot_InrD(8) [OF assms(1)]
  have "\<exists>ys. mapE (assignmentFromRow x) (ListLatestFeatureAssignments d) = Inr ys" using m by (rule exI)
  then obtain dep where dep: "assignmentFromRow x (a, fd) = Inr dep" unfolding mapE_Inr_all using assms(2) by blast
  then have "dep \<in> set (s_assignments snap)" unfolding mapE_Inr_set [OF m] using assms(2) by blast
  moreover have "ra_ID dep = fa_id a \<and> (ra_key dep, ra_TargetLabels dep) = fa_key a \<and> ra_Created dep = fa_created a"
    using dep by (auto simp: assignmentFromRow_def bindE_eq_Inr ra_key_def fa_key_def)
  ultimately show ?thesis by blast
qed

lemma snapshot_assignment_row:
  assumes "fetchSnapshot x aud fails d = Inr snap" and "dep \<in> set (s_assignments snap)"
  shows "\<exists>a \<in> set (feature_assignments d). fa_active a \<and> ra_ID dep = fa_id a \<and> (ra_key dep, ra_TargetLabels dep) = fa_key a \<and>
    ra_Created dep = fa_created a"
proof -
  note m = fetchSnapshot_InrD(8) [OF assms(1)]
  obtain row where row: "row \<in> set (ListLatestFeatureAssignments d)" "assignmentFromRow x row = Inr dep"
    using mapE_Inr_set [OF m] assms(2) by blast
  obtain a fd where rw: "row = (a, fd)" by (cases row)
  have "a \<in> set (feature_assignments d) \<and> fa_active a" using latest_rows_data row(1) rw by blast
  moreover have "ra_ID dep = fa_id a \<and> (ra_key dep, ra_TargetLabels dep) = fa_key a \<and> ra_Created dep = fa_created a"
    using row(2) by (auto simp: rw assignmentFromRow_def bindE_eq_Inr ra_key_def fa_key_def)
  ultimately show ?thesis by blast
qed

text \<open>
  C39. A new assignment reaches the environments: after \<open>Create\<close>, in every snapshot of the database, an environment
  whose labels match the target of the new assignment gets for that feature the new assignment, unless an assignment
  with more target labels matches too. The clock is past the creation of the earlier assignments.
\<close>

theorem Create_wins:
  assumes "Create ChartDownloader parser j io email inp d = (Inr (faID, name), d')"
    and "list_all (\<lambda>a. fa_created a < io_now io) (feature_assignments d)"
    and "fetchSnapshot x aud fails d' = Inr snap" and "env \<in> set (s_environments snap)"
    and "labelsContain (en_Labels env) (ca_Target inp)"
  shows "\<exists>w \<in> set (env_winners snap env). ra_key w = name \<and>
    (ra_ID w = faID \<or> length (ca_Target inp) < length (ra_TargetLabels w))"
proof -
  obtain feat where f: "name = f_Name feat" "assignment_replaced io feat (ca_Target inp) faID d d'"
    using Create_cases [OF assms(1)] by auto
  obtain row where row: "row \<in> set (feature_assignments d')" "fa_active row" "assignment_data d' row \<noteq> []" "fa_key row = (name, ca_Target inp)"
    using replaced_row [OF f(2)] f(1) by blast
  obtain a fd where a: "(a, fd) \<in> set (ListLatestFeatureAssignments d')" "fa_key a = (name, ca_Target inp)"
    using latest_has_key [OF row(1-3)] row(4) by auto
  have new: "fa_created a = io_now io"
    using replaced_active [OF f(2)] latest_rows_data [OF a(1)] a(2) f(1) by blast
  obtain dep where dep: "dep \<in> set (s_assignments snap)" "(ra_key dep, ra_TargetLabels dep) = (name, ca_Target inp)" "ra_Created dep = io_now io"
    using snapshot_assignment_of_row [OF assms(3) a(1)] a(2) new by auto
  then have m: "dep \<in> set (matchAssignments (s_assignments snap) env)" using assms(5) by (simp add: matchAssignments_def)
  obtain w where w: "w \<in> set (env_winners snap env)" "ra_key w = ra_key dep"
    using ra.pick_exists [OF m] by (auto simp: env_winners_def)
  have le: "ra_rank dep \<le> ra_rank w" using ra.pick_max [OF _ m] w by (simp add: env_winners_def)
  have "w \<in> set (s_assignments snap)" using w(1) ra.pick_subset [of "matchAssignments (s_assignments snap) env"]
    by (auto simp: env_winners_def matchAssignments_def)
  from snapshot_assignment_row [OF assms(3) this] obtain b where b: "b \<in> set (feature_assignments d')" "fa_active b"
    "ra_ID w = fa_id b" "(ra_key w, ra_TargetLabels w) = fa_key b" "ra_Created w = fa_created b" by blast
  have "ra_ID w = faID \<or> length (ca_Target inp) < length (ra_TargetLabels w)"
    using replaced_active [OF f(2) b(1,2)]
  proof
    assume "b \<in> set (feature_assignments d) \<and> fa_key b \<noteq> (f_Name feat, ca_Target inp)"
    then have "ra_Created w < ra_Created dep" using assms(2) b(5) dep(3) by (auto simp: list_all_iff)
    then show ?thesis using le dep(2) by (auto simp: ra_rank_def)
  qed (use b(3) in simp)
  then show ?thesis using w dep(2) by auto
qed

lemma example_Create_fetch:
  "\<exists>snap. fetchSnapshot plain_externals [] (\<lambda>_. False)
     (snd (Create example_downloader example_parser plain_encoders store_io None example_inp example_db)) = Inr snap \<and>
     example_env \<in> set (s_environments snap)"
  by (simp add: create_eval audit_Create_def fetch_eval plain_externals_def echo_externals_def example_env_def)

theorem Create_wins_witness:
  "\<exists>snap. \<exists>w \<in> set (env_winners snap example_env). ra_key w = ''loki'' \<and> (ra_ID w = 50 \<or> 1 < length (ra_TargetLabels w))"
proof -
  let ?c = "Create example_downloader example_parser plain_encoders store_io None example_inp example_db"
  have c: "?c = (Inr (50, ''loki''), snd ?c)" using example_Create_assignment by (metis prod.collapse)
  obtain snap where snap: "fetchSnapshot plain_externals [] (\<lambda>_. False) (snd ?c) = Inr snap" "example_env \<in> set (s_environments snap)"
    using example_Create_fetch by blast
  have clock: "list_all (\<lambda>a. fa_created a < io_now store_io) (feature_assignments example_db)"
    by (simp add: example_db_def empty_db_def)
  have "labelsContain (en_Labels example_env) (ca_Target example_inp)"
    by (simp add: labelsContain_def example_env_def example_inp_def)
  from Create_wins [OF c clock snap this] show ?thesis by (auto simp: example_inp_def)
qed

end
