(* ===== verification/Status.thy ===== *)
theory Status
  imports Assignment_Store Deployer
begin

text \<open>
  What the pages show: the status of an assignment in an environment, derived from the decision and the deploy log
  (\<open>internal/reconciler/status.go\<close>), its aggregation over environments (\<open>internal/model/model.go\<close>), the history of
  deploys and decisions (\<open>recentdeploys.go\<close>, \<open>decisionlog.go\<close> and \<open>internal/feature/queries.go\<close>), with their
  queries.
\<close>

section \<open>One status from two logs\<close>

datatype stateSource = sourceDecision | sourceDeploy

definition NormalizeStatus :: "string \<Rightarrow> string" where
  "NormalizeStatus s = (if s = [] then ''UNKNOWN'' else strings_ToUpper s)"

definition deriveState :: "DeployStatus \<Rightarrow> Action \<Rightarrow> string \<times> stateSource" where
  "deriveState deploy action =
     (if action = ActionSkipDisabled then (''disabled'', sourceDecision)
      else if IsInProgress deploy then (deploy, sourceDeploy)
      else if action = ActionSkipUnhealthy then (''unhealthy'', sourceDecision)
      else if action = ActionFailMissingDeps then (''missing-deps'', sourceDecision)
      else if action = ActionFailMissingConfig then (''missing-config'', sourceDecision)
      else if action = ActionFailRender then (''render-error'', sourceDecision)
      else if deploy = DeployStatusDeployed \<or> deploy = DeployStatusFailed then (deploy, sourceDeploy)
      else if action = ActionSkipInProgress \<or> action = ActionDeploy then (''pending'', sourceDecision)
      else if action = ActionSkipUnchanged then (''deployed'', sourceDecision)
      else (''unknown'', sourceDecision))"

record decisionSignal =
  ds_envID :: uuid
  ds_action :: Action
  ds_message :: string
  ds_created :: gotime

record deploySignal =
  dp_envID :: uuid
  dp_status :: string
  dp_created :: gotime

record FeatureReconcileStatus =
  rst_State :: string
  rst_Message :: string
  rst_LastModified :: gotime
  rst_DecidedAt :: gotime
  rst_Created :: gotime
  rst_FeatureAssignmentID :: uuid
  rst_EnvironmentID :: uuid

text \<open>A missing signal is the zero value.\<close>

definition no_decision :: decisionSignal where
  "no_decision = \<lparr>ds_envID = 0, ds_action = [], ds_message = [], ds_created = 0\<rparr>"

definition no_deploy :: deploySignal where
  "no_deploy = \<lparr>dp_envID = 0, dp_status = [], dp_created = 0\<rparr>"

definition reconcile_status :: "uuid \<Rightarrow> uuid \<Rightarrow> decisionSignal \<Rightarrow> deploySignal \<Rightarrow> FeatureReconcileStatus" where
  "reconcile_status faID envID dec dep =
     (let (state, src) = deriveState (dp_status dep) (ds_action dec);
          lastModified = (if src = sourceDeploy then dp_created dep else ds_created dec)
      in \<lparr>rst_State = NormalizeStatus state, rst_Message = ds_message dec, rst_LastModified = lastModified,
          rst_DecidedAt = ds_created dec, rst_Created = lastModified, rst_FeatureAssignmentID = faID, rst_EnvironmentID = envID\<rparr>)"

definition joinReconcileSignals :: "uuid \<Rightarrow> decisionSignal list \<Rightarrow> deploySignal list \<Rightarrow> FeatureReconcileStatus list" where
  "joinReconcileSignals faID decisions deploys =
     (let decByEnv = index_by ds_envID id decisions;
          depByEnv = index_by dp_envID id deploys
      in map (\<lambda>envID. reconcile_status faID envID
              (case map_of decByEnv envID of Some d \<Rightarrow> d | None \<Rightarrow> no_decision)
              (case map_of depByEnv envID of Some d \<Rightarrow> d | None \<Rightarrow> no_deploy))
           (sort (remdups (map fst decByEnv @ map fst depByEnv))))"

section \<open>Queries\<close>

definition decision_signal :: "(uuid \<times> string) \<times> DecisionCurrent \<Rightarrow> decisionSignal" where
  "decision_signal r = (case r of ((envID, f), c) \<Rightarrow>
     \<lparr>ds_envID = envID, ds_action = cc_action c, ds_message = cc_message c, ds_created = cc_created c\<rparr>)"

definition deploy_signal :: "(uuid \<times> string) \<times> DeployCurrent \<Rightarrow> deploySignal" where
  "deploy_signal r = (case r of ((envID, f), c) \<Rightarrow>
     \<lparr>dp_envID = envID, dp_status = dc_status c, dp_created = dc_created c\<rparr>)"

definition ListDecisionStatuses :: "uuid \<Rightarrow> db \<Rightarrow> ((uuid \<times> string) \<times> DecisionCurrent) list" where
  "ListDecisionStatuses faID d = sort_key (\<lambda>r. fst (fst r)) (filter (\<lambda>(k, c). cc_feature_assignment_id c = faID) (decision_current d))"

definition ListDeployStatuses :: "uuid \<Rightarrow> db \<Rightarrow> ((uuid \<times> string) \<times> DeployCurrent) list" where
  "ListDeployStatuses faID d = sort_key (\<lambda>r. fst (fst r)) (filter (\<lambda>(k, c). dc_feature_assignment_id c = faID) (deploy_current d))"

definition ListAllDecisionStatuses :: "db \<Rightarrow> ((uuid \<times> string) \<times> DecisionCurrent) list" where
  "ListAllDecisionStatuses d = sort_key (\<lambda>(k, c). (cc_feature_assignment_id c, fst k)) (decision_current d)"

definition ListAllDeployStatuses :: "db \<Rightarrow> ((uuid \<times> string) \<times> DeployCurrent) list" where
  "ListAllDeployStatuses d = sort_key (\<lambda>(k, c). (dc_feature_assignment_id c, fst k)) (deploy_current d)"

definition ReconcileStatuses :: "io \<Rightarrow> uuid \<Rightarrow> db \<Rightarrow> err + FeatureReconcileStatus list" where
  "ReconcileStatuses io faID d =
     bindE (wrapE ''list decision statuses'' (query (io_fails io) ''ListDecisionStatuses'' (ListDecisionStatuses faID d))) (\<lambda>decisions.
     bindE (wrapE ''list deploy statuses'' (query (io_fails io) ''ListDeployStatuses'' (ListDeployStatuses faID d))) (\<lambda>deploys.
     Inr (joinReconcileSignals faID (map decision_signal decisions) (map deploy_signal deploys))))"

definition AllReconcileStatuses :: "io \<Rightarrow> db \<Rightarrow> err + (uuid, FeatureReconcileStatus list) gomap" where
  "AllReconcileStatuses io d =
     bindE (wrapE ''list all decision statuses'' (query (io_fails io) ''ListAllDecisionStatuses'' (ListAllDecisionStatuses d))) (\<lambda>decisions.
     bindE (wrapE ''list all deploy statuses'' (query (io_fails io) ''ListAllDeployStatuses'' (ListAllDeployStatuses d))) (\<lambda>deploys.
     let decByFA = group_by (\<lambda>(k, c). cc_feature_assignment_id c) decision_signal decisions;
         depByFA = group_by (\<lambda>(k, c). dc_feature_assignment_id c) deploy_signal deploys;
         out = fold (\<lambda>(faID, ds) m. gm_put faID (joinReconcileSignals faID ds (gm_list depByFA faID)) m) decByFA []
     in Inr (fold (\<lambda>(faID, dp) m. if map_of m faID = None then gm_put faID (joinReconcileSignals faID [] dp) m else m) depByFA out)))"

definition FeatureStatusForEnvironment :: "externals \<Rightarrow> io \<Rightarrow> uuid \<Rightarrow> string \<Rightarrow> db \<Rightarrow> err + string \<times> string" where
  "FeatureStatusForEnvironment x io envID featureName d =
     bindE (WinningAssignment x io envID featureName d) (\<lambda>dep.
     bindE (ReconcileStatuses io (as_ID dep) d) (\<lambda>statuses.
     case find (\<lambda>s. rst_EnvironmentID s = envID) statuses of
       Some s \<Rightarrow> Inr (rst_State s, rst_Message s)
     | None \<Rightarrow> Inr ([], [])))"

definition FeatureStatusesForEnvironment :: "externals \<Rightarrow> io \<Rightarrow> uuid \<Rightarrow> db \<Rightarrow> err + (string, string \<times> string) gomap" where
  "FeatureStatusesForEnvironment x io envID d =
     bindE (ListForEnvironment x io envID d) (\<lambda>winners.
     bindE (AllReconcileStatuses io d) (\<lambda>statusesByFA.
     Inr (fold (\<lambda>w out. case find (\<lambda>s. rst_EnvironmentID s = envID) (gm_list statusesByFA (as_ID w)) of
            Some s \<Rightarrow> gm_put (as_key w) (rst_State s, rst_Message s) out
          | None \<Rightarrow> out) winners [])))"

section \<open>Aggregation over environments\<close>

definition StateUnknown :: string where "StateUnknown = ''UNKNOWN''"
definition StatePending :: string where "StatePending = ''PENDING''"
definition StateDeployed :: string where "StateDeployed = ''DEPLOYED''"
definition StateFailed :: string where "StateFailed = ''FAILED''"
definition StateDisabled :: string where "StateDisabled = ''DISABLED''"
definition StateRenderError :: string where "StateRenderError = ''RENDER-ERROR''"
definition StateMissingDeps :: string where "StateMissingDeps = ''MISSING-DEPS''"
definition StateMissingConfig :: string where "StateMissingConfig = ''MISSING-CONFIG''"

lemmas State_defs = StateUnknown_def StatePending_def StateDeployed_def StateFailed_def StateDisabled_def StateRenderError_def
  StateMissingDeps_def StateMissingConfig_def

lemma State_neq [simp]:
  "StateUnknown \<noteq> StatePending" "StateUnknown \<noteq> StateDeployed" "StateUnknown \<noteq> StateFailed" "StateUnknown \<noteq> StateDisabled" "StateUnknown \<noteq> StateRenderError"
  "StateUnknown \<noteq> StateMissingDeps" "StateUnknown \<noteq> StateMissingConfig" "StatePending \<noteq> StateUnknown" "StatePending \<noteq> StateDeployed" "StatePending \<noteq> StateFailed"
  "StatePending \<noteq> StateDisabled" "StatePending \<noteq> StateRenderError" "StatePending \<noteq> StateMissingDeps" "StatePending \<noteq> StateMissingConfig" "StateDeployed \<noteq> StateUnknown"
  "StateDeployed \<noteq> StatePending" "StateDeployed \<noteq> StateFailed" "StateDeployed \<noteq> StateDisabled" "StateDeployed \<noteq> StateRenderError" "StateDeployed \<noteq> StateMissingDeps"
  "StateDeployed \<noteq> StateMissingConfig" "StateFailed \<noteq> StateUnknown" "StateFailed \<noteq> StatePending" "StateFailed \<noteq> StateDeployed" "StateFailed \<noteq> StateDisabled"
  "StateFailed \<noteq> StateRenderError" "StateFailed \<noteq> StateMissingDeps" "StateFailed \<noteq> StateMissingConfig" "StateDisabled \<noteq> StateUnknown" "StateDisabled \<noteq> StatePending"
  "StateDisabled \<noteq> StateDeployed" "StateDisabled \<noteq> StateFailed" "StateDisabled \<noteq> StateRenderError" "StateDisabled \<noteq> StateMissingDeps" "StateDisabled \<noteq> StateMissingConfig"
  "StateRenderError \<noteq> StateUnknown" "StateRenderError \<noteq> StatePending" "StateRenderError \<noteq> StateDeployed" "StateRenderError \<noteq> StateFailed" "StateRenderError \<noteq> StateDisabled"
  "StateRenderError \<noteq> StateMissingDeps" "StateRenderError \<noteq> StateMissingConfig" "StateMissingDeps \<noteq> StateUnknown" "StateMissingDeps \<noteq> StatePending" "StateMissingDeps \<noteq> StateDeployed"
  "StateMissingDeps \<noteq> StateFailed" "StateMissingDeps \<noteq> StateDisabled" "StateMissingDeps \<noteq> StateRenderError" "StateMissingDeps \<noteq> StateMissingConfig" "StateMissingConfig \<noteq> StateUnknown"
  "StateMissingConfig \<noteq> StatePending" "StateMissingConfig \<noteq> StateDeployed" "StateMissingConfig \<noteq> StateFailed" "StateMissingConfig \<noteq> StateDisabled" "StateMissingConfig \<noteq> StateRenderError"
  "StateMissingConfig \<noteq> StateMissingDeps"
  by (simp_all add: State_defs)

definition blockedPrecedence :: "string list" where
  "blockedPrecedence = [StateRenderError, StateMissingDeps, StateMissingConfig]"

text \<open>The loop returns early at the first failed state: \<open>None\<close>.\<close>

fun aggregate_loop :: "string list \<Rightarrow> (string, bool) gomap \<Rightarrow> bool \<Rightarrow> ((string, bool) gomap \<times> bool) option" where
  "aggregate_loop [] blocked allDeployed = Some (blocked, allDeployed)"
| "aggregate_loop (s # states) blocked allDeployed =
     (if s = StateDisabled then aggregate_loop states blocked allDeployed
      else if s = StateFailed then None
      else if s = StateRenderError \<or> s = StateMissingDeps \<or> s = StateMissingConfig then aggregate_loop states (gm_put s True blocked) False
      else if s = StateDeployed then aggregate_loop states blocked allDeployed
      else aggregate_loop states blocked False)"

definition Aggregate :: "string list \<Rightarrow> string \<times> nat" where
  "Aggregate states =
     (if length states = 0 then (StateUnknown, 0)
      else let disabledCount = length (filter (\<lambda>s. s = StateDisabled) states) in
        if disabledCount = length states then (StateDisabled, disabledCount)
        else case aggregate_loop states [] True of
          None \<Rightarrow> (StateFailed, disabledCount)
        | Some (blocked, allDeployed) \<Rightarrow>
            (case find (\<lambda>s. map_of blocked s = Some True) blockedPrecedence of
               Some s \<Rightarrow> (s, disabledCount)
             | None \<Rightarrow> (if allDeployed then StateDeployed else StatePending, disabledCount)))"

section \<open>History\<close>

record RecentDeploy =
  rd_FeatureName :: string
  rd_FeatureVersion :: string
  rd_Total :: nat
  rd_Deployed :: nat
  rd_Failed :: nat
  rd_Pending :: nat
  rd_LastDeploy :: gotime
  rd_FeatureAssignmentID :: uuid

definition recentDeployScanRows :: nat where
  "recentDeployScanRows = 1000"

definition rd_key :: "DeployLog \<Rightarrow> string \<times> string" where
  "rd_key r = (dl_feature_name r, dl_feature_version r)"

definition new_group :: "DeployLog \<Rightarrow> RecentDeploy" where
  "new_group r = \<lparr>rd_FeatureName = dl_feature_name r, rd_FeatureVersion = dl_feature_version r, rd_Total = 0, rd_Deployed = 0,
     rd_Failed = 0, rd_Pending = 0, rd_LastDeploy = dl_created r, rd_FeatureAssignmentID = dl_feature_assignment_id r\<rparr>"

definition count_row :: "DeployLog \<Rightarrow> RecentDeploy \<Rightarrow> RecentDeploy" where
  "count_row r g =
     (let g = g \<lparr>rd_Total := rd_Total g + 1\<rparr>; s = NormalizeStatus (dl_status r) in
      if s = ''DEPLOYED'' then g \<lparr>rd_Deployed := rd_Deployed g + 1\<rparr>
      else if s = ''FAILED'' then g \<lparr>rd_Failed := rd_Failed g + 1\<rparr>
      else if s = ''SENT'' \<or> s = ''INSTALLING'' then g \<lparr>rd_Pending := rd_Pending g + 1\<rparr>
      else g)"

fun aggregate_rows :: "DeployLog list \<Rightarrow> uuid set \<Rightarrow> (string \<times> string, RecentDeploy) gomap \<Rightarrow> (string \<times> string) list \<Rightarrow>
    (string \<times> string, RecentDeploy) gomap \<times> (string \<times> string) list" where
  "aggregate_rows [] seenDiid byKey order = (byKey, order)"
| "aggregate_rows (r # rows) seenDiid byKey order =
     (if dl_diid r \<in> seenDiid then aggregate_rows rows seenDiid byKey order
      else case map_of byKey (rd_key r) of
        Some g \<Rightarrow> aggregate_rows rows (insert (dl_diid r) seenDiid) (gm_put (rd_key r) (count_row r g) byKey) order
      | None \<Rightarrow> aggregate_rows rows (insert (dl_diid r) seenDiid) (gm_put (rd_key r) (count_row r (new_group r)) byKey) (order @ [rd_key r]))"

text \<open>\<open>make\<close> with a negative length panics.\<close>

definition aggregateRecentDeploys :: "DeployLog list \<Rightarrow> int \<Rightarrow> err + RecentDeploy list" where
  "aggregateRecentDeploys rows groups =
     (case aggregate_rows rows {} [] [] of (byKey, order) \<Rightarrow>
        let groups = (if groups > int (length order) then int (length order) else groups) in
        if groups < 0 then Inl (Panic ''makeslice: len out of range'')
        else Inr (map (\<lambda>k. the (map_of byKey k)) (take (nat groups) order)))"

definition ListRecentDeploys :: "io \<Rightarrow> int \<Rightarrow> db \<Rightarrow> err + RecentDeploy list" where
  "ListRecentDeploys io groups d =
     bindE (wrapE ''list recent deploys'' (query (io_fails io) ''ListRecentDeploys''
       (take recentDeployScanRows (sort_key (\<lambda>r. (- dl_created r, - int (dl_id r))) (deploy_log d))))) (\<lambda>rows.
     aggregateRecentDeploys rows groups)"

definition ListDecisionLog :: "io \<Rightarrow> uuid \<Rightarrow> string \<Rightarrow> db \<Rightarrow> err + DecisionLog list" where
  "ListDecisionLog io envID featureName d = wrapE ''list decision log'' (query (io_fails io) ''ListDecisionLog''
     (take 50 (sort_key (\<lambda>r. (- cl_created r, - int (cl_id r)))
       (filter (\<lambda>r. cl_environment_id r = envID \<and> cl_feature_name r = featureName) (decision_log d)))))"

section \<open>Deploy instructions\<close>

record FeatureDeployInstruction =
  di_ID :: uuid
  di_EnvironmentID :: uuid
  di_FeatureAssignmentID :: uuid
  di_FeatureName :: string
  di_FeatureVersion :: string
  di_Status :: DeployStatus
  di_Hash :: string
  di_Created :: gotime
  di_LastModified :: gotime

definition current_instruction :: "(uuid \<times> string) \<times> DeployCurrent \<Rightarrow> FeatureDeployInstruction" where
  "current_instruction r = (case r of ((envID, f), c) \<Rightarrow>
     \<lparr>di_ID = dc_diid c, di_EnvironmentID = envID, di_FeatureAssignmentID = dc_feature_assignment_id c, di_FeatureName = f,
      di_FeatureVersion = dc_feature_version c, di_Status = dc_status c, di_Hash = dc_hash c, di_Created = dc_created c,
      di_LastModified = dc_created c\<rparr>)"

definition logged_instruction :: "DeployLog \<Rightarrow> FeatureDeployInstruction" where
  "logged_instruction r =
     \<lparr>di_ID = dl_diid r, di_EnvironmentID = dl_environment_id r, di_FeatureAssignmentID = dl_feature_assignment_id r,
      di_FeatureName = dl_feature_name r, di_FeatureVersion = dl_feature_version r, di_Status = dl_status r, di_Hash = dl_hash r,
      di_Created = dl_created r, di_LastModified = dl_created r\<rparr>"

definition GetLatestDeployInstruction :: "io \<Rightarrow> uuid \<Rightarrow> string \<Rightarrow> db \<Rightarrow> err + FeatureDeployInstruction" where
  "GetLatestDeployInstruction io envID f d =
     bindE (one io ''GetLatestDeployInstruction'' (map_of (deploy_current d) (envID, f))) (\<lambda>c. Inr (current_instruction ((envID, f), c)))"

definition LatestDeployInstructionsForEnvironment :: "io \<Rightarrow> uuid \<Rightarrow> db \<Rightarrow> err + (string, FeatureDeployInstruction) gomap" where
  "LatestDeployInstructionsForEnvironment io envID d =
     bindE (query (io_fails io) ''ListLatestDeployInstructionsForEnvironment''
       (sort_key (\<lambda>r. snd (fst r)) (filter (\<lambda>r. fst (fst r) = envID) (deploy_current d)))) (\<lambda>rows.
     Inr (index_by (\<lambda>r. snd (fst r)) current_instruction rows))"

definition LatestDeployInstructionsForFeature :: "io \<Rightarrow> string \<Rightarrow> db \<Rightarrow> err + (uuid, FeatureDeployInstruction) gomap" where
  "LatestDeployInstructionsForFeature io f d =
     bindE (query (io_fails io) ''ListLatestDeployInstructionsForFeature''
       (sort_key (\<lambda>r. fst (fst r)) (filter (\<lambda>r. snd (fst r) = f) (deploy_current d)))) (\<lambda>rows.
     Inr (index_by (\<lambda>r. fst (fst r)) current_instruction rows))"

definition LatestDeployedForEnvironment :: "io \<Rightarrow> uuid \<Rightarrow> db \<Rightarrow> err + (string, FeatureDeployInstruction) gomap" where
  "LatestDeployedForEnvironment io envID d =
     bindE (query (io_fails io) ''ListLatestDeployedForEnvironment''
       (distinct_on dl_feature_name (sort_key (\<lambda>r. (dl_feature_name r, - dl_created r))
         (filter (\<lambda>r. dl_environment_id r = envID \<and> dl_status r = ''deployed'') (deploy_log d))))) (\<lambda>rows.
     Inr (index_by dl_feature_name logged_instruction rows))"

definition LatestDeployedForFeature :: "io \<Rightarrow> string \<Rightarrow> db \<Rightarrow> err + (uuid, FeatureDeployInstruction) gomap" where
  "LatestDeployedForFeature io f d =
     bindE (query (io_fails io) ''ListLatestDeployedForFeature''
       (distinct_on dl_environment_id (sort_key (\<lambda>r. (dl_environment_id r, - dl_created r))
         (filter (\<lambda>r. dl_feature_name r = f \<and> dl_status r = ''deployed'') (deploy_log d))))) (\<lambda>rows.
     Inr (index_by dl_environment_id logged_instruction rows))"

definition ListDeployLog :: "uuid \<Rightarrow> string \<Rightarrow> db \<Rightarrow> DeployLog list" where
  "ListDeployLog envID f d = sort_key dl_created (filter (\<lambda>r. dl_feature_name r = f \<and> dl_environment_id r = envID) (deploy_log d))"

definition group_row ::
  "DeployLog \<Rightarrow> (uuid, FeatureDeployInstruction) gomap \<times> uuid list \<Rightarrow> (uuid, FeatureDeployInstruction) gomap \<times> uuid list" where
  "group_row r st = (case st of (byDiid, order) \<Rightarrow>
     (case map_of byDiid (dl_diid r) of
        Some i \<Rightarrow> (gm_put (dl_diid r) (i \<lparr>di_Status := dl_status r, di_LastModified := dl_created r\<rparr>) byDiid, order)
      | None \<Rightarrow> (gm_put (dl_diid r) (logged_instruction r) byDiid, order @ [dl_diid r])))"

definition ListRecentDeployInstructions :: "io \<Rightarrow> uuid \<Rightarrow> string \<Rightarrow> int \<Rightarrow> db \<Rightarrow> err + FeatureDeployInstruction list" where
  "ListRecentDeployInstructions io envID f limit d =
     bindE (query (io_fails io) ''ListDeployLog'' (ListDeployLog envID f d)) (\<lambda>rows.
     case fold group_row rows ([], []) of (byDiid, order) \<Rightarrow>
       let result = map (\<lambda>diid. the (map_of byDiid diid)) (rev order)
       in Inr (if limit > 0 \<and> int (length result) > limit then take (nat limit) result else result))"

section \<open>Aggregation is by precedence\<close>

text \<open>The aggregate, from the set of states alone.\<close>

definition aggregate_of :: "string set \<Rightarrow> string" where
  "aggregate_of S =
     (if S = {} then StateUnknown
      else if S = {StateDisabled} then StateDisabled
      else if StateFailed \<in> S then StateFailed
      else if StateRenderError \<in> S then StateRenderError
      else if StateMissingDeps \<in> S then StateMissingDeps
      else if StateMissingConfig \<in> S then StateMissingConfig
      else if S \<subseteq> {StateDeployed, StateDisabled} then StateDeployed
      else StatePending)"

lemma aggregate_loop_failed: "StateFailed \<in> set states \<Longrightarrow> aggregate_loop states blocked allDeployed = None"
  by (induction states blocked allDeployed rule: aggregate_loop.induct) auto

definition note_blocked :: "string \<Rightarrow> (string, bool) gomap \<Rightarrow> (string, bool) gomap" where
  "note_blocked s b = (if s = StateRenderError \<or> s = StateMissingDeps \<or> s = StateMissingConfig then gm_put s True b else b)"

lemma note_blocked_simps [simp]:
  "note_blocked StateDisabled b = b" "note_blocked StateDeployed b = b" "note_blocked StateRenderError b = gm_put StateRenderError True b"
  "note_blocked StateMissingDeps b = gm_put StateMissingDeps True b" "note_blocked StateMissingConfig b = gm_put StateMissingConfig True b"
  by (simp_all add: note_blocked_def)

lemma aggregate_loop_eq:
  "StateFailed \<notin> set states \<Longrightarrow> aggregate_loop states blocked allDeployed =
     Some (fold note_blocked states blocked, allDeployed \<and> list_all (\<lambda>s. s = StateDeployed \<or> s = StateDisabled) states)"
proof (induction states arbitrary: blocked allDeployed)
  case (Cons s states)
  then have "StateFailed \<notin> set states" "s \<noteq> StateFailed" by auto
  then show ?case using Cons.IH by (simp add: note_blocked_def)
qed simp

lemma fold_note_blocked:
  "s \<in> set blockedPrecedence \<Longrightarrow> map_of (fold note_blocked states blocked) s = Some True \<longleftrightarrow> map_of blocked s = Some True \<or> s \<in> set states"
  by (induction states arbitrary: blocked) (auto simp: note_blocked_def blockedPrecedence_def)

lemma all_disabled_iff: "length (filter (\<lambda>s. s = a) states) = length states \<longleftrightarrow> set states \<subseteq> {a}"
proof
  assume "length (filter (\<lambda>s. s = a) states) = length states"
  then show "set states \<subseteq> {a}" using length_filter_less [of _ states "\<lambda>s. s = a"] by fastforce
next
  assume "set states \<subseteq> {a}"
  then show "length (filter (\<lambda>s. s = a) states) = length states" by (induction states) auto
qed

text \<open>
  The aggregate of the states of an assignment over its environments depends only on which states occur, not on
  their order or number: no environment is unknown, all disabled is disabled, and otherwise a failure comes before a
  render error, before missing dependencies, before missing configuration; it is deployed only when every enabled
  environment is deployed, and pending in all other cases. The second result counts the disabled environments.
\<close>

theorem Aggregate_correct:
  "Aggregate states = (aggregate_of (set states), count_list states StateDisabled)"
proof -
  let ?n = "length (filter (\<lambda>s. s = StateDisabled) states)"
  have cnt: "?n = count_list states StateDisabled" by (induction states) auto
  show ?thesis
  proof (cases "states = [] \<or> ?n = length states")
    case True
    then show ?thesis
      using all_disabled_iff [of StateDisabled states] by (auto simp: Aggregate_def aggregate_of_def cnt Let_def)
  next
    case False
    then have ne: "states \<noteq> []" "set states \<noteq> {StateDisabled}" "?n \<noteq> length states"
      using all_disabled_iff [of StateDisabled states] by auto
    show ?thesis
    proof (cases "StateFailed \<in> set states")
      case True
      then show ?thesis using ne by (simp add: Aggregate_def aggregate_of_def aggregate_loop_failed cnt Let_def)
    next
      case ok: False
      define b where "b = fold note_blocked states []"
      have "list_all (\<lambda>s. s = StateDeployed \<or> s = StateDisabled) states \<longleftrightarrow> set states \<subseteq> {StateDeployed, StateDisabled}"
        by (auto simp: list_all_iff)
      then have b: "aggregate_loop states [] True = Some (b, set states \<subseteq> {StateDeployed, StateDisabled})"
        "\<And>s. s \<in> set blockedPrecedence \<Longrightarrow> map_of b s = Some True \<longleftrightarrow> s \<in> set states"
        using aggregate_loop_eq [OF ok, of "[]" True] fold_note_blocked [of _ states "[]"] by (simp_all add: b_def)
      have "find (\<lambda>s. map_of b s = Some True) blockedPrecedence = find (\<lambda>s. s \<in> set states) blockedPrecedence"
        using b(2) by (intro find_cong) auto
      then show ?thesis using ne ok b(1) by (auto simp: Aggregate_def aggregate_of_def cnt Let_def blockedPrecedence_def)
    qed
  qed
qed

section \<open>One assignment and all assignments\<close>

lemma insort_key_eq:
  "(\<And>y. y \<in> set ys \<Longrightarrow> f x \<le> f y \<longleftrightarrow> g x \<le> g y) \<Longrightarrow> insort_key f x ys = insort_key g x ys"
  by (induction ys) auto

lemma sort_key_eq:
  assumes "\<And>x y. x \<in> set xs \<Longrightarrow> y \<in> set xs \<Longrightarrow> f x \<le> f y \<longleftrightarrow> g x \<le> g y"
  shows "sort_key f xs = sort_key g xs"
  using assms
proof (induction xs)
  case (Cons x xs)
  then have "sort_key f xs = sort_key g xs" by simp
  then show ?case using insort_key_eq [of "sort_key g xs" f x g] Cons.prems by simp
qed simp

lemma filter_sort_pair:
  "filter (\<lambda>x. f x = a) (sort_key (\<lambda>x. (f x, g x)) xs) = sort_key g (filter (\<lambda>x. f x = a) xs)"
  unfolding filter_sort by (rule sort_key_eq) auto

lemma fold_put_all:
  "distinct (map fst xs) \<Longrightarrow> map_of (fold (\<lambda>(k, v) m. gm_put k (h k v) m) xs m0) k =
     (case map_of xs k of Some v \<Rightarrow> Some (h k v) | None \<Rightarrow> map_of m0 k)"
proof (induction xs arbitrary: m0)
  case (Cons e xs)
  obtain a v where e: "e = (a, v)" by (cases e)
  then have "map_of xs a = None" using Cons.prems by (simp add: map_of_eq_None_iff)
  then show ?case using Cons by (auto simp: e split: option.split)
qed simp

lemma fold_put_new:
  "distinct (map fst xs) \<Longrightarrow>
     map_of (fold (\<lambda>(k, v) m. if map_of m k = None then gm_put k (h k v) m else m) xs m0) k =
     (case map_of m0 k of Some v \<Rightarrow> Some v | None \<Rightarrow> map_option (h k) (map_of xs k))"
proof (induction xs arbitrary: m0)
  case (Cons e xs)
  obtain a v where e: "e = (a, v)" by (cases e)
  then have "map_of xs a = None" using Cons.prems by (simp add: map_of_eq_None_iff)
  then show ?case using Cons by (auto simp: e split: option.split)
qed (simp split: option.split)

lemma group_by_lookup:
  "map_of (group_by f g rows) k = (if k \<in> f ` set rows then Some (map g (filter (\<lambda>r. f r = k) rows)) else None)"
proof (cases "map_of (group_by f g rows) k")
  case None
  then show ?thesis using dom_group_by [of f g rows k] by simp
next
  case (Some l)
  then show ?thesis using dom_group_by [of f g rows k] gm_list_group_by [of f g rows k] by (auto simp: gm_list_def)
qed

lemma joinReconcileSignals_Nil: "joinReconcileSignals faID [] [] = []"
  by (simp add: joinReconcileSignals_def index_by_def)

lemma list_statuses_eq:
  "filter (\<lambda>r. (case r of (k, c) \<Rightarrow> cc_feature_assignment_id c) = faID) (ListAllDecisionStatuses d) = ListDecisionStatuses faID d"
  "filter (\<lambda>r. (case r of (k, c) \<Rightarrow> dc_feature_assignment_id c) = faID) (ListAllDeployStatuses d) = ListDeployStatuses faID d"
proof -
  have k: "(\<lambda>(k, c). (cc_feature_assignment_id c, fst k)) =
      (\<lambda>r :: (uuid \<times> string) \<times> DecisionCurrent. ((case r of (k, c) \<Rightarrow> cc_feature_assignment_id c), fst (fst r)))"
    "(\<lambda>(k, c). cc_feature_assignment_id c = faID) =
      (\<lambda>r :: (uuid \<times> string) \<times> DecisionCurrent. (case r of (k, c) \<Rightarrow> cc_feature_assignment_id c) = faID)" by auto
  show "filter (\<lambda>r. (case r of (k, c) \<Rightarrow> cc_feature_assignment_id c) = faID) (ListAllDecisionStatuses d) = ListDecisionStatuses faID d"
    unfolding ListAllDecisionStatuses_def ListDecisionStatuses_def k by (rule filter_sort_pair)
  have k: "(\<lambda>(k, c). (dc_feature_assignment_id c, fst k)) =
      (\<lambda>r :: (uuid \<times> string) \<times> DeployCurrent. ((case r of (k, c) \<Rightarrow> dc_feature_assignment_id c), fst (fst r)))"
    "(\<lambda>(k, c). dc_feature_assignment_id c = faID) =
      (\<lambda>r :: (uuid \<times> string) \<times> DeployCurrent. (case r of (k, c) \<Rightarrow> dc_feature_assignment_id c) = faID)" by auto
  show "filter (\<lambda>r. (case r of (k, c) \<Rightarrow> dc_feature_assignment_id c) = faID) (ListAllDeployStatuses d) = ListDeployStatuses faID d"
    unfolding ListAllDeployStatuses_def ListDeployStatuses_def k by (rule filter_sort_pair)
qed

lemma AllReconcileStatuses_lookup:
  assumes "AllReconcileStatuses io d = Inr m"
  shows "gm_list m faID = joinReconcileSignals faID (map decision_signal (ListDecisionStatuses faID d)) (map deploy_signal (ListDeployStatuses faID d))"
proof -
  define dec where "dec = group_by (\<lambda>(k, c). cc_feature_assignment_id c) decision_signal (ListAllDecisionStatuses d)"
  define dep where "dep = group_by (\<lambda>(k, c). dc_feature_assignment_id c) deploy_signal (ListAllDeployStatuses d)"
  have m: "m = fold (\<lambda>(faID, dp) m. if map_of m faID = None then gm_put faID (joinReconcileSignals faID [] dp) m else m) dep
      (fold (\<lambda>(faID, ds) m. gm_put faID (joinReconcileSignals faID ds (gm_list dep faID)) m) dec [])"
    using assms by (auto simp: AllReconcileStatuses_def bindE_eq_Inr Let_def dec_def dep_def)
  have ok: "distinct (map fst dec)" "distinct (map fst dep)" by (simp_all add: dec_def dep_def gm_ok_distinct)
  have "map_of m faID = (case map_of dec faID of
      Some ds \<Rightarrow> Some (joinReconcileSignals faID ds (gm_list dep faID))
    | None \<Rightarrow> map_option (joinReconcileSignals faID []) (map_of dep faID))"
    unfolding m fold_put_new [OF ok(2)] fold_put_all [OF ok(1)] by (simp split: option.split)
  moreover have "gm_list dec faID = map decision_signal (ListDecisionStatuses faID d)" "gm_list dep faID = map deploy_signal (ListDeployStatuses faID d)"
    unfolding dec_def dep_def gm_list_group_by list_statuses_eq by simp_all
  ultimately show ?thesis
    by (cases "map_of dec faID"; cases "map_of dep faID") (auto simp: gm_list_def joinReconcileSignals_Nil)
qed

lemma fold_statuses_other:
  "n \<notin> as_key ` set ws \<Longrightarrow> map_of (fold (\<lambda>w out. case st w of Some s \<Rightarrow> gm_put (as_key w) (g s) out | None \<Rightarrow> out) ws m) n = map_of m n"
  by (induction ws arbitrary: m) (auto split: option.splits)

lemma fold_statuses:
  assumes "distinct (map as_key ws)" and "w \<in> set ws"
  shows "map_of (fold (\<lambda>w out. case st w of Some s \<Rightarrow> gm_put (as_key w) (g s) out | None \<Rightarrow> out) ws []) (as_key w) = map_option g (st w)"
proof -
  have "map_of (fold (\<lambda>w out. case st w of Some s \<Rightarrow> gm_put (as_key w) (g s) out | None \<Rightarrow> out) ws m) (as_key w) = map_option g (st w)"
    if "distinct (map as_key ws)" "w \<in> set ws" "map_of m (as_key w) = None" for ws m
    using that
  proof (induction ws arbitrary: m)
    case (Cons v ws)
    show ?case
    proof (cases "v = w")
      case True
      then show ?thesis using Cons.prems by (auto simp: fold_statuses_other split: option.split)
    next
      case False
      then have "w \<in> set ws" "as_key w \<noteq> as_key v" using Cons.prems by (auto simp: image_iff)
      then show ?thesis using Cons.IH Cons.prems by (auto split: option.split)
    qed
  qed simp
  then show ?thesis using assms by simp
qed

text \<open>
  C40. The batched statuses are the single ones: what \<open>AllReconcileStatuses\<close> returns for an assignment, an absent
  entry being the empty list, is what \<open>ReconcileStatuses\<close> returns for it; and for an environment of the snapshot,
  \<open>FeatureStatusesForEnvironment\<close> has for every feature the status that \<open>FeatureStatusForEnvironment\<close> returns, an
  absent entry being the empty status.
\<close>

theorem batched_statuses_agree:
  assumes "AllReconcileStatuses io d = Inr m" and "ReconcileStatuses io faID d = Inr statuses"
    and "fetchSnapshot x aud fails d = Inr snap" and "env \<in> set (s_environments snap)"
    and "distinct (map e_ID (environments d))" and "targets_filled d"
    and "FeatureStatusesForEnvironment x io (en_ID env) d = Inr byName"
    and "FeatureStatusForEnvironment x io (en_ID env) name d = Inr status"
  shows "gm_list m faID = statuses \<and> status = (case map_of byName name of Some s \<Rightarrow> s | None \<Rightarrow> ([], []))"
proof -
  have single: "ReconcileStatuses io f d = Inr l \<Longrightarrow> l = gm_list m f" for f l
    using AllReconcileStatuses_lookup [OF assms(1), of f] by (auto simp: ReconcileStatuses_def bindE_eq_Inr)
  obtain winners where w: "ListForEnvironment x io (en_ID env) d = Inr winners" and
    bn: "byName = fold (\<lambda>w out. case find (\<lambda>s. rst_EnvironmentID s = en_ID env) (gm_list m (as_ID w)) of
            Some s \<Rightarrow> gm_put (as_key w) (rst_State s, rst_Message s) out | None \<Rightarrow> out) winners []"
    using assms(1,7) by (auto simp: FeatureStatusesForEnvironment_def bindE_eq_Inr)
  obtain a where a: "WinningAssignment x io (en_ID env) name d = Inr a"
    and st: "status = (case find (\<lambda>s. rst_EnvironmentID s = en_ID env) (gm_list m (as_ID a)) of
       Some s \<Rightarrow> (rst_State s, rst_Message s) | None \<Rightarrow> ([], []))"
    using assms(8) by (auto simp: FeatureStatusForEnvironment_def bindE_eq_Inr dest!: single split: option.splits)
  have nf: "\<not> io_fails io ''ListFeatureAssignmentsForEnvironment''" "\<not> io_fails io ''ListFeatureAssignmentsForFeatureInEnvironment''"
    using w a by (auto simp: ListForEnvironment_def WinningAssignment_def mostSpecificAssignment_def bindE_eq_Inr)
  have eq: "map ra_of_as winners = env_winners snap env"
    using ListForEnvironment_winners [OF assms(3-6) nf(1)] w by auto
  have "ra_of_as a \<in> set (map ra_of_as winners)" "as_key a = name"
    using WinningAssignment_correct [OF assms(3-6) nf(2), of name] a by (simp_all add: eq)
  then obtain b where b: "b \<in> set winners" "as_ID b = as_ID a" "as_key b = name" by (auto simp: ra_of_as_def as_key_def)
  have "map as_key winners = map ra_key (map ra_of_as winners)" by simp
  then have "distinct (map as_key winners)" unfolding eq env_winners_def by (simp only: ra.pick_distinct)
  then have "map_of byName name = map_option (\<lambda>s. (rst_State s, rst_Message s)) (find (\<lambda>s. rst_EnvironmentID s = en_ID env) (gm_list m (as_ID a)))"
    unfolding bn
    using fold_statuses [OF _ b(1), where st = "\<lambda>w. find (\<lambda>s. rst_EnvironmentID s = en_ID env) (gm_list m (as_ID w))"
        and g = "\<lambda>s. (rst_State s, rst_Message s)"]
      b(2,3) by simp
  then show ?thesis using single [OF assms(2)] st by (simp split: option.split)
qed

lemma NormalizeStatus_consts [simp]:
  "NormalizeStatus ''deployed'' = ''DEPLOYED''" "NormalizeStatus ''failed'' = ''FAILED''" "NormalizeStatus ''sent'' = ''SENT''"
  "NormalizeStatus ''installing'' = ''INSTALLING''" "NormalizeStatus ''disabled'' = ''DISABLED''"
  by code_simp+

definition status_db :: db where
  "status_db = example_db \<lparr>
     decision_current := [((1, ''loki''), \<lparr>cc_log_id = 1, cc_feature_assignment_id = 2, cc_feature_version = ''1'', cc_action = ActionSkipUnchanged,
        cc_message = ''in sync'', cc_created = 200\<rparr>)],
     deploy_current := [((1, ''loki''), \<lparr>dc_log_id = 1, dc_diid = 7, dc_feature_assignment_id = 2, dc_feature_version = ''1'',
        dc_status = DeployStatusDeployed, dc_hash = ''h'', dc_created = 150\<rparr>)]\<rparr>"

lemma status_db_fetch:
  "\<exists>snap. fetchSnapshot example_externals [] (\<lambda>_. False) status_db = Inr snap \<and> example_env \<in> set (s_environments snap)"
  by (simp add: fetch_eval status_db_def example_db_def empty_db_def example_env_def example_externals_def echo_externals_def)

lemma status_db_single:
  "FeatureStatusForEnvironment example_externals store_io 1 ''loki'' status_db = Inr (''DEPLOYED'', ''in sync'')"
  by (simp add: FeatureStatusForEnvironment_def WinningAssignment_def mostSpecificAssignment_def ReconcileStatuses_def
      ListFeatureAssignmentsForFeatureInEnvironment_def query_def status_db_def example_db_def empty_db_def labels_superset_def
      with_data_def assignment_data_def assignments_from_def featureAssignmentFromSQL_def featureFromSQL_def makeFeatureYAML_def
      example_externals_def echo_externals_def mostSpecificPerFeature_fa_def as_winner_def as_key_def ListDecisionStatuses_def
      ListDeployStatuses_def decision_signal_def deploy_signal_def joinReconcileSignals_def index_by_def reconcile_status_def
      deriveState_def Action_defs DeployStatus_defs IsInProgress_def Let_def)

theorem batched_statuses_agree_witness:
  "\<exists>byName. FeatureStatusesForEnvironment example_externals store_io 1 status_db = Inr byName \<and>
     map_of byName ''loki'' = Some (''DEPLOYED'', ''in sync'')"
proof -
  obtain snap where snap: "fetchSnapshot example_externals [] (\<lambda>_. False) status_db = Inr snap" "example_env \<in> set (s_environments snap)"
    using status_db_fetch by blast
  have id: "en_ID example_env = 1" by (simp add: example_env_def)
  have d: "distinct (map e_ID (environments status_db))" "targets_filled status_db"
    using example_targets by (simp_all add: status_db_def targets_filled_def)
  have m: "\<exists>m. AllReconcileStatuses store_io status_db = Inr m" by (simp add: AllReconcileStatuses_def query_def Let_def)
  moreover have "\<exists>l. ReconcileStatuses store_io 2 status_db = Inr l" by (simp add: ReconcileStatuses_def query_def)
  moreover have "\<exists>byName. FeatureStatusesForEnvironment example_externals store_io (en_ID example_env) status_db = Inr byName"
    using ListForEnvironment_winners [OF snap d, of store_io] m by (auto simp: FeatureStatusesForEnvironment_def)
  ultimately obtain m l byName where "AllReconcileStatuses store_io status_db = Inr m" "ReconcileStatuses store_io 2 status_db = Inr l"
    and n: "FeatureStatusesForEnvironment example_externals store_io (en_ID example_env) status_db = Inr byName" by blast
  from batched_statuses_agree [OF this(1,2) snap d this(3), of "''loki''"] status_db_single
  have "(''DEPLOYED'', ''in sync'') = (case map_of byName ''loki'' of Some s \<Rightarrow> s | None \<Rightarrow> ([], []))" by (simp add: id)
  then show ?thesis using n by (auto simp: id split: option.splits)
qed

section \<open>Grouping rows\<close>

text \<open>
  Rows grouped in a map with the order in which the groups began: \<open>start\<close> makes a group of its first row, \<open>upd\<close> adds a
  further row.
\<close>

locale ordered_groups =
  fixes key :: "'r \<Rightarrow> 'k::linorder" and start :: "'r \<Rightarrow> 'g" and upd :: "'r \<Rightarrow> 'g \<Rightarrow> 'g"
    and step :: "'r \<Rightarrow> ('k, 'g) gomap \<times> 'k list \<Rightarrow> ('k, 'g) gomap \<times> 'k list"
  assumes step_eq: "step r (m, order) = (case map_of m (key r) of
      Some g \<Rightarrow> (gm_put (key r) (upd r g) m, order) | None \<Rightarrow> (gm_put (key r) (start r) m, order @ [key r]))"
begin

definition rollup :: "'r list \<Rightarrow> 'g" where
  "rollup rs = fold upd (tl rs) (start (hd rs))"

lemma rollup_snoc: "rs \<noteq> [] \<Longrightarrow> rollup (rs @ [r]) = upd r (rollup rs)"
  by (simp add: rollup_def)

lemma fold_step:
  "fold step rows ([], []) = (m, order) \<Longrightarrow> order = map key (distinct_on key rows) \<and>
     (\<forall>k. map_of m k = (if k \<in> key ` set rows then Some (rollup (filter (\<lambda>r. key r = k) rows)) else None))"
proof (induction rows arbitrary: m order rule: rev_induct)
  case (snoc r rows)
  obtain m1 o1 where 1: "fold step rows ([], []) = (m1, o1)" by (cases "fold step rows ([], [])")
  note ih = snoc.IH [OF 1]
  have ne: "key r \<in> key ` set rows \<Longrightarrow> filter (\<lambda>r'. key r' = key r) rows \<noteq> []" by (auto simp: filter_empty_conv)
  have none: "key r \<notin> key ` set rows \<Longrightarrow> filter (\<lambda>r'. key r' = key r) rows = []" by (auto simp: filter_empty_conv image_iff)
  have "step r (m1, o1) = (m, order)" using snoc.prems 1 by simp
  then show ?case
    using ih rollup_snoc [OF ne] none by (cases "key r \<in> key ` set rows") (auto simp: step_eq distinct_on_snoc rollup_def)
qed simp

end

text \<open>The deploys of an environment and feature, grouped by instruction.\<close>

definition touch :: "DeployLog \<Rightarrow> FeatureDeployInstruction \<Rightarrow> FeatureDeployInstruction" where
  "touch r i = i \<lparr>di_Status := dl_status r, di_LastModified := dl_created r\<rparr>"

interpretation di: ordered_groups dl_diid logged_instruction touch group_row
  by unfold_locales (simp add: group_row_def touch_def split: option.split)

definition add_row ::
  "DeployLog \<Rightarrow> (string \<times> string, RecentDeploy) gomap \<times> (string \<times> string) list \<Rightarrow> (string \<times> string, RecentDeploy) gomap \<times> (string \<times> string) list" where
  "add_row r st = (case st of (byKey, order) \<Rightarrow> (case map_of byKey (rd_key r) of
      Some g \<Rightarrow> (gm_put (rd_key r) (count_row r g) byKey, order)
    | None \<Rightarrow> (gm_put (rd_key r) (count_row r (new_group r)) byKey, order @ [rd_key r])))"

interpretation rd: ordered_groups rd_key "\<lambda>r. count_row r (new_group r)" count_row add_row
  by unfold_locales (simp add: add_row_def split: option.split)

lemma aggregate_rows_fold:
  "aggregate_rows rows seen byKey order = fold add_row (distinct_on dl_diid (filter (\<lambda>r. dl_diid r \<notin> seen) rows)) (byKey, order)"
proof (induction rows seen byKey order rule: aggregate_rows.induct)
  case (2 r rows seen byKey order)
  have "filter (\<lambda>x. dl_diid x \<noteq> dl_diid r) (filter (\<lambda>x. dl_diid x \<notin> seen) rows) = filter (\<lambda>x. dl_diid x \<notin> insert (dl_diid r) seen) rows"
    by (simp add: filter_filter conj_commute)
  then show ?case using 2 by (auto simp: add_row_def split: option.split)
qed simp

lemma count_rows:
  "rd_Total (fold count_row rs g) = rd_Total g + length rs"
  "rd_Deployed (fold count_row rs g) = rd_Deployed g + length (filter (\<lambda>r. NormalizeStatus (dl_status r) = ''DEPLOYED'') rs)"
  "rd_Failed (fold count_row rs g) = rd_Failed g + length (filter (\<lambda>r. NormalizeStatus (dl_status r) = ''FAILED'') rs)"
  "rd_Pending (fold count_row rs g) = rd_Pending g + length (filter (\<lambda>r. NormalizeStatus (dl_status r) \<in> {''SENT'', ''INSTALLING''}) rs)"
  "rd_LastDeploy (fold count_row rs g) = rd_LastDeploy g" "rd_FeatureName (fold count_row rs g) = rd_FeatureName g"
  "rd_FeatureVersion (fold count_row rs g) = rd_FeatureVersion g"
  by (induction rs arbitrary: g) (simp_all add: count_row_def Let_def)

lemma new_group_sel [simp]:
  "rd_Total (new_group r) = 0" "rd_Deployed (new_group r) = 0" "rd_Failed (new_group r) = 0" "rd_Pending (new_group r) = 0"
  "rd_LastDeploy (new_group r) = dl_created r" "(rd_FeatureName (new_group r), rd_FeatureVersion (new_group r)) = rd_key r"
  by (simp_all add: new_group_def rd_key_def)

lemma rd_rollup: "rs \<noteq> [] \<Longrightarrow> rd.rollup rs = fold count_row rs (new_group (hd rs))"
  by (cases rs) (simp_all add: rd.rollup_def)

definition rd_group_ok :: "DeployLog list \<Rightarrow> RecentDeploy \<Rightarrow> bool" where
  "rd_group_ok rows g \<longleftrightarrow>
     (let rs = filter (\<lambda>r. rd_key r = (rd_FeatureName g, rd_FeatureVersion g)) (distinct_on dl_diid rows);
          with_status = (\<lambda>S. length (filter (\<lambda>r. NormalizeStatus (dl_status r) \<in> S) rs))
      in rs \<noteq> [] \<and> rd_Total g = length rs \<and> rd_Deployed g = with_status {''DEPLOYED''} \<and> rd_Failed g = with_status {''FAILED''} \<and>
         rd_Pending g = with_status {''SENT'', ''INSTALLING''} \<and> rd_LastDeploy g = dl_created (hd rs))"

lemma rollup_group_ok:
  assumes "k \<in> rd_key ` set (distinct_on dl_diid rows)"
  shows "rd_group_ok rows (rd.rollup (filter (\<lambda>r. rd_key r = k) (distinct_on dl_diid rows))) \<and>
    (rd_FeatureName (rd.rollup (filter (\<lambda>r. rd_key r = k) (distinct_on dl_diid rows))),
     rd_FeatureVersion (rd.rollup (filter (\<lambda>r. rd_key r = k) (distinct_on dl_diid rows)))) = k"
proof -
  let ?rs = "filter (\<lambda>r. rd_key r = k) (distinct_on dl_diid rows)"
  have ne: "?rs \<noteq> []" using assms by (auto simp: filter_empty_conv)
  have "hd ?rs \<in> set ?rs" using ne by (rule hd_in_set)
  then have "rd_key (hd ?rs) = k" by simp
  then have k: "(rd_FeatureName (rd.rollup ?rs), rd_FeatureVersion (rd.rollup ?rs)) = k"
    by (simp only: rd_rollup [OF ne] count_rows new_group_sel)
  show ?thesis unfolding rd_group_ok_def k Let_def using ne by (simp add: rd_rollup [OF ne] count_rows)
qed

text \<open>
  The recent deploys count every deploy instruction once, by its latest status: for a non-negative number of
  groups the result has one entry per feature version, in the order of their most recent event, at most as many as
  asked for; the total of an entry is the number of instructions of that version among the scanned rows, its
  deployed, failed and pending counts are the instructions whose latest row has such a status, and its time is that
  of the newest row. A negative number panics.
\<close>

theorem aggregateRecentDeploys_counts:
  "(if groups < 0 then aggregateRecentDeploys rows groups = Inl (Panic ''makeslice: len out of range'')
    else \<exists>gs. aggregateRecentDeploys rows groups = Inr gs \<and>
      map (\<lambda>g. (rd_FeatureName g, rd_FeatureVersion g)) gs = take (nat groups) (map rd_key (distinct_on rd_key (distinct_on dl_diid rows))) \<and>
      list_all (rd_group_ok rows) gs)"
proof -
  let ?L = "distinct_on dl_diid rows"
  obtain m order where "aggregate_rows rows {} [] [] = (m, order)" by (cases "aggregate_rows rows {} [] []")
  then have run: "fold add_row ?L ([], []) = (m, order)" "aggregate_rows rows {} [] [] = (m, order)"
    by (simp_all add: aggregate_rows_fold)
  have order: "order = map rd_key (distinct_on rd_key ?L)"
    and m: "\<And>k. map_of m k = (if k \<in> rd_key ` set ?L then Some (rd.rollup (filter (\<lambda>r. rd_key r = k) ?L)) else None)"
    using rd.fold_step [OF run(1)] by blast+
  define n where "n = nat (if groups > int (length order) then int (length order) else groups)"
  have tk: "take n order = take (nat groups) order" by (auto simp: n_def)
  have ok: "rd_group_ok rows (the (map_of m k)) \<and> (rd_FeatureName (the (map_of m k)), rd_FeatureVersion (the (map_of m k))) = k"
    if "k \<in> set order" for k
    using that rollup_group_ok [of k rows] by (auto simp: order m distinct_on_keys simp flip: image_set)
  show ?thesis
  proof (cases "groups < 0")
    case True
    then show ?thesis by (simp add: aggregateRecentDeploys_def run(2) Let_def)
  next
    case False
    then have r: "aggregateRecentDeploys rows groups = Inr (map (\<lambda>k. the (map_of m k)) (take n order))"
      by (simp add: aggregateRecentDeploys_def run(2) Let_def n_def)
    have "k \<in> set order" if "k \<in> set (take n order)" for k using that by (rule in_set_takeD)
    then have "map (\<lambda>g. (rd_FeatureName g, rd_FeatureVersion g)) (map (\<lambda>k. the (map_of m k)) (take n order)) = take n order"
      and "list_all (rd_group_ok rows) (map (\<lambda>k. the (map_of m k)) (take n order))"
      using ok by (auto simp: list_all_iff intro!: map_idI)
    then show ?thesis using False r tk by (simp add: order [symmetric])
  qed
qed

lemma di_rollup:
  "rs \<noteq> [] \<Longrightarrow> di.rollup rs = (logged_instruction (hd rs)) \<lparr>di_Status := dl_status (last rs), di_LastModified := dl_created (last rs)\<rparr>"
proof (induction rs rule: rev_induct)
  case (snoc r rs)
  have one: "di.rollup [r] = (logged_instruction r) \<lparr>di_Status := dl_status r, di_LastModified := dl_created r\<rparr>"
    by (simp add: di.rollup_def) (simp add: logged_instruction_def)
  have more: "touch r (i \<lparr>di_Status := s, di_LastModified := t\<rparr>) = i \<lparr>di_Status := dl_status r, di_LastModified := dl_created r\<rparr>" for i s t
    by (simp add: touch_def)
  show ?case using snoc.IH by (cases "rs = []") (simp_all add: one di.rollup_snoc more)
qed simp

text \<open>
  The deploy history of an environment and feature has one entry per instruction, the most recently published
  first: its version, hash and creation are those of the first row of the instruction, its status and modification
  those of the last. A positive limit cuts the list, any other limit does not.
\<close>

theorem ListRecentDeployInstructions_groups:
  assumes "ListRecentDeployInstructions io envID f limit d = Inr instrs"
  defines "rows \<equiv> ListDeployLog envID f d"
  shows "instrs = (let all = map (\<lambda>diid. let rs = filter (\<lambda>r. dl_diid r = diid) rows in
        (logged_instruction (hd rs)) \<lparr>di_Status := dl_status (last rs), di_LastModified := dl_created (last rs)\<rparr>)
      (rev (map dl_diid (distinct_on dl_diid rows)))
    in if limit > 0 then take (nat limit) all else all)"
proof -
  obtain m order where run: "fold group_row rows ([], []) = (m, order)" by (cases "fold group_row rows ([], [])")
  have order: "order = map dl_diid (distinct_on dl_diid rows)"
    and m: "\<And>k. map_of m k = (if k \<in> dl_diid ` set rows then Some (di.rollup (filter (\<lambda>r. dl_diid r = k) rows)) else None)"
    using di.fold_step [OF run] by blast+
  have entry: "the (map_of m k) = (let rs = filter (\<lambda>r. dl_diid r = k) rows in
      (logged_instruction (hd rs)) \<lparr>di_Status := dl_status (last rs), di_LastModified := dl_created (last rs)\<rparr>)"
    if "k \<in> set (rev order)" for k
  proof -
    have "k \<in> dl_diid ` set rows" using that by (auto simp: order distinct_on_keys simp flip: image_set)
    moreover from this have "filter (\<lambda>r. dl_diid r = k) rows \<noteq> []" by (auto simp: filter_empty_conv)
    ultimately show ?thesis by (simp add: m di_rollup Let_def)
  qed
  have "map (\<lambda>diid. the (map_of m diid)) (rev order) = map (\<lambda>diid. let rs = filter (\<lambda>r. dl_diid r = diid) rows in
      (logged_instruction (hd rs)) \<lparr>di_Status := dl_status (last rs), di_LastModified := dl_created (last rs)\<rparr>) (rev order)"
    by (rule map_cong [OF refl entry])
  moreover have "instrs = (let all = map (\<lambda>diid. the (map_of m diid)) (rev order) in if limit > 0 then take (nat limit) all else all)"
    using assms(1) run
    by (auto simp: ListRecentDeployInstructions_def rows_def [symmetric] bindE_eq_Inr Let_def)
  ultimately show ?thesis unfolding order by (simp only:)
qed

definition history_db :: db where
  "history_db = AppendDeploys 30 [example_deploy_row 8 ''sent''] (AppendDeploys 20 [example_deploy_row 7 ''deployed'']
     (AppendDeploys 10 [example_deploy_row 7 ''sent''] empty_db))"

theorem ListRecentDeployInstructions_groups_witness:
  "\<exists>instrs. ListRecentDeployInstructions store_io 1 ''loki'' 1 history_db = Inr instrs \<and> map di_ID instrs = [8]"
proof -
  obtain instrs where r: "ListRecentDeployInstructions store_io 1 ''loki'' 1 history_db = Inr instrs"
    by (cases "fold group_row (ListDeployLog 1 ''loki'' history_db) ([], [])")
      (simp add: ListRecentDeployInstructions_def query_def Let_def)
  from ListRecentDeployInstructions_groups [OF r] have "map di_ID instrs = [8]"
    by (simp add: ListDeployLog_def history_db_def AppendDeploys_def append_deploy_row_def insert_deploy_def empty_db_def
        example_deploy_row_def logged_instruction_def Let_def)
  with r show ?thesis by (intro exI conjI)
qed

end
