(* ===== verification/System.thy ===== *)
theory System
  imports Config_Store Receiver Status
begin

text \<open>
  The components together: what a reconcile cycle makes of the database and the messages, that a second cycle
  publishes nothing more, what an operator's switch does to the next cycle, and the whole system as a step relation
  over the cycle, the reports of the agents, the timeout, manual redeploys and the writes of the operators, with the
  invariant that every state of a deploy was preceded by the message that carries its identity.
\<close>

section \<open>What a snapshot depends on\<close>

text \<open>The tables that the operators write and the snapshot reads, apart from the deploy table.\<close>

definition same_inputs :: "db \<Rightarrow> db \<Rightarrow> bool" where
  "same_inputs d d' \<longleftrightarrow>
     tenants d' = tenants d \<and> environments d' = environments d \<and> environment_values d' = environment_values d \<and>
     feature_data d' = feature_data d \<and> feature_assignments d' = feature_assignments d \<and>
     configurations_global d' = configurations_global d \<and> configurations_environment d' = configurations_environment d \<and>
     disabled_features d' = disabled_features d \<and> health_statuses d' = health_statuses d"

lemma same_inputs_refl [simp]: "same_inputs d d"
  by (simp add: same_inputs_def)

lemma same_inputs_trans: "same_inputs d d' \<Longrightarrow> same_inputs d' d'' \<Longrightarrow> same_inputs d d''"
  by (simp add: same_inputs_def)

lemma same_inputs_AppendDeploys [simp]: "same_inputs d (AppendDeploys now rows d)"
proof (induction rows arbitrary: d)
  case (Cons r rows)
  have "same_inputs d (append_deploy_row now r d)" by (simp add: same_inputs_def append_deploy_row_def insert_deploy_def)
  then show ?case using Cons.IH same_inputs_trans by (simp add: AppendDeploys_Cons)
qed (simp add: AppendDeploys_def)

lemma same_inputs_AppendDecisions [simp]: "same_inputs d (AppendDecisions now rows d)"
proof (induction rows arbitrary: d)
  case (Cons r rows)
  have "same_inputs d (append_decision_row now r d)" by (simp add: same_inputs_def append_decision_row_def Let_def)
  then show ?case using Cons.IH same_inputs_trans by (simp add: AppendDecisions_def)
qed (simp add: AppendDecisions_def)

definition with_deploys :: "db \<Rightarrow> snapshot \<Rightarrow> snapshot" where
  "with_deploys d s = s \<lparr>
     s_latestInstr := index2_by (\<lambda>r. fst (fst r)) (\<lambda>r. snd (fst r))
       (\<lambda>r. \<lparr>li_Hash = dc_hash (snd r), li_Status = dc_status (snd r)\<rparr>) (ListLatestDeploys d),
     s_deployedFeats := index2_by fst snd (\<lambda>_. True) (ListDeployedFeatures d)\<rparr>"

lemma with_deploys_simps [simp]:
  "s_environments (with_deploys d s) = s_environments s" "s_assignments (with_deploys d s) = s_assignments s"
  "s_healthByEnv (with_deploys d s) = s_healthByEnv s" "s_disabledByEnv (with_deploys d s) = s_disabledByEnv s"
  "desired x (with_deploys d s) env a = desired x s env a"
  by (simp_all add: with_deploys_def)

lemma same_queries:
  assumes "same_inputs d d'"
  shows "ListAllTenantEnvironments d' = ListAllTenantEnvironments d" "ListHealthStatuses d' = ListHealthStatuses d"
    "ListLatestFeatureAssignments d' = ListLatestFeatureAssignments d" "ListDisabledFeatures d' = ListDisabledFeatures d"
    "buildGlobalConfigMap d' = buildGlobalConfigMap d" "buildEnvConfigMap d' = buildEnvConfigMap d"
    "ListAllEnvironmentValues d' = ListAllEnvironmentValues d"
  using assms
  by (simp_all add: same_inputs_def ListAllTenantEnvironments_def ListHealthStatuses_def ListLatestFeatureAssignments_def
      ListDisabledFeatures_def buildGlobalConfigMap_def buildEnvConfigMap_def ListAllEnvironmentValues_def
      ListAllGlobalConfigs_def ListAllEnvConfigs_def)

text \<open>Two snapshots of databases with the same inputs differ at most in the deploys.\<close>

lemma fetchSnapshot_same:
  assumes "same_inputs d d'" and "fetchSnapshot x aud fails d = Inr s" and "fetchSnapshot x aud fails' d' = Inr s'"
  shows "s' = with_deploys d' s"
  using assms(2,3) unfolding fetchSnapshot_def same_queries [OF assms(1)]
  by (auto simp: bindE_eq_Inr with_deploys_def)

lemma fetchSnapshot_again:
  assumes "same_inputs d d'" and "fetchSnapshot x aud (\<lambda>_. False) d = Inr s"
  shows "fetchSnapshot x aud (\<lambda>_. False) d' = Inr (with_deploys d' s)"
  using assms(2) unfolding fetchSnapshot_def same_queries [OF assms(1)]
  by (auto simp: bindE_eq_Inr with_deploys_def query_def)

section \<open>What a cycle does\<close>

lemma clock_ok_append_decision [simp]: "clock_ok now d \<Longrightarrow> clock_ok now (append_decision_row now r d)"
  by (simp add: clock_ok_def append_decision_row_def Let_def)

lemma clock_ok_AppendDecisions: "clock_ok now d \<Longrightarrow> clock_ok now (AppendDecisions now rows d)"
  unfolding AppendDecisions_def by (induction rows arbitrary: d) simp_all

text \<open>When every message is accepted, the current row of a feature is the message just published, or what it was.\<close>

lemma Deploy_all_accepted:
  assumes "db_ok (w_db w)" and "clock_ok (io_now io) (w_db w)" and "distinct (map decision_key ds)"
    and "Deploy x io ds w = (Inr (), w')" and "\<And>t m. io_accepts io t m"
  shows "if \<exists>res \<in> set ds. dd_Action res = ActionDeploy \<and> decision_key res = k
    then \<exists>c. map_of (deploy_current (w_db w')) k = Some c \<and> dc_status c = DeployStatusSent
    else map_of (deploy_current (w_db w')) k = map_of (deploy_current (w_db w)) k"
proof -
  obtain items where items: "to_publish x io ds = Inr items"
    and db: "w_db w' = AppendDeploys (io_now io) (map deploy_row (accepted io items)) (w_db w)"
    using Deploy_Inr [OF assms(4)] by blast
  have acc: "accepted io items = items" using assms(5) by (simp add: accepted_def)
  have "pi_res ` set items = {res \<in> set ds. dd_Action res = ActionDeploy}"
    using arg_cong [OF to_publish_items(1) [OF items], of set] by simp
  then have "(\<exists>res \<in> pi_res ` set items. decision_key res = k) \<longleftrightarrow> (\<exists>res \<in> {res \<in> set ds. dd_Action res = ActionDeploy}. decision_key res = k)"
    by simp
  then have keys: "(\<exists>item \<in> set items. decision_key (pi_res item) = k) \<longleftrightarrow> (\<exists>res \<in> set ds. dd_Action res = ActionDeploy \<and> decision_key res = k)"
    by (simp add: conj_assoc Bex_def)
  show ?thesis
  proof (cases "\<exists>item \<in> set items. decision_key (pi_res item) = k")
    case True
    then obtain item where "item \<in> set (accepted io items)" "decision_key (pi_res item) = k" using acc by auto
    then have "\<exists>c. map_of (deploy_current (w_db w')) k = Some c \<and> dc_status c = DeployStatusSent"
      using Deploy_accepted [OF assms(1-4) items] by fastforce
    then show ?thesis using True unfolding keys [symmetric] by simp
  next
    case False
    then have "k \<notin> dl_key ` set (map deploy_row (accepted io items))" using acc by auto
    then have "map_of (deploy_current (w_db w')) k = map_of (deploy_current (w_db w)) k"
      using AppendDeploys_current_other [OF assms(1,2)] db by simp
    then show ?thesis using False unfolding keys [symmetric] by simp
  qed
qed

lemma Deploy_nothing: "list_all (\<lambda>res. dd_Action res \<noteq> ActionDeploy) ds \<Longrightarrow> Deploy x io ds w = (Inr (), w)"
proof -
  assume "list_all (\<lambda>res. dd_Action res \<noteq> ActionDeploy) ds"
  then have "filter (\<lambda>res. dd_Action res = ActionDeploy) ds = []" by (auto simp: filter_empty_conv list_all_iff)
  then show ?thesis by (simp add: Deploy_def to_publish_def accepted_def)
qed

lemma dispatchDecision_deploy:
  assumes "dispatchDecision x now s (env, dep) = Inr d" and "dd_Action d = ActionDeploy"
  shows "healthy_env now s (en_ID env)" and "\<not> flag2 (s_disabledByEnv s) (en_ID env) (f_Name (ra_Feature dep))"
    and "deps_satisfied s env dep" and "desired x s env dep = Some (dd_Values d, dd_Hash d)"
    and "case latest_instr s env dep of None \<Rightarrow> True | Some i \<Rightarrow> \<not> IsInProgress (li_Status i) \<and> li_Hash i \<noteq> dd_Hash d"
proof -
  show "healthy_env now s (en_ID env)" "\<not> flag2 (s_disabledByEnv s) (en_ID env) (f_Name (ra_Feature dep))"
    using assms by (auto simp: dispatchDecision_def Action_defs split: if_splits)
  have comp: "computeAction x s env dep = Inr d" using assms by (auto simp: dispatchDecision_def Action_defs split: if_splits)
  have "\<not> Action_IsFailure (dd_Action d)" using assms(2) by (simp add: Action_IsFailure_def Action_defs)
  then show "deps_satisfied s env dep" "desired x s env dep = Some (dd_Values d, dd_Hash d)"
    "case latest_instr s env dep of None \<Rightarrow> True | Some i \<Rightarrow> \<not> IsInProgress (li_Status i) \<and> li_Hash i \<noteq> dd_Hash d"
    using computeAction_settled [OF comp] assms(2) by auto
qed

lemma dispatchDecision_deployI:
  assumes "dispatchDecision x now s (env, dep) = Inr d"
    and "healthy_env now s (en_ID env)" and "\<not> flag2 (s_disabledByEnv s) (en_ID env) (f_Name (ra_Feature dep))"
    and "deps_satisfied s env dep" and "desired x s env dep = Some (vals, hash)"
    and "case latest_instr s env dep of None \<Rightarrow> True | Some i \<Rightarrow> \<not> IsInProgress (li_Status i) \<and> li_Hash i \<noteq> hash"
  shows "dd_Action d = ActionDeploy"
  using assms(1-3,6) by (auto simp: dispatchDecision_def computeAction_renders [OF assms(4,5)] Let_def split: option.splits)

lemma healthy_env_earlier: "healthy_env now' s e \<Longrightarrow> now \<le> now' \<Longrightarrow> healthy_env now s e"
  by (auto simp: healthy_env_def split: option.splits)

lemma deps_satisfied_mono:
  assumes "deps_satisfied s' env dep" and "\<And>n. flag2 (s_deployedFeats s') (en_ID env) n \<Longrightarrow> flag2 (s_deployedFeats s) (en_ID env) n"
  shows "deps_satisfied s env dep"
  using assms by (fastforce simp: deps_satisfied_def dependency_satisfied_def)

lemma work_items_with_deploys [simp]: "work_items (with_deploys d s) = work_items s"
  by (simp add: work_items_def env_winners_def)

lemma healthy_env_with_deploys [simp]: "healthy_env now (with_deploys d s) e = healthy_env now s e"
  by (simp add: healthy_env_def)

lemma computeActions_at:
  assumes "computeActions x now s = Inr ds" and "ed \<in> set (work_items s)"
  shows "\<exists>d \<in> set ds. dispatchDecision x now s ed = Inr d"
  using assms by (auto simp: computeActions_def mapE_Inr_iff list_all2_conv_all_nth in_set_conv_nth)

text \<open>The values of a decision to deploy were marshalled for its hash, so publishing them does not fail on them.\<close>

lemma to_publish_computed:
  assumes "computeActions x now s = Inr ds"
  shows "\<exists>items. to_publish x io ds = Inr items"
proof -
  let ?dep = "filter (\<lambda>res. dd_Action res = ActionDeploy) ds"
  have "\<exists>item. publish_item x rd = Inr item" if rd: "rd \<in> set (zip ?dep (map (io_diid io) [0..<length ?dep]))" for rd
  proof -
    obtain res diid where rd': "rd = (res, diid)" by fastforce
    then have res: "res \<in> set ds" "dd_Action res = ActionDeploy" using rd set_zip_leftD by force+
    then obtain env dep where "dispatchDecision x now s (env, dep) = Inr res" using computeActions_item [OF assms] by blast
    then have "desired x s env dep = Some (dd_Values res, dd_Hash res)" using dispatchDecision_deploy(4) res(2) by blast
    then have "\<exists>v. x_marshal x (GMap (dd_Values res)) = Inr v"
      by (elim desired_SomeE) (auto simp: generateHash_def bindE_eq_Inr)
    then show ?thesis by (auto simp: rd' publish_item_def wrapE_def)
  qed
  then show ?thesis unfolding to_publish_def Let_def mapE_Inr_all by blast
qed

text \<open>What a cycle does to the world when no query fails, in the terms of its two writes.\<close>

lemma writeResultLogs_sent: "writeResultLogs io ds w = (r, w') \<Longrightarrow> w_sent w' = w_sent w"
  by (auto simp: writeResultLogs_def Let_def split: if_splits)

lemma run_cycle_InrD:
  assumes "run_cycle x aud io (NewPubSubDeployer x io) w = Inr w'" and "ComputeDesiredState x aud io (w_db w) = Inr ds"
    and "\<And>q. \<not> io_fails io q"
  shows "\<exists>s rows w1. fetchSnapshot x aud (io_fails io) (w_db w) = Inr s \<and> computeActions x (io_now io) s = Inr ds \<and>
    w_sent w1 = w_sent w \<and> w_db w1 = AppendDecisions (io_now io) rows (w_db w) \<and> Deploy x io ds w1 = (Inr (), w')"
proof -
  obtain s where s: "fetchSnapshot x aud (io_fails io) (w_db w) = Inr s" and ds: "computeActions x (io_now io) s = Inr ds"
    using assms(2) by (auto simp: ComputeDesiredState_def bindE_eq_Inr)
  obtain r w1 where r: "writeResultLogs io ds w = (r, w1)" by fastforce
  then have ok: "r = Inr ()" using assms(3) by (auto simp: writeResultLogs_def Let_def split: if_splits)
  have w': "w' = snd (Deploy x io ds w1)" using assms(1,2) r ok by (simp add: run_cycle_def NewPubSubDeployer_def)
  obtain items where "to_publish x io ds = Inr items" using to_publish_computed [OF ds] by blast
  then have "fst (Deploy x io ds w1) = Inr ()" using assms(3) by (simp add: Deploy_def Let_def)
  then have "Deploy x io ds w1 = (Inr (), w')" using w' by (metis prod.collapse)
  then show ?thesis using s ds writeResultLogs_Inr [of io ds w w1] r ok by blast
qed

text \<open>
  Two cycles that render every feature of a snapshot alike: no template that is used shows the clock or a random string, and
  computed keys do not nest unless Go's map order is the same.
\<close>

definition steady_for :: "externals \<Rightarrow> externals \<Rightarrow> snapshot \<Rightarrow> bool" where
  "steady_for x x' s \<longleftrightarrow> same_libraries x x' \<and>
     (\<forall>(env, dep) \<in> set (work_items s). steady x x' (en_Kind env) (ra_Feature dep))"

lemma steady_for_desired:
  "steady_for x x' s \<Longrightarrow> (env, dep) \<in> set (work_items s) \<Longrightarrow> desired x' s env dep = desired x s env dep"
  by (auto simp: steady_for_def intro!: desired_steady)

text \<open>A decision to deploy in the cycle that follows is impossible.\<close>

lemma no_second_deploy:
  assumes ok: "db_ok d" and clock: "clock_ok now d"
    and s: "fetchSnapshot x aud fails d = Inr s" and ds: "computeActions x now s = Inr ds"
    and s2: "fetchSnapshot x2 aud fails' d' = Inr s'" and ds': "computeActions x2 now' s' = Inr ds'" and later: "now \<le> now'"
    and steady: "steady_for x x2 s" and same: "same_inputs d d'" and ok': "db_ok d'"
    and cur: "\<And>k. if \<exists>res \<in> set ds. dd_Action res = ActionDeploy \<and> decision_key res = k
      then \<exists>c. map_of (deploy_current d') k = Some c \<and> dc_status c = DeployStatusSent
      else map_of (deploy_current d') k = map_of (deploy_current d) k"
  shows "list_all (\<lambda>res. dd_Action res \<noteq> ActionDeploy) ds'"
proof (rule ccontr)
  assume "\<not> ?thesis"
  then obtain res where res: "res \<in> set ds'" "dd_Action res = ActionDeploy" by (auto simp: list_all_iff)
  have s': "fetchSnapshot x aud fails' d' = Inr s'" using s2 fetchSnapshot_libraries [of x x2] steady by (simp add: steady_for_def)
  have with': "s' = with_deploys d' s" using fetchSnapshot_same [OF same s s'] .
  obtain env dep where item: "(env, dep) \<in> set (work_items s)" and disp: "dispatchDecision x2 now' s' (env, dep) = Inr res"
    using computeActions_item [OF ds' res(1)] with' by auto
  note desired = steady_for_desired [OF steady item]
  note deploys = dispatchDecision_deploy [OF disp res(2)]
  obtain res1 where res1: "res1 \<in> set ds" "dispatchDecision x now s (env, dep) = Inr res1"
    using computeActions_at [OF ds item] by blast
  define k where "k = (en_ID env, f_Name (ra_Feature dep))"
  have key: "decision_key res1 = k" using dispatchDecision_for [OF res1(2)] by (simp add: decision_key_def decision_for_def k_def)
  have instr: "latest_instr s' env dep = map_option (\<lambda>c. \<lparr>li_Hash = dc_hash c, li_Status = dc_status c\<rparr>) (map_of (deploy_current d') k)"
    "latest_instr s env dep = map_option (\<lambda>c. \<lparr>li_Hash = dc_hash c, li_Status = dc_status c\<rparr>) (map_of (deploy_current d) k)"
    using snapshot_latestInstr [OF s' ok'] snapshot_latestInstr [OF s ok] by (simp_all add: latest_instr_def k_def)
  have kept: "map_of (deploy_current d') k = map_of (deploy_current d) k"
    and none: "\<not> (\<exists>res \<in> set ds. dd_Action res = ActionDeploy \<and> decision_key res = k)"
    using cur [of k] deploys(5) unfolding instr(1) by (auto simp: IsInProgress_def split: if_splits)
  have "flag2 (s_deployedFeats s) (en_ID env) n" if f: "flag2 (s_deployedFeats s') (en_ID env) n" for n
    using f cur [of "(en_ID env, n)"] unfolding snapshot_deployed [OF s' ok'] snapshot_deployed [OF s ok]
    by (auto simp: DeployStatusDeployed_def DeployStatusSent_def split: if_splits)
  then have deps: "deps_satisfied s env dep" using deps_satisfied_mono [OF deploys(3)] by blast
  have "latest_instr s' env dep = latest_instr s env dep" unfolding instr kept ..
  then have "dd_Action res1 = ActionDeploy"
    using deploys later healthy_env_earlier
    by (intro dispatchDecision_deployI [OF res1(2) _ _ deps]) (simp_all add: with' desired)
  then show False using none res1(1) key by blast
qed

text \<open>
  C4. A cycle settles: after a cycle that ran without a failing query and whose messages were all accepted, the next cycle, at any later
  time and before any report of an agent or change of an operator, publishes nothing more, if the two cycles are steady about the
  features that are assigned: the template functions that read the clock or draw random strings do not show in their values, and
  their computed keys do not nest (or Go's map order happened to be the same).
\<close>

theorem second_cycle_publishes_nothing:
  assumes "db_ok (w_db w)" and "clock_ok (io_now io) (w_db w)"
    and "\<And>q. \<not> io_fails io q" and "\<And>t m. io_accepts io t m"
    and "ComputeDesiredState x aud io (w_db w) = Inr ds"
    and "run_cycle x aud io (NewPubSubDeployer x io) w = Inr w1"
    and "run_cycle x2 aud io2 (NewPubSubDeployer x2 io2) w1 = Inr w2" and "io_now io \<le> io_now io2"
    and "fetchSnapshot x aud (io_fails io) (w_db w) = Inr snap" and "steady_for x x2 snap"
  shows "w_sent w2 = w_sent w1"
proof (cases "ComputeDesiredState x2 aud io2 (w_db w1)")
  case (Inl e)
  then show ?thesis using assms(7) by (simp add: run_cycle_def split: if_splits)
next
  case (Inr ds')
  obtain s rows v where s: "fetchSnapshot x aud (io_fails io) (w_db w) = Inr s" and ds: "computeActions x (io_now io) s = Inr ds"
    and db: "w_db v = AppendDecisions (io_now io) rows (w_db w)" and dep: "Deploy x io ds v = (Inr (), w1)"
    using run_cycle_InrD [OF assms(6,5,3)] by metis
  have steady: "steady_for x x2 s" using s assms(9,10) by simp
  have v: "db_ok (w_db v)" "clock_ok (io_now io) (w_db v)" "deploy_current (w_db v) = deploy_current (w_db w)"
    using assms(1,2) by (simp_all add: db db_ok_AppendDecisions clock_ok_AppendDecisions)
  have "distinct (map decision_key ds)"
    using computeActions_keys [OF ds] distinct_item_keys [OF snapshot_env_ids [OF s assms(1)]] by simp
  note cur = Deploy_all_accepted [OF v(1,2) this dep assms(4), unfolded v(3)]
  obtain rows' where w1: "w_db w1 = AppendDeploys (io_now io) rows' (w_db v)" using Deploy_Inr [OF dep] by blast
  have "same_inputs (w_db v) (w_db w1)" "db_ok (w_db w1)" using v(1) by (simp_all add: w1 db_ok_AppendDeploys)
  then have same: "same_inputs (w_db w) (w_db w1)" "db_ok (w_db w1)" using same_inputs_trans [of "w_db w" "w_db v"] by (simp_all add: db)
  obtain s' where s': "fetchSnapshot x2 aud (io_fails io2) (w_db w1) = Inr s'" and ds': "computeActions x2 (io_now io2) s' = Inr ds'"
    using Inr by (auto simp: ComputeDesiredState_def bindE_eq_Inr)
  have "list_all (\<lambda>res. dd_Action res \<noteq> ActionDeploy) ds'"
    by (rule no_second_deploy [OF assms(1,2) s ds s' ds' assms(8) steady same cur])
  then have "\<And>u. Deploy x2 io2 ds' u = (Inr (), u)" by (rule Deploy_nothing)
  then show ?thesis
    using assms(7) Inr writeResultLogs_sent [of io2 ds' w1]
    by (fastforce simp: run_cycle_def NewPubSubDeployer_def split: prod.splits sum.splits)
qed

lemma example_ComputeDesiredState:
  "ComputeDesiredState example_externals [] example_io (w_db example_world) = Inr [example_decision]"
proof -
  have "computeAction example_externals example_snapshot example_env example_assignment = Inr example_decision"
    by (simp add: computeAction_renders [OF example_deps desired_example_externals] example_latest example_decision_def)
  moreover have "healthy_env 1000 example_snapshot (en_ID example_env)"
    by (simp add: healthy_env_def example_snapshot_def example_env_def)
  moreover have "\<not> flag2 (s_disabledByEnv example_snapshot) a b" for a b
    by (simp add: flag2_def gm_get2_def example_snapshot_def)
  moreover have "io_fails example_io = (\<lambda>_. False)" by (simp add: example_io_def)
  ultimately show ?thesis
    by (simp add: ComputeDesiredState_def example_world_def example_fetch computeActions_def example_work_items dispatchDecision_def)
qed

lemma run_cycle_total:
  assumes "ComputeDesiredState x aud io (w_db w) = Inr ds"
  shows "\<exists>w'. run_cycle x aud io deployer w = Inr w'"
  using assms by (auto simp: run_cycle_def split: prod.splits sum.splits)

text \<open>Another cycle of the example: Go ranges over its maps in another order, and a template that is not used gives another time.\<close>

definition later_externals :: externals where
  "later_externals = example_externals \<lparr>x_rank := by_length_down,
     x_render := \<lambda>k cv tpl. if tpl = ''{{ now }}'' then Inr ''12:01'' else x_render example_externals k cv tpl\<rparr>"

lemma example_steady: "steady_for example_externals later_externals example_snapshot"
proof -
  have "gval_ok v" if "x_yaml example_externals s = Inr v" for s v
    using that by (auto simp: example_externals_def echo_externals_def)
  then have "steady example_externals later_externals (en_Kind example_env) example_feature"
    by (auto simp: steady_def later_externals_def example_feature_def computed_value_def required_value_def is_computed_def
        computed_disjoint_def)
  then show ?thesis
    by (simp add: steady_for_def example_work_items same_libraries_def example_assignment_def) (simp add: later_externals_def)
qed

lemma example_second_cycle:
  assumes "same_inputs example_db d"
  shows "\<exists>ds. ComputeDesiredState later_externals [] example_io d = Inr ds"
proof -
  let ?s = "with_deploys d example_snapshot"
  have q: "io_fails example_io = (\<lambda>_. False)" by (simp add: example_io_def)
  have deps: "deps_satisfied ?s example_env example_assignment"
    by (simp add: deps_satisfied_def example_assignment_def example_feature_def)
  have des: "desired later_externals ?s example_env example_assignment = Some (example_values, ''1oci://charts/loki'')"
    using steady_for_desired [OF example_steady, of example_env example_assignment] by (simp add: example_work_items)
  have "\<exists>r. dispatchDecision later_externals (io_now example_io) ?s (example_env, example_assignment) = Inr r"
    by (simp add: dispatchDecision_def computeAction_renders [OF deps des] Let_def split: option.split)
  moreover have "fetchSnapshot later_externals [] (\<lambda>_. False) d = Inr ?s"
    using fetchSnapshot_again [OF assms example_fetch] fetchSnapshot_libraries [of example_externals later_externals] example_steady
    by (simp add: steady_for_def)
  ultimately show ?thesis by (auto simp: ComputeDesiredState_def q computeActions_def example_work_items)
qed

lemma example_first_cycle:
  "\<exists>w1. run_cycle example_externals [] example_io (NewPubSubDeployer example_externals example_io) example_world = Inr w1 \<and>
     w_sent w1 \<noteq> [] \<and> same_inputs example_db (w_db w1)"
proof -
  obtain w1 where w1: "run_cycle example_externals [] example_io (NewPubSubDeployer example_externals example_io) example_world = Inr w1"
    using run_cycle_total [OF example_ComputeDesiredState] by blast
  obtain rows v where v: "w_sent v = w_sent example_world" "w_db v = AppendDecisions 1000 rows example_db"
    and dep: "Deploy example_externals example_io [example_decision] v = (Inr (), w1)"
    using run_cycle_InrD [OF w1 example_ComputeDesiredState] by (auto simp: example_world_def)
  have sent: "w_sent w1 \<noteq> []" and db: "\<exists>rows. w_db w1 = AppendDeploys 1000 rows (w_db v)"
    using Deploy_Inr [OF dep] by (auto simp: example_to_publish accepted_def)
  then have "same_inputs example_db (w_db w1)" using v(2) same_inputs_trans same_inputs_AppendDeploys same_inputs_AppendDecisions by metis
  then show ?thesis using w1 sent by blast
qed

theorem second_cycle_publishes_nothing_witness:
  "\<exists>w1 w2. run_cycle example_externals [] example_io (NewPubSubDeployer example_externals example_io) example_world = Inr w1 \<and>
     w_sent w1 \<noteq> [] \<and>
     run_cycle later_externals [] example_io (NewPubSubDeployer later_externals example_io) w1 = Inr w2 \<and> w_sent w2 = w_sent w1"
proof -
  obtain w1 where w1: "run_cycle example_externals [] example_io (NewPubSubDeployer example_externals example_io) example_world = Inr w1"
    and sent: "w_sent w1 \<noteq> []" and "same_inputs example_db (w_db w1)"
    using example_first_cycle by blast
  then obtain w2 where w2: "run_cycle later_externals [] example_io (NewPubSubDeployer later_externals example_io) w1 = Inr w2"
    using example_second_cycle run_cycle_total by meson
  have "fetchSnapshot example_externals [] (io_fails example_io) (w_db example_world) = Inr example_snapshot"
    using example_fetch by (simp add: example_world_def example_io_def)
  then have "w_sent w2 = w_sent w1"
    using second_cycle_publishes_nothing [OF example_world_ok example_clock _ _ example_ComputeDesiredState w1 w2 _ _ example_steady] by simp
  then show ?thesis using w1 w2 sent by blast
qed

section \<open>What the writes of the operators keep\<close>

text \<open>
  A relation between the tables before and after that holds for no change and composes is kept by an operation that is put
  together, with the combinators of transactions, from statements that keep it.
\<close>

named_theorems keeps_rules "operations that keep a relation"

locale db_preorder =
  fixes R :: "db \<Rightarrow> db \<Rightarrow> bool"
  assumes R_refl: "R d d" and R_trans: "R d d' \<Longrightarrow> R d' d'' \<Longrightarrow> R d d''"
begin

definition keeps :: "'a op \<Rightarrow> bool" where
  "keeps m \<longleftrightarrow> (\<forall>d. R d (snd (m d)))"

lemma keepsI [intro]: "(\<And>d. R d (snd (m d))) \<Longrightarrow> keeps m"
  by (simp add: keeps_def)

lemma keepsD: "keeps m \<Longrightarrow> R d (snd (m d))"
  by (simp add: keeps_def)

lemma keeps_bindT [keeps_rules]: "keeps m \<Longrightarrow> (\<And>a. keeps (f a)) \<Longrightarrow> keeps (bindT m f)"
proof
  fix d assume m: "keeps m" and f: "\<And>a. keeps (f a)"
  obtain r d1 where r: "m d = (r, d1)" by fastforce
  then have "R d d1" using keepsD [OF m, of d] by simp
  then show "R d (snd (bindT m f d))"
    using keepsD [OF f] R_trans by (cases r) (auto simp: bindT_def r)
qed

lemma keeps_wrapT [keeps_rules]: "keeps m \<Longrightarrow> keeps (wrapT msg m)"
  by (simp add: keeps_def wrapT_def)

lemma keeps_execT [keeps_rules]: "(\<And>d. R d (f d)) \<Longrightarrow> keeps (execT io name f)"
  by (simp add: keeps_def execT_def R_refl)

lemma keeps_const [keeps_rules]:
  "keeps (returnT a)" "keeps (liftT r)" "keeps (\<lambda>d. liftT (q d) d)" "keeps (\<lambda>d. (Inl e, d))"
  by (simp_all add: keeps_def returnT_def liftT_def R_refl)

lemma keeps_WithTx [keeps_rules]: "keeps m \<Longrightarrow> keeps (WithTx io m)"
proof
  fix d assume m: "keeps m"
  obtain r d1 where r: "m d = (r, d1)" by fastforce
  then show "R d (snd (WithTx io m d))"
    using keepsD [OF m, of d] R_refl by (cases r) (auto simp: WithTx_def)
qed

lemma keeps_at_pool_tx:
  assumes "R d (snd (m d))" and "\<And>a. keeps (f a)"
  shows "R d (snd (pool_tx io m f d))"
proof -
  obtain r d1 where m: "m d = (r, d1)" by fastforce
  then have "R d d1" using assms(1) by simp
  moreover have "R d (snd (f a d1))" for a using calculation keepsD [OF assms(2)] R_trans by blast
  then have "R d d2" if "f a d1 = (r2, d2)" for a r2 d2 using that by (metis snd_conv)
  ultimately show ?thesis using R_refl by (cases r) (auto simp: pool_tx_def m split: prod.splits sum.splits)
qed

lemma keeps_pool_tx [keeps_rules]: "keeps m \<Longrightarrow> (\<And>a. keeps (f a)) \<Longrightarrow> keeps (pool_tx io m f)"
  by (intro keepsI keeps_at_pool_tx) (simp_all add: keepsD)

lemma keeps_if [keeps_rules]: "keeps m \<Longrightarrow> keeps m' \<Longrightarrow> keeps (if b then m else m')"
  by simp

lemma keeps_option [keeps_rules]: "keeps m \<Longrightarrow> (\<And>a. keeps (f a)) \<Longrightarrow> keeps (case x of None \<Rightarrow> m | Some a \<Rightarrow> f a)"
  by (simp split: option.split)

lemma keeps_ignored: "keeps m \<Longrightarrow> keeps (\<lambda>d. (r, snd (m d)))"
  by (simp add: keeps_def)

end

text \<open>The writes of the operators leave the two logs as they are and the tables well formed.\<close>

definition core_step :: "db \<Rightarrow> db \<Rightarrow> bool" where
  "core_step d d' \<longleftrightarrow> deploy_log d' = deploy_log d \<and> decision_log d' = decision_log d \<and> (db_ok d \<longrightarrow> db_ok d')"

lemma core_step_refl [simp]: "core_step d d"
  by (simp add: core_step_def)

interpretation core: db_preorder core_step
  by unfold_locales (auto simp: core_step_def)

abbreviation keeps_core :: "'a op \<Rightarrow> bool" where
  "keeps_core \<equiv> core.keeps"

text \<open>The tables that no part of the core mentions.\<close>

lemma core_step_outside [simp]:
  "core_step d (d \<lparr>audits := a\<rparr>)" "core_step d (d \<lparr>logs := l\<rparr>)" "core_step d (d \<lparr>feature_data := fd\<rparr>)"
  "core_step d (d \<lparr>feature_assignments := fa\<rparr>)" "core_step d (d \<lparr>configurations_global := g\<rparr>)"
  "core_step d (d \<lparr>configurations_environment := c\<rparr>)" "core_step d (d \<lparr>environment_values := ev\<rparr>)"
  by (simp_all add: core_step_def db_ok_def)

lemma core_step_tables [simp]:
  "core_step d (d \<lparr>disabled_features := gm_put k v (disabled_features d)\<rparr>)"
  "core_step d (d \<lparr>disabled_features := gm_del k (disabled_features d)\<rparr>)"
  "core_step d (d \<lparr>health_statuses := gm_put e t (health_statuses d)\<rparr>)"
  "core_step d (d \<lparr>release_statuses := gm_put k' r (release_statuses d)\<rparr>)"
  "core_step d (d \<lparr>release_statuses := filter P (release_statuses d)\<rparr>)"
  by (simp_all add: core_step_def db_ok_def gm_ok_filter)

lemma core_step_environments:
  "map e_ID es = map e_ID (environments d) \<Longrightarrow> core_step d (d \<lparr>environments := es\<rparr>)"
  by (simp add: core_step_def db_ok_def)

lemma keeps_audit [keeps_rules]: "keeps_core (audit_Create io email p)"
  unfolding audit_Create_def by (rule core.keeps_execT) simp

lemma keeps_DisableFeature: "keeps_core (DisableFeature io email e f reason)"
proof -
  have "core_step d (insert_disabled now e f d)" for now d by (simp add: insert_disabled_def split: option.split)
  then have "keeps_core (SetDisabledFeature io e f)" by (intro core.keepsI) (simp add: SetDisabledFeature_def execT_def)
  then have "keeps_core (WithTx io (bindT (SetDisabledFeature io e f) (\<lambda>u. audit_Create io email p)))" for p
    by (intro keeps_rules)
  then show ?thesis by (simp add: DisableFeature_def Let_def keeps_rules)
qed

lemma keeps_EnableFeature: "keeps_core (EnableFeature io email e f)"
  unfolding EnableFeature_def by (intro keeps_rules) simp

lemma keeps_UpsertGlobalConfig [keeps_rules]: "keeps_core (UpsertGlobalConfig io c)"
  by (rule core.keepsI) (simp add: UpsertGlobalConfig_def Let_def split: option.split)

lemma keeps_UpsertEnvConfig [keeps_rules]: "keeps_core (UpsertEnvConfig io e c)"
  by (rule core.keepsI) (simp add: UpsertEnvConfig_def Let_def split: option.split)

lemma keeps_UpdateGlobalConfig [keeps_rules]: "keeps_core (UpdateGlobalConfig io cid c)"
  by (rule core.keepsI) (simp add: UpdateGlobalConfig_def Let_def split: option.split)

lemma keeps_UpdateEnvConfig_sql [keeps_rules]: "keeps_core (UpdateEnvConfig_sql io cid c)"
  by (rule core.keepsI) (simp add: UpdateEnvConfig_sql_def Let_def split: option.split)

lemma keeps_CreateGlobalConfig: "keeps_core (CreateGlobalConfig x io email c)"
proof
  fix d
  have "keeps_core (bindT (UpsertGlobalConfig io c') (\<lambda>config. bindT (writeConfigUpsertAudit io email b (i config)) (\<lambda>u. returnT (g config))))" for c' b i g
    unfolding writeConfigUpsertAudit_def by (intro keeps_rules)
  note upsert = core.keepsD [OF this]
  show "core_step d (snd (CreateGlobalConfig x io email c d))"
    unfolding CreateGlobalConfig_def Let_def by (simp add: upsert split: sum.split option.split)
qed

lemma keeps_CreateEnvConfig: "keeps_core (CreateEnvConfig x io email c)"
proof
  fix d
  have "keeps_core (bindT (UpsertEnvConfig io e c') (\<lambda>config. bindT (writeConfigUpsertAudit io email b (i config)) (\<lambda>u. returnT (g config))))" for e c' b i g
    unfolding writeConfigUpsertAudit_def by (intro keeps_rules)
  note upsert = core.keepsD [OF this]
  show "core_step d (snd (CreateEnvConfig x io email c d))"
    unfolding CreateEnvConfig_def Let_def by (simp add: upsert split: sum.split option.split)
qed

lemma keeps_UpdateConfig: "keeps_core (UpdateConfig io email cid c)"
  unfolding UpdateConfig_def by (intro keeps_rules)

lemma keeps_UpdateEnvConfig: "keeps_core (UpdateEnvConfig io email cid c)"
  unfolding UpdateEnvConfig_def by (intro keeps_rules)

lemma keeps_DeleteConfig: "keeps_core (DeleteConfig io email cid)"
  unfolding DeleteConfig_def by (intro keeps_rules) simp

lemma keeps_DeleteEnvConfig: "keeps_core (DeleteEnvConfig io email cid)"
  unfolding DeleteEnvConfig_def by (intro keeps_rules) simp

lemma keeps_SetLabels: "keeps_core (SetLabels io email e l)"
proof
  fix d
  have "keeps_core (bindT (execT io q (SetEnvironmentLabels now e lbls)) (\<lambda>u. audit_Create io email p))" for q now lbls p
    unfolding SetEnvironmentLabels_def by (intro keeps_rules core_step_environments) simp
  then show "core_step d (snd (SetLabels io email e l d))" unfolding SetLabels_def Let_def by (rule core.keepsD)
qed

lemma keeps_SetEnvironmentValue_sql [keeps_rules]: "keeps_core (SetEnvironmentValue_sql io v)"
  by (rule core.keepsI) (simp add: SetEnvironmentValue_sql_def split: option.split)

lemma keeps_SetEnvironmentValue: "keeps_core (SetEnvironmentValue io email e k v s)"
  unfolding SetEnvironmentValue_def by (intro keeps_rules)

lemma keeps_DeleteEnvironmentValue: "keeps_core (DeleteEnvironmentValue io email e k)"
  unfolding DeleteEnvironmentValue_def by (intro keeps_rules) simp

lemma core_step_deactivate [simp]: "core_step d (deactivate_where P d)"
  by (simp add: deactivate_where_def)

lemma keeps_CreateFeatureAssignment_sql [keeps_rules]: "keeps_core (CreateFeatureAssignment_sql io n v t r ds)"
  by (rule core.keepsI) (simp add: CreateFeatureAssignment_sql_def Let_def)

lemma keeps_CreateFeatureData: "keeps_core (CreateFeatureData j io feat details)"
  by (rule core.keepsI) (simp add: CreateFeatureData_def CreateFeatureData_sql_def split: sum.split option.split)

lemma keeps_replace_assignment [keeps_rules]: "keeps_core (replace_assignment io feat ds r t)"
  unfolding replace_assignment_def DeactivateActiveFeatureAssignmentForTarget_def by (intro keeps_rules) simp

lemma keeps_createFeatureAssignment [keeps_rules]: "keeps_core (createFeatureAssignment parser j io feat ds r t)"
proof
  fix d
  define res where "res x = fst (CreateFeatureData j io feat x d)" for x
  define d1 where "d1 x = snd (CreateFeatureData j io feat x d)" for x
  have c: "CreateFeatureData j io feat x d = (res x, d1 x)" for x by (simp add: res_def d1_def)
  then have first: "core_step d (d1 x)" for x using core.keepsD [OF keeps_CreateFeatureData, of d j io feat x] by simp
  have "keeps_core (bindT (liftT (encode_ref j r)) (\<lambda>ghRef. bindT (replace_assignment io feat ds ghRef t) (\<lambda>a. returnT (fa_id a))))"
    by (intro keeps_rules)
  then have "core_step d (snd (bindT (liftT (encode_ref j r)) (\<lambda>ghRef. bindT (replace_assignment io feat ds ghRef t) (\<lambda>a. returnT (fa_id a))) (d1 x)))" for x
    using first core.R_trans core.keepsD by blast
  then show "core_step d (snd (createFeatureAssignment parser j io feat ds r t d))"
    using first by (simp add: createFeatureAssignment_def c split: sum.split err.split)
qed

lemma keeps_Create: "keeps_core (Create dl parser j io email inp)"
proof
  fix d
  have "keeps_core (bindT (createFeatureAssignment parser j io feat ds r t) (\<lambda>i d'. (Inr (i, n), snd (audit_Create io email (p i) d'))))" for feat ds r t n p
    by (intro keeps_rules core.keeps_ignored)
  note create = core.keepsD [OF this]
  show "core_step d (snd (Create dl parser j io email inp d))"
  proof (cases "dl (ca_Chart inp) (ca_Version inp)")
    case (Inr feat)
    then show ?thesis by (simp only: Create_def sum.case split: if_split) (intro conjI impI create, simp)
  qed (simp add: Create_def)
qed

lemma keeps_deactivated [keeps_rules]: "keeps_core (deactivated io email i o' f)"
  unfolding deactivated_def DeactivateFeatureAssignment_def by (intro keeps_rules) simp

lemma keeps_Deactivate: "keeps_core (Deactivate io email i)"
proof -
  have "core_step d (snd (deactivated io email i o' f d))" for d o' f by (rule core.keepsD [OF keeps_deactivated])
  then show ?thesis unfolding Deactivate_def by (intro keeps_rules core.keepsI) (simp split: sum.split)
qed

lemma keeps_DeactivateByFeatureAndTarget: "keeps_core (DeactivateByFeatureAndTarget io email f t)"
  unfolding DeactivateByFeatureAndTarget_def DeactivateFeatureAssignmentsByFeatureAndTarget_def by (intro keeps_rules) simp

lemmas operator_keeps = keeps_DisableFeature keeps_EnableFeature keeps_CreateGlobalConfig keeps_CreateEnvConfig keeps_UpdateConfig
  keeps_UpdateEnvConfig keeps_DeleteConfig keeps_DeleteEnvConfig keeps_SetLabels keeps_SetEnvironmentValue keeps_DeleteEnvironmentValue
  keeps_Create keeps_Deactivate keeps_DeactivateByFeatureAndTarget

text \<open>The reports that do not concern a deploy.\<close>

lemma keeps_releaseStatus: "keeps_core (releaseStatus dec io msg)"
proof
  fix d
  have "core_step d (SetReleaseStatus now e rel d)" for now e rel d
    unfolding SetReleaseStatus_def by simp
  then have "keeps_core (set_releases io e rels)" for e rels
    by (induction rels) (auto intro!: keeps_rules)
  then have "keeps_core (write_releases io e rels)" for e rels
    unfolding write_releases_def DeleteReleaseStatusesInEnvironment_def by (intro keeps_rules) simp
  from core.keepsD [OF this] show "core_step d (snd (releaseStatus dec io msg d))"
    by (simp add: releaseStatus_def split: option.split sum.split)
qed

lemma keeps_healthStatus: "keeps_core (healthStatus dec io msg)"
proof
  fix d
  have "keeps_core (naisdstatus_Set io e t)" for e t unfolding naisdstatus_Set_def by (intro keeps_rules) simp
  from core.keepsD [OF this] show "core_step d (snd (healthStatus dec io msg d))"
    by (simp add: healthStatus_def split: option.split sum.split)
qed

lemma keeps_handleStatusLog: "keeps_core (handleStatusLog dec io msg)"
  by (rule core.keepsI) (simp add: handleStatusLog_def logCreate_def execT_def split: option.split)

section \<open>The system as steps\<close>

text \<open>
  The state of the whole: the database and the messages, what was posted to the chat, and the time of the last step. A
  step is a reconcile cycle, a manual redeploy or uninstall, a report of an agent, the timeout, or a write of an operator;
  every step may fail in any of its queries and renders with an \<open>externals\<close> of its own, and the clock of the database does not go back.
\<close>

record system =
  sy_world :: world
  sy_slack :: "(string \<times> string \<times> string) list"
  sy_now :: gotime

inductive operator_write :: "db \<Rightarrow> db \<Rightarrow> bool" where
  disable: "operator_write d (snd (DisableFeature io email e f reason d))"
| enable: "operator_write d (snd (EnableFeature io email e f d))"
| global_config: "operator_write d (snd (CreateGlobalConfig x io email c d))"
| env_config: "operator_write d (snd (CreateEnvConfig x io email c d))"
| update_global: "operator_write d (snd (UpdateConfig io email cid u d))"
| update_env: "operator_write d (snd (UpdateEnvConfig io email cid u d))"
| delete_global: "operator_write d (snd (DeleteConfig io email cid d))"
| delete_env: "operator_write d (snd (DeleteEnvConfig io email cid d))"
| labels: "operator_write d (snd (SetLabels io email e l d))"
| set_value: "operator_write d (snd (SetEnvironmentValue io email e k v secret d))"
| delete_value: "operator_write d (snd (DeleteEnvironmentValue io email e k d))"
| assign: "operator_write d (snd (Create downloader parser j io email inp d))"
| deactivate: "operator_write d (snd (Deactivate io email i d))"
| deactivate_target: "operator_write d (snd (DeactivateByFeatureAndTarget io email f t d))"
| environment: "io_diid io 0 \<notin> e_ID ` set (environments d) \<Longrightarrow> operator_write d (snd (environment_Create io email p d))"
| tenant: "io_diid io 0 \<notin> t_ID ` set (tenants d) \<Longrightarrow> operator_write d (snd (CreateTenant io email tp d))"

inductive system_step :: "string \<Rightarrow> decoders \<Rightarrow> system \<Rightarrow> system \<Rightarrow> bool"
  for aud :: string and dec :: decoders where
  cycle: "sy_now s \<le> io_now io \<Longrightarrow> run_cycle x aud io (NewPubSubDeployer x io) (sy_world s) = Inr w \<Longrightarrow>
    system_step aud dec s (s \<lparr>sy_world := w, sy_now := io_now io\<rparr>)"
| redeploy: "sy_now s \<le> io_now io \<Longrightarrow> Redeploy x aud io (Some (NewPubSubDeployer x io)) e f (sy_world s) = (r, w) \<Longrightarrow>
    system_step aud dec s (s \<lparr>sy_world := w, sy_now := io_now io\<rparr>)"
| uninstall: "sy_now s \<le> io_now io \<Longrightarrow>
    Uninstall (Some (NewPubSubDeployer x io)) diid tenant env rel (sy_world s) = (ru, w) \<Longrightarrow>
    system_step aud dec s (s \<lparr>sy_world := w, sy_now := io_now io\<rparr>)"
| report: "sy_now s \<le> io_now io \<Longrightarrow>
    handler dec io msg \<lparr>ib_db = w_db (sy_world s), ib_slack = sy_slack s\<rparr> = (r, ib) \<Longrightarrow>
    system_step aud dec s (s \<lparr>sy_world := (sy_world s) \<lparr>w_db := ib_db ib\<rparr>, sy_slack := ib_slack ib, sy_now := io_now io\<rparr>)"
| timeout: "sy_now s \<le> now \<Longrightarrow>
    system_step aud dec s (s \<lparr>sy_world := (sy_world s) \<lparr>w_db := TimeoutPendingDeploys now (w_db (sy_world s))\<rparr>, sy_now := now\<rparr>)"
| operator: "sy_now s \<le> now \<Longrightarrow> operator_write (w_db (sy_world s)) d \<Longrightarrow>
    system_step aud dec s (s \<lparr>sy_world := (sy_world s) \<lparr>w_db := d\<rparr>, sy_now := now\<rparr>)"

inductive_cases system_stepE: "system_step aud dec s s'"

text \<open>The invariant: well-formed tables, no row from the future, and every deploy row names a message that was sent.\<close>

definition published :: "world \<Rightarrow> bool" where
  "published w \<longleftrightarrow> (\<forall>r \<in> set (deploy_log (w_db w)). row_id r \<in> msg_id ` set (w_sent w))"

definition system_ok :: "system \<Rightarrow> bool" where
  "system_ok s \<longleftrightarrow> db_ok (w_db (sy_world s)) \<and> clock_ok (sy_now s) (w_db (sy_world s)) \<and> published (sy_world s)"

definition world_ok :: "gotime \<Rightarrow> world \<Rightarrow> bool" where
  "world_ok now w \<longleftrightarrow> db_ok (w_db w) \<and> clock_ok now (w_db w) \<and> published w"

lemma system_ok_world: "system_ok s \<longleftrightarrow> world_ok (sy_now s) (sy_world s)"
  by (simp add: system_ok_def world_ok_def)

lemma world_ok_later: "world_ok now w \<Longrightarrow> now \<le> now' \<Longrightarrow> world_ok now' w"
  by (force simp: world_ok_def clock_ok_def)

lemma world_ok_core: "world_ok now w \<Longrightarrow> core_step (w_db w) d \<Longrightarrow> world_ok now (w \<lparr>w_db := d\<rparr>)"
  by (simp add: world_ok_def core_step_def clock_ok_def published_def)

lemma world_ok_sent: "world_ok now w \<Longrightarrow> world_ok now (w \<lparr>w_sent := w_sent w @ ms\<rparr>)"
  by (simp add: world_ok_def published_def image_Un)

lemma world_ok_decisions: "world_ok now w \<Longrightarrow> world_ok now (w \<lparr>w_db := AppendDecisions now rows (w_db w)\<rparr>)"
  by (simp add: world_ok_def published_def db_ok_AppendDecisions clock_ok_AppendDecisions)

lemma environment_Create_core:
  assumes "io_diid io 0 \<notin> e_ID ` set (environments d)"
  shows "core_step d (snd (environment_Create io email p d))"
  unfolding environment_Create_def
proof (rule core.keeps_at_pool_tx)
  have "core_step d (snd (CreateEnvironment io p' d))" for p'
    using assms by (simp add: CreateEnvironment_def Let_def core_step_def db_ok_def)
  then show "core_step d (snd (bindT (\<lambda>d. liftT (wrapE ''get tenant for labels'' (GetTenant io (ec_TenantID p) d)) d) (\<lambda>tenant.
        bindT (CreateEnvironment io (p \<lparr>ec_Labels := env_labels p (t_Name tenant)\<rparr>)) (\<lambda>ret. returnT (ret, t_Name tenant))) d))"
    by (simp add: bindT_def liftT_def returnT_def split: sum.split prod.split) (metis snd_conv)
qed (simp add: keeps_rules split_beta)

lemma CreateTenant_core:
  assumes "io_diid io 0 \<notin> t_ID ` set (tenants d)"
  shows "core_step d (snd (CreateTenant io email p d))"
  unfolding CreateTenant_def
  by (rule core.keeps_at_pool_tx) (use assms in \<open>simp_all add: keeps_rules Let_def core_step_def [of d] db_ok_def\<close>)

lemma operator_write_core: "operator_write d d' \<Longrightarrow> core_step d d'"
  by (induction rule: operator_write.induct)
    (simp_all add: core.keepsD [OF operator_keeps(1)] core.keepsD [OF operator_keeps(2)] core.keepsD [OF operator_keeps(3)]
      core.keepsD [OF operator_keeps(4)] core.keepsD [OF operator_keeps(5)] core.keepsD [OF operator_keeps(6)]
      core.keepsD [OF operator_keeps(7)] core.keepsD [OF operator_keeps(8)] core.keepsD [OF operator_keeps(9)]
      core.keepsD [OF operator_keeps(10)] core.keepsD [OF operator_keeps(11)] core.keepsD [OF operator_keeps(12)]
      core.keepsD [OF operator_keeps(13)] core.keepsD [OF operator_keeps(14)] environment_Create_core CreateTenant_core)

lemma Deploy_sent: "\<exists>ms. w_sent (snd (Deploy x io ds w)) = w_sent w @ ms"
  by (simp add: Deploy_def Let_def split: sum.split)

lemma Deploy_db: "\<exists>rows. w_db (snd (Deploy x io ds w)) = AppendDeploys (io_now io) rows (w_db w)"
proof -
  have "AppendDeploys (io_now io) [] (w_db w) = w_db w" by (simp add: AppendDeploys_def)
  then have "w_db w = AppendDeploys (io_now io) [] (w_db w)" by simp
  then show ?thesis by (auto simp: Deploy_def Let_def split: sum.split)
qed

lemma Deploy_world_ok: "world_ok (io_now io) w \<Longrightarrow> world_ok (io_now io) (snd (Deploy x io ds w))"
proof -
  assume ok: "world_ok (io_now io) w"
  let ?w = "snd (Deploy x io ds w)"
  obtain ms where ms: "w_sent ?w = w_sent w @ ms" using Deploy_sent by blast
  obtain rows where rows: "deploy_log (w_db ?w) = deploy_log (w_db w) @ rows"
    and ids: "case fst (Deploy x io ds w) of Inr _ \<Rightarrow> map row_id rows = map msg_id (drop (length (w_sent w)) (w_sent ?w)) \<and>
      list_all (\<lambda>r. dl_status r = DeployStatusSent) rows | Inl _ \<Rightarrow> rows = []"
    using Deploy_rows by blast
  have "map row_id rows = map msg_id ms \<or> rows = []" using ids ms by (auto split: sum.splits)
  then have "row_id ` set rows \<subseteq> msg_id ` set ms" by (metis list.set_map list.simps(8) empty_subsetI order_refl list.set(1))
  then have "published ?w" using ok by (auto simp: published_def world_ok_def rows ms)
  moreover have "db_ok (w_db ?w)" "clock_ok (io_now io) (w_db ?w)"
    using ok Deploy_db [of x io ds w] by (auto simp: world_ok_def db_ok_AppendDeploys clock_ok_AppendDeploys)
  ultimately show ?thesis by (simp add: world_ok_def)
qed

lemma writeResultLogs_world_ok:
  assumes "world_ok (io_now io) w" and "writeResultLogs io ds w = (r, w')"
  shows "world_ok (io_now io) w'"
  using assms
  by (auto simp: writeResultLogs_def Let_def world_ok_decisions split: if_splits)

lemma run_cycle_world_ok:
  assumes "world_ok (io_now io) w" and "run_cycle x aud io (NewPubSubDeployer x io) w = Inr w'"
  shows "world_ok (io_now io) w'"
proof (cases "ComputeDesiredState x aud io (w_db w)")
  case (Inl e)
  then show ?thesis using assms by (simp add: run_cycle_def split: if_splits)
next
  case (Inr ds)
  obtain r w1 where w1: "writeResultLogs io ds w = (r, w1)" by fastforce
  then have "world_ok (io_now io) w1" using writeResultLogs_world_ok assms(1) by blast
  then show ?thesis
    using assms(2) Inr w1 Deploy_world_ok by (cases r) (auto simp: run_cycle_def NewPubSubDeployer_def)
qed

lemma Redeploy_world_ok:
  assumes "world_ok (io_now io) w" and "Redeploy x aud io (Some (NewPubSubDeployer x io)) e f w = (r, w')"
  shows "world_ok (io_now io) w'"
proof -
  have "w' = w \<or> (\<exists>ds. w' = snd (Deploy x io ds w))"
    using assms(2) unfolding Redeploy_def option.case NewPubSubDeployer_def Deployer.simps
    by (auto split: sum.splits option.splits if_splits prod.splits) (metis snd_conv)+
  then show ?thesis using assms(1) Deploy_world_ok by blast
qed

lemma Uninstall_world_ok:
  assumes "world_ok now w" and "Uninstall (Some (NewPubSubDeployer x io)) diid t env rel w = (r, w')"
  shows "world_ok now w'"
  using assms
  by (auto simp: Uninstall_def Uninstall_pubsub_def NewPubSubDeployer_def Let_def world_ok_sent split: if_splits sum.splits prod.splits)

text \<open>A row that repeats the identity of a row of the log keeps every row published.\<close>

lemma world_ok_append:
  assumes "world_ok now w" and "r \<in> set (deploy_log (w_db w))" and "row_id row = row_id r"
  shows "world_ok now (w \<lparr>w_db := append_deploy_row now row (w_db w)\<rparr>)"
  using assms by (simp add: world_ok_def published_def db_ok_append_deploy)

lemma world_ok_AppendDeploys:
  assumes "world_ok now w" and "\<And>row. row \<in> set rows \<Longrightarrow> \<exists>r \<in> set (deploy_log (w_db w)). row_id row = row_id r"
  shows "world_ok now (w \<lparr>w_db := AppendDeploys now rows (w_db w)\<rparr>)"
  using assms
proof (induction rows arbitrary: w)
  case (Cons row rows)
  let ?w = "w \<lparr>w_db := append_deploy_row now row (w_db w)\<rparr>"
  have "world_ok now ?w" using Cons.prems world_ok_append [of now w _ row] by auto
  moreover have "\<exists>r \<in> set (deploy_log (w_db ?w)). row_id row' = row_id r" if "row' \<in> set rows" for row'
    using Cons.prems(2) [of row'] that by auto
  ultimately show ?case using Cons.IH [of ?w] by (simp add: AppendDeploys_Cons)
qed (simp add: AppendDeploys_def)

lemma current_row_identity:
  assumes "db_ok d" and "(k, c) \<in> set (deploy_current d)"
  shows "\<exists>r \<in> set (deploy_log d). row_id r = (dc_diid c, snd k, dc_feature_version c, dc_hash c)"
proof -
  have "map_of (deploy_current d) k = Some c" using assms db_ok_gm [OF assms(1)] by (simp add: gm_entry_iff)
  then obtain r where "r \<in> set (deploy_log d)" "dl_key r = k" "c = deploy_current_of r"
    using assms(1) by (auto simp: db_ok_def dl.latest_def dest!: dl.tracks_SomeD)
  then show ?thesis by (intro bexI [of _ r]) (auto simp: row_id_def deploy_current_of_def dl_key_def)
qed

lemma handler_world_ok:
  assumes ok: "world_ok (io_now io) w" and h: "handler dec io msg \<lparr>ib_db = w_db w, ib_slack = sl\<rparr> = (r, ib)"
  shows "world_ok (io_now io) (w \<lparr>w_db := ib_db ib\<rparr>)"
proof (cases "st_Type msg = StatusTypeHelm")
  case False
  let ?w = "\<lparr>ib_db = w_db w, ib_slack = sl\<rparr>"
  have "core_step (w_db w) (snd (releaseStatus dec io msg (w_db w)))" "core_step (w_db w) (snd (healthStatus dec io msg (w_db w)))"
    "core_step (w_db w) (snd (handleStatusLog dec io msg (w_db w)))"
    by (rule core.keepsD, rule keeps_releaseStatus keeps_healthStatus keeps_handleStatusLog)+
  moreover have "ib_db ib \<in> {w_db w, snd (releaseStatus dec io msg (w_db w)), snd (healthStatus dec io msg (w_db w)),
      snd (handleStatusLog dec io msg (w_db w))}"
    using h False by (auto simp: handler_def on_db_def split: if_splits prod.splits)
  ultimately show ?thesis using world_ok_core [OF ok, of "ib_db ib"] by (auto simp: core_step_def)
next
  case True
  let ?w = "\<lparr>ib_db = w_db w, ib_slack = sl\<rparr>"
  have h': "handlerHelm dec io msg ?w = (r, ib)" using h True by (simp add: handler_def)
  show ?thesis
  proof (cases "dec_helm dec (st_Data msg)")
    case None
    then show ?thesis using h' ok by (auto simp: handlerHelm_def world_ok_core)
  next
    case (Some hs)
    have "ib_db ib = w_db w \<or> (\<exists>d. LatestDeployByDIID (h_DIID hs) (w_db w) = Some d \<and>
        ib_db ib = append_deploy_row (io_now io) (status_row hs d) (w_db w))"
      using handlerHelm_shape [OF Some, of io ?w] h'
      by (auto simp: append_status_def AppendDeployStatus_def execT_def split: if_splits)
    then show ?thesis
    proof
      assume "\<exists>d. LatestDeployByDIID (h_DIID hs) (w_db w) = Some d \<and> ib_db ib = append_deploy_row (io_now io) (status_row hs d) (w_db w)"
      then obtain d where d: "LatestDeployByDIID (h_DIID hs) (w_db w) = Some d"
        and ib: "ib_db ib = append_deploy_row (io_now io) (status_row hs d) (w_db w)" by blast
      have "row_id (status_row hs d) = row_id d" using LatestDeployByDIID_Some(2) [OF d] by (simp add: row_id_def status_row_def)
      then show ?thesis unfolding ib using world_ok_append [OF ok LatestDeployByDIID_Some(1) [OF d]] by blast
    qed (use ok world_ok_core in simp)
  qed
qed

lemma timeout_world_ok:
  assumes "world_ok now w"
  shows "world_ok now (w \<lparr>w_db := TimeoutPendingDeploys now (w_db w)\<rparr>)"
proof -
  have "\<exists>r \<in> set (deploy_log (w_db w)). row_id (pending_row kc) = row_id r" if kc: "kc \<in> set (deploy_current (w_db w))" for kc
  proof -
    obtain r where "r \<in> set (deploy_log (w_db w))"
      and "row_id r = (dc_diid (snd kc), snd (fst kc), dc_feature_version (snd kc), dc_hash (snd kc))"
      using current_row_identity [of "w_db w" "fst kc" "snd kc"] assms kc by (auto simp: world_ok_def)
    then show ?thesis by (intro bexI [of _ r]) (simp_all add: pending_row_def row_id_def split_beta)
  qed
  then show ?thesis unfolding TimeoutPendingDeploys_def by (intro world_ok_AppendDeploys [OF assms]) auto
qed

lemma system_step_ok:
  assumes "system_step aud dec s s'" and "system_ok s"
  shows "system_ok s'"
  using assms unfolding system_ok_world
  by (cases rule: system_step.cases)
    (auto intro: run_cycle_world_ok Redeploy_world_ok Uninstall_world_ok handler_world_ok timeout_world_ok world_ok_core
      operator_write_core dest: world_ok_later)

lemma reachable_ok: "(system_step aud dec)\<^sup>*\<^sup>* s s' \<Longrightarrow> system_ok s \<Longrightarrow> system_ok s'"
  by (induction rule: rtranclp_induct) (auto intro: system_step_ok)

text \<open>
  C5. Nothing is deployed that was not sent: in every state that the system reaches from one with an empty deploy log, in any order
  of cycles, manual redeploys and uninstalls, reports of the agents, timeouts and writes of the operators, with any of their queries
  and messages failing, the tables are well formed, and the current deploy of every environment and feature is one for which a message
  with the same identifier, feature, version and hash was published.
\<close>

theorem every_deploy_was_published:
  assumes "(system_step aud dec)\<^sup>*\<^sup>* s s'"
    and "db_ok (w_db (sy_world s))" and "clock_ok (sy_now s) (w_db (sy_world s))" and "deploy_log (w_db (sy_world s)) = []"
  shows "db_ok (w_db (sy_world s')) \<and> clock_ok (sy_now s') (w_db (sy_world s')) \<and>
    (\<forall>(k, c) \<in> set (deploy_current (w_db (sy_world s'))). \<exists>(topic, m) \<in> set (w_sent (sy_world s')).
       mi_ID m = dc_diid c \<and> mi_Name m = snd k \<and> mi_Version m = dc_feature_version c \<and> mi_ConfigHash m = dc_hash c)"
proof -
  have "system_ok s" using assms(2-4) by (simp add: system_ok_def published_def)
  then have ok: "db_ok (w_db (sy_world s'))" "clock_ok (sy_now s') (w_db (sy_world s'))" "published (sy_world s')"
    using reachable_ok [OF assms(1)] by (simp_all add: system_ok_def)
  have "\<exists>(topic, m) \<in> set (w_sent (sy_world s')).
       mi_ID m = dc_diid c \<and> mi_Name m = snd k \<and> mi_Version m = dc_feature_version c \<and> mi_ConfigHash m = dc_hash c"
    if kc: "(k, c) \<in> set (deploy_current (w_db (sy_world s')))" for k c
  proof -
    obtain r where r: "r \<in> set (deploy_log (w_db (sy_world s')))" "row_id r = (dc_diid c, snd k, dc_feature_version c, dc_hash c)"
      using current_row_identity [OF ok(1) kc] by blast
    then obtain tm where "tm \<in> set (w_sent (sy_world s'))" "msg_id tm = (dc_diid c, snd k, dc_feature_version c, dc_hash c)"
      using ok(3) by (auto simp: published_def)
    then show ?thesis by (intro bexI [of _ tm]) (auto simp: msg_id_def)
  qed
  then show ?thesis using ok by blast
qed

definition example_system :: system where
  "example_system = \<lparr>sy_world = example_world, sy_slack = [], sy_now = 1000\<rparr>"

lemma example_system_step:
  "\<exists>s. system_step [] example_decoders example_system s \<and> w_sent (sy_world s) \<noteq> []"
proof -
  obtain w1 where w1: "run_cycle example_externals [] example_io (NewPubSubDeployer example_externals example_io) example_world = Inr w1"
    and sent: "w_sent w1 \<noteq> []"
    using example_first_cycle by blast
  then have "system_step [] example_decoders example_system (example_system \<lparr>sy_world := w1, sy_now := io_now example_io\<rparr>)"
    by (intro system_step.cycle) (simp_all add: example_system_def)
  then show ?thesis using sent by (intro exI conjI) (assumption, simp)
qed

theorem every_deploy_was_published_witness:
  "\<exists>s. system_step [] example_decoders example_system s \<and> w_sent (sy_world s) \<noteq> [] \<and> db_ok (w_db (sy_world s))"
proof -
  obtain s where s: "system_step [] example_decoders example_system s" and sent: "w_sent (sy_world s) \<noteq> []"
    using example_system_step by blast
  have "db_ok (w_db (sy_world s))"
    using every_deploy_was_published [OF r_into_rtranclp [of "system_step [] example_decoders", OF s]]
      example_world_ok example_clock by (simp add: example_system_def example_world_def example_db_def empty_db_def)
  then show ?thesis using s sent by blast
qed

section \<open>Switching a feature off\<close>

lemma DisableFeature_Inr:
  assumes "DisableFeature io email e f reason d = (Inr (), d1)"
  shows "\<exists>a. d1 = (insert_disabled (io_now io) e f d) \<lparr>audits := a\<rparr>"
    and "map_of (disabled_features d1) (e, f) \<noteq> None"
proof -
  obtain p where "WithTx io (bindT (SetDisabledFeature io e f) (\<lambda>u. audit_Create io email p)) d = (Inr (), d1)"
    using assms by (simp add: DisableFeature_def Let_def split: if_splits)
  then show shape: "\<exists>a. d1 = (insert_disabled (io_now io) e f d) \<lparr>audits := a\<rparr>"
    by (auto simp: WithTx_eq_Inr bindT_eq_Inr dest!: SetDisabledFeature_Inr)
  then show "map_of (disabled_features d1) (e, f) \<noteq> None" by (auto simp: insert_disabled_def split: option.splits)
qed

lemma disabled_skipped:
  assumes "DisableFeature io email e f reason d = (Inr (), d1)"
    and "ComputeDesiredState x aud io2 d1 = Inr ds" and "res \<in> set ds" and "decision_key res = (e, f)"
  shows "dd_Action res = ActionSkipUnhealthy \<or> dd_Action res = ActionSkipDisabled"
proof -
  have d1: "map_of (disabled_features d1) (e, f) \<noteq> None"
    using DisableFeature_Inr(2) [OF assms(1)] .
  obtain s where s: "fetchSnapshot x aud (io_fails io2) d1 = Inr s" and ds: "computeActions x (io_now io2) s = Inr ds"
    using assms(2) by (auto simp: ComputeDesiredState_def bindE_eq_Inr)
  obtain env dep where disp: "dispatchDecision x (io_now io2) s (env, dep) = Inr res"
    using computeActions_item [OF ds assms(3)] by blast
  have "(en_ID env, f_Name (ra_Feature dep)) = (e, f)"
    using dispatchDecision_for [OF disp] assms(4) by (simp add: decision_key_def decision_for_def)
  then have "flag2 (s_disabledByEnv s) (en_ID env) (f_Name (ra_Feature dep))"
    using snapshot_disabled [OF s] d1 by simp
  then show ?thesis using disp by (auto simp: dispatchDecision_def decide_def split: if_splits)
qed

text \<open>Enabling it again leaves the tables that a snapshot reads as they were.\<close>

lemma enable_undoes:
  assumes "db_ok d" and "map_of (disabled_features d) (e, f) = None"
    and "DisableFeature io email e f reason d = (Inr (), d1)" and "EnableFeature io' email' e f d1 = (Inr (), d2)"
  shows "fetchSnapshot x aud fails d2 = fetchSnapshot x aud fails d"
proof -
  have "gm_ok (disabled_features d)" using db_ok_gm [OF assms(1)] by simp
  then have "gm_del (e, f) (gm_put (e, f) t (disabled_features d)) = disabled_features d" for t
    by (intro gm_eqI) (auto simp: assms(2))
  then obtain a where d2: "d2 = d \<lparr>audits := a\<rparr>"
    using DisableFeature_Inr(1) [OF assms(3)] assms(2,4)
    by (auto simp: EnableFeature_def WithTx_eq_Inr bindT_eq_Inr insert_disabled_def)
  have same: "same_inputs d (d \<lparr>audits := a\<rparr>)" by (simp add: same_inputs_def)
  show ?thesis
    unfolding d2 fetchSnapshot_def same_queries [OF same] by (simp add: ListLatestDeploys_def ListDeployedFeatures_def)
qed

lemma example_disable:
  "\<exists>d1 d2. DisableFeature store_io None 1 ''loki'' ''x'' example_db = (Inr (), d1) \<and>
     (\<exists>ds. ComputeDesiredState example_externals [] example_io d1 = Inr ds) \<and>
     EnableFeature store_io None 1 ''loki'' d1 = (Inr (), d2)"
proof -
  have trim: "strings_TrimSpace ''x'' = ''x''" by (simp add: strings_TrimSpace_def is_space_def)
  have dis: "disabled_features example_db = []" "list_ex (\<lambda>e. e_ID e = Suc 0) (environments example_db)"
    by (simp_all add: example_db_def empty_db_def)
  obtain d1 a where d1: "DisableFeature store_io None 1 ''loki'' ''x'' example_db = (Inr (), d1)"
    "d1 = example_db \<lparr>disabled_features := [((1, ''loki''), io_now store_io)], audits := a\<rparr>"
    by (simp add: DisableFeature_def trim WithTx_def bindT_def execT_def audit_Create_def SetDisabledFeature_def insert_disabled_def dis)
  let ?s = "example_snapshot \<lparr>s_disabledByEnv := [(1, [(''loki'', True)])]\<rparr>"
  have "fetchSnapshot example_externals [] (io_fails example_io) d1 = Inr ?s"
    unfolding d1(2)
    by (simp add: fetch_eval example_db_def empty_db_def example_snapshot_def example_env_def example_assignment_def
        example_externals_def echo_externals_def example_feature_def example_cv_def example_row_def merged_of_global_def
        EnvironmentKindTenant_def EnvironmentKindManagement_def gm_put2_def)
  moreover have "work_items ?s = work_items example_snapshot" by (simp add: work_items_def env_winners_def)
  moreover have "\<exists>r. dispatchDecision example_externals 1000 ?s (example_env, example_assignment) = Inr r"
    by (simp add: dispatchDecision_def flag2_def gm_get2_def example_env_def example_assignment_def example_feature_def)
  ultimately have "\<exists>ds. ComputeDesiredState example_externals [] example_io d1 = Inr ds"
    by (auto simp: ComputeDesiredState_def computeActions_def example_work_items)
  moreover have "\<exists>d2. EnableFeature store_io None 1 ''loki'' d1 = (Inr (), d2)"
    by (simp add: EnableFeature_def WithTx_def bindT_def execT_def audit_Create_def)
  ultimately show ?thesis using d1(1) by blast
qed

text \<open>
  C14. Switching a feature off takes effect in the next cycle: after an operator has disabled a feature in an environment, every
  decision about them is to skip, because the feature is disabled or the agent unhealthy, and no message about them is published;
  once it is enabled again they are decided on as before.
\<close>

theorem disabled_feature_is_skipped:
  assumes "db_ok d" and "map_of (disabled_features d) (e, f) = None"
    and "DisableFeature io email e f reason d = (Inr (), d1)" and "ComputeDesiredState x aud io2 d1 = Inr ds"
    and "EnableFeature io3 email' e f d1 = (Inr (), d2)"
  shows "(\<forall>res \<in> set ds. decision_key res = (e, f) \<longrightarrow> dd_Action res = ActionSkipUnhealthy \<or> dd_Action res = ActionSkipDisabled) \<and>
    ComputeDesiredState x aud io4 d2 = ComputeDesiredState x aud io4 d"
  using disabled_skipped [OF assms(3,4)] enable_undoes [OF assms(1,2,3,5)] by (auto simp: ComputeDesiredState_def)

theorem disabled_feature_is_skipped_witness:
  "\<exists>d1 d2. DisableFeature store_io None 1 ''loki'' ''x'' example_db = (Inr (), d1) \<and>
     EnableFeature store_io None 1 ''loki'' d1 = (Inr (), d2) \<and>
     ComputeDesiredState example_externals [] example_io d2 = Inr [example_decision]"
proof -
  obtain d1 d2 ds where d: "DisableFeature store_io None 1 ''loki'' ''x'' example_db = (Inr (), d1)"
    "ComputeDesiredState example_externals [] example_io d1 = Inr ds" "EnableFeature store_io None 1 ''loki'' d1 = (Inr (), d2)"
    using example_disable by blast
  have "map_of (disabled_features example_db) (1, ''loki'') = None" by (simp add: example_db_def empty_db_def)
  then have "ComputeDesiredState example_externals [] example_io d2 = Inr [example_decision]"
    using disabled_feature_is_skipped [OF example_db_ok _ d, of example_io] example_ComputeDesiredState by (simp add: example_world_def)
  then show ?thesis using d by blast
qed

end
