(* ===== verification/Naisd.thy ===== *)
theory Naisd
  imports Receiver Feature_Store
begin

text \<open>
  The agent in a cluster, \<open>internal/naisd\<close>: the deploy manager that turns an instruction into a Helm run and reports
  (\<open>deploy_manager.go\<close>), its log (\<open>pubsub_logger.go\<close>), the periodic reports (\<open>health_reporter.go\<close>, \<open>status_reporter.go\<close>),
  its own upgrade (\<open>upgrade_naisd.go\<close>, \<open>selfupgrade/upgrade.go\<close>) and the subscription that delivers the instructions
  (\<open>internal/message/subscriber.go\<close>).

  Helm, Kubernetes, the file system, the broker and the encoders are parameters. The goroutines that run beside Helm are
  modelled by the order of their steps, which the parameters choose: output and cluster events add lines to the log under its
  lock, and the log's own goroutine and the handler that closes it each take the lines under the lock in one step and
  publish what they took in a later one.
\<close>

section \<open>Durations\<close>

text \<open>\<open>Duration.String\<close> of the standard library.\<close>

fun digits :: "nat \<Rightarrow> string" where
  "digits n = (if n < 10 then [char_of (48 + n)] else digits (n div 10) @ [char_of (48 + n mod 10)])"

declare digits.simps [simp del]

definition pad_zeros :: "nat \<Rightarrow> string \<Rightarrow> string" where
  "pad_zeros w s = replicate (w - length s) (CHR ''0'') @ s"

definition strip_zeros :: "string \<Rightarrow> string" where
  "strip_zeros s = rev (dropWhile (\<lambda>c. c = CHR ''0'') (rev s))"

text \<open>The number \<open>v / 10 ^ prec\<close> without trailing zeros in the fraction.\<close>

definition fmtFrac :: "nat \<Rightarrow> nat \<Rightarrow> string" where
  "fmtFrac v prec =
     (let frac = strip_zeros (pad_zeros prec (digits (v mod 10 ^ prec)))
      in digits (v div 10 ^ prec) @ (if frac = [] then [] else CHR ''.'' # frac))"

definition Duration_String :: "duration \<Rightarrow> string" where
  "Duration_String d =
     (let u = nat \<bar>d\<bar>;
          s = (if u = 0 then ''0s''
               else if u < 1000 then digits u @ ''ns''
               else if u < 1000000 then fmtFrac u 3 @ [CHR 0xC2, CHR 0xB5, CHR ''s'']
               else if u < 1000000000 then fmtFrac u 6 @ ''ms''
               else let secs = fmtFrac (u mod 60000000000) 9 @ ''s'';
                        mins = u div 60000000000
                    in if mins = 0 then secs
                       else if mins < 60 then digits mins @ ''m'' @ secs
                       else digits (mins div 60) @ ''h'' @ digits (mins mod 60) @ ''m'' @ secs)
      in if d < 0 then CHR ''-'' # s else s)"

section \<open>State\<close>

definition lockedInt_Inc :: "int \<Rightarrow> int" where
  "lockedInt_Inc v = v + 1"

definition lockedInt_Dec :: "int \<Rightarrow> int" where
  "lockedInt_Dec v = (if v - 1 < 0 then 0 else v - 1)"

record DeployManager =
  dm_env :: string
  dm_tenantName :: string
  dm_kubeHost :: string
  dm_kubeCAFile :: string
  dm_kubeToken :: string
  dm_naisProjectID :: string
  dm_mockExecutor :: bool
  dm_debug :: bool
  dm_performNaisdUpgrades :: bool
  dm_RepublishHelmList :: bool

text \<open>The parts of a pod, a job and a secret that the self-upgrade reads or writes.\<close>

record container =
  ct_Name :: string
  ct_Args :: "string list"
  ct_Image :: string
  ct_VolumeMounts :: "(string \<times> bool \<times> string) list"

record podSpec =
  ps_Containers :: "container list"
  ps_RestartPolicy :: string
  ps_Volumes :: "(string \<times> string) list"
  ps_NodeName :: string
  ps_SchedulerName :: string

record job =
  jb_Name :: string
  jb_Labels :: "(string \<times> string) list"
  jb_BackoffLimit :: int
  jb_Completions :: int
  jb_TTLSecondsAfterFinished :: int
  jb_PodLabels :: "(string \<times> string) list"
  jb_Spec :: podSpec

record secret =
  sc_Name :: string
  sc_Labels :: "(string \<times> string) list"
  sc_OwnerKind :: string
  sc_OwnerName :: string
  sc_OwnerUID :: string
  sc_StringData :: "(string \<times> string) list"

text \<open>A release as the Helm client lists it.\<close>

record helm_release =
  hl_Name :: string
  hl_ChartVersion :: string
  hl_Status :: string
  hl_Version :: int
  hl_LastDeployed :: gotime

text \<open>What the agent has done so far: published reports, Helm command lines, files it left, jobs and secrets it created.\<close>

record agent =
  ag_inProgress :: int
  ag_lastChecked :: gotime
  ag_statuses :: "Status list"
  ag_helm :: "string list list"
  ag_files :: "string list"
  ag_jobs :: "job list"
  ag_secrets :: "secret list"
  ag_stopped :: bool

section \<open>The log of an instruction\<close>

text \<open>
  The fields of the log, and where its two publishers are: the goroutine \<open>Run\<close> and the handler in \<open>Close\<close>. Either may hold
  a batch that it took and has not published yet, and is done once it will take no more.
\<close>

record pubsubLogger =
  pl_diid :: uuid
  pl_lines :: "LogLine list"
  pl_closed :: bool
  pl_run :: "LogLine list option"
  pl_close :: "LogLine list option"
  pl_runDone :: bool
  pl_closeDone :: bool

record k8sEvent =
  ke_Type :: string
  ke_ObjectName :: string
  ke_APIVersion :: string
  ke_Kind :: string
  ke_Message :: string

datatype watchEvent = WatchAdded k8sEvent | WatchAddedOther | WatchOther

text \<open>
  What happens while Helm runs and until the log is closed: output and events arrive, \<open>Run\<close> takes the lines on a tick or because the
  log was closed and publishes what it took, and \<open>Close\<close> does so once.
\<close>

datatype activity = Output string | Watched watchEvent | Tick | RunClosed | SendRun | CloseTake | SendClose

record naisd_io =
  ni_now :: gotime
  ni_tempFile :: "err + string"
  ni_encodeYAML :: "gmap \<Rightarrow> err option"
  ni_execute :: "string list \<Rightarrow> activity list \<times> err option"
  ni_closing :: "DeployInstruction \<Rightarrow> activity list"
  ni_publish :: "Status \<Rightarrow> err option"
  ni_marshalHelm :: "Helm \<Rightarrow> err + string"
  ni_marshalLog :: "StatusLog \<Rightarrow> err + string"
  ni_marshalReleases :: "HelmRelease \<Rightarrow> err + string"
  ni_marshalHealth :: "gotime \<Rightarrow> err + string"
  ni_list :: "err + helm_release list"
  ni_helm :: helm
  ni_marshal :: "gval \<Rightarrow> err + string"
  ni_unmarshalString :: "string option \<Rightarrow> string option"
  ni_suffix :: string
  ni_hostname :: "err + string"
  ni_pod :: "string \<Rightarrow> err + podSpec"
  ni_createJob :: "job \<Rightarrow> err + string"
  ni_encodeInstruction :: "DeployInstruction \<Rightarrow> err + string"
  ni_createSecret :: "secret \<Rightarrow> err option"

definition newPubsubLogger :: "uuid \<Rightarrow> pubsubLogger" where
  "newPubsubLogger diid = \<lparr>pl_diid = diid, pl_lines = [], pl_closed = False, pl_run = None, pl_close = None, pl_runDone = False,
     pl_closeDone = False\<rparr>"

definition logger_Write :: "naisd_io \<Rightarrow> string \<Rightarrow> pubsubLogger \<Rightarrow> pubsubLogger" where
  "logger_Write io b p = p \<lparr>pl_lines := pl_lines p @
     map (\<lambda>line. \<lparr>ll_Time = ni_now io, ll_Msg = line, ll_Kind = []\<rparr>) (strings_Split (strings_TrimSpace b) (CHR ''\<newline>''))\<rparr>"

definition AddEvent :: "naisd_io \<Rightarrow> k8sEvent \<Rightarrow> pubsubLogger \<Rightarrow> pubsubLogger" where
  "AddEvent io event p = p \<lparr>pl_lines := pl_lines p @
     [\<lparr>ll_Time = ni_now io, ll_Msg = ke_ObjectName event @ '' ('' @ ke_APIVersion event @ ke_Kind event @ ''): '' @ ke_Message event,
       ll_Kind = ''event''\<rparr>]\<rparr>"

text \<open>A message to the broker. A refused one is gone.\<close>

definition publish :: "naisd_io \<Rightarrow> Status \<Rightarrow> agent \<Rightarrow> err option \<times> agent" where
  "publish io msg a = (case ni_publish io msg of
      Some e \<Rightarrow> (Some e, a)
    | None \<Rightarrow> (None, a \<lparr>ag_statuses := ag_statuses a @ [msg]\<rparr>))"

text \<open>
  \<open>Publish\<close> in its two parts: taking the lines under the lock, and sending them after the lock was given up. With no lines there is
  nothing to send.
\<close>

definition Publish_take :: "pubsubLogger \<Rightarrow> LogLine list option \<times> pubsubLogger" where
  "Publish_take p = (let lines = pl_lines p in (if length lines = 0 then None else Some lines, p \<lparr>pl_lines := []\<rparr>))"

definition Publish_send :: "naisd_io \<Rightarrow> uuid \<Rightarrow> LogLine list \<Rightarrow> agent \<Rightarrow> err option \<times> agent" where
  "Publish_send io diid lines a = (case ni_marshalLog io \<lparr>sl_DIID = diid, sl_Logs = lines\<rparr> of
      Inl e \<Rightarrow> (Some e, a)
    | Inr b \<Rightarrow> publish io \<lparr>st_Tenant = [], st_Environment = [], st_Type = StatusTypeLog, st_Data = b\<rparr> a)"

section \<open>Periodic reports\<close>

definition release_of_helm :: "helm_release \<Rightarrow> Release" where
  "release_of_helm r = \<lparr>rel_Name = hl_Name r, rel_Version = hl_ChartVersion r, rel_Status = hl_Status r,
     rel_Revision = hl_Version r, rel_LastDeployed = hl_LastDeployed r\<rparr>"

definition StatusReporter_Run :: "DeployManager \<Rightarrow> naisd_io \<Rightarrow> agent \<Rightarrow> err option \<times> agent" where
  "StatusReporter_Run d io a = (case ni_list io of
      Inl e \<Rightarrow> (Some (Wrap ''client.List'' e), a)
    | Inr releases \<Rightarrow> (case ni_marshalReleases io \<lparr>hr_Created = ni_now io, hr_Releases = map release_of_helm releases\<rparr> of
          Inl e \<Rightarrow> (Some (Wrap ''json.Marshal'' e), a)
        | Inr hrb \<Rightarrow> publish io \<lparr>st_Tenant = dm_tenantName d, st_Environment = dm_env d, st_Type = StatusTypeHelmReleases, st_Data = hrb\<rparr> a))"

definition Trigger :: "DeployManager \<Rightarrow> naisd_io \<Rightarrow> agent \<Rightarrow> agent" where
  "Trigger d io a = snd (StatusReporter_Run d io a)"

text \<open>The hook after a Helm run: set to \<open>Trigger\<close> in the running agent and empty in the upgrade job.\<close>

definition republish :: "DeployManager \<Rightarrow> naisd_io \<Rightarrow> agent \<Rightarrow> agent" where
  "republish d io a = (if dm_RepublishHelmList d then Trigger d io a else a)"

definition HealthReporter_Run :: "DeployManager \<Rightarrow> naisd_io \<Rightarrow> agent \<Rightarrow> err option \<times> agent" where
  "HealthReporter_Run d io a = (case ni_marshalHealth io (ni_now io) of
      Inl e \<Rightarrow> (Some (Wrap ''json.Marshal'' e), a)
    | Inr hrb \<Rightarrow> publish io \<lparr>st_Tenant = dm_tenantName d, st_Environment = dm_env d, st_Type = StatusTypeHealth, st_Data = hrb\<rparr> a)"

section \<open>The upgrade of the agent itself\<close>

definition imageName :: string where
  "imageName = ''europe-north1-docker.pkg.dev/nais-io/nais/images/naisd''"

definition image_ref :: "naisd_io \<Rightarrow> (string, string) gomap \<Rightarrow> string" where
  "image_ref io v = imageName @ '':'' @ (case ni_unmarshalString io (map_of v ''image.tag'') of Some tag \<Rightarrow> tag | None \<Rightarrow> ''latest'')"

text \<open>The last container called \<open>naisd\<close>, or an empty one in the first place.\<close>

fun naisd_container :: "nat \<Rightarrow> container list \<Rightarrow> nat \<times> container \<Rightarrow> nat \<times> container" where
  "naisd_container i [] found = found"
| "naisd_container i (c # cs) found = naisd_container (Suc i) cs (if ct_Name c = ''naisd'' then (i, c) else found)"

definition upgrader_name :: "string \<Rightarrow> string" where
  "upgrader_name sfx = ''naisd-self-upgrader-'' @ sfx"

definition createJob :: "DeployManager \<Rightarrow> naisd_io \<Rightarrow> string \<Rightarrow> podSpec \<Rightarrow> (string, string) gomap \<Rightarrow> err + job" where
  "createJob d io sfx spec vals =
     (case naisd_container 0 (ps_Containers spec) (0, \<lparr>ct_Name = [], ct_Args = [], ct_Image = [], ct_VolumeMounts = []\<rparr>) of (i, c) \<Rightarrow>
      let lbls = [(''app'', ''naisd-self-upgrader''), (''app.kubernetes.io/instance'', ''naisd'')];
          c = c \<lparr>ct_Args := [''--production'', ''--nais-project-id'', dm_naisProjectID d, ''--env'', dm_env d,
                  ''--tenant-name'', dm_tenantName d, ''upgrade''],
                 ct_Image := image_ref io vals,
                 ct_VolumeMounts := ct_VolumeMounts c @ [(''instruction'', True, ''/etc/naisd/self-upgrade'')]\<rparr>
      in if i \<ge> length (ps_Containers spec) then Inl (Panic ''index out of range'')
         else Inr \<lparr>jb_Name = upgrader_name sfx, jb_Labels = lbls, jb_BackoffLimit = 1, jb_Completions = 1,
               jb_TTLSecondsAfterFinished = 3 * 60 * 60, jb_PodLabels = lbls,
               jb_Spec = spec \<lparr>ps_Containers := (ps_Containers spec)[i := c], ps_RestartPolicy := ''Never'',
                 ps_Volumes := ps_Volumes spec @ [(''instruction'', upgrader_name sfx)], ps_NodeName := [], ps_SchedulerName := []\<rparr>\<rparr>)"

definition createSecretValues :: "naisd_io \<Rightarrow> string \<Rightarrow> DeployInstruction \<Rightarrow> string \<Rightarrow> err + secret" where
  "createSecretValues io sfx msg uid =
     bindE (ni_encodeInstruction io msg) (\<lambda>b.
     Inr \<lparr>sc_Name = upgrader_name sfx, sc_Labels = [(''app'', ''naisd-self-upgrader'')], sc_OwnerKind = ''Job'',
          sc_OwnerName = upgrader_name sfx, sc_OwnerUID = uid, sc_StringData = [(''deploy_instruction.json'', b)]\<rparr>)"

definition StartJob :: "DeployManager \<Rightarrow> naisd_io \<Rightarrow> DeployInstruction \<Rightarrow> agent \<Rightarrow> err option \<times> agent" where
  "StartJob d io msg a =
     (case bindE (FromChart (ni_marshal io) (ni_helm io) (mi_Chart msg) (mi_Version msg)) (\<lambda>feat.
           bindE (wrapE ''unable to get hostname'' (ni_hostname io)) (\<lambda>hostname.
           bindE (wrapE ''failed to get pod spec'' (ni_pod io hostname)) (\<lambda>spec.
           createJob d io (ni_suffix io) spec (f_ValuesYAML feat)))) of
        Inl e \<Rightarrow> (Some e, a)
      | Inr jb \<Rightarrow> (case ni_createJob io jb of
            Inl e \<Rightarrow> (Some (Wrap ''selfupgrade.Start: create job'' e), a)
          | Inr uid \<Rightarrow>
              let a = a \<lparr>ag_jobs := ag_jobs a @ [jb]\<rparr>
              in (case createSecretValues io (ni_suffix io) msg uid of
                    Inl e \<Rightarrow> (Some (Wrap ''selfupgrade.Start: generate secret'' e), a)
                  | Inr sec \<Rightarrow> (case ni_createSecret io sec of
                        Some e \<Rightarrow> (Some (Wrap ''selfupgrade.Start: create secret'' e), a)
                      | None \<Rightarrow> (None, a \<lparr>ag_secrets := ag_secrets a @ [sec]\<rparr>)))))"

section \<open>Running Helm\<close>

text \<open>\<open>strings.Contains\<close>.\<close>

definition strings_Contains :: "string \<Rightarrow> string \<Rightarrow> bool" where
  "strings_Contains s sub \<longleftrightarrow> list_ex (\<lambda>i. strings_HasPrefix (drop i s) sub) [0..<Suc (length s)]"

definition listenForEvents :: "naisd_io \<Rightarrow> DeployInstruction \<Rightarrow> watchEvent \<Rightarrow> pubsubLogger \<Rightarrow> pubsubLogger" where
  "listenForEvents io msg event p = (case event of
      WatchAdded e \<Rightarrow>
        if ke_Type e \<noteq> ''Error'' \<and> ke_Type e \<noteq> ''Warning'' then p
        else if strings_Contains (ke_ObjectName e) (mi_Name msg) then AddEvent io e p else p
    | WatchAddedOther \<Rightarrow> p
    | WatchOther \<Rightarrow> p)"

text \<open>
  One step. \<open>Run\<close> is one goroutine: it takes no new lines before it has published the last ones, and none after it saw that the log
  is closed; a tick may still be chosen after the log was closed. A step that its goroutine cannot make now does nothing.
\<close>

definition activity_step :: "naisd_io \<Rightarrow> DeployInstruction \<Rightarrow> bool \<Rightarrow> activity \<Rightarrow> pubsubLogger \<times> agent \<Rightarrow> pubsubLogger \<times> agent" where
  "activity_step io msg listening act pa = (case pa of (p, a) \<Rightarrow>
     (case act of
        Output b \<Rightarrow> (logger_Write io b p, a)
      | Watched e \<Rightarrow> if listening then (listenForEvents io msg e p, a) else (p, a)
      | Tick \<Rightarrow>
          if pl_run p = None \<and> \<not> pl_runDone p then (case Publish_take p of (lines, p) \<Rightarrow> (p \<lparr>pl_run := lines\<rparr>, a)) else (p, a)
      | RunClosed \<Rightarrow>
          if pl_closed p \<and> pl_run p = None \<and> \<not> pl_runDone p
          then (case Publish_take p of (lines, p) \<Rightarrow> (p \<lparr>pl_run := lines, pl_runDone := True\<rparr>, a)) else (p, a)
      | SendRun \<Rightarrow> (case pl_run p of
            Some lines \<Rightarrow> (p \<lparr>pl_run := None\<rparr>, snd (Publish_send io (pl_diid p) lines a)) | None \<Rightarrow> (p, a))
      | CloseTake \<Rightarrow>
          if pl_closed p \<and> pl_close p = None \<and> \<not> pl_closeDone p
          then (case Publish_take p of (lines, p) \<Rightarrow> (p \<lparr>pl_close := lines, pl_closeDone := True\<rparr>, a)) else (p, a)
      | SendClose \<Rightarrow> (case pl_close p of
            Some lines \<Rightarrow> (p \<lparr>pl_close := None\<rparr>, snd (Publish_send io (pl_diid p) lines a)) | None \<Rightarrow> (p, a))))"

text \<open>
  Closing the log: the channel is closed, and the steps of \<open>Run\<close>, \<open>Close\<close> and what still writes follow in the order the
  parameters choose, until both publishers are done. The handler waits for \<open>Close\<close> only; what \<open>Run\<close> publishes after the handler has
  returned is counted here all the same.
\<close>

definition logger_Close :: "naisd_io \<Rightarrow> DeployInstruction \<Rightarrow> bool \<Rightarrow> pubsubLogger \<times> agent \<Rightarrow> agent" where
  "logger_Close io msg listening pa = (case pa of (p, a) \<Rightarrow>
     snd (fold (activity_step io msg listening) (ni_closing io msg @ [CloseTake, SendClose, SendRun, RunClosed, SendRun])
       (p \<lparr>pl_closed := True\<rparr>, a)))"

definition connectionFlags :: "DeployManager \<Rightarrow> string list" where
  "connectionFlags d = [''--kube-apiserver'', dm_kubeHost d, ''--kube-ca-file'', dm_kubeCAFile d, ''--kube-token'', dm_kubeToken d]"

definition runHelm :: "DeployManager \<Rightarrow> naisd_io \<Rightarrow> DeployInstruction \<Rightarrow> bool \<Rightarrow> string list \<Rightarrow> pubsubLogger \<times> agent \<Rightarrow>
    err option \<times> pubsubLogger \<times> agent" where
  "runHelm d io msg listening args pa =
     (let helmArgs = args @ connectionFlags d;
          helmArgs = (if dm_debug d then helmArgs @ [''--debug''] else helmArgs)
      in case ni_execute io helmArgs of (acts, res) \<Rightarrow>
         (case fold (activity_step io msg listening) acts pa of (p, a) \<Rightarrow> (res, p, a \<lparr>ag_helm := ag_helm a @ [helmArgs]\<rparr>)))"

definition namespaceFor :: "string \<Rightarrow> string" where
  "namespaceFor featureName = (if strings_HasPrefix featureName ''kyverno'' then ''kyverno'' else ''nais-system'')"

definition helm_timeout :: "duration \<Rightarrow> duration" where
  "helm_timeout t = (if t > 10 * second then t else 5 * minute)"

definition helmUpgradeArgs :: "DeployInstruction \<Rightarrow> string \<Rightarrow> string \<Rightarrow> string list" where
  "helmUpgradeArgs m namespace valuesFile =
     [''upgrade'', ''--atomic'', ''--cleanup-on-fail'', ''--history-max'', ''10'', ''--install'', mi_Name m, mi_Chart m,
      ''--namespace'', namespace, ''--create-namespace'', ''--version'', mi_Version m, ''-f'', valuesFile,
      ''--timeout'', Duration_String (helm_timeout (mi_Timeout m))]"

definition uninstallArgs :: "DeployInstruction \<Rightarrow> string list" where
  "uninstallArgs msg = [''uninstall'', ''--namespace'', namespaceFor (mi_Name msg),
     ''--timeout'', Duration_String (helm_timeout (mi_Timeout msg)), mi_Name msg]"

definition makeHelmValues :: "naisd_io \<Rightarrow> DeployInstruction \<Rightarrow> agent \<Rightarrow> (err + string) \<times> agent" where
  "makeHelmValues io m a = (case ni_tempFile io of
      Inl e \<Rightarrow> (Inl e, a)
    | Inr name \<Rightarrow>
        let a = a \<lparr>ag_files := name # ag_files a\<rparr>
        in case ni_encodeYAML io (mi_Values m) of Some e \<Rightarrow> (Inl e, a) | None \<Rightarrow> (Inr name, a))"

section \<open>Handling an instruction\<close>

definition publishStatus :: "DeployManager \<Rightarrow> naisd_io \<Rightarrow> Helm \<Rightarrow> agent \<Rightarrow> err option \<times> agent" where
  "publishStatus d io msg a = (case ni_marshalHelm io msg of
      Inl e \<Rightarrow> (Some e, a)
    | Inr b \<Rightarrow> publish io \<lparr>st_Tenant = dm_tenantName d, st_Environment = dm_env d, st_Type = StatusTypeHelm, st_Data = b\<rparr> a)"

definition helm_status :: "DeployInstruction \<Rightarrow> DeployStatus \<Rightarrow> string \<Rightarrow> Helm" where
  "helm_status msg st e = \<lparr>h_DIID = mi_ID msg, h_Name = [], h_Version = [], h_RolloutStatus = st, h_ConfigHash = mi_ConfigHash msg,
     h_Log = [], h_Error = e\<rparr>"

definition uninstallHandler :: "DeployManager \<Rightarrow> naisd_io \<Rightarrow> DeployInstruction \<Rightarrow> agent \<Rightarrow> err option \<times> agent" where
  "uninstallHandler d io msg a =
     (if mi_Name msg = ''naisd'' \<or> mi_Name msg = ''fasitd'' \<or> mi_Name msg = [] then (None, a)
      else case runHelm d io msg False (uninstallArgs msg) (newPubsubLogger (mi_ID msg), a) of
        (res, p, a) \<Rightarrow> (res, logger_Close io msg False (p, republish d io a)))"

text \<open>From the count of running deployments on: the values file, the two reports and the Helm run between them.\<close>

definition run_deploy :: "DeployManager \<Rightarrow> naisd_io \<Rightarrow> DeployInstruction \<Rightarrow> pubsubLogger \<times> agent \<Rightarrow> err option \<times> agent" where
  "run_deploy d io msg pa = (case pa of (p, a) \<Rightarrow>
     (case makeHelmValues io msg (a \<lparr>ag_inProgress := lockedInt_Inc (ag_inProgress a)\<rparr>) of
        (Inl e, a) \<Rightarrow>
          let a = a \<lparr>ag_inProgress := lockedInt_Dec (ag_inProgress a)\<rparr> in (Some e, logger_Close io msg False (p, a))
      | (Inr valuesFile, a) \<Rightarrow>
          let args = helmUpgradeArgs msg (namespaceFor (mi_Name msg)) valuesFile;
              a = snd (publishStatus d io (helm_status msg DeployStatusInstalling []) a)
          in (case runHelm d io msg True args (p, a) of (res, p, a) \<Rightarrow>
             let st = (case res of Some e \<Rightarrow> helm_status msg DeployStatusFailed (Error e)
                                 | None \<Rightarrow> helm_status msg DeployStatusDeployed [])
             in (case publishStatus d io st (republish d io a) of (r, a) \<Rightarrow>
                let a = a \<lparr>ag_files := remove1 valuesFile (ag_files a), ag_inProgress := lockedInt_Dec (ag_inProgress a)\<rparr>
                in (r, logger_Close io msg True (p, a))))))"

definition postponed_line :: "int \<Rightarrow> string" where
  "postponed_line n = ''Postponing naisd upgrade, '' @ digits (nat n) @ '' deployments in progress'' @ [CHR ''\<newline>'']"

definition errPostpone :: err where
  "errPostpone = Wrap ''postpone'' ErrNack"

definition naisd_handler :: "DeployManager \<Rightarrow> naisd_io \<Rightarrow> DeployInstruction \<Rightarrow> agent \<Rightarrow> err option \<times> agent" where
  "naisd_handler d io msg a =
     (if mi_Uninstall msg then uninstallHandler d io msg a
      else
        let p = newPubsubLogger (mi_ID msg)
        in if mi_Name msg = ''naisd'' \<and> \<not> dm_performNaisdUpgrades d
           then if ag_inProgress a > 0
                then if ag_lastChecked a + 15 * second < ni_now io
                     then (Some errPostpone, logger_Close io msg False (logger_Write io (postponed_line (ag_inProgress a)) p, a \<lparr>ag_lastChecked := ni_now io\<rparr>))
                     else (Some errPostpone, logger_Close io msg False (p, a))
                else if dm_mockExecutor d
                then run_deploy d io msg (logger_Write io (''MockExecutor, not starting regular naisd upgrade'' @ [CHR ''\<newline>'']) p, a)
                else (case StartJob d io msg a of
                    (Some e, a) \<Rightarrow> (Some e, logger_Close io msg False (p, a))
                  | (None, a) \<Rightarrow> (Some ErrRestartRequired, logger_Close io msg False (p, a \<lparr>ag_stopped := True\<rparr>)))
           else run_deploy d io msg (p, a))"

text \<open>The upgrade job reads its instruction from the mounted secret and handles it with upgrades allowed.\<close>

definition Upgrade :: "DeployManager \<Rightarrow> naisd_io \<Rightarrow> err + DeployInstruction \<Rightarrow> agent \<Rightarrow> err option \<times> agent" where
  "Upgrade d io instruction a = (case instruction of
      Inl e \<Rightarrow> (Some (Wrap ''naisd.Upgrade: unable to get instruction from file'' e), a)
    | Inr msg \<Rightarrow> naisd_handler (d \<lparr>dm_performNaisdUpgrades := True\<rparr>) io msg a)"

section \<open>The subscription\<close>

text \<open>
  A delivered message is acknowledged or refused once; what later calls do is the broker's \<open>settle\<close> (the state of the
  message before, whether this call acknowledges, the state after).
\<close>

definition ForceAck :: "(bool option \<Rightarrow> bool \<Rightarrow> bool option) \<Rightarrow> bool option \<Rightarrow> bool option" where
  "ForceAck settle st = settle st True"

definition subscriber_receive ::
  "(bool option \<Rightarrow> bool \<Rightarrow> bool option) \<Rightarrow> (string \<Rightarrow> 'm option) \<Rightarrow>
   ('m \<Rightarrow> bool option \<times> 's \<Rightarrow> err option \<times> bool option \<times> 's) \<Rightarrow> string \<Rightarrow> 's \<Rightarrow> bool option \<times> 's" where
  "subscriber_receive settle decode f data s = (case decode data of
      None \<Rightarrow> (settle None True, s)
    | Some t \<Rightarrow> (case f t (None, s) of
          (Some e, st, s') \<Rightarrow> (settle st False, s')
        | (None, st, s') \<Rightarrow> (settle st True, s')))"

definition deploy_handler ::
  "(bool option \<Rightarrow> bool \<Rightarrow> bool option) \<Rightarrow> DeployManager \<Rightarrow> naisd_io \<Rightarrow> DeployInstruction \<Rightarrow> bool option \<times> agent \<Rightarrow>
   err option \<times> bool option \<times> agent" where
  "deploy_handler settle d io msg sa = (case sa of (st, a) \<Rightarrow>
     let st = ForceAck settle st in (case naisd_handler d io msg a of (r, a) \<Rightarrow> (r, st, a)))"

section \<open>What runs beside Helm\<close>

text \<open>Reports of other kinds than a deploy report may be added; nothing else of the agent changes.\<close>

definition quiet :: "agent \<Rightarrow> agent \<Rightarrow> bool" where
  "quiet a a' \<longleftrightarrow> (\<exists>ss. a' = a \<lparr>ag_statuses := ag_statuses a @ ss\<rparr> \<and> list_all (\<lambda>s. st_Type s \<noteq> StatusTypeHelm) ss)"

named_theorems quiet_rules "operations that add no deploy report"

lemma quiet_refl [quiet_rules, simp]: "quiet a a"
  by (auto simp: quiet_def intro!: exI [of _ "[]"])

lemma quiet_trans: "quiet a b \<Longrightarrow> quiet b c \<Longrightarrow> quiet a c"
proof -
  assume "quiet a b" and "quiet b c"
  then obtain ss ss' where "b = a \<lparr>ag_statuses := ag_statuses a @ ss\<rparr>" "list_all (\<lambda>s. st_Type s \<noteq> StatusTypeHelm) ss"
    "c = b \<lparr>ag_statuses := ag_statuses b @ ss'\<rparr>" "list_all (\<lambda>s. st_Type s \<noteq> StatusTypeHelm) ss'"
    by (auto simp: quiet_def)
  then show ?thesis unfolding quiet_def by (intro exI [of _ "ss @ ss'"]) simp
qed

lemma StatusType_neq [simp]:
  "StatusTypeLog \<noteq> StatusTypeHelm" "StatusTypeHelmReleases \<noteq> StatusTypeHelm" "StatusTypeHealth \<noteq> StatusTypeHelm"
  "StatusTypeHelm \<noteq> StatusTypeLog" "StatusTypeHelmReleases \<noteq> StatusTypeLog"
  by (simp_all add: StatusType_defs)

lemma quiet_publish: "st_Type s \<noteq> StatusTypeHelm \<Longrightarrow> quiet a (snd (publish io s a))"
proof (cases "ni_publish io s")
  case None
  moreover assume "st_Type s \<noteq> StatusTypeHelm"
  ultimately show ?thesis by (auto simp: publish_def quiet_def intro!: exI [of _ "[s]"])
qed (simp add: publish_def)

lemma quiet_Publish_send [quiet_rules]: "quiet a (snd (Publish_send io diid lines a))"
  unfolding Publish_send_def by (auto split: sum.split intro: quiet_publish)

lemma quiet_activity [quiet_rules]: "quiet (snd pa) (snd (activity_step io msg listening act pa))"
  by (auto simp: activity_step_def quiet_Publish_send split: prod.split activity.split option.split)

lemma quiet_activities [quiet_rules]: "quiet (snd pa) (snd (fold (activity_step io msg listening) acts pa))"
proof (induction acts arbitrary: pa)
  case (Cons act acts)
  show ?case using quiet_trans [OF quiet_activity Cons.IH, of pa io msg listening act] by simp
qed simp

lemma quiet_logger_Close [quiet_rules]: "quiet a (logger_Close io msg listening (p, a))"
  using quiet_activities [of "(p \<lparr>pl_closed := True\<rparr>, a)"] by (auto simp: logger_Close_def simp del: fold_append)

lemma quiet_republish [quiet_rules]: "quiet a (republish d io a)"
proof -
  have "quiet a (snd (publish io \<lparr>st_Tenant = dm_tenantName d, st_Environment = dm_env d, st_Type = StatusTypeHelmReleases, st_Data = b\<rparr> a))" for b
    by (rule quiet_publish) simp
  then show ?thesis by (auto simp: republish_def Trigger_def StatusReporter_Run_def split: sum.split)
qed

definition helm_reports :: "agent \<Rightarrow> Status list" where
  "helm_reports a = filter (\<lambda>s. st_Type s = StatusTypeHelm) (ag_statuses a)"

lemma quiet_keeps:
  assumes "quiet a a'"
  shows "helm_reports a' = helm_reports a" "ag_helm a' = ag_helm a" "ag_files a' = ag_files a" "ag_inProgress a' = ag_inProgress a"
    "ag_jobs a' = ag_jobs a" "ag_secrets a' = ag_secrets a" "ag_stopped a' = ag_stopped a"
proof -
  obtain ss where ss: "a' = a \<lparr>ag_statuses := ag_statuses a @ ss\<rparr>" "list_all (\<lambda>s. st_Type s \<noteq> StatusTypeHelm) ss"
    using assms by (auto simp: quiet_def)
  then have "filter (\<lambda>s. st_Type s = StatusTypeHelm) ss = []" by (auto simp: filter_empty_conv list_all_iff)
  then show "helm_reports a' = helm_reports a" using ss(1) by (simp add: helm_reports_def)
  show "ag_helm a' = ag_helm a" "ag_files a' = ag_files a" "ag_inProgress a' = ag_inProgress a"
    "ag_jobs a' = ag_jobs a" "ag_secrets a' = ag_secrets a" "ag_stopped a' = ag_stopped a" using ss(1) by simp_all
qed

section \<open>A Helm run\<close>

definition helm_args :: "DeployManager \<Rightarrow> string list \<Rightarrow> string list" where
  "helm_args d args = args @ connectionFlags d @ (if dm_debug d then [''--debug''] else [])"

lemma runHelm_result:
  assumes "runHelm d io msg listening args (p, a) = (res, p', a')"
  shows "res = snd (ni_execute io (helm_args d args))"
    and "\<exists>a1. quiet a a1 \<and> a' = a1 \<lparr>ag_helm := ag_helm a1 @ [helm_args d args]\<rparr>"
proof -
  obtain acts r where e: "ni_execute io (helm_args d args) = (acts, r)" by fastforce
  obtain p1 a1 where f: "fold (activity_step io msg listening) acts (p, a) = (p1, a1)" by fastforce
  have "quiet a a1" using quiet_activities [of "(p, a)" io msg listening acts] f by simp
  moreover have "runHelm d io msg listening args (p, a) = (r, p1, a1 \<lparr>ag_helm := ag_helm a1 @ [helm_args d args]\<rparr>)"
    using e f by (auto simp: runHelm_def helm_args_def Let_def)
  ultimately show "res = snd (ni_execute io (helm_args d args))"
    and "\<exists>a1. quiet a a1 \<and> a' = a1 \<lparr>ag_helm := ag_helm a1 @ [helm_args d args]\<rparr>"
    using assms e by auto
qed

lemma lockedInt_Dec_Inc: "0 \<le> v \<Longrightarrow> lockedInt_Dec (lockedInt_Inc v) = v"
  by (simp add: lockedInt_Dec_def lockedInt_Inc_def)

definition helm_report :: "DeployManager \<Rightarrow> naisd_io \<Rightarrow> Helm \<Rightarrow> Status" where
  "helm_report d io h = \<lparr>st_Tenant = dm_tenantName d, st_Environment = dm_env d, st_Type = StatusTypeHelm,
     st_Data = (case ni_marshalHelm io h of Inr b \<Rightarrow> b | Inl _ \<Rightarrow> [])\<rparr>"

definition final_status :: "naisd_io \<Rightarrow> DeployInstruction \<Rightarrow> string list \<Rightarrow> Helm" where
  "final_status io msg args = (case snd (ni_execute io args) of
      Some e \<Rightarrow> helm_status msg DeployStatusFailed (Error e) | None \<Rightarrow> helm_status msg DeployStatusDeployed [])"

text \<open>Nothing between the agent and the broker fails.\<close>

definition delivers :: "naisd_io \<Rightarrow> bool" where
  "delivers io \<longleftrightarrow> (\<forall>s. ni_publish io s = None) \<and> (\<forall>h. \<not> isl (ni_marshalHelm io h))"

lemma publishStatus_delivers:
  "delivers io \<Longrightarrow> publishStatus d io h a = (None, a \<lparr>ag_statuses := ag_statuses a @ [helm_report d io h]\<rparr>)"
proof -
  assume "delivers io"
  then have "\<not> isl (ni_marshalHelm io h)" "ni_publish io s = None" for s by (simp_all add: delivers_def)
  then show ?thesis by (cases "ni_marshalHelm io h") (simp_all add: publishStatus_def helm_report_def publish_def)
qed

text \<open>The deploy itself: one Helm run between two reports, and the agent otherwise as it was.\<close>

lemma run_deploy_result:
  assumes "delivers io" and "ni_tempFile io = Inr f" and "ni_encodeYAML io (mi_Values msg) = None" and "0 \<le> ag_inProgress a"
    and "args = helm_args d (helmUpgradeArgs msg (namespaceFor (mi_Name msg)) f)"
  shows "fst (run_deploy d io msg (p, a)) = None"
    and "helm_reports (snd (run_deploy d io msg (p, a))) =
      helm_reports a @ [helm_report d io (helm_status msg DeployStatusInstalling []), helm_report d io (final_status io msg args)]"
    and "ag_helm (snd (run_deploy d io msg (p, a))) = ag_helm a @ [args]"
    and "ag_files (snd (run_deploy d io msg (p, a))) = ag_files a"
    and "ag_inProgress (snd (run_deploy d io msg (p, a))) = ag_inProgress a"
proof -
  let ?up = "helmUpgradeArgs msg (namespaceFor (mi_Name msg)) f"
  define a0 where "a0 = a \<lparr>ag_inProgress := lockedInt_Inc (ag_inProgress a), ag_files := f # ag_files a,
    ag_statuses := ag_statuses a @ [helm_report d io (helm_status msg DeployStatusInstalling [])]\<rparr>"
  obtain res p1 a1 where run: "runHelm d io msg True ?up (p, a0) = (res, p1, a1)" by (metis surj_pair)
  obtain b where b: "quiet a0 b" "a1 = b \<lparr>ag_helm := ag_helm b @ [args]\<rparr>"
    using runHelm_result(2) [OF run] assms(5) by blast
  have res: "res = snd (ni_execute io args)" using runHelm_result(1) [OF run] assms(5) by simp
  define c where "c = republish d io a1"
  have c: "quiet a1 c" unfolding c_def by (rule quiet_republish)
  define e where "e = c \<lparr>ag_statuses := ag_statuses c @ [helm_report d io (final_status io msg args)],
     ag_files := remove1 f (ag_files c), ag_inProgress := lockedInt_Dec (ag_inProgress c)\<rparr>"
  have rd: "run_deploy d io msg (p, a) = (None, logger_Close io msg True (p1, e))"
    using run assms(2,3) publishStatus_delivers [OF assms(1)] unfolding run_deploy_def makeHelmValues_def
    by (simp add: Let_def a0_def e_def c_def res final_status_def split: option.split)
  have q: "quiet e (logger_Close io msg True (p1, e))" by (rule quiet_logger_Close)
  show "fst (run_deploy d io msg (p, a)) = None" by (simp add: rd)
  note keeps = quiet_keeps [OF q] quiet_keeps [OF c] quiet_keeps [OF b(1)]
  have hr: "st_Type (helm_report d io h) = StatusTypeHelm" for h by (simp add: helm_report_def)
  have "helm_reports e = helm_reports c @ [helm_report d io (final_status io msg args)]" by (simp add: helm_reports_def e_def hr)
  moreover have "helm_reports a1 = helm_reports b" by (simp add: b(2) helm_reports_def)
  moreover have "helm_reports a0 = helm_reports a @ [helm_report d io (helm_status msg DeployStatusInstalling [])]"
    by (simp add: helm_reports_def a0_def hr)
  ultimately show "helm_reports (snd (run_deploy d io msg (p, a))) =
      helm_reports a @ [helm_report d io (helm_status msg DeployStatusInstalling []), helm_report d io (final_status io msg args)]"
    using keeps by (simp add: rd)
  show "ag_helm (snd (run_deploy d io msg (p, a))) = ag_helm a @ [args]"
    "ag_files (snd (run_deploy d io msg (p, a))) = ag_files a" "ag_inProgress (snd (run_deploy d io msg (p, a))) = ag_inProgress a"
    using keeps assms(4) by (simp_all add: rd e_def b(2) a0_def lockedInt_Dec_Inc)
qed

text \<open>
  C8. The life of an instruction in the agent: a deploy instruction, other than an upgrade of the agent itself outside the upgrade
  job, leads to exactly one Helm run, an upgrade of the named release to the named chart and version with the values written for it,
  between exactly two deploy reports, whatever else is reported beside them: first installing, then deployed when Helm succeeded and
  failed with the error when it did not, both with the identifier and the hash of the instruction. The values file is removed and
  the count of running deployments is what it was.
\<close>

theorem deploy_lifecycle:
  assumes "delivers io" and "ni_tempFile io = Inr f" and "ni_encodeYAML io (mi_Values msg) = None" and "0 \<le> ag_inProgress a"
    and "\<not> mi_Uninstall msg" and "mi_Name msg = ''naisd'' \<Longrightarrow> dm_performNaisdUpgrades d"
    and "args = helm_args d (helmUpgradeArgs msg (namespaceFor (mi_Name msg)) f)" and "naisd_handler d io msg a = (r, a')"
  shows "r = None \<and> ag_helm a' = ag_helm a @ [args] \<and> ag_files a' = ag_files a \<and> ag_inProgress a' = ag_inProgress a \<and>
    helm_reports a' = helm_reports a @ map (helm_report d io) [helm_status msg DeployStatusInstalling [],
      case snd (ni_execute io args) of Some e \<Rightarrow> helm_status msg DeployStatusFailed (Error e) | None \<Rightarrow> helm_status msg DeployStatusDeployed []]"
proof -
  have "naisd_handler d io msg a = run_deploy d io msg (newPubsubLogger (mi_ID msg), a)"
    using assms(5,6) by (auto simp: naisd_handler_def Let_def)
  then have eq: "run_deploy d io msg (newPubsubLogger (mi_ID msg), a) = (r, a')" using assms(8) by simp
  show ?thesis
    using run_deploy_result [OF assms(1-4) assms(7), of "newPubsubLogger (mi_ID msg)"] unfolding eq
    by (simp add: final_status_def)
qed

definition example_manager :: DeployManager where
  "example_manager = \<lparr>dm_env = ''prod'', dm_tenantName = ''acme'', dm_kubeHost = [], dm_kubeCAFile = [], dm_kubeToken = [],
     dm_naisProjectID = [], dm_mockExecutor = False, dm_debug = False, dm_performNaisdUpgrades = False, dm_RepublishHelmList = True\<rparr>"

definition example_instruction :: DeployInstruction where
  "example_instruction = \<lparr>mi_ID = 100, mi_Name = ''loki'', mi_Version = ''1'', mi_Chart = ''oci://charts/loki'',
     mi_ConfigHash = ''1oci://charts/loki'', mi_Timeout = 0, mi_Values = example_values, mi_Uninstall = False\<rparr>"

text \<open>An agent whose Helm always succeeds, and encoders that keep the status of a report.\<close>

definition example_naisd :: naisd_io where
  "example_naisd = \<lparr>ni_now = 1000, ni_tempFile = Inr ''values.yaml'', ni_encodeYAML = \<lambda>_. None,
     ni_execute = \<lambda>args. ([Output ''installing'', Tick, SendRun, Output ''done''], None), ni_closing = \<lambda>_. [], ni_publish = \<lambda>_. None,
     ni_marshalHelm = \<lambda>h. Inr (h_RolloutStatus h), ni_marshalLog = \<lambda>l. Inr (concat (map ll_Msg (sl_Logs l))),
     ni_marshalReleases = \<lambda>_. Inr [], ni_marshalHealth = \<lambda>_. Inr [], ni_list = Inr [],
     ni_helm = \<lparr>hm_download = \<lambda>_ _. Inr [], hm_load = \<lambda>_. Inl ErrNoRows, hm_process = Inr, hm_decode = \<lambda>_. Inl ErrNoRows\<rparr>,
     ni_marshal = \<lambda>_. Inr [], ni_unmarshalString = \<lambda>_. None, ni_suffix = [], ni_hostname = Inr [],
     ni_pod = \<lambda>_. Inl ErrNoRows, ni_createJob = \<lambda>_. Inr [], ni_encodeInstruction = \<lambda>_. Inr [], ni_createSecret = \<lambda>_. None\<rparr>"

definition idle_agent :: agent where
  "idle_agent = \<lparr>ag_inProgress = 0, ag_lastChecked = 0, ag_statuses = [], ag_helm = [], ag_files = [], ag_jobs = [], ag_secrets = [],
     ag_stopped = False\<rparr>"

lemma example_delivers: "delivers example_naisd"
  by (simp add: delivers_def example_naisd_def)

theorem deploy_lifecycle_witness:
  "map st_Data (helm_reports (snd (naisd_handler example_manager example_naisd example_instruction idle_agent))) =
     [DeployStatusInstalling, DeployStatusDeployed]"
proof -
  obtain r a' where h: "naisd_handler example_manager example_naisd example_instruction idle_agent = (r, a')" by fastforce
  have "helm_reports a' = helm_reports idle_agent @ map (helm_report example_manager example_naisd)
      [helm_status example_instruction DeployStatusInstalling [], helm_status example_instruction DeployStatusDeployed []]"
    using deploy_lifecycle [OF example_delivers _ _ _ _ _ refl h, of "''values.yaml''"]
    by (simp add: example_naisd_def example_instruction_def idle_agent_def)
  then show ?thesis using h by (simp add: helm_reports_def idle_agent_def helm_report_def example_naisd_def helm_status_def)
qed

section \<open>The log of an instruction is complete\<close>

text \<open>The lines that a step adds.\<close>

definition activity_lines :: "naisd_io \<Rightarrow> DeployInstruction \<Rightarrow> bool \<Rightarrow> activity \<Rightarrow> LogLine list" where
  "activity_lines io msg listening act = (case act of
      Output b \<Rightarrow> pl_lines (logger_Write io b (newPubsubLogger 0))
    | Watched e \<Rightarrow> if listening then pl_lines (listenForEvents io msg e (newPubsubLogger 0)) else []
    | _ \<Rightarrow> [])"

definition lines_of :: "naisd_io \<Rightarrow> DeployInstruction \<Rightarrow> bool \<Rightarrow> activity list \<Rightarrow> LogLine list" where
  "lines_of io msg listening acts = concat (map (activity_lines io msg listening) acts)"

definition log_reports :: "agent \<Rightarrow> Status list" where
  "log_reports a = filter (\<lambda>s. st_Type s = StatusTypeLog) (ag_statuses a)"

definition log_report :: "naisd_io \<Rightarrow> uuid \<Rightarrow> LogLine list \<Rightarrow> Status" where
  "log_report io diid lines = \<lparr>st_Tenant = [], st_Environment = [], st_Type = StatusTypeLog,
     st_Data = (case ni_marshalLog io \<lparr>sl_DIID = diid, sl_Logs = lines\<rparr> of Inr b \<Rightarrow> b | Inl _ \<Rightarrow> [])\<rparr>"

text \<open>The encoder and the broker accept a batch.\<close>

definition log_accepted :: "naisd_io \<Rightarrow> uuid \<Rightarrow> LogLine list \<Rightarrow> bool" where
  "log_accepted io diid lines \<longleftrightarrow> \<not> isl (ni_marshalLog io \<lparr>sl_DIID = diid, sl_Logs = lines\<rparr>) \<and> ni_publish io (log_report io diid lines) = None"

lemma log_reports_Publish_send:
  "log_reports (snd (Publish_send io diid lines a)) =
     log_reports a @ map (log_report io diid) (filter (log_accepted io diid) [lines])"
  by (auto simp: Publish_send_def log_accepted_def log_report_def publish_def log_reports_def split: sum.split option.split)

lemma log_reports_other:
  "st_Type s \<noteq> StatusTypeLog \<Longrightarrow> log_reports (snd (publish io s a)) = log_reports a"
  by (auto simp: publish_def log_reports_def split: option.split)

lemma log_reports_beside:
  "log_reports (snd (publishStatus d io h a)) = log_reports a" "log_reports (republish d io a) = log_reports a"
  by (auto simp: publishStatus_def republish_def Trigger_def StatusReporter_Run_def log_reports_other split: sum.split)

text \<open>
  Batches are tagged with who took them, \<open>True\<close> for \<open>Run\<close>; \<open>held\<close> is what a publisher took and has not sent. Between two states
  of the log, the batches \<open>taken\<close> cut the lines in the order they were written into pieces, and each publisher sent what it took in order.
\<close>

definition held :: "pubsubLogger \<Rightarrow> bool \<Rightarrow> (bool \<times> LogLine list) list" where
  "held p who = (case (if who then pl_run p else pl_close p) of None \<Rightarrow> [] | Some lines \<Rightarrow> [(who, lines)])"

abbreviation taken_by :: "bool \<Rightarrow> (bool \<times> LogLine list) list \<Rightarrow> (bool \<times> LogLine list) list" where
  "taken_by who bs \<equiv> filter (\<lambda>b. fst b = who) bs"

definition accounted ::
  "naisd_io \<Rightarrow> (bool \<times> LogLine list) list \<Rightarrow> (bool \<times> LogLine list) list \<Rightarrow> LogLine list \<Rightarrow> pubsubLogger \<times> agent \<Rightarrow> pubsubLogger \<times> agent \<Rightarrow> bool" where
  "accounted io taken sent new pa pa' \<longleftrightarrow> pl_diid (fst pa') = pl_diid (fst pa) \<and>
     pl_lines (fst pa) @ new = concat (map snd taken) @ pl_lines (fst pa') \<and>
     (\<forall>who. held (fst pa) who @ taken_by who taken = taken_by who sent @ held (fst pa') who) \<and>
     length (taken_by False taken) + of_bool (pl_closeDone (fst pa)) \<le> (of_bool (pl_closeDone (fst pa')) :: nat) \<and>
     list_all (\<lambda>b. snd b \<noteq> []) taken \<and>
     log_reports (snd pa') =
       log_reports (snd pa) @ map (log_report io (pl_diid (fst pa))) (filter (log_accepted io (pl_diid (fst pa))) (map snd sent))"

lemma accounted_trans:
  assumes "accounted io taken sent new pa pb" and "accounted io taken' sent' new' pb pc"
  shows "accounted io (taken @ taken') (sent @ sent') (new @ new') pa pc"
proof -
  have "held (fst pa) who @ taken_by who (taken @ taken') = taken_by who (sent @ sent') @ held (fst pc) who" for who
  proof -
    have "held (fst pa) who @ taken_by who taken = taken_by who sent @ held (fst pb) who"
      and "held (fst pb) who @ taken_by who taken' = taken_by who sent' @ held (fst pc) who"
      using assms unfolding accounted_def by blast+
    then show ?thesis by (metis append.assoc filter_append)
  qed
  moreover have "pl_lines (fst pa) @ new @ new' = concat (map snd (taken @ taken')) @ pl_lines (fst pc)"
    using assms unfolding accounted_def by (metis append.assoc concat_append map_append)
  ultimately show ?thesis using assms by (simp add: accounted_def)
qed

lemmas step_simps = activity_step_def activity_lines_def accounted_def Publish_take_def Let_def held_def

lemma activity_accounted:
  "\<exists>taken sent. accounted io taken sent (activity_lines io msg listening act) pa (activity_step io msg listening act pa)"
proof -
  obtain p a where pa: "pa = (p, a)" by fastforce
  define got where "got = (if pl_lines p = [] then [] else [pl_lines p])"
  have idle: "accounted io [] [] [] (p, a) (p, a)" by (simp add: accounted_def)
  show ?thesis
  proof (cases act)
    case (Output b)
    then show ?thesis unfolding pa
      by (intro exI [of _ "[]"]) (simp add: step_simps logger_Write_def newPubsubLogger_def)
  next
    case (Watched e)
    then show ?thesis unfolding pa
      by (intro exI [of _ "[]"]) (simp add: step_simps listenForEvents_def AddEvent_def newPubsubLogger_def split: watchEvent.split)
  next
    case Tick
    then have "accounted io (if pl_run p = None \<and> \<not> pl_runDone p then map (Pair True) got else []) []
        (activity_lines io msg listening act) (p, a) (activity_step io msg listening act (p, a))"
      by (auto simp: step_simps got_def)
    then show ?thesis unfolding pa by blast
  next
    case RunClosed
    then have "accounted io (if pl_closed p \<and> pl_run p = None \<and> \<not> pl_runDone p then map (Pair True) got else []) []
        (activity_lines io msg listening act) (p, a) (activity_step io msg listening act (p, a))"
      by (auto simp: step_simps got_def)
    then show ?thesis unfolding pa by blast
  next
    case SendRun
    then have "accounted io [] (held p True) (activity_lines io msg listening act) (p, a) (activity_step io msg listening act (p, a))"
      by (auto simp: step_simps log_reports_Publish_send split: option.split)
    then show ?thesis unfolding pa by blast
  next
    case CloseTake
    then have "accounted io (if pl_closed p \<and> pl_close p = None \<and> \<not> pl_closeDone p then map (Pair False) got else []) []
        (activity_lines io msg listening act) (p, a) (activity_step io msg listening act (p, a))"
      by (auto simp: step_simps got_def)
    then show ?thesis unfolding pa by blast
  next
    case SendClose
    then have "accounted io [] (held p False) (activity_lines io msg listening act) (p, a) (activity_step io msg listening act (p, a))"
      by (auto simp: step_simps log_reports_Publish_send split: option.split)
    then show ?thesis unfolding pa by blast
  qed
qed

lemma activities_accounted:
  "\<exists>taken sent. accounted io taken sent (lines_of io msg listening acts) pa (fold (activity_step io msg listening) acts pa)"
proof (induction acts arbitrary: pa)
  case Nil
  have "accounted io [] [] (lines_of io msg listening []) pa pa" by (simp add: accounted_def lines_of_def)
  then show ?case by auto
next
  case (Cons act acts)
  obtain taken sent where "accounted io taken sent (activity_lines io msg listening act) pa (activity_step io msg listening act pa)"
    using activity_accounted by blast
  moreover obtain taken' sent' where "accounted io taken' sent' (lines_of io msg listening acts) (activity_step io msg listening act pa)
      (fold (activity_step io msg listening) acts (activity_step io msg listening act pa))"
    using Cons.IH by blast
  ultimately show ?case using accounted_trans by (fastforce simp: lines_of_def)
qed

text \<open>Once a publisher has taken after the log was closed, what is left was written after the log was closed.\<close>

definition late :: "LogLine list \<Rightarrow> pubsubLogger \<Rightarrow> bool" where
  "late written p \<longleftrightarrow> pl_closed p \<and> (pl_runDone p \<or> pl_closeDone p \<longrightarrow> (\<exists>kept. written = kept @ pl_lines p))"

lemma late_step:
  "late written (fst pa) \<Longrightarrow> late (written @ activity_lines io msg listening act) (fst (activity_step io msg listening act pa))"
  by (cases pa; cases act)
    (auto simp: late_def activity_step_def activity_lines_def Publish_take_def Let_def logger_Write_def listenForEvents_def AddEvent_def newPubsubLogger_def
      split: option.split watchEvent.split)

lemma late_steps:
  "late written (fst pa) \<Longrightarrow> late (written @ lines_of io msg listening acts) (fst (fold (activity_step io msg listening) acts pa))"
proof (induction acts arbitrary: written pa)
  case (Cons act acts)
  then show ?case using late_step [OF Cons.prems, of io msg listening act] by (fastforce simp: lines_of_def)
qed (simp add: lines_of_def)

text \<open>The last steps leave nothing with the publishers, and nothing in the log unless both were done before.\<close>

lemma drained:
  assumes "fold (activity_step io msg listening) [CloseTake, SendClose, SendRun, RunClosed, SendRun] pa = (p, a)" and "pl_closed (fst pa)"
  shows "held p who = []" and "pl_runDone p"
  using assms by (cases pa; auto simp: activity_step_def Publish_take_def Let_def held_def split: if_splits option.splits)+

lemma accounted_closed: "accounted io taken sent new (p \<lparr>pl_closed := c\<rparr>, a) pb \<longleftrightarrow> accounted io taken sent new (p, a) pb"
  by (simp add: accounted_def held_def)

lemma logger_Close_accounted:
  assumes "\<not> pl_runDone p" and "\<not> pl_closeDone p"
  shows "\<exists>taken sent p'. accounted io taken sent (lines_of io msg listening (ni_closing io msg)) (p, a) (p', logger_Close io msg listening (p, a)) \<and>
    (\<forall>who. held p' who = []) \<and> (\<exists>kept. lines_of io msg listening (ni_closing io msg) = kept @ pl_lines p')"
proof -
  let ?step = "activity_step io msg listening" and ?W = "lines_of io msg listening (ni_closing io msg)"
  let ?drain = "[CloseTake, SendClose, SendRun, RunClosed, SendRun]"
  let ?q = "fold ?step (ni_closing io msg) (p \<lparr>pl_closed := True\<rparr>, a)"
  obtain p' a' where f: "fold ?step ?drain ?q = (p', a')" by fastforce
  then have close: "logger_Close io msg listening (p, a) = a'"
    by (auto simp: logger_Close_def simp del: fold_simps)
  have none: "lines_of io msg listening ?drain = []" by (simp add: lines_of_def activity_lines_def)
  have l: "late ?W (fst ?q)" using late_steps [of "[]" "(p \<lparr>pl_closed := True\<rparr>, a)"] assms by (simp add: late_def)
  then have "late ?W p'" using late_steps [OF l, of io msg listening ?drain] unfolding none f by simp
  moreover have "\<forall>who. held p' who = []" "pl_runDone p'" using drained [OF f] l unfolding late_def by auto
  ultimately have "\<forall>who. held p' who = []" "\<exists>kept. ?W = kept @ pl_lines p'" by (auto simp: late_def)
  moreover obtain taken sent where "accounted io taken sent (lines_of io msg listening (ni_closing io msg @ ?drain))
      (p \<lparr>pl_closed := True\<rparr>, a) (fold ?step (ni_closing io msg @ ?drain) (p \<lparr>pl_closed := True\<rparr>, a))"
    using activities_accounted by blast
  then have "accounted io taken sent ?W (p, a) (p', logger_Close io msg listening (p, a))"
    using f close none by (simp add: lines_of_def accounted_closed del: fold_simps)
  ultimately show ?thesis by blast
qed


text \<open>While the log is open, neither publisher is done.\<close>

definition log_open :: "pubsubLogger \<Rightarrow> bool" where
  "log_open p \<longleftrightarrow> \<not> pl_closed p \<and> \<not> pl_runDone p \<and> \<not> pl_closeDone p"

lemma log_open_steps:
  "log_open (fst pa) \<Longrightarrow> log_open (fst (fold (activity_step io msg listening) acts pa))"
proof (induction acts arbitrary: pa)
  case (Cons act acts)
  have "log_open (fst (activity_step io msg listening act pa))"
    using Cons.prems by (cases pa; cases act)
      (auto simp: log_open_def activity_step_def Publish_take_def Let_def logger_Write_def listenForEvents_def AddEvent_def
        split: option.split watchEvent.split)
  then show ?case using Cons.IH by simp
qed simp

lemma held_new [simp]: "held (newPubsubLogger diid) who = []"
  by (simp add: held_def newPubsubLogger_def)

lemma new_simps [simp]:
  "pl_diid (newPubsubLogger diid) = diid" "pl_lines (newPubsubLogger diid) = []" "\<not> pl_closeDone (newPubsubLogger diid)"
  by (simp_all add: newPubsubLogger_def)

text \<open>A Helm run and the closing of its log, with reports of other kinds in between.\<close>

lemma run_and_close_accounted:
  assumes "runHelm d io msg listening args (newPubsubLogger diid, a) = (res, p, a1)" and "log_reports b = log_reports a1"
    and "acts = fst (ni_execute io (helm_args d args))"
  shows "\<exists>taken sent lost. lines_of io msg listening (acts @ ni_closing io msg) = concat (map snd taken) @ lost \<and>
     (\<exists>kept. lines_of io msg listening (ni_closing io msg) = kept @ lost) \<and>
     (\<forall>who. taken_by who taken = taken_by who sent) \<and> length (taken_by False taken) \<le> 1 \<and> list_all (\<lambda>b. snd b \<noteq> []) taken \<and>
     log_reports (logger_Close io msg listening (p, b)) =
       log_reports a @ map (log_report io diid) (filter (log_accepted io diid) (map snd sent))"
proof -
  let ?new = "newPubsubLogger diid" and ?W = "lines_of io msg listening"
  obtain a0 where f: "fold (activity_step io msg listening) acts (?new, a) = (p, a0)" and a1: "log_reports a1 = log_reports a0"
    using assms(1,3) by (auto simp: runHelm_def helm_args_def Let_def log_reports_def split: prod.splits if_splits)
  obtain taken sent where ac: "accounted io taken sent (?W acts) (?new, a) (p, a0)"
    using activities_accounted [of io msg listening acts "(?new, a)"] unfolding f by blast
  have "log_open p" using log_open_steps [of "(?new, a)" io msg listening acts] unfolding f by (simp add: log_open_def newPubsubLogger_def)
  then obtain taken' sent' p' where cl: "accounted io taken' sent' (?W (ni_closing io msg)) (p, b) (p', logger_Close io msg listening (p, b))"
    and fin: "\<forall>who. held p' who = []" "\<exists>kept. ?W (ni_closing io msg) = kept @ pl_lines p'"
    using logger_Close_accounted [of p] unfolding log_open_def by blast
  from cl have "accounted io taken' sent' (?W (ni_closing io msg)) (p, a0) (p', a0 \<lparr>ag_statuses := ag_statuses (logger_Close io msg listening (p, b))\<rparr>)"
    using assms(2) a1 by (simp add: accounted_def log_reports_def)
  from accounted_trans [OF ac this] have "accounted io (taken @ taken') (sent @ sent') (?W (acts @ ni_closing io msg)) (?new, a)
      (p', logger_Close io msg listening (p, b))"
    by (simp add: accounted_def log_reports_def lines_of_def)
  then show ?thesis
    using fin by (rule_tac x = "taken @ taken'" in exI, rule_tac x = "sent @ sent'" in exI, rule_tac x = "pl_lines p'" in exI)
      (simp add: accounted_def of_bool_def del: filter_append map_append split: if_splits)
qed

text \<open>
  C9. What becomes of the log of an instruction, for every order of output, cluster events, ticks and the steps of the two publishers,
  the log's goroutine and the handler that closes it. The lines of the output and of the matching events, in the order they were written,
  are cut into batches, none of them empty and at most one taken by the closing handler, and a rest that nobody takes, which holds only
  lines written while the log was being closed. Every batch is published once, each publisher publishing its own in the order taken,
  unless the encoder or the broker refuses it, and nothing else is published for the log. The order between the two publishers is not
  kept, and a line can be lost: \<open>closing_batch_overtakes\<close> and \<open>late_line_lost\<close>.
\<close>

theorem log_complete:
  assumes "if mi_Uninstall msg then mi_Name msg \<noteq> [] \<and> mi_Name msg \<notin> set protectedReleases
      else (mi_Name msg = ''naisd'' \<longrightarrow> dm_performNaisdUpgrades d) \<and> ni_tempFile io = Inr f \<and> ni_encodeYAML io (mi_Values msg) = None"
    and "args = helm_args d (if mi_Uninstall msg then uninstallArgs msg else helmUpgradeArgs msg (namespaceFor (mi_Name msg)) f)"
  shows "\<exists>taken sent lost. lines_of io msg (\<not> mi_Uninstall msg) (fst (ni_execute io args) @ ni_closing io msg) = concat (map snd taken) @ lost \<and>
     (\<exists>kept. lines_of io msg (\<not> mi_Uninstall msg) (ni_closing io msg) = kept @ lost) \<and>
     (\<forall>who. taken_by who taken = taken_by who sent) \<and> length (taken_by False taken) \<le> 1 \<and> list_all (\<lambda>b. snd b \<noteq> []) taken \<and>
     log_reports (snd (naisd_handler d io msg a)) =
       log_reports a @ map (log_report io (mi_ID msg)) (filter (log_accepted io (mi_ID msg)) (map snd sent))"
proof (cases "mi_Uninstall msg")
  case True
  obtain res p a1 where run: "runHelm d io msg False (uninstallArgs msg) (newPubsubLogger (mi_ID msg), a) = (res, p, a1)" by (metis surj_pair)
  then have "snd (naisd_handler d io msg a) = logger_Close io msg False (p, republish d io a1)"
    using True assms(1) by (simp add: naisd_handler_def uninstallHandler_def protectedReleases_def)
  then show ?thesis using run_and_close_accounted [OF run log_reports_beside(2) refl] True assms(2) by simp
next
  case False
  let ?up = "helmUpgradeArgs msg (namespaceFor (mi_Name msg)) f"
  define a0 where "a0 = snd (publishStatus d io (helm_status msg DeployStatusInstalling [])
    (a \<lparr>ag_inProgress := lockedInt_Inc (ag_inProgress a), ag_files := f # ag_files a\<rparr>))"
  obtain res p a1 where run: "runHelm d io msg True ?up (newPubsubLogger (mi_ID msg), a0) = (res, p, a1)" by (metis surj_pair)
  define st where "st = (case res of Some e \<Rightarrow> helm_status msg DeployStatusFailed (Error e) | None \<Rightarrow> helm_status msg DeployStatusDeployed [])"
  obtain r c where c: "publishStatus d io st (republish d io a1) = (r, c)" by fastforce
  define b where "b = c \<lparr>ag_files := remove1 f (ag_files c), ag_inProgress := lockedInt_Dec (ag_inProgress c)\<rparr>"
  have b: "snd (naisd_handler d io msg a) = logger_Close io msg True (p, b)"
    using False assms(1) run c
    by (auto simp: naisd_handler_def run_deploy_def makeHelmValues_def Let_def a0_def st_def b_def)
  have lb: "log_reports b = log_reports a1"
    using log_reports_beside(1) [of d io st "republish d io a1"] log_reports_beside(2) [of d io a1] by (simp add: c b_def log_reports_def)
  have "log_reports a0 = log_reports a" unfolding a0_def log_reports_beside by (simp add: log_reports_def)
  then show ?thesis using run_and_close_accounted [OF run lb refl] False assms(2) b by simp
qed

theorem log_complete_witness:
  "\<exists>taken sent. map ll_Msg (concat (map snd taken)) = [''installing'', ''done''] \<and> (\<forall>who. taken_by who taken = taken_by who sent) \<and>
     log_reports (snd (naisd_handler example_manager example_naisd example_instruction idle_agent)) =
       map (log_report example_naisd 100 \<circ> snd) sent"
proof -
  let ?io = example_naisd and ?msg = example_instruction
  have acc: "filter (log_accepted ?io diid) bs = bs" for diid bs by (simp add: log_accepted_def example_naisd_def)
  have W: "map ll_Msg (lines_of ?io ?msg (\<not> mi_Uninstall ?msg) (fst (ni_execute ?io args) @ ni_closing ?io ?msg)) = [''installing'', ''done'']"
    "lines_of ?io ?msg (\<not> mi_Uninstall ?msg) (ni_closing ?io ?msg) = []" for args
    by (simp_all add: lines_of_def activity_lines_def example_naisd_def logger_Write_def strings_TrimSpace_def is_space_def)
  show ?thesis
    using log_complete [where io = ?io and msg = ?msg and d = example_manager and a = idle_agent and f = "''values.yaml''", OF _ refl]
    unfolding acc W(2) using W(1)
    by (fastforce simp: example_naisd_def example_instruction_def idle_agent_def log_reports_def)
qed

text \<open>
  What the order of the steps can do to a log. The handler can publish what it took before the goroutine publishes what it took earlier, so
  that lines arrive in the wrong order; and an event that the watcher still logs after both have taken for the last time is dropped.
\<close>

definition example_warning :: watchEvent where
  "example_warning = WatchAdded \<lparr>ke_Type = ''Warning'', ke_ObjectName = ''loki-0'', ke_APIVersion = ''v1'', ke_Kind = ''Pod'', ke_Message = ''killed''\<rparr>"

lemmas example_run_simps = naisd_handler_def run_deploy_def makeHelmValues_def runHelm_def publishStatus_def publish_def logger_Close_def
  activity_step_def Publish_take_def Publish_send_def logger_Write_def listenForEvents_def AddEvent_def newPubsubLogger_def republish_def
  Trigger_def StatusReporter_Run_def strings_TrimSpace_def is_space_def strings_Contains_def strings_HasPrefix_def log_reports_def
  example_naisd_def example_instruction_def example_manager_def idle_agent_def Let_def

lemma closing_batch_overtakes:
  "map st_Data (log_reports (snd (naisd_handler example_manager
      (example_naisd \<lparr>ni_execute := \<lambda>_. ([Output ''installing'', Tick, Output ''done''], None)\<rparr>) example_instruction idle_agent))) =
    [''done'', ''installing'']"
  by (simp add: example_run_simps)

lemma late_line_lost:
  "map st_Data (log_reports (snd (naisd_handler example_manager
      (example_naisd \<lparr>ni_closing := \<lambda>_. [RunClosed, CloseTake, Watched example_warning]\<rparr>) example_instruction idle_agent))) =
    [''installing'', ''done'']"
  "activity_lines example_naisd example_instruction True (Watched example_warning) \<noteq> []"
  by (simp_all add: example_run_simps example_warning_def activity_lines_def)

section \<open>Instructions that are not carried out\<close>

text \<open>Which instructions the agent answers without any deploy report.\<close>

lemma run_deploy_no_values:
  assumes "\<not> isl (ni_tempFile io) \<Longrightarrow> ni_encodeYAML io (mi_Values msg) \<noteq> None"
  shows "\<exists>e. fst (run_deploy d io msg (p, a)) = Some e" and "helm_reports (snd (run_deploy d io msg (p, a))) = helm_reports a"
    and "ag_helm (snd (run_deploy d io msg (p, a))) = ag_helm a"
proof -
  obtain e b where b: "makeHelmValues io msg (a \<lparr>ag_inProgress := lockedInt_Inc (ag_inProgress a)\<rparr>) = (Inl e, b)"
    and same: "ag_statuses b = ag_statuses a" "ag_helm b = ag_helm a"
    using assms by (cases "ni_tempFile io") (auto simp: makeHelmValues_def Let_def)
  let ?b = "b \<lparr>ag_inProgress := lockedInt_Dec (ag_inProgress b)\<rparr>"
  have eq: "run_deploy d io msg (p, a) = (Some e, logger_Close io msg False (p, ?b))" by (simp add: run_deploy_def b Let_def)
  show "\<exists>e. fst (run_deploy d io msg (p, a)) = Some e" by (simp add: eq)
  show "helm_reports (snd (run_deploy d io msg (p, a))) = helm_reports a"
    "ag_helm (snd (run_deploy d io msg (p, a))) = ag_helm a"
    using quiet_keeps [OF quiet_logger_Close [of ?b io msg False p]] same by (simp_all add: eq helm_reports_def)
qed

text \<open>
  C10. An instruction can be lost: the agent acknowledges every message before it does anything, so with a broker for which the first
  answer counts, a message is acknowledged and never delivered again whatever becomes of it. When the values file cannot be written, and
  when an upgrade of the agent is postponed because of running deployments, Helm is not run and no report is sent; the deploy stays in
  the state sent until it times out.
\<close>

theorem instruction_lost:
  assumes "\<And>b c. settle (Some b) c = Some b" and "\<And>c. settle None c = Some c"
    and "decode data = Some msg" and "\<not> mi_Uninstall msg"
    and "if mi_Name msg = ''naisd'' \<and> \<not> dm_performNaisdUpgrades d then 0 < ag_inProgress a
         else isl (ni_tempFile io) \<or> ni_encodeYAML io (mi_Values msg) \<noteq> None"
    and "subscriber_receive settle decode (deploy_handler settle d io) data a = (st, a')"
  shows "st = Some True \<and> helm_reports a' = helm_reports a \<and> ag_helm a' = ag_helm a"
proof -
  obtain r b where h: "naisd_handler d io msg a = (r, b)" by fastforce
  have "st = Some True" "a' = b"
    using assms(1-3,6) by (auto simp: subscriber_receive_def deploy_handler_def ForceAck_def h split: option.splits)
  moreover have "helm_reports b = helm_reports a \<and> ag_helm b = ag_helm a"
  proof (cases "mi_Name msg = ''naisd'' \<and> \<not> dm_performNaisdUpgrades d")
    case True
    then consider (line) p where "b = logger_Close io msg False (p, a \<lparr>ag_lastChecked := ni_now io\<rparr>)"
      | (silent) p where "b = logger_Close io msg False (p, a)"
      using h assms(4,5) by (auto simp: naisd_handler_def Let_def split: if_splits)
    then show ?thesis
    proof cases
      case line
      then show ?thesis
        using quiet_keeps [OF quiet_logger_Close [of "a \<lparr>ag_lastChecked := ni_now io\<rparr>" io msg False p]] by (simp add: helm_reports_def)
    next
      case silent
      then show ?thesis using quiet_keeps [OF quiet_logger_Close [of a io msg False p]] by simp
    qed
  next
    case False
    then have "naisd_handler d io msg a = run_deploy d io msg (newPubsubLogger (mi_ID msg), a)"
      using assms(4) by (auto simp: naisd_handler_def Let_def)
    moreover have "\<not> isl (ni_tempFile io) \<Longrightarrow> ni_encodeYAML io (mi_Values msg) \<noteq> None" using assms(5) unfolding if_not_P [OF False] by auto
    ultimately show ?thesis
      using run_deploy_no_values(2,3) [of io msg d "newPubsubLogger (mi_ID msg)" a] h by (metis snd_conv)
  qed
  ultimately show ?thesis by simp
qed

definition busy_agent :: agent where
  "busy_agent = idle_agent \<lparr>ag_inProgress := 1\<rparr>"

theorem instruction_lost_witness:
  "fst (subscriber_receive (\<lambda>st ack. Some (case st of Some b \<Rightarrow> b | None \<Rightarrow> ack)) (\<lambda>_. Some (example_instruction \<lparr>mi_Name := ''naisd''\<rparr>))
      (deploy_handler (\<lambda>st ack. Some (case st of Some b \<Rightarrow> b | None \<Rightarrow> ack)) example_manager example_naisd) [] busy_agent) = Some True"
proof -
  let ?settle = "\<lambda>st ack. Some (case st of Some b \<Rightarrow> b | None \<Rightarrow> (ack::bool))"
  obtain st a' where r: "subscriber_receive ?settle (\<lambda>_. Some (example_instruction \<lparr>mi_Name := ''naisd''\<rparr>))
      (deploy_handler ?settle example_manager example_naisd) [] busy_agent = (st, a')" by fastforce
  have "st = Some True"
    using instruction_lost [where settle = ?settle, OF _ _ _ _ _ r, of "example_instruction \<lparr>mi_Name := ''naisd''\<rparr>"]
    by (simp add: example_instruction_def busy_agent_def idle_agent_def example_manager_def)
  then show ?thesis using r by simp
qed

section \<open>Uninstalling and upgrading\<close>

lemma uninstallHandler_helm:
  "ag_helm (snd (uninstallHandler d io msg a)) =
     (if mi_Name msg = [] \<or> List.member protectedReleases (mi_Name msg) then ag_helm a else ag_helm a @ [helm_args d (uninstallArgs msg)])"
proof (cases "mi_Name msg = [] \<or> List.member protectedReleases (mi_Name msg)")
  case True
  then show ?thesis by (auto simp: uninstallHandler_def protectedReleases_def)
next
  case False
  obtain res p a1 where run: "runHelm d io msg False (uninstallArgs msg) (newPubsubLogger (mi_ID msg), a) = (res, p, a1)"
    by (metis surj_pair)
  obtain b where b: "quiet a b" "a1 = b \<lparr>ag_helm := ag_helm b @ [helm_args d (uninstallArgs msg)]\<rparr>"
    using runHelm_result(2) [OF run] by blast
  have "snd (uninstallHandler d io msg a) = logger_Close io msg False (p, republish d io a1)"
    using False run by (auto simp: uninstallHandler_def protectedReleases_def)
  then show ?thesis
    using False quiet_keeps(2) [OF b(1)] quiet_keeps(2) [OF quiet_republish [of a1 d io]]
      quiet_keeps(2) [OF quiet_logger_Close [of "republish d io a1" io msg False p]] b(2) by simp
qed

text \<open>
  Both sides protect the agents: the reconciler refuses to uninstall exactly the releases for which the agent would not run Helm, so
  no message can make an agent remove itself; for every other release the agent runs one uninstall.
\<close>

theorem uninstall_guards_agree:
  "(fst (Uninstall (Some dep) diid tenant env (mi_Name msg) w) = Inl ErrUninstallProtected \<longleftrightarrow>
      ag_helm (snd (uninstallHandler d io msg a)) = ag_helm a \<or>
      fst (dep_Uninstall dep diid tenant env (mi_Name msg) w) = Inl ErrUninstallProtected) \<and>
   (ag_helm (snd (uninstallHandler d io msg a)) = ag_helm a \<or>
      ag_helm (snd (uninstallHandler d io msg a)) = ag_helm a @ [helm_args d (uninstallArgs msg)])"
  by (auto simp: uninstallHandler_helm Uninstall_def split: prod.splits sum.splits)

text \<open>
  The upgrade job finds its instruction: when the agent has started its own upgrade, exactly one job and one secret were created,
  the job mounts the secret where the upgrade reads its instruction and runs the upgrade command in one of its containers without being
  restarted, and the secret holds the instruction and is owned by the job. When it fails, no secret was created; a job may be left.
\<close>

theorem StartJob_consistent:
  "(case StartJob d io msg a of
      (Some e, a') \<Rightarrow> ag_secrets a' = ag_secrets a \<and> (ag_jobs a' = ag_jobs a \<or> (\<exists>jb. ag_jobs a' = ag_jobs a @ [jb]))
    | (None, a') \<Rightarrow> \<exists>jb sec b c. ag_jobs a' = ag_jobs a @ [jb] \<and> ag_secrets a' = ag_secrets a @ [sec] \<and>
        (''instruction'', sc_Name sec) \<in> set (ps_Volumes (jb_Spec jb)) \<and> ps_RestartPolicy (jb_Spec jb) = ''Never'' \<and>
        c \<in> set (ps_Containers (jb_Spec jb)) \<and> (''instruction'', True, ''/etc/naisd/self-upgrade'') \<in> set (ct_VolumeMounts c) \<and>
        last (ct_Args c) = ''upgrade'' \<and>
        sc_StringData sec = [(''deploy_instruction.json'', b)] \<and> ni_encodeInstruction io msg = Inr b \<and>
        sc_OwnerKind sec = ''Job'' \<and> sc_OwnerName sec = jb_Name jb \<and> ni_createJob io jb = Inr (sc_OwnerUID sec))"
proof (cases "bindE (FromChart (ni_marshal io) (ni_helm io) (mi_Chart msg) (mi_Version msg)) (\<lambda>feat.
           bindE (wrapE ''unable to get hostname'' (ni_hostname io)) (\<lambda>hostname.
           bindE (wrapE ''failed to get pod spec'' (ni_pod io hostname)) (\<lambda>spec.
           createJob d io (ni_suffix io) spec (f_ValuesYAML feat))))")
  case (Inl e)
  then show ?thesis unfolding StartJob_def by simp
next
  case (Inr jb)
  then obtain spec vals where job: "createJob d io (ni_suffix io) spec vals = Inr jb" by (auto simp: bindE_eq_Inr)
  have jb: "jb_Name jb = upgrader_name (ni_suffix io)" "(''instruction'', upgrader_name (ni_suffix io)) \<in> set (ps_Volumes (jb_Spec jb))"
    "ps_RestartPolicy (jb_Spec jb) = ''Never''"
    "\<exists>c \<in> set (ps_Containers (jb_Spec jb)). (''instruction'', True, ''/etc/naisd/self-upgrade'') \<in> set (ct_VolumeMounts c) \<and>
       last (ct_Args c) = ''upgrade''"
    using job by (auto simp: createJob_def Let_def set_update_memI split: prod.splits if_splits intro!: bexI [OF _ set_update_memI])
  show ?thesis
    unfolding StartJob_def Inr sum.case
    using jb by (auto simp: Let_def createSecretValues_def bindE_def split: sum.splits option.splits)
qed

end
