(* ===== verification/Convergence.thy ===== *)
theory Convergence
  imports System Naisd
begin

text \<open>
  Reconciliation comes to rest. Between two changes of the operators, in any order of cycles, reports of the agents and timeouts, every
  environment is sent every feature at most once, whatever the agents report; and an instruction that an agent carries out ends, through
  its reports, as a finished deploy with the hash it was sent with.
\<close>

section \<open>The inputs that the reports do not touch\<close>

definition same_setup :: "db \<Rightarrow> db \<Rightarrow> bool" where
  "same_setup d d' \<longleftrightarrow> same_inputs (d \<lparr>health_statuses := health_statuses d'\<rparr>) d'"

lemma same_setup_iff: "same_setup d d' \<longleftrightarrow>
     tenants d' = tenants d \<and> environments d' = environments d \<and> environment_values d' = environment_values d \<and>
     feature_data d' = feature_data d \<and> feature_assignments d' = feature_assignments d \<and>
     configurations_global d' = configurations_global d \<and> configurations_environment d' = configurations_environment d \<and>
     disabled_features d' = disabled_features d"
  by (auto simp: same_setup_def same_inputs_def)

lemma same_setup_refl [simp]: "same_setup d d"
  by (simp add: same_setup_iff)

lemma same_setup_trans: "same_setup d d' \<Longrightarrow> same_setup d' d'' \<Longrightarrow> same_setup d d''"
  by (simp add: same_setup_iff)

lemma same_inputs_setup: "same_inputs d d' \<Longrightarrow> same_setup d d'"
  by (simp add: same_setup_iff same_inputs_def)

definition with_reports :: "db \<Rightarrow> snapshot \<Rightarrow> snapshot" where
  "with_reports d s = (with_deploys d s) \<lparr>s_healthByEnv := index_by fst snd (ListHealthStatuses d)\<rparr>"

lemma same_setup_queries:
  assumes "same_setup d d'"
  shows "ListAllTenantEnvironments d' = ListAllTenantEnvironments d"
    "ListLatestFeatureAssignments d' = ListLatestFeatureAssignments d" "ListDisabledFeatures d' = ListDisabledFeatures d"
    "buildGlobalConfigMap d' = buildGlobalConfigMap d" "buildEnvConfigMap d' = buildEnvConfigMap d"
    "ListAllEnvironmentValues d' = ListAllEnvironmentValues d"
  using assms
  by (simp_all add: same_setup_iff ListAllTenantEnvironments_def ListLatestFeatureAssignments_def
      ListDisabledFeatures_def buildGlobalConfigMap_def buildEnvConfigMap_def ListAllEnvironmentValues_def
      ListAllGlobalConfigs_def ListAllEnvConfigs_def)

lemma fetchSnapshot_setup:
  assumes "same_setup d d'" and "fetchSnapshot x aud fails d = Inr s" and "fetchSnapshot x aud fails' d' = Inr s'"
  shows "s' = with_reports d' s"
  using assms(2,3) unfolding fetchSnapshot_def same_setup_queries [OF assms(1)]
  by (auto simp: bindE_eq_Inr with_reports_def with_deploys_def)

lemma desired_ignores_health [simp]: "desired x (s \<lparr>s_healthByEnv := h\<rparr>) env a = desired x s env a"
  by (simp add: desired_def merged_config_def Let_def cong: option.case_cong sum.case_cong)

lemma with_reports_simps [simp]:
  "work_items (with_reports d s) = work_items s" "desired x (with_reports d s) env a = desired x s env a"
proof -
  have "work_items (with_reports d s) = work_items (with_deploys d s)"
    by (simp add: with_reports_def work_items_def env_winners_def)
  then show "work_items (with_reports d s) = work_items s" by simp
  have "desired x (with_reports d s) env a = desired x (with_deploys d s) env a" unfolding with_reports_def by (rule desired_ignores_health)
  then show "desired x (with_reports d s) env a = desired x s env a" by simp
qed

section \<open>Rows of instructions sent since\<close>

text \<open>The hash that a snapshot wants for an environment and a feature.\<close>

definition wanted :: "externals \<Rightarrow> snapshot \<Rightarrow> uuid \<times> string \<Rightarrow> string \<Rightarrow> bool" where
  "wanted x s k h \<longleftrightarrow> (\<exists>(env, dep) \<in> set (work_items s). item_key (env, dep) = k \<and> (\<exists>vals. desired x s env dep = Some (vals, h)))"

lemma wanted_unique:
  assumes "distinct (map item_key (work_items s))" and "wanted x s k h" and "(env, dep) \<in> set (work_items s)"
    and "item_key (env, dep) = k" and "desired x s env dep = Some (vals, h')"
  shows "h' = h"
proof -
  obtain env' dep' vals' where o: "(env', dep') \<in> set (work_items s)" "item_key (env', dep') = k" "desired x s env' dep' = Some (vals', h)"
    using assms(2) by (auto simp: wanted_def)
  then have "(env', dep') = (env, dep)"
    using assms(1,3,4) by (metis distinct_map inj_onD)
  then show ?thesis using o(3) assms(5) by simp
qed

definition new_rows :: "uuid set \<Rightarrow> db \<Rightarrow> DeployLog set" where
  "new_rows old d = {r \<in> set (deploy_log d). dl_diid r \<notin> old}"

definition new_keys :: "uuid set \<Rightarrow> db \<Rightarrow> (uuid \<times> string) set" where
  "new_keys old d = dl_key ` new_rows old d"

text \<open>Every row of a new instruction has the wanted hash, and a key with such a row has one as its current row.\<close>

definition settling :: "externals \<Rightarrow> snapshot \<Rightarrow> uuid set \<Rightarrow> db \<Rightarrow> bool" where
  "settling x s old d \<longleftrightarrow> (\<forall>r \<in> new_rows old d. wanted x s (dl_key r) (dl_hash r) \<and>
     (\<exists>c. map_of (deploy_current d) (dl_key r) = Some c \<and> dc_diid c \<notin> old))"

definition row_fits :: "externals \<Rightarrow> snapshot \<Rightarrow> uuid set \<Rightarrow> db \<Rightarrow> DeployLog \<Rightarrow> bool" where
  "row_fits x s old d r \<longleftrightarrow> (if dl_diid r \<in> old then dl_key r \<notin> new_keys old d else wanted x s (dl_key r) (dl_hash r))"

lemma new_rows_append:
  "new_rows old (append_deploy_row now r d) =
     (if dl_diid r \<in> old then new_rows old d else insert (r \<lparr>dl_id := deploy_seq d, dl_created := now\<rparr>) (new_rows old d))"
  by (auto simp: new_rows_def)

lemma dl_key_update [simp]: "dl_key (r \<lparr>dl_id := n, dl_created := t\<rparr>) = dl_key r"
  by (simp add: dl_key_def)

lemma new_keys_append:
  "new_keys old (append_deploy_row now r d) = (if dl_diid r \<in> old then new_keys old d else insert (dl_key r) (new_keys old d))"
  by (simp add: new_keys_def new_rows_append)

lemma settling_append:
  assumes "db_ok d" and "clock_ok now d" and "settling x s old d" and "row_fits x s old d r"
  shows "settling x s old (append_deploy_row now r d)"
  unfolding settling_def
proof
  fix q assume q: "q \<in> new_rows old (append_deploy_row now r d)"
  let ?d = "append_deploy_row now r d"
  note cur = append_deploy_current [OF assms(1,2), of r "dl_key q"]
  show "wanted x s (dl_key q) (dl_hash q) \<and> (\<exists>c. map_of (deploy_current ?d) (dl_key q) = Some c \<and> dc_diid c \<notin> old)"
  proof (cases "q \<in> new_rows old d")
    case True
    then have "wanted x s (dl_key q) (dl_hash q)" and c: "\<exists>c. map_of (deploy_current d) (dl_key q) = Some c \<and> dc_diid c \<notin> old"
      using assms(3) by (auto simp: settling_def)
    moreover have "dl_key q = dl_key r \<Longrightarrow> dl_diid r \<notin> old"
      using imageI [OF True, of dl_key] assms(4) by (auto simp: row_fits_def new_keys_def split: if_splits)
    ultimately show ?thesis using cur by (simp add: deploy_current_of_def)
  next
    case False
    then have "dl_diid r \<notin> old" and "q = r \<lparr>dl_id := deploy_seq d, dl_created := now\<rparr>"
      using q by (auto simp: new_rows_append split: if_splits)
    then show ?thesis using cur assms(4) by (simp add: row_fits_def deploy_current_of_def)
  qed
qed

lemma settling_AppendDeploys:
  assumes "db_ok d" and "clock_ok now d" and "settling x s old d" and "distinct (map dl_key rows)"
    and "\<And>r. r \<in> set rows \<Longrightarrow> row_fits x s old d r"
  shows "settling x s old (AppendDeploys now rows d) \<and>
    new_keys old (AppendDeploys now rows d) = new_keys old d \<union> dl_key ` {r \<in> set rows. dl_diid r \<notin> old}"
  using assms
proof (induction rows arbitrary: d)
  case (Cons a rows)
  let ?d = "append_deploy_row now a d"
  have ok: "db_ok ?d" "clock_ok now ?d" using Cons.prems(1,2) by (simp_all add: db_ok_append_deploy)
  have "settling x s old ?d" using settling_append [OF Cons.prems(1-3)] Cons.prems(5) by simp
  moreover have "row_fits x s old ?d r" if r: "r \<in> set rows" for r
  proof -
    have "dl_key r \<noteq> dl_key a" using Cons.prems(4) imageI [OF r, of dl_key] by auto
    then show ?thesis using Cons.prems(5) [of r] r by (simp add: row_fits_def new_keys_append)
  qed
  ultimately show ?case using Cons.IH [OF ok] Cons.prems(4) by (auto simp: AppendDeploys_Cons new_keys_append)
qed (simp add: AppendDeploys_def)

section \<open>What a report changes\<close>

text \<open>A report about anything but a deploy leaves the deploys and the inputs of the decisions as they are.\<close>

definition aside :: "db \<Rightarrow> db \<Rightarrow> bool" where
  "aside d d' \<longleftrightarrow> deploy_log d' = deploy_log d \<and> deploy_current d' = deploy_current d \<and> same_setup d d'"

interpretation aside: db_preorder aside
  by unfold_locales (auto simp: aside_def same_setup_iff)

lemma aside_refl [simp]: "aside d d"
  by (simp add: aside_def)

lemma aside_tables [simp]:
  "aside d (d \<lparr>health_statuses := h\<rparr>)" "aside d (d \<lparr>release_statuses := r\<rparr>)" "aside d (d \<lparr>logs := l\<rparr>)"
  by (simp_all add: aside_def same_setup_iff)

lemma aside_releaseStatus: "aside.keeps (releaseStatus dec io msg)"
proof
  fix d
  have "aside d (SetReleaseStatus now e rel d)" for now e rel d unfolding SetReleaseStatus_def by simp
  then have "aside.keeps (set_releases io e rels)" for e rels
    by (induction rels) (auto intro!: keeps_rules)
  then have "aside.keeps (write_releases io e rels)" for e rels
    unfolding write_releases_def DeleteReleaseStatusesInEnvironment_def by (intro keeps_rules) simp
  from aside.keepsD [OF this] show "aside d (snd (releaseStatus dec io msg d))"
    by (simp add: releaseStatus_def split: option.split sum.split)
qed

lemma aside_healthStatus: "aside.keeps (healthStatus dec io msg)"
proof
  fix d
  have "aside.keeps (naisdstatus_Set io e t)" for e t unfolding naisdstatus_Set_def by (intro keeps_rules) simp
  from aside.keepsD [OF this] show "aside d (snd (healthStatus dec io msg d))"
    by (simp add: healthStatus_def split: option.split sum.split)
qed

lemma aside_handleStatusLog: "aside.keeps (handleStatusLog dec io msg)"
  by (rule aside.keepsI) (simp add: handleStatusLog_def logCreate_def execT_def split: option.split)

lemma handler_shape:
  assumes "handler dec io msg \<lparr>ib_db = d, ib_slack = sl\<rparr> = (r, ib)"
  shows "aside d (ib_db ib) \<and> core_step d (ib_db ib) \<or> (\<exists>h q. st_Type msg = StatusTypeHelm \<and> dec_helm dec (st_Data msg) = Some h \<and>
    LatestDeployByDIID (h_DIID h) d = Some q \<and> ib_db ib = append_deploy_row (io_now io) (status_row h q) d)"
proof (cases "st_Type msg = StatusTypeHelm")
  case False
  have "ib_db ib \<in> {d, snd (releaseStatus dec io msg d), snd (healthStatus dec io msg d), snd (handleStatusLog dec io msg d)}"
    using assms False by (auto simp: handler_def on_db_def split: if_splits prod.splits)
  then show ?thesis
    using aside.keepsD [OF aside_releaseStatus] aside.keepsD [OF aside_healthStatus] aside.keepsD [OF aside_handleStatusLog]
      core.keepsD [OF keeps_releaseStatus] core.keepsD [OF keeps_healthStatus] core.keepsD [OF keeps_handleStatusLog] by auto
next
  case True
  then have h: "handlerHelm dec io msg \<lparr>ib_db = d, ib_slack = sl\<rparr> = (r, ib)" using assms by (simp add: handler_def)
  show ?thesis
  proof (cases "dec_helm dec (st_Data msg)")
    case None
    then show ?thesis using h by (auto simp: handlerHelm_def)
  next
    case (Some hs)
    have "ib_db ib = d \<or> (\<exists>q. LatestDeployByDIID (h_DIID hs) d = Some q \<and>
        ib_db ib = append_deploy_row (io_now io) (status_row hs q) d)"
      using handlerHelm_shape [OF Some, of io "\<lparr>ib_db = d, ib_slack = sl\<rparr>"] h
      by (auto simp: append_status_def AppendDeployStatus_def execT_def split: if_splits)
    then show ?thesis using True Some by auto
  qed
qed

section \<open>Steps without the operators\<close>

text \<open>
  Cycles whose deploys are logged, reports about instructions that were not sent before, and timeouts. \<open>old\<close> are the identifiers of
  the instructions of the time before. Every cycle renders with an \<open>externals\<close> of its own, one of \<open>X\<close>.
\<close>

inductive settle_step :: "externals set \<Rightarrow> string \<Rightarrow> decoders \<Rightarrow> uuid set \<Rightarrow> system \<Rightarrow> system \<Rightarrow> bool"
  for X :: "externals set" and aud :: string and dec :: decoders and old :: "uuid set" where
  settle_cycle: "x \<in> X \<Longrightarrow> sy_now s \<le> io_now io \<Longrightarrow> \<not> io_fails io ''AppendDeploys'' \<Longrightarrow> (\<And>n. io_diid io n \<notin> old) \<Longrightarrow>
    run_cycle x aud io (NewPubSubDeployer x io) (sy_world s) = Inr w \<Longrightarrow>
    settle_step X aud dec old s (s \<lparr>sy_world := w, sy_now := io_now io\<rparr>)"
| settle_report: "sy_now s \<le> io_now io \<Longrightarrow>
    (\<And>h. st_Type msg = StatusTypeHelm \<Longrightarrow> dec_helm dec (st_Data msg) = Some h \<Longrightarrow> h_DIID h \<notin> old) \<Longrightarrow>
    handler dec io msg \<lparr>ib_db = w_db (sy_world s), ib_slack = sy_slack s\<rparr> = (r, ib) \<Longrightarrow>
    settle_step X aud dec old s (s \<lparr>sy_world := (sy_world s) \<lparr>w_db := ib_db ib\<rparr>, sy_slack := ib_slack ib, sy_now := io_now io\<rparr>)"
| settle_timeout: "sy_now s \<le> now \<Longrightarrow>
    settle_step X aud dec old s (s \<lparr>sy_world := (sy_world s) \<lparr>w_db := TimeoutPendingDeploys now (w_db (sy_world s))\<rparr>, sy_now := now\<rparr>)"

text \<open>The state of a run that began with the tables \<open>d0\<close>, the snapshot \<open>s0\<close> and \<open>n0\<close> messages.\<close>

definition run_ok :: "externals \<Rightarrow> db \<Rightarrow> snapshot \<Rightarrow> uuid set \<Rightarrow> nat \<Rightarrow> gotime \<Rightarrow> world \<Rightarrow> bool" where
  "run_ok x d0 s0 old n0 now w \<longleftrightarrow> db_ok (w_db w) \<and> clock_ok now (w_db w) \<and> same_setup d0 (w_db w) \<and>
     settling x s0 old (w_db w) \<and> length (w_sent w) = n0 + card (new_keys old (w_db w))"

lemma core_step_ok: "core_step d d' \<Longrightarrow> db_ok d \<Longrightarrow> db_ok d'" "core_step d d' \<Longrightarrow> clock_ok now d \<Longrightarrow> clock_ok now d'"
  by (simp_all add: core_step_def clock_ok_def)

lemma clock_ok_later: "clock_ok now d \<Longrightarrow> now \<le> now' \<Longrightarrow> clock_ok now' d"
  by (force simp: clock_ok_def)

lemma same_setup_append [simp]: "same_setup d (append_deploy_row now r d)"
  by (simp add: same_setup_iff append_deploy_row_def insert_deploy_def)

lemma settling_aside: "aside d d' \<Longrightarrow> settling x s old d' = settling x s old d" "aside d d' \<Longrightarrow> new_keys old d' = new_keys old d"
  by (simp_all add: aside_def settling_def new_rows_def new_keys_def)

lemma run_ok_report:
  assumes run: "run_ok x d0 s0 old n0 now w" and h: "handler dec io msg \<lparr>ib_db = w_db w, ib_slack = sl\<rparr> = (r, ib)"
    and new: "\<And>h. st_Type msg = StatusTypeHelm \<Longrightarrow> dec_helm dec (st_Data msg) = Some h \<Longrightarrow> h_DIID h \<notin> old" and now: "now \<le> io_now io"
  shows "run_ok x d0 s0 old n0 (io_now io) (w \<lparr>w_db := ib_db ib\<rparr>)"
proof -
  have ok: "db_ok (w_db w)" "clock_ok (io_now io) (w_db w)" "same_setup d0 (w_db w)" "settling x s0 old (w_db w)"
    "length (w_sent w) = n0 + card (new_keys old (w_db w))"
    using run now clock_ok_later by (auto simp: run_ok_def)
  have core: "db_ok (ib_db ib)" "clock_ok (io_now io) (ib_db ib)"
    using handler_shape [OF h] ok(1,2) core_step_ok [of "w_db w" "ib_db ib"] by (auto simp: db_ok_append_deploy)
  from handler_shape [OF h] show ?thesis
  proof
    assume "aside (w_db w) (ib_db ib) \<and> core_step (w_db w) (ib_db ib)"
    then have a: "aside (w_db w) (ib_db ib)" ..
    then have "same_setup d0 (ib_db ib)" using ok(3) same_setup_trans by (simp add: aside_def)
    then show ?thesis using ok core settling_aside [OF a] by (simp add: run_ok_def)
  next
    assume "\<exists>h q. st_Type msg = StatusTypeHelm \<and> dec_helm dec (st_Data msg) = Some h \<and>
      LatestDeployByDIID (h_DIID h) (w_db w) = Some q \<and> ib_db ib = append_deploy_row (io_now io) (status_row h q) (w_db w)"
    then obtain h q where q: "LatestDeployByDIID (h_DIID h) (w_db w) = Some q" and fresh: "h_DIID h \<notin> old"
      and ib: "ib_db ib = append_deploy_row (io_now io) (status_row h q) (w_db w)" using new by blast
    have "q \<in> new_rows old (w_db w)" using LatestDeployByDIID_Some [OF q] fresh by (simp add: new_rows_def)
    then have key: "dl_key q \<in> new_keys old (w_db w)" and "wanted x s0 (dl_key q) (dl_hash q)"
      using ok(4) by (auto simp: new_keys_def settling_def)
    then have "row_fits x s0 old (w_db w) (status_row h q)" using fresh by (simp add: row_fits_def) (simp add: status_row_def)
    then have "settling x s0 old (ib_db ib)" unfolding ib by (rule settling_append [OF ok(1,2,4)])
    moreover have "new_keys old (ib_db ib) = new_keys old (w_db w)" using key by (auto simp: ib new_keys_append)
    moreover have "same_setup d0 (ib_db ib)" using ok(3) same_setup_trans by (simp add: ib)
    ultimately show ?thesis using ok core by (simp add: run_ok_def)
  qed
qed

lemma run_ok_timeout:
  assumes run: "run_ok x d0 s0 old n0 now w" and now: "now \<le> t"
  shows "run_ok x d0 s0 old n0 t (w \<lparr>w_db := TimeoutPendingDeploys t (w_db w)\<rparr>)"
proof -
  let ?d = "w_db w"
  define rows where "rows = map pending_row (filter (\<lambda>(k, c). (dc_status c = ''sent'' \<or> dc_status c = ''installing'') \<and>
        dc_created c < t - hour) (deploy_current ?d))"
  have ok: "db_ok ?d" "clock_ok t ?d" "same_setup d0 ?d" "settling x s0 old ?d" "length (w_sent w) = n0 + card (new_keys old ?d)"
    using run now clock_ok_later by (auto simp: run_ok_def)
  have gm: "gm_ok (deploy_current ?d)" using db_ok_gm [OF ok(1)] by simp
  have fits: "row_fits x s0 old ?d (pending_row kc) \<and> (dl_diid (pending_row kc) \<notin> old \<longrightarrow> dl_key (pending_row kc) \<in> new_keys old ?d)"
    if kc: "kc \<in> set (deploy_current ?d)" for kc
  proof -
    obtain k c where k: "kc = (k, c)" by fastforce
    then have cur: "map_of (deploy_current ?d) k = Some c" using kc gm by (simp add: gm_entry_iff)
    obtain r where r: "r \<in> set (deploy_log ?d)" "row_id r = (dc_diid c, snd k, dc_feature_version c, dc_hash c)" "dl_key r = k"
      using cur ok(1) by (auto simp: db_ok_def dl.latest_def row_id_def deploy_current_of_def dl_key_def dest!: dl.tracks_SomeD)
    have p: "dl_key (pending_row kc) = k" "dl_diid (pending_row kc) = dc_diid c" "dl_hash (pending_row kc) = dc_hash c"
      by (simp_all add: k pending_row_def dl_key_def split_beta)
    show ?thesis
    proof (cases "dc_diid c \<in> old")
      case True
      then have "k \<notin> new_keys old ?d" using ok(4) cur by (auto simp: settling_def new_keys_def)
      then show ?thesis using True p by (simp add: row_fits_def)
    next
      case False
      then have "r \<in> new_rows old ?d" using r by (simp add: new_rows_def row_id_def)
      moreover from this have "k \<in> new_keys old ?d" using r(3) by (auto simp: new_keys_def)
      ultimately show ?thesis using False p r(2,3) ok(4) by (auto simp: row_fits_def settling_def row_id_def)
    qed
  qed
  have distinct: "distinct (map dl_key rows)"
  proof -
    have "map dl_key rows = map fst (filter (\<lambda>(k, c). (dc_status c = ''sent'' \<or> dc_status c = ''installing'') \<and>
        dc_created c < t - hour) (deploy_current ?d))"
      by (auto simp: rows_def pending_row_def dl_key_def)
    then show ?thesis using gm_ok_distinct [OF gm_ok_filter [OF gm]] by simp
  qed
  have rows: "row_fits x s0 old ?d r" "dl_diid r \<notin> old \<Longrightarrow> dl_key r \<in> new_keys old ?d" if "r \<in> set rows" for r
    using that fits by (auto simp: rows_def)
  have d': "TimeoutPendingDeploys t ?d = AppendDeploys t rows ?d" by (simp add: TimeoutPendingDeploys_def rows_def)
  have "settling x s0 old (AppendDeploys t rows ?d)" "new_keys old (AppendDeploys t rows ?d) = new_keys old ?d"
    using settling_AppendDeploys [OF ok(1,2,4) distinct rows(1)] rows(2) by auto
  moreover have "same_setup d0 (AppendDeploys t rows ?d)"
    using ok(3) same_setup_trans same_inputs_setup [OF same_inputs_AppendDeploys] by blast
  ultimately show ?thesis
    using ok by (simp add: run_ok_def d' db_ok_AppendDeploys clock_ok_AppendDeploys)
qed

text \<open>A cycle publishes only for keys that no new instruction has named, once for each of them.\<close>

lemma deploy_decision_new:
  assumes ok: "db_ok d" and inp: "same_setup d0 d" and st: "settling x s0 old d"
    and s0: "fetchSnapshot x aud fails0 d0 = Inr s0" and dist: "distinct (map item_key (work_items s0))"
    and s2: "fetchSnapshot x' aud fails d = Inr s" and ds: "computeActions x' now s = Inr ds" and steady: "steady_for x x' s0"
    and res: "res \<in> set ds" "dd_Action res = ActionDeploy"
  shows "decision_key res \<notin> new_keys old d" and "wanted x s0 (decision_key res) (dd_Hash res)"
proof -
  have s: "fetchSnapshot x aud fails d = Inr s" using s2 fetchSnapshot_libraries [of x x'] steady by (simp add: steady_for_def)
  have s': "s = with_reports d s0" using fetchSnapshot_setup [OF inp s0 s] .
  obtain env dep where item: "(env, dep) \<in> set (work_items s0)" and disp: "dispatchDecision x' now s (env, dep) = Inr res"
    using computeActions_item [OF ds res(1)] s' by auto
  note deploys = dispatchDecision_deploy [OF disp res(2)]
  have key: "item_key (env, dep) = decision_key res"
    using dispatchDecision_for [OF disp] by (simp add: decision_key_def decision_for_def item_key_def)
  have des: "desired x s0 env dep = Some (dd_Values res, dd_Hash res)"
    using deploys(4) steady_for_desired [OF steady item] by (simp add: s')
  show "wanted x s0 (decision_key res) (dd_Hash res)" using item key des by (auto simp: wanted_def)
  show "decision_key res \<notin> new_keys old d"
  proof
    assume "decision_key res \<in> new_keys old d"
    then obtain c where c: "map_of (deploy_current d) (decision_key res) = Some c" "dc_diid c \<notin> old"
      using st by (auto simp: new_keys_def settling_def)
    then obtain r where "r \<in> set (deploy_log d)" "dl_key r = decision_key res" "c = deploy_current_of r"
      using ok by (auto simp: db_ok_def dl.latest_def dest!: dl.tracks_SomeD)
    then have "r \<in> new_rows old d" "dl_hash r = dc_hash c" "dl_key r = decision_key res" using c(2) by (auto simp: new_rows_def deploy_current_of_def)
    then have "wanted x s0 (decision_key res) (dc_hash c)" using st by (auto simp: settling_def)
    then have "dd_Hash res = dc_hash c" using wanted_unique [OF dist _ item key des] by simp
    moreover have "latest_instr s env dep = Some \<lparr>li_Hash = dc_hash c, li_Status = dc_status c\<rparr>"
      using snapshot_latestInstr [OF s ok] c(1) key by (simp add: latest_instr_def item_key_def)
    ultimately show False using deploys(5) by simp
  qed
qed

lemma to_publish_diid:
  assumes "to_publish x io ds = Inr items" and "item \<in> set items"
  shows "\<exists>n. pi_diid item = io_diid io n"
proof -
  let ?ds = "filter (\<lambda>res. dd_Action res = ActionDeploy) ds"
  have "list_all2 (\<lambda>rd item. publish_item x rd = Inr item) (zip ?ds (map (io_diid io) [0..<length ?ds])) items"
    using assms(1) by (simp add: to_publish_def Let_def mapE_Inr_iff)
  then show ?thesis using assms(2) publish_item_facts(2) by (fastforce simp: list_all2_conv_all_nth in_set_conv_nth)
qed

lemma run_ok_deploy:
  assumes run: "run_ok x d0 s0 old n0 (io_now io) v" and dist: "distinct (map decision_key ds)"
    and res: "\<And>res. res \<in> set ds \<Longrightarrow> dd_Action res = ActionDeploy \<Longrightarrow>
      decision_key res \<notin> new_keys old (w_db v) \<and> wanted x s0 (decision_key res) (dd_Hash res)"
    and fresh: "\<And>n. io_diid io n \<notin> old" and dep: "Deploy x' io ds v = (Inr (), w')"
  shows "run_ok x d0 s0 old n0 (io_now io) w'"
proof -
  have ok: "db_ok (w_db v)" "clock_ok (io_now io) (w_db v)" "same_setup d0 (w_db v)" "settling x s0 old (w_db v)"
    "length (w_sent v) = n0 + card (new_keys old (w_db v))"
    using run by (auto simp: run_ok_def)
  obtain items where items: "to_publish x' io ds = Inr items"
    and sent: "w_sent w' = w_sent v @ map (\<lambda>item. (pi_topicID item, pi_instruction item)) (accepted io items)"
    and db: "w_db w' = AppendDeploys (io_now io) (map deploy_row (accepted io items)) (w_db v)"
    using Deploy_Inr [OF dep] by blast
  let ?rows = "map deploy_row (accepted io items)"
  have row: "row_fits x s0 old (w_db v) r \<and> dl_diid r \<notin> old \<and> dl_key r \<notin> new_keys old (w_db v)" if r: "r \<in> set ?rows" for r
  proof -
    obtain item where item: "item \<in> set items" "r = deploy_row item" using r by (auto simp: accepted_def)
    have "pi_res item \<in> set (map pi_res items)" using item(1) by simp
    then have "pi_res item \<in> set ds" "dd_Action (pi_res item) = ActionDeploy" unfolding to_publish_items(1) [OF items] by simp_all
    then have "decision_key (pi_res item) \<notin> new_keys old (w_db v)" "wanted x s0 (decision_key (pi_res item)) (dd_Hash (pi_res item))"
      using res by blast+
    moreover have "dl_diid r \<notin> old" using to_publish_diid [OF items item(1)] fresh item(2) by (auto simp: deploy_row_def)
    moreover have "dl_key r = decision_key (pi_res item)" "dl_hash r = dd_Hash (pi_res item)"
      using item(2) by simp (simp add: item(2) deploy_row_def)
    ultimately show ?thesis by (simp add: row_fits_def)
  qed
  have dr: "distinct (map dl_key ?rows)" by (rule to_publish_distinct [OF items dist])
  have set_rows: "{r \<in> set ?rows. dl_diid r \<notin> old} = set ?rows" using row by blast
  have st: "settling x s0 old (w_db w')" "new_keys old (w_db w') = new_keys old (w_db v) \<union> dl_key ` set ?rows"
    using settling_AppendDeploys [OF ok(1,2,4) dr] row unfolding db set_rows by blast+
  have "finite (new_keys old (w_db v))" by (simp add: new_keys_def new_rows_def)
  moreover have "new_keys old (w_db v) \<inter> dl_key ` set ?rows = {}" using row by blast
  moreover have "card (dl_key ` set ?rows) = length (accepted io items)"
    using distinct_card [OF dr] by (simp add: image_image)
  ultimately have "card (new_keys old (w_db w')) = card (new_keys old (w_db v)) + length (accepted io items)"
    unfolding st(2) by (simp add: card_Un_disjoint)
  then have "length (w_sent w') = n0 + card (new_keys old (w_db w'))" using ok(5) by (simp add: sent)
  moreover have "same_setup d0 (w_db w')" unfolding db using ok(3) same_setup_trans same_inputs_setup [OF same_inputs_AppendDeploys] by blast
  ultimately show ?thesis using st ok by (simp add: run_ok_def) (simp add: db db_ok_AppendDeploys clock_ok_AppendDeploys)
qed

lemma run_ok_cycle:
  assumes run: "run_ok x d0 s0 old n0 now w" and now: "now \<le> io_now io"
    and s0: "fetchSnapshot x aud fails0 d0 = Inr s0" and dist: "distinct (map item_key (work_items s0))"
    and append: "\<not> io_fails io ''AppendDeploys''" and fresh: "\<And>n. io_diid io n \<notin> old" and steady: "steady_for x x' s0"
    and cyc: "run_cycle x' aud io (NewPubSubDeployer x' io) w = Inr w'"
  shows "run_ok x d0 s0 old n0 (io_now io) w'"
proof -
  have ok: "db_ok (w_db w)" "clock_ok (io_now io) (w_db w)" "same_setup d0 (w_db w)" "settling x s0 old (w_db w)"
    "length (w_sent w) = n0 + card (new_keys old (w_db w))"
    using run now clock_ok_later by (auto simp: run_ok_def)
  have logs: "run_ok x d0 s0 old n0 (io_now io) v" if "writeResultLogs io ds w = (r, v)" for ds r v
  proof -
    have "w_db v = w_db w \<or> (\<exists>rows. w_db v = AppendDecisions (io_now io) rows (w_db w))" "w_sent v = w_sent w"
      using that by (auto simp: writeResultLogs_def Let_def split: if_splits)
    then show ?thesis
      using ok same_setup_trans [OF ok(3) same_inputs_setup [OF same_inputs_AppendDecisions]]
      by (auto simp: run_ok_def db_ok_AppendDecisions clock_ok_AppendDecisions settling_def new_rows_def new_keys_def)
  qed
  show ?thesis
  proof (cases "ComputeDesiredState x' aud io (w_db w)")
    case (Inl e)
    then have "w' = w" using cyc by (simp add: run_cycle_def split: if_splits)
    then show ?thesis using ok by (simp add: run_ok_def)
  next
    case (Inr ds)
    then obtain s where s: "fetchSnapshot x' aud (io_fails io) (w_db w) = Inr s" and ds: "computeActions x' (io_now io) s = Inr ds"
      by (auto simp: ComputeDesiredState_def bindE_eq_Inr)
    obtain r v where v: "writeResultLogs io ds w = (r, v)" by fastforce
    show ?thesis
    proof (cases r)
      case (Inl e)
      then show ?thesis using cyc Inr v logs [OF v] by (simp add: run_cycle_def)
    next
      case (Inr u)
      have "w' = snd (Deploy x' io ds v)" using cyc \<open>ComputeDesiredState x' aud io (w_db w) = Inr ds\<close> v Inr by (simp add: run_cycle_def NewPubSubDeployer_def)
      moreover obtain items where items: "to_publish x' io ds = Inr items" using to_publish_computed [OF ds] by blast
      ultimately have dep: "Deploy x' io ds v = (Inr (), w')" using append by (auto simp: Deploy_def Let_def)
      have v': "run_ok x d0 s0 old n0 (io_now io) v" by (rule logs [OF v])
      have "deploy_log (w_db v) = deploy_log (w_db w)"
        using v by (auto simp: writeResultLogs_def Let_def split: if_splits)
      then have "new_keys old (w_db v) = new_keys old (w_db w)" by (simp add: new_keys_def new_rows_def)
      then have "decision_key res \<notin> new_keys old (w_db v) \<and> wanted x s0 (decision_key res) (dd_Hash res)"
        if "res \<in> set ds" "dd_Action res = ActionDeploy" for res
        using deploy_decision_new [OF ok(1,3,4) s0 dist s ds steady that] by simp
      moreover have "distinct (map decision_key ds)"
        using computeActions_keys [OF ds] distinct_item_keys [OF snapshot_env_ids [OF s ok(1)]] by simp
      ultimately show ?thesis using run_ok_deploy [OF v' _ _ fresh dep] by blast
    qed
  qed
qed

lemma run_ok_step:
  assumes "settle_step X aud dec old s s'" and "run_ok x d0 s0 old n0 (sy_now s) (sy_world s)"
    and "fetchSnapshot x aud fails0 d0 = Inr s0" and "distinct (map item_key (work_items s0))"
    and "\<And>x'. x' \<in> X \<Longrightarrow> steady_for x x' s0"
  shows "run_ok x d0 s0 old n0 (sy_now s') (sy_world s')"
  using assms(1)
proof (cases rule: settle_step.cases)
  case (settle_cycle x' io w)
  then show ?thesis using run_ok_cycle [OF assms(2) _ assms(3,4) _ _ assms(5)] by simp
next
  case (settle_report io msg r ib)
  then show ?thesis using run_ok_report [OF assms(2)] by simp
next
  case (settle_timeout now)
  then show ?thesis using run_ok_timeout [OF assms(2)] by simp
qed

text \<open>
  C6. Reconciliation comes to rest: from any state of the tables, and until an operator changes something, any sequence of
  cycles, reports of the agents about the instructions sent since, whatever they say, and timeouts publishes at most one message for each
  reconciled environment and each feature assigned to it, so that at most as many cycles as there are such pairs publish anything.
  The cycles must be able to log what they sent, and be steady about the features that are assigned: each cycle has templates executed
  and maps ranged over anew, and with a template that shows the clock or a random string, or with computed keys that nest, the hash
  would change from cycle to cycle.
\<close>

theorem reconciliation_comes_to_rest:
  assumes "(settle_step X aud dec (dl_diid ` set (deploy_log (w_db (sy_world s)))))\<^sup>*\<^sup>* s s'"
    and "db_ok (w_db (sy_world s))" and "clock_ok (sy_now s) (w_db (sy_world s))"
    and "fetchSnapshot x aud fails (w_db (sy_world s)) = Inr snap" and "\<And>x'. x' \<in> X \<Longrightarrow> steady_for x x' snap"
  shows "length (w_sent (sy_world s')) \<le> length (w_sent (sy_world s)) + length (work_items snap)"
proof -
  let ?d = "w_db (sy_world s)"
  let ?old = "dl_diid ` set (deploy_log ?d)"
  have dist: "distinct (map item_key (work_items snap))" by (rule distinct_item_keys [OF snapshot_env_ids [OF assms(4,2)]])
  have none: "new_rows ?old ?d = {}" by (auto simp: new_rows_def)
  have "run_ok x ?d snap ?old (length (w_sent (sy_world s))) (sy_now s) (sy_world s)"
    using assms(2,3) by (simp add: run_ok_def settling_def new_keys_def none)
  with assms(1) have "run_ok x ?d snap ?old (length (w_sent (sy_world s))) (sy_now s') (sy_world s')"
    by (induction rule: rtranclp_induct) (auto intro: run_ok_step [OF _ _ assms(4) dist assms(5)])
  then have len: "length (w_sent (sy_world s')) = length (w_sent (sy_world s)) + card (new_keys ?old (w_db (sy_world s')))"
    and st: "settling x snap ?old (w_db (sy_world s'))" by (simp_all add: run_ok_def)
  have "new_keys ?old (w_db (sy_world s')) \<subseteq> set (map item_key (work_items snap))"
    using st by (force simp: new_keys_def settling_def wanted_def)
  then have "card (new_keys ?old (w_db (sy_world s'))) \<le> card (set (map item_key (work_items snap)))" by (rule card_mono [rotated]) simp
  also have "\<dots> = length (work_items snap)" using distinct_card [OF dist] by simp
  finally show ?thesis using len by simp
qed

theorem reconciliation_comes_to_rest_witness:
  "\<exists>s. settle_step {example_externals, later_externals} [] example_decoders {} example_system s \<and> length (w_sent (sy_world s)) = 1"
proof -
  let ?X = "{example_externals, later_externals}"
  obtain w1 where w1: "run_cycle example_externals [] example_io (NewPubSubDeployer example_externals example_io) example_world = Inr w1"
    and sent: "w_sent w1 \<noteq> []"
    using example_first_cycle by blast
  let ?s = "example_system \<lparr>sy_world := w1, sy_now := io_now example_io\<rparr>"
  have step: "settle_step ?X [] example_decoders {} example_system ?s"
    by (rule settle_step.settle_cycle [of example_externals]) (use w1 in \<open>simp_all add: example_system_def\<close>)
  have log: "deploy_log (w_db (sy_world example_system)) = []" and empty: "w_sent (sy_world example_system) = []"
    by (simp_all add: example_system_def example_world_def example_db_def empty_db_def)
  have "length (w_sent (sy_world ?s)) \<le> length (w_sent (sy_world example_system)) + length (work_items example_snapshot)"
  proof (rule reconciliation_comes_to_rest)
    show "(settle_step ?X [] example_decoders (dl_diid ` set (deploy_log (w_db (sy_world example_system)))))\<^sup>*\<^sup>* example_system ?s"
      using step log by (simp add: r_into_rtranclp)
    show "db_ok (w_db (sy_world example_system))" "clock_ok (sy_now example_system) (w_db (sy_world example_system))"
      using example_world_ok example_clock by (simp_all add: example_system_def)
    show "fetchSnapshot example_externals [] (\<lambda>_. False) (w_db (sy_world example_system)) = Inr example_snapshot"
      using example_fetch by (simp add: example_system_def example_world_def)
    show "steady_for example_externals x' example_snapshot" if "x' \<in> ?X" for x'
      using that example_steady by (auto simp: steady_for_def)
  qed
  then have "length (w_sent w1) \<le> 1" by (simp add: empty example_work_items)
  then have "length (w_sent w1) = 1" using sent by (cases "w_sent w1") auto
  then show ?thesis using step by (intro exI [of _ ?s]) simp
qed

section \<open>An instruction from the agent back to the tables\<close>

definition receive_all :: "decoders \<Rightarrow> io \<Rightarrow> Status list \<Rightarrow> inbox \<Rightarrow> inbox" where
  "receive_all dec io ss ib = fold (\<lambda>s ib. snd (handler dec io s ib)) ss ib"

text \<open>The instruction \<open>diid\<close> is known, with its environment and tenant, and has the hash \<open>h\<close>.\<close>

definition known :: "uuid \<Rightarrow> uuid \<times> string \<Rightarrow> string \<Rightarrow> gotime \<Rightarrow> db \<Rightarrow> bool" where
  "known diid k h now d \<longleftrightarrow> db_ok d \<and> clock_ok now d \<and> fst k \<in> e_ID ` set (environments d) \<and>
     e_TenantID ` set (environments d) \<subseteq> t_ID ` set (tenants d) \<and>
     (\<exists>q. LatestDeployByDIID diid d = Some q \<and> dl_key q = k \<and> dl_hash q = h)"

lemma LatestDeployByDIID_append:
  assumes "db_ok d" and "clock_ok now d" and "dl_diid r = diid"
  shows "LatestDeployByDIID diid (append_deploy_row now r d) = Some (r \<lparr>dl_id := deploy_seq d, dl_created := now\<rparr>)"
proof -
  let ?r = "r \<lparr>dl_id := deploy_seq d, dl_created := now\<rparr>" and ?d = "append_deploy_row now r d"
  have log: "deploy_log ?d = deploy_log d @ [?r]" by simp
  have "LatestDeployByDIID diid ?d \<noteq> None" unfolding LatestDeployByDIID_None log using assms(3) by auto
  then obtain q where q: "LatestDeployByDIID diid ?d = Some q" by blast
  have "dl_rank ?r \<le> dl_rank q" using LatestDeployByDIID_Some(3) [OF q, of ?r] assms(3) unfolding log by simp
  moreover have "dl_rank r' < dl_rank ?r" if "r' \<in> set (deploy_log d)" for r'
  proof -
    have "dl_created r' \<le> now" "dl_id r' < deploy_seq d" using that assms(1,2) by (simp_all add: db_ok_def clock_ok_def)
    then show ?thesis by (simp add: dl_rank_def less_prod_def)
  qed
  ultimately have "q \<notin> set (deploy_log d)" by (meson leD)
  then show ?thesis using q LatestDeployByDIID_Some(1) [OF q] unfolding log by auto
qed

lemma handlerHelm_appends:
  assumes "known diid k h now d" and "\<And>q. \<not> io_fails io q" and "dec_helm dec (st_Data msg) = Some hs" and "h_DIID hs = diid"
  shows "\<exists>q sl'. LatestDeployByDIID diid d = Some q \<and>
    handlerHelm dec io msg \<lparr>ib_db = d, ib_slack = sl\<rparr> = (Inr (), \<lparr>ib_db = append_deploy_row (io_now io) (status_row hs q) d, ib_slack = sl'\<rparr>)"
proof -
  have nf: "io_fails io q = False" for q using assms(2) by simp
  obtain q where q: "LatestDeployByDIID diid d = Some q" "dl_key q = k" using assms(1) by (auto simp: known_def)
  have "dl_environment_id q \<in> e_ID ` set (environments d)" using assms(1) q(2) by (auto simp: known_def dl_key_def)
  then have "find (\<lambda>e. e_ID e = dl_environment_id q) (environments d) \<noteq> None" unfolding find_None_iff by auto
  then obtain env where env: "find (\<lambda>e. e_ID e = dl_environment_id q) (environments d) = Some env" by blast
  then have "env \<in> set (environments d)" by (auto simp: find_Some_iff)
  then have "e_TenantID env \<in> t_ID ` set (tenants d)" using assms(1) by (auto simp: known_def)
  then have "find (\<lambda>t. t_ID t = e_TenantID env) (tenants d) \<noteq> None" unfolding find_None_iff by auto
  then obtain t where t: "find (\<lambda>t. t_ID t = e_TenantID env) (tenants d) = Some t" by blast
  have ap: "append_status io hs q ib = (Inr (), ib \<lparr>ib_db := append_deploy_row (io_now io) (status_row hs q) (ib_db ib)\<rparr>)" for ib
    using assms(2) by (simp add: append_status_Inr)
  have "handlerHelm dec io msg \<lparr>ib_db = d, ib_slack = sl\<rparr> =
      (if h_RolloutStatus hs = DeployStatusFailed
       then append_status io hs q (notify_failed io q env (t_Name t) \<lparr>ib_db = d, ib_slack = sl\<rparr>)
       else append_status io hs q \<lparr>ib_db = d, ib_slack = sl\<rparr>)"
    by (simp add: handlerHelm_def one_def environment_Get_def GetTenant_def assms(3,4) q(1) env t nf)
  then show ?thesis using q(1) by (simp add: ap notify_failed_def nf)
qed

lemma known_append:
  assumes "known diid k h now d" and "now \<le> t" and "LatestDeployByDIID diid d = Some q" and "h_DIID hs = diid"
  shows "known diid k h t (append_deploy_row t (status_row hs q) d)"
    and "map_of (deploy_current (append_deploy_row t (status_row hs q) d)) k' =
      (if k' = k then Some (deploy_current_of ((status_row hs q) \<lparr>dl_id := deploy_seq d, dl_created := t\<rparr>)) else map_of (deploy_current d) k')"
proof -
  have d: "db_ok d" "clock_ok t d" "dl_key q = k" "dl_hash q = h" using assms(1-3) clock_ok_later by (auto simp: known_def)
  have "LatestDeployByDIID diid (append_deploy_row t (status_row hs q) d) = Some ((status_row hs q) \<lparr>dl_id := deploy_seq d, dl_created := t\<rparr>)"
    by (rule LatestDeployByDIID_append [OF d(1,2)]) (simp add: status_row_def assms(4))
  moreover have "same_setup d (append_deploy_row t (status_row hs q) d)" by simp
  ultimately show "known diid k h t (append_deploy_row t (status_row hs q) d)"
    using assms(1) d by (auto simp: known_def db_ok_append_deploy same_setup_iff) (simp add: status_row_def)
  show "map_of (deploy_current (append_deploy_row t (status_row hs q) d)) k' =
      (if k' = k then Some (deploy_current_of ((status_row hs q) \<lparr>dl_id := deploy_seq d, dl_created := t\<rparr>)) else map_of (deploy_current d) k')"
    using append_deploy_current [OF d(1,2), of "status_row hs q" k'] d(3) by simp
qed

lemma LatestDeployByDIID_aside: "aside d d' \<Longrightarrow> LatestDeployByDIID diid d' = LatestDeployByDIID diid d"
  by (simp add: aside_def LatestDeployByDIID_def)

lemma known_aside: "known diid k h now d \<Longrightarrow> aside d d' \<Longrightarrow> core_step d d' \<Longrightarrow> known diid k h now d'"
  using LatestDeployByDIID_aside [of d d'] core_step_ok [of d d'] by (auto simp: known_def aside_def same_setup_iff)

text \<open>All the reports about one instruction: the last one decides the current row.\<close>

lemma receive_all_reports:
  assumes "known diid k h (io_now io) (ib_db ib)" and "\<And>q. \<not> io_fails io q"
    and "list_all2 (\<lambda>s hs. dec_helm dec (st_Data s) = Some hs \<and> h_DIID hs = diid) (filter (\<lambda>s. st_Type s = StatusTypeHelm) ss) reports"
  shows "known diid k h (io_now io) (ib_db (receive_all dec io ss ib)) \<and>
    (if reports = [] then deploy_current (ib_db (receive_all dec io ss ib)) = deploy_current (ib_db ib)
     else \<exists>c. map_of (deploy_current (ib_db (receive_all dec io ss ib))) k = Some c \<and> dc_diid c = diid \<and> dc_hash c = h \<and>
       dc_status c = h_RolloutStatus (last reports)) \<and>
    (\<forall>k'. k' \<noteq> k \<longrightarrow> map_of (deploy_current (ib_db (receive_all dec io ss ib))) k' = map_of (deploy_current (ib_db ib)) k')"
  using assms
proof (induction ss arbitrary: ib reports)
  case Nil
  then show ?case by (simp add: receive_all_def)
next
  case (Cons s ss)
  let ?ib = "snd (handler dec io s ib)"
  have step: "receive_all dec io (s # ss) ib = receive_all dec io ss ?ib" by (simp add: receive_all_def)
  show ?case
  proof (cases "st_Type s = StatusTypeHelm")
    case False
    obtain r ib' where h: "handler dec io s \<lparr>ib_db = ib_db ib, ib_slack = ib_slack ib\<rparr> = (r, ib')" by fastforce
    then have h': "?ib = ib'" by (metis inbox.surjective old.unit.exhaust snd_conv)
    have a: "aside (ib_db ib) (ib_db ib')" "core_step (ib_db ib) (ib_db ib')" using handler_shape [OF h] False by auto
    then have "known diid k h (io_now io) (ib_db ib')" using known_aside Cons.prems(1) by blast
    moreover have "deploy_current (ib_db ib') = deploy_current (ib_db ib)" using a(1) by (simp add: aside_def)
    moreover have "list_all2 (\<lambda>s hs. dec_helm dec (st_Data s) = Some hs \<and> h_DIID hs = diid) (filter (\<lambda>s. st_Type s = StatusTypeHelm) ss) reports"
      using Cons.prems(3) False by simp
    ultimately show ?thesis unfolding step h' using Cons.IH [of ib' reports] Cons.prems(2) by simp
  next
    case True
    then obtain hs rest where reports: "reports = hs # rest" and hs: "dec_helm dec (st_Data s) = Some hs" "h_DIID hs = diid"
      and rest: "list_all2 (\<lambda>s hs. dec_helm dec (st_Data s) = Some hs \<and> h_DIID hs = diid) (filter (\<lambda>s. st_Type s = StatusTypeHelm) ss) rest"
      using Cons.prems(3) by (auto simp: list_all2_Cons1)
    obtain q sl' where q: "LatestDeployByDIID diid (ib_db ib) = Some q"
      and h: "handlerHelm dec io s \<lparr>ib_db = ib_db ib, ib_slack = ib_slack ib\<rparr> =
        (Inr (), \<lparr>ib_db = append_deploy_row (io_now io) (status_row hs q) (ib_db ib), ib_slack = sl'\<rparr>)"
      using handlerHelm_appends [OF Cons.prems(1,2) hs] by blast
    define ib' where "ib' = \<lparr>ib_db = append_deploy_row (io_now io) (status_row hs q) (ib_db ib), ib_slack = sl'\<rparr>"
    have eta: "\<lparr>ib_db = ib_db ib, ib_slack = ib_slack ib\<rparr> = ib" by simp
    have h': "?ib = ib'" using h True unfolding eta by (simp add: handler_def ib'_def)
    have kn: "known diid k h (io_now io) (ib_db ib')"
      using known_append(1) [OF Cons.prems(1) order_refl q hs(2)] by (simp add: ib'_def)
    have cur: "map_of (deploy_current (ib_db ib')) k' = (if k' = k then Some (deploy_current_of
        ((status_row hs q) \<lparr>dl_id := deploy_seq (ib_db ib), dl_created := io_now io\<rparr>)) else map_of (deploy_current (ib_db ib)) k')" for k'
      using known_append(2) [OF Cons.prems(1) order_refl q hs(2)] by (simp add: ib'_def)
    have row: "dc_diid (deploy_current_of ((status_row hs q) \<lparr>dl_id := n, dl_created := t\<rparr>)) = diid"
      "dc_hash (deploy_current_of ((status_row hs q) \<lparr>dl_id := n, dl_created := t\<rparr>)) = h"
      "dc_status (deploy_current_of ((status_row hs q) \<lparr>dl_id := n, dl_created := t\<rparr>)) = h_RolloutStatus hs" for n t
      using hs(2) q Cons.prems(1) by (auto simp: deploy_current_of_def status_row_def known_def)
    show ?thesis
      unfolding step h' reports using Cons.IH [OF kn Cons.prems(2) rest] cur row by (auto split: if_splits)
  qed
qed

text \<open>
  C7. An instruction comes back as a finished deploy: when the agent of an environment carries out an instruction that the deploy log
  knows and the server receives what the agent reports, in order and among all its other reports, the current deploy of that environment
  and feature is that instruction, deployed when Helm succeeded and failed when it did not, with the hash it was sent with, which is
  what the next cycle compares with; the current deploys of everything else are as they were.
\<close>

theorem deploy_carried_out:
  assumes "known (mi_ID m) k h (io_now io) d" and "\<And>q. \<not> io_fails io q"
    and "delivers nio" and "\<And>st e b. ni_marshalHelm nio (helm_status m st e) = Inr b \<Longrightarrow> dec_helm dec b = Some (helm_status m st e)"
    and "ni_tempFile nio = Inr f" and "ni_encodeYAML nio (mi_Values m) = None"
    and "\<not> mi_Uninstall m" and "mi_Name m \<noteq> ''naisd''"
    and "args = helm_args mgr (helmUpgradeArgs m (namespaceFor (mi_Name m)) f)"
    and "ib = receive_all dec io (ag_statuses (snd (naisd_handler mgr nio m idle_agent))) \<lparr>ib_db = d, ib_slack = []\<rparr>"
  shows "(\<exists>c. map_of (deploy_current (ib_db ib)) k = Some c \<and> dc_diid c = mi_ID m \<and> dc_hash c = h \<and>
      dc_status c = (if snd (ni_execute nio args) = None then DeployStatusDeployed else DeployStatusFailed)) \<and>
    (\<forall>k'. k' \<noteq> k \<longrightarrow> map_of (deploy_current (ib_db ib)) k' = map_of (deploy_current d) k')"
proof -
  let ?a = "snd (naisd_handler mgr nio m idle_agent)"
  have run: "naisd_handler mgr nio m idle_agent = run_deploy mgr nio m (newPubsubLogger (mi_ID m), idle_agent)"
    using assms(7,8) by (simp add: naisd_handler_def Let_def)
  have idle: "helm_reports idle_agent = []" "0 \<le> ag_inProgress idle_agent" by (simp_all add: helm_reports_def idle_agent_def)
  let ?hs = "[helm_status m DeployStatusInstalling [], final_status nio m args]"
  have reports: "filter (\<lambda>s. st_Type s = StatusTypeHelm) (ag_statuses ?a) = map (helm_report mgr nio) ?hs"
    using run_deploy_result(2) [OF assms(3,5,6) idle(2) assms(9), of "newPubsubLogger (mi_ID m)"] idle(1)
    unfolding run by (simp add: helm_reports_def)
  have dec: "dec_helm dec (st_Data (helm_report mgr nio (helm_status m st e))) = Some (helm_status m st e)" for st e
  proof -
    have "\<not> isl (ni_marshalHelm nio (helm_status m st e))" using assms(3) by (simp add: delivers_def)
    then obtain b where "ni_marshalHelm nio (helm_status m st e) = Inr b" by (cases "ni_marshalHelm nio (helm_status m st e)") auto
    then show ?thesis using assms(4) by (simp add: helm_report_def)
  qed
  have ids: "h_DIID (helm_status m st e) = mi_ID m" for st e by (simp add: helm_status_def)
  have "list_all2 (\<lambda>s hs. dec_helm dec (st_Data s) = Some hs \<and> h_DIID hs = mi_ID m) (filter (\<lambda>s. st_Type s = StatusTypeHelm) (ag_statuses ?a)) ?hs"
    unfolding reports by (simp add: dec ids final_status_def split: option.split)
  moreover have "h_RolloutStatus (final_status nio m args) = (if snd (ni_execute nio args) = None then DeployStatusDeployed else DeployStatusFailed)"
    by (auto simp: final_status_def helm_status_def split: option.split)
  ultimately show ?thesis
    using receive_all_reports [of "mi_ID m" k h io "\<lparr>ib_db = d, ib_slack = []\<rparr>" dec "ag_statuses ?a" ?hs] assms(1,2,10) by simp
qed

text \<open>An agent and a server that agree on a wire format.\<close>

definition wire_encode :: "string \<Rightarrow> string \<Rightarrow> string" where
  "wire_encode a b = replicate (length a) (CHR ''a'') @ CHR ''b'' # a @ b"

definition wire_decode :: "string \<Rightarrow> string \<times> string" where
  "wire_decode s = (let n = length (takeWhile (\<lambda>c. c = CHR ''a'') s); r = drop (Suc n) s in (take n r, drop n r))"

lemma wire_decode_encode [simp]: "wire_decode (wire_encode a b) = (a, b)"
proof -
  have "takeWhile (\<lambda>c. c = CHR ''a'') (replicate n (CHR ''a'') @ CHR ''b'' # t) = replicate n (CHR ''a'')" for n t
    by (induction n) simp_all
  then show ?thesis by (simp add: wire_decode_def wire_encode_def Let_def)
qed

definition wire_naisd :: naisd_io where
  "wire_naisd = example_naisd \<lparr>ni_marshalHelm := \<lambda>h. Inr (wire_encode (h_RolloutStatus h) (h_Error h))\<rparr>"

definition wire_decoders :: decoders where
  "wire_decoders = \<lparr>dec_helm = \<lambda>s. Some (helm_status example_instruction (fst (wire_decode s)) (snd (wire_decode s))),
     dec_releases = \<lambda>_. None, dec_health = \<lambda>_. None, dec_log = \<lambda>_. None\<rparr>"

lemma example_known: "known 100 (1, ''loki'') ''1oci://charts/loki'' (io_now example_io) (w_db example_sent_world)"
proof -
  have "LatestDeployByDIID 100 (w_db example_sent_world) = Some (sent_row \<lparr>dl_id := 1, dl_created := 1000\<rparr>)"
    by (simp add: LatestDeployByDIID_def example_sent_log sent_row_def)
  moreover have "tenants (w_db example_sent_world) = tenants example_db"
    using same_inputs_AppendDeploys [of example_db 1000 "[sent_row]"] by (simp add: example_sent_db same_inputs_def)
  ultimately show ?thesis
    using example_sent_ok by (auto simp: known_def example_environments example_db_def dl_key_def sent_row_def)
qed

theorem deploy_carried_out_witness:
  "\<exists>c. map_of (deploy_current (ib_db (receive_all wire_decoders example_io
      (ag_statuses (snd (naisd_handler example_manager wire_naisd example_instruction idle_agent)))
      \<lparr>ib_db = w_db example_sent_world, ib_slack = []\<rparr>))) (1, ''loki'') = Some c \<and> dc_status c = DeployStatusDeployed"
proof -
  have id: "mi_ID example_instruction = 100" by (simp add: example_instruction_def)
  have "delivers wire_naisd" using example_delivers by (simp add: wire_naisd_def delivers_def)
  then show ?thesis
    using deploy_carried_out [OF example_known [folded id] _ _ _ _ _ _ _ refl refl, where nio = wire_naisd and dec = wire_decoders
        and f = "''values.yaml''" and mgr = example_manager]
    by (auto simp: wire_naisd_def wire_decoders_def helm_status_def example_naisd_def example_instruction_def)
qed

end
