(* ===== verification/Fasitd.thy ===== *)
theory Fasitd
  imports Naisd Assignment_Store
begin

text \<open>
  The shadow lane, \<open>internal/fasitd\<close>: the registry of sessions (\<open>registry.go\<close>), the session protocol of the server
  (\<open>server.go\<close>) with its statements (\<open>fasitdsql\<close>), the deployer that mirrors every deploy decision as a command
  (\<open>deployer.go\<close>) and the dry-run agent at the other end of the stream (\<open>daemon/agent.go\<close>).

  A session is an object: the registry, the connection and the deployer hold the same pointer. The state therefore keeps
  the sessions in a store by address and the registry maps a tenant and an environment to an address. The channel of a
  session is the list of commands in it. Connections, the goroutine that writes a session's commands to the stream and
  the deployer run concurrently; \<open>fasitd_step\<close> interleaves their atomic pieces. \<open>uuid.Parse\<close> and the answers of the
  stream are parameters; the counters are left out.
\<close>

section \<open>Messages and rows\<close>

type_synonym sessionKey = "string \<times> string"

definition keyFor :: "string \<Rightarrow> string \<Rightarrow> sessionKey" where
  "keyFor tenant environment = (tenant, environment)"

record Command =
  cm_Diid :: string
  cm_Name :: string
  cm_Version :: string
  cm_Chart :: string
  cm_ConfigHash :: string
  cm_TimeoutMs :: int
  cm_Values :: string
  cm_Uninstall :: bool

record ProtoRelease =
  pr_Name :: string
  pr_Version :: string
  pr_Status :: string
  pr_Revision :: int
  pr_LastDeployedUnix :: int

text \<open>The oneof of an agent's message: \<open>Register\<close> (tenant, environment, version, protocol), \<open>Ack\<close> (diid), \<open>CommandStatus\<close>
  (diid, status, hash, error), \<open>Logs\<close> (diid, lines of time, text and kind), \<open>Releases\<close> (time, releases).\<close>

datatype AgentMessage =
    Register string string string int
  | Ack string
  | CommandStatus string string string string
  | Logs string "(int \<times> string \<times> string) list"
  | Releases int "ProtoRelease list"
  | Heartbeat
  | NoMessage

record fasitd_command =
  fc_diid :: uuid
  fc_environment_id :: uuid
  fc_feature_assignment_id :: uuid
  fc_feature_name :: string
  fc_feature_version :: string
  fc_chart :: string
  fc_config_hash :: string
  fc_uninstall :: bool
  fc_values :: string
  fc_created :: gotime

record fasitd_status =
  fs_diid :: uuid
  fs_status :: string
  fs_message :: string
  fs_created :: gotime

record fasitd_log =
  fl_diid :: uuid
  fl_time :: gotime
  fl_message :: string
  fl_kind :: string

record fasitd_release =
  fr_version :: string
  fr_status :: string
  fr_revision :: int
  fr_last_deployed :: gotime
  fr_created :: gotime

record session =
  se_key :: sessionKey
  se_environmentID :: uuid
  se_fasitdVersion :: string
  se_send :: "Command list"
  se_done :: bool
  se_sendErr :: "err option"
  se_wire :: "Command list"

text \<open>\<open>fd_statuses\<close> and \<open>fd_logs\<close> are in the order of their serial identifiers.
  \<open>fd_heap\<close> holds the sessions by address.\<close>

record fasitd =
  fd_db :: db
  fd_commands :: "fasitd_command list"
  fd_statuses :: "fasitd_status list"
  fd_logs :: "fasitd_log list"
  fd_releases :: "(uuid \<times> string, fasitd_release) gomap"
  fd_heap :: "(nat, session) gomap"
  fd_next :: nat
  fd_sessions :: "(sessionKey, nat) gomap"

section \<open>The registry\<close>

definition registry_add :: "sessionKey \<Rightarrow> nat \<Rightarrow> (sessionKey, nat) gomap \<Rightarrow> bool \<times> (sessionKey, nat) gomap" where
  "registry_add k p r = (case map_of r k of Some cur \<Rightarrow> (False, r) | None \<Rightarrow> (True, gm_put k p r))"

definition registry_remove :: "sessionKey \<Rightarrow> nat \<Rightarrow> (sessionKey, nat) gomap \<Rightarrow> (sessionKey, nat) gomap" where
  "registry_remove k p r = (case map_of r k of Some cur \<Rightarrow> if cur = p then gm_del k r else r | None \<Rightarrow> r)"

definition registry_get :: "sessionKey \<Rightarrow> (sessionKey, nat) gomap \<Rightarrow> nat option" where
  "registry_get k r = map_of r k"

definition registry_count :: "(sessionKey, nat) gomap \<Rightarrow> nat" where
  "registry_count r = length r"

section \<open>Statements\<close>

text \<open>A statement fails, violates a constraint, or changes the tables.\<close>

type_synonym 'a fop = "fasitd \<Rightarrow> (err + 'a) \<times> fasitd"

definition execF :: "io \<Rightarrow> string \<Rightarrow> (fasitd \<Rightarrow> string option) \<Rightarrow> (fasitd \<Rightarrow> fasitd) \<Rightarrow> unit fop" where
  "execF io name violates f st =
     (if io_fails io name then (Inl (ErrQuery name), st)
      else case violates st of Some code \<Rightarrow> (Inl (PgError code), st) | None \<Rightarrow> (Inr (), f st))"

definition no_command :: "uuid \<Rightarrow> fasitd \<Rightarrow> string option" where
  "no_command diid st = (if list_ex (\<lambda>c. fc_diid c = diid) (fd_commands st) then None else Some ''23503'')"

definition command_violates :: "io \<Rightarrow> fasitd_command \<Rightarrow> fasitd \<Rightarrow> string option" where
  "command_violates io c st =
     (if io_jsonb io (fc_values c) = None then Some ''22P02''
      else if list_ex (\<lambda>c'. fc_diid c' = fc_diid c) (fd_commands st) then Some ''23505''
      else if \<not> list_ex (\<lambda>e. e_ID e = fc_environment_id c) (environments (fd_db st)) then Some ''23503''
      else if \<not> list_ex (\<lambda>a. fa_id a = fc_feature_assignment_id c) (feature_assignments (fd_db st)) then Some ''23503''
      else None)"

definition CreateCommand :: "io \<Rightarrow> fasitd_command \<Rightarrow> unit fop" where
  "CreateCommand io c = execF io ''CreateCommand'' (command_violates io c)
     (\<lambda>st. st \<lparr>fd_commands := fd_commands st @ [c \<lparr>fc_values := (case io_jsonb io (fc_values c) of Some v \<Rightarrow> v | None \<Rightarrow> []),
        fc_created := io_now io\<rparr>]\<rparr>)"

definition AppendCommandStatus :: "io \<Rightarrow> uuid \<Rightarrow> string \<Rightarrow> string \<Rightarrow> unit fop" where
  "AppendCommandStatus io diid status message = execF io ''AppendCommandStatus'' (no_command diid)
     (\<lambda>st. st \<lparr>fd_statuses := fd_statuses st @ [\<lparr>fs_diid = diid, fs_status = status, fs_message = message, fs_created = io_now io\<rparr>]\<rparr>)"

text \<open>The lines of a batch are inserted together or not at all; its error is that of the batch.\<close>

definition AppendHelmLogs :: "io \<Rightarrow> uuid \<Rightarrow> (gotime \<times> string \<times> string) list \<Rightarrow> unit fop" where
  "AppendHelmLogs io diid lines = execF io ''AppendHelmLogs'' (no_command diid)
     (\<lambda>st. st \<lparr>fd_logs := fd_logs st @ map (\<lambda>(t, m, k). \<lparr>fl_diid = diid, fl_time = t, fl_message = m, fl_kind = k\<rparr>) lines\<rparr>)"

definition fasitd_DeleteReleaseStatuses :: "io \<Rightarrow> uuid \<Rightarrow> unit fop" where
  "fasitd_DeleteReleaseStatuses io envID = execF io ''DeleteReleaseStatusesInEnvironment'' (\<lambda>st. None)
     (\<lambda>st. st \<lparr>fd_releases := filter (\<lambda>e. fst (fst e) \<noteq> envID) (fd_releases st)\<rparr>)"

definition fasitd_SetReleaseStatus :: "io \<Rightarrow> uuid \<Rightarrow> string \<Rightarrow> string \<Rightarrow> string \<Rightarrow> int \<Rightarrow> gotime \<Rightarrow> unit fop" where
  "fasitd_SetReleaseStatus io envID feature version status revision lastDeployed =
     execF io (''SetReleaseStatus '' @ feature)
       (\<lambda>st. if list_ex (\<lambda>e. e_ID e = envID) (environments (fd_db st)) then None else Some ''23503'')
       (\<lambda>st. st \<lparr>fd_releases := gm_put (envID, feature)
          (case map_of (fd_releases st) (envID, feature) of
             None \<Rightarrow> \<lparr>fr_version = version, fr_status = status, fr_revision = revision, fr_last_deployed = lastDeployed, fr_created = io_now io\<rparr>
           | Some r \<Rightarrow> r \<lparr>fr_version := version, fr_status := status, fr_revision := revision, fr_last_deployed := lastDeployed\<rparr>)
          (fd_releases st)\<rparr>)"

definition GetCommandByDIID :: "uuid \<Rightarrow> fasitd \<Rightarrow> fasitd_command option" where
  "GetCommandByDIID diid st = find (\<lambda>c. fc_diid c = diid) (fd_commands st)"

text \<open>The view of the latest status of a command: the last by creation time, then by identifier.\<close>

definition fasitd_command_status :: "uuid \<Rightarrow> fasitd \<Rightarrow> fasitd_status option" where
  "fasitd_command_status diid st =
     (case sort_key fs_created (filter (\<lambda>s. fs_diid s = diid) (fd_statuses st)) of [] \<Rightarrow> None | ss \<Rightarrow> Some (last ss))"

section \<open>The server\<close>

datatype code = InvalidArgument | NotFound | AlreadyExists | FailedPrecondition | Internal | Unauthenticated

datatype rpc_error = RpcStatus code string | RpcErr err | RpcEOF

definition sendBuffer :: nat where
  "sendBuffer = 64"

text \<open>\<open>time.Unix\<close> and \<open>Time.Unix\<close>, \<open>Time.UnixNano\<close>.\<close>

definition unix_epoch :: gotime where
  "unix_epoch = 719162 * 24 * hour"

definition time_Unix :: "int \<Rightarrow> int \<Rightarrow> gotime" where
  "time_Unix secs nsec = unix_epoch + secs * second + nsec"

definition Time_Unix :: "gotime \<Rightarrow> int" where
  "Time_Unix t = (t - unix_epoch) div second"

definition Time_UnixNano :: "gotime \<Rightarrow> int" where
  "Time_UnixNano t = t - unix_epoch"

definition resolveEnvironment :: "io \<Rightarrow> string \<Rightarrow> string \<Rightarrow> db \<Rightarrow> err + uuid" where
  "resolveEnvironment io tenant environment d =
     bindE (wrapE ''get tenant'' (GetTenantByName io tenant d)) (\<lambda>t.
     bindE (wrapE ''get environment'' (environment_GetByName io (t_ID t) environment d)) (\<lambda>env. Inr (e_ID env)))"

definition wrapF :: "string \<Rightarrow> unit fop \<Rightarrow> fasitd \<Rightarrow> err option \<times> fasitd" where
  "wrapF msg f st = (case f st of (Inl e, st) \<Rightarrow> (Some (Wrap msg e), st) | (Inr u, st) \<Rightarrow> (None, st))"

definition server_appendStatus :: "io \<Rightarrow> (string \<Rightarrow> err + uuid) \<Rightarrow> string \<Rightarrow> string \<Rightarrow> string \<Rightarrow> fasitd \<Rightarrow> err option \<times> fasitd" where
  "server_appendStatus io parse diidStr statusStr msg st = (case parse diidStr of
      Inl e \<Rightarrow> (Some (Wrap ''parse diid'' e), st)
    | Inr diid \<Rightarrow> wrapF ''append command status'' (AppendCommandStatus io diid statusStr msg) st)"

definition appendLogs :: "io \<Rightarrow> (string \<Rightarrow> err + uuid) \<Rightarrow> string \<Rightarrow> (int \<times> string \<times> string) list \<Rightarrow> fasitd \<Rightarrow> err option \<times> fasitd" where
  "appendLogs io parse diidStr lines st = (case parse diidStr of
      Inl e \<Rightarrow> (Some (Wrap ''parse diid'' e), st)
    | Inr diid \<Rightarrow>
        if length lines = 0 then (None, st)
        else (case AppendHelmLogs io diid (map (\<lambda>(nano, msg, kind). (time_Unix 0 nano, msg, kind)) lines) st of
            (Inl e, st) \<Rightarrow> (Some e, st) | (Inr u, st) \<Rightarrow> (None, st)))"

fun set_inventory :: "io \<Rightarrow> uuid \<Rightarrow> ProtoRelease list \<Rightarrow> fasitd \<Rightarrow> err option \<times> fasitd" where
  "set_inventory io envID [] st = (None, st)"
| "set_inventory io envID (r # rs) st =
     (case wrapF ''set release status'' (fasitd_SetReleaseStatus io envID (pr_Name r) (pr_Version r) (pr_Status r) (pr_Revision r)
             (time_Unix (pr_LastDeployedUnix r) 0)) st of
        (Some e, st) \<Rightarrow> (Some e, st)
      | (None, st) \<Rightarrow> set_inventory io envID rs st)"

definition setReleases :: "io \<Rightarrow> uuid \<Rightarrow> ProtoRelease list \<Rightarrow> fasitd \<Rightarrow> err option \<times> fasitd" where
  "setReleases io envID rels st =
     (case wrapF ''delete release statuses'' (fasitd_DeleteReleaseStatuses io envID) st of
        (Some e, st) \<Rightarrow> (Some e, st)
      | (None, st) \<Rightarrow> set_inventory io envID rels st)"

definition handleAgentMessage :: "io \<Rightarrow> (string \<Rightarrow> err + uuid) \<Rightarrow> uuid \<Rightarrow> AgentMessage \<Rightarrow> fasitd \<Rightarrow> rpc_error option \<times> fasitd" where
  "handleAgentMessage io parse envID msg st = (case msg of
      Ack diid \<Rightarrow> apfst (map_option RpcErr) (server_appendStatus io parse diid ''installing'' [] st)
    | CommandStatus diid status hash error \<Rightarrow> apfst (map_option RpcErr) (server_appendStatus io parse diid status error st)
    | Logs diid lines \<Rightarrow> apfst (map_option RpcErr) (appendLogs io parse diid lines st)
    | Releases created rels \<Rightarrow> apfst (map_option RpcErr) (setReleases io envID rels st)
    | Register tenant environment version protocol \<Rightarrow> (Some (RpcStatus InvalidArgument ''duplicate register message''), st)
    | Heartbeat \<Rightarrow> (None, st)
    | NoMessage \<Rightarrow> (None, st))"

text \<open>
  A connection: it opens with the first message, then receives until the stream ends or a write failed, and closes. What
  \<open>Recv\<close> of the stream returned is an argument.
\<close>

datatype received = RecvEOF | RecvErr err | Recv AgentMessage

definition new_session :: "string \<Rightarrow> string \<Rightarrow> string \<Rightarrow> uuid \<Rightarrow> session" where
  "new_session tenant environment version envID = \<lparr>se_key = keyFor tenant environment, se_environmentID = envID,
     se_fasitdVersion = version, se_send = [], se_done = False, se_sendErr = None, se_wire = []\<rparr>"

definition Connect_open :: "io \<Rightarrow> received \<Rightarrow> fasitd \<Rightarrow> (rpc_error + nat) \<times> fasitd" where
  "Connect_open io first st = (case first of
      RecvEOF \<Rightarrow> (Inl RpcEOF, st)
    | RecvErr e \<Rightarrow> (Inl (RpcErr e), st)
    | Recv (Register tenant environment version protocol) \<Rightarrow>
        if tenant = [] \<or> environment = []
        then (Inl (RpcStatus InvalidArgument ''register requires tenant and environment''), st)
        else (case resolveEnvironment io tenant environment (fd_db st) of
            Inl e \<Rightarrow> (Inl (RpcStatus NotFound (''unknown tenant/environment: '' @ Error e)), st)
          | Inr envID \<Rightarrow>
              let p = fd_next st; sess = new_session tenant environment version envID
              in case registry_add (se_key sess) p (fd_sessions st) of
                (False, _) \<Rightarrow> (Inl (RpcStatus AlreadyExists ''a fasitd session is already active for this environment''), st)
              | (True, reg) \<Rightarrow> (Inr p, st \<lparr>fd_heap := gm_put p sess (fd_heap st), fd_next := Suc p, fd_sessions := reg\<rparr>))
    | Recv msg \<Rightarrow> (Inl (RpcStatus InvalidArgument ''first message must be Register''), st))"

text \<open>One iteration of the receive loop: \<open>Some r\<close> when \<open>Connect\<close> returns \<open>r\<close>. A message that cannot be handled is only logged.\<close>

definition Connect_recv :: "io \<Rightarrow> (string \<Rightarrow> err + uuid) \<Rightarrow> session \<Rightarrow> received \<Rightarrow> fasitd \<Rightarrow> rpc_error option option \<times> fasitd" where
  "Connect_recv io parse sess inbound st = (case inbound of
      RecvEOF \<Rightarrow> (Some None, st)
    | RecvErr e \<Rightarrow> (Some (Some (RpcErr e)), st)
    | Recv msg \<Rightarrow> (case se_sendErr sess of
          Some e \<Rightarrow> (Some (Some (RpcErr e)), st)
        | None \<Rightarrow> (None, snd (handleAgentMessage io parse (se_environmentID sess) msg st))))"

definition update_session :: "nat \<Rightarrow> (session \<Rightarrow> session) \<Rightarrow> fasitd \<Rightarrow> fasitd" where
  "update_session p f st = (case map_of (fd_heap st) p of None \<Rightarrow> st | Some s \<Rightarrow> st \<lparr>fd_heap := gm_put p (f s) (fd_heap st)\<rparr>)"

text \<open>The deferred calls of a connection, in the order they run.\<close>

definition close_done :: "nat \<Rightarrow> fasitd \<Rightarrow> fasitd" where
  "close_done p = update_session p (\<lambda>s. s \<lparr>se_done := True\<rparr>)"

definition deregister :: "sessionKey \<Rightarrow> nat \<Rightarrow> fasitd \<Rightarrow> fasitd" where
  "deregister k p st = st \<lparr>fd_sessions := registry_remove k p (fd_sessions st)\<rparr>"

definition Connect_close :: "sessionKey \<Rightarrow> nat \<Rightarrow> fasitd \<Rightarrow> fasitd" where
  "Connect_close k p st = deregister k p (close_done p st)"

text \<open>One iteration of the goroutine that writes to the stream, when the channel is not empty; it ends after a failed write.\<close>

definition sender_step :: "(Command \<Rightarrow> err option) \<Rightarrow> session \<Rightarrow> session" where
  "sender_step stream_Send s = (if se_sendErr s \<noteq> None then s else case se_send s of
      [] \<Rightarrow> s
    | cmd # rest \<Rightarrow> (case stream_Send cmd of
          None \<Rightarrow> s \<lparr>se_send := rest, se_wire := se_wire s @ [cmd]\<rparr>
        | Some e \<Rightarrow> s \<lparr>se_send := rest, se_sendErr := Some e\<rparr>))"

section \<open>The deployer\<close>

datatype delivery = NoSession | Queued | Closed | TimedOut

text \<open>The cases of the \<open>select\<close> that may be taken: a send while the channel has room, a closed \<open>done\<close>, the timer.\<close>

definition may_select :: "session \<Rightarrow> delivery \<Rightarrow> bool" where
  "may_select s c = (case c of NoSession \<Rightarrow> False | Queued \<Rightarrow> length (se_send s) < sendBuffer | Closed \<Rightarrow> se_done s | TimedOut \<Rightarrow> True)"

definition create_command :: "externals \<Rightarrow> io \<Rightarrow> uuid \<Rightarrow> DeployDecision \<Rightarrow> fasitd \<Rightarrow> (err + string) \<times> fasitd" where
  "create_command x io diid dec st = (case x_marshal x (GMap (dd_Values dec)) of
      Inl e \<Rightarrow> (Inl (Wrap ''marshal values'' e), st)
    | Inr vals \<Rightarrow> (case CreateCommand io \<lparr>fc_diid = diid, fc_environment_id = dd_EnvironmentID dec,
            fc_feature_assignment_id = dd_FeatureAssignmentID dec, fc_feature_name = f_Name (dd_Feature dec),
            fc_feature_version = f_Version (dd_Feature dec), fc_chart = f_Chart (dd_Feature dec), fc_config_hash = dd_Hash dec,
            fc_uninstall = False, fc_values = vals, fc_created = 0\<rparr> st of
          (Inl e, st) \<Rightarrow> (Inl (Wrap ''create command'' e), st)
        | (Inr u, st) \<Rightarrow> (Inr vals, st)))"

definition the_command :: "uuid \<Rightarrow> DeployDecision \<Rightarrow> string \<Rightarrow> Command" where
  "the_command diid dec vals = \<lparr>cm_Diid = uuid_String diid, cm_Name = f_Name (dd_Feature dec), cm_Version = f_Version (dd_Feature dec),
     cm_Chart = f_Chart (dd_Feature dec), cm_ConfigHash = dd_Hash dec, cm_TimeoutMs = Milliseconds (f_Timeout (dd_Feature dec)),
     cm_Values = vals, cm_Uninstall = False\<rparr>"

definition deliver :: "(session \<Rightarrow> delivery) \<Rightarrow> sessionKey \<Rightarrow> Command \<Rightarrow> fasitd \<Rightarrow> delivery \<times> fasitd" where
  "deliver sel k cmd st = (case registry_get k (fd_sessions st) of
      None \<Rightarrow> (NoSession, st)
    | Some p \<Rightarrow> (case map_of (fd_heap st) p of
          None \<Rightarrow> (NoSession, st)
        | Some s \<Rightarrow> (case sel s of
              Queued \<Rightarrow> (Queued, update_session p (\<lambda>s. s \<lparr>se_send := se_send s @ [cmd]\<rparr>) st)
            | c \<Rightarrow> (c, st))))"

fun outcome :: "delivery \<Rightarrow> string \<times> string" where
  "outcome NoSession = (''undeliverable'', ''no active fasitd session for environment'')"
| "outcome Queued = (''sent'', [])"
| "outcome Closed = (''undeliverable'', ''fasitd session closed before delivery'')"
| "outcome TimedOut = (''undeliverable'', ''timeout writing to fasitd session'')"

definition record_outcome :: "io \<Rightarrow> uuid \<Rightarrow> delivery \<Rightarrow> fasitd \<Rightarrow> err option \<times> fasitd" where
  "record_outcome io diid c st = wrapF ''append command status'' (AppendCommandStatus io diid (fst (outcome c)) (snd (outcome c))) st"

definition dispatch :: "externals \<Rightarrow> io \<Rightarrow> (session \<Rightarrow> delivery) \<Rightarrow> uuid \<Rightarrow> DeployDecision \<Rightarrow> fasitd \<Rightarrow> err option \<times> fasitd" where
  "dispatch x io sel diid dec st = (case create_command x io diid dec st of
      (Inl e, st) \<Rightarrow> (Some e, st)
    | (Inr vals, st) \<Rightarrow> (case deliver sel (keyFor (dd_TenantName dec) (dd_EnvironmentName dec)) (the_command diid dec vals) st of
        (c, st) \<Rightarrow> record_outcome io diid c st))"

definition fasitd_Deploy :: "externals \<Rightarrow> io \<Rightarrow> (session \<Rightarrow> delivery) \<Rightarrow> DeployDecision list \<Rightarrow> fasitd \<Rightarrow> (err + unit) \<times> fasitd" where
  "fasitd_Deploy x io sel decisions st =
     (let deploys = filter (\<lambda>dec. dd_Action dec = ActionDeploy) decisions
      in (Inr (), fold (\<lambda>(dec, diid) st. snd (dispatch x io sel diid dec st)) (zip deploys (map (io_diid io) [0..<length deploys])) st))"

definition fasitd_Uninstall :: "uuid \<Rightarrow> string \<Rightarrow> string \<Rightarrow> string \<Rightarrow> fasitd \<Rightarrow> (err + unit) \<times> fasitd" where
  "fasitd_Uninstall diid tenantName envName releaseName st = (Inr (), st)"

section \<open>The agent\<close>

definition agent_ack :: "string \<Rightarrow> AgentMessage" where
  "agent_ack diid = Ack diid"

definition statusMsg :: "string \<Rightarrow> string \<Rightarrow> string \<Rightarrow> string \<Rightarrow> AgentMessage" where
  "statusMsg diid status hash errMsg = CommandStatus diid status hash errMsg"

definition logBatch :: "gotime \<Rightarrow> string \<Rightarrow> string \<Rightarrow> AgentMessage" where
  "logBatch now diid msg = Logs diid [(Time_UnixNano now, msg, [])]"

text \<open>Sending stops at the first error.\<close>

fun send_all :: "(AgentMessage \<Rightarrow> err option) \<Rightarrow> AgentMessage list \<Rightarrow> err option \<times> AgentMessage list" where
  "send_all send [] = (None, [])"
| "send_all send (m # ms) = (case send m of Some e \<Rightarrow> (Some e, []) | None \<Rightarrow> apsnd (Cons m) (send_all send ms))"

definition dry_run_line :: "Command \<Rightarrow> string" where
  "dry_run_line cmd = ''dry-run: would '' @ (if cm_Uninstall cmd then ''uninstall'' else ''deploy'') @ '' '' @ cm_Name cmd @
     '' version '' @ cm_Version cmd @ '' (no helm executed)''"

definition handleCommand :: "gotime \<Rightarrow> (AgentMessage \<Rightarrow> err option) \<Rightarrow> Command \<Rightarrow> err option \<times> AgentMessage list" where
  "handleCommand now send cmd =
     (let diid = cm_Diid cmd
      in send_all send [agent_ack diid, logBatch now diid (dry_run_line cmd), statusMsg diid ''deployed'' (cm_ConfigHash cmd) []])"

definition proto_release :: "helm_release \<Rightarrow> ProtoRelease" where
  "proto_release r = \<lparr>pr_Name = hl_Name r, pr_Version = hl_ChartVersion r, pr_Status = hl_Status r,
     pr_Revision = int32 (hl_Version r), pr_LastDeployedUnix = Time_Unix (hl_LastDeployed r)\<rparr>"

definition report_releases :: "gotime \<Rightarrow> err + helm_release list \<Rightarrow> AgentMessage option" where
  "report_releases now releases = (case releases of
      Inl e \<Rightarrow> None | Inr rels \<Rightarrow> Some (Releases (Time_Unix now) (map proto_release rels)))"

section \<open>The registry as an interface\<close>

text \<open>What the server and the deployer rely on: a key holds at most one session, and only the session it holds can be removed.\<close>

locale session_registry =
  fixes add :: "'k \<Rightarrow> 'p \<Rightarrow> 'r \<Rightarrow> bool \<times> 'r" and remove :: "'k \<Rightarrow> 'p \<Rightarrow> 'r \<Rightarrow> 'r" and get :: "'k \<Rightarrow> 'r \<Rightarrow> 'p option"
  assumes add_free: "fst (add k p r) \<longleftrightarrow> get k r = None"
    and get_add: "get k' (snd (add k p r)) = (if k' = k \<and> get k r = None then Some p else get k' r)"
    and get_remove: "get k' (remove k p r) = (if k' = k \<and> get k r = Some p then None else get k' r)"
begin

lemma add_taken: "get k r = Some q \<Longrightarrow> \<not> fst (add k p r) \<and> get k' (snd (add k p r)) = get k' r"
  by (simp add: add_free get_add)

lemma added: "add k p r = (True, r') \<Longrightarrow> get k r = None \<and> get k' r' = (if k' = k then Some p else get k' r)"
  using add_free [of k p r] get_add [of k' k p r] by auto

lemma remove_stale: "get k r \<noteq> Some p \<Longrightarrow> get k' (remove k p r) = get k' r"
  by (simp add: get_remove)

lemma remove_undoes: "add k p r = (True, r') \<Longrightarrow> get k' (remove k p r') = get k' r"
  using added by (auto simp: get_remove)

end

interpretation registry: session_registry registry_add registry_remove registry_get
  by unfold_locales (auto simp: registry_add_def registry_remove_def registry_get_def split: option.splits)

section \<open>Well-formed states\<close>

definition env_named :: "db \<Rightarrow> sessionKey \<Rightarrow> uuid \<Rightarrow> bool" where
  "env_named d k u \<longleftrightarrow> (\<exists>t \<in> set (tenants d). \<exists>e \<in> set (environments d).
     t_Name t = fst k \<and> e_TenantID e = t_ID t \<and> e_Name e = snd k \<and> e_ID e = u)"

definition names_ok :: "db \<Rightarrow> bool" where
  "names_ok d \<longleftrightarrow> (\<forall>k u v. env_named d k u \<longrightarrow> env_named d k v \<longrightarrow> u = v)"

text \<open>The command a row asked for, sent to a session of the environment of the row.\<close>

definition carries :: "uuid \<Rightarrow> Command \<Rightarrow> fasitd_command \<Rightarrow> bool" where
  "carries envID cmd c \<longleftrightarrow> cm_Diid cmd = uuid_String (fc_diid c) \<and> cm_Name cmd = fc_feature_name c \<and> cm_Version cmd = fc_feature_version c \<and>
     cm_Chart cmd = fc_chart c \<and> cm_ConfigHash cmd = fc_config_hash c \<and> cm_Uninstall cmd = fc_uninstall c \<and> fc_environment_id c = envID"

definition registered :: "fasitd \<Rightarrow> bool" where
  "registered st \<longleftrightarrow> (\<forall>k p. registry_get k (fd_sessions st) = Some p \<longrightarrow> (\<exists>s. map_of (fd_heap st) p = Some s \<and> se_key s = k)) \<and>
     (\<forall>p s. map_of (fd_heap st) p = Some s \<longrightarrow> \<not> se_done s \<longrightarrow> registry_get (se_key s) (fd_sessions st) = Some p)"

definition sessions_ok :: "fasitd \<Rightarrow> bool" where
  "sessions_ok st \<longleftrightarrow> (\<forall>p s. map_of (fd_heap st) p = Some s \<longrightarrow> p < fd_next st \<and> length (se_send s) \<le> sendBuffer \<and>
     env_named (fd_db st) (se_key s) (se_environmentID s) \<and>
     (\<forall>cmd \<in> set (se_send s) \<union> set (se_wire s). \<exists>c \<in> set (fd_commands st). carries (se_environmentID s) cmd c))"

definition rows_ok :: "fasitd \<Rightarrow> bool" where
  "rows_ok st \<longleftrightarrow> distinct (map fc_diid (fd_commands st)) \<and>
     fs_diid ` set (fd_statuses st) \<subseteq> fc_diid ` set (fd_commands st) \<and> fl_diid ` set (fd_logs st) \<subseteq> fc_diid ` set (fd_commands st) \<and>
     fc_environment_id ` set (fd_commands st) \<subseteq> e_ID ` set (environments (fd_db st)) \<and>
     fc_feature_assignment_id ` set (fd_commands st) \<subseteq> fa_id ` set (feature_assignments (fd_db st)) \<and>
     fst ` fst ` set (fd_releases st) \<subseteq> e_ID ` set (environments (fd_db st))"

definition fasitd_ok :: "fasitd \<Rightarrow> bool" where
  "fasitd_ok st \<longleftrightarrow> registered st \<and> sessions_ok st \<and> rows_ok st \<and> names_ok (fd_db st)"

section \<open>What a report changes\<close>

definition reports_only :: "fasitd \<Rightarrow> fasitd \<Rightarrow> bool" where
  "reports_only st st' \<longleftrightarrow> fd_heap st' = fd_heap st \<and> fd_next st' = fd_next st \<and> fd_sessions st' = fd_sessions st \<and>
     fd_db st' = fd_db st \<and> fd_commands st' = fd_commands st \<and> (rows_ok st \<longrightarrow> rows_ok st')"

lemma reports_only_refl [simp, intro]: "reports_only st st"
  by (simp add: reports_only_def)

lemma reports_only_trans [trans]: "reports_only a b \<Longrightarrow> reports_only b c \<Longrightarrow> reports_only a c"
  by (simp add: reports_only_def)

lemma reports_only_ok: "reports_only st st' \<Longrightarrow> fasitd_ok st \<Longrightarrow> fasitd_ok st'"
  by (simp add: reports_only_def fasitd_ok_def registered_def sessions_ok_def)

lemma execF_reports_only:
  "(violates st = None \<Longrightarrow> reports_only st (f st)) \<Longrightarrow> reports_only st (snd (execF io name violates f st))"
  by (auto simp: execF_def split: option.splits)

lemma no_command_None: "no_command diid st = None \<longleftrightarrow> diid \<in> fc_diid ` set (fd_commands st)"
  by (auto simp: no_command_def list_ex_iff)

lemma AppendCommandStatus_reports_only: "reports_only st (snd (AppendCommandStatus io diid status message st))"
  unfolding AppendCommandStatus_def
  by (rule execF_reports_only) (auto simp: no_command_None reports_only_def rows_ok_def)

lemma AppendHelmLogs_reports_only: "reports_only st (snd (AppendHelmLogs io diid lines st))"
  unfolding AppendHelmLogs_def
  by (rule execF_reports_only) (auto simp: no_command_None reports_only_def rows_ok_def split: prod.splits)

lemma DeleteReleases_reports_only: "reports_only st (snd (fasitd_DeleteReleaseStatuses io envID st))"
  unfolding fasitd_DeleteReleaseStatuses_def
proof (rule execF_reports_only)
  let ?m = "filter (\<lambda>e. fst (fst e) \<noteq> envID) (fd_releases st)"
  have "fst ` fst ` set ?m \<subseteq> fst ` fst ` set (fd_releases st)" by (intro image_mono) auto
  from subset_trans [OF this] show "reports_only st (st \<lparr>fd_releases := ?m\<rparr>)"
    by (simp add: reports_only_def rows_ok_def del: image_image set_filter)
qed

lemma SetRelease_reports_only: "reports_only st (snd (fasitd_SetReleaseStatus io envID feature version status revision t st))"
  unfolding fasitd_SetReleaseStatus_def
proof (rule execF_reports_only, goal_cases)
  case 1
  then have env: "envID \<in> e_ID ` set (environments (fd_db st))" by (auto simp: list_ex_iff split: if_splits)
  have keys: "fst ` fst ` set (gm_put (envID, feature) v m) = insert envID (fst ` fst ` set m)" for v :: fasitd_release and m
    unfolding set_keys_gm_put by simp
  show ?case using env by (simp add: reports_only_def rows_ok_def keys del: image_image)
qed

lemma wrapF_snd [simp]: "snd (wrapF msg f st) = snd (f st)"
  by (auto simp: wrapF_def split: prod.splits sum.splits)

lemma set_inventory_reports_only: "reports_only st (snd (set_inventory io envID rels st))"
proof (induction rels arbitrary: st)
  case (Cons r rels)
  let ?f = "fasitd_SetReleaseStatus io envID (pr_Name r) (pr_Version r) (pr_Status r) (pr_Revision r) (time_Unix (pr_LastDeployedUnix r) 0)"
  obtain e st1 where w: "wrapF ''set release status'' ?f st = (e, st1)" by fastforce
  then have "st1 = snd (?f st)" using wrapF_snd [of "''set release status''" ?f st] by simp
  then have one: "reports_only st st1" using SetRelease_reports_only by simp
  show ?case
    by (cases e) (use one Cons.IH [of st1] in \<open>auto simp: w intro: reports_only_trans\<close>)
qed simp

lemma setReleases_reports_only: "reports_only st (snd (setReleases io envID rels st))"
proof -
  let ?f = "fasitd_DeleteReleaseStatuses io envID"
  obtain e st1 where w: "wrapF ''delete release statuses'' ?f st = (e, st1)" by fastforce
  then have "st1 = snd (?f st)" using wrapF_snd [of "''delete release statuses''" ?f st] by simp
  then have one: "reports_only st st1" using DeleteReleases_reports_only by simp
  show ?thesis
    by (cases e) (use one set_inventory_reports_only [of st1] in \<open>auto simp: setReleases_def w intro: reports_only_trans\<close>)
qed

lemma server_appendStatus_reports_only: "reports_only st (snd (server_appendStatus io parse diid status msg st))"
  by (auto simp: server_appendStatus_def AppendCommandStatus_reports_only split: sum.splits)

lemma appendLogs_reports_only: "reports_only st (snd (appendLogs io parse diid lines st))"
proof -
  have "reports_only st (snd (case AppendHelmLogs io d ls st of (Inl e, st) \<Rightarrow> (Some e, st) | (Inr u, st) \<Rightarrow> (None, st)))" for d ls
    using AppendHelmLogs_reports_only [of st io d ls] by (auto split: prod.splits sum.splits)
  then show ?thesis by (simp add: appendLogs_def split: sum.splits)
qed

lemma handleAgentMessage_reports_only: "reports_only st (snd (handleAgentMessage io parse envID msg st))"
  by (cases msg) (simp_all add: handleAgentMessage_def server_appendStatus_reports_only appendLogs_reports_only setReleases_reports_only)

lemma Connect_recv_reports_only: "reports_only st (snd (Connect_recv io parse sess inbound st))"
  by (auto simp: Connect_recv_def handleAgentMessage_reports_only split: received.splits option.splits)

lemma record_outcome_reports_only: "reports_only st (snd (record_outcome io diid c st))"
  by (simp add: record_outcome_def AppendCommandStatus_reports_only)

section \<open>The lane as a step relation\<close>

text \<open>A deploy decision on its way: its command is stored, its delivery is decided, its outcome is recorded.\<close>

datatype dispatching = Created uuid DeployDecision string | Delivered uuid delivery

record fasitd_sys =
  fy_state :: fasitd
  fy_dispatching :: "dispatching list"

text \<open>
  The other parts of the server keep what the rows refer to: environments and assignments are not removed, names stay
  unambiguous. A decision names its environment as the tables do.
\<close>

definition grows :: "db \<Rightarrow> db \<Rightarrow> bool" where
  "grows d d' \<longleftrightarrow> names_ok d' \<and> (\<forall>k u. env_named d k u \<longrightarrow> env_named d' k u) \<and>
     e_ID ` set (environments d) \<subseteq> e_ID ` set (environments d') \<and> fa_id ` set (feature_assignments d) \<subseteq> fa_id ` set (feature_assignments d')"

inductive fasitd_step :: "externals \<Rightarrow> (string \<Rightarrow> err + uuid) \<Rightarrow> fasitd_sys \<Rightarrow> fasitd_sys \<Rightarrow> bool"
  for x :: externals and parse :: "string \<Rightarrow> err + uuid" where
  step_open: "Connect_open io first (fy_state y) = (r, st) \<Longrightarrow> fasitd_step x parse y (y \<lparr>fy_state := st\<rparr>)"
| step_recv: "map_of (fd_heap (fy_state y)) p = Some sess \<Longrightarrow> \<not> se_done sess \<Longrightarrow> Connect_recv io parse sess inbound (fy_state y) = (r, st) \<Longrightarrow>
    fasitd_step x parse y (y \<lparr>fy_state := st\<rparr>)"
| step_send: "fasitd_step x parse y (y \<lparr>fy_state := update_session p (sender_step stream_Send) (fy_state y)\<rparr>)"
| step_done: "fasitd_step x parse y (y \<lparr>fy_state := close_done p (fy_state y)\<rparr>)"
| step_remove: "map_of (fd_heap (fy_state y)) p = Some sess \<Longrightarrow> se_done sess \<Longrightarrow>
    fasitd_step x parse y (y \<lparr>fy_state := deregister (se_key sess) p (fy_state y)\<rparr>)"
| step_create: "env_named (fd_db (fy_state y)) (keyFor (dd_TenantName dec) (dd_EnvironmentName dec)) (dd_EnvironmentID dec) \<Longrightarrow>
    create_command x io diid dec (fy_state y) = (Inr vals, st) \<Longrightarrow>
    fasitd_step x parse y \<lparr>fy_state = st, fy_dispatching = fy_dispatching y @ [Created diid dec vals]\<rparr>"
| step_deliver: "fy_dispatching y = before @ Created diid dec vals # after \<Longrightarrow> (\<And>s. may_select s (sel s)) \<Longrightarrow>
    deliver sel (keyFor (dd_TenantName dec) (dd_EnvironmentName dec)) (the_command diid dec vals) (fy_state y) = (c, st) \<Longrightarrow>
    fasitd_step x parse y \<lparr>fy_state = st, fy_dispatching = before @ Delivered diid c # after\<rparr>"
| step_record: "fy_dispatching y = before @ Delivered diid c # after \<Longrightarrow> record_outcome io diid c (fy_state y) = (r, st) \<Longrightarrow>
    fasitd_step x parse y \<lparr>fy_state = st, fy_dispatching = before @ after\<rparr>"
| step_db: "grows (fd_db (fy_state y)) d \<Longrightarrow> fasitd_step x parse y (y \<lparr>fy_state := (fy_state y) \<lparr>fd_db := d\<rparr>\<rparr>)"

text \<open>A stored command that is still to be delivered has its row.\<close>

fun dispatching_ok :: "fasitd \<Rightarrow> dispatching \<Rightarrow> bool" where
  "dispatching_ok st (Created diid dec vals) \<longleftrightarrow>
     env_named (fd_db st) (keyFor (dd_TenantName dec) (dd_EnvironmentName dec)) (dd_EnvironmentID dec) \<and>
     (\<exists>c \<in> set (fd_commands st). carries (dd_EnvironmentID dec) (the_command diid dec vals) c)"
| "dispatching_ok st (Delivered diid c) \<longleftrightarrow> True"

definition fasitd_sys_ok :: "fasitd_sys \<Rightarrow> bool" where
  "fasitd_sys_ok y \<longleftrightarrow> fasitd_ok (fy_state y) \<and> (\<forall>m \<in> set (fy_dispatching y). dispatching_ok (fy_state y) m)"

section \<open>Every step keeps the lane well formed\<close>

lemma update_session_fields [simp]:
  "fd_next (update_session p f st) = fd_next st" "fd_sessions (update_session p f st) = fd_sessions st"
  "fd_db (update_session p f st) = fd_db st" "fd_commands (update_session p f st) = fd_commands st"
  "fd_statuses (update_session p f st) = fd_statuses st" "fd_logs (update_session p f st) = fd_logs st"
  "fd_releases (update_session p f st) = fd_releases st"
  by (simp_all add: update_session_def split: option.split)

lemma update_session_heap:
  "map_of (fd_heap (update_session p f st)) q = (if q = p then map_option f (map_of (fd_heap st) p) else map_of (fd_heap st) q)"
  by (auto simp: update_session_def split: option.split)

lemma registeredI:
  assumes "\<And>k p. registry_get k (fd_sessions st) = Some p \<Longrightarrow> \<exists>s. map_of (fd_heap st) p = Some s \<and> se_key s = k"
    and "\<And>p s. map_of (fd_heap st) p = Some s \<Longrightarrow> \<not> se_done s \<Longrightarrow> registry_get (se_key s) (fd_sessions st) = Some p"
  shows "registered st"
  using assms unfolding registered_def by blast

lemma registeredD:
  assumes "registered st"
  shows "registry_get k (fd_sessions st) = Some p \<Longrightarrow> \<exists>s. map_of (fd_heap st) p = Some s \<and> se_key s = k"
    and "map_of (fd_heap st) p = Some s \<Longrightarrow> \<not> se_done s \<Longrightarrow> registry_get (se_key s) (fd_sessions st) = Some p"
  using assms unfolding registered_def by blast+

lemma update_session_registered:
  assumes "registered st"
    and f: "\<And>s. map_of (fd_heap st) p = Some s \<Longrightarrow> se_key (f s) = se_key s \<and> (se_done s \<longrightarrow> se_done (f s))"
  shows "registered (update_session p f st)"
proof (rule registeredI)
  fix k q assume "registry_get k (fd_sessions (update_session p f st)) = Some q"
  then obtain s where "map_of (fd_heap st) q = Some s" "se_key s = k" using registeredD(1) [OF assms(1), of k q] by auto
  then show "\<exists>s. map_of (fd_heap (update_session p f st)) q = Some s \<and> se_key s = k"
    using f by (auto simp: update_session_heap)
next
  fix q s assume "map_of (fd_heap (update_session p f st)) q = Some s" and "\<not> se_done s"
  then obtain s0 where "map_of (fd_heap st) q = Some s0" "\<not> se_done s0" "se_key s = se_key s0"
    using f by (auto simp: update_session_heap split: if_splits)
  then show "registry_get (se_key s) (fd_sessions (update_session p f st)) = Some q"
    using registeredD(2) [OF assms(1)] by simp
qed

definition session_ok :: "fasitd \<Rightarrow> session \<Rightarrow> bool" where
  "session_ok st s \<longleftrightarrow> length (se_send s) \<le> sendBuffer \<and> env_named (fd_db st) (se_key s) (se_environmentID s) \<and>
     (\<forall>cmd \<in> set (se_send s) \<union> set (se_wire s). \<exists>c \<in> set (fd_commands st). carries (se_environmentID s) cmd c)"

lemma sessions_ok_iff: "sessions_ok st \<longleftrightarrow> (\<forall>p s. map_of (fd_heap st) p = Some s \<longrightarrow> p < fd_next st \<and> session_ok st s)"
  by (simp add: sessions_ok_def session_ok_def)

lemma update_session_ok:
  assumes "fasitd_ok st"
    and "\<And>s. map_of (fd_heap st) p = Some s \<Longrightarrow> se_key (f s) = se_key s \<and> (se_done s \<longrightarrow> se_done (f s))"
    and "\<And>s. map_of (fd_heap st) p = Some s \<Longrightarrow> session_ok st s \<Longrightarrow> session_ok st (f s)"
  shows "fasitd_ok (update_session p f st)"
proof -
  have same: "session_ok (update_session p f st) = session_ok st" by (simp add: session_ok_def fun_eq_iff)
  have "sessions_ok (update_session p f st)"
    using assms(1,3) by (auto simp: sessions_ok_iff fasitd_ok_def same update_session_heap split: if_splits)
  moreover have "rows_ok (update_session p f st)" using assms(1) by (simp add: fasitd_ok_def rows_ok_def)
  ultimately show ?thesis using assms(1) update_session_registered [of st p f] assms(2) by (simp add: fasitd_ok_def)
qed

lemma sender_step_ok: "session_ok st s \<Longrightarrow> session_ok st (sender_step stream_Send s)"
  by (auto simp: sender_step_def session_ok_def split: list.splits option.splits)

lemma sender_step_key [simp]: "se_key (sender_step stream_Send s) = se_key s" "se_done (sender_step stream_Send s) = se_done s"
  by (simp_all add: sender_step_def split: list.splits option.splits)

lemma sender_ok: "fasitd_ok st \<Longrightarrow> fasitd_ok (update_session p (sender_step stream_Send) st)"
  by (rule update_session_ok) (simp_all add: sender_step_ok)

lemma close_done_ok: "fasitd_ok st \<Longrightarrow> fasitd_ok (close_done p st)"
  unfolding close_done_def by (rule update_session_ok) (simp_all add: session_ok_def)

lemma deregister_ok:
  assumes "fasitd_ok st" and s: "map_of (fd_heap st) p = Some s" "se_done s"
  shows "fasitd_ok (deregister (se_key s) p st)"
proof -
  have reg: "registered st" using assms(1) by (simp add: fasitd_ok_def)
  have "registered (deregister (se_key s) p st)"
  proof (rule registeredI)
    fix k q assume "registry_get k (fd_sessions (deregister (se_key s) p st)) = Some q"
    then have "registry_get k (fd_sessions st) = Some q" by (simp add: deregister_def registry.get_remove split: if_splits)
    then show "\<exists>s'. map_of (fd_heap (deregister (se_key s) p st)) q = Some s' \<and> se_key s' = k"
      using registeredD(1) [OF reg, of k q] by (simp add: deregister_def)
  next
    fix q s' assume s': "map_of (fd_heap (deregister (se_key s) p st)) q = Some s'" "\<not> se_done s'"
    then have "registry_get (se_key s') (fd_sessions st) = Some q" using registeredD(2) [OF reg] by (simp add: deregister_def)
    moreover have "q \<noteq> p" using s s' by (auto simp: deregister_def)
    ultimately show "registry_get (se_key s') (fd_sessions (deregister (se_key s) p st)) = Some q"
      by (auto simp: deregister_def registry.get_remove)
  qed
  then show ?thesis using assms(1) by (simp add: fasitd_ok_def deregister_def sessions_ok_def rows_ok_def)
qed

lemma resolveEnvironment_named: "resolveEnvironment io tenant environment d = Inr u \<Longrightarrow> env_named d (keyFor tenant environment) u"
  by (fastforce simp: resolveEnvironment_def bindE_eq_Inr GetTenantByName_def environment_GetByName_def env_named_def keyFor_def
      find_Some_iff in_set_conv_nth)

lemma resolveEnvironment_eq:
  assumes "names_ok d" and "env_named d (keyFor tenant environment) u" and "resolveEnvironment io tenant environment d = Inr v"
  shows "v = u"
  using assms resolveEnvironment_named [OF assms(3)] unfolding names_ok_def by blast

lemma Connect_open_Inr:
  assumes "Connect_open io first st = (Inr p, st')"
  shows "\<exists>tenant environment version protocol envID. first = Recv (Register tenant environment version protocol) \<and>
    tenant \<noteq> [] \<and> environment \<noteq> [] \<and> resolveEnvironment io tenant environment (fd_db st) = Inr envID \<and> p = fd_next st \<and>
    fst (registry_add (keyFor tenant environment) p (fd_sessions st)) \<and>
    st' = st \<lparr>fd_heap := gm_put p (new_session tenant environment version envID) (fd_heap st), fd_next := Suc p,
       fd_sessions := snd (registry_add (keyFor tenant environment) p (fd_sessions st))\<rparr>"
  using assms
  by (auto simp: Connect_open_def Let_def new_session_def split: received.splits AgentMessage.splits sum.splits prod.splits bool.splits if_splits)

lemma Connect_open_Inl: "Connect_open io first st = (Inl e, st') \<Longrightarrow> st' = st"
  by (auto simp: Connect_open_def Let_def split: received.splits AgentMessage.splits sum.splits prod.splits bool.splits if_splits)

lemma Connect_open_ok:
  assumes "fasitd_ok st" and "Connect_open io first st = (Inr p, st')"
  shows "fasitd_ok st'"
proof -
  obtain tenant environment version envID where env: "resolveEnvironment io tenant environment (fd_db st) = Inr envID"
    and p: "p = fd_next st" and free: "fst (registry_add (keyFor tenant environment) p (fd_sessions st))"
    and st': "st' = st \<lparr>fd_heap := gm_put p (new_session tenant environment version envID) (fd_heap st), fd_next := Suc p,
       fd_sessions := snd (registry_add (keyFor tenant environment) p (fd_sessions st))\<rparr>"
    using Connect_open_Inr [OF assms(2)] by blast
  have reg: "registered st" and ses: "sessions_ok st" using assms(1) by (simp_all add: fasitd_ok_def)
  have fresh: "map_of (fd_heap st) p = None"
    using ses p by (cases "map_of (fd_heap st) p") (auto simp: sessions_ok_def)
  have get: "registry_get k (fd_sessions st') = (if k = keyFor tenant environment then Some p else registry_get k (fd_sessions st))"
    and none: "registry_get (keyFor tenant environment) (fd_sessions st) = None" for k
    using free by (simp_all add: st' registry.add_free registry.get_add)
  have heap: "map_of (fd_heap st') q = (if q = p then Some (new_session tenant environment version envID) else map_of (fd_heap st) q)" for q
    by (simp add: st')
  have "registered st'"
  proof (rule registeredI)
    fix k q assume q: "registry_get k (fd_sessions st') = Some q"
    show "\<exists>s. map_of (fd_heap st') q = Some s \<and> se_key s = k"
    proof (cases "k = keyFor tenant environment")
      case True
      then show ?thesis using q by (simp add: get heap new_session_def)
    next
      case False
      then show ?thesis using q registeredD(1) [OF reg, of k q] fresh by (auto simp: get heap)
    qed
  next
    fix q s assume "map_of (fd_heap st') q = Some s" "\<not> se_done s"
    then show "registry_get (se_key s) (fd_sessions st') = Some q"
      using registeredD(2) [OF reg, of q s] none by (auto simp: get heap new_session_def split: if_splits)
  qed
  moreover have "sessions_ok st'"
    using ses p resolveEnvironment_named [OF env] by (auto simp: sessions_ok_def heap st' new_session_def less_Suc_eq split: if_splits)
  moreover have "rows_ok st'" using assms(1) by (simp add: fasitd_ok_def rows_ok_def st')
  ultimately show ?thesis using assms(1) by (simp add: fasitd_ok_def st')
qed

definition command_row :: "io \<Rightarrow> uuid \<Rightarrow> DeployDecision \<Rightarrow> string \<Rightarrow> fasitd_command" where
  "command_row io diid dec v = \<lparr>fc_diid = diid, fc_environment_id = dd_EnvironmentID dec,
     fc_feature_assignment_id = dd_FeatureAssignmentID dec, fc_feature_name = f_Name (dd_Feature dec),
     fc_feature_version = f_Version (dd_Feature dec), fc_chart = f_Chart (dd_Feature dec), fc_config_hash = dd_Hash dec,
     fc_uninstall = False, fc_values = v, fc_created = io_now io\<rparr>"

lemma create_command_Inr:
  assumes "create_command x io diid dec st = (Inr vals, st')"
  shows "\<exists>v. x_marshal x (GMap (dd_Values dec)) = Inr vals \<and> io_jsonb io vals = Some v \<and>
    st' = st \<lparr>fd_commands := fd_commands st @ [command_row io diid dec v]\<rparr> \<and>
    diid \<notin> fc_diid ` set (fd_commands st) \<and> dd_EnvironmentID dec \<in> e_ID ` set (environments (fd_db st)) \<and>
    dd_FeatureAssignmentID dec \<in> fa_id ` set (feature_assignments (fd_db st))"
  using assms
  by (auto simp: create_command_def CreateCommand_def execF_def command_violates_def command_row_def list_ex_iff
      intro!: rev_image_eqI split: sum.splits prod.splits option.splits if_splits)

lemma create_command_Inl: "create_command x io diid dec st = (Inl e, st') \<Longrightarrow> st' = st"
  by (auto simp: create_command_def CreateCommand_def execF_def split: sum.splits prod.splits option.splits if_splits)

lemma create_command_carries:
  assumes "create_command x io diid dec st = (Inr vals, st')"
  shows "\<exists>c \<in> set (fd_commands st'). carries (dd_EnvironmentID dec) (the_command diid dec vals) c"
  using create_command_Inr [OF assms] by (auto simp: carries_def the_command_def command_row_def)

lemma create_command_ok:
  assumes "fasitd_ok st" and "create_command x io diid dec st = (Inr vals, st')"
  shows "fasitd_ok st'"
proof -
  obtain v where st': "st' = st \<lparr>fd_commands := fd_commands st @ [command_row io diid dec v]\<rparr>"
    and row: "diid \<notin> fc_diid ` set (fd_commands st)" "dd_EnvironmentID dec \<in> e_ID ` set (environments (fd_db st))"
      "dd_FeatureAssignmentID dec \<in> fa_id ` set (feature_assignments (fd_db st))"
    using create_command_Inr [OF assms(2)] by blast
  have "sessions_ok st'" using assms(1) by (fastforce simp: fasitd_ok_def sessions_ok_def st')
  moreover have "rows_ok st'" using assms(1) row by (auto simp: fasitd_ok_def rows_ok_def st' command_row_def)
  moreover have "registered st'" using assms(1) by (simp add: fasitd_ok_def registered_def st')
  ultimately show ?thesis using assms(1) by (simp add: fasitd_ok_def st')
qed

text \<open>The deployer finds a session of the command's environment, and puts the command there only when there is room.\<close>

lemma deliver_cases:
  assumes "deliver sel k cmd st = (c, st')" and "registered st"
  shows "if c = Queued then \<exists>p s. registry_get k (fd_sessions st) = Some p \<and> map_of (fd_heap st) p = Some s \<and> se_key s = k \<and>
      sel s = Queued \<and> st' = update_session p (\<lambda>s. s \<lparr>se_send := se_send s @ [cmd]\<rparr>) st
    else st' = st"
proof (cases "registry_get k (fd_sessions st)")
  case None
  then show ?thesis using assms(1) by (auto simp: deliver_def)
next
  case (Some p)
  then obtain s where s: "map_of (fd_heap st) p = Some s" "se_key s = k" using registeredD(1) [OF assms(2), of k p] by auto
  then show ?thesis using assms(1) Some by (cases "sel s") (auto simp: deliver_def)
qed

lemma deliver_ok:
  assumes "fasitd_ok st" and "deliver sel k cmd st = (c, st')" and "\<And>s. may_select s (sel s)"
    and "env_named (fd_db st) k envID" and "\<exists>r \<in> set (fd_commands st). carries envID cmd r"
  shows "fasitd_ok st'"
proof -
  have reg: "registered st" and names: "names_ok (fd_db st)" using assms(1) by (simp_all add: fasitd_ok_def)
  note cs = deliver_cases [OF assms(2) reg]
  show ?thesis
  proof (cases "c = Queued")
    case True
    then obtain p s where s: "map_of (fd_heap st) p = Some s" "se_key s = k" "sel s = Queued"
      and st': "st' = update_session p (\<lambda>s. s \<lparr>se_send := se_send s @ [cmd]\<rparr>) st"
      using cs by auto
    have room: "length (se_send s) < sendBuffer" using assms(3) [of s] s(3) by (simp add: may_select_def)
    have env: "se_environmentID s' = envID" if "session_ok st s'" "se_key s' = k" for s'
      using that assms(4) names unfolding session_ok_def names_ok_def by blast
    show ?thesis
      unfolding st'
    proof (rule update_session_ok [OF assms(1)])
      fix s' assume s': "map_of (fd_heap st) p = Some s'" "session_ok st s'"
      then have eq: "s' = s" and e: "se_environmentID s = envID" using s env [of s'] by simp_all
      show "session_ok st (s' \<lparr>se_send := se_send s' @ [cmd]\<rparr>)"
        using s'(2) room assms(5) unfolding eq session_ok_def by (simp add: e ball_Un)
    qed simp
  qed (use cs assms(1) in simp)
qed

lemma grows_ok:
  assumes "fasitd_ok st" and "grows (fd_db st) d"
  shows "fasitd_ok (st \<lparr>fd_db := d\<rparr>)"
proof -
  have "registered (st \<lparr>fd_db := d\<rparr>)" using assms(1) by (simp add: fasitd_ok_def registered_def)
  moreover have "sessions_ok (st \<lparr>fd_db := d\<rparr>)"
    using assms unfolding fasitd_ok_def sessions_ok_def grows_def by (simp del: split_paired_All)
  moreover have "rows_ok (st \<lparr>fd_db := d\<rparr>)"
  proof -
    have "X \<subseteq> e_ID ` set (environments d)" if "X \<subseteq> e_ID ` set (environments (fd_db st))" for X
      using that assms(2) unfolding grows_def by (meson subset_trans)
    moreover have "X \<subseteq> fa_id ` set (feature_assignments d)" if "X \<subseteq> fa_id ` set (feature_assignments (fd_db st))" for X
      using that assms(2) unfolding grows_def by (meson subset_trans)
    ultimately show ?thesis using assms(1) by (simp add: fasitd_ok_def rows_ok_def del: image_image)
  qed
  ultimately show ?thesis using assms(2) by (simp add: fasitd_ok_def grows_def)
qed

lemma dispatching_ok_mono:
  assumes "dispatching_ok st m" and "\<And>k u. env_named (fd_db st) k u \<Longrightarrow> env_named (fd_db st') k u"
    and "set (fd_commands st) \<subseteq> set (fd_commands st')"
  shows "dispatching_ok st' m"
  using assms by (cases m) auto

lemma fasitd_step_ok:
  assumes "fasitd_step x parse y y'" and "fasitd_sys_ok y"
  shows "fasitd_sys_ok y'"
proof -
  have ok: "fasitd_ok (fy_state y)" and disp: "\<And>m. m \<in> set (fy_dispatching y) \<Longrightarrow> dispatching_ok (fy_state y) m"
    using assms(2) by (auto simp: fasitd_sys_ok_def)
  have keep: "fasitd_sys_ok \<lparr>fy_state = st, fy_dispatching = ms\<rparr>"
    if "fasitd_ok st" "fd_db st = fd_db (fy_state y)" "set (fd_commands (fy_state y)) \<subseteq> set (fd_commands st)"
      "\<And>m. m \<in> set ms \<Longrightarrow> m \<in> set (fy_dispatching y) \<or> dispatching_ok st m" for st ms
    using that dispatching_ok_mono [of "fy_state y" _ st] disp unfolding fasitd_sys_ok_def by fastforce
  have keep0: "fasitd_sys_ok (y \<lparr>fy_state := st\<rparr>)"
    if "fasitd_ok st" "fd_db st = fd_db (fy_state y)" "fd_commands st = fd_commands (fy_state y)" for st
    using keep [of st "fy_dispatching y"] that by (cases y) simp
  from assms(1) show ?thesis
  proof (cases rule: fasitd_step.cases)
    case (step_open io first r st)
    then show ?thesis
    proof (cases r)
      case (Inr p)
      then show ?thesis using step_open keep0 [of st] Connect_open_ok [OF ok] Connect_open_Inr by fastforce
    qed (use assms(2) Connect_open_Inl in fastforce)
  next
    case (step_recv p sess io inbound r st)
    have "reports_only (fy_state y) st" using Connect_recv_reports_only [of "fy_state y" io parse sess inbound] step_recv(4) by simp
    then show ?thesis using keep0 [of st] reports_only_ok [OF _ ok] step_recv(1) by (simp add: reports_only_def)
  next
    case (step_send p stream_Send)
    then show ?thesis using keep0 sender_ok [OF ok] by simp
  next
    case (step_done p)
    then show ?thesis using keep0 [of "close_done p (fy_state y)"] close_done_ok [OF ok] by (simp add: close_done_def)
  next
    case (step_remove p sess)
    then show ?thesis using keep0 [of "deregister (se_key sess) p (fy_state y)"] deregister_ok [OF ok] by (simp add: deregister_def)
  next
    case (step_create dec io diid vals st)
    have st: "fd_db st = fd_db (fy_state y)" "set (fd_commands (fy_state y)) \<subseteq> set (fd_commands st)"
      using create_command_Inr [OF step_create(3)] by auto
    have "dispatching_ok st (Created diid dec vals)"
      using step_create(2) create_command_carries [OF step_create(3)] st(1) by simp
    then show ?thesis
      unfolding step_create(1) by (intro keep) (use st create_command_ok [OF ok step_create(3)] in auto)
  next
    case (step_deliver before diid dec vals after sel c st)
    have dc: "dispatching_ok (fy_state y) (Created diid dec vals)" by (rule disp) (simp add: step_deliver(2))
    have "fd_db st = fd_db (fy_state y)" "fd_commands st = fd_commands (fy_state y)"
      using deliver_cases [OF step_deliver(4)] ok by (auto simp: fasitd_ok_def split: if_splits)
    moreover have "fasitd_ok st"
      using dc deliver_ok [OF ok step_deliver(4,3)] by auto
    ultimately show ?thesis unfolding step_deliver(1) by (intro keep) (auto simp: step_deliver(2))
  next
    case (step_record before diid c after io r st)
    have "reports_only (fy_state y) st" using record_outcome_reports_only [of "fy_state y" io diid c] step_record(3) by simp
    then show ?thesis
      unfolding step_record(1) by (intro keep) (auto simp: reports_only_ok [OF _ ok] reports_only_def step_record(2))
  next
    case (step_db d)
    have "dispatching_ok ((fy_state y) \<lparr>fd_db := d\<rparr>) m" if "m \<in> set (fy_dispatching y)" for m
      by (rule dispatching_ok_mono [OF disp [OF that]]) (use step_db(2) in \<open>simp_all add: grows_def del: split_paired_All\<close>)
    then show ?thesis using step_db grows_ok [OF ok] by (simp add: fasitd_sys_ok_def)
  qed
qed

definition empty_lane :: "db \<Rightarrow> fasitd" where
  "empty_lane d = \<lparr>fd_db = d, fd_commands = [], fd_statuses = [], fd_logs = [], fd_releases = [], fd_heap = [], fd_next = 0, fd_sessions = []\<rparr>"

lemma empty_lane_ok: "names_ok d \<Longrightarrow> fasitd_sys_ok \<lparr>fy_state = empty_lane d, fy_dispatching = []\<rparr>"
  by (simp add: fasitd_sys_ok_def fasitd_ok_def empty_lane_def registered_def sessions_ok_def rows_ok_def registry_get_def)

text \<open>When a connection has ended, its environment can connect again.\<close>

lemma Connect_close_frees:
  assumes "registered st" and "map_of (fd_heap st) p = Some s"
  shows "registry_get (se_key s) (fd_sessions (Connect_close (se_key s) p st)) \<noteq> Some p"
    and "\<not> se_done s \<Longrightarrow> fst (registry_add (se_key s) q (fd_sessions (Connect_close (se_key s) p st)))"
  using registeredD(2) [OF assms]
  by (simp_all add: Connect_close_def deregister_def close_done_def registry.get_remove registry.add_free)

lemma lane_reachable_ok:
  assumes "(fasitd_step x parse)\<^sup>*\<^sup>* \<lparr>fy_state = empty_lane d, fy_dispatching = []\<rparr> y" and "names_ok d"
  shows "fasitd_sys_ok y"
  using assms(1) by (induction rule: rtranclp_induct) (auto intro: fasitd_step_ok empty_lane_ok assms(2))

text \<open>
  C11. The shadow lane is always well formed: however connections open and close, messages arrive, commands are stored, delivered,
  written and recorded in between one another, every environment has at most one live session and the registry holds it; no session's
  channel holds more than 64 commands; every command in a channel or on the wire of a session is a stored command for the environment of that
  session; and the tables keep their keys and references.
\<close>

theorem lane_well_formed:
  assumes "(fasitd_step x parse)\<^sup>*\<^sup>* \<lparr>fy_state = empty_lane d, fy_dispatching = []\<rparr> y" and "names_ok d"
  shows "fasitd_ok (fy_state y) \<and>
    (\<forall>p q s t. map_of (fd_heap (fy_state y)) p = Some s \<and> map_of (fd_heap (fy_state y)) q = Some t \<and> \<not> se_done s \<and> \<not> se_done t \<and>
      se_key s = se_key t \<longrightarrow> p = q)"
proof -
  have ok: "fasitd_ok (fy_state y)" using lane_reachable_ok [OF assms] by (simp add: fasitd_sys_ok_def)
  then have reg: "registered (fy_state y)" by (simp add: fasitd_ok_def)
  have "p = q" if "map_of (fd_heap (fy_state y)) p = Some s" "map_of (fd_heap (fy_state y)) q = Some t" "\<not> se_done s" "\<not> se_done t"
    "se_key s = se_key t" for p q s t
    using registeredD(2) [OF reg that(1,3)] registeredD(2) [OF reg that(2,4)] that(5) by simp
  then show ?thesis using ok by blast
qed

definition example_decision :: DeployDecision where
  "example_decision = decide ActionDeploy ''config changed''
     \<lparr>dd_EnvironmentID = 1, dd_EnvironmentName = ''prod'', dd_TenantName = ''acme'', dd_FeatureAssignmentID = 2,
      dd_Feature = example_feature, dd_Values = [], dd_Hash = ''h'', dd_Action = ActionDeploy, dd_Details = [], dd_Message = []\<rparr>"

definition example_lane :: fasitd where
  "example_lane = snd (Connect_open store_io (Recv (Register ''acme'' ''prod'' ''v1'' 1)) (empty_lane example_db))"

lemma example_names_ok: "names_ok example_db"
  by (simp add: names_ok_def env_named_def example_db_def)

lemma example_lane_eq: "example_lane = (empty_lane example_db) \<lparr>fd_heap := [(0, new_session ''acme'' ''prod'' ''v1'' 1)], fd_next := 1,
   fd_sessions := [((''acme'', ''prod''), 0)]\<rparr>"
  by (simp add: example_lane_def Connect_open_def resolveEnvironment_def GetTenantByName_def environment_GetByName_def one_def
      example_db_def empty_lane_def registry_add_def new_session_def keyFor_def Let_def)

lemma example_lane_step:
  "fasitd_step x parse \<lparr>fy_state = empty_lane example_db, fy_dispatching = []\<rparr> \<lparr>fy_state = example_lane, fy_dispatching = []\<rparr>"
  using fasitd_step.step_open [of store_io "Recv (Register ''acme'' ''prod'' ''v1'' 1)"
      "\<lparr>fy_state = empty_lane example_db, fy_dispatching = []\<rparr>" _ example_lane]
  by (simp add: example_lane_def prod_eq_iff)

theorem lane_well_formed_witness:
  "\<exists>y. (fasitd_step example_externals (\<lambda>s. Inr 7))\<^sup>*\<^sup>* \<lparr>fy_state = empty_lane example_db, fy_dispatching = []\<rparr> y \<and>
     fd_sessions (fy_state y) = [((''acme'', ''prod''), 0)] \<and> fasitd_ok (fy_state y)"
proof (intro exI conjI)
  let ?y = "\<lparr>fy_state = example_lane, fy_dispatching = []\<rparr>"
  show steps: "(fasitd_step example_externals (\<lambda>s. Inr 7))\<^sup>*\<^sup>* \<lparr>fy_state = empty_lane example_db, fy_dispatching = []\<rparr> ?y"
    by (rule r_into_rtranclp) (rule example_lane_step)
  show "fd_sessions (fy_state ?y) = [((''acme'', ''prod''), 0)]" by (simp add: example_lane_eq)
  show "fasitd_ok (fy_state ?y)" using lane_well_formed [OF steps example_names_ok] by blast
qed

section \<open>Dispatching a decision\<close>

lemma AppendCommandStatus_known:
  assumes "\<not> io_fails io ''AppendCommandStatus''" and "diid \<in> fc_diid ` set (fd_commands st)"
  shows "AppendCommandStatus io diid status message st =
    (Inr (), st \<lparr>fd_statuses := fd_statuses st @ [\<lparr>fs_diid = diid, fs_status = status, fs_message = message, fs_created = io_now io\<rparr>]\<rparr>)"
  using assms no_command_None [of diid st] by (simp add: AppendCommandStatus_def execF_def)

lemma AppendHelmLogs_known:
  assumes "\<not> io_fails io ''AppendHelmLogs''" and "diid \<in> fc_diid ` set (fd_commands st)"
  shows "AppendHelmLogs io diid lines st =
    (Inr (), st \<lparr>fd_logs := fd_logs st @ map (\<lambda>(t, m, k). \<lparr>fl_diid = diid, fl_time = t, fl_message = m, fl_kind = k\<rparr>) lines\<rparr>)"
  using assms no_command_None [of diid st] by (simp add: AppendHelmLogs_def execF_def)

text \<open>The lifecycle of a command: its statuses in order.\<close>

definition lifecycle :: "uuid \<Rightarrow> fasitd \<Rightarrow> string list" where
  "lifecycle diid st = map fs_status (filter (\<lambda>s. fs_diid s = diid) (fd_statuses st))"

lemma fresh_lifecycle:
  assumes "rows_ok st" and "diid \<notin> fc_diid ` set (fd_commands st)"
  shows "filter (\<lambda>s. fs_diid s = diid) (fd_statuses st) = []"
  using assms by (auto simp: rows_ok_def filter_empty_conv)

text \<open>
  C13. A dispatched command is recorded as sent exactly when it is in the channel of the session of its environment: a decision
  whose values cannot be encoded or whose command cannot be stored changes nothing; otherwise the command is stored and gets one status,
  sent when it was put last into the channel of the session that the registry holds, and undeliverable with the reason when there is no
  session, when it was closed or when the timer ran out, in which case every channel is as it was.
\<close>

theorem dispatch_records_delivery:
  assumes "fasitd_ok st" and "dispatch x io sel diid dec st = (r, st')" and "\<not> io_fails io ''AppendCommandStatus''"
  shows "case create_command x io diid dec st of
      (Inl e, _) \<Rightarrow> r = Some e \<and> st' = st
    | (Inr vals, st1) \<Rightarrow> \<exists>c. r = None \<and> fd_commands st' = fd_commands st1 \<and> diid \<in> fc_diid ` set (fd_commands st') \<and>
        fd_statuses st' = fd_statuses st @ [\<lparr>fs_diid = diid, fs_status = fst (outcome c), fs_message = snd (outcome c), fs_created = io_now io\<rparr>] \<and>
        lifecycle diid st' = [if c = Queued then ''sent'' else ''undeliverable''] \<and>
        (if c = Queued
         then \<exists>p s. registry_get (keyFor (dd_TenantName dec) (dd_EnvironmentName dec)) (fd_sessions st) = Some p \<and>
           map_of (fd_heap st) p = Some s \<and>
           map_of (fd_heap st') = (map_of (fd_heap st)) (p \<mapsto> s \<lparr>se_send := se_send s @ [the_command diid dec vals]\<rparr>)
         else fd_heap st' = fd_heap st)"
proof (cases "create_command x io diid dec st")
  case (Pair a st1)
  show ?thesis
  proof (cases a)
    case (Inl e)
    then show ?thesis using Pair create_command_Inl assms(2) by (fastforce simp: dispatch_def)
  next
    case (Inr vals)
    note made = Pair [unfolded Inr]
    obtain v where st1: "st1 = st \<lparr>fd_commands := fd_commands st @ [command_row io diid dec v]\<rparr>"
      and fresh: "diid \<notin> fc_diid ` set (fd_commands st)"
      using create_command_Inr [OF made] by blast
    let ?k = "keyFor (dd_TenantName dec) (dd_EnvironmentName dec)" and ?cmd = "the_command diid dec vals"
    obtain c st2 where del: "deliver sel ?k ?cmd st1 = (c, st2)" by fastforce
    have reg: "registered st1" using assms(1) by (simp add: fasitd_ok_def registered_def st1)
    note cs = deliver_cases [OF del reg]
    have st2: "fd_commands st2 = fd_commands st1" "fd_statuses st2 = fd_statuses st"
      using cs by (auto simp: st1 split: if_splits)
    have known: "diid \<in> fc_diid ` set (fd_commands st2)" by (simp add: st2 st1 command_row_def)
    have st': "r = None" "st' = st2 \<lparr>fd_statuses := fd_statuses st @ [\<lparr>fs_diid = diid, fs_status = fst (outcome c),
        fs_message = snd (outcome c), fs_created = io_now io\<rparr>]\<rparr>"
      using assms(2) by (simp_all add: dispatch_def made del record_outcome_def wrapF_def AppendCommandStatus_known [OF assms(3) known] st2)
    have life: "lifecycle diid st' = [if c = Queued then ''sent'' else ''undeliverable'']"
      using fresh_lifecycle [OF _ fresh] assms(1) by (cases c) (simp_all add: lifecycle_def st' fasitd_ok_def)
    have "if c = Queued then \<exists>p s. registry_get ?k (fd_sessions st) = Some p \<and> map_of (fd_heap st) p = Some s \<and>
           map_of (fd_heap st') = (map_of (fd_heap st)) (p \<mapsto> s \<lparr>se_send := se_send s @ [?cmd]\<rparr>)
         else fd_heap st' = fd_heap st"
      using cs by (auto simp: st'(2) st1 update_session_heap fun_eq_iff)
    moreover have "fd_commands st' = fd_commands st1" "diid \<in> fc_diid ` set (fd_commands st')"
      "fd_statuses st' = fd_statuses st @ [\<lparr>fs_diid = diid, fs_status = fst (outcome c), fs_message = snd (outcome c), fs_created = io_now io\<rparr>]"
      using st2 known by (simp_all add: st'(2))
    ultimately show ?thesis unfolding made prod.case sum.case using st'(1) life by (intro exI [of _ c] conjI)
  qed
qed

definition room_or_timeout :: "session \<Rightarrow> delivery" where
  "room_or_timeout s = (if length (se_send s) < sendBuffer then Queued else TimedOut)"

lemma room_or_timeout_may: "may_select s (room_or_timeout s)"
  by (simp add: may_select_def room_or_timeout_def)

lemma example_dispatch: "create_command example_externals store_io 7 example_decision example_lane =
    (Inr [], example_lane \<lparr>fd_commands := [command_row store_io 7 example_decision []]\<rparr>)"
  by (simp add: create_command_def CreateCommand_def execF_def command_violates_def command_row_def example_lane_eq empty_lane_def
      example_externals_def echo_externals_def example_decision_def decide_def example_db_def)

lemma example_lane_ok: "fasitd_ok example_lane"
  using fasitd_step_ok [OF example_lane_step empty_lane_ok [OF example_names_ok]] by (simp add: fasitd_sys_ok_def)

theorem dispatch_records_delivery_witness:
  "lifecycle 7 (snd (dispatch example_externals store_io room_or_timeout 7 example_decision example_lane)) \<in> {[''sent''], [''undeliverable'']}"
  using dispatch_records_delivery [OF example_lane_ok prod.collapse [symmetric], of store_io example_externals room_or_timeout 7 example_decision]
  by (auto simp: example_dispatch split: if_splits)

section \<open>The conversation of a command\<close>

text \<open>The server handles the messages of an agent in order.\<close>

definition serve :: "io \<Rightarrow> (string \<Rightarrow> err + uuid) \<Rightarrow> uuid \<Rightarrow> AgentMessage list \<Rightarrow> fasitd \<Rightarrow> fasitd" where
  "serve io parse envID msgs st = fold (\<lambda>m st. snd (handleAgentMessage io parse envID m st)) msgs st"

definition answers :: "gotime \<Rightarrow> Command \<Rightarrow> AgentMessage list" where
  "answers now cmd = snd (handleCommand now (\<lambda>m. None) cmd)"

definition status_rows :: "io \<Rightarrow> uuid \<Rightarrow> (string \<times> string) list \<Rightarrow> fasitd_status list" where
  "status_rows io diid = map (\<lambda>(s, m). \<lparr>fs_diid = diid, fs_status = s, fs_message = m, fs_created = io_now io\<rparr>)"

lemma dry_run_served:
  assumes "parse (uuid_String diid) = Inr diid" and "diid \<in> fc_diid ` set (fd_commands st)"
    and "\<not> io_fails io ''AppendCommandStatus''" and "\<not> io_fails io ''AppendHelmLogs''" and "cm_Diid cmd = uuid_String diid"
  shows "serve io parse envID (answers now cmd) st =
    st \<lparr>fd_statuses := fd_statuses st @ status_rows io diid [(''installing'', []), (''deployed'', [])],
      fd_logs := fd_logs st @ [\<lparr>fl_diid = diid, fl_time = time_Unix 0 (Time_UnixNano now), fl_message = dry_run_line cmd, fl_kind = []\<rparr>]\<rparr>"
  using assms(2)
  by (simp add: serve_def answers_def handleCommand_def agent_ack_def logBatch_def statusMsg_def handleAgentMessage_def
      server_appendStatus_def appendLogs_def assms(1,3,4,5) AppendCommandStatus_known AppendHelmLogs_known wrapF_def
      status_rows_def Let_def)

text \<open>The command at the head of a channel is written, answered, and the answers are handled.\<close>

definition converse :: "io \<Rightarrow> (string \<Rightarrow> err + uuid) \<Rightarrow> gotime \<Rightarrow> nat \<Rightarrow> fasitd \<Rightarrow> fasitd" where
  "converse io parse now p st = (case map_of (fd_heap st) p of
      None \<Rightarrow> st
    | Some s \<Rightarrow> (case se_send s of
          [] \<Rightarrow> st
        | cmd # rest \<Rightarrow> serve io parse (se_environmentID s) (answers now cmd) (update_session p (sender_step (\<lambda>c. None)) st)))"

lemma converse_statuses:
  assumes "map_of (fd_heap st) p = Some s" and "se_send s = cmd # rest" and "cm_Diid cmd = uuid_String diid"
    and "parse (uuid_String diid) = Inr diid" and "diid \<in> fc_diid ` set (fd_commands st)"
    and "\<not> io_fails io ''AppendCommandStatus''" and "\<not> io_fails io ''AppendHelmLogs''"
  shows "fd_statuses (converse io parse now p st) = fd_statuses st @ status_rows io diid [(''installing'', []), (''deployed'', [])]"
    and "fd_commands (converse io parse now p st) = fd_commands st"
    and "fd_logs (converse io parse now p st) = fd_logs st @ [\<lparr>fl_diid = diid, fl_time = now, fl_message = dry_run_line cmd, fl_kind = []\<rparr>]"
  using dry_run_served [of parse diid "update_session p (sender_step (\<lambda>c. None)) st" io cmd "se_environmentID s" now] assms(3-7)
  by (simp_all add: converse_def assms(1,2) time_Unix_def Time_UnixNano_def)

lemma latest_status:
  assumes "filter (\<lambda>s. fs_diid s = diid) (fd_statuses st) = rows @ [r]" and "sorted (map fs_created (rows @ [r]))"
  shows "fasitd_command_status diid st = Some r"
  unfolding fasitd_command_status_def assms(1) sort_key_id_if_sorted [OF assms(2)] by (cases rows) simp_all

lemma filter_status_rows [simp]:
  "filter (\<lambda>s. fs_diid s = diid) (status_rows io diid ls) = status_rows io diid ls"
  "map fs_status (status_rows io diid ls) = map fst ls" "map fs_created (status_rows io diid ls) = map (\<lambda>l. io_now io) ls"
  by (simp_all add: status_rows_def filter_map o_def case_prod_beta)

text \<open>A session with an empty channel, and what dispatching to it leaves.\<close>

definition idle_session :: "fasitd \<Rightarrow> sessionKey \<Rightarrow> nat \<Rightarrow> bool" where
  "idle_session st k p \<longleftrightarrow> registry_get k (fd_sessions st) = Some p \<and> (\<exists>s. map_of (fd_heap st) p = Some s \<and> se_send s = [] \<and> se_sendErr s = None \<and> \<not> se_done s)"

lemma deliver_idle:
  assumes "idle_session st k p"
  shows "deliver room_or_timeout k cmd st = (Queued, update_session p (\<lambda>s. s \<lparr>se_send := se_send s @ [cmd]\<rparr>) st)"
  using assms by (auto simp: idle_session_def deliver_def room_or_timeout_def sendBuffer_def)

lemma create_command_state:
  assumes "create_command x io diid dec st = (Inr vals, st1)"
  shows "fd_heap st1 = fd_heap st" "fd_sessions st1 = fd_sessions st" "fd_statuses st1 = fd_statuses st" "fd_db st1 = fd_db st"
    "diid \<in> fc_diid ` set (fd_commands st1)" "diid \<notin> fc_diid ` set (fd_commands st)"
  using create_command_Inr [OF assms] by (auto simp: command_row_def)

text \<open>The state after the delivery to an idle session, before its outcome is recorded.\<close>

lemma delivered:
  assumes "create_command x io diid dec st = (Inr vals, st1)" and "rows_ok st"
    and "idle_session st (keyFor (dd_TenantName dec) (dd_EnvironmentName dec)) p"
  shows "\<exists>st2 s. deliver room_or_timeout (keyFor (dd_TenantName dec) (dd_EnvironmentName dec)) (the_command diid dec vals) st1 = (Queued, st2) \<and>
    map_of (fd_heap st2) p = Some s \<and> se_send s = [the_command diid dec vals] \<and> se_sendErr s = None \<and> \<not> se_done s \<and> diid \<in> fc_diid ` set (fd_commands st2) \<and>
    filter (\<lambda>s. fs_diid s = diid) (fd_statuses st2) = []"
proof -
  let ?k = "keyFor (dd_TenantName dec) (dd_EnvironmentName dec)" and ?cmd = "the_command diid dec vals"
  note st1 = create_command_state [OF assms(1)]
  obtain s where s: "map_of (fd_heap st) p = Some s" "se_send s = []" "se_sendErr s = None" "\<not> se_done s"
    using assms(3) by (auto simp: idle_session_def)
  have "idle_session st1 ?k p" using assms(3) by (simp add: idle_session_def st1)
  from deliver_idle [OF this, of ?cmd] show ?thesis
    by (intro exI [of _ "update_session p (\<lambda>s. s \<lparr>se_send := se_send s @ [?cmd]\<rparr>) st1"] exI [of _ "s \<lparr>se_send := [?cmd]\<rparr>"])
      (use s st1 fresh_lifecycle [OF assms(2)] in \<open>auto simp: update_session_heap\<close>)
qed

lemma the_command_Diid [simp]: "cm_Diid (the_command diid dec vals) = uuid_String diid"
  by (simp add: the_command_def)

text \<open>
  A deploy decision that meets a connected agent ends deployed: when the session of the environment is idle and the
  outcome is recorded before the agent answers, the command goes through sent, installing and deployed, in this order, its log says
  that nothing was executed, and the view of the latest statuses shows it deployed.
\<close>

theorem dispatched_command_completes:
  assumes "fasitd_ok st" and "idle_session st (keyFor (dd_TenantName dec) (dd_EnvironmentName dec)) p"
    and "dispatch x io room_or_timeout diid dec st = (None, st1)" and "parse (uuid_String diid) = Inr diid"
    and "\<And>q. \<not> io_fails io' q" and "io_now io \<le> io_now io'"
  shows "lifecycle diid (converse io' parse now p st1) = [''sent'', ''installing'', ''deployed''] \<and>
    map_option fs_status (fasitd_command_status diid (converse io' parse now p st1)) = Some ''deployed'' \<and>
    (\<exists>l. fd_logs (converse io' parse now p st1) = fd_logs st1 @ [l] \<and> fl_diid l = diid \<and> fl_time l = now)"
proof -
  let ?k = "keyFor (dd_TenantName dec) (dd_EnvironmentName dec)"
  obtain vals st0 where made: "create_command x io diid dec st = (Inr vals, st0)"
    using assms(3) by (auto simp: dispatch_def split: prod.splits sum.splits)
  have rows: "rows_ok st" using assms(1) by (simp add: fasitd_ok_def)
  obtain st2 s where del: "deliver room_or_timeout ?k (the_command diid dec vals) st0 = (Queued, st2)"
    and s: "map_of (fd_heap st2) p = Some s" "se_send s = [the_command diid dec vals]"
    and known: "diid \<in> fc_diid ` set (fd_commands st2)" and none: "filter (\<lambda>s. fs_diid s = diid) (fd_statuses st2) = []"
    using delivered [OF made rows assms(2)] by blast
  have rec: "record_outcome io diid Queued st2 = (None, st1)" using assms(3) by (simp add: dispatch_def made del)
  then have "\<not> io_fails io ''AppendCommandStatus''"
    by (auto simp: record_outcome_def wrapF_def AppendCommandStatus_def execF_def split: prod.splits sum.splits if_splits)
  then have st1: "st1 = st2 \<lparr>fd_statuses := fd_statuses st2 @ status_rows io diid [(''sent'', [])]\<rparr>"
    using rec known by (simp add: record_outcome_def wrapF_def AppendCommandStatus_known status_rows_def)
  have s1: "map_of (fd_heap st1) p = Some s" "diid \<in> fc_diid ` set (fd_commands st1)" using s known by (simp_all add: st1)
  note conv = converse_statuses [where io = io' and parse = parse and diid = diid and now = now,
      OF s1(1) s(2) the_command_Diid assms(4) s1(2) assms(5) assms(5)]
  have all: "filter (\<lambda>s. fs_diid s = diid) (fd_statuses (converse io' parse now p st1)) =
      status_rows io diid [(''sent'', [])] @ status_rows io' diid [(''installing'', []), (''deployed'', [])]"
    unfolding conv(1) by (simp add: st1 none)
  have "fasitd_command_status diid (converse io' parse now p st1) = Some \<lparr>fs_diid = diid, fs_status = ''deployed'', fs_message = [], fs_created = io_now io'\<rparr>"
    by (rule latest_status [of diid _ "status_rows io diid [(''sent'', [])] @ status_rows io' diid [(''installing'', [])]"])
      (use all assms(6) in \<open>simp_all add: status_rows_def\<close>)
  then show ?thesis by (simp add: lifecycle_def all conv(3))
qed

text \<open>The session of the example is idle, and so is the dispatch to it.\<close>

lemma example_idle: "idle_session example_lane (keyFor (dd_TenantName example_decision) (dd_EnvironmentName example_decision)) 0"
  by (simp add: idle_session_def example_lane_eq registry_get_def keyFor_def example_decision_def decide_def new_session_def)

lemma example_parse: "\<exists>parse :: string \<Rightarrow> err + uuid. parse (uuid_String 7) = Inr 7"
  by (rule exI [of _ "\<lambda>s. Inr 7"]) simp

lemma example_dispatched: "\<exists>st1. dispatch example_externals store_io room_or_timeout 7 example_decision example_lane = (None, st1)"
proof -
  let ?st = "example_lane \<lparr>fd_commands := [command_row store_io 7 example_decision []]\<rparr>"
    and ?k = "keyFor (dd_TenantName example_decision) (dd_EnvironmentName example_decision)"
  have "idle_session ?st ?k 0" using example_idle by (simp add: idle_session_def)
  from deliver_idle [OF this] show ?thesis
    by (simp add: dispatch_def example_dispatch record_outcome_def wrapF_def AppendCommandStatus_known command_row_def)
qed

theorem dispatched_command_completes_witness:
  "\<exists>st1. dispatch example_externals store_io room_or_timeout 7 example_decision example_lane = (None, st1) \<and>
     lifecycle 7 (converse store_io (\<lambda>s. Inr 7) 5 0 st1) = [''sent'', ''installing'', ''deployed'']"
proof -
  obtain st1 where st1: "dispatch example_externals store_io room_or_timeout 7 example_decision example_lane = (None, st1)"
    using example_dispatched by blast
  show ?thesis
    using dispatched_command_completes [OF example_lane_ok example_idle st1, of "\<lambda>s. Inr 7" store_io 5] st1 by auto
qed

text \<open>Writing a command, answering it and handling the answers are steps of the lane.\<close>

lemma serve_steps:
  "map_of (fd_heap st) p = Some s \<Longrightarrow> se_sendErr s = None \<Longrightarrow> \<not> se_done s \<Longrightarrow>
   (fasitd_step x parse)\<^sup>*\<^sup>* \<lparr>fy_state = st, fy_dispatching = ms\<rparr> \<lparr>fy_state = serve io parse (se_environmentID s) msgs st, fy_dispatching = ms\<rparr>"
proof (induction msgs arbitrary: st)
  case (Cons m msgs)
  let ?st = "snd (handleAgentMessage io parse (se_environmentID s) m st)"
  have "Connect_recv io parse s (Recv m) st = (None, ?st)" by (simp add: Connect_recv_def Cons.prems(2))
  then have step: "fasitd_step x parse \<lparr>fy_state = st, fy_dispatching = ms\<rparr> \<lparr>fy_state = ?st, fy_dispatching = ms\<rparr>"
    using fasitd_step.step_recv [of "\<lparr>fy_state = st, fy_dispatching = ms\<rparr>" p s io parse "Recv m" None ?st x] Cons.prems(1,3) by simp
  have "map_of (fd_heap ?st) p = Some s" using handleAgentMessage_reports_only [of st io parse] Cons.prems(1) by (simp add: reports_only_def)
  from step Cons.IH [OF this Cons.prems(2,3)] show ?case by (simp add: serve_def)
qed (simp add: serve_def)

lemma converse_steps:
  assumes "map_of (fd_heap st) p = Some s" and "se_sendErr s = None" and "\<not> se_done s"
  shows "(fasitd_step x parse)\<^sup>*\<^sup>* \<lparr>fy_state = st, fy_dispatching = ms\<rparr> \<lparr>fy_state = converse io parse now p st, fy_dispatching = ms\<rparr>"
proof (cases "se_send s")
  case (Cons cmd rest)
  let ?st = "update_session p (sender_step (\<lambda>c. None)) st" and ?s = "sender_step (\<lambda>c. None) s"
  have step: "fasitd_step x parse \<lparr>fy_state = st, fy_dispatching = ms\<rparr> \<lparr>fy_state = ?st, fy_dispatching = ms\<rparr>"
    using fasitd_step.step_send [of x parse "\<lparr>fy_state = st, fy_dispatching = ms\<rparr>" p "\<lambda>c. None"] by simp
  have s: "map_of (fd_heap ?st) p = Some ?s" "se_sendErr ?s = None" "\<not> se_done ?s" "se_environmentID ?s = se_environmentID s"
    using assms by (simp_all add: update_session_heap sender_step_def Cons)
  from step serve_steps [OF s(1,2,3), of x parse ms io "answers now cmd"] show ?thesis
    by (simp add: converse_def assms(1) Cons s(4))
qed (simp add: converse_def assms(1))

text \<open>
  The outcome of a delivery can hide what became of it: the command is in the channel before the deployer records that it
  was sent, so there is a run of the lane in which the agent is quicker, and then the view of the latest statuses shows
  the command as sent for good although the agent has reported it deployed.
\<close>

theorem late_sent_hides_deployed:
  fixes io' io'' :: io
  assumes "fasitd_ok st" and "idle_session st (keyFor (dd_TenantName dec) (dd_EnvironmentName dec)) p"
    and "create_command x io diid dec st = (Inr vals, st1)" and "parse (uuid_String diid) = Inr diid"
    and "env_named (fd_db st) (keyFor (dd_TenantName dec) (dd_EnvironmentName dec)) (dd_EnvironmentID dec)"
    and "\<And>q. \<not> io_fails io' q" and "\<And>q. \<not> io_fails io'' q" and "io_now io' \<le> io_now io''"
  shows "\<exists>st2. (fasitd_step x parse)\<^sup>*\<^sup>* \<lparr>fy_state = st, fy_dispatching = []\<rparr> \<lparr>fy_state = st2, fy_dispatching = []\<rparr> \<and>
    lifecycle diid st2 = [''installing'', ''deployed'', ''sent''] \<and>
    map_option fs_status (fasitd_command_status diid st2) = Some ''sent''"
proof -
  let ?k = "keyFor (dd_TenantName dec) (dd_EnvironmentName dec)"
  have rows: "rows_ok st" using assms(1) by (simp add: fasitd_ok_def)
  obtain st2 s where del: "deliver room_or_timeout ?k (the_command diid dec vals) st1 = (Queued, st2)"
    and s: "map_of (fd_heap st2) p = Some s" "se_send s = [the_command diid dec vals]"
    and known: "diid \<in> fc_diid ` set (fd_commands st2)" and none: "filter (\<lambda>s. fs_diid s = diid) (fd_statuses st2) = []"
    and err: "se_sendErr s = None" "\<not> se_done s"
    using delivered [OF assms(3) rows assms(2)] by blast
  let ?st3 = "converse io' parse (io_now io') p st2"
  note conv = converse_statuses [where io = io' and parse = parse and diid = diid and now = "io_now io'",
      OF s the_command_Diid assms(4) known assms(6) assms(6)]
  define st4 where "st4 = ?st3 \<lparr>fd_statuses := fd_statuses ?st3 @ status_rows io'' diid [(''sent'', [])]\<rparr>"
  have rec: "record_outcome io'' diid Queued ?st3 = (None, st4)"
    using known assms(7) by (simp add: record_outcome_def wrapF_def AppendCommandStatus_known conv(2) st4_def status_rows_def)
  have "(fasitd_step x parse)\<^sup>*\<^sup>* \<lparr>fy_state = st, fy_dispatching = []\<rparr> \<lparr>fy_state = st1, fy_dispatching = [Created diid dec vals]\<rparr>"
    by (rule r_into_rtranclp) (use fasitd_step.step_create [of "\<lparr>fy_state = st, fy_dispatching = []\<rparr>" dec x io diid vals st1 parse] assms(3,5) in simp)
  also have "(fasitd_step x parse)\<^sup>*\<^sup>* \<lparr>fy_state = st1, fy_dispatching = [Created diid dec vals]\<rparr> \<lparr>fy_state = st2, fy_dispatching = [Delivered diid Queued]\<rparr>"
    by (rule r_into_rtranclp) (use fasitd_step.step_deliver [of "\<lparr>fy_state = st1, fy_dispatching = [Created diid dec vals]\<rparr>" "[]" diid dec vals "[]" room_or_timeout Queued st2 x parse]
      room_or_timeout_may del in simp)
  also have "(fasitd_step x parse)\<^sup>*\<^sup>* \<lparr>fy_state = st2, fy_dispatching = [Delivered diid Queued]\<rparr> \<lparr>fy_state = ?st3, fy_dispatching = [Delivered diid Queued]\<rparr>"
    by (rule converse_steps [OF s(1) err(1,2)])
  also have "(fasitd_step x parse)\<^sup>*\<^sup>* \<lparr>fy_state = ?st3, fy_dispatching = [Delivered diid Queued]\<rparr> \<lparr>fy_state = st4, fy_dispatching = []\<rparr>"
    by (rule r_into_rtranclp) (use fasitd_step.step_record [of "\<lparr>fy_state = ?st3, fy_dispatching = [Delivered diid Queued]\<rparr>" "[]" diid Queued "[]" io'' None st4 x parse] rec in simp)
  finally have run: "(fasitd_step x parse)\<^sup>*\<^sup>* \<lparr>fy_state = st, fy_dispatching = []\<rparr> \<lparr>fy_state = st4, fy_dispatching = []\<rparr>" .
  have all: "filter (\<lambda>s. fs_diid s = diid) (fd_statuses st4) =
      status_rows io' diid [(''installing'', []), (''deployed'', [])] @ status_rows io'' diid [(''sent'', [])]"
    unfolding st4_def conv(1) by (simp add: conv(1) none)
  have "fasitd_command_status diid st4 = Some \<lparr>fs_diid = diid, fs_status = ''sent'', fs_message = [], fs_created = io_now io''\<rparr>"
    by (rule latest_status [of diid _ "status_rows io' diid [(''installing'', []), (''deployed'', [])]"])
      (use all assms(8) in \<open>simp_all add: status_rows_def\<close>)
  then show ?thesis using run all by (intro exI [of _ st4]) (simp add: lifecycle_def)
qed

theorem late_sent_hides_deployed_witness:
  "\<exists>st2. (fasitd_step example_externals (\<lambda>s. Inr 7))\<^sup>*\<^sup>* \<lparr>fy_state = example_lane, fy_dispatching = []\<rparr> \<lparr>fy_state = st2, fy_dispatching = []\<rparr> \<and>
     map_option fs_status (fasitd_command_status 7 st2) = Some ''sent''"
proof -
  have "env_named (fd_db example_lane) (keyFor (dd_TenantName example_decision) (dd_EnvironmentName example_decision)) (dd_EnvironmentID example_decision)"
    by (simp add: example_lane_eq empty_lane_def example_db_def example_decision_def decide_def env_named_def keyFor_def)
  then show ?thesis
    using late_sent_hides_deployed [OF example_lane_ok example_idle example_dispatch, of "\<lambda>s. Inr 7" store_io store_io] by auto
qed

section \<open>Two lanes, one inventory\<close>

text \<open>What the two lanes keep of a release: the shadow lane keeps whole seconds.\<close>

definition same_release :: "ReleaseStatus \<Rightarrow> fasitd_release \<Rightarrow> bool" where
  "same_release r r' \<longleftrightarrow> fr_version r' = rs_version r \<and> fr_status r' = rs_status r \<and> fr_revision r' = rs_revision r \<and>
     fr_last_deployed r' = time_Unix (Time_Unix (rs_last_deployed r)) 0"

definition same_inventory :: "uuid \<Rightarrow> db \<Rightarrow> fasitd \<Rightarrow> bool" where
  "same_inventory envID d st \<longleftrightarrow>
     (\<forall>f. rel_option same_release (map_of (release_statuses d) (envID, f)) (map_of (fd_releases st) (envID, f)))"

lemma map_of_filter_env: "map_of (filter (\<lambda>e. fst (fst e) \<noteq> u) m) (v, f) = (if v = u then None else map_of m (v, f))"
  by (induction m) (auto split: prod.splits)

lemma deleted_same_inventory:
  "fasitd_DeleteReleaseStatuses io envID st = (Inr u, st') \<Longrightarrow> same_inventory envID (DeleteReleaseStatusesInEnvironment envID d) st'"
  by (auto simp: fasitd_DeleteReleaseStatuses_def execF_def same_inventory_def DeleteReleaseStatusesInEnvironment_def map_of_filter_env
      split: if_splits)

lemma set_same_inventory:
  assumes "same_inventory envID d st"
    and "wrapF m (fasitd_SetReleaseStatus io' envID (hl_Name h) (hl_ChartVersion h) (hl_Status h) (int32 (hl_Version h))
      (time_Unix (Time_Unix (hl_LastDeployed h)) 0)) st = (None, st')"
  shows "same_inventory envID (SetReleaseStatus now envID (release_of_helm h) d) st'"
  unfolding same_inventory_def
proof
  fix f
  have agree: "rel_option same_release (map_of (release_statuses d) (envID, g)) (map_of (fd_releases st) (envID, g))" for g
    using assms(1) by (simp add: same_inventory_def)
  have st': "fd_releases st' = gm_put (envID, hl_Name h) (case map_of (fd_releases st) (envID, hl_Name h) of
      None \<Rightarrow> \<lparr>fr_version = hl_ChartVersion h, fr_status = hl_Status h, fr_revision = int32 (hl_Version h),
        fr_last_deployed = time_Unix (Time_Unix (hl_LastDeployed h)) 0, fr_created = io_now io'\<rparr>
    | Some r \<Rightarrow> r \<lparr>fr_version := hl_ChartVersion h, fr_status := hl_Status h, fr_revision := int32 (hl_Version h),
        fr_last_deployed := time_Unix (Time_Unix (hl_LastDeployed h)) 0\<rparr>) (fd_releases st)"
    using assms(2) by (auto simp: wrapF_def fasitd_SetReleaseStatus_def execF_def split: prod.splits sum.splits option.splits if_splits)
  show "rel_option same_release (map_of (release_statuses (SetReleaseStatus now envID (release_of_helm h) d)) (envID, f))
      (map_of (fd_releases st') (envID, f))"
    using agree [of f] agree [of "hl_Name h"]
    by (auto simp: st' SetReleaseStatus_def release_of_helm_def same_release_def elim!: option.rel_cases)
qed

lemma proto_release_fields:
  "pr_Name (proto_release h) = hl_Name h" "pr_Version (proto_release h) = hl_ChartVersion h" "pr_Status (proto_release h) = hl_Status h"
  "pr_Revision (proto_release h) = int32 (hl_Version h)" "pr_LastDeployedUnix (proto_release h) = Time_Unix (hl_LastDeployed h)"
  by (simp_all add: proto_release_def)

lemma inventories_agree_aux:
  assumes "same_inventory envID d st" and "set_releases io envID (map release_of_helm hs) d = (Inr u, d')"
    and "set_inventory io' envID (map proto_release hs) st = (None, st')"
  shows "same_inventory envID d' st'"
  using assms
proof (induction hs arbitrary: d st)
  case (Cons h hs)
  let ?d = "SetReleaseStatus (io_now io) envID (release_of_helm h) d"
  have "set_releases io envID (map release_of_helm hs) ?d = (Inr u, d')"
    using Cons.prems(2) by (auto simp: bindT_eq_Inr)
  moreover obtain st1 where "wrapF ''set release status'' (fasitd_SetReleaseStatus io' envID (hl_Name h) (hl_ChartVersion h) (hl_Status h)
      (int32 (hl_Version h)) (time_Unix (Time_Unix (hl_LastDeployed h)) 0)) st = (None, st1)"
    and "set_inventory io' envID (map proto_release hs) st1 = (None, st')"
    using Cons.prems(3) by (auto simp: proto_release_fields split: prod.splits option.splits)
  ultimately show ?case using Cons.IH [of ?d st1] set_same_inventory [OF Cons.prems(1), of _ io' h] by simp
qed (simp add: returnT_def)

text \<open>
  Both lanes show the same releases: when the agents of an environment report the same Helm releases, naisd through the message
  broker and fasitd through its session, and both reports are written, the two tables have rows for the same features of that
  environment with the same versions, statuses and revisions, whatever they held before; only the fraction of a second of the deploy time is lost
  in the shadow lane.
\<close>

theorem inventories_agree:
  assumes "write_releases io envID (map release_of_helm hs) d = (Inr u, d')"
    and "handleAgentMessage io' parse envID (Releases t (map proto_release hs)) st = (None, st')"
  shows "rel_option same_release (map_of (release_statuses d') (envID, f)) (map_of (fd_releases st') (envID, f))"
proof -
  have "set_releases io envID (map release_of_helm hs) (DeleteReleaseStatusesInEnvironment envID d) = (Inr (), d')"
    using assms(1) by (auto simp: write_releases_def pool_tx_eq_Inr bindT_eq_Inr)
  moreover obtain st1 where del: "wrapF ''delete release statuses'' (fasitd_DeleteReleaseStatuses io' envID) st = (None, st1)"
    and "set_inventory io' envID (map proto_release hs) st1 = (None, st')"
    using assms(2) by (auto simp: handleAgentMessage_def setReleases_def apfst_def map_prod_def split: prod.splits option.splits)
  moreover have "same_inventory envID (DeleteReleaseStatusesInEnvironment envID d) st1"
    using del by (auto simp: wrapF_def intro: deleted_same_inventory split: prod.splits sum.splits)
  ultimately show ?thesis using inventories_agree_aux [of envID _ st1 io hs] by (simp add: same_inventory_def)
qed

definition example_release :: helm_release where
  "example_release = \<lparr>hl_Name = ''loki'', hl_ChartVersion = ''1'', hl_Status = ''deployed'', hl_Version = 3, hl_LastDeployed = unix_epoch + 1500000000\<rparr>"

theorem inventories_agree_witness:
  "\<exists>d' st'. write_releases store_io 1 (map release_of_helm [example_release]) example_db = (Inr (), d') \<and>
     handleAgentMessage store_io (\<lambda>s. Inr 7) 1 (Releases 0 (map proto_release [example_release])) example_lane = (None, st') \<and>
     rel_option same_release (map_of (release_statuses d') (1, ''loki'')) (map_of (fd_releases st') (1, ''loki''))"
proof -
  have "\<exists>d'. write_releases store_io 1 (map release_of_helm [example_release]) example_db = (Inr (), d')"
    by (simp add: write_releases_def pool_tx_def bindT_def wrapT_def execT_def wrapE_def returnT_def)
  moreover have "\<exists>st'. handleAgentMessage store_io (\<lambda>s. Inr 7) 1 (Releases 0 (map proto_release [example_release])) example_lane = (None, st')"
    by (simp add: handleAgentMessage_def setReleases_def wrapF_def fasitd_DeleteReleaseStatuses_def fasitd_SetReleaseStatus_def execF_def
        example_lane_eq empty_lane_def example_db_def)
  ultimately show ?thesis using inventories_agree [of store_io 1 "[example_release]" example_db "()" _ store_io "\<lambda>s. Inr 7" 0 example_lane] by blast
qed

end
