(* ===== verification/Environment_Management.thy ===== *)
theory Environment_Management
  imports Fasitd
begin

text \<open>
  The gRPC service through which the Terraform provider manages tenants, environments and their values:
  \<open>internal/environmentmanagement/server.go\<close> over its own statements (\<open>sqlgen/queries.sql.go\<close>), which write the tables
  of the environment store. Unlike the pages it does not put its writes into a transaction: the row is written, the audit
  row is attempted after it, and an audit row that cannot be written is only logged. \<open>uuid.Parse\<close> and the iteration
  order of a Go map are parameters.
\<close>

section \<open>Statements\<close>

type_synonym 'a call = "db \<Rightarrow> (rpc_error + 'a) \<times> db"

definition mgmt_CreateTenant :: "io \<Rightarrow> TenantCreate \<Rightarrow> Tenant op" where
  "mgmt_CreateTenant io p d =
     (if io_fails io ''CreateTenant'' then (Inl (ErrQuery ''CreateTenant''), d)
      else if list_ex (\<lambda>t. t_Name t = tc_Name p) (tenants d) then (Inl (PgError ''23505''), d)
      else let t = \<lparr>t_ID = io_diid io 0, t_Name = tc_Name p, t_Description = tc_Description p, t_Created = io_now io,
                 t_LastModified = io_now io, t_Ci = False\<rparr>
           in (Inr t, d \<lparr>tenants := tenants d @ [t]\<rparr>))"

definition mgmt_CreateEnvironment :: "io \<Rightarrow> EnvironmentCreate \<Rightarrow> string option \<Rightarrow> string option \<Rightarrow> Environment op" where
  "mgmt_CreateEnvironment io p oidcIssuer oidcDiscoveryUrl d =
     (if io_fails io ''CreateEnvironment'' then (Inl (ErrQuery ''CreateEnvironment''), d)
      else if \<not> List.member environment_kinds (ec_Kind p) then (Inl (PgError ''22P02''), d)
      else if \<not> list_ex (\<lambda>t. t_ID t = ec_TenantID p) (tenants d) then (Inl (PgError ''23503''), d)
      else if list_ex (\<lambda>e. (e_TenantID e, e_Name e) = (ec_TenantID p, ec_Name p)) (environments d) then (Inl (PgError ''23505''), d)
      else let e = \<lparr>e_ID = io_diid io 0, e_Name = ec_Name p, e_Description = ec_Description p, e_Created = io_now io,
                 e_LastModified = io_now io, e_Kind = ec_Kind p, e_Reconcile = True, e_TenantID = ec_TenantID p,
                 e_Labels = ec_Labels p, e_OIDCIssuer = oidcIssuer, e_OIDCDiscoveryURL = oidcDiscoveryUrl\<rparr>
           in (Inr e, d \<lparr>environments := environments d @ [e]\<rparr>))"

definition mgmt_UpdateEnvironment :: "io \<Rightarrow> uuid \<Rightarrow> Labels \<Rightarrow> string option \<Rightarrow> string option \<Rightarrow> Environment op" where
  "mgmt_UpdateEnvironment io envID labels oidcIssuer oidcDiscoveryUrl d =
     (let upd = (\<lambda>e. e \<lparr>e_LastModified := io_now io, e_Labels := labels, e_OIDCIssuer := oidcIssuer, e_OIDCDiscoveryURL := oidcDiscoveryUrl\<rparr>)
      in case one io ''UpdateEnvironment'' (find (\<lambda>e. e_ID e = envID) (environments d)) of
        Inl err \<Rightarrow> (Inl err, d)
      | Inr e \<Rightarrow> (Inr (upd e), d \<lparr>environments := map (\<lambda>e. if e_ID e = envID then upd e else e) (environments d)\<rparr>))"

definition mgmt_GetEnvironmentValue :: "io \<Rightarrow> bool \<Rightarrow> uuid \<Rightarrow> string \<Rightarrow> db \<Rightarrow> err + EnvironmentValue" where
  "mgmt_GetEnvironmentValue io showSensitive envID key d =
     one io ''GetEnvironmentValue'' (map_option (\<lambda>v. if ev_Secret v \<and> \<not> showSensitive then v \<lparr>ev_Value := [CHR 0x22] @ ''*****'' @ [CHR 0x22]\<rparr> else v)
       (find (\<lambda>v. ev_key v = (envID, key)) (environment_values d)))"

text \<open>The join of the values of a key with their environments and tenants, by the name of the environment.\<close>

definition ListEnvironmentValuesForKey :: "io \<Rightarrow> string \<Rightarrow> db \<Rightarrow> err + (EnvironmentValue \<times> Environment \<times> Tenant) list" where
  "ListEnvironmentValuesForKey io key d = query (io_fails io) ''ListEnvironmentValuesForKey''
     (sort_key (\<lambda>(v, e, t). e_Name e)
       (concat (map (\<lambda>v. concat (map (\<lambda>e. map (\<lambda>t. (v, e, t)) (filter (\<lambda>t. t_ID t = e_TenantID e) (tenants d)))
          (filter (\<lambda>e. e_ID e = ev_EnvironmentID v) (environments d)))) (filter (\<lambda>v. ev_Key v = key) (environment_values d)))))"

definition mgmt_DeleteEnvironmentValue :: "io \<Rightarrow> uuid \<Rightarrow> string \<Rightarrow> unit op" where
  "mgmt_DeleteEnvironmentValue io envID key = execT io ''DeleteEnvironmentValue''
     (\<lambda>d. d \<lparr>environment_values := filter (\<lambda>v. ev_key v \<noteq> (envID, key)) (environment_values d)\<rparr>)"

section \<open>The service\<close>

definition systemProvider :: "string option" where
  "systemProvider = Some ''system:provider''"

text \<open>A write that is audited after it: the error of the audit row is dropped.\<close>

definition writeAudit :: "io \<Rightarrow> CreateParams \<Rightarrow> db \<Rightarrow> db" where
  "writeAudit io params d = snd (audit_Create io systemProvider params d)"

definition created :: "io \<Rightarrow> string \<Rightarrow> string \<Rightarrow> string \<Rightarrow> uuid option \<Rightarrow> db \<Rightarrow> db" where
  "created io action objectType objectID envID d = writeAudit io \<lparr>ap_Action = action, ap_Description = [], ap_ObjectType = objectType,
     ap_ObjectID = objectID, ap_Feature = [], ap_EnvironmentID = envID, ap_Metadata = None\<rparr> d"

definition invalid :: "string \<Rightarrow> rpc_error" where
  "invalid msg = RpcStatus InvalidArgument msg"

text \<open>The kinds of the protocol: management, tenant, on-premises; the others are refused.\<close>

definition toEnvironmentKind :: "int \<Rightarrow> rpc_error + EnvironmentKind" where
  "toEnvironmentKind kind =
     (if kind = 1 then Inr EnvironmentKindManagement
      else if kind = 2 then Inr EnvironmentKindTenant
      else if kind = 3 then Inr EnvironmentKindOnprem
      else Inl (invalid ''Invalid Environment kind''))"

definition labelsToDB :: "(string \<times> string) list \<Rightarrow> Labels" where
  "labelsToDB labels = fold (\<lambda>(k, v) m. gm_put k v m) labels []"

definition labelsToProto :: "(Labels \<Rightarrow> (string \<times> string) list) \<Rightarrow> Labels \<Rightarrow> (string \<times> string) list" where
  "labelsToProto order labels = order labels"

record proto_environment =
  pe_Id :: string
  pe_TenantId :: string
  pe_Name :: string
  pe_Labels :: "(string \<times> string) list"
  pe_OidcIssuer :: "string option"
  pe_OidcDiscoveryUrl :: "string option"

definition environment_response :: "(Labels \<Rightarrow> (string \<times> string) list) \<Rightarrow> Environment \<Rightarrow> proto_environment" where
  "environment_response order env = \<lparr>pe_Id = uuid_String (e_ID env), pe_TenantId = uuid_String (e_TenantID env), pe_Name = e_Name env,
     pe_Labels = labelsToProto order (e_Labels env), pe_OidcIssuer = e_OIDCIssuer env, pe_OidcDiscoveryUrl = e_OIDCDiscoveryURL env\<rparr>"

record proto_value =
  pv_EnvironmentId :: string
  pv_Key :: string
  pv_Value :: string
  pv_Secret :: bool
  pv_TenantId :: string
  pv_TenantName :: string
  pv_EnvironmentName :: string

definition value_response :: "EnvironmentValue \<Rightarrow> Environment \<Rightarrow> Tenant \<Rightarrow> proto_value" where
  "value_response v env tenant = \<lparr>pv_EnvironmentId = uuid_String (ev_EnvironmentID v), pv_Key = ev_Key v, pv_Value = ev_Value v,
     pv_Secret = ev_Secret v, pv_TenantId = uuid_String (t_ID tenant), pv_TenantName = t_Name tenant, pv_EnvironmentName = e_Name env\<rparr>"

text \<open>Errors of statements: reported as internal, or as not found when a row is read.\<close>

definition internal :: "err + 'a \<Rightarrow> rpc_error + 'a" where
  "internal r = (case r of Inl e \<Rightarrow> Inl (RpcStatus Internal (Error e)) | Inr a \<Rightarrow> Inr a)"

definition found :: "string \<Rightarrow> err + 'a \<Rightarrow> rpc_error + 'a" where
  "found msg r = (case r of Inl e \<Rightarrow> Inl (RpcStatus NotFound msg) | Inr a \<Rightarrow> Inr a)"

definition parsed :: "(string \<Rightarrow> err + uuid) \<Rightarrow> string \<Rightarrow> string \<Rightarrow> rpc_error + uuid" where
  "parsed parse msg s = (case parse s of Inl e \<Rightarrow> Inl (invalid msg) | Inr u \<Rightarrow> Inr u)"

definition service_CreateTenant :: "io \<Rightarrow> string \<Rightarrow> string option \<Rightarrow> (string \<times> string) call" where
  "service_CreateTenant io name description d =
     (if length name < 2 then (Inl (invalid ''Tenant name must be at least 2 characters long''), d)
      else case mgmt_CreateTenant io \<lparr>tc_Name = name, tc_Description = description\<rparr> d of
        (Inl e, d) \<Rightarrow> (internal (Inl e), d)
      | (Inr tenant, d) \<Rightarrow> (Inr (t_Name tenant, uuid_String (t_ID tenant)),
           created io ActionCreated ObjectTypeTenant (uuid_String (t_ID tenant)) None d))"

definition service_GetTenant :: "io \<Rightarrow> string \<Rightarrow> db \<Rightarrow> rpc_error + string \<times> string" where
  "service_GetTenant io name d = bindE (found ''Tenant not found'' (GetTenantByName io name d)) (\<lambda>tenant. Inr (uuid_String (t_ID tenant), t_Name tenant))"

record CreateEnvironmentRequest =
  cr_Name :: string
  cr_TenantId :: string
  cr_Kind :: int
  cr_Labels :: "(string \<times> string) list"
  cr_OidcIssuer :: "string option"
  cr_OidcDiscoveryUrl :: "string option"

definition service_CreateEnvironment ::
  "io \<Rightarrow> (string \<Rightarrow> err + uuid) \<Rightarrow> (Labels \<Rightarrow> (string \<times> string) list) \<Rightarrow> CreateEnvironmentRequest \<Rightarrow> proto_environment call" where
  "service_CreateEnvironment io parse order req d =
     (if length (cr_Name req) < 2 then (Inl (invalid ''Environment name must be at least 2 characters long''), d)
      else case bindE (parsed parse ''Invalid tenant id'' (cr_TenantId req)) (\<lambda>tenantID.
                bindE (found ''Tenant not found'' (GetTenant io tenantID d)) (\<lambda>tenant.
                bindE (toEnvironmentKind (cr_Kind req)) (\<lambda>kind. Inr (tenant, kind)))) of
        Inl e \<Rightarrow> (Inl e, d)
      | Inr (tenant, kind) \<Rightarrow>
          (case mgmt_CreateEnvironment io \<lparr>ec_Name = cr_Name req, ec_Description = None, ec_TenantID = t_ID tenant, ec_Kind = kind,
                  ec_Labels = labelsToDB (cr_Labels req)\<rparr> (cr_OidcIssuer req) (cr_OidcDiscoveryUrl req) d of
             (Inl e, d) \<Rightarrow> (internal (Inl e), d)
           | (Inr env, d) \<Rightarrow> (Inr (environment_response order env),
                created io ActionCreated ObjectTypeEnvironment (uuid_String (e_ID env)) (Some (e_ID env)) d)))"

definition service_UpdateEnvironment ::
  "io \<Rightarrow> (string \<Rightarrow> err + uuid) \<Rightarrow> (Labels \<Rightarrow> (string \<times> string) list) \<Rightarrow> string \<Rightarrow> (string \<times> string) list \<Rightarrow>
   string option \<Rightarrow> string option \<Rightarrow> proto_environment call" where
  "service_UpdateEnvironment io parse order environmentId labels oidcIssuer oidcDiscoveryUrl d =
     (case bindE (parsed parse ''Invalid environment id'' environmentId) (\<lambda>environmentID.
           found ''Environment not found'' (environment_Get io environmentID d)) of
        Inl e \<Rightarrow> (Inl e, d)
      | Inr env \<Rightarrow> (case mgmt_UpdateEnvironment io (e_ID env) (labelsToDB labels) oidcIssuer oidcDiscoveryUrl d of
          (Inl e, d) \<Rightarrow> (internal (Inl e), d)
        | (Inr updated, d) \<Rightarrow> (Inr (environment_response order updated),
             created io ActionUpdated ObjectTypeEnvironment (uuid_String (e_ID updated)) (Some (e_ID updated)) d)))"

definition service_GetEnvironment ::
  "io \<Rightarrow> (string \<Rightarrow> err + uuid) \<Rightarrow> (Labels \<Rightarrow> (string \<times> string) list) \<Rightarrow> string \<Rightarrow> string \<Rightarrow> db \<Rightarrow> rpc_error + proto_environment" where
  "service_GetEnvironment io parse order tenantId name d =
     bindE (parsed parse ''Invalid tenant id'' tenantId) (\<lambda>tenantID.
     bindE (found ''Environment not found'' (environment_GetByName io tenantID name d)) (\<lambda>env. Inr (environment_response order env)))"

definition service_SetEnvironmentValue ::
  "io \<Rightarrow> (string \<Rightarrow> err + uuid) \<Rightarrow> string \<Rightarrow> string \<Rightarrow> string \<Rightarrow> bool \<Rightarrow> bool call" where
  "service_SetEnvironmentValue io parse environmentId key val secret d =
     (case parsed parse ''Invalid environment id'' environmentId of
        Inl e \<Rightarrow> (Inl e, d)
      | Inr envID \<Rightarrow> (case SetEnvironmentValue_sql io \<lparr>ev_EnvironmentID = envID, ev_Key = key, ev_Value = val, ev_Secret = secret\<rparr> d of
          (Inl e, d) \<Rightarrow> (internal (Inl e), d)
        | (Inr u, d) \<Rightarrow> (Inr True, created io ActionUpdated ObjectTypeEnvironmentValue key (Some envID) d)))"

definition service_GetEnvironmentValue :: "io \<Rightarrow> (string \<Rightarrow> err + uuid) \<Rightarrow> string \<Rightarrow> string \<Rightarrow> db \<Rightarrow> rpc_error + proto_value" where
  "service_GetEnvironmentValue io parse environmentId key d =
     bindE (parsed parse ''Invalid environment id'' environmentId) (\<lambda>envID.
     bindE (found ''Environment not found'' (mgmt_GetEnvironmentValue io True envID key d)) (\<lambda>ev.
     bindE (found ''Environment not found'' (environment_Get io envID d)) (\<lambda>env.
     bindE (found ''Tenant not found'' (GetTenant io (e_TenantID env) d)) (\<lambda>tenant.
     Inr ((value_response ev env tenant) \<lparr>pv_EnvironmentId := uuid_String envID\<rparr>)))))"

definition service_ListEnvironmentValues :: "io \<Rightarrow> string \<Rightarrow> db \<Rightarrow> rpc_error + proto_value list" where
  "service_ListEnvironmentValues io key d =
     bindE (internal (ListEnvironmentValuesForKey io key d)) (\<lambda>es. Inr (map (\<lambda>(v, e, t). value_response v e t) es))"

definition service_DeleteEnvironmentValue :: "io \<Rightarrow> (string \<Rightarrow> err + uuid) \<Rightarrow> string \<Rightarrow> string \<Rightarrow> bool call" where
  "service_DeleteEnvironmentValue io parse environmentId key d =
     (case parsed parse ''Invalid environment id'' environmentId of
        Inl e \<Rightarrow> (Inl e, d)
      | Inr environmentID \<Rightarrow> (case mgmt_DeleteEnvironmentValue io environmentID key d of
          (Inl e, d) \<Rightarrow> (internal (Inl e), d)
        | (Inr u, d) \<Rightarrow> (Inr True, created io ActionDeleted ObjectTypeEnvironmentValue key (Some environmentID) d)))"

section \<open>What the service leaves\<close>

lemma found_Inr [simp]: "found msg r = Inr a \<longleftrightarrow> r = Inr a"
  by (cases r) (simp_all add: found_def)

lemma internal_Inr [simp]: "internal r = Inr a \<longleftrightarrow> r = Inr a"
  by (cases r) (simp_all add: internal_def)

lemma parsed_Inr [simp]: "parsed parse msg s = Inr u \<longleftrightarrow> parse s = Inr u"
  by (cases "parse s") (simp_all add: parsed_def)

lemma created_eq:
  "created io action objectType objectID envID d = (if io_fails io ''audit.Create'' then d
     else d \<lparr>audits := audits d @ [audit_row io systemProvider \<lparr>ap_Action = action, ap_Description = [], ap_ObjectType = objectType,
       ap_ObjectID = objectID, ap_Feature = [], ap_EnvironmentID = envID, ap_Metadata = None\<rparr>]\<rparr>)"
  by (simp add: created_def writeAudit_def audit_Create_def execT_def)

lemma created_keeps [simp]:
  "environments (created io a ot oi ei d) = environments d" "tenants (created io a ot oi ei d) = tenants d"
  "environment_values (created io a ot oi ei d) = environment_values d"
  "deploy_current (created io a ot oi ei d) = deploy_current d" "deploy_log (created io a ot oi ei d) = deploy_log d"
  by (simp_all add: created_eq)

text \<open>The audit trail of a call: the error of a call leaves everything; a success leaves one row of the provider, when it can be written.\<close>

definition audited :: "io \<Rightarrow> 'a call \<Rightarrow> bool" where
  "audited io f \<longleftrightarrow> (\<forall>d. case f d of
      (Inl e, d') \<Rightarrow> d' = d
    | (Inr r, d') \<Rightarrow> if io_fails io ''audit.Create'' then audits d' = audits d
        else \<exists>a. audits d' = audits d @ [a] \<and> au_actor a = ''system:provider'')"

lemma provider_actor: "au_actor (audit_row io systemProvider p) = ''system:provider''"
  by (simp add: audit_row_def systemProvider_def actorOrUnknown_def GetEmail_def UnauthorizedName_def)

definition then_audited :: "io \<Rightarrow> db \<Rightarrow> db \<Rightarrow> bool" where
  "then_audited io d d' \<longleftrightarrow> (\<exists>d1 a ot oi ei. audits d1 = audits d \<and> d' = created io a ot oi ei d1)"

lemma then_auditedI: "audits d1 = audits d \<Longrightarrow> then_audited io d (created io a ot oi ei d1)"
  unfolding then_audited_def by blast

lemma audited_created:
  assumes "\<And>d. case f d of (Inl e, d') \<Rightarrow> d' = d | (Inr r, d') \<Rightarrow> then_audited io d d'"
  shows "audited io f"
  unfolding audited_def
proof
  fix d
  show "case f d of (Inl e, d') \<Rightarrow> d' = d | (Inr r, d') \<Rightarrow> if io_fails io ''audit.Create'' then audits d' = audits d
        else \<exists>a. audits d' = audits d @ [a] \<and> au_actor a = ''system:provider''"
    using assms [of d] by (auto simp: then_audited_def created_eq provider_actor split: prod.splits sum.splits)
qed

lemma statement_keeps:
  "mgmt_CreateTenant io p d = (r, d') \<Longrightarrow> (isl r \<longrightarrow> d' = d) \<and> audits d' = audits d"
  "mgmt_CreateEnvironment io q i u d = (r2, d') \<Longrightarrow> (isl r2 \<longrightarrow> d' = d) \<and> audits d' = audits d"
  "mgmt_UpdateEnvironment io envID labels i u d = (r2, d') \<Longrightarrow> (isl r2 \<longrightarrow> d' = d) \<and> audits d' = audits d"
  "SetEnvironmentValue_sql io v d = (r3, d') \<Longrightarrow> (isl r3 \<longrightarrow> d' = d) \<and> audits d' = audits d"
  "mgmt_DeleteEnvironmentValue io envID key d = (r3, d') \<Longrightarrow> (isl r3 \<longrightarrow> d' = d) \<and> audits d' = audits d"
  by (auto simp: mgmt_CreateTenant_def mgmt_CreateEnvironment_def mgmt_UpdateEnvironment_def SetEnvironmentValue_sql_def
      mgmt_DeleteEnvironmentValue_def execT_def Let_def split: if_splits option.splits sum.splits)

text \<open>
  Every change the Terraform provider makes is either refused and changes nothing or made and then audited: an error of the
  service leaves the tables as they were, and a success leaves exactly one audit row, in the name of the provider. The change
  stands even when the audit row cannot be written.
\<close>

theorem service_writes_audited:
  "audited io (service_CreateTenant io name description) \<and> audited io (service_CreateEnvironment io parse order req) \<and>
   audited io (service_UpdateEnvironment io parse order environmentId labels oidcIssuer oidcDiscoveryUrl) \<and>
   audited io (service_SetEnvironmentValue io parse environmentId key val secret) \<and>
   audited io (service_DeleteEnvironmentValue io parse environmentId key)"
proof (intro conjI)
  show "audited io (service_CreateTenant io name description)"
    by (rule audited_created) (auto simp: service_CreateTenant_def internal_def intro!: then_auditedI dest: statement_keeps(1) split: prod.split sum.split)
  show "audited io (service_CreateEnvironment io parse order req)"
    by (rule audited_created) (auto simp: service_CreateEnvironment_def internal_def intro!: then_auditedI dest: statement_keeps(2) split: prod.split sum.split)
  show "audited io (service_UpdateEnvironment io parse order environmentId labels oidcIssuer oidcDiscoveryUrl)"
    by (rule audited_created) (auto simp: service_UpdateEnvironment_def internal_def intro!: then_auditedI dest: statement_keeps(3) split: prod.split sum.split)
  show "audited io (service_SetEnvironmentValue io parse environmentId key val secret)"
    by (rule audited_created) (auto simp: service_SetEnvironmentValue_def internal_def intro!: then_auditedI dest: statement_keeps(4) split: prod.split sum.split)
  show "audited io (service_DeleteEnvironmentValue io parse environmentId key)"
    by (rule audited_created) (auto simp: service_DeleteEnvironmentValue_def internal_def intro!: then_auditedI dest: statement_keeps(5) split: prod.split sum.split)
qed

section \<open>What the reconciler makes of it\<close>

lemma map_of_labelsToDB: "map_of (labelsToDB labels) k = map_of (rev labels) k"
proof -
  have "map_of (fold (\<lambda>(k, v) m. gm_put k v m) labels m) k = (case map_of (rev labels) k of Some v \<Rightarrow> Some v | None \<Rightarrow> map_of m k)" for m
    by (induction labels arbitrary: m) (auto simp: map_add_def split: option.splits)
  then show ?thesis by (simp add: labelsToDB_def split: option.splits)
qed

lemma find_distinct_map:
  assumes "distinct (map f xs)" and "x \<in> set xs"
  shows "find (\<lambda>y. f y = f x) xs = Some x"
  using assms by (induction xs) auto

text \<open>
  C26. The labels that the Terraform provider sends decide what the next cycle considers: after an update that succeeds, an
  environment that is reconciled is in every snapshot with exactly the labels sent, of duplicates the last, and without the labels
  it had before, and its assignments are those whose target these labels contain; every other environment keeps its labels.
\<close>

theorem service_labels_decide_next_cycle:
  assumes "service_UpdateEnvironment io parse order environmentId labels oidcIssuer oidcDiscoveryUrl d = (Inr resp, d')"
    and "parse environmentId = Inr u" and "fetchSnapshot x aud fails d' = Inr snap" and "env \<in> set (s_environments snap)"
  shows "if en_ID env = u
    then (\<forall>k. map_of (en_Labels env) k = map_of (rev labels) k) \<and>
      matchAssignments (s_assignments snap) env = filter (\<lambda>a. labelsContain (labelsToDB labels) (ra_TargetLabels a)) (s_assignments snap)
    else \<exists>e \<in> set (environments d). e_ID e = en_ID env \<and> e_Labels e = en_Labels env"
proof -
  obtain e0 where e0: "environment_Get io u d = Inr e0"
    and d': "environments d' = map (\<lambda>e. if e_ID e = e_ID e0 then e \<lparr>e_LastModified := io_now io, e_Labels := labelsToDB labels,
        e_OIDCIssuer := oidcIssuer, e_OIDCDiscoveryURL := oidcDiscoveryUrl\<rparr> else e) (environments d)"
    using assms(1,2)
    by (auto simp: service_UpdateEnvironment_def mgmt_UpdateEnvironment_def internal_def bindE_eq_Inr Let_def split: sum.splits prod.splits)
  have u: "e_ID e0 = u" using e0 by (auto simp: environment_Get_def one_def split: option.splits if_splits dest!: find_SomeD)
  obtain e where e: "e \<in> set (environments d')" "e_ID e = en_ID env" "e_Labels e = en_Labels env"
    using snapshot_reconciled [OF assms(3,4)] by blast
  show ?thesis
  proof (cases "en_ID env = u")
    case True
    then have "en_Labels env = labelsToDB labels" using e u by (auto simp: d' split: if_splits)
    then show ?thesis using True by (simp add: map_of_labelsToDB matchAssignments_def)
  next
    case False
    then show ?thesis using e u by (auto simp: d' split: if_splits)
  qed
qed

text \<open>
  A value set by the Terraform provider reads back in clear with its place: after a successful set, the service
  returns the stored value of the key, with its secret flag, for the environment and the tenant it belongs to, and every
  other value is as it was.
\<close>

theorem service_value_roundtrip:
  assumes "service_SetEnvironmentValue io parse environmentId key val secret d = (Inr ok, d')" and "parse environmentId = Inr u"
    and "environment_Get io' u d = Inr env" and "GetTenant io' (e_TenantID env) d = Inr tenant" and "\<not> io_fails io' ''GetEnvironmentValue''"
  shows "(\<exists>j. io_jsonb io val = Some j \<and> service_GetEnvironmentValue io' parse environmentId key d' =
      Inr (value_response \<lparr>ev_EnvironmentID = u, ev_Key = key, ev_Value = j, ev_Secret = secret\<rparr> env tenant)) \<and>
    (\<forall>k. k \<noteq> (u, key) \<longrightarrow> find (\<lambda>v. ev_key v = k) (environment_values d') = find (\<lambda>v. ev_key v = k) (environment_values d))"
proof -
  let ?v = "\<lparr>ev_EnvironmentID = u, ev_Key = key, ev_Value = val, ev_Secret = secret\<rparr>"
  obtain d1 where set: "SetEnvironmentValue_sql io ?v d = (Inr (), d1)"
    and d': "d' = created io ActionUpdated ObjectTypeEnvironmentValue key (Some u) d1"
    using assms(1,2) by (auto simp: service_SetEnvironmentValue_def parsed_def internal_def split: sum.splits prod.splits)
  obtain j where j: "io_jsonb io val = Some j" and
    vals: "\<And>k. find (\<lambda>r. ev_key r = k) (environment_values d1) = (if k = (u, key) then Some (?v \<lparr>ev_Value := j\<rparr>) else find (\<lambda>r. ev_key r = k) (environment_values d))"
    using SetEnvironmentValue_sql_find [OF set] by (auto simp: ev_key_def)
  have "environments d1 = environments d" "tenants d1 = tenants d"
    using set by (auto simp: SetEnvironmentValue_sql_def split: if_splits option.splits)
  then have same: "environment_Get io' u d' = Inr env" "GetTenant io' (e_TenantID env) d' = Inr tenant"
    using assms(3,4) by (simp_all add: d' environment_Get_def GetTenant_def)
  have "mgmt_GetEnvironmentValue io' True u key d' = Inr (?v \<lparr>ev_Value := j\<rparr>)"
    using assms(5) by (simp add: mgmt_GetEnvironmentValue_def one_def d' vals)
  then show ?thesis
    using j same assms(2) by (simp add: service_GetEnvironmentValue_def parsed_def found_def d' vals value_response_def)
qed

theorem service_value_roundtrip_witness:
  "\<exists>d' v. service_SetEnvironmentValue store_io (\<lambda>s. Inr 1) ''e'' ''token'' ''t'' True example_db = (Inr True, d') \<and>
     service_GetEnvironmentValue store_io (\<lambda>s. Inr 1) ''e'' ''token'' d' = Inr v \<and> pv_Value v = ''t'' \<and> pv_TenantName v = ''acme''"
proof -
  obtain d' where set: "service_SetEnvironmentValue store_io (\<lambda>s. Inr 1) ''e'' ''token'' ''t'' True example_db = (Inr True, d')"
    by (simp add: service_SetEnvironmentValue_def parsed_def SetEnvironmentValue_sql_def example_db_def)
  have env: "environment_Get store_io 1 example_db = Inr (hd (environments example_db))"
    "GetTenant store_io (e_TenantID (hd (environments example_db))) example_db = Inr (hd (tenants example_db))"
    by (simp_all add: environment_Get_def GetTenant_def one_def example_db_def)
  have "t_Name (hd (tenants example_db)) = ''acme''" by (simp add: example_db_def)
  then show ?thesis
    using service_value_roundtrip [OF set refl env] set by (auto simp: value_response_def)
qed

lemma example_update:
  "\<exists>resp d'. service_UpdateEnvironment store_io (\<lambda>s. Inr 1) (\<lambda>m. m) ''e'' [(''zone'', ''north''), (''zone'', ''south'')] None None example_db = (Inr resp, d') \<and>
     (\<exists>snap env. fetchSnapshot example_externals [] (\<lambda>_. False) d' = Inr snap \<and> env \<in> set (s_environments snap) \<and> en_ID env = 1)"
proof -
  let ?e = "(hd (environments example_db)) \<lparr>e_LastModified := 1000, e_Labels := [(''zone'', ''south'')]\<rparr>"
  let ?d1 = "example_db \<lparr>environments := [?e]\<rparr>"
  obtain resp where upd: "service_UpdateEnvironment store_io (\<lambda>s. Inr 1) (\<lambda>m. m) ''e'' [(''zone'', ''north''), (''zone'', ''south'')] None None example_db
      = (Inr resp, created store_io ActionUpdated ObjectTypeEnvironment (uuid_String 1) (Some 1) ?d1)"
    by (simp add: service_UpdateEnvironment_def parsed_def found_def environment_Get_def one_def mgmt_UpdateEnvironment_def
        labelsToDB_def example_db_def)
  have "\<exists>snap env. fetchSnapshot example_externals [] (\<lambda>_. False) (created store_io ActionUpdated ObjectTypeEnvironment (uuid_String 1) (Some 1) ?d1) = Inr snap \<and>
      env \<in> set (s_environments snap) \<and> en_ID env = 1"
    by (simp add: created_eq fetch_eval example_db_def empty_db_def example_snapshot_def example_env_def example_assignment_def
        example_externals_def echo_externals_def example_feature_def example_cv_def example_row_def merged_of_global_def
        EnvironmentKindTenant_def EnvironmentKindManagement_def gm_put2_def)
  then show ?thesis using upd by blast
qed

theorem service_labels_decide_next_cycle_witness:
  "\<exists>resp d' snap env. service_UpdateEnvironment store_io (\<lambda>s. Inr 1) (\<lambda>m. m) ''e'' [(''zone'', ''north''), (''zone'', ''south'')] None None example_db = (Inr resp, d') \<and>
     fetchSnapshot example_externals [] (\<lambda>_. False) d' = Inr snap \<and> env \<in> set (s_environments snap) \<and>
     map_of (en_Labels env) ''zone'' = Some ''south'' \<and> map_of (en_Labels env) ''tenant'' = None"
proof -
  obtain resp d' snap env where
    upd: "service_UpdateEnvironment store_io (\<lambda>s. Inr 1) (\<lambda>m. m) ''e'' [(''zone'', ''north''), (''zone'', ''south'')] None None example_db = (Inr resp, d')"
    and snap: "fetchSnapshot example_externals [] (\<lambda>_. False) d' = Inr snap" "env \<in> set (s_environments snap)" "en_ID env = 1"
    using example_update by blast
  have "\<forall>k. map_of (en_Labels env) k = map_of (rev [(''zone'', ''north''), (''zone'', ''south'')]) k"
    using service_labels_decide_next_cycle [OF upd refl snap(1,2)] snap(3) by simp
  then show ?thesis using upd snap by (intro exI conjI) (assumption | simp)+
qed

end
