(* ===== verification/Helm_Values.thy ===== *)
theory Helm_Values
  imports System
begin

text \<open>
  Rendering the values of one environment on demand, as the pages do: \<open>fetchHelmRenderData\<close>, \<open>MappingValuesForEnvironment\<close> and
  \<open>HelmValues\<close> of \<open>internal/feature/queries.go\<close> with the statements of \<open>featuresql/environments.sql.go\<close>. The reconciler does the
  same from its snapshot with other statements and other code; the theorem of this theory is that both come to the same
  values.

  PostgreSQL aggregates the values of an environment into one JSON object, which is decoded at once; the object is kept
  here as its members and decoding an object decodes each of them.
\<close>

section \<open>The statements\<close>

record MappingRow =
  mr_ID :: uuid
  mr_Name :: string
  mr_Kind :: EnvironmentKind
  mr_Values :: "(string \<times> string) list"

definition shown_value :: "bool \<Rightarrow> EnvironmentValue \<Rightarrow> string" where
  "shown_value showSensitive v = (if ev_Secret v \<and> \<not> showSensitive then [CHR 0x22] @ ''*****'' @ [CHR 0x22] else ev_Value v)"

definition ListMappingValuesForTenant :: "uuid \<Rightarrow> bool \<Rightarrow> db \<Rightarrow> MappingRow list" where
  "ListMappingValuesForTenant tenantID showSensitive d = sort_key mr_Name
     (map (\<lambda>e. \<lparr>mr_ID = e_ID e, mr_Name = e_Name e, mr_Kind = e_Kind e,
          mr_Values = map (\<lambda>v. (ev_Key v, shown_value showSensitive v)) (filter (\<lambda>v. ev_EnvironmentID v = e_ID e) (environment_values d))\<rparr>)
        (filter (\<lambda>e. e_TenantID e = tenantID) (environments d)))"

definition ListSecretKeysForTenant :: "uuid \<Rightarrow> db \<Rightarrow> (uuid \<times> string) list" where
  "ListSecretKeysForTenant tenantID d = sort_key id
     (map ev_key (filter (\<lambda>v. ev_Secret v \<and> list_ex (\<lambda>e. e_ID e = ev_EnvironmentID v \<and> e_TenantID e = tenantID) (environments d))
        (environment_values d)))"

section \<open>Rendering on demand\<close>

definition decode_object :: "externals \<Rightarrow> (string \<times> string) list \<Rightarrow> err + gmap" where
  "decode_object x kvs = foldE (\<lambda>(k, v) m. bindE (x_unmarshal x v) (\<lambda>val. Inr (gm_put k val m))) kvs []"

definition add_mapping :: "externals \<Rightarrow> uuid \<Rightarrow> MappingRow \<Rightarrow> ComputedValues \<Rightarrow> err + ComputedValues" where
  "add_mapping x envID row mv =
     bindE (wrapE (''envValuesForEnv: failed to unmarshal values for '' @ mr_Name row) (decode_object x (mr_Values row))) (\<lambda>val0.
     let val = gm_put ''kind'' (GStr (mr_Kind row)) (gm_put ''name'' (GStr (mr_Name row)) val0);
         mv = (if mr_ID row = envID then mv \<lparr>cv_Env := val\<rparr> else mv)
     in Inr (if mr_Kind row = EnvironmentKindManagement then mv \<lparr>cv_Management := Some val\<rparr> else mv \<lparr>cv_Envs := cv_Envs mv @ [val]\<rparr>))"

definition MappingValuesForEnvironment ::
  "externals \<Rightarrow> string \<Rightarrow> io \<Rightarrow> uuid \<Rightarrow> bool \<Rightarrow> db \<Rightarrow> err + ComputedValues \<times> EnvironmentKind" where
  "MappingValuesForEnvironment x aud io envID showSensitive d =
     bindE (wrapE ''envValuesForEnv: failed to get environment'' (environment_Get io envID d)) (\<lambda>env.
     bindE (wrapE ''envValuesForEnv: failed to get tenant'' (GetTenant io (e_TenantID env) d)) (\<lambda>tenant.
     let mv = \<lparr>cv_Kind = e_Kind env, cv_Tenant = t_Name tenant, cv_IAPAudience = aud, cv_Management = None, cv_Env = [],
           cv_Envs = [], cv_Configs = []\<rparr>
     in bindE (wrapE ''envValuesForEnv: failed to get environment values''
           (query (io_fails io) ''ListMappingValuesForTenant'' (ListMappingValuesForTenant (t_ID tenant) showSensitive d))) (\<lambda>rows.
        bindE (foldE (add_mapping x envID) rows mv) (\<lambda>mv. Inr (mv, e_Kind env)))))"

definition fetchHelmRenderData :: "externals \<Rightarrow> string \<Rightarrow> io \<Rightarrow> 'a Feature_scheme \<Rightarrow> uuid \<Rightarrow> db \<Rightarrow> err + HelmRenderData" where
  "fetchHelmRenderData x aud io f envID d =
     bindE (MappingValuesForEnvironment x aud io envID True d) (\<lambda>(mv, envKind).
     let includeKeys = map fst (filter (\<lambda>(key, fv). v_Config fv \<noteq> None \<and> \<not> List.member (v_IgnoreKind fv) envKind) (f_Values f))
     in bindE (query (io_fails io) ''ListGlobalConfigByFeature'' (ListGlobalConfigByFeature (f_Name f) d)) (\<lambda>globalConfigs.
        bindE (query (io_fails io) ''ListEnvConfigByFeature'' (ListEnvConfigByFeature (f_Name f) envID d)) (\<lambda>envConfigs.
        let vals = MergeConfigs globalConfigs envConfigs includeKeys
        in bindE (MakeHelmConfigMap vals) (\<lambda>mp.
           bindE (wrapE ''fetchHelmRenderData: get environment'' (environment_Get io envID d)) (\<lambda>env.
           bindE (wrapE ''fetchHelmRenderData: list secret keys''
               (query (io_fails io) ''ListSecretKeysForTenant'' (ListSecretKeysForTenant (e_TenantID env) d))) (\<lambda>secretRows.
           Inr \<lparr>d_MV = mv, d_EnvKind = envKind, d_ConfigVals = vals, d_ConfigMap = mp,
                d_SecretEnvKeys = index_by snd (\<lambda>_. True) secretRows\<rparr>))))))"

definition HelmValues :: "externals \<Rightarrow> string \<Rightarrow> io \<Rightarrow> 'a Feature_scheme \<Rightarrow> uuid \<Rightarrow> db \<Rightarrow> err + gmap" where
  "HelmValues x aud io f envID d = bindE (fetchHelmRenderData x aud io f envID d) (\<lambda>data. RenderHelmValues x data f True)"

section \<open>Sorting\<close>

lemma filter_sort_key2:
  "filter (\<lambda>r. a r = c) (sort_key (\<lambda>r. (a r, b r)) rows) = sort_key b (filter (\<lambda>r. a r = c) rows)"
  unfolding filter_sort by (rule sort_key_cong_order) auto

section \<open>The configuration is the same\<close>

lemma merged_config_same:
  assumes "fetchSnapshot x aud fails d = Inr snap"
  shows "merged_config snap env f =
    MergeConfigs (ListGlobalConfigByFeature (f_Name f) d) (ListEnvConfigByFeature (f_Name f) (en_ID env) d) (configIncludeKeys f (en_Kind env))"
proof -
  have "filter (\<lambda>r. c_EnvironmentID r = en_ID env \<and> c_Feature r = f_Name f) (ListAllEnvConfigs d) = ListEnvConfigByFeature (f_Name f) (en_ID env) d"
    unfolding ListAllEnvConfigs_def ListEnvConfigByFeature_def filter_sort
    by (subst sort_key_cong_order [where g = c_Key]) (auto simp: conj_commute)
  then show ?thesis
    unfolding merged_config_def Let_def snapshot_globalConfig [OF assms] snapshot_envConfig [OF assms]
    by (simp add: mergeConfigRows_MergeConfigs ListAllGlobalConfigs_def ListGlobalConfigByFeature_def filter_sort_key2)
qed

section \<open>The environment values are the same\<close>

text \<open>Decoding a list of values with distinct keys, into a map that may hold more.\<close>

definition put_decoded :: "('v \<Rightarrow> 'k::linorder) \<Rightarrow> ('v \<Rightarrow> err + 'a) \<Rightarrow> 'v \<Rightarrow> ('k, 'a) gomap \<Rightarrow> err + ('k, 'a) gomap" where
  "put_decoded key g v m = bindE (g v) (\<lambda>val. Inr (gm_put (key v) val m))"

lemma put_decoded_Inr [simp]: "put_decoded key g v m0 = Inr m1 \<longleftrightarrow> (\<exists>val. g v = Inr val \<and> m1 = gm_put (key v) val m0)"
  unfolding put_decoded_def by (auto simp: bindE_eq_Inr)

lemma put_decoded_fold:
  assumes "foldE (put_decoded key g) vs m0 = Inr m" and "gm_ok m0" and "distinct (map key vs)"
  shows "gm_ok m \<and> (\<forall>v \<in> set vs. \<exists>val. g v = Inr val \<and> map_of m (key v) = Some val) \<and> (\<forall>k. k \<notin> key ` set vs \<longrightarrow> map_of m k = map_of m0 k)"
  using assms
proof (induction vs arbitrary: m0)
  case (Cons v vs)
  then obtain val where g: "g v = Inr val" and rest: "foldE (put_decoded key g) vs (gm_put (key v) val m0) = Inr m"
    by (auto simp: bindE_eq_Inr)
  have "gm_ok (gm_put (key v) val m0)" "distinct (map key vs)" and k: "key v \<notin> key ` set vs" using Cons.prems by auto
  from Cons.IH [OF rest this(1,2)] show ?case using g k by auto
qed simp

lemma put_decoded_succeeds:
  "(\<And>v. v \<in> set vs \<Longrightarrow> \<exists>val. g v = Inr val) \<Longrightarrow> \<exists>m. foldE (put_decoded key g) vs m0 = Inr m"
proof (induction vs arbitrary: m0)
  case (Cons v vs)
  then obtain val where "g v = Inr val" by auto
  then have "put_decoded key g v m0 = Inr (gm_put (key v) val m0)" by auto
  moreover obtain m where "foldE (put_decoded key g) vs (gm_put (key v) val m0) = Inr m" using Cons by fastforce
  ultimately show ?case by (simp del: put_decoded_Inr)
qed simp

lemma env_value_map_fold:
  "env_value_map x msg name kind vals = foldE (put_decoded ev_Key (\<lambda>v. wrapE (msg (ev_Key v)) (x_unmarshal x (ev_Value v)))) vals
     (gm_put ''kind'' (GStr kind) (gm_put ''name'' (GStr name) []))"
  by (simp add: env_value_map_def put_decoded_def [abs_def])

lemma decode_object_fold: "decode_object x kvs = foldE (put_decoded fst (\<lambda>kv. x_unmarshal x (snd kv))) kvs []"
  by (simp add: decode_object_def put_decoded_def [abs_def] case_prod_unfold)

text \<open>Decoding in any order, before or after the name and the kind, comes to the same map when no value is stored under those names.\<close>

lemma decode_object_env_value_map:
  assumes "env_value_map x msg name kind vs = Inr m" and "set vs = set us" and "distinct (map ev_Key vs)" and "distinct (map ev_Key us)"
    and "\<And>v. v \<in> set vs \<Longrightarrow> ev_Key v \<noteq> ''name'' \<and> ev_Key v \<noteq> ''kind''"
  shows "\<exists>m'. decode_object x (map (\<lambda>v. (ev_Key v, ev_Value v)) us) = Inr m' \<and>
    gm_put ''kind'' (GStr kind) (gm_put ''name'' (GStr name) m') = m"
proof -
  let ?g = "\<lambda>kv. x_unmarshal x (snd kv)" and ?us = "map (\<lambda>v. (ev_Key v, ev_Value v)) us"
  let ?m0 = "gm_put ''kind'' (GStr kind) (gm_put ''name'' (GStr name) [])"
  have m0: "gm_ok ?m0" by (intro gm_ok_put gm_ok_Nil)
  have m: "gm_ok m" and mv: "\<And>v. v \<in> set vs \<Longrightarrow> \<exists>val. x_unmarshal x (ev_Value v) = Inr val \<and> map_of m (ev_Key v) = Some val"
    and mo: "\<And>k. k \<notin> ev_Key ` set vs \<Longrightarrow> map_of m k = map_of ?m0 k"
    using put_decoded_fold [OF assms(1) [unfolded env_value_map_fold] m0 assms(3)] by auto
  have "\<exists>m'. foldE (put_decoded fst ?g) ?us [] = Inr m'"
  proof (rule put_decoded_succeeds)
    fix kv assume "kv \<in> set ?us"
    then obtain v where "v \<in> set us" "kv = (ev_Key v, ev_Value v)" by auto
    then show "\<exists>val. x_unmarshal x (snd kv) = Inr val" using mv [of v] assms(2) by auto
  qed
  then obtain m' where f: "foldE (put_decoded fst ?g) ?us [] = Inr m'" by blast
  have m': "gm_ok m'" and v': "\<And>v. v \<in> set us \<Longrightarrow> \<exists>val. x_unmarshal x (ev_Value v) = Inr val \<and> map_of m' (ev_Key v) = Some val"
    and o': "\<And>k. k \<notin> ev_Key ` set us \<Longrightarrow> map_of m' k = None"
    using put_decoded_fold [OF f] assms(4) by (auto simp: comp_def image_image)
  have "map_of (gm_put ''kind'' (GStr kind) (gm_put ''name'' (GStr name) m')) k = map_of m k" for k
  proof (cases "k \<in> ev_Key ` set vs")
    case True
    then obtain v where v: "v \<in> set vs" "k = ev_Key v" by blast
    then show ?thesis using mv [OF v(1)] v' [of v] assms(2) assms(5) [OF v(1)] by auto
  next
    case False
    then show ?thesis using mo [of k] o' [of k] assms(2) by simp
  qed
  then have "gm_put ''kind'' (GStr kind) (gm_put ''name'' (GStr name) m') = m"
    by (intro gm_eqI) (use m m' in \<open>auto simp del: map_of_gm_put\<close>)
  then show ?thesis using f by (auto simp: decode_object_fold)
qed

lemma copyStringAnyMap_id: "gm_ok m \<Longrightarrow> copyStringAnyMap m = m"
proof -
  assume m: "gm_ok m"
  have "copyStringAnyMap m = index_by fst snd m" by (simp add: copyStringAnyMap_def index_by_def case_prod_unfold)
  then show ?thesis using gm_eqI [OF index_by_ok m, of fst snd m] index_by_table [OF m] by (simp add: fun_eq_iff)
qed

section \<open>The rows of a tenant\<close>

definition tenant_row :: "Tenant \<Rightarrow> Environment \<Rightarrow> TenantEnvRow" where
  "tenant_row t e = \<lparr>te_ID = e_ID e, te_Name = e_Name e, te_Kind = e_Kind e, te_Labels = e_Labels e,
     te_Reconcile = e_Reconcile e, te_TenantID = t_ID t, te_TenantName = t_Name t\<rparr>"

lemma tenant_row_simps [simp]:
  "te_ID (tenant_row t e) = e_ID e" "te_Name (tenant_row t e) = e_Name e" "te_Kind (tenant_row t e) = e_Kind e"
  "te_Reconcile (tenant_row t e) = e_Reconcile e" "te_TenantID (tenant_row t e) = t_ID t" "te_TenantName (tenant_row t e) = t_Name t"
  by (simp_all add: tenant_row_def)

lemma ListAllTenantEnvironments_rows:
  "ListAllTenantEnvironments d = sort_key (\<lambda>r. (te_TenantName r, te_Name r))
     (concat (map (\<lambda>e. map (\<lambda>t. tenant_row t e) (filter (\<lambda>t. t_ID t = e_TenantID e) (tenants d))) (environments d)))"
  by (simp add: ListAllTenantEnvironments_def tenant_row_def)

lemma concat_if_single: "concat (map (\<lambda>e. if Q e then [h e] else []) es) = map h (filter Q es)"
  by (induction es) auto

lemma rows_of_tenant:
  assumes "db_ok d" and "t \<in> set (tenants d)"
  shows "filter (\<lambda>r. te_TenantID r = t_ID t) (ListAllTenantEnvironments d) =
    map (tenant_row t) (sort_key e_Name (filter (\<lambda>e. e_TenantID e = t_ID t) (environments d)))"
proof -
  have d: "distinct (map t_ID (tenants d))" using assms(1) by (simp add: db_ok_def)
  have one: "filter (\<lambda>r. te_TenantID r = t_ID t) (map (\<lambda>u. tenant_row u e) (filter (\<lambda>u. t_ID u = e_TenantID e) (tenants d))) =
      (if e_TenantID e = t_ID t then [tenant_row t e] else [])" for e
  proof -
    have "filter (\<lambda>r. te_TenantID r = t_ID t) (map (\<lambda>u. tenant_row u e) (filter (\<lambda>u. t_ID u = e_TenantID e) (tenants d))) =
        map (\<lambda>u. tenant_row u e) (filter (\<lambda>u. e_TenantID e = t_ID t) (filter (\<lambda>u. t_ID u = t_ID t) (tenants d)))"
      by (simp add: filter_map comp_def, rule arg_cong [where f = "map _"], rule filter_cong) auto
    then show ?thesis by (simp add: filter_unique [OF d assms(2)])
  qed
  have "filter (\<lambda>r. te_TenantID r = t_ID t) (concat (map (\<lambda>e. map (\<lambda>u. tenant_row u e) (filter (\<lambda>u. t_ID u = e_TenantID e) (tenants d))) (environments d))) =
      map (tenant_row t) (filter (\<lambda>e. e_TenantID e = t_ID t) (environments d))"
    by (simp only: filter_concat map_map comp_def one concat_if_single)
  then show ?thesis
    unfolding ListAllTenantEnvironments_rows filter_sort
    by (simp add: sort_key_map) (rule arg_cong [where f = "map _"], rule sort_key_cong_order, simp)
qed

section \<open>The values the snapshot holds\<close>

definition env_values_of :: "externals \<Rightarrow> (uuid, EnvironmentValue list) gomap \<Rightarrow> TenantEnvRow \<Rightarrow> gmap \<Rightarrow> bool" where
  "env_values_of x byEnv r m \<longleftrightarrow> (\<exists>msg. env_value_map x msg (te_Name r) (te_Kind r) (gm_list byEnv (te_ID r)) = Inr m)"

lemma env_value_map_msg: "env_value_map x msg name kind vs = Inr m \<Longrightarrow> env_value_map x msg' name kind vs = Inr m"
  unfolding env_value_map_def
  by (induction vs arbitrary: m rule: rev_induct) (fastforce simp: foldE_append bindE_eq_Inr)+

text \<open>One tenant of \<open>buildEnvValues\<close>, its environments decoded, then each put under its id.\<close>

definition tenant_step ::
  "externals \<Rightarrow> string \<Rightarrow> (uuid, EnvironmentValue list) gomap \<Rightarrow> (uuid, string) gomap \<Rightarrow> uuid \<times> TenantEnvRow list \<Rightarrow>
     (uuid, ComputedValues) gomap \<Rightarrow> err + (uuid, ComputedValues) gomap" where
  "tenant_step x aud byEnv tenantNames = (\<lambda>(tenantID, envInfos) result.
     bindE (mapE (\<lambda>ei. bindE (env_value_map x (\<lambda>k. ''unmarshal env value '' @ te_Name ei @ ''/'' @ k)
         (te_Name ei) (te_Kind ei) (gm_list byEnv (te_ID ei))) (\<lambda>vals. Inr (ei, vals))) envInfos) (\<lambda>parsed.
     foldE (\<lambda>(info, _) result.
       bindE (env_value_map x (\<lambda>k. ''unmarshal env value'') (te_Name info) (te_Kind info)
         (gm_list byEnv (te_ID info))) (\<lambda>envVals.
       Inr (gm_put (te_ID info)
         (tenant_values aud (case map_of tenantNames tenantID of Some n \<Rightarrow> n | None \<Rightarrow> []) parsed info envVals) result)))
       parsed result))"

lemma buildEnvValues_steps:
  "buildEnvValues x aud valueRows envRows = foldE (tenant_step x aud (group_by ev_EnvironmentID id valueRows) (index_by te_TenantID te_TenantName envRows))
     (group_by te_TenantID id envRows) []"
  by (simp add: buildEnvValues_def tenant_step_def Let_def)

definition tenant_entries ::
  "externals \<Rightarrow> string \<Rightarrow> (uuid, EnvironmentValue list) gomap \<Rightarrow> (uuid, string) gomap \<Rightarrow> (uuid, ComputedValues) gomap \<Rightarrow> uuid \<Rightarrow> TenantEnvRow list \<Rightarrow> bool" where
  "tenant_entries x aud byEnv tenantNames result tenantID infos \<longleftrightarrow> (\<exists>vals. (\<forall>r \<in> set infos. env_values_of x byEnv r (vals r)) \<and>
     (\<forall>r \<in> set infos. map_of result (te_ID r) =
        Some (tenant_values aud (case map_of tenantNames tenantID of Some n \<Rightarrow> n | None \<Rightarrow> []) (map (\<lambda>i. (i, vals i)) infos) r (vals r))))"

lemma tenant_step_entries:
  assumes "tenant_step x aud byEnv names (tid, infos) res = Inr res'" and "gm_ok res" and "distinct (map te_ID infos)"
  shows "gm_ok res' \<and> tenant_entries x aud byEnv names res' tid infos \<and> (\<forall>k. k \<notin> te_ID ` set infos \<longrightarrow> map_of res' k = map_of res k)"
proof -
  let ?dec = "\<lambda>ei :: TenantEnvRow. env_value_map x (\<lambda>k. ''unmarshal env value '' @ te_Name ei @ ''/'' @ k) (te_Name ei) (te_Kind ei) (gm_list byEnv (te_ID ei))"
  let ?dec' = "\<lambda>ei :: TenantEnvRow. env_value_map x (\<lambda>k. ''unmarshal env value'') (te_Name ei) (te_Kind ei) (gm_list byEnv (te_ID ei))"
  let ?name = "case map_of names tid of Some n \<Rightarrow> n | None \<Rightarrow> []"
  define vals where "vals ei = projr (?dec ei)" for ei :: TenantEnvRow
  obtain parsed where p: "mapE (\<lambda>ei. bindE (?dec ei) (\<lambda>v. Inr (ei, v))) infos = Inr parsed"
    and f: "foldE (\<lambda>(info, _) result. bindE (?dec' info) (\<lambda>v. Inr (gm_put (te_ID info) (tenant_values aud ?name parsed info v) result))) parsed res = Inr res'"
    using assms(1) by (auto simp: tenant_step_def bindE_eq_Inr)
  have "list_all2 (\<lambda>ei y. ?dec ei = Inr (vals ei) \<and> y = (ei, vals ei)) infos parsed"
    using p unfolding mapE_Inr_iff by (rule list_all2_mono) (auto simp: bindE_eq_Inr vals_def)
  then have parsed: "parsed = map (\<lambda>i. (i, vals i)) infos" and dec: "\<And>i. i \<in> set infos \<Longrightarrow> ?dec i = Inr (vals i)"
    by (auto simp: list_all2_conv_all_nth in_set_conv_nth intro: nth_equalityI)
  let ?g = "\<lambda>q. bindE (?dec' (fst q)) (\<lambda>v. Inr (tenant_values aud ?name parsed (fst q) v))"
  have "(\<lambda>(info, _) result. bindE (?dec' info) (\<lambda>v. Inr (gm_put (te_ID info) (tenant_values aud ?name parsed info v) result))) =
      put_decoded (\<lambda>q :: TenantEnvRow \<times> gmap. te_ID (fst q)) ?g"
    by (auto simp: put_decoded_def fun_eq_iff bindE_def split: sum.splits)
  then have f': "foldE (put_decoded (\<lambda>q :: TenantEnvRow \<times> gmap. te_ID (fst q)) ?g) parsed res = Inr res'" using f by simp
  have "distinct (map (\<lambda>q. te_ID (fst q)) parsed)" using assms(3) by (simp add: parsed comp_def)
  from put_decoded_fold [OF f' assms(2) this]
  have r: "gm_ok res'" "\<And>q. q \<in> set parsed \<Longrightarrow> \<exists>v. ?g q = Inr v \<and> map_of res' (te_ID (fst q)) = Some v"
    "\<And>k. k \<notin> te_ID ` set infos \<Longrightarrow> map_of res' k = map_of res k"
    by (auto simp: parsed image_image)
  have "map_of res' (te_ID i) = Some (tenant_values aud ?name parsed i (vals i))" if "i \<in> set infos" for i
    using r(2) [of "(i, vals i)"] that env_value_map_msg [OF dec [OF that]] by (auto simp: parsed bindE_eq_Inr)
  moreover have "env_values_of x byEnv i (vals i)" if "i \<in> set infos" for i
    using dec [OF that] unfolding env_values_of_def by blast
  ultimately show ?thesis using r(1,3) unfolding tenant_entries_def parsed by blast
qed

lemma foldE_tenant_step:
  assumes "foldE (tenant_step x aud byEnv names) groups res = Inr res'" and "gm_ok res"
    and "distinct (concat (map (\<lambda>g. map te_ID (snd g)) groups))"
  shows "gm_ok res' \<and> (\<forall>g \<in> set groups. tenant_entries x aud byEnv names res' (fst g) (snd g)) \<and>
    (\<forall>k. (\<forall>g \<in> set groups. k \<notin> te_ID ` set (snd g)) \<longrightarrow> map_of res' k = map_of res k)"
  using assms
proof (induction groups arbitrary: res)
  case (Cons g groups)
  obtain tid infos where g: "g = (tid, infos)" by fastforce
  obtain res1 where s: "tenant_step x aud byEnv names (tid, infos) res = Inr res1" and f: "foldE (tenant_step x aud byEnv names) groups res1 = Inr res'"
    using Cons.prems(1) by (auto simp: bindE_eq_Inr g)
  have one: "gm_ok res1" "tenant_entries x aud byEnv names res1 tid infos" "\<And>k. k \<notin> te_ID ` set infos \<Longrightarrow> map_of res1 k = map_of res k"
    using tenant_step_entries [OF s Cons.prems(2)] Cons.prems(3) by (auto simp: g)
  have "distinct (concat (map (\<lambda>g. map te_ID (snd g)) groups))" using Cons.prems(3) by simp
  note rest = Cons.IH [OF f one(1) this]
  have "map_of res' (te_ID r) = map_of res1 (te_ID r)" if "r \<in> set infos" for r
  proof -
    have "\<forall>g \<in> set groups. te_ID r \<notin> te_ID ` set (snd g)" using that Cons.prems(3) by (auto simp: g)
    then show ?thesis using rest by blast
  qed
  then have "tenant_entries x aud byEnv names res' tid infos" using one(2) unfolding tenant_entries_def by auto
  then show ?case using rest one(3) by (auto simp: g)
qed simp

lemma distinct_groups:
  assumes "distinct (map h rows)" and "gm_ok m" and "\<And>k. gm_list m k = filter (\<lambda>r. f r = k) rows"
  shows "distinct (concat (map (\<lambda>g. map h (snd g)) m))"
proof -
  have "\<And>k g. (k, g) \<in> set m \<Longrightarrow> g = filter (\<lambda>r. f r = k) rows"
    using assms(3) by (metis gm_entry_iff [OF assms(2)] gm_list_def option.simps(5))
  then show ?thesis using gm_ok_distinct [OF assms(2)]
  proof (induction m)
    case (Cons e m)
    obtain k g where e: "e = (k, g)" by fastforce
    have g: "g = filter (\<lambda>r. f r = k) rows" using Cons.prems(1) by (simp add: e)
    have "distinct (map h g)" unfolding g by (rule distinct_map_filter [OF assms(1)])
    moreover have "h ` set g \<inter> h ` set g' = {}" if "(k', g') \<in> set m" for k' g'
    proof -
      have "g' = filter (\<lambda>r. f r = k') rows" using Cons.prems(1) that by auto
      moreover have "k' \<noteq> k" using Cons.prems(2) that by (force simp: e)
      ultimately have "\<And>a b. a \<in> set g \<Longrightarrow> b \<in> set g' \<Longrightarrow> a \<in> set rows \<and> b \<in> set rows \<and> a \<noteq> b" by (auto simp: g)
      then show ?thesis using assms(1) by (fastforce simp: distinct_map dest: inj_onD)
    qed
    moreover have "distinct (concat (map (\<lambda>g. map h (snd g)) m))" using Cons by simp
    ultimately show ?case by (fastforce simp: e)
  qed simp
qed

lemma buildEnvValues_lookup:
  assumes "buildEnvValues x aud valueRows envRows = Inr res" and "distinct (map te_ID envRows)" and "r \<in> set envRows"
  shows "\<exists>vals. (\<forall>i \<in> set (filter (\<lambda>i. te_TenantID i = te_TenantID r) envRows). env_values_of x (group_by ev_EnvironmentID id valueRows) i (vals i)) \<and>
    map_of res (te_ID r) = Some (tenant_values aud
      (case map_of (index_by te_TenantID te_TenantName envRows) (te_TenantID r) of Some n \<Rightarrow> n | None \<Rightarrow> [])
      (map (\<lambda>i. (i, vals i)) (filter (\<lambda>i. te_TenantID i = te_TenantID r) envRows)) r (vals r))"
proof -
  let ?groups = "group_by te_TenantID id envRows" and ?infos = "filter (\<lambda>i. te_TenantID i = te_TenantID r) envRows"
  have "distinct (concat (map (\<lambda>g. map te_ID (snd g)) ?groups))"
    by (rule distinct_groups [OF assms(2), of _ te_TenantID]) (simp_all add: gm_list_group_by)
  note all = foldE_tenant_step [OF assms(1) [unfolded buildEnvValues_steps] gm_ok_Nil this]
  have "map_of ?groups (te_TenantID r) \<noteq> None" using assms(3) by (simp add: dom_group_by)
  moreover have "gm_list ?groups (te_TenantID r) = ?infos" by (simp add: gm_list_group_by)
  ultimately have "(te_TenantID r, ?infos) \<in> set ?groups" by (auto simp: gm_entry_iff gm_list_def)
  with all have "tenant_entries x aud (group_by ev_EnvironmentID id valueRows) (index_by te_TenantID te_TenantName envRows) res (te_TenantID r) ?infos"
    by fastforce
  then show ?thesis using assms(3) unfolding tenant_entries_def by auto
qed

section \<open>The page collects the same values\<close>

definition add_values :: "uuid \<Rightarrow> (Environment \<Rightarrow> gmap) \<Rightarrow> Environment \<Rightarrow> ComputedValues \<Rightarrow> ComputedValues" where
  "add_values envID vals e mv =
     (let mv = (if e_ID e = envID then mv \<lparr>cv_Env := vals e\<rparr> else mv)
      in if e_Kind e = EnvironmentKindManagement then mv \<lparr>cv_Management := Some (vals e)\<rparr> else mv \<lparr>cv_Envs := cv_Envs mv @ [vals e]\<rparr>)"

definition mapping_row :: "db \<Rightarrow> Environment \<Rightarrow> MappingRow" where
  "mapping_row d e = \<lparr>mr_ID = e_ID e, mr_Name = e_Name e, mr_Kind = e_Kind e,
     mr_Values = map (\<lambda>v. (ev_Key v, ev_Value v)) (filter (\<lambda>v. ev_EnvironmentID v = e_ID e) (environment_values d))\<rparr>"

lemma ListMappingValuesForTenant_rows:
  "ListMappingValuesForTenant tid True d = map (mapping_row d) (sort_key e_Name (filter (\<lambda>e. e_TenantID e = tid) (environments d)))"
  by (simp add: ListMappingValuesForTenant_def mapping_row_def sort_key_map shown_value_def)

lemma foldE_add_mapping:
  assumes "\<And>e. e \<in> set es \<Longrightarrow> \<exists>m. decode_object x (mr_Values (mapping_row d e)) = Inr m \<and>
      gm_put ''kind'' (GStr (e_Kind e)) (gm_put ''name'' (GStr (e_Name e)) m) = vals e"
  shows "foldE (add_mapping x envID) (map (mapping_row d) es) mv = Inr (fold (add_values envID vals) es mv)"
  using assms
proof (induction es arbitrary: mv)
  case (Cons e es)
  obtain m where m: "decode_object x (mr_Values (mapping_row d e)) = Inr m"
    "gm_put ''kind'' (GStr (e_Kind e)) (gm_put ''name'' (GStr (e_Name e)) m) = vals e" using Cons.prems [of e] by auto
  have "add_mapping x envID (mapping_row d e) mv = Inr (add_values envID vals e mv)"
    using m(1) by (simp add: add_mapping_def add_values_def Let_def m(2) [symmetric]) (simp add: mapping_row_def)
  then show ?case using Cons by simp
qed simp

lemma fold_add_values:
  "cv_Kind (fold (add_values envID vals) es mv) = cv_Kind mv" "cv_Tenant (fold (add_values envID vals) es mv) = cv_Tenant mv"
  "cv_IAPAudience (fold (add_values envID vals) es mv) = cv_IAPAudience mv" "cv_Configs (fold (add_values envID vals) es mv) = cv_Configs mv"
  "cv_Envs (fold (add_values envID vals) es mv) = cv_Envs mv @ map vals (filter (\<lambda>e. e_Kind e \<noteq> EnvironmentKindManagement) es)"
  "cv_Management (fold (add_values envID vals) es mv) = fold (\<lambda>e m. if e_Kind e = EnvironmentKindManagement then Some (vals e) else m) es (cv_Management mv)"
  by (induction es arbitrary: mv) (simp_all add: add_values_def Let_def)

lemma fold_add_values_env:
  assumes "distinct (map e_ID es)" and "e \<in> set es"
  shows "cv_Env (fold (add_values (e_ID e) vals) es mv) = vals e"
proof -
  have other: "e_ID e \<notin> e_ID ` set us \<Longrightarrow> cv_Env (fold (add_values (e_ID e) vals) us v) = cv_Env v" for us v
    by (induction us arbitrary: v) (auto simp: add_values_def Let_def)
  show ?thesis using assms
  proof (induction es arbitrary: mv)
    case (Cons a es)
    show ?case
    proof (cases "a = e")
      case True
      have "cv_Env (add_values (e_ID e) vals e mv) = vals e" by (simp add: add_values_def Let_def)
      then show ?thesis using Cons.prems(1) other [of es "add_values (e_ID e) vals e mv"] True by simp
    next
      case False
      then show ?thesis using Cons by simp
    qed
  qed simp
qed

lemma fold_add_values_tenant_values:
  assumes "distinct (map e_ID es)" and "e \<in> set es"
  shows "fold (add_values (e_ID e) (\<lambda>i. vals (tenant_row t i))) es \<lparr>cv_Kind = e_Kind e, cv_Tenant = t_Name t, cv_IAPAudience = aud,
      cv_Management = None, cv_Env = [], cv_Envs = [], cv_Configs = []\<rparr> =
    tenant_values aud (t_Name t) (map (\<lambda>i. (i, vals i)) (map (tenant_row t) es)) (tenant_row t e) (vals (tenant_row t e))"
  by (rule ComputedValues.equality)
    (simp_all add: fold_add_values fold_add_values_env [OF assms] tenant_values_def fold_map comp_def filter_map)

text \<open>What the rows of the values must be: one per environment and key, none under the two names the code adds.\<close>

definition plain_values :: "db \<Rightarrow> bool" where
  "plain_values d \<longleftrightarrow> distinct (map ev_key (environment_values d)) \<and>
     (\<forall>v \<in> set (environment_values d). ev_Key v \<noteq> ''name'' \<and> ev_Key v \<noteq> ''kind'')"

lemma plain_values_keys:
  assumes "plain_values d"
  shows "distinct (map ev_Key (filter (\<lambda>v. ev_EnvironmentID v = u) (environment_values d)))"
proof -
  have d: "distinct (map ev_key (filter (\<lambda>v. ev_EnvironmentID v = u) (environment_values d)))"
    using assms by (intro distinct_map_filter) (simp add: plain_values_def)
  have "inj_on ev_Key (set (filter (\<lambda>v. ev_EnvironmentID v = u) (environment_values d)))"
  proof (rule inj_onI)
    fix a b
    assume a: "a \<in> set (filter (\<lambda>v. ev_EnvironmentID v = u) (environment_values d))"
      and b: "b \<in> set (filter (\<lambda>v. ev_EnvironmentID v = u) (environment_values d))" and "ev_Key a = ev_Key b"
    then have "ev_key a = ev_key b" by (simp add: ev_key_def)
    then show "a = b" using d a b by (auto simp: distinct_map dest: inj_onD)
  qed
  then show ?thesis using d by (simp add: distinct_map)
qed

lemma decode_mapping_row:
  assumes "plain_values d" and "env_values_of x (group_by ev_EnvironmentID id (ListAllEnvironmentValues d)) (tenant_row t e) m"
  shows "\<exists>m'. decode_object x (mr_Values (mapping_row d e)) = Inr m' \<and>
      gm_put ''kind'' (GStr (e_Kind e)) (gm_put ''name'' (GStr (e_Name e)) m') = m"
proof -
  let ?vs = "filter (\<lambda>v. ev_EnvironmentID v = e_ID e) (environment_values d)"
  have rows: "gm_list (group_by ev_EnvironmentID id (ListAllEnvironmentValues d)) (e_ID e) = sort_key ev_Key ?vs"
    by (simp add: gm_list_group_by ListAllEnvironmentValues_def filter_sort_key2)
  obtain msg where "env_value_map x msg (e_Name e) (e_Kind e) (sort_key ev_Key ?vs) = Inr m"
    using assms(2) by (auto simp: env_values_of_def rows)
  from decode_object_env_value_map [OF this, of ?vs] show ?thesis
    using assms(1) plain_values_keys [OF assms(1)] by (auto simp: plain_values_def mapping_row_def distinct_map_sort_key)
qed

lemma env_values_of_ok: "env_values_of x byEnv r m \<Longrightarrow> gm_ok m"
  unfolding env_values_of_def env_value_map_fold
  by (elim exE, erule foldE_invariant [where P = gm_ok], (intro gm_ok_put gm_ok_Nil), auto)

lemma fold_last_fixed:
  "(\<And>i. i \<in> set us \<Longrightarrow> h (v i) = v i) \<Longrightarrow> map_option h m0 = m0 \<Longrightarrow>
     map_option h (fold (\<lambda>i m. if P i then Some (v i) else m) us m0) = fold (\<lambda>i m. if P i then Some (v i) else m) us m0"
  by (induction us arbitrary: m0) auto

lemma all_row_ids:
  assumes "db_ok d"
  shows "distinct (map te_ID (ListAllTenantEnvironments d))"
proof -
  have "distinct (map te_ID (concat (map (\<lambda>e. map (\<lambda>t. tenant_row t e) (filter (\<lambda>t. t_ID t = e_TenantID e) (tenants d))) (environments d))))"
    by (rule distinct_concat_keys [where f = e_ID]) (use assms filter_unique_key [of t_ID "tenants d"] in \<open>auto simp: db_ok_def\<close>)
  then show ?thesis unfolding ListAllTenantEnvironments_rows distinct_map_sort_key .
qed

lemma tenant_name_index:
  assumes "db_ok d" and "t \<in> set (tenants d)" and "tenant_row t e \<in> set (ListAllTenantEnvironments d)"
  shows "map_of (index_by te_TenantID te_TenantName (ListAllTenantEnvironments d)) (t_ID t) = Some (t_Name t)"
proof -
  have "map_of (index_by te_TenantID te_TenantName (ListAllTenantEnvironments d)) (t_ID t) \<noteq> None"
    unfolding index_by_None_iff using assms(3) by (force simp: image_iff)
  then obtain n where n: "map_of (index_by te_TenantID te_TenantName (ListAllTenantEnvironments d)) (t_ID t) = Some n" by blast
  then obtain r where "r \<in> set (filter (\<lambda>r. te_TenantID r = t_ID t) (ListAllTenantEnvironments d))" "te_TenantName r = n"
    using index_by_SomeD [OF n] by auto
  then have "n = t_Name t" unfolding rows_of_tenant [OF assms(1,2)] by auto
  then show ?thesis using n by simp
qed

lemma page_mapping_values:
  assumes "fetchSnapshot x aud fails d = Inr snap" and "db_ok d" and "plain_values d" and "\<And>q. \<not> io_fails io q"
    and "e \<in> set (environments d)" and "t \<in> set (tenants d)" and "t_ID t = e_TenantID e"
  shows "\<exists>mv. map_of (s_envValues snap) (e_ID e) = Some mv \<and>
    MappingValuesForEnvironment x aud io (e_ID e) True d =
      Inr (mv \<lparr>cv_Env := copyStringAnyMap (cv_Env mv), cv_Management := map_option copyStringAnyMap (cv_Management mv),
        cv_Envs := map copyStringAnyMap (cv_Envs mv)\<rparr>, e_Kind e)"
proof -
  let ?es = "sort_key e_Name (filter (\<lambda>i. e_TenantID i = t_ID t) (environments d))" and ?r = "tenant_row t e"
  let ?byEnv = "group_by ev_EnvironmentID id (ListAllEnvironmentValues d)"
  have e: "e \<in> set ?es" using assms(5,7) by simp
  have dist: "distinct (map e_ID ?es)" using assms(2) by (simp add: db_ok_def distinct_map_sort_key distinct_map_filter)
  note rows = rows_of_tenant [OF assms(2,6)]
  have "?r \<in> set (filter (\<lambda>r. te_TenantID r = t_ID t) (ListAllTenantEnvironments d))" unfolding rows using e by simp
  then have r: "?r \<in> set (ListAllTenantEnvironments d)" by simp
  obtain vals where vals: "\<And>i. i \<in> set ?es \<Longrightarrow> env_values_of x ?byEnv (tenant_row t i) (vals (tenant_row t i))"
    and mv: "map_of (s_envValues snap) (e_ID e) = Some (tenant_values aud (t_Name t) (map (\<lambda>i. (i, vals i)) (map (tenant_row t) ?es)) ?r (vals ?r))"
    using buildEnvValues_lookup [OF fetchSnapshot_InrD(9) [OF assms(1)] all_row_ids [OF assms(2)] r]
    by (simp only: tenant_row_simps rows tenant_name_index [OF assms(2,6) r] option.simps) auto
  let ?mv = "tenant_values aud (t_Name t) (map (\<lambda>i. (i, vals i)) (map (tenant_row t) ?es)) ?r (vals ?r)"
  have copy: "copyStringAnyMap (vals (tenant_row t i)) = vals (tenant_row t i)" if "i \<in> set ?es" for i
    using copyStringAnyMap_id env_values_of_ok vals [OF that] by blast
  have fold: "foldE (add_mapping x (e_ID e)) (map (mapping_row d) ?es) m = Inr (fold (add_values (e_ID e) (\<lambda>i. vals (tenant_row t i))) ?es m)" for m
    by (rule foldE_add_mapping) (rule decode_mapping_row [OF assms(3) vals])
  have get: "environment_Get io (e_ID e) d = Inr e" "GetTenant io (t_ID t) d = Inr t"
    using find_unique [of e_ID "environments d" e] find_unique [of t_ID "tenants d" t] assms(2,4,5,6)
    by (simp_all add: environment_Get_def GetTenant_def one_def db_ok_def)
  have "map_option copyStringAnyMap (fold (\<lambda>i m. if e_Kind i = EnvironmentKindManagement then Some (vals (tenant_row t i)) else m) ?es None) =
      fold (\<lambda>i m. if e_Kind i = EnvironmentKindManagement then Some (vals (tenant_row t i)) else m) ?es None"
    by (rule fold_last_fixed) (use copy in simp_all)
  then have c1: "map_option copyStringAnyMap (cv_Management ?mv) = cv_Management ?mv"
    by (simp add: tenant_values_def fold_map comp_def)
  have c2: "copyStringAnyMap (cv_Env ?mv) = cv_Env ?mv" using copy [OF e] by (simp add: tenant_values_def)
  have c3: "map copyStringAnyMap (cv_Envs ?mv) = cv_Envs ?mv" using copy by (simp add: tenant_values_def filter_map comp_def)
  have "?mv \<lparr>cv_Env := copyStringAnyMap (cv_Env ?mv), cv_Management := map_option copyStringAnyMap (cv_Management ?mv),
        cv_Envs := map copyStringAnyMap (cv_Envs ?mv)\<rparr> = ?mv" unfolding c1 c2 c3 by simp
  moreover have "MappingValuesForEnvironment x aud io (e_ID e) True d = Inr (?mv, e_Kind e)"
    using get assms(4)
    by (simp only: MappingValuesForEnvironment_def wrapE_simps bindE_simps assms(7) [symmetric] Let_def query_def if_False
        ListMappingValuesForTenant_rows fold fold_add_values_tenant_values [OF dist e])
  ultimately have "MappingValuesForEnvironment x aud io (e_ID e) True d =
      Inr (?mv \<lparr>cv_Env := copyStringAnyMap (cv_Env ?mv), cv_Management := map_option copyStringAnyMap (cv_Management ?mv),
        cv_Envs := map copyStringAnyMap (cv_Envs ?mv)\<rparr>, e_Kind e)"
    by simp
  then show ?thesis using mv by blast
qed

section \<open>The page renders what the reconciler deploys\<close>

lemma RenderHelmValues_secrets: "RenderHelmValues x (data \<lparr>d_SecretEnvKeys := s\<rparr>) f b = RenderHelmValues x data f b"
proof -
  have "finishHelmValues (data \<lparr>d_SecretEnvKeys := s\<rparr>) f b = finishHelmValues data f b"
    by (intro ext) (simp add: finishHelmValues_def Let_def split: option.split gval.split)
  then show ?thesis by (simp add: RenderHelmValues_def)
qed

lemma snapshot_environment:
  assumes "fetchSnapshot x aud fails d = Inr snap" and "env \<in> set (s_environments snap)"
  shows "\<exists>e t. e \<in> set (environments d) \<and> t \<in> set (tenants d) \<and> t_ID t = e_TenantID e \<and> en_ID env = e_ID e \<and> en_Kind env = e_Kind e"
proof -
  obtain r where "r \<in> set (ListAllTenantEnvironments d)" "env = environment_of_row r"
    using fetchSnapshot_InrD(1) [OF assms(1)] assms(2) by auto
  moreover from this(1) obtain e t where "e \<in> set (environments d)" "t \<in> set (tenants d)" "t_ID t = e_TenantID e" "r = tenant_row t e"
    by (auto simp: ListAllTenantEnvironments_rows)
  ultimately show ?thesis by (intro exI [of _ e] exI [of _ t]) (simp add: environment_of_row_def)
qed

lemma HelmValues_desired:
  assumes "fetchSnapshot x aud fails d = Inr snap" and "db_ok d" and "plain_values d" and "\<And>q. \<not> io_fails io q"
    and "env \<in> set (s_environments snap)" and "desired x snap env dep = Some (vals, hash)"
  shows "HelmValues x aud io (ra_Feature dep) (en_ID env) d = Inr vals"
proof -
  obtain e t where e: "e \<in> set (environments d)" and t: "t \<in> set (tenants d)" and id: "t_ID t = e_TenantID e" "en_ID env = e_ID e" "en_Kind env = e_Kind e"
    using snapshot_environment [OF assms(1,5)] by blast
  obtain mp mv where mp: "MakeHelmConfigMap (merged_config snap env (ra_Feature dep)) = Inr mp" and mv: "map_of (s_envValues snap) (en_ID env) = Some mv"
    and r: "RenderHelmValues x (render_data env (merged_config snap env (ra_Feature dep)) mp mv) (ra_Feature dep) True = Inr vals"
    using desired_SomeE [OF assms(6)] by blast
  note page = page_mapping_values [OF assms(1-4) e t id(1), unfolded id(2) [symmetric] id(3) [symmetric] mv]
  have get: "environment_Get io (en_ID env) d = Inr e"
    using find_unique [of e_ID "environments d" e] e assms(2,4) by (simp add: environment_Get_def one_def db_ok_def id)
  let ?mv = "mv \<lparr>cv_Env := copyStringAnyMap (cv_Env mv), cv_Management := map_option copyStringAnyMap (cv_Management mv),
      cv_Envs := map copyStringAnyMap (cv_Envs mv)\<rparr>"
  have mvs: "MappingValuesForEnvironment x aud io (en_ID env) True d = Inr (?mv, en_Kind env)" using page by simp
  have "fetchHelmRenderData x aud io (ra_Feature dep) (en_ID env) d = Inr \<lparr>d_MV = ?mv, d_EnvKind = en_Kind env,
      d_ConfigVals = merged_config snap env (ra_Feature dep), d_ConfigMap = mp,
      d_SecretEnvKeys = index_by snd (\<lambda>_. True) (ListSecretKeysForTenant (e_TenantID e) d)\<rparr>"
    using mp unfolding merged_config_same [OF assms(1)] configIncludeKeys_def
    by (simp only: fetchHelmRenderData_def mvs get query_def assms(4) if_False Let_def wrapE_simps bindE_simps prod.case)
  then have "fetchHelmRenderData x aud io (ra_Feature dep) (en_ID env) d = Inr ((render_data env (merged_config snap env (ra_Feature dep)) mp mv)
      \<lparr>d_SecretEnvKeys := index_by snd (\<lambda>_. True) (ListSecretKeysForTenant (e_TenantID e) d)\<rparr>)"
    by (simp only: render_data_def HelmRenderData.update_convs)
  then show ?thesis using r by (simp add: HelmValues_def RenderHelmValues_secrets)
qed

lemma HelmValues_steady:
  assumes "same_libraries x x'" and "\<And>kind. steady x x' kind f"
  shows "HelmValues x' aud io f e d = Inr m \<longleftrightarrow> HelmValues x aud io f e d = Inr m"
proof -
  note lib = same_libraries_fields [OF assms(1)]
  have "decode_object x' = decode_object x" by (intro ext) (simp add: decode_object_def lib)
  then have "add_mapping x' = add_mapping x" by (intro ext) (simp add: add_mapping_def)
  then have "MappingValuesForEnvironment x' = MappingValuesForEnvironment x"
    by (intro ext) (simp add: MappingValuesForEnvironment_def)
  then have fetch: "fetchHelmRenderData x' = (fetchHelmRenderData x :: string \<Rightarrow> io \<Rightarrow> 'a Feature_scheme \<Rightarrow> uuid \<Rightarrow> db \<Rightarrow> err + HelmRenderData)"
    by (intro ext) (simp add: fetchHelmRenderData_def)
  have "RenderHelmValues x' data f True = Inr m \<longleftrightarrow> RenderHelmValues x data f True = Inr m"
    if data: "fetchHelmRenderData x aud io f e d = Inr data" for data
  proof (rule RenderHelmValues_steady [OF assms])
    obtain vals where "MakeHelmConfigMap vals = Inr (d_ConfigMap data)"
      using data by (auto simp: fetchHelmRenderData_def bindE_eq_Inr Let_def split: prod.splits)
    then show "gval_ok (GMap (d_ConfigMap data))" by (rule MakeHelmConfigMap_ok)
  qed
  then show ?thesis unfolding HelmValues_def fetch by (cases "fetchHelmRenderData x aud io f e d") auto
qed

text \<open>
  C15. The page shows the values that are deployed: whatever the reconciler computed from its snapshot for an environment
  and a feature, to deploy or already deployed, is what \<open>HelmValues\<close> renders for them from the same database,
  although it reads the values of the environment with other statements and merges them with other code. It needs that no
  value of an environment is stored under the names \<open>name\<close> and \<open>kind\<close>, and that the cycle and the page are steady about the
  feature: each has the templates executed and the maps ranged over anew.
\<close>

theorem page_renders_what_is_deployed:
  assumes "ComputeDesiredState x aud io d = Inr ds" and "res \<in> set ds"
    and "dd_Action res \<in> {ActionDeploy, ActionSkipUnchanged, ActionSkipInProgress}"
    and "db_ok d" and "plain_values d" and "\<And>q. \<not> io_fails io q"
    and "same_libraries x x'" and "\<And>kind. steady x x' kind (dd_Feature res)"
  shows "HelmValues x' aud io (dd_Feature res) (dd_EnvironmentID res) d = Inr (dd_Values res)"
proof -
  obtain snap where s: "fetchSnapshot x aud (io_fails io) d = Inr snap" and ds: "computeActions x (io_now io) snap = Inr ds"
    using assms(1) by (auto simp: ComputeDesiredState_def bindE_eq_Inr)
  obtain env dep where i: "(env, dep) \<in> set (work_items snap)" and r: "dispatchDecision x (io_now io) snap (env, dep) = Inr res"
    using computeActions_item [OF ds assms(2)] by blast
  have "computeAction x snap env dep = Inr res"
    using r assms(3) by (auto simp: dispatchDecision_def Action_defs split: if_splits)
  moreover have "\<not> Action_IsFailure (dd_Action res)" using assms(3) by (auto simp: Action_IsFailure_def Action_defs)
  ultimately have "desired x snap env dep = Some (dd_Values res, dd_Hash res)" using computeAction_settled by blast
  moreover have "env \<in> set (s_environments snap)" using i by (simp add: work_items_iff)
  moreover have "decision_for env dep res" using dispatchDecision_for [OF r] .
  ultimately show ?thesis
    using HelmValues_desired [OF s assms(4-6)] HelmValues_steady [OF assms(7,8)] by (simp add: decision_for_def)
qed

theorem page_renders_what_is_deployed_witness:
  "HelmValues example_externals [] example_io example_feature 1 (w_db example_world) = Inr example_values"
proof -
  have "w_db example_world = example_db" by (simp add: example_world_def)
  then show ?thesis
    using page_renders_what_is_deployed [OF example_ComputeDesiredState, of example_decision example_externals] example_db_ok
    by (simp add: example_decision_def plain_values_def example_db_def empty_db_def example_io_def example_env_def example_assignment_def)
qed

end
