(* ===== verification/Fasitd_Auth.thy ===== *)
theory Fasitd_Auth
  imports Fasitd
begin

text \<open>
  Who may open a stream to the shadow lane, \<open>internal/fasitd/auth.go\<close>: the stream interceptor with its two ways in, a
  service account token of the cluster checked against the OIDC issuer of the environment named in the headers, and the assertion of
  Google's Identity-Aware Proxy. The OIDC and IAP libraries and the HTTP client are parameters; a provider and a key
  set are known by what they were made from. An \<open>auth_libs\<close> says what the libraries give during one stream: another stream may
  discover something else from the same issuer, and the keys behind a key set change on their own. The two process-wide caches
  are part of the state, and what is in them stays.
\<close>

section \<open>The interceptor\<close>

type_synonym MD = "(string, string list) gomap"

definition md_Get :: "MD \<Rightarrow> string \<Rightarrow> string list" where
  "md_Get md k = (case map_of md k of None \<Rightarrow> [] | Some vs \<Rightarrow> vs)"

datatype verifier = ProviderVerifier string string | KeySetVerifier string string string

record payload =
  pl_Issuer :: string
  pl_IssuedAt :: int

record auth_libs =
  ax_NewProvider :: "string \<Rightarrow> err + string"
  ax_NewRequest :: "string \<Rightarrow> err option"
  ax_Do :: "string \<Rightarrow> err + nat \<times> string"
  ax_decodeDiscovery :: "string \<Rightarrow> err + string"
  ax_Verify :: "verifier \<Rightarrow> string \<Rightarrow> err option"
  ax_Validate :: "string \<Rightarrow> string \<Rightarrow> err + payload"

record auth_caches =
  providerCache :: "(string, string) gomap"
  keySetCache :: "(string, string) gomap"

definition iapAssertionHeader :: string where
  "iapAssertionHeader = ''x-goog-iap-jwt-assertion''"

definition remoteKeySetFromDiscovery :: "auth_libs \<Rightarrow> string \<Rightarrow> err + string" where
  "remoteKeySetFromDiscovery a discoveryURL = (case ax_NewRequest a discoveryURL of
      Some e \<Rightarrow> Inl (Wrap ''build discovery request'' e)
    | None \<Rightarrow> bindE (wrapE ''fetch discovery document'' (ax_Do a discoveryURL)) (\<lambda>(status, body).
        if status \<noteq> 200
        then Inl (Errorf (''discovery document '' @ discoveryURL @ '': status '' @ digits status @ '': '' @ take 512 body))
        else bindE (wrapE ''decode discovery document'' (ax_decodeDiscovery a body)) (\<lambda>jwksURI.
          if jwksURI = [] then Inl (Errorf (''discovery document '' @ discoveryURL @ '' has no jwks_uri''))
          else Inr jwksURI)))"

definition getOIDCVerifier :: "auth_libs \<Rightarrow> string \<Rightarrow> string \<Rightarrow> string \<Rightarrow> auth_caches \<Rightarrow> (err + verifier) \<times> auth_caches" where
  "getOIDCVerifier a issuer discoveryURL audience c =
     (if discoveryURL = []
      then (case map_of (providerCache c) issuer of
          Some p \<Rightarrow> (Inr (ProviderVerifier p audience), c)
        | None \<Rightarrow> (case ax_NewProvider a issuer of
              Inl e \<Rightarrow> (Inl (Wrap ''discover from issuer'' e), c)
            | Inr provider \<Rightarrow> (Inr (ProviderVerifier provider audience), c \<lparr>providerCache := gm_put issuer provider (providerCache c)\<rparr>)))
      else (case map_of (keySetCache c) discoveryURL of
          Some ks \<Rightarrow> (Inr (KeySetVerifier issuer ks audience), c)
        | None \<Rightarrow> (case remoteKeySetFromDiscovery a discoveryURL of
              Inl e \<Rightarrow> (Inl e, c)
            | Inr keySet \<Rightarrow> (Inr (KeySetVerifier issuer keySet audience), c \<lparr>keySetCache := gm_put discoveryURL keySet (keySetCache c)\<rparr>))))"

definition validateKSAToken :: "auth_libs \<Rightarrow> io \<Rightarrow> db \<Rightarrow> MD \<Rightarrow> string \<Rightarrow> string \<Rightarrow> auth_caches \<Rightarrow> rpc_error option \<times> auth_caches" where
  "validateKSAToken a io d md rawToken audience c =
     (case (md_Get md ''x-fasit-tenant'', md_Get md ''x-fasit-environment'') of
        (tenantName # _, envName # _) \<Rightarrow>
          (case GetTenantByName io tenantName d of
             Inl e \<Rightarrow> (Some (RpcStatus NotFound (''unknown tenant: '' @ Error e)), c)
           | Inr tenant \<Rightarrow>
          (case environment_GetByName io (t_ID tenant) envName d of
             Inl e \<Rightarrow> (Some (RpcStatus NotFound (''unknown environment: '' @ Error e)), c)
           | Inr env \<Rightarrow>
          (case e_OIDCIssuer env of
             None \<Rightarrow> (Some (RpcStatus FailedPrecondition ''environment has no OIDC issuer configured''), c)
           | Some issuer \<Rightarrow>
             if issuer = [] then (Some (RpcStatus FailedPrecondition ''environment has no OIDC issuer configured''), c)
             else
          (case getOIDCVerifier a issuer (case e_OIDCDiscoveryURL env of None \<Rightarrow> [] | Some u \<Rightarrow> u) audience c of
             (Inl e, c) \<Rightarrow> (Some (RpcStatus Internal (''configure oidc verifier: '' @ Error e)), c)
           | (Inr verifier, c) \<Rightarrow>
             (case ax_Verify a verifier rawToken of
                Some e \<Rightarrow> (Some (RpcStatus Unauthenticated (''invalid KSA token: '' @ Error e)), c)
              | None \<Rightarrow> (None, c))))))
      | _ \<Rightarrow> (Some (RpcStatus InvalidArgument ''missing tenant/environment headers for KSA auth''), c))"

definition validateIAP :: "auth_libs \<Rightarrow> io \<Rightarrow> MD option \<Rightarrow> string \<Rightarrow> rpc_error option" where
  "validateIAP a io mdo audience = (case mdo of
      None \<Rightarrow> Some (RpcStatus Unauthenticated ''missing metadata'')
    | Some md \<Rightarrow> (case md_Get md iapAssertionHeader of
        [] \<Rightarrow> Some (RpcStatus Unauthenticated ''missing IAP assertion'')
      | v # _ \<Rightarrow>
        if v = [] then Some (RpcStatus Unauthenticated ''missing IAP assertion'')
        else (case ax_Validate a v audience of
            Inl e \<Rightarrow> Some (RpcStatus Unauthenticated ''invalid IAP assertion'')
          | Inr payload \<Rightarrow>
            if pl_Issuer payload \<noteq> ''https://cloud.google.com/iap''
            then Some (RpcStatus Unauthenticated ''invalid IAP assertion issuer'')
            else if time_Unix (pl_IssuedAt payload) 0 > io_now io + 30 * second
            then Some (RpcStatus Unauthenticated ''IAP assertion issued in the future'')
            else None)))"

definition bearer :: "string \<Rightarrow> bool" where
  "bearer h \<longleftrightarrow> strings_HasPrefix (strings_ToLower h) ''bearer ''"

text \<open>\<open>None\<close>: the handler runs.\<close>

definition StreamInterceptor ::
  "auth_libs \<Rightarrow> io \<Rightarrow> string \<Rightarrow> bool \<Rightarrow> db \<Rightarrow> MD option \<Rightarrow> auth_caches \<Rightarrow> rpc_error option \<times> auth_caches" where
  "StreamInterceptor a io audience insecureSkipProxy d mdo c =
     (if insecureSkipProxy then (None, c)
      else if audience = [] then (Some (RpcStatus Internal ''IAP audience is not configured''), c)
      else case mdo of
        None \<Rightarrow> (Some (RpcStatus Unauthenticated ''missing metadata''), c)
      | Some md \<Rightarrow> (case md_Get md ''authorization'' of
          h # _ \<Rightarrow> if bearer h then validateKSAToken a io d md (drop (length ''bearer '') h) audience c
                  else (validateIAP a io mdo audience, c)
        | [] \<Rightarrow> (validateIAP a io mdo audience, c)))"

text \<open>The interceptor of the tests: only the assertion of the proxy.\<close>

definition iapStreamInterceptor :: "auth_libs \<Rightarrow> io \<Rightarrow> string \<Rightarrow> bool \<Rightarrow> MD option \<Rightarrow> rpc_error option" where
  "iapStreamInterceptor a io audience insecureSkipProxy mdo =
     (if insecureSkipProxy then None
      else if audience = [] then Some (RpcStatus Internal ''IAP audience is not configured'')
      else validateIAP a io mdo audience)"

definition NewGrpcServer_error :: "string \<Rightarrow> bool \<Rightarrow> err option" where
  "NewGrpcServer_error audience insecureSkipProxy =
     (if \<not> insecureSkipProxy \<and> audience = [] then Some (Errorf ''INSECURE_SKIP_PROXY must be true when IAP audience is empty'') else None)"

text \<open>A stream: the interceptor, then the connection.\<close>

definition open_stream ::
  "auth_libs \<Rightarrow> io \<Rightarrow> string \<Rightarrow> bool \<Rightarrow> MD option \<Rightarrow> received \<Rightarrow> auth_caches \<times> fasitd \<Rightarrow> (rpc_error + nat) \<times> auth_caches \<times> fasitd" where
  "open_stream a io audience insecureSkipProxy mdo first cst = (case cst of (c, st) \<Rightarrow>
     (case StreamInterceptor a io audience insecureSkipProxy (fd_db st) mdo c of
        (Some e, c) \<Rightarrow> (Inl e, c, st)
      | (None, c) \<Rightarrow> (case Connect_open io first st of (r, st) \<Rightarrow> (r, c, st))))"

section \<open>The caches hold what was discovered once\<close>

text \<open>
  A cached provider or key set was discovered in one of the streams up to now, whose libraries are \<open>past\<close>. It is never
  discovered again, whatever the issuer publishes since.
\<close>

definition caches_from :: "auth_libs set \<Rightarrow> auth_caches \<Rightarrow> bool" where
  "caches_from past c \<longleftrightarrow> (\<forall>i p. map_of (providerCache c) i = Some p \<longrightarrow> (\<exists>a \<in> past. ax_NewProvider a i = Inr p)) \<and>
     (\<forall>u ks. map_of (keySetCache c) u = Some ks \<longrightarrow> (\<exists>a \<in> past. remoteKeySetFromDiscovery a u = Inr ks))"

definition caches_kept :: "auth_caches \<Rightarrow> auth_caches \<Rightarrow> bool" where
  "caches_kept c c' \<longleftrightarrow> map_of (providerCache c) \<subseteq>\<^sub>m map_of (providerCache c') \<and> map_of (keySetCache c) \<subseteq>\<^sub>m map_of (keySetCache c')"

definition no_caches :: auth_caches where
  "no_caches = \<lparr>providerCache = [], keySetCache = []\<rparr>"

text \<open>What a stream with the libraries \<open>a\<close> discovers when nothing is cached.\<close>

definition discovered :: "auth_libs \<Rightarrow> string \<Rightarrow> string \<Rightarrow> string \<Rightarrow> err + verifier" where
  "discovered a issuer discoveryURL audience = fst (getOIDCVerifier a issuer discoveryURL audience no_caches)"

lemma caches_from_none [simp]: "caches_from past no_caches"
  by (simp add: caches_from_def no_caches_def)

lemma caches_from_mono: "caches_from past c \<Longrightarrow> past \<subseteq> past' \<Longrightarrow> caches_from past' c"
  unfolding caches_from_def by blast

lemma caches_kept_refl [simp]: "caches_kept c c"
  by (simp add: caches_kept_def)

lemma getOIDCVerifier_cached:
  assumes "caches_from past c" and "getOIDCVerifier a issuer url audience c = (r, c')"
  shows "caches_from (insert a past) c'" and "caches_kept c c'"
    and "r = Inr v \<Longrightarrow> \<exists>a0 \<in> insert a past. discovered a0 issuer url audience = Inr v"
proof -
  show "caches_from (insert a past) c'" "caches_kept c c'"
    using assms
    by (auto simp: getOIDCVerifier_def caches_from_def caches_kept_def map_le_def dom_def split: if_splits option.splits sum.splits) force+
  have d: "discovered a0 issuer url audience = (if url = [] then bindE (wrapE ''discover from issuer'' (ax_NewProvider a0 issuer)) (\<lambda>p. Inr (ProviderVerifier p audience))
      else bindE (remoteKeySetFromDiscovery a0 url) (\<lambda>ks. Inr (KeySetVerifier issuer ks audience)))" for a0
    by (simp add: discovered_def getOIDCVerifier_def no_caches_def split: sum.split)
  assume r: "r = Inr v"
  show "\<exists>a0 \<in> insert a past. discovered a0 issuer url audience = Inr v"
  proof (cases "url = []")
    case True
    have "\<exists>p. v = ProviderVerifier p audience \<and> (\<exists>a0 \<in> insert a past. ax_NewProvider a0 issuer = Inr p)"
      using assms r True
      by (cases "map_of (providerCache c) issuer") (auto simp: getOIDCVerifier_def caches_from_def split: sum.splits)
    then show ?thesis unfolding d using True by (elim exE conjE bexE) (rule bexI, simp_all)
  next
    case False
    have "\<exists>ks. v = KeySetVerifier issuer ks audience \<and> (\<exists>a0 \<in> insert a past. remoteKeySetFromDiscovery a0 url = Inr ks)"
      using assms r False
      by (cases "map_of (keySetCache c) url") (auto simp: getOIDCVerifier_def caches_from_def split: sum.splits)
    then show ?thesis unfolding d using False by (elim exE conjE bexE) (rule bexI, simp_all)
  qed
qed

text \<open>What a bearer token was checked against: the environment that the headers name, and a verifier discovered for its issuer.\<close>

definition token_verified ::
  "auth_libs set \<Rightarrow> auth_libs \<Rightarrow> io \<Rightarrow> db \<Rightarrow> MD \<Rightarrow> string \<Rightarrow> string \<Rightarrow> bool" where
  "token_verified past a io d md token audience \<longleftrightarrow> (\<exists>tenantName ts envName es tenant env issuer v.
     md_Get md ''x-fasit-tenant'' = tenantName # ts \<and> md_Get md ''x-fasit-environment'' = envName # es \<and>
     GetTenantByName io tenantName d = Inr tenant \<and> environment_GetByName io (t_ID tenant) envName d = Inr env \<and>
     e_OIDCIssuer env = Some issuer \<and> issuer \<noteq> [] \<and>
     (\<exists>a0 \<in> insert a past. discovered a0 issuer (case e_OIDCDiscoveryURL env of None \<Rightarrow> [] | Some u \<Rightarrow> u) audience = Inr v) \<and>
     ax_Verify a v token = None)"

lemma validateKSAToken_caches:
  assumes "validateKSAToken a io d md token audience c = (r, c')" and "caches_from past c"
  shows "caches_from (insert a past) c' \<and> caches_kept c c' \<and> (r = None \<longrightarrow> token_verified past a io d md token audience)"
proof (cases "\<exists>issuer url r1. getOIDCVerifier a issuer url audience c = (r1, c')")
  case True
  then have "caches_from (insert a past) c' \<and> caches_kept c c'" using getOIDCVerifier_cached [OF assms(2)] by blast
  moreover have "token_verified past a io d md token audience" if r: "r = None"
  proof -
    obtain tenantName ts envName es tenant env issuer v where md: "md_Get md ''x-fasit-tenant'' = tenantName # ts"
        "md_Get md ''x-fasit-environment'' = envName # es"
      and env: "GetTenantByName io tenantName d = Inr tenant" "environment_GetByName io (t_ID tenant) envName d = Inr env"
        "e_OIDCIssuer env = Some issuer" "issuer \<noteq> []"
      and v: "getOIDCVerifier a issuer (case e_OIDCDiscoveryURL env of None \<Rightarrow> [] | Some u \<Rightarrow> u) audience c = (Inr v, c')"
      and ok: "ax_Verify a v token = None"
      using assms(1) r by (auto simp: validateKSAToken_def split: list.splits sum.splits option.splits prod.splits if_splits)
    then show ?thesis using getOIDCVerifier_cached(3) [OF assms(2) v refl] unfolding token_verified_def by blast
  qed
  ultimately show ?thesis by blast
next
  case False
  then have "c' = c" and "r \<noteq> None"
    using assms(1) by (auto simp: validateKSAToken_def split: list.splits sum.splits option.splits prod.splits if_splits)
  then show ?thesis using assms(2) caches_from_mono [of past c "insert a past"] by auto
qed

lemma validateIAP_None:
  "validateIAP a io mdo audience = None \<longleftrightarrow> (\<exists>md v vs p. mdo = Some md \<and> md_Get md iapAssertionHeader = v # vs \<and> v \<noteq> [] \<and>
     ax_Validate a v audience = Inr p \<and> pl_Issuer p = ''https://cloud.google.com/iap'' \<and>
     time_Unix (pl_IssuedAt p) 0 \<le> io_now io + 30 * second)"
  by (auto simp: validateIAP_def not_less split: option.splits list.splits sum.splits if_splits)

lemma StreamInterceptor_caches:
  assumes "StreamInterceptor a io audience False d mdo c = (r, c')" and "caches_from past c"
  shows "caches_from (insert a past) c' \<and> caches_kept c c'"
proof -
  have "c' = c \<or> (\<exists>md token r. validateKSAToken a io d md token audience c = (r, c'))"
    using assms(1) by (auto simp: StreamInterceptor_def split: if_splits option.splits list.splits)
  then show ?thesis
  proof
    assume "c' = c"
    then show ?thesis using caches_from_mono [OF assms(2) subset_insertI] by simp
  next
    assume "\<exists>md token r. validateKSAToken a io d md token audience c = (r, c')"
    then show ?thesis using validateKSAToken_caches [OF _ assms(2)] by blast
  qed
qed

text \<open>The caches after the streams that came in since the start, each with the libraries and the tables of its time.\<close>

definition after_streams :: "string \<Rightarrow> (auth_libs \<times> io \<times> db \<times> MD option) list \<Rightarrow> auth_caches" where
  "after_streams audience streams =
     fold (\<lambda>(a, io, d, mdo) c. snd (StreamInterceptor a io audience False d mdo c)) streams no_caches"

lemma after_streams_from: "caches_from (fst ` set streams) (after_streams audience streams)"
proof (induction streams rule: rev_induct)
  case (snoc x streams)
  obtain a io d mdo where x: "x = (a, io, d, mdo)" by (cases x)
  obtain r c' where "StreamInterceptor a io audience False d mdo (after_streams audience streams) = (r, c')" by fastforce
  then show ?case
    using StreamInterceptor_caches [OF _ snoc] by (auto simp: x after_streams_def)
qed (simp add: after_streams_def)


definition example_libs :: auth_libs where
  "example_libs = \<lparr>ax_NewProvider = \<lambda>i. Inr i, ax_NewRequest = \<lambda>u. None, ax_Do = \<lambda>u. Inr (200, u), ax_decodeDiscovery = Inr,
     ax_Verify = \<lambda>v t. if v = KeySetVerifier ''issuer'' ''keys'' ''aud'' \<and> t = ''token'' then None else Some (Errorf ''bad token''),
     ax_Validate = \<lambda>t a. Inl (Errorf ''bad assertion'')\<rparr>"

definition oidc_db :: db where
  "oidc_db = example_db \<lparr>environments := map (\<lambda>e. e \<lparr>e_OIDCIssuer := Some ''issuer'', e_OIDCDiscoveryURL := Some ''keys''\<rparr>) (environments example_db)\<rparr>"

definition example_md :: MD where
  "example_md = [(''authorization'', [''Bearer token'']), (''x-fasit-environment'', [''prod'']), (''x-fasit-tenant'', [''acme''])]"

lemma example_bearer: "bearer ''Bearer token''"
  by code_simp

lemma example_stream: "StreamInterceptor example_libs store_io ''aud'' False oidc_db (Some example_md) no_caches =
    (None, \<lparr>providerCache = [], keySetCache = [(''keys'', ''keys'')]\<rparr>)"
  by (simp add: StreamInterceptor_def example_md_def md_Get_def example_bearer validateKSAToken_def GetTenantByName_def environment_GetByName_def one_def oidc_db_def example_db_def getOIDCVerifier_def
      no_caches_def remoteKeySetFromDiscovery_def example_libs_def wrapE_def)

text \<open>A later stream, when the discovery URL no longer answers: the cached key set still serves.\<close>

definition later_libs :: auth_libs where
  "later_libs = example_libs \<lparr>ax_Do := \<lambda>u. Inl (Errorf ''no route to host'')\<rparr>"

lemma example_streams: "after_streams ''aud'' [(example_libs, store_io, oidc_db, Some example_md)] = \<lparr>providerCache = [], keySetCache = [(''keys'', ''keys'')]\<rparr>"
  by (simp add: after_streams_def example_stream)

lemma later_stream: "StreamInterceptor later_libs store_io ''aud'' False oidc_db (Some example_md)
    (after_streams ''aud'' [(example_libs, store_io, oidc_db, Some example_md)]) = (None, \<lparr>providerCache = [], keySetCache = [(''keys'', ''keys'')]\<rparr>)"
  unfolding example_streams
  by (simp add: StreamInterceptor_def example_md_def md_Get_def example_bearer validateKSAToken_def GetTenantByName_def environment_GetByName_def
      one_def oidc_db_def example_db_def getOIDCVerifier_def later_libs_def example_libs_def)


section \<open>Whose session it is\<close>

text \<open>
  The environment of a session is the one its first message names: a stream that was authenticated for one environment can register as
  the agent of every environment without a session.
\<close>

theorem session_not_bound_to_headers:
  assumes "StreamInterceptor a io audience skip (fd_db st) mdo c = (None, c')"
    and "resolveEnvironment io tenant environment (fd_db st) = Inr envID" and "tenant \<noteq> []" and "environment \<noteq> []"
    and "registry_get (keyFor tenant environment) (fd_sessions st) = None"
  shows "\<exists>st'. open_stream a io audience skip mdo (Recv (Register tenant environment version protocol)) (c, st) = (Inr (fd_next st), c', st') \<and>
    registry_get (keyFor tenant environment) (fd_sessions st') = Some (fd_next st) \<and>
    map_option se_environmentID (map_of (fd_heap st') (fd_next st)) = Some envID"
  using assms
  by (simp add: open_stream_def Connect_open_def Let_def registry_add_def registry_get_def new_session_def)

end
