(* ===== verification/Http_Api.thy ===== *)
theory Http_Api
  imports System Fasitd_Auth
begin

text \<open>
  The HTTP API for the pipelines that release features, \<open>internal/api/handler.go\<close> and \<open>router.go\<close> with its statements
  (\<open>sqlgen/queries.sql.go\<close>), and the middleware in front of the pages, \<open>internal/auth/iap.go\<close>. The token verifiers, the JSON
  decoders and \<open>uuid.Parse\<close> are parameters. A panic of a handler is recovered by \<open>net/http\<close>, which drops the connection.
\<close>

section \<open>Requests and replies\<close>

datatype 'a reply = Reply nat 'a | HttpError nat string | Dropped string

record Claims =
  cl_Repository :: string
  cl_Owner :: string
  cl_Actor :: string
  cl_RunID :: string

record CreateFeatureAssignmentRequest =
  rq_Chart :: string
  rq_Version :: string
  rq_Description :: string
  rq_Ref :: "GitHubCommit option"
  rq_Global :: bool
  rq_Target :: Labels

record api_libs =
  hl_Verify :: "string \<Rightarrow> err + string"
  hl_Claims :: "string \<Rightarrow> err + Claims"
  hl_decode :: "string \<Rightarrow> err + CreateFeatureAssignmentRequest"
  hl_text :: "string \<Rightarrow> err + string"
  hl_parse :: "string \<Rightarrow> err + uuid"
  hl_Download :: "string \<Rightarrow> string \<Rightarrow> err + Feature"
  hl_Validate :: "string \<Rightarrow> string \<Rightarrow> err + payload"

text \<open>The first value of a header, empty when it is missing.\<close>

type_synonym header = "(string, string) gomap"

definition header_Get :: "header \<Rightarrow> string \<Rightarrow> string" where
  "header_Get h k = (case map_of h k of None \<Rightarrow> [] | Some v \<Rightarrow> v)"

section \<open>The token of a pipeline\<close>

definition getAuthToken :: "header \<Rightarrow> err + string" where
  "getAuthToken h =
     (let authHeader = header_Get h ''Authorization''
      in if authHeader = [] then Inl (Errorf ''no authorization header'')
         else case strings_Cut authHeader (CHR '' '') of (scheme, token, ok) \<Rightarrow>
           if \<not> ok \<or> scheme \<noteq> ''Bearer'' then Inl (Errorf ''invalid authorization header'') else Inr token)"

definition validateToken :: "api_libs \<Rightarrow> bool \<Rightarrow> header \<Rightarrow> 'a reply + string" where
  "validateToken l AllowAll h =
     (if AllowAll then Inr ''mockassignment''
      else case getAuthToken h of
        Inl e \<Rightarrow> Inl (HttpError 400 (Error e))
      | Inr token \<Rightarrow> (case hl_Verify l token of
          Inl e \<Rightarrow> Inl (HttpError 401 (Error e))
        | Inr idToken \<Rightarrow> (case hl_Claims l idToken of
            Inl e \<Rightarrow> Inl (HttpError 500 (Error e))
          | Inr claims \<Rightarrow>
              if cl_Owner claims \<noteq> ''nais'' then Inl (HttpError 401 ''invalid repository owner'')
              else Inr (cl_Actor claims @ ''@'' @ cl_Repository claims @ ''/'' @ cl_RunID claims))))"

section \<open>Statements\<close>

definition api_GetFeatureAssignment :: "uuid \<Rightarrow> db \<Rightarrow> (AssignmentRow \<times> FeatureDatum) option" where
  "api_GetFeatureAssignment faID d = find (\<lambda>(a, fd). fa_id a = faID) (with_data d (feature_assignments d))"

record TenantEnvironmentRow =
  tr_Tenant :: Tenant
  tr_Environment :: Environment
  tr_GcpProjectID :: "string option"

text \<open>A left join: the key of the values is unique in an environment.\<close>

definition ListTenantsWithEnvironments :: "db \<Rightarrow> TenantEnvironmentRow list" where
  "ListTenantsWithEnvironments d = sort_key (\<lambda>r. (t_Name (tr_Tenant r), e_Name (tr_Environment r)))
     (concat (map (\<lambda>t. map (\<lambda>e. \<lparr>tr_Tenant = t, tr_Environment = e,
          tr_GcpProjectID = map_option ev_Value (find (\<lambda>v. ev_key v = (e_ID e, ''project_id'') \<and> \<not> ev_Secret v) (environment_values d))\<rparr>)
        (filter (\<lambda>e. e_TenantID e = t_ID t) (environments d))) (tenants d)))"

section \<open>Handlers\<close>

definition api_state :: "io \<Rightarrow> uuid \<Rightarrow> db \<Rightarrow> string" where
  "api_state io faID d = (case ReconcileStatuses io faID d of
      Inl _ \<Rightarrow> StateUnknown | Inr statuses \<Rightarrow> fst (Aggregate (map rst_State statuses)))"

definition api_GetFeatureAssignment_handler :: "api_libs \<Rightarrow> io \<Rightarrow> bool \<Rightarrow> header \<Rightarrow> string \<Rightarrow> db \<Rightarrow> (uuid \<times> string) reply" where
  "api_GetFeatureAssignment_handler l io AllowAll h idParam d =
     (case validateToken l AllowAll h of
        Inl r \<Rightarrow> r
      | Inr _ \<Rightarrow> (case hl_parse l idParam of
          Inl _ \<Rightarrow> HttpError 400 ''invalid assignment id''
        | Inr faID \<Rightarrow> (case one io ''GetFeatureAssignment'' (api_GetFeatureAssignment faID d) of
            Inl e \<Rightarrow> if errors_Is e ErrNoRows then HttpError 404 ''assignment does not exist''
                     else HttpError 500 ''unable to get assignment''
          | Inr _ \<Rightarrow> Reply 200 (faID, api_state io faID d))))"

text \<open>The reply, the tables, and the pending triggers of the reconciler.\<close>

definition api_CreateFeatureAssignment ::
  "api_libs \<Rightarrow> (string \<Rightarrow> err + node) \<Rightarrow> encoders \<Rightarrow> io \<Rightarrow> bool \<Rightarrow> header \<Rightarrow> string \<Rightarrow> db \<times> nat \<Rightarrow> (string \<times> string) reply \<times> db \<times> nat" where
  "api_CreateFeatureAssignment l parser j io AllowAll h rawBody st =
     (case st of (d, pending) \<Rightarrow>
      case validateToken l AllowAll h of
        Inl r \<Rightarrow> (r, d, pending)
      | Inr actor \<Rightarrow> (case hl_decode l rawBody of
          Inl e \<Rightarrow> (HttpError 400 (''Unable to decode JSON body: '' @ Error e), d, pending)
        | Inr body \<Rightarrow>
          if (case rq_Ref body of None \<Rightarrow> False | Some ref \<Rightarrow> gc_Owner ref = [] \<or> gc_Repo ref = [] \<or> gc_Ref ref = [])
          then (HttpError 400 ''invalid ref, missing owner, repo or ref'', d, pending)
          else (case Create (hl_Download l) parser j io (Some actor) \<lparr>ca_Chart = rq_Chart body, ca_Version = rq_Version body,
                  ca_Description = Some (rq_Description body), ca_Commit = rq_Ref body, ca_Target = rq_Target body\<rparr> d of
              (Inl e, d') \<Rightarrow> (if is_panic e then Dropped (Error e) else HttpError 400 (Error e), d', pending)
            | (Inr (faID, featureName), d') \<Rightarrow> (Reply 201 (uuid_String faID, featureName), d', TriggerReconcile pending))))"

record ApiEnvironment =
  ae_ID :: uuid
  ae_Name :: string
  ae_Kind :: EnvironmentKind
  ae_Labels :: Labels
  ae_GcpProjectID :: "string option"

record ApiTenant =
  at_ID :: uuid
  at_Name :: string
  at_Environments :: "ApiEnvironment list"

definition api_environment :: "TenantEnvironmentRow \<Rightarrow> string option \<Rightarrow> ApiEnvironment" where
  "api_environment r gcp = \<lparr>ae_ID = e_ID (tr_Environment r), ae_Name = e_Name (tr_Environment r), ae_Kind = e_Kind (tr_Environment r),
     ae_Labels = e_Labels (tr_Environment r), ae_GcpProjectID = gcp\<rparr>"

definition api_gcp :: "api_libs \<Rightarrow> TenantEnvironmentRow \<Rightarrow> err + string option" where
  "api_gcp l r = (case tr_GcpProjectID r of
      None \<Rightarrow> Inr None | Some raw \<Rightarrow> if length raw > 0 then bindE (hl_text l raw) (\<lambda>v. Inr (Some v)) else Inr None)"

text \<open>The slice of tenants and the index of each tenant in it.\<close>

definition add_tenant_row :: "TenantEnvironmentRow \<Rightarrow> string option \<Rightarrow> ApiTenant list \<times> (uuid, nat) gomap \<Rightarrow> ApiTenant list \<times> (uuid, nat) gomap" where
  "add_tenant_row r gcp st = (case st of (ts, tenantIndex) \<Rightarrow>
     (let (i, tenantIndex, ts) = (case map_of tenantIndex (t_ID (tr_Tenant r)) of
            Some i \<Rightarrow> (i, tenantIndex, ts)
          | None \<Rightarrow> (length ts, gm_put (t_ID (tr_Tenant r)) (length ts) tenantIndex,
              ts @ [\<lparr>at_ID = t_ID (tr_Tenant r), at_Name = t_Name (tr_Tenant r), at_Environments = []\<rparr>]))
      in (ts[i := (ts ! i) \<lparr>at_Environments := at_Environments (ts ! i) @ [api_environment r gcp]\<rparr>], tenantIndex)))"

definition GetTenants :: "api_libs \<Rightarrow> io \<Rightarrow> db \<Rightarrow> ApiTenant list reply" where
  "GetTenants l io d =
     (case query (io_fails io) ''ListTenantsWithEnvironments'' (ListTenantsWithEnvironments d) of
        Inl _ \<Rightarrow> HttpError 500 ''unable to list tenants''
      | Inr rows \<Rightarrow> (case foldE (\<lambda>r st. bindE (api_gcp l r) (\<lambda>gcp. Inr (add_tenant_row r gcp st))) rows ([], []) of
          Inl _ \<Rightarrow> HttpError 500 ''unable to decode GCP project ID''
        | Inr (ts, _) \<Rightarrow> Reply 200 ts))"

section \<open>The pages\<close>

definition LocalDevEmail :: string where
  "LocalDevEmail = ''local-dev@fasit''"

definition header_email :: "header \<Rightarrow> string" where
  "header_email h = fst (snd (strings_Cut (header_Get h ''X-Goog-Authenticated-User-Email'') (CHR '':'')))"

definition InsecureValidateMW :: "header \<Rightarrow> string" where
  "InsecureValidateMW h = (let email = header_email h in if email = [] then LocalDevEmail else email)"

text \<open>The email that the page's handler runs with, or the refusal.\<close>

definition validateJWTFromComputeEngine :: "api_libs \<Rightarrow> io \<Rightarrow> string \<Rightarrow> header \<Rightarrow> 'a reply + string" where
  "validateJWTFromComputeEngine l io aud h =
     (case hl_Validate l (header_Get h ''X-Goog-IAP-JWT-Assertion'') aud of
        Inl _ \<Rightarrow> Inl (HttpError 401 ''Invalid JWT token'')
      | Inr payload \<Rightarrow>
          if time_Unix (pl_IssuedAt payload) 0 > io_now io + 30 * second then Inl (HttpError 401 ''JWT token is in the future'')
          else if pl_Issuer payload \<noteq> ''https://cloud.google.com/iap'' then Inl (HttpError 401 ''Invalid JWT token issuer'')
          else Inr (header_email h))"

text \<open>The router: the middleware of the pages and whether the handlers of the API ask for a token.\<close>

definition SetupRouter :: "api_libs \<Rightarrow> io \<Rightarrow> string \<Rightarrow> bool \<Rightarrow> err + (header \<Rightarrow> 'a reply + string) \<times> bool" where
  "SetupRouter l io iapAudience insecureSkipProxy =
     (if iapAudience = [] then
        if \<not> insecureSkipProxy then Inl (Errorf ''INSECURE_SKIP_PROXY must be true when iap audience is not set'')
        else Inr (\<lambda>h. Inr (InsecureValidateMW h), insecureSkipProxy)
      else Inr (validateJWTFromComputeEngine l io iapAudience, insecureSkipProxy))"

section \<open>Who may write\<close>

lemma strings_Cut_found: "strings_Cut s sep = (before, after, True) \<Longrightarrow> s = before @ sep # after"
proof (induction s arbitrary: before)
  case (Cons c s)
  then show ?case by (cases "strings_Cut s sep") (auto split: if_splits)
qed simp

lemma getAuthToken_Inr: "getAuthToken h = Inr token \<Longrightarrow> header_Get h ''Authorization'' = ''Bearer '' @ token"
  by (auto simp: getAuthToken_def Let_def dest!: strings_Cut_found split: if_splits prod.splits)

definition pipeline_actor :: "api_libs \<Rightarrow> header \<Rightarrow> string \<Rightarrow> bool" where
  "pipeline_actor l h actor \<longleftrightarrow> (\<exists>token idToken claims. header_Get h ''Authorization'' = ''Bearer '' @ token \<and>
     hl_Verify l token = Inr idToken \<and> hl_Claims l idToken = Inr claims \<and> cl_Owner claims = ''nais'' \<and>
     actor = cl_Actor claims @ ''@'' @ cl_Repository claims @ ''/'' @ cl_RunID claims)"

lemma validateToken_Inr: "validateToken l False h = Inr actor \<Longrightarrow> pipeline_actor l h actor"
  unfolding pipeline_actor_def
  by (auto simp: validateToken_def dest!: getAuthToken_Inr split: sum.splits if_splits)

lemma pipeline_actor_known: "pipeline_actor l h actor \<Longrightarrow> actorOrUnknown (Some actor) = actor"
proof -
  assume "pipeline_actor l h actor"
  then have "CHR ''@'' \<in> set actor" by (auto simp: pipeline_actor_def)
  then have "actor \<noteq> UnauthorizedName" by (auto simp: UnauthorizedName_def)
  then show ?thesis by (simp add: actorOrUnknown_def GetEmail_def)
qed

text \<open>The audit row of an assignment that an actor created: written unless its statement fails, which goes unnoticed.\<close>

definition creation_audited :: "io \<Rightarrow> string \<Rightarrow> string \<Rightarrow> string \<Rightarrow> db \<Rightarrow> db \<Rightarrow> bool" where
  "creation_audited io actor name idText d d' \<longleftrightarrow>
     (if io_fails io ''audit.Create'' then audits d' = audits d
      else \<exists>row m. audits d' = audits d @ [row] \<and> au_actor row = actor \<and> au_action row = ActionCreated \<and>
        au_object_type row = ObjectTypeFeatureAssignment \<and> au_object_id row = name \<and> au_feature row = name \<and>
        au_created_at row = io_now io \<and> au_metadata row = Some (GMap m) \<and> map_of m ''assignmentId'' = Some (GStr idText))"

lemma createFeatureAssignment_audits: "audits (snd (createFeatureAssignment parser j io feat descr ref target d)) = audits d"
proof -
  have data: "audits d1 = audits d" if "CreateFeatureData j io feat details d = (r, d1)" for details r d1
    using that by (auto simp: CreateFeatureData_def CreateFeatureData_sql_def split: sum.splits if_splits option.splits)
  have repl: "audits d2 = audits d1" if "replace_assignment io feat descr gh target d1 = (r, d2)" for gh d1 d2 r
    using that unfolding replace_assignment_def
    by (auto simp: WithTx_def bindT_def wrapT_def execT_def CreateFeatureAssignment_sql_def DeactivateActiveFeatureAssignmentForTarget_def
        deactivate_where_def returnT_def Let_def split: prod.splits sum.splits if_splits option.splits)
  show ?thesis
    by (auto simp: createFeatureAssignment_def bindT_def liftT_def returnT_def dest!: data repl
        split: sum.splits err.splits prod.splits if_splits option.splits)
qed

lemma Create_audits:
  assumes "Create dl parser j io email inp d = (r, d')"
  shows "case r of Inl e \<Rightarrow> audits d' = audits d
    | Inr (faID, name) \<Rightarrow> creation_audited io (actorOrUnknown email) name (uuid_String faID) d d'"
proof (cases "dl (ca_Chart inp) (ca_Version inp)")
  case (Inr feat)
  obtain r1 d1 where c: "createFeatureAssignment parser j io feat (ca_Description inp) (ca_Commit inp) (ca_Target inp) d = (r1, d1)"
    by fastforce
  have "audits d1 = audits d" using createFeatureAssignment_audits [of parser j io feat "ca_Description inp" "ca_Commit inp" "ca_Target inp" d] c by simp
  then show ?thesis
    using assms by (cases r1) (auto simp: Create_def Inr bindT_def c audit_Create_def execT_def audit_row_def creation_audited_def split: if_splits)
qed (use assms in \<open>auto simp: Create_def\<close>)

text \<open>
  C16. With the check of tokens on (\<open>AllowAll\<close> is false), the pipelines' endpoint writes only for a pipeline of the owner: a request
  that changes the tables, triggers a cycle or is answered with an assignment carried a bearer token that verified and whose claims
  name the owner \<open>nais\<close>. An accepted request has created the assignment it answers with, left a trigger pending, and left one audit
  row more, which names the actor, the repository and the run of that token and the assignment, unless the statement of that row
  fails, which the code ignores. A refused request has changed no assignment, left no audit row and triggered nothing.
\<close>

theorem api_writes_authenticated:
  assumes "api_CreateFeatureAssignment l parser j io False h rawBody (d, pending) = (r, d', pending')"
  shows "d' = d \<and> pending' = pending \<and> (\<forall>status body. r \<noteq> Reply status body) \<or>
    (\<exists>actor. pipeline_actor l h actor \<and>
      (case r of
         Reply status (idText, name) \<Rightarrow> status = 201 \<and> 1 \<le> pending' \<and>
           (\<exists>a \<in> set (feature_assignments d'). idText = uuid_String (fa_id a) \<and> fa_feature_name a = name \<and> fa_active a) \<and>
           creation_audited io actor name idText d d'
       | _ \<Rightarrow> feature_assignments d' = feature_assignments d \<and> audits d' = audits d \<and> pending' = pending))"
proof (cases "validateToken l False h :: (string \<times> string) reply + string")
  case (Inl r1)
  have "r1 \<noteq> Reply s a" for s a
    using Inl by (auto simp: validateToken_def split: sum.splits if_splits)
  then show ?thesis using assms Inl by (cases r1) (auto simp: api_CreateFeatureAssignment_def)
next
  case (Inr actor)
  have actor: "pipeline_actor l h actor" "actorOrUnknown (Some actor) = actor"
    using validateToken_Inr [OF Inr] pipeline_actor_known by blast+
  show ?thesis
  proof (cases "hl_decode l rawBody")
    case (Inr body)
    let ?inp = "\<lparr>ca_Chart = rq_Chart body, ca_Version = rq_Version body, ca_Description = Some (rq_Description body),
        ca_Commit = rq_Ref body, ca_Target = rq_Target body\<rparr>"
    obtain rc dc where c: "Create (hl_Download l) parser j io (Some actor) ?inp d = (rc, dc)" by fastforce
    note aud = Create_audits [OF c, unfolded actor(2)]
    have new: "\<exists>a \<in> set (feature_assignments dc). faID = fa_id a \<and> fa_feature_name a = name \<and> fa_active a" if "rc = Inr (faID, name)" for faID name
      using Create_cases [OF c] that by (force simp: assignment_replaced_def fa_key_def)
    have failed: "feature_assignments dc = feature_assignments d" if "rc = Inl e" for e
      using Create_cases [OF c] that by simp
    show ?thesis
    proof (cases "case rq_Ref body of None \<Rightarrow> False | Some ref \<Rightarrow> gc_Owner ref = [] \<or> gc_Repo ref = [] \<or> gc_Ref ref = []")
      case True
      then show ?thesis using assms \<open>validateToken l False h = Inr actor\<close> Inr by (auto simp: api_CreateFeatureAssignment_def)
    next
      case False
      then show ?thesis
        using assms \<open>validateToken l False h = Inr actor\<close> Inr c aud new failed
        by (intro disjI2 exI [of _ actor] conjI [OF actor(1)], cases rc)
          (auto simp: api_CreateFeatureAssignment_def TriggerReconcile_def split: if_splits)
    qed
  qed (use assms Inr in \<open>auto simp: api_CreateFeatureAssignment_def\<close>)
qed

section \<open>Polling\<close>

lemma fresh_statuses:
  assumes "db_ok d" and "\<And>r. r \<in> set (deploy_log d) \<Longrightarrow> dl_feature_assignment_id r \<noteq> faID"
    and "\<And>r. r \<in> set (decision_log d) \<Longrightarrow> cl_feature_assignment_id r \<noteq> faID"
  shows "ListDecisionStatuses faID d = [] \<and> ListDeployStatuses faID d = []"
proof -
  have "dc_feature_assignment_id c \<noteq> faID" if "(k, c) \<in> set (deploy_current d)" for k c
  proof -
    have "map_of (deploy_current d) k = Some c" using that db_ok_gm [OF assms(1)] by (simp add: gm_entry_iff)
    then obtain r where "r \<in> set (deploy_log d)" "c = deploy_current_of r"
      using dl.tracks_SomeD [of "deploy_current d" "deploy_log d" k c] assms(1) by (auto simp: db_ok_def dl.latest_def)
    then show ?thesis using assms(2) by (simp add: deploy_current_of_def)
  qed
  moreover have "cc_feature_assignment_id c \<noteq> faID" if "(k, c) \<in> set (decision_current d)" for k c
  proof -
    have "map_of (decision_current d) k = Some c" using that db_ok_gm [OF assms(1)] by (simp add: gm_entry_iff)
    then obtain r where "r \<in> set (decision_log d)" "c = decision_current_of r"
      using cl.tracks_SomeD [of "decision_current d" "decision_log d" k c] assms(1) by (auto simp: db_ok_def cl.latest_def)
    then show ?thesis using assms(3) by (simp add: decision_current_of_def)
  qed
  ultimately have "\<forall>r \<in> set (decision_current d). cc_feature_assignment_id (snd r) \<noteq> faID" "\<forall>r \<in> set (deploy_current d). dc_feature_assignment_id (snd r) \<noteq> faID"
    by (metis surj_pair snd_conv)+
  then have none: "filter (\<lambda>(k, c). cc_feature_assignment_id c = faID) (decision_current d) = []"
    "filter (\<lambda>(k, c). dc_feature_assignment_id c = faID) (deploy_current d) = []"
    unfolding filter_empty_conv case_prod_unfold by blast+
  show ?thesis unfolding ListDecisionStatuses_def ListDeployStatuses_def none by simp
qed

lemma api_GetFeatureAssignment_found:
  assumes "a \<in> set (feature_assignments d)" and "assignment_data d a \<noteq> []"
  shows "api_GetFeatureAssignment (fa_id a) d \<noteq> None"
proof -
  have "hd (assignment_data d a) \<in> set (assignment_data d a)" using assms(2) by simp
  then obtain fd where "fd \<in> set (assignment_data d a)" by blast
  then have "(a, fd) \<in> set (with_data d (feature_assignments d))" using assms(1) by (auto simp: with_data_def)
  then show ?thesis unfolding api_GetFeatureAssignment_def find_None_iff by auto
qed

lemma Create_id:
  assumes "Create dl parser j io email inp d = (Inr (u, name), d')"
  shows "u = io_diid io 0"
proof -
  have repl: "fa_id a = io_diid io 0" if "replace_assignment io feat descr gh target d1 = (Inr a, d2)" for feat descr gh target d1 a d2
    using that by (auto simp: replace_assignment_def WithTx_eq_Inr bindT_eq_Inr CreateFeatureAssignment_sql_def Let_def split: if_splits)
  have "u' = io_diid io 0" if "createFeatureAssignment parser j io feat descr ref target d = (Inr u', d1)" for feat descr ref target u' d1
    using that by (auto simp: createFeatureAssignment_def bindT_eq_Inr dest!: repl split: sum.splits err.splits prod.splits if_splits)
  then show ?thesis using assms by (auto simp: Create_def bindT_eq_Inr split: sum.splits if_splits)
qed

text \<open>
  A pipeline that releases a feature can poll for it: the identifier answered by an accepted request is found by the
  polling endpoint right away, for every pipeline of the owner, and its state is unknown until the reconciler has decided about it.
\<close>

theorem posted_assignment_is_found:
  assumes "api_CreateFeatureAssignment l parser j io AllowAll h rawBody (d, pending) = (Reply status (idText, name), d', pending')"
    and "db_ok d" and "faID = io_diid io 0" and "hl_parse l (uuid_String faID) = Inr faID"
    and "\<And>r. r \<in> set (deploy_log d) \<Longrightarrow> dl_feature_assignment_id r \<noteq> faID"
    and "\<And>r. r \<in> set (decision_log d) \<Longrightarrow> cl_feature_assignment_id r \<noteq> faID"
    and "\<And>q. \<not> io_fails io q" and "(validateToken l AllowAll h2 :: (uuid \<times> string) reply + string) = Inr actor"
  shows "api_GetFeatureAssignment_handler l io AllowAll h2 idText d' = Reply 200 (faID, StateUnknown)"
proof -
  obtain email inp u where c: "Create (hl_Download l) parser j io email inp d = (Inr (u, name), d')" and u: "idText = uuid_String u"
    using assms(1) by (auto simp: api_CreateFeatureAssignment_def validateToken_def split: sum.splits if_splits prod.splits)
  have u': "u = faID" using Create_id [OF c] assms(3) by simp
  obtain a where a: "a \<in> set (feature_assignments d')" "fa_id a = faID" "assignment_data d' a \<noteq> []"
    using Create_cases [OF c] u' by (force simp: assignment_replaced_def)
  have "core_step d d'" using core.keepsD [OF keeps_Create, of d "hl_Download l" parser j io email inp] c by simp
  then have "db_ok d'" "deploy_log d' = deploy_log d" "decision_log d' = decision_log d" using assms(2) by (simp_all add: core_step_def)
  then have "ListDecisionStatuses faID d' = [] \<and> ListDeployStatuses faID d' = []"
    using fresh_statuses [of d' faID] assms(5,6) by simp
  then have "api_state io faID d' = StateUnknown"
    using assms(7) by (simp add: api_state_def ReconcileStatuses_def query_def joinReconcileSignals_def index_by_def Aggregate_def)
  moreover obtain row where "api_GetFeatureAssignment faID d' = Some row" using api_GetFeatureAssignment_found [OF a(1,3)] a(2) by auto
  ultimately show ?thesis
    using assms(4,7,8) u u' by (simp add: api_GetFeatureAssignment_handler_def one_def)
qed

section \<open>The tenants and their environments\<close>

definition tenant_env :: "api_libs \<Rightarrow> db \<Rightarrow> Environment \<Rightarrow> ApiEnvironment" where
  "tenant_env l d e = \<lparr>ae_ID = e_ID e, ae_Name = e_Name e, ae_Kind = e_Kind e, ae_Labels = e_Labels e,
     ae_GcpProjectID = (case find (\<lambda>v. ev_key v = (e_ID e, ''project_id'') \<and> \<not> ev_Secret v) (environment_values d) of
        None \<Rightarrow> None | Some v \<Rightarrow> if ev_Value v = [] then None else Some (projr (hl_text l (ev_Value v))))\<rparr>"

text \<open>What the loop over the rows has built: the tenants in the order they first occur, each with its environments so far.\<close>

definition tenants_built :: "(TenantEnvironmentRow \<Rightarrow> string option) \<Rightarrow> TenantEnvironmentRow list \<Rightarrow> ApiTenant list \<Rightarrow> (uuid, nat) gomap \<Rightarrow> bool" where
  "tenants_built g rows ts idx \<longleftrightarrow>
     ts = map (\<lambda>r. \<lparr>at_ID = t_ID (tr_Tenant r), at_Name = t_Name (tr_Tenant r),
         at_Environments = map (\<lambda>r. api_environment r (g r)) (filter (\<lambda>r'. t_ID (tr_Tenant r') = t_ID (tr_Tenant r)) rows)\<rparr>)
       (distinct_on (\<lambda>r. t_ID (tr_Tenant r)) rows) \<and>
     (\<forall>k i. map_of idx k = Some i \<longleftrightarrow> i < length ts \<and> at_ID (ts ! i) = k)"

lemma tenants_built_snoc:
  assumes "tenants_built g rows ts idx" and "add_tenant_row r (g r) (ts, idx) = (ts', idx')"
  shows "tenants_built g (rows @ [r]) ts' idx'"
proof -
  let ?id = "\<lambda>r. t_ID (tr_Tenant r)" and ?firsts = "distinct_on (\<lambda>r. t_ID (tr_Tenant r)) rows"
  let ?T = "\<lambda>rs r. \<lparr>at_ID = t_ID (tr_Tenant r), at_Name = t_Name (tr_Tenant r),
         at_Environments = map (\<lambda>r. api_environment r (g r)) (filter (\<lambda>r'. t_ID (tr_Tenant r') = t_ID (tr_Tenant r)) rs)\<rparr>"
  have ts: "ts = map (?T rows) ?firsts" and idx: "\<And>k i. map_of idx k = Some i \<longleftrightarrow> i < length ts \<and> at_ID (ts ! i) = k"
    using assms(1) unfolding tenants_built_def by blast+
  have dist: "distinct (map ?id ?firsts)" by (rule distinct_distinct_on)
  have keys: "?id ` set ?firsts = ?id ` set rows" by (rule distinct_on_keys)
  show ?thesis
  proof (cases "map_of idx (?id r)")
    case (Some i)
    then have i: "i < length ts" "at_ID (ts ! i) = ?id r" using idx by blast+
    have il: "i < length ?firsts" and fi: "?id (?firsts ! i) = ?id r" using i by (simp_all add: ts)
    have mem: "?id r \<in> ?id ` set rows" using il fi keys nth_mem by (metis image_eqI)
    have ts': "ts' = ts[i := (ts ! i) \<lparr>at_Environments := at_Environments (ts ! i) @ [api_environment r (g r)]\<rparr>]" and "idx' = idx"
      using assms(2) Some by (simp_all add: add_tenant_row_def)
    have "ts' = map (?T (rows @ [r])) ?firsts"
    proof (rule nth_equalityI)
      show "length ts' = length (map (?T (rows @ [r])) ?firsts)" by (simp add: ts' ts)
      fix j assume "j < length ts'"
      then have j: "j < length ?firsts" by (simp add: ts' ts)
      have "?id (?firsts ! j) = ?id r \<longleftrightarrow> j = i" using nth_eq_iff_index_eq [OF dist, of j i] j il fi by simp
      then show "ts' ! j = map (?T (rows @ [r])) ?firsts ! j" using j il by (cases "j = i") (auto simp: ts' ts fi)
    qed
    moreover have "\<And>k i. map_of idx' k = Some i \<longleftrightarrow> i < length ts' \<and> at_ID (ts' ! i) = k"
      using idx i by (auto simp: \<open>idx' = idx\<close> ts' nth_list_update)
    ultimately show ?thesis unfolding tenants_built_def distinct_on_snoc using mem by simp
  next
    case None
    then have new': "\<And>i. i < length ts \<Longrightarrow> at_ID (ts ! i) \<noteq> ?id r" using idx [of "?id r"] by simp
    then have new: "?id r \<notin> at_ID ` set ts" by (force simp: in_set_conv_nth)
    then have mem: "?id r \<notin> ?id ` set rows" using keys by (simp add: ts image_image)
    have ts': "ts' = ts @ [\<lparr>at_ID = ?id r, at_Name = t_Name (tr_Tenant r), at_Environments = [api_environment r (g r)]\<rparr>]"
      and idx': "idx' = gm_put (?id r) (length ts) idx"
      using assms(2) None by (simp_all add: add_tenant_row_def)
    have none: "filter (\<lambda>r'. ?id r' = ?id r) rows = []" using mem by (auto simp: filter_empty_conv image_iff)
    have "map (?T (rows @ [r])) ?firsts = map (?T rows) ?firsts" using mem keys by (auto simp: image_iff)
    then have "ts' = map (?T (rows @ [r])) (?firsts @ [r])" by (simp add: ts' ts none)
    moreover have "map_of idx' k = Some i \<longleftrightarrow> i < length ts' \<and> at_ID (ts' ! i) = k" for k i
    proof (cases "k = ?id r")
      case True
      then show ?thesis using new' [of i] by (auto simp: idx' ts' nth_append less_Suc_eq)
    next
      case False
      then show ?thesis using idx by (auto simp: idx' ts' nth_append less_Suc_eq)
    qed
    ultimately show ?thesis unfolding tenants_built_def distinct_on_snoc using mem by simp
  qed
qed

lemma foldE_tenants_built:
  "foldE (\<lambda>r st. bindE (api_gcp l r) (\<lambda>gcp. Inr (add_tenant_row r gcp st))) rows ([], []) = Inr (ts, idx) \<Longrightarrow>
     tenants_built (\<lambda>r. projr (api_gcp l r)) rows ts idx \<and> (\<forall>r \<in> set rows. \<exists>g. api_gcp l r = Inr g)"
proof (induction rows arbitrary: ts idx rule: rev_induct)
  case (snoc r rows)
  obtain ts1 idx1 g where f: "foldE (\<lambda>r st. bindE (api_gcp l r) (\<lambda>gcp. Inr (add_tenant_row r gcp st))) rows ([], []) = Inr (ts1, idx1)"
    and g: "api_gcp l r = Inr g" and s: "add_tenant_row r g (ts1, idx1) = (ts, idx)"
    using snoc.prems by (auto simp: foldE_append bindE_eq_Inr)
  have "add_tenant_row r (projr (api_gcp l r)) (ts1, idx1) = (ts, idx)" using s g by simp
  from tenants_built_snoc [OF conjunct1 [OF snoc.IH [OF f]] this] show ?case using snoc.IH [OF f] g by simp
qed (simp add: tenants_built_def)

definition joined_row :: "db \<Rightarrow> Tenant \<Rightarrow> Environment \<Rightarrow> TenantEnvironmentRow" where
  "joined_row d t e = \<lparr>tr_Tenant = t, tr_Environment = e,
     tr_GcpProjectID = map_option ev_Value (find (\<lambda>v. ev_key v = (e_ID e, ''project_id'') \<and> \<not> ev_Secret v) (environment_values d))\<rparr>"

lemma joined_row_sel [simp]: "tr_Tenant (joined_row d t e) = t" "tr_Environment (joined_row d t e) = e"
  by (simp_all add: joined_row_def)

lemma ListTenantsWithEnvironments_rows:
  "ListTenantsWithEnvironments d = sort_key (\<lambda>r. (t_Name (tr_Tenant r), e_Name (tr_Environment r)))
     (concat (map (\<lambda>t. map (joined_row d t) (filter (\<lambda>e. e_TenantID e = t_ID t) (environments d))) (tenants d)))"
  by (simp add: ListTenantsWithEnvironments_def joined_row_def [abs_def])

lemma concat_unique: "distinct (map f xs) \<Longrightarrow> x \<in> set xs \<Longrightarrow> concat (map (\<lambda>y. if f y = f x then h y else []) xs) = h x"
proof (induction xs)
  case (Cons y ys)
  have none: "concat (map (\<lambda>y. if f y = f x then h y else []) ys) = []" if "\<forall>y \<in> set ys. f y \<noteq> f x"
    using that by (induction ys) auto
  show ?case
  proof (cases "y = x")
    case True
    have "\<forall>y \<in> set ys. f y \<noteq> f x" using Cons.prems(1) True by (force simp: image_iff)
    then show ?thesis using none True by simp
  next
    case False
    then have "x \<in> set ys" using Cons.prems(2) by simp
    moreover from this have "f y \<noteq> f x" using Cons.prems(1) by (metis distinct.simps(2) image_eqI list.set_map list.simps(9))
    ultimately show ?thesis using Cons.IH Cons.prems(1) by simp
  qed
qed simp

lemma joined_rows_of_tenant:
  assumes "db_ok d" and "t \<in> set (tenants d)"
  shows "filter (\<lambda>r. t_ID (tr_Tenant r) = t_ID t) (ListTenantsWithEnvironments d) =
    map (joined_row d t) (sort_key e_Name (filter (\<lambda>e. e_TenantID e = t_ID t) (environments d)))"
proof -
  have d: "distinct (map t_ID (tenants d))" using assms(1) by (simp add: db_ok_def)
  have one: "filter (\<lambda>r. t_ID (tr_Tenant r) = t_ID t) (map (joined_row d u) es) = (if t_ID u = t_ID t then map (joined_row d u) es else [])" for u es
    by (simp add: filter_map comp_def)
  have "filter (\<lambda>r. t_ID (tr_Tenant r) = t_ID t)
      (concat (map (\<lambda>u. map (joined_row d u) (filter (\<lambda>e. e_TenantID e = t_ID u) (environments d))) (tenants d))) =
      map (joined_row d t) (filter (\<lambda>e. e_TenantID e = t_ID t) (environments d))"
    by (simp only: filter_concat map_map comp_def one concat_unique [OF d assms(2)])
  then show ?thesis
    unfolding ListTenantsWithEnvironments_rows filter_sort
    by (simp add: sort_key_map) (rule arg_cong [where f = "map _"], rule sort_key_cong_order, simp)
qed

lemma joined_row_member:
  assumes "r \<in> set (ListTenantsWithEnvironments d)"
  shows "\<exists>t \<in> set (tenants d). \<exists>e \<in> set (environments d). e_TenantID e = t_ID t \<and> r = joined_row d t e"
  using assms by (auto simp: ListTenantsWithEnvironments_rows)

lemma api_environment_joined:
  assumes "api_gcp l (joined_row d t e) = Inr g"
  shows "api_environment (joined_row d t e) (projr (api_gcp l (joined_row d t e))) = tenant_env l d e"
  using assms
  by (cases "find (\<lambda>v. ev_key v = (e_ID e, ''project_id'') \<and> \<not> ev_Secret v) (environment_values d)")
    (auto simp: api_environment_def tenant_env_def api_gcp_def joined_row_def bindE_eq_Inr split: if_splits)

text \<open>
  The listing of tenants: it names every tenant that has an environment exactly once, in the order of the names, each with
  all its environments in the order of their names, their labels and kinds, and the project of an environment only when
  it is stored and not secret.
\<close>

theorem GetTenants_groups:
  assumes "GetTenants l io d = Reply 200 ts" and "db_ok d"
  shows "distinct (map at_ID ts) \<and> sorted (map at_Name ts)
    \<and> set (map at_ID ts) = {t_ID t | t. t \<in> set (tenants d) \<and> (\<exists>e \<in> set (environments d). e_TenantID e = t_ID t)}
    \<and> (\<forall>T \<in> set ts. \<exists>t \<in> set (tenants d). at_ID T = t_ID t \<and> at_Name T = t_Name t \<and>
        at_Environments T = map (tenant_env l d) (sort_key e_Name (filter (\<lambda>e. e_TenantID e = t_ID t) (environments d))))"
proof -
  let ?rows = "ListTenantsWithEnvironments d" and ?g = "\<lambda>r. projr (api_gcp l r)"
  obtain idx where f: "foldE (\<lambda>r st. bindE (api_gcp l r) (\<lambda>gcp. Inr (add_tenant_row r gcp st))) ?rows ([], []) = Inr (ts, idx)"
    using assms(1) by (auto simp: GetTenants_def query_def split: sum.splits prod.splits if_splits)
  let ?firsts = "distinct_on (\<lambda>r. t_ID (tr_Tenant r)) ?rows"
  have ts: "ts = map (\<lambda>r. \<lparr>at_ID = t_ID (tr_Tenant r), at_Name = t_Name (tr_Tenant r),
         at_Environments = map (\<lambda>r. api_environment r (?g r)) (filter (\<lambda>r'. t_ID (tr_Tenant r') = t_ID (tr_Tenant r)) ?rows)\<rparr>) ?firsts"
    and gcp: "\<And>r. r \<in> set ?rows \<Longrightarrow> \<exists>g. api_gcp l r = Inr g"
    using foldE_tenants_built [OF f] unfolding tenants_built_def by blast+
  have ids: "map at_ID ts = map (\<lambda>r. t_ID (tr_Tenant r)) ?firsts" by (simp add: ts comp_def)
  have "sorted_wrt (\<lambda>r r'. (t_Name (tr_Tenant r), e_Name (tr_Environment r)) \<le> (t_Name (tr_Tenant r'), e_Name (tr_Environment r'))) ?firsts"
  proof (rule sorted_wrt_distinct_on)
    have "sorted (map (\<lambda>r. (t_Name (tr_Tenant r), e_Name (tr_Environment r))) ?rows)"
      unfolding ListTenantsWithEnvironments_rows by (rule sorted_sort_key)
    then show "sorted_wrt (\<lambda>r r'. (t_Name (tr_Tenant r), e_Name (tr_Environment r)) \<le> (t_Name (tr_Tenant r'), e_Name (tr_Environment r'))) ?rows"
      unfolding sorted_map .
  qed
  then have "sorted_wrt (\<lambda>r r'. t_Name (tr_Tenant r) \<le> t_Name (tr_Tenant r')) ?firsts"
    by (rule sorted_wrt_mono_rel [rotated]) auto
  then have "sorted (map at_Name ts)" by (simp add: ts comp_def sorted_map)
  moreover have "set (map at_ID ts) = {t_ID t | t. t \<in> set (tenants d) \<and> (\<exists>e \<in> set (environments d). e_TenantID e = t_ID t)}"
    unfolding ids set_map distinct_on_keys by (auto simp: ListTenantsWithEnvironments_rows image_Un image_UN image_image; blast)
  moreover have "\<exists>t \<in> set (tenants d). at_ID T = t_ID t \<and> at_Name T = t_Name t \<and>
      at_Environments T = map (tenant_env l d) (sort_key e_Name (filter (\<lambda>e. e_TenantID e = t_ID t) (environments d)))"
    if T: "T \<in> set ts" for T
  proof -
    obtain r where r: "r \<in> set ?rows" and T: "at_ID T = t_ID (tr_Tenant r)" "at_Name T = t_Name (tr_Tenant r)"
      "at_Environments T = map (\<lambda>r. api_environment r (?g r)) (filter (\<lambda>r'. t_ID (tr_Tenant r') = t_ID (tr_Tenant r)) ?rows)"
      using T set_distinct_on [of "\<lambda>r. t_ID (tr_Tenant r)" ?rows] by (auto simp: ts)
    obtain t e where t: "t \<in> set (tenants d)" "r = joined_row d t e" using joined_row_member [OF r] by blast
    note rows = joined_rows_of_tenant [OF assms(2) t(1)]
    have "api_environment (joined_row d t i) (?g (joined_row d t i)) = tenant_env l d i"
      if "i \<in> set (filter (\<lambda>e. e_TenantID e = t_ID t) (environments d))" for i
    proof -
      have "joined_row d t i \<in> set (filter (\<lambda>r. t_ID (tr_Tenant r) = t_ID t) ?rows)" unfolding rows using that by simp
      then obtain g where "api_gcp l (joined_row d t i) = Inr g" using gcp by fastforce
      then show ?thesis by (rule api_environment_joined)
    qed
    then have "at_Environments T = map (tenant_env l d) (sort_key e_Name (filter (\<lambda>e. e_TenantID e = t_ID t) (environments d)))"
      unfolding T(3) t(2) joined_row_sel rows by simp
    then show ?thesis using T(1,2) t by auto
  qed
  ultimately show ?thesis unfolding ids by simp
qed

section \<open>Who sees the pages\<close>

text \<open>
  The pages run behind the proxy's assertion: unless the process was started without an audience and with the proxy check
  switched off, a page is served only for an assertion that is valid for the audience, was issued by the proxy and not in the
  future. The email that the page runs with, and that its audit rows name, is the header's and not the assertion's.
\<close>

lemma pages_authenticated:
  assumes "SetupRouter l io aud insecureSkipProxy = Inr (mw, allowAll)" and "(mw h :: 'a reply + string) = Inr email"
  shows "(if aud = [] then insecureSkipProxy \<and> email \<noteq> [] else email = header_email h \<and>
      (\<exists>p. hl_Validate l (header_Get h ''X-Goog-IAP-JWT-Assertion'') aud = Inr p \<and> pl_Issuer p = ''https://cloud.google.com/iap'' \<and>
         time_Unix (pl_IssuedAt p) 0 \<le> io_now io + 30 * second)) \<and> (allowAll \<longleftrightarrow> insecureSkipProxy)"
  using assms
  by (auto simp: SetupRouter_def validateJWTFromComputeEngine_def InsecureValidateMW_def LocalDevEmail_def Let_def split: sum.splits if_splits)

section \<open>A pipeline\<close>

definition example_api :: api_libs where
  "example_api = \<lparr>hl_Verify = Inr,
     hl_Claims = (\<lambda>_. Inr \<lparr>cl_Repository = ''nais/loki'', cl_Owner = ''nais'', cl_Actor = ''octocat'', cl_RunID = ''1''\<rparr>),
     hl_decode = (\<lambda>_. Inr \<lparr>rq_Chart = ''oci://charts/loki'', rq_Version = ''2'', rq_Description = [], rq_Ref = None,
        rq_Global = False, rq_Target = [(''tenant'', ''acme'')]\<rparr>),
     hl_text = Inr, hl_parse = (\<lambda>s. if s = uuid_String 50 then Inr 50 else Inl ErrNoRows), hl_Download = example_downloader,
     hl_Validate = (\<lambda>_ _. Inl ErrNoRows)\<rparr>"

definition example_header :: header where
  "example_header = [(''Authorization'', ''Bearer token'')]"

lemma example_token: "validateToken example_api False example_header = Inr ''octocat@nais/loki/1''"
  by (simp add: validateToken_def getAuthToken_def header_Get_def example_header_def example_api_def)

lemma example_post:
  "\<exists>d'. api_CreateFeatureAssignment example_api example_parser plain_encoders store_io False example_header [] (example_db, 0) =
     (Reply 201 (uuid_String 50, ''loki''), d', 1)"
proof -
  let ?inp = "\<lparr>ca_Chart = ''oci://charts/loki'', ca_Version = ''2'', ca_Description = Some [], ca_Commit = None, ca_Target = [(''tenant'', ''acme'')]\<rparr>"
  let ?c = "Create example_downloader example_parser plain_encoders store_io (Some ''octocat@nais/loki/1'') ?inp example_db"
  have "fst ?c = Inr (50, ''loki'')"
    by (simp add: create_eval)
  then obtain dc where "?c = (Inr (50, ''loki''), dc)" by (metis prod.collapse)
  moreover have "hl_decode example_api [] = Inr \<lparr>rq_Chart = ''oci://charts/loki'', rq_Version = ''2'', rq_Description = [], rq_Ref = None,
      rq_Global = False, rq_Target = [(''tenant'', ''acme'')]\<rparr>" "hl_Download example_api = example_downloader"
    by (simp_all add: example_api_def)
  ultimately show ?thesis
    unfolding api_CreateFeatureAssignment_def by (simp add: example_token TriggerReconcile_def)
qed

theorem api_writes_authenticated_witness:
  "\<exists>d' actor. api_CreateFeatureAssignment example_api example_parser plain_encoders store_io False example_header [] (example_db, 0) =
     (Reply 201 (uuid_String 50, ''loki''), d', 1) \<and> pipeline_actor example_api example_header actor \<and>
     (\<exists>row. audits d' = audits example_db @ [row] \<and> au_actor row = actor) \<and>
     (\<exists>a \<in> set (feature_assignments d'). fa_feature_name a = ''loki'' \<and> fa_active a)"
proof -
  obtain d' where c: "api_CreateFeatureAssignment example_api example_parser plain_encoders store_io False example_header [] (example_db, 0) =
     (Reply 201 (uuid_String 50, ''loki''), d', 1)" using example_post by blast
  have "\<not> io_fails store_io ''audit.Create''" by (simp add: store_io_def)
  with api_writes_authenticated [OF c] c show ?thesis by (auto simp: creation_audited_def)
qed

theorem posted_assignment_is_found_witness:
  "\<exists>d'. api_CreateFeatureAssignment example_api example_parser plain_encoders store_io False example_header [] (example_db, 0) =
     (Reply 201 (uuid_String 50, ''loki''), d', 1) \<and>
     api_GetFeatureAssignment_handler example_api store_io False example_header (uuid_String 50) d' = Reply 200 (50, StateUnknown)"
proof -
  obtain d' where c: "api_CreateFeatureAssignment example_api example_parser plain_encoders store_io False example_header [] (example_db, 0) =
     (Reply 201 (uuid_String 50, ''loki''), d', 1)" using example_post by blast
  have p: "hl_parse example_api (uuid_String 50) = Inr 50" by (simp add: example_api_def)
  have "api_GetFeatureAssignment_handler example_api store_io False example_header (uuid_String 50) d' = Reply 200 (50, StateUnknown)"
    by (rule posted_assignment_is_found [OF c example_db_ok _ p _ _ _ example_token])
      (simp_all add: example_db_def empty_db_def store_io_def)
  with c show ?thesis by blast
qed

lemma example_tenants: "\<exists>ts. GetTenants example_api store_io example_db = Reply 200 ts"
  by (simp add: GetTenants_def query_def store_io_def ListTenantsWithEnvironments_def example_db_def empty_db_def api_gcp_def add_tenant_row_def)

theorem GetTenants_groups_witness:
  "\<exists>ts. GetTenants example_api store_io example_db = Reply 200 ts \<and> set (map at_ID ts) = {9}"
proof -
  obtain ts where ts: "GetTenants example_api store_io example_db = Reply 200 ts" using example_tenants by blast
  have "set (map at_ID ts) = {t_ID t | t. t \<in> set (tenants example_db) \<and> (\<exists>e \<in> set (environments example_db). e_TenantID e = t_ID t)}"
    using GetTenants_groups [OF ts example_db_ok] by blast
  then have "set (map at_ID ts) = {9}" by (simp add: example_db_def empty_db_def)
  with ts show ?thesis by blast
qed

end
