(* ===== verification/Audit_Log.thy ===== *)
theory Audit_Log
  imports Helm_Values
begin

text \<open>
  Reading the audit log: \<open>internal/audit/queries.go\<close> with the statements of \<open>internal/audit/auditsql\<close>. Rows are joined with the
  environment and the tenant they are about, which may be missing, and come newest first.

  The search is PostgreSQL's \<open>ILIKE\<close>, modelled with its two wildcards and its escape; letters are compared without case in
  ASCII. The text of a member of the metadata that is not a string is its JSON.
\<close>

section \<open>Rows\<close>

record JoinedAudit =
  ja_audit :: AuditRow
  ja_EnvironmentName :: "string option"
  ja_TenantName :: "string option"

definition join_audit :: "db \<Rightarrow> AuditRow \<Rightarrow> JoinedAudit" where
  "join_audit d a =
     (let env = find (\<lambda>e. Some (e_ID e) = au_environment_id a) (environments d);
          tenant = (case env of None \<Rightarrow> None | Some e \<Rightarrow> find (\<lambda>t. t_ID t = e_TenantID e) (tenants d))
      in \<lparr>ja_audit = a, ja_EnvironmentName = map_option e_Name env, ja_TenantName = map_option t_Name tenant\<rparr>)"

definition newest :: "(JoinedAudit \<Rightarrow> bool) \<Rightarrow> int \<Rightarrow> db \<Rightarrow> err + JoinedAudit list" where
  "newest P limit d =
     (if limit < 0 then Inl (PgError ''2201W'')
      else Inr (take (nat limit) (sort_key (\<lambda>r. - au_created_at (ja_audit r)) (filter P (map (join_audit d) (audits d))))))"

text \<open>\<open>metadata ->> key\<close>.\<close>

definition metadata_text :: "externals \<Rightarrow> gval option \<Rightarrow> string \<Rightarrow> string option" where
  "metadata_text x m key = (case m of
      Some (GMap kvs) \<Rightarrow> (case map_of kvs key of
          None \<Rightarrow> None | Some GNil \<Rightarrow> None | Some (GStr s) \<Rightarrow> Some s
        | Some v \<Rightarrow> (case x_marshal x v of Inl _ \<Rightarrow> None | Inr s \<Rightarrow> Some s))
    | Some (GSMap kvs) \<Rightarrow> map_of kvs key
    | _ \<Rightarrow> None)"

section \<open>Statements\<close>

definition audit_ListForFeature :: "io \<Rightarrow> string \<Rightarrow> int \<Rightarrow> db \<Rightarrow> err + JoinedAudit list" where
  "audit_ListForFeature io feature limit d =
     bindE (query (io_fails io) ''audit.ListForFeature'' (newest (\<lambda>r. au_feature (ja_audit r) = feature) limit d)) id"

definition audit_ListAssignmentsForFeature :: "io \<Rightarrow> string \<Rightarrow> int \<Rightarrow> db \<Rightarrow> err + JoinedAudit list" where
  "audit_ListAssignmentsForFeature io feature limit d =
     bindE (query (io_fails io) ''audit.ListAssignmentsForFeature''
       (newest (\<lambda>r. au_feature (ja_audit r) = feature \<and> au_object_type (ja_audit r) = ''assignment'') limit d)) id"

definition audit_ListForFeatureInEnvironment :: "io \<Rightarrow> string \<Rightarrow> uuid \<Rightarrow> int \<Rightarrow> db \<Rightarrow> err + JoinedAudit list" where
  "audit_ListForFeatureInEnvironment io feature envID limit d =
     bindE (query (io_fails io) ''audit.ListForFeatureInEnvironment''
       (newest (\<lambda>r. au_feature (ja_audit r) = feature \<and> au_environment_id (ja_audit r) = Some envID) limit d)) id"

definition audit_ListGlobalConfigForFeature :: "io \<Rightarrow> string \<Rightarrow> int \<Rightarrow> db \<Rightarrow> err + JoinedAudit list" where
  "audit_ListGlobalConfigForFeature io feature limit d =
     bindE (query (io_fails io) ''audit.ListGlobalConfigForFeature''
       (newest (\<lambda>r. au_feature (ja_audit r) = feature \<and> au_object_type (ja_audit r) = ''configuration'' \<and>
          au_environment_id (ja_audit r) = None) limit d)) id"

definition audit_ListRecent :: "io \<Rightarrow> int \<Rightarrow> db \<Rightarrow> err + JoinedAudit list" where
  "audit_ListRecent io limit d = bindE (query (io_fails io) ''audit.ListRecent'' (newest (\<lambda>r. True) limit d)) id"

definition audit_LatestDisableReason :: "string \<Rightarrow> uuid \<Rightarrow> db \<Rightarrow> string option" where
  "audit_LatestDisableReason feature envID d =
     (case sort_key (\<lambda>a. - au_created_at a) (filter (\<lambda>a. au_feature a = feature \<and> au_environment_id a = Some envID \<and>
         au_action a = ''disabled'') (audits d)) of
        [] \<Rightarrow> None | a # _ \<Rightarrow> Some (au_description a))"

definition ListAssignmentCreators :: "externals \<Rightarrow> string list \<Rightarrow> db \<Rightarrow> (string \<times> string) list" where
  "ListAssignmentCreators x ids d =
     (let key = (\<lambda>a. case metadata_text x (au_metadata a) ''assignmentId'' of None \<Rightarrow> [] | Some s \<Rightarrow> s)
      in map (\<lambda>a. (key a, au_actor a)) (distinct_on key (sort_key (\<lambda>a. (key a, au_created_at a))
           (filter (\<lambda>a. au_object_type a = ''assignment'' \<and> au_action a = ''created'' \<and>
              (case metadata_text x (au_metadata a) ''assignmentId'' of None \<Rightarrow> False | Some s \<Rightarrow> List.member ids s)) (audits d)))))"

text \<open>\<open>LIKE\<close>: \<open>%\<close> matches any text, \<open>_\<close> any character, a backslash makes the next character stand for itself.\<close>

fun like :: "string \<Rightarrow> string \<Rightarrow> bool" where
  "like [] s \<longleftrightarrow> s = []"
| "like (c # p) s \<longleftrightarrow>
     (if c = CHR ''%'' then list_ex (like p) (suffixes s)
      else if c = CHR ''_'' then (case s of [] \<Rightarrow> False | _ # s' \<Rightarrow> like p s')
      else if c = CHR 0x5C then (case p of [] \<Rightarrow> False | c' # p' \<Rightarrow> (case s of [] \<Rightarrow> False | a # s' \<Rightarrow> a = c' \<and> like p' s'))
      else (case s of [] \<Rightarrow> False | a # s' \<Rightarrow> a = c \<and> like p s'))"

definition ilike :: "string \<Rightarrow> string \<Rightarrow> bool" where
  "ilike s pattern \<longleftrightarrow> like (strings_ToLower pattern) (strings_ToLower s)"

text \<open>\<open>concat_ws\<close> skips what is NULL.\<close>

definition concat_ws :: "string \<Rightarrow> string option list \<Rightarrow> string" where
  "concat_ws sep parts = strings_Join (map the (filter (\<lambda>p. p \<noteq> None) parts)) sep"

definition searchable_text :: "externals \<Rightarrow> JoinedAudit \<Rightarrow> string" where
  "searchable_text x r =
     (let a = ja_audit r
      in concat_ws '' ''
          [Some (au_action a),
           if au_object_type a = ''assignment'' \<and> au_action a \<in> {''redeploy'', ''triggered''} then Some ''redeployed'' else None,
           Some (au_object_type a),
           if au_object_type a = ''configuration'' then Some ''config''
           else if au_object_type a = ''environment_value'' then Some ''env value'' else None,
           Some (au_object_id a), Some (au_feature a),
           (case (ja_TenantName r, ja_EnvironmentName r) of (Some t, Some e) \<Rightarrow> Some (t @ ''/'' @ e) | _ \<Rightarrow> None),
           ja_EnvironmentName r, ja_TenantName r,
           if au_object_type a = ''configuration'' \<and> au_environment_id a = None then Some ''global'' else None,
           Some (au_actor a), Some (au_description a),
           metadata_text x (au_metadata a) ''old'', metadata_text x (au_metadata a) ''new''])"

definition audit_SearchRecent :: "externals \<Rightarrow> io \<Rightarrow> string list \<Rightarrow> int \<Rightarrow> db \<Rightarrow> err + JoinedAudit list" where
  "audit_SearchRecent x io terms limit d =
     bindE (query (io_fails io) ''audit.SearchRecent''
       (newest (\<lambda>r. \<not> list_ex (\<lambda>term. \<not> ilike (searchable_text x r) (''%'' @ term @ ''%'')) terms) limit d)) id"

section \<open>Entries\<close>

record Entry =
  en_Actor :: string
  en_Action :: string
  en_Description :: string
  en_ObjectType :: string
  en_ObjectID :: string
  en_EnvironmentID :: "uuid option"
  en_EnvironmentName :: string
  en_Tenant :: string
  en_CreatedAt :: gotime
  en_Metadata :: "gval option"

definition ptrOr :: "string option \<Rightarrow> string" where
  "ptrOr s = (case s of None \<Rightarrow> [] | Some v \<Rightarrow> v)"

definition entry_of_row :: "JoinedAudit \<Rightarrow> Entry" where
  "entry_of_row r = \<lparr>en_Actor = au_actor (ja_audit r), en_Action = au_action (ja_audit r), en_Description = au_description (ja_audit r),
     en_ObjectType = au_object_type (ja_audit r), en_ObjectID = au_object_id (ja_audit r), en_EnvironmentID = au_environment_id (ja_audit r),
     en_EnvironmentName = ptrOr (ja_EnvironmentName r), en_Tenant = ptrOr (ja_TenantName r),
     en_CreatedAt = au_created_at (ja_audit r), en_Metadata = au_metadata (ja_audit r)\<rparr>"

definition entries :: "err + JoinedAudit list \<Rightarrow> err + Entry list" where
  "entries rows = bindE rows (\<lambda>rs. Inr (map entry_of_row rs))"

definition ListForFeature :: "io \<Rightarrow> string \<Rightarrow> int \<Rightarrow> db \<Rightarrow> err + Entry list" where
  "ListForFeature io feature limit d = entries (audit_ListForFeature io feature limit d)"

definition ListAssignmentsForFeature :: "io \<Rightarrow> string \<Rightarrow> int \<Rightarrow> db \<Rightarrow> err + Entry list" where
  "ListAssignmentsForFeature io feature limit d = entries (audit_ListAssignmentsForFeature io feature limit d)"

definition ListForFeatureInEnvironment :: "io \<Rightarrow> string \<Rightarrow> uuid \<Rightarrow> int \<Rightarrow> db \<Rightarrow> err + Entry list" where
  "ListForFeatureInEnvironment io feature envID limit d = entries (audit_ListForFeatureInEnvironment io feature envID limit d)"

definition ListGlobalConfigForFeature :: "io \<Rightarrow> string \<Rightarrow> int \<Rightarrow> db \<Rightarrow> err + Entry list" where
  "ListGlobalConfigForFeature io feature limit d = entries (audit_ListGlobalConfigForFeature io feature limit d)"

definition ListRecent :: "io \<Rightarrow> int \<Rightarrow> db \<Rightarrow> err + Entry list" where
  "ListRecent io limit d = entries (audit_ListRecent io limit d)"

definition SearchRecent :: "externals \<Rightarrow> io \<Rightarrow> string list \<Rightarrow> int \<Rightarrow> db \<Rightarrow> err + Entry list" where
  "SearchRecent x io terms limit d = entries (audit_SearchRecent x io terms limit d)"

definition AssignmentCreators :: "externals \<Rightarrow> io \<Rightarrow> (string \<Rightarrow> err + uuid) \<Rightarrow> uuid list \<Rightarrow> db \<Rightarrow> err + (uuid, string) gomap" where
  "AssignmentCreators x io parse assignmentIDs d =
     bindE (wrapE ''list assignment creators'' (query (io_fails io) ''ListAssignmentCreators''
         (ListAssignmentCreators x (map uuid_String assignmentIDs) d))) (\<lambda>rows.
     foldE (\<lambda>(u, actor) creators. bindE (wrapE (''parse assignment ID '' @ u) (parse u)) (\<lambda>i. Inr (gm_put i actor creators))) rows [])"

definition LatestDisableReason :: "io \<Rightarrow> string \<Rightarrow> uuid \<Rightarrow> db \<Rightarrow> string" where
  "LatestDisableReason io feature envID d =
     (case one io ''LatestDisableReason'' (audit_LatestDisableReason feature envID d) of Inl _ \<Rightarrow> [] | Inr desc \<Rightarrow> desc)"

definition Display :: "string \<Rightarrow> string" where
  "Display t = (if t = ObjectTypeEnvironmentValue then ''env value'' else if t = ObjectTypeConfiguration then ''config'' else t)"

definition Summary :: "Entry \<Rightarrow> string" where
  "Summary e = en_Action e @ '' '' @ Display (en_ObjectType e) @ '' '' @ en_ObjectID e @
     (if en_Description e \<noteq> [] then '' ('' @ en_Description e @ '')'' else [])"

section \<open>What is shown is what was written\<close>

lemma sort_key_least_last:
  fixes g :: "'a \<Rightarrow> 'b::linorder"
  shows "(\<And>x. x \<in> set xs \<Longrightarrow> g a < g x) \<Longrightarrow> sort_key g (xs @ [a]) = a # sort_key g xs"
proof (induction xs)
  case (Cons x xs)
  then have "sort_key g (xs @ [a]) = a # sort_key g xs" by simp
  moreover have "\<not> g x \<le> g a" using Cons.prems [of x] by simp
  ultimately show ?case by simp
qed simp

lemma DisableFeature_audit:
  assumes "DisableFeature io email e f raw d = (Inr u, d')"
  shows "\<exists>row. audits d' = audits d @ [row] \<and> au_action row = ''disabled'' \<and> au_feature row = f \<and> au_environment_id row = Some e \<and>
    au_description row = strings_TrimSpace raw \<and> au_created_at row = io_now io \<and> au_actor row = actorOrUnknown email"
proof -
  have "audits (insert_disabled now e f d1) = audits d1" for now d1 by (simp add: insert_disabled_def split: option.split)
  then show ?thesis
    using assms by (auto simp: DisableFeature_def Let_def WithTx_eq_Inr bindT_eq_Inr audit_row_def ActionDisabled_def
        dest!: SetDisabledFeature_Inr split: if_splits)
qed

text \<open>
  The reason for which an operator disabled a feature in an environment is the reason that the pages show for it, without
  the white space around it, until it is disabled again.
\<close>

theorem disable_reason_shown:
  assumes "DisableFeature io email e f raw d = (Inr u, d1)"
    and "\<And>a. a \<in> set (audits d) \<Longrightarrow> au_created_at a < io_now io"
    and "audits d2 = audits d1 @ rows" and "\<And>a. a \<in> set rows \<Longrightarrow> \<not> (au_feature a = f \<and> au_environment_id a = Some e \<and> au_action a = ''disabled'')"
    and "\<not> io_fails io2 ''LatestDisableReason''"
  shows "LatestDisableReason io2 f e d2 = strings_TrimSpace raw"
proof -
  let ?P = "\<lambda>a. au_feature a = f \<and> au_environment_id a = Some e \<and> au_action a = ''disabled''"
  obtain row where row: "audits d1 = audits d @ [row]" "?P row" "au_description row = strings_TrimSpace raw" "au_created_at row = io_now io"
    using DisableFeature_audit [OF assms(1)] by blast
  have "filter ?P rows = []" using assms(4) by (auto simp: filter_empty_conv)
  then have "filter ?P (audits d2) = filter ?P (audits d) @ [row]" using row assms(3) by simp
  moreover have "sort_key (\<lambda>a. - au_created_at a) (filter ?P (audits d) @ [row]) = row # sort_key (\<lambda>a. - au_created_at a) (filter ?P (audits d))"
    by (rule sort_key_least_last) (use assms(2) row(4) in auto)
  ultimately show ?thesis
    using row(3) assms(5) by (simp add: LatestDisableReason_def audit_LatestDisableReason_def one_def)
qed

section \<open>Who created an assignment\<close>

lemma Create_audit:
  assumes "Create dl parser j io email inp d = (Inr (u, name), d')" and "\<not> io_fails io ''audit.Create''"
  shows "\<exists>row. audits d' = audits d @ [row] \<and> au_object_type row = ''assignment'' \<and> au_action row = ''created'' \<and>
    au_actor row = actorOrUnknown email \<and> metadata_text x (au_metadata row) ''assignmentId'' = Some (uuid_String u)"
proof -
  have data: "audits d1 = audits d" if "CreateFeatureData j io feat details d = (r, d1)" for feat details r d1
    using that by (auto simp: CreateFeatureData_def CreateFeatureData_sql_def split: sum.splits if_splits option.splits)
  have repl: "audits d2 = audits d1" if "replace_assignment io feat descr gh target d1 = (Inr r, d2)" for feat descr gh target d1 d2 r
    using that unfolding replace_assignment_def
    by (auto simp: WithTx_eq_Inr bindT_eq_Inr CreateFeatureAssignment_sql_def DeactivateActiveFeatureAssignmentForTarget_def
        deactivate_where_def Let_def split: if_splits)
  have create: "audits d1 = audits d" if "createFeatureAssignment parser j io feat descr ref target d = (Inr v, d1)" for feat descr ref target v d1
    using that by (auto simp: createFeatureAssignment_def bindT_eq_Inr dest!: data repl split: sum.splits err.splits prod.splits if_splits)
  obtain feat where feat: "dl (ca_Chart inp) (ca_Version inp) = Inr feat" "f_Source feat \<noteq> []"
    using assms(1) by (auto simp: Create_def split: sum.splits if_splits)
  obtain d1 where c: "createFeatureAssignment parser j io feat (ca_Description inp) (ca_Commit inp) (ca_Target inp) d = (Inr u, d1)"
    and d': "audits d' = audits d1 @ [audit_row io email \<lparr>ap_Action = ActionCreated,
          ap_Description = ''version '' @ ca_Version inp @ '' '' @ right_arrow @ '' '' @ formatLabels (ca_Target inp),
          ap_ObjectType = ObjectTypeFeatureAssignment, ap_ObjectID = f_Name feat, ap_Feature = f_Name feat, ap_EnvironmentID = None,
          ap_Metadata = Some (GMap [(''assignmentId'', GStr (uuid_String u)), (''chart'', GStr (ca_Chart inp)),
            (''target'', GSMap (ca_Target inp))])\<rparr>]"
    using assms(1,2) feat by (auto simp: Create_def bindT_eq_Inr audit_Create_def execT_def)
  show ?thesis using d' create [OF c] by (simp add: audit_row_def ActionCreated_def ObjectTypeFeatureAssignment_def metadata_text_def)
qed

lemma foldE_pure: "(\<And>y s. y \<in> set xs \<Longrightarrow> f y s = Inr (g y s)) \<Longrightarrow> foldE f xs s = Inr (fold g xs s)"
  by (induction xs arbitrary: s) simp_all

lemma creators_lookup:
  assumes "\<And>s actor. (s, actor) \<in> set rows \<Longrightarrow> \<exists>i. parse s = Inr i \<and> s = uuid_String i" and "distinct (map fst rows)"
    and "(uuid_String u, actor) \<in> set rows" and "parse (uuid_String u) = Inr u"
  shows "\<exists>m. foldE (\<lambda>(s, actor) creators. bindE (wrapE (msg s) (parse s)) (\<lambda>i. Inr (gm_put i actor creators))) rows [] = Inr m \<and>
    map_of m u = Some actor"
proof -
  define h where "h s = projr (parse s)" for s
  have h: "parse s = Inr (h s)" "s = uuid_String (h s)" if s: "(s, a) \<in> set rows" for s a
    using assms(1) [OF s] by (auto simp: h_def)
  have "foldE (\<lambda>(s, actor) creators. bindE (wrapE (msg s) (parse s)) (\<lambda>i. Inr (gm_put i actor creators))) rows [] =
      Inr (fold (\<lambda>r. gm_put (h (fst r)) (snd r)) rows [])"
    by (rule foldE_pure) (use h(1) in \<open>auto split: prod.split\<close>)
  moreover have "inj_on h (fst ` set rows)"
    by (rule inj_onI) (use h(2) in \<open>metis imageE prod.collapse\<close>)
  then have "distinct (map (\<lambda>r. h (fst r)) rows)"
    using assms(2) by (auto simp: distinct_map comp_def intro: comp_inj_on [of fst _ h, unfolded comp_def])
  then have "map_of (index_by (\<lambda>r. h (fst r)) snd rows) (h (fst (uuid_String u, actor))) = Some (snd (uuid_String u, actor))"
    using assms(3) by (rule index_by_unique)
  moreover have "h (uuid_String u) = u" using assms(4) by (simp add: h_def)
  ultimately show ?thesis by (simp add: index_by_def)
qed

text \<open>
  Who created an assignment: once an assignment is created and its audit row written, the pages show the actor of that
  request as its creator, also when the creators of other assignments are asked for with it and whatever is audited
  later.
\<close>

theorem assignment_creator_shown:
  assumes "Create dl parser j io email inp d = (Inr (u, name), d1)" and "\<not> io_fails io ''audit.Create''"
    and "\<And>a. a \<in> set (audits d) \<Longrightarrow> metadata_text x (au_metadata a) ''assignmentId'' \<noteq> Some (uuid_String u)"
    and "audits d2 = audits d1 @ rows"
    and "\<And>a. a \<in> set rows \<Longrightarrow> metadata_text x (au_metadata a) ''assignmentId'' \<noteq> Some (uuid_String u) \<or> au_action a \<noteq> ''created''"
    and "u \<in> set ids" and "\<And>i. i \<in> set ids \<Longrightarrow> parse (uuid_String i) = Inr i" and "\<not> io_fails io2 ''ListAssignmentCreators''"
  shows "\<exists>m. AssignmentCreators x io2 parse ids d2 = Inr m \<and> map_of m u = Some (actorOrUnknown email)"
proof -
  let ?text = "\<lambda>a. metadata_text x (au_metadata a) ''assignmentId''" and ?key = "\<lambda>a. case metadata_text x (au_metadata a) ''assignmentId'' of None \<Rightarrow> [] | Some s \<Rightarrow> s"
  let ?rows = "filter (\<lambda>a. au_object_type a = ''assignment'' \<and> au_action a = ''created'' \<and>
      (case ?text a of None \<Rightarrow> False | Some s \<Rightarrow> List.member (map uuid_String ids) s)) (audits d2)"
  let ?firsts = "distinct_on ?key (sort_key (\<lambda>a. (?key a, au_created_at a)) ?rows)"
  let ?pairs = "map (\<lambda>a. (?key a, au_actor a)) ?firsts"
  obtain row where row: "audits d1 = audits d @ [row]" "au_object_type row = ''assignment''" "au_action row = ''created''"
    "au_actor row = actorOrUnknown email" "?text row = Some (uuid_String u)"
    using Create_audit [OF assms(1,2), of x] by blast
  have sub: "set ?firsts \<subseteq> set ?rows" using set_distinct_on [of ?key "sort_key (\<lambda>a. (?key a, au_created_at a)) ?rows"] by simp
  have mine: "a = row" if a: "a \<in> set ?rows" "?key a = uuid_String u" for a
  proof -
    have "?text a = Some (uuid_String u)" "au_action a = ''created''" "a \<in> set (audits d2)" using a by (auto split: option.splits)
    then show ?thesis using assms(3-5) row(1) by auto
  qed
  have "row \<in> set ?rows" using row assms(4,6) by auto
  then have "uuid_String u \<in> ?key ` set ?firsts" unfolding distinct_on_keys set_sort using row(5) by force
  then obtain a where a: "a \<in> set ?firsts" "?key a = uuid_String u"
    by (elim imageE) (rule that, assumption, erule sym)
  have "a = row" by (rule mine [OF subsetD [OF sub a(1)] a(2)])
  then have in_pairs: "(uuid_String u, actorOrUnknown email) \<in> set ?pairs" using a row(4) by force
  have p: "\<exists>i. parse s = Inr i \<and> s = uuid_String i" if s: "(s, actor) \<in> set ?pairs" for s actor
  proof -
    obtain b where b: "b \<in> set ?rows" "s = ?key b" using s sub by auto
    then have "s \<in> set (map uuid_String ids)" by (auto split: option.splits)
    then show ?thesis using assms(7) by auto
  qed
  have dist: "distinct (map fst ?pairs)" by (simp add: comp_def)
  have list: "ListAssignmentCreators x (map uuid_String ids) d2 = ?pairs" by (simp add: ListAssignmentCreators_def Let_def)
  show ?thesis
    unfolding AssignmentCreators_def list query_def using assms(8)
    by (simp only: if_False wrapE_simps bindE_simps)
      (rule creators_lookup [where rows = ?pairs, OF p dist in_pairs assms(7) [OF assms(6)]])
qed

section \<open>Searching\<close>

definition plain_term :: "string \<Rightarrow> bool" where
  "plain_term t \<longleftrightarrow> CHR ''%'' \<notin> set t \<and> CHR ''_'' \<notin> set t \<and> CHR 0x5C \<notin> set t"

lemma like_any: "like ''%'' s"
  by (auto simp: list_ex_iff)

lemma like_plain: "plain_term t \<Longrightarrow> like (t @ ''%'') s \<longleftrightarrow> prefix t s"
proof (induction t arbitrary: s)
  case Nil
  then show ?case using like_any by simp
next
  case (Cons c t)
  then show ?case by (cases s) (auto simp: plain_term_def)
qed

lemma plain_term_lower: "plain_term t \<Longrightarrow> plain_term (strings_ToLower t)"
proof -
  have "char_lower c = c \<or> (97 \<le> (of_char (char_lower c) :: nat) \<and> (of_char (char_lower c) :: nat) \<le> 122)" for c
    by (auto simp: char_lower_def)
  then have other: "char_lower c \<noteq> b" if "(of_char b :: nat) < 97" "c \<noteq> b" for b c
    using that by (metis not_le)
  have keep: "b \<notin> char_lower ` set t" if b: "(of_char b :: nat) < 97" "b \<notin> set t" for b
  proof
    assume "b \<in> char_lower ` set t"
    then obtain c where c: "c \<in> set t" "b = char_lower c" by blast
    then have "c = b" using other [OF b(1), of c] by blast
    then show False using c(1) b(2) by simp
  qed
  assume "plain_term t"
  then show "plain_term (strings_ToLower t)" by (simp add: plain_term_def strings_ToLower_def keep)
qed

lemma ilike_plain: "plain_term t \<Longrightarrow> ilike s (''%'' @ t @ ''%'') \<longleftrightarrow> sublist (strings_ToLower t) (strings_ToLower s)"
proof -
  assume t: "plain_term t"
  have l: "strings_ToLower (''%'' @ t @ ''%'') = CHR ''%'' # (strings_ToLower t @ ''%'')"
    by (simp add: strings_ToLower_def char_lower_def)
  have "ilike s (''%'' @ t @ ''%'') \<longleftrightarrow> (\<exists>s' \<in> set (suffixes (strings_ToLower s)). prefix (strings_ToLower t) s')"
  proof -
    have "like (CHR ''%'' # p) s' \<longleftrightarrow> (\<exists>u \<in> set (suffixes s'). like p u)" for p s' by (simp add: list_ex_iff)
    then show ?thesis unfolding ilike_def l by (simp only: like_plain [OF plain_term_lower [OF t]])
  qed
  then show ?thesis by (auto simp: sublist_altdef')
qed

text \<open>
  Searching the audit log: for terms without wildcards the search returns the newest entries, at most as many as asked for,
  among exactly those whose searchable text contains every term, whatever the case of the letters.
\<close>

theorem SearchRecent_plain:
  assumes "SearchRecent x io terms limit d = Inr es" and "\<And>t. t \<in> set terms \<Longrightarrow> plain_term t"
  shows "0 \<le> limit \<and> es = map entry_of_row (take (nat limit) (sort_key (\<lambda>r. - au_created_at (ja_audit r))
    (filter (\<lambda>r. \<forall>t \<in> set terms. sublist (strings_ToLower t) (strings_ToLower (searchable_text x r))) (map (join_audit d) (audits d)))))"
proof -
  have "(\<lambda>r. \<not> list_ex (\<lambda>t. \<not> ilike (searchable_text x r) (''%'' @ t @ ''%'')) terms) =
      (\<lambda>r. \<forall>t \<in> set terms. sublist (strings_ToLower t) (strings_ToLower (searchable_text x r)))"
    using assms(2) ilike_plain by (auto simp: list_ex_iff fun_eq_iff)
  then show ?thesis
    using assms(1) by (auto simp: SearchRecent_def audit_SearchRecent_def entries_def newest_def bindE_eq_Inr query_def split: if_splits)
qed

text \<open>A term is a pattern: an underscore in it finds any character.\<close>

lemma SearchRecent_wildcards: "ilike ''env value'' (''%'' @ ''env_value'' @ ''%'') \<and> \<not> sublist ''env_value'' ''env value''"
proof -
  have "like ''env_value%'' ''env value''" by (simp add: list_ex_iff)
  then have "like ''%env_value%'' ''env value''" by (simp add: list_ex_iff)
  moreover have "\<not> sublist ''env_value'' ''env value''" by (auto simp: sublist_code)
  ultimately show ?thesis by (simp add: ilike_def strings_ToLower_def char_lower_def)
qed

theorem SearchRecent_plain_witness:
  "\<exists>es. SearchRecent example_externals store_io [''LOKI''] 5 (example_db \<lparr>audits := [audit_row store_io None
      \<lparr>ap_Action = ''created'', ap_Description = [], ap_ObjectType = ''feature'', ap_ObjectID = ''loki'', ap_Feature = ''loki'',
       ap_EnvironmentID = Some 1, ap_Metadata = None\<rparr>]\<rparr>) = Inr es \<and> length es \<le> 5"
proof -
  let ?d = "example_db \<lparr>audits := [audit_row store_io None
      \<lparr>ap_Action = ''created'', ap_Description = [], ap_ObjectType = ''feature'', ap_ObjectID = ''loki'', ap_Feature = ''loki'',
       ap_EnvironmentID = Some 1, ap_Metadata = None\<rparr>]\<rparr>"
  have "\<exists>es. SearchRecent example_externals store_io [''LOKI''] 5 ?d = Inr es"
    by (simp add: SearchRecent_def audit_SearchRecent_def entries_def newest_def query_def store_io_def)
  then obtain es where es: "SearchRecent example_externals store_io [''LOKI''] 5 ?d = Inr es" by blast
  have "plain_term ''LOKI''" by (simp add: plain_term_def)
  then have "length es \<le> 5" using SearchRecent_plain [OF es] by auto
  with es show ?thesis by blast
qed

theorem disable_reason_shown_witness:
  "\<exists>d1. DisableFeature store_io (Some ''ops'') 1 ''loki'' ''  broken '' example_db = (Inr (), d1) \<and>
     LatestDisableReason store_io ''loki'' 1 d1 = ''broken''"
proof -
  have trim: "strings_TrimSpace ''  broken '' = ''broken''" by (simp add: strings_TrimSpace_def is_space_def)
  have "\<exists>d1. DisableFeature store_io (Some ''ops'') 1 ''loki'' ''  broken '' example_db = (Inr (), d1)"
    by (simp add: DisableFeature_def trim WithTx_def bindT_def SetDisabledFeature_def execT_def audit_Create_def store_io_def
        example_db_def empty_db_def)
  then obtain d1 where d1: "DisableFeature store_io (Some ''ops'') 1 ''loki'' ''  broken '' example_db = (Inr (), d1)" by blast
  have "LatestDisableReason store_io ''loki'' 1 d1 = strings_TrimSpace ''  broken ''"
    by (rule disable_reason_shown [OF d1, where rows = "[]"]) (simp_all add: example_db_def empty_db_def store_io_def)
  then show ?thesis using d1 trim by auto
qed

theorem assignment_creator_shown_witness:
  "\<exists>d1 m. Create example_downloader example_parser plain_encoders store_io (Some ''octocat'') example_inp example_db = (Inr (50, ''loki''), d1) \<and>
     AssignmentCreators example_externals store_io (\<lambda>s. Inr 50) [50] d1 = Inr m \<and> map_of m 50 = Some ''octocat''"
proof -
  let ?c = "Create example_downloader example_parser plain_encoders store_io (Some ''octocat'') example_inp example_db"
  have "fst ?c = Inr (50, ''loki'')"
    by (simp add: create_eval)
  then obtain d1 where c: "?c = (Inr (50, ''loki''), d1)" by (metis prod.collapse)
  have "\<exists>m. AssignmentCreators example_externals store_io (\<lambda>s. Inr 50) [50] d1 = Inr m \<and> map_of m 50 = Some (actorOrUnknown (Some ''octocat''))"
    by (rule assignment_creator_shown [OF c, where rows = "[]"]) (simp_all add: store_io_def example_db_def empty_db_def)
  moreover have "actorOrUnknown (Some ''octocat'') = ''octocat''" by (simp add: actorOrUnknown_def GetEmail_def UnauthorizedName_def)
  ultimately show ?thesis using c by auto
qed

end
