(* ===== verification/Config_Form.thy ===== *)
theory Config_Form
  imports Snapshot
begin

text \<open>
  Reading the values that operators type into the forms of the pages, \<open>internal/ui/components/config.go\<close>: a typed value becomes the JSON
  that a configuration row stores. JSON itself is a parameter (\<open>externals\<close>); \<open>fmt.Sscan\<close> of an integer, with its base prefixes,
  underscores and the input it leaves unread, is written out.
\<close>

section \<open>Scanning an integer\<close>

definition digit_value :: "char \<Rightarrow> nat" where
  "digit_value c =
     (let n = of_char c :: nat
      in if 48 \<le> n \<and> n \<le> 57 then n - 48 else if 97 \<le> n \<and> n \<le> 102 then n - 87 else n - 55)"

definition digits_value :: "nat \<Rightarrow> string \<Rightarrow> nat" where
  "digits_value base ds = foldl (\<lambda>n c. base * n + digit_value c) 0 (filter (\<lambda>c. c \<noteq> CHR ''_'') ds)"

text \<open>\<open>strconv\<close>: an underscore stands between two digits, or between the base prefix and a digit.\<close>

fun underscoreOK :: "bool \<Rightarrow> string \<Rightarrow> bool" where
  "underscoreOK afterDigit [] = True"
| "underscoreOK afterDigit (c # s) =
     (if c = CHR ''_'' then afterDigit \<and> s \<noteq> [] \<and> underscoreOK False s else underscoreOK True s)"

definition decimalDigits :: string where "decimalDigits = ''0123456789''"
definition octalDigits :: string where "octalDigits = ''01234567''"
definition binaryDigits :: string where "binaryDigits = ''01''"
definition hexadecimalDigits :: string where "hexadecimalDigits = ''0123456789aAbBcCdDeEfF''"

text \<open>The longest run of digits and underscores.\<close>

definition scan_run :: "string \<Rightarrow> string \<Rightarrow> string" where
  "scan_run digits s = takeWhile (\<lambda>c. c \<in> set (''_'' @ digits)) s"

text \<open>The value of a token whose digits follow a prefix, or which is all digits.\<close>

definition parse_run :: "bool \<Rightarrow> bool \<Rightarrow> nat \<Rightarrow> string \<Rightarrow> err + int" where
  "parse_run neg afterPrefix base ds =
     (if afterPrefix \<and> ds = [] \<or> \<not> underscoreOK afterPrefix ds then Inl (Errorf ''invalid syntax'')
      else let n = digits_value base ds
           in if neg \<and> 2 ^ 63 < n \<or> \<not> neg \<and> 2 ^ 63 \<le> n then Inl (Errorf ''value out of range'')
              else Inr (if neg then - int n else int n))"

text \<open>\<open>fmt.Sscan(s, &i)\<close> for an \<open>int\<close>; what follows the token stays unread.\<close>

definition Sscan_int :: "string \<Rightarrow> err + int" where
  "Sscan_int str =
     (case dropWhile is_space str of
        [] \<Rightarrow> Inl (Errorf ''EOF'')
      | c # s \<Rightarrow>
          let neg = (c = CHR ''-''); rest = (if c \<in> set ''+-'' then s else c # s)
          in case rest of
               [] \<Rightarrow> Inl (Errorf ''EOF'')
             | d # t \<Rightarrow>
                 if d = CHR ''0''
                 then (case t of
                     [] \<Rightarrow> Inr 0
                   | p # u \<Rightarrow>
                       if p \<in> set ''bB'' then parse_run neg True 2 (scan_run binaryDigits u)
                       else if p \<in> set ''oO'' then parse_run neg True 8 (scan_run octalDigits u)
                       else if p \<in> set ''xX'' then parse_run neg True 16 (scan_run hexadecimalDigits u)
                       else parse_run neg False 8 (d # scan_run octalDigits t))
                 else if d \<in> set (''_'' @ decimalDigits) then parse_run neg False 10 (scan_run decimalDigits rest)
                 else Inl (Errorf ''expected integer''))"

section \<open>Values of a form\<close>

text \<open>\<open>json.Unmarshal\<close> into a string and into a slice of strings: null leaves the zero value.\<close>

definition text_of :: "gval \<Rightarrow> string option" where
  "text_of v = (case v of GStr s \<Rightarrow> Some s | GNil \<Rightarrow> Some [] | _ \<Rightarrow> None)"

definition unmarshal_text :: "externals \<Rightarrow> string \<Rightarrow> err + string" where
  "unmarshal_text x raw = bindE (x_unmarshal x raw) (\<lambda>v. case text_of v of
      None \<Rightarrow> Inl (Errorf ''json: cannot unmarshal into Go value of type string'') | Some s \<Rightarrow> Inr s)"

definition unmarshal_strings :: "externals \<Rightarrow> string \<Rightarrow> err + gval" where
  "unmarshal_strings x raw = bindE (x_unmarshal x raw) (\<lambda>v. case v of
      GNil \<Rightarrow> Inr GNil
    | GList vs \<Rightarrow> if list_ex (\<lambda>v. text_of v = None) vs then Inl (Errorf ''json: cannot unmarshal into Go value of type string'')
                  else Inr (GList (map (\<lambda>v. GStr (the (text_of v))) vs))
    | _ \<Rightarrow> Inl (Errorf ''json: cannot unmarshal into Go value of type []string''))"

definition show_int :: "int \<Rightarrow> string" where
  "show_int n = (if n < 0 then CHR ''-'' # show_nat (nat (- n)) else show_nat (nat n))"

definition ParseConfigValue :: "externals \<Rightarrow> string \<Rightarrow> string \<Rightarrow> string \<Rightarrow> err + gval" where
  "ParseConfigValue x value configType mode =
     (if strings_ToUpper configType = ''INT'' then bindE (Sscan_int value) (\<lambda>i. Inr (GNum (show_int i)))
      else if strings_ToUpper configType = ''BOOL''
      then (if strings_ToLower value = ''true'' then Inr (GBool True)
            else if strings_ToLower value = ''false'' then Inr (GBool False)
            else Inl (Errorf ''invalid bool''))
      else if strings_ToUpper configType = ''STRING_ARRAY''
      then (if mode = ''json'' then wrapE ''invalid JSON array'' (unmarshal_strings x value)
            else case unmarshal_strings x value of
                Inr arr \<Rightarrow> Inr arr
              | Inl _ \<Rightarrow> Inr (GList (map (\<lambda>part. GStr (strings_TrimSpace part)) (strings_Split value (CHR '','')))))
      else if mode = ''json''
      then bindE (wrapE ''invalid JSON'' (x_unmarshal x value)) (\<lambda>v. bindE (x_marshal x v) (\<lambda>b. Inr (GStr b)))
      else Inr (GStr value))"

definition ParseConfigValueAuto :: "externals \<Rightarrow> string \<Rightarrow> string \<Rightarrow> err + gval" where
  "ParseConfigValueAuto x value configType =
     (let trimmed = strings_TrimSpace value
      in if length trimmed > 0 \<and> (trimmed ! 0 = CHR ''{'' \<or> trimmed ! 0 = CHR ''['')
         then wrapE ''invalid JSON'' (x_unmarshal x trimmed)
         else ParseConfigValue x value configType ''raw'')"

section \<open>Values of a page\<close>

text \<open>\<open>json.Indent\<close> and \<open>json.MarshalIndent\<close> with two spaces.\<close>

record json_indent =
  ji_Indent :: "string \<Rightarrow> err + string"
  ji_MarshalIndent :: "gval \<Rightarrow> err + string"

definition opens_json :: "string \<Rightarrow> bool" where
  "opens_json s \<longleftrightarrow> length s > 0 \<and> (s ! 0 = CHR ''{'' \<or> s ! 0 = CHR ''['')"

definition TryPrettyJSON :: "externals \<Rightarrow> json_indent \<Rightarrow> string \<Rightarrow> string \<times> bool" where
  "TryPrettyJSON x j s =
     (let trimmed = strings_TrimSpace s
      in if \<not> opens_json trimmed then (s, False)
         else case x_unmarshal x trimmed of
             Inl _ \<Rightarrow> (s, False)
           | Inr v \<Rightarrow> (case ji_MarshalIndent j v of Inl _ \<Rightarrow> (s, False) | Inr b \<Rightarrow> (b, True)))"

definition RawValueForDisplay :: "externals \<Rightarrow> json_indent \<Rightarrow> string \<Rightarrow> string" where
  "RawValueForDisplay x j raw =
     (if length raw = 0 then []
      else case unmarshal_text x raw of
          Inr s \<Rightarrow> (case ji_Indent j s of
              Inr buf \<Rightarrow> if opens_json s then strings_TrimSpace buf else s
            | Inl _ \<Rightarrow> s)
        | Inl _ \<Rightarrow> (case ji_Indent j raw of Inr buf \<Rightarrow> strings_TrimSpace buf | Inl _ \<Rightarrow> strings_TrimSpace raw))"

definition rawHasValue :: "externals \<Rightarrow> string \<Rightarrow> bool" where
  "rawHasValue x raw \<longleftrightarrow> length raw \<noteq> 0 \<and> (case x_unmarshal x raw of Inl _ \<Rightarrow> True | Inr v \<Rightarrow> v \<noteq> GNil)"

definition isEmptyConfigValue :: "externals \<Rightarrow> string \<Rightarrow> bool" where
  "isEmptyConfigValue x value \<longleftrightarrow> value = [] \<or> (case x_unmarshal x value of
      Inl _ \<Rightarrow> False
    | Inr v \<Rightarrow> (case v of GNil \<Rightarrow> True | GStr s \<Rightarrow> s = [] | GList vs \<Rightarrow> length vs = 0 | GMap kvs \<Rightarrow> length kvs = 0 | _ \<Rightarrow> False))"

section \<open>Integers survive the form\<close>

lemma decimal_digit:
  assumes "n < (10 :: nat)"
  shows "digit_value (char_of (48 + n)) = n" and "char_of (48 + n) \<in> set decimalDigits" and "char_of (48 + n) \<noteq> CHR ''_''"
    and "char_of (48 + n) = CHR ''0'' \<longleftrightarrow> n = 0" and "\<not> is_space (char_of (48 + n))" and "char_of (48 + n) \<notin> set ''+-''"
proof -
  have "n \<in> {0, 1, 2, 3, 4, 5, 6, 7, 8, 9}" using assms by auto
  then have "char_of (48 + n) \<in> set ''0123456789'' \<and> digit_value (char_of (48 + n)) = n \<and> (char_of (48 + n) = CHR ''0'' \<longleftrightarrow> n = 0)"
    by (elim insertE emptyE) (simp_all add: digit_value_def char_of_def bit_simps)
  then show "digit_value (char_of (48 + n)) = n" and "char_of (48 + n) \<in> set decimalDigits" and "char_of (48 + n) \<noteq> CHR ''_''"
    and "char_of (48 + n) = CHR ''0'' \<longleftrightarrow> n = 0" and "\<not> is_space (char_of (48 + n))" and "char_of (48 + n) \<notin> set ''+-''"
    by (auto simp: decimalDigits_def is_space_def)
qed

lemma show_digits_plain: "set (show_digits fuel n) \<subseteq> set decimalDigits"
proof (induction fuel arbitrary: n)
  case (Suc fuel)
  show ?case using Suc.IH [of "n div 10"] decimal_digit(2) [of n] decimal_digit(2) [of "n mod 10"] by simp
qed simp

lemma digits_value_append:
  "digits_value base (ds @ [c]) = (if c = CHR ''_'' then digits_value base ds else base * digits_value base ds + digit_value c)"
  by (simp add: digits_value_def)

lemma show_digits_value: "n < fuel \<Longrightarrow> digits_value 10 (show_digits fuel n) = n"
proof (induction fuel arbitrary: n)
  case (Suc fuel)
  show ?case
  proof (cases "n < 10")
    case True
    then show ?thesis using digits_value_append [of 10 "[]" "char_of (48 + n)"] by (simp add: decimal_digit digits_value_def)
  next
    case False
    then have "digits_value 10 (show_digits fuel (n div 10)) = n div 10" using Suc by (intro Suc.IH) auto
    then show ?thesis using False by (simp add: digits_value_append decimal_digit)
  qed
qed simp

lemma show_digits_head: "n < fuel \<Longrightarrow> \<exists>(d :: nat) ds. show_digits fuel n = char_of (48 + d) # ds \<and> d < 10 \<and> (d = 0 \<longrightarrow> n = 0 \<and> ds = [])"
proof (induction fuel arbitrary: n)
  case (Suc fuel)
  show ?case
  proof (cases "n < 10")
    case False
    have "n div 10 < fuel" using Suc.prems False by linarith
    then obtain d :: nat and ds where "show_digits fuel (n div 10) = char_of (48 + d) # ds" "d < 10" "d = 0 \<longrightarrow> n div 10 = 0 \<and> ds = []"
      using Suc.IH [of "n div 10"] by blast
    moreover have "d \<noteq> 0" using calculation False by auto
    moreover have "show_digits (Suc fuel) n = char_of (48 + d) # ds @ [char_of (48 + n mod 10)]" using calculation(1) False by simp
    ultimately show ?thesis by blast
  next
    case True
    then have "show_digits (Suc fuel) n = [char_of (48 + n)]" by simp
    with True show ?thesis by blast
  qed
qed simp

lemma underscoreOK_plain: "CHR ''_'' \<notin> set ds \<Longrightarrow> underscoreOK b ds"
  by (induction b ds rule: underscoreOK.induct) auto

lemma scan_run_plain:
  assumes "set ds \<subseteq> set digits" and "rest = [] \<or> hd rest \<notin> set (''_'' @ digits)"
  shows "scan_run digits (ds @ rest) = ds"
proof -
  have "takeWhile (\<lambda>c. c \<in> set (''_'' @ digits)) rest = []" using assms(2) by (cases rest) auto
  moreover have "\<forall>c \<in> set ds. c \<in> set (''_'' @ digits)" using assms(1) by auto
  ultimately show ?thesis by (simp add: scan_run_def takeWhile_append2)
qed

lemma parse_run_plain:
  assumes "CHR ''_'' \<notin> set ds" and "digits_value 10 ds = n" and "neg \<longrightarrow> n \<le> 2 ^ 63" and "\<not> neg \<longrightarrow> n < 2 ^ 63"
  shows "parse_run neg False 10 ds = Inr (if neg then - int n else int n)"
  using assms underscoreOK_plain [OF assms(1)] by (auto simp: parse_run_def Let_def)

lemma plain_no_underscore: "set ds \<subseteq> set decimalDigits \<Longrightarrow> CHR ''_'' \<notin> set ds"
  by (auto simp: decimalDigits_def)

text \<open>What may follow an integer in the input of the scan without being read as part of it.\<close>

definition ends_number :: "string \<Rightarrow> bool" where
  "ends_number rest \<longleftrightarrow> rest = [] \<or> hd rest \<notin> set (''_bBoOxX'' @ decimalDigits)"

lemma Sscan_int_unsigned:
  assumes "n < 2 ^ 63" and "ends_number rest"
  shows "Sscan_int (show_nat n @ rest) = Inr (int n)"
proof -
  let ?ds = "show_nat n"
  obtain d :: nat and ds where ds: "?ds = char_of (48 + d) # ds" "d < 10" "d = 0 \<longrightarrow> n = 0 \<and> ds = []"
    using show_digits_head [of n "Suc n"] unfolding show_nat_def by blast
  have sub: "set ?ds \<subseteq> set decimalDigits" unfolding show_nat_def by (rule show_digits_plain)
  have drop: "dropWhile is_space (?ds @ rest) = char_of (48 + d) # ds @ rest" using ds decimal_digit(5) by simp
  show ?thesis
  proof (cases "d = 0")
    case True
    then have c: "char_of (48 + d) = CHR ''0''" and n: "n = 0" "ds = []" using decimal_digit(4) [of 0] ds(3) by auto
    show ?thesis
    proof (cases rest)
      case Nil
      then show ?thesis using drop c n by (simp add: Sscan_int_def)
    next
      case (Cons p u)
      then have p: "p \<notin> set ''bB''" "p \<notin> set ''oO''" "p \<notin> set ''xX''" "p \<notin> set (''_'' @ octalDigits)"
        using assms(2) by (auto simp: ends_number_def octalDigits_def decimalDigits_def)
      then have "scan_run octalDigits (p # u) = []" by (simp add: scan_run_def)
      moreover have "parse_run False False 8 ''0'' = Inr 0" by (simp add: parse_run_def digits_value_def digit_value_def)
      ultimately show ?thesis using drop c n Cons p(1-3) by (simp add: Sscan_int_def)
    qed
  next
    case False
    have "rest = [] \<or> hd rest \<notin> set (''_'' @ decimalDigits)" using assms(2) by (auto simp: ends_number_def)
    then have "scan_run decimalDigits (?ds @ rest) = ?ds" using sub by (rule scan_run_plain [rotated])
    moreover have "parse_run False False 10 ?ds = Inr (int n)"
      using parse_run_plain [OF plain_no_underscore [OF sub], of n False] assms(1) show_digits_value [of n "Suc n"] by (simp add: show_nat_def)
    moreover have "char_of (48 + d) \<notin> set ''+-''" "char_of (48 + d) \<noteq> CHR ''0''" "char_of (48 + d) \<in> set (''_'' @ decimalDigits)"
      using decimal_digit [OF ds(2)] False by auto
    ultimately show ?thesis using drop ds(1) by (simp add: Sscan_int_def)
  qed
qed

lemma Sscan_int_signed:
  assumes "- (2 ^ 63) \<le> i" and "i < 2 ^ 63" and "ends_number rest"
  shows "Sscan_int (show_int i @ rest) = Inr i"
proof (cases "i < 0")
  case False
  then show ?thesis using Sscan_int_unsigned [of "nat i" rest] assms by (simp add: show_int_def nat_less_iff)
next
  case True
  let ?n = "nat (- i)"
  let ?ds = "show_nat ?n"
  obtain d :: nat and ds where ds: "?ds = char_of (48 + d) # ds" "d < 10" "d = 0 \<longrightarrow> ?n = 0 \<and> ds = []"
    using show_digits_head [of ?n "Suc ?n"] unfolding show_nat_def by blast
  have d: "d \<noteq> 0" using ds(3) True by auto
  have sub: "set ?ds \<subseteq> set decimalDigits" unfolding show_nat_def by (rule show_digits_plain)
  have "rest = [] \<or> hd rest \<notin> set (''_'' @ decimalDigits)" using assms(3) by (auto simp: ends_number_def)
  then have run: "scan_run decimalDigits (?ds @ rest) = ?ds" using sub by (rule scan_run_plain [rotated])
  have val: "digits_value 10 ?ds = ?n" unfolding show_nat_def by (rule show_digits_value) simp
  have "parse_run True False 10 ?ds = Inr (- int ?n)"
    using parse_run_plain [OF plain_no_underscore [OF sub] val, of True] assms(1) by simp
  moreover have "char_of (48 + d) \<noteq> CHR ''0''" "char_of (48 + d) \<in> set (''_'' @ decimalDigits)"
    using decimal_digit [OF ds(2)] d by auto
  ultimately show ?thesis using True run ds(1) by (simp add: Sscan_int_def show_int_def is_space_def)
qed

text \<open>
  Integers survive the form: an integer of 64 bits, printed as the page prints it, is read back and stored as the same
  number; but so is any input that begins with it and goes on with something that is no digit.
\<close>

theorem ParseConfigValue_int:
  assumes "- (2 ^ 63) \<le> i" and "i < 2 ^ 63" and "ends_number rest" and "strings_ToUpper configType = ''INT''"
  shows "ParseConfigValue x (show_int i @ rest) configType mode = Inr (GNum (show_int i))"
  using Sscan_int_signed [OF assms(1-3)] assms(4) by (simp add: ParseConfigValue_def)

theorem ParseConfigValue_int_witness:
  "ParseConfigValue example_externals (show_int (- 12) @ '' apples'') ''int'' ''raw'' = Inr (GNum (show_int (- 12)))"
  by (rule ParseConfigValue_int) (simp_all add: ends_number_def decimalDigits_def strings_ToUpper_def char_upper_def char_of_def bit_simps)

text \<open>A leading zero makes the number octal, and an octal number ends before the first digit that is not octal.\<close>

lemma Sscan_int_octal: "Sscan_int ''010'' = Inr 8" "Sscan_int ''08'' = Inr 0" "Sscan_int ''1_000'' = Inr 1000" "Sscan_int ''0x10'' = Inr 16"
  by (simp_all add: Sscan_int_def is_space_def parse_run_def scan_run_def octalDigits_def decimalDigits_def hexadecimalDigits_def
      digits_value_def digit_value_def)

end
