(* ===== verification/Page_Writes.thy ===== *)
theory Page_Writes
  imports Config_Form Http_Api
begin

text \<open>
  The handlers of the pages that write, \<open>internal/ui/pages\<close>: configuration of an environment (\<open>environment/feature.go\<close>) and of all environments
  (\<open>features/feature_config.go\<close>), the reconcile switch, manual redeploys and uninstalls, and the assignments. The router has matched the path and
  hands over its parameters. The reply to a success is a redirect, given as the address that is handed to \<open>http.Redirect\<close>.

  The state is the tables, the messages and the pending triggers of the reconciler.
\<close>

section \<open>Requests\<close>

record request =
  re_URLParam :: "(string, string) gomap"
  re_Form :: "(string, string list) gomap"
  re_PostForm :: "(string, string list) gomap"
  re_ParseFails :: bool
  re_Host :: string
  re_Referer :: string
  re_Email :: "string option"

record page_libs =
  pl_uuid :: "string \<Rightarrow> err + uuid"
  pl_url :: "string \<Rightarrow> err + string \<times> string"
  pl_labels :: "string \<Rightarrow> Labels \<Rightarrow> bool \<times> Labels"

definition URLParam :: "request \<Rightarrow> string \<Rightarrow> string" where
  "URLParam r k = (case map_of (re_URLParam r) k of None \<Rightarrow> [] | Some v \<Rightarrow> v)"

definition first_value :: "(string, string list) gomap \<Rightarrow> string \<Rightarrow> string" where
  "first_value form k = (case map_of form k of Some (v # vs) \<Rightarrow> v | _ \<Rightarrow> [])"

definition FormValue :: "request \<Rightarrow> string \<Rightarrow> string" where
  "FormValue r k = first_value (re_Form r) k"

definition PostFormValue :: "request \<Rightarrow> string \<Rightarrow> string" where
  "PostFormValue r k = first_value (re_PostForm r) k"

type_synonym page_state = "world \<times> nat"

text \<open>An operation on the tables in the state of the pages, and a statement inside the transaction of the handler.\<close>

definition on_tables :: "'a op \<Rightarrow> world \<Rightarrow> (err + 'a) \<times> world" where
  "on_tables m w = (case m (w_db w) of (r, d') \<Rightarrow> (r, w \<lparr>w_db := d'\<rparr>))"

definition in_tx :: "io \<Rightarrow> nat \<Rightarrow> io" where
  "in_tx io i = io \<lparr>io_fails := (\<lambda>q. q \<noteq> ''begin'' \<and> q \<noteq> ''commit'' \<and> io_fails io q), io_diid := (\<lambda>k. io_diid io (i + k))\<rparr>"

text \<open>A handler fails with a status and the text of the error, or triggers the reconciler and redirects.\<close>

definition fails_with :: "nat \<Rightarrow> string \<Rightarrow> err \<Rightarrow> 'a reply" where
  "fails_with code msg e = (if is_panic e then Dropped (Error e) else HttpError code (msg @ Error e))"

definition redirect :: "string \<Rightarrow> string reply" where
  "redirect dest = Reply 303 dest"

section \<open>Addresses\<close>

definition featureBasePathValues :: "string \<Rightarrow> string \<Rightarrow> string \<Rightarrow> string" where
  "featureBasePathValues tenant env feature = ''/features/'' @ feature @ ''/envs/'' @ tenant @ ''/'' @ env"

definition featureBasePath :: "request \<Rightarrow> string" where
  "featureBasePath r = featureBasePathValues (URLParam r ''tenant'') (URLParam r ''env'') (URLParam r ''feature'')"

definition redirectOrDefault :: "request \<Rightarrow> string \<Rightarrow> string" where
  "redirectOrDefault r defaultURL =
     (let dest = FormValue r ''redirect'' in if dest \<noteq> [] \<and> hd dest = CHR ''/'' then dest else defaultURL)"

section \<open>Configuration of an environment\<close>

definition page_environment :: "io \<Rightarrow> request \<Rightarrow> db \<Rightarrow> err + Tenant \<times> Environment" where
  "page_environment io r d =
     bindE (GetTenantByName io (URLParam r ''tenant'') d) (\<lambda>tenant.
     bindE (environment_GetByName io (t_ID tenant) (URLParam r ''env'') d) (\<lambda>env. Inr (tenant, env)))"

definition form_value :: "externals \<Rightarrow> request \<Rightarrow> string \<Rightarrow> string reply + string" where
  "form_value x r invalid =
     (case ParseConfigValue x (FormValue r ''value'') (FormValue r ''type'') (FormValue r ''mode'') of
        Inl e \<Rightarrow> Inl (HttpError 400 (invalid @ Error e))
      | Inr value \<Rightarrow> (case x_marshal x value of Inl e \<Rightarrow> Inl (HttpError 400 ''Failed to encode value'') | Inr raw \<Rightarrow> Inr raw))"

definition declared_secret :: "Feature \<Rightarrow> string \<Rightarrow> bool" where
  "declared_secret feat key = (case map_of (f_Values feat) key of
      None \<Rightarrow> False | Some v \<Rightarrow> (case v_Config v of None \<Rightarrow> False | Some c \<Rightarrow> cfg_Secret c))"

definition new_env_config :: "uuid \<Rightarrow> string \<Rightarrow> Feature \<Rightarrow> string \<Rightarrow> string \<Rightarrow> NewConfiguration" where
  "new_env_config envID featureName feat key raw =
     \<lparr>nc_EnvironmentID = Some envID, nc_Feature = featureName, nc_Description = None, nc_Key = key, nc_Value = raw,
      nc_Secret = declared_secret feat key\<rparr>"

definition feature_status :: "err \<Rightarrow> nat" where
  "feature_status e = (if errors_Is e ErrFeatureNotFound then 404 else 500)"

text \<open>The result of an operation on the tables: an error, or a trigger and a redirect.\<close>

definition finish :: "string \<Rightarrow> string \<Rightarrow> nat \<Rightarrow> (err + 'a) \<times> world \<Rightarrow> string reply \<times> page_state" where
  "finish failed dest pending res =
     (case res of (Inl e, w) \<Rightarrow> (fails_with 500 failed e, w, pending) | (Inr a, w) \<Rightarrow> (redirect dest, w, TriggerReconcile pending))"

definition UpdateConfigHandler :: "externals \<Rightarrow> page_libs \<Rightarrow> io \<Rightarrow> request \<Rightarrow> page_state \<Rightarrow> string reply \<times> page_state" where
  "UpdateConfigHandler x l io r st =
     (if re_ParseFails r then (HttpError 400 ''Invalid form data'', st)
      else case pl_uuid l (URLParam r ''id'') of
        Inl e \<Rightarrow> (HttpError 400 ''Invalid configuration id'', st)
      | Inr configID \<Rightarrow> (case form_value x r ''Invalid value format: '' of
          Inl reply \<Rightarrow> (reply, st)
        | Inr raw \<Rightarrow> finish ''Failed to update configuration: '' (featureBasePath r @ ''/config'') (snd st)
            (on_tables (WithTx io (UpdateEnvConfig (in_tx io 0) (re_Email r) configID \<lparr>uc_Description = None, uc_Value = raw\<rparr>)) (fst st))))"

definition deleteConfigHandler :: "page_libs \<Rightarrow> (io \<Rightarrow> string option \<Rightarrow> uuid \<Rightarrow> unit op) \<Rightarrow> io \<Rightarrow> request \<Rightarrow> page_state \<Rightarrow> string reply \<times> page_state" where
  "deleteConfigHandler l deleteConfig io r st =
     (case pl_uuid l (URLParam r ''id'') of
        Inl e \<Rightarrow> (HttpError 400 ''Invalid configuration id'', st)
      | Inr configID \<Rightarrow> finish ''Failed to delete configuration: '' (featureBasePath r @ ''/config'') (snd st)
          (on_tables (WithTx io (deleteConfig (in_tx io 0) (re_Email r) configID)) (fst st)))"

definition DeleteConfigHandler :: "page_libs \<Rightarrow> io \<Rightarrow> request \<Rightarrow> page_state \<Rightarrow> string reply \<times> page_state" where
  "DeleteConfigHandler l = deleteConfigHandler l DeleteEnvConfig"

definition DeleteGlobalConfigHandler :: "page_libs \<Rightarrow> io \<Rightarrow> request \<Rightarrow> page_state \<Rightarrow> string reply \<times> page_state" where
  "DeleteGlobalConfigHandler l = deleteConfigHandler l DeleteConfig"

definition ConfigOverrideSubmitHandler :: "externals \<Rightarrow> io \<Rightarrow> request \<Rightarrow> page_state \<Rightarrow> string reply \<times> page_state" where
  "ConfigOverrideSubmitHandler x io r st =
     (if re_ParseFails r then (HttpError 400 ''Invalid form data'', st)
      else case page_environment io r (w_db (fst st)) of
        Inl e \<Rightarrow> (fails_with 500 ''Failed to get environment: '' e, st)
      | Inr (tenant, env) \<Rightarrow> (case form_value x r ''Invalid value format: '' of
          Inl reply \<Rightarrow> (reply, st)
        | Inr raw \<Rightarrow> (case FeatureForEnvironment x io (e_ID env) (URLParam r ''feature'') (w_db (fst st)) of
            Inl e \<Rightarrow> (fails_with (feature_status e) ''Failed to get feature: '' e, st)
          | Inr feat \<Rightarrow> finish ''Failed to create configuration: '' (featureBasePath r @ ''/config'') (snd st)
              (on_tables (WithTx io (CreateEnvConfig x (in_tx io 0) (re_Email r)
                 (new_env_config (e_ID env) (URLParam r ''feature'') feat (FormValue r ''key'') raw))) (fst st)))))"

subsection \<open>Many rows at once\<close>

definition BulkKeysField :: string where "BulkKeysField = ''keys''"
definition BulkValueField :: "string \<Rightarrow> string" where "BulkValueField key = ''value:'' @ key"
definition BulkOrigField :: "string \<Rightarrow> string" where "BulkOrigField key = ''orig:'' @ key"
definition BulkTypeField :: "string \<Rightarrow> string" where "BulkTypeField key = ''type:'' @ key"
definition BulkIDField :: "string \<Rightarrow> string" where "BulkIDField key = ''id:'' @ key"

text \<open>One row of the form inside the transaction: whether it changed.\<close>

definition batch_key :: "externals \<Rightarrow> page_libs \<Rightarrow> io \<Rightarrow> request \<Rightarrow> uuid \<Rightarrow> Feature \<Rightarrow> string \<Rightarrow> bool op" where
  "batch_key x l io r envID feat key =
     (let newValue = PostFormValue r (BulkValueField key)
      in if newValue = PostFormValue r (BulkOrigField key) then returnT False
         else case ParseConfigValueAuto x newValue (PostFormValue r (BulkTypeField key)) of
           Inl e \<Rightarrow> liftT (Inl (configParseError key e))
         | Inr value \<Rightarrow> (case x_marshal x value of
             Inl e \<Rightarrow> liftT (Inl (Wrap (key @ '': encode value'') e))
           | Inr raw \<Rightarrow>
               let cid = PostFormValue r (BulkIDField key)
               in if cid \<noteq> []
                  then (case pl_uuid l cid of
                      Inl e \<Rightarrow> liftT (Inl (Wrap (key @ '': invalid configuration id'') e))
                    | Inr configID \<Rightarrow> bindT (wrapT key (UpdateEnvConfig io (re_Email r) configID \<lparr>uc_Description = None, uc_Value = raw\<rparr>))
                        (\<lambda>c. returnT True))
                  else bindT (wrapT key (CreateEnvConfig x io (re_Email r) (new_env_config envID (URLParam r ''feature'') feat key raw)))
                        (\<lambda>c. returnT True)))"

fun batch_keys :: "externals \<Rightarrow> page_libs \<Rightarrow> io \<Rightarrow> request \<Rightarrow> uuid \<Rightarrow> Feature \<Rightarrow> string list \<Rightarrow> nat \<Rightarrow> nat \<Rightarrow> nat op" where
  "batch_keys x l io r envID feat [] i changed = returnT changed"
| "batch_keys x l io r envID feat (key # keys) i changed =
     bindT (batch_key x l (in_tx io i) r envID feat key) (\<lambda>written.
       batch_keys x l io r envID feat keys (Suc i) (if written then Suc changed else changed))"

definition BatchUpdateConfigHandler :: "externals \<Rightarrow> page_libs \<Rightarrow> io \<Rightarrow> request \<Rightarrow> page_state \<Rightarrow> string reply \<times> page_state" where
  "BatchUpdateConfigHandler x l io r st =
     (if re_ParseFails r then (HttpError 400 ''Invalid form data'', st)
      else case page_environment io r (w_db (fst st)) of
        Inl e \<Rightarrow> (fails_with 500 ''Failed to get environment: '' e, st)
      | Inr (tenant, env) \<Rightarrow> (case FeatureForEnvironment x io (e_ID env) (URLParam r ''feature'') (w_db (fst st)) of
          Inl e \<Rightarrow> (fails_with (feature_status e) ''Failed to get feature: '' e, st)
        | Inr feat \<Rightarrow>
            let keys = (case map_of (re_PostForm r) BulkKeysField of None \<Rightarrow> [] | Some ks \<Rightarrow> ks)
            in case on_tables (WithTx io (batch_keys x l io r (e_ID env) feat keys 0 0)) (fst st) of
                 (Inl e, w) \<Rightarrow> (fails_with (case e of configParseError k e' \<Rightarrow> 400 | _ \<Rightarrow> 500) ''Failed to update configuration: '' e, w, snd st)
               | (Inr changed, w) \<Rightarrow> (redirect (featureBasePath r @ ''/config''), w,
                    if changed > 0 then TriggerReconcile (snd st) else snd st)))"

section \<open>The reconcile switch, redeploys and uninstalls\<close>

definition ToggleFeatureStateHandler :: "externals \<Rightarrow> io \<Rightarrow> request \<Rightarrow> page_state \<Rightarrow> string reply \<times> page_state" where
  "ToggleFeatureStateHandler x io r st =
     (if re_ParseFails r then (HttpError 400 ''Invalid form data'', st)
      else case page_environment io r (w_db (fst st)) of
        Inl e \<Rightarrow> (fails_with 500 ''Failed to get environment: '' e, st)
      | Inr (tenant, env) \<Rightarrow> (case FeatureForEnvironment x io (e_ID env) (URLParam r ''feature'') (w_db (fst st)) of
          Inl e \<Rightarrow> (fails_with (feature_status e) ''Failed to get feature: '' e, st)
        | Inr feature \<Rightarrow>
            let enabled = (FormValue r ''enabled'' = ''true''); reason = strings_TrimSpace (FormValue r ''reason'')
            in if \<not> enabled \<and> reason = [] then (HttpError 400 ''A reason is required to disable reconcile.'', st)
               else if \<not> enabled \<and> length reason > 1000 then (HttpError 400 ''Reason must be at most 1000 characters.'', st)
               else finish ''Failed to toggle feature state: '' (redirectOrDefault r (featureBasePath r)) (snd st)
                 (on_tables (if enabled then EnableFeature io (re_Email r) (e_ID env) (f_Name feature)
                    else DisableFeature io (re_Email r) (e_ID env) (f_Name feature) reason) (fst st))))"

definition feature_event :: "string \<Rightarrow> string \<Rightarrow> uuid \<Rightarrow> gval option \<Rightarrow> CreateParams" where
  "feature_event action name envID metadata =
     \<lparr>ap_Action = action, ap_Description = [], ap_ObjectType = ObjectTypeFeature, ap_ObjectID = name, ap_Feature = name,
      ap_EnvironmentID = Some envID, ap_Metadata = metadata\<rparr>"

text \<open>\<open>reconciler.FromContext\<close> may find no reconciler; a reconciler may have no deployer.\<close>

definition RedeployHandler ::
  "externals \<Rightarrow> string \<Rightarrow> io \<Rightarrow> Deployer option option \<Rightarrow> request \<Rightarrow> page_state \<Rightarrow> string reply \<times> page_state" where
  "RedeployHandler x aud io rec r st =
     (case page_environment io r (w_db (fst st)) of
        Inl e \<Rightarrow> (fails_with 500 ''Failed to get environment: '' e, st)
      | Inr (tenant, env) \<Rightarrow> (case FeatureForEnvironment x io (e_ID env) (URLParam r ''feature'') (w_db (fst st)) of
          Inl e \<Rightarrow> (fails_with (feature_status e) ''Failed to get feature: '' e, st)
        | Inr feature \<Rightarrow> (case rec of
            None \<Rightarrow> (HttpError 500 ''Reconciler unavailable'', st)
          | Some deployer \<Rightarrow> (case Redeploy x aud io deployer (e_ID env) (f_Name feature) (fst st) of
              (Inl e, w) \<Rightarrow> (if errors_Is e ErrRedeployNotSettled \<or> errors_Is e ErrRedeployTargetNotFound
                 then redirect (redirectOrDefault r (featureBasePath r)) else fails_with 500 ''Failed to redeploy: '' e, w, snd st)
            | (Inr u, w) \<Rightarrow> (case on_tables (audit_Create io (re_Email r) (feature_event ActionRedeploy (f_Name feature) (e_ID env) None)) w of
                  (Inl e, w') \<Rightarrow> (fails_with 500 ''Failed to record audit entry: '' e, w', snd st)
                | (Inr u, w') \<Rightarrow> (redirect (redirectOrDefault r (featureBasePath r)), w', snd st))))))"

definition UninstallReleaseHandler ::
  "io \<Rightarrow> Deployer option option \<Rightarrow> uuid \<Rightarrow> request \<Rightarrow> page_state \<Rightarrow> string reply \<times> page_state" where
  "UninstallReleaseHandler io rec diid r st =
     (case page_environment io r (w_db (fst st)) of
        Inl e \<Rightarrow> (fails_with 500 ''Failed to get environment: '' e, st)
      | Inr (tenant, env) \<Rightarrow> (case rec of
          None \<Rightarrow> (HttpError 500 ''Reconciler unavailable'', st)
        | Some deployer \<Rightarrow> (case Uninstall deployer diid (t_Name tenant) (e_Name env) (URLParam r ''release'') (fst st) of
            (Inl e, w) \<Rightarrow> (if errors_Is e ErrUninstallProtected then fails_with 400 ''Release cannot be uninstalled: '' e
               else fails_with 500 ''Failed to uninstall: '' e, w, snd st)
          | (Inr diid, w) \<Rightarrow> (case on_tables (audit_Create io (re_Email r) (feature_event ActionUninstall (URLParam r ''release'') (e_ID env)
                 (Some (GSMap [(''diid'', uuid_String diid)])))) w of
                (Inl e, w') \<Rightarrow> (fails_with 500 ''Failed to record audit entry: '' e, w', snd st)
              | (Inr u, w') \<Rightarrow> (redirect (''/tenants/'' @ URLParam r ''tenant'' @ ''/envs/'' @ URLParam r ''env'' @ ''?tab=helm''), w', snd st)))))"

section \<open>Configuration of all environments\<close>

definition features_config_path :: "request \<Rightarrow> string" where
  "features_config_path r = ''/features/'' @ URLParam r ''feature'' @ ''/config''"

definition UpdateGlobalConfigHandler :: "externals \<Rightarrow> page_libs \<Rightarrow> io \<Rightarrow> request \<Rightarrow> page_state \<Rightarrow> string reply \<times> page_state" where
  "UpdateGlobalConfigHandler x l io r st =
     (if re_ParseFails r then (HttpError 400 ''Invalid form data'', st)
      else case pl_uuid l (URLParam r ''id'') of
        Inl e \<Rightarrow> (HttpError 400 ''Invalid configuration id'', st)
      | Inr configID \<Rightarrow> (case form_value x r ''Invalid value: '' of
          Inl reply \<Rightarrow> (reply, st)
        | Inr raw \<Rightarrow> finish ''Failed to update: '' (features_config_path r) (snd st)
            (on_tables (WithTx io (UpdateConfig (in_tx io 0) (re_Email r) configID \<lparr>uc_Description = None, uc_Value = raw\<rparr>)) (fst st))))"

definition features_DeleteGlobalConfigHandler :: "page_libs \<Rightarrow> io \<Rightarrow> request \<Rightarrow> page_state \<Rightarrow> string reply \<times> page_state" where
  "features_DeleteGlobalConfigHandler l io r st =
     (case pl_uuid l (URLParam r ''id'') of
        Inl e \<Rightarrow> (HttpError 400 ''Invalid configuration id'', st)
      | Inr configID \<Rightarrow> finish ''Failed to delete: '' (features_config_path r) (snd st)
          (on_tables (WithTx io (DeleteConfig (in_tx io 0) (re_Email r) configID)) (fst st)))"

definition SetGlobalConfigHandler :: "externals \<Rightarrow> io \<Rightarrow> request \<Rightarrow> page_state \<Rightarrow> string reply \<times> page_state" where
  "SetGlobalConfigHandler x io r st =
     (if re_ParseFails r then (HttpError 400 ''Invalid form data'', st)
      else if FormValue r ''key'' = [] then (HttpError 400 ''Key is required'', st)
      else case FeatureByName x io (URLParam r ''feature'') (w_db (fst st)) of
        Inl e \<Rightarrow> (if is_panic e then Dropped (Error e) else HttpError 404 ''Feature not found'', st)
      | Inr feat \<Rightarrow> (case form_value x r ''Invalid value: '' of
          Inl reply \<Rightarrow> (reply, st)
        | Inr raw \<Rightarrow> finish ''Failed to save: '' (features_config_path r) (snd st)
            (on_tables (WithTx io (CreateGlobalConfig x (in_tx io 0) (re_Email r)
              \<lparr>nc_EnvironmentID = None, nc_Feature = URLParam r ''feature'', nc_Description = None, nc_Key = FormValue r ''key'', nc_Value = raw,
               nc_Secret = declared_secret feat (FormValue r ''key'')\<rparr>)) (fst st))))"

section \<open>Assignments\<close>

definition requestedVersion :: "(string, string list) gomap \<Rightarrow> string" where
  "requestedVersion form =
     (let version = strings_TrimSpace (first_value form ''version'')
      in if version = ''__custom__'' then strings_TrimSpace (first_value form ''version_custom'') else version)"

text \<open>The labels picked one by one, and those typed as text: JSON or a line for each label.\<close>

fun picked_labels :: "string list \<Rightarrow> Labels \<Rightarrow> string reply + Labels" where
  "picked_labels [] target = Inr target"
| "picked_labels (raw # raws) target =
     (if raw = [] then picked_labels raws target
      else case strings_Cut raw (CHR ''='') of (k, v, ok) \<Rightarrow>
        if \<not> ok \<or> k = [] then Inl (HttpError 400 (''invalid target_label: '' @ raw))
        else picked_labels raws (gm_put k v target))"

fun typed_labels :: "string list \<Rightarrow> Labels \<Rightarrow> string reply + Labels" where
  "typed_labels [] target = Inr target"
| "typed_labels (l # ls) target =
     (let line = strings_TrimSpace l
      in if line = [] then typed_labels ls target
         else case strings_Cut line (CHR ''='') of (k, v, ok) \<Rightarrow>
           if \<not> ok \<or> k = [] then Inl (HttpError 400 (''invalid target label: '' @ line))
           else typed_labels ls (gm_put (strings_TrimSpace k) (strings_TrimSpace v) target))"

definition form_target :: "page_libs \<Rightarrow> request \<Rightarrow> string reply + Labels" where
  "form_target l r =
     (case picked_labels (case map_of (re_Form r) ''target_label'' of None \<Rightarrow> [] | Some vs \<Rightarrow> vs) [] of
        Inl reply \<Rightarrow> Inl reply
      | Inr target \<Rightarrow>
          let raw = strings_TrimSpace (FormValue r ''target_labels_raw'')
          in if raw = [] then Inr target
             else case pl_labels l raw target of (ok, target') \<Rightarrow>
               if ok then Inr target' else typed_labels (strings_Split raw (CHR 0x0A)) target')"

definition newAssignmentDetailURL :: "page_libs \<Rightarrow> string \<Rightarrow> uuid \<Rightarrow> string" where
  "newAssignmentDetailURL l refererPath u =
     (let parts = strings_Split (strings_Trim refererPath (CHR ''/'')) (CHR ''/'')
      in if length parts \<noteq> 4 \<or> parts ! 0 \<noteq> ''features'' \<or> parts ! 2 \<noteq> ''assignments'' then []
         else case pl_uuid l (parts ! 3) of
             Inl e \<Rightarrow> []
           | Inr _ \<Rightarrow> ''/features/'' @ parts ! 1 @ ''/assignments/'' @ uuid_String u)"

definition create_redirect :: "page_libs \<Rightarrow> request \<Rightarrow> uuid \<Rightarrow> string" where
  "create_redirect l r u =
     (if re_Referer r = [] then ''/assignments''
      else case pl_url l (re_Referer r) of
          Inl e \<Rightarrow> ''/assignments''
        | Inr (host, path) \<Rightarrow>
            if host \<noteq> re_Host r then ''/assignments''
            else let detailURL = newAssignmentDetailURL l path u in if detailURL \<noteq> [] then detailURL else path)"

definition CreateHandler ::
  "page_libs \<Rightarrow> (string \<Rightarrow> string \<Rightarrow> err + Feature) \<Rightarrow> (string \<Rightarrow> err + node) \<Rightarrow> encoders \<Rightarrow> io \<Rightarrow> request \<Rightarrow> page_state \<Rightarrow> string reply \<times> page_state" where
  "CreateHandler l dl parser j io r st =
     (if re_ParseFails r then (HttpError 400 ''Invalid form data'', st)
      else let chart = strings_TrimSpace (FormValue r ''chart''); version = requestedVersion (re_Form r);
               description = strings_TrimSpace (FormValue r ''description'')
           in if chart = [] \<or> version = [] then (HttpError 400 ''chart and version are required'', st)
              else case form_target l r of
                Inl reply \<Rightarrow> (reply, st)
              | Inr target \<Rightarrow>
                  (case on_tables (Create dl parser j io (re_Email r) \<lparr>ca_Chart = chart, ca_Version = version,
                      ca_Description = (if description \<noteq> [] then Some description else None), ca_Commit = None, ca_Target = target\<rparr>) (fst st) of
                     (Inl e, w) \<Rightarrow> (fails_with 500 ''Failed to create assignment: '' e, w, snd st)
                   | (Inr (u, name), w) \<Rightarrow> (redirect (create_redirect l r u), w, TriggerReconcile (snd st))))"

definition deactivateRedirect :: "page_libs \<Rightarrow> request \<Rightarrow> string" where
  "deactivateRedirect l r =
     (if FormValue r ''redirect'' \<noteq> [] \<and> strings_HasPrefix (FormValue r ''redirect'') ''/'' then FormValue r ''redirect''
      else if re_Referer r = [] then ''/assignments''
      else case pl_url l (re_Referer r) of
          Inl e \<Rightarrow> ''/assignments''
        | Inr (host, path) \<Rightarrow> if host = re_Host r \<and> strings_HasPrefix path ''/features/'' then path else ''/assignments'')"

definition deactivateRedirectForFeature :: "page_libs \<Rightarrow> io \<Rightarrow> request \<Rightarrow> string \<Rightarrow> db \<Rightarrow> string" where
  "deactivateRedirectForFeature l io r featureName d =
     (case HasActiveAssignments io featureName d of
        Inr False \<Rightarrow> ''/features'' | _ \<Rightarrow> deactivateRedirect l r)"

definition DeactivateHandler :: "page_libs \<Rightarrow> io \<Rightarrow> request \<Rightarrow> page_state \<Rightarrow> string reply \<times> page_state" where
  "DeactivateHandler l io r st =
     (case pl_uuid l (URLParam r ''id'') of
        Inl e \<Rightarrow> (HttpError 500 ''Failed to parse assignment ID'', st)
      | Inr u \<Rightarrow> (case on_tables (Deactivate io (re_Email r) u) (fst st) of
          (Inl e, w) \<Rightarrow> (fails_with 500 ''Failed to deactivate assignment: '' e, w, snd st)
        | (Inr featureName, w) \<Rightarrow> (redirect (deactivateRedirectForFeature l io r featureName (w_db w)), w, TriggerReconcile (snd st))))"

definition DeactivateByFeatureAndTargetHandler :: "externals \<Rightarrow> page_libs \<Rightarrow> io \<Rightarrow> request \<Rightarrow> page_state \<Rightarrow> string reply \<times> page_state" where
  "DeactivateByFeatureAndTargetHandler x l io r st =
     (case pl_uuid l (URLParam r ''id'') of
        Inl e \<Rightarrow> (HttpError 500 ''Failed to parse assignment ID'', st)
      | Inr u \<Rightarrow> (case featureassignment_Get x io u (w_db (fst st)) of
          Inl e \<Rightarrow> (fails_with 500 ''Failed to load assignment: '' e, st)
        | Inr fa \<Rightarrow> (case on_tables (DeactivateByFeatureAndTarget io (re_Email r) (f_Name (as_Feature fa)) (as_TargetLabels fa)) (fst st) of
            (Inl e, w) \<Rightarrow> (fails_with 500 ''Failed to deactivate assignments: '' e, w, snd st)
          | (Inr _, w) \<Rightarrow> (redirect (deactivateRedirectForFeature l io r (f_Name (as_Feature fa)) (w_db w)), w, TriggerReconcile (snd st)))))"

section \<open>A refused request leaves no trace\<close>

definition redirected :: "'a reply \<Rightarrow> bool" where
  "redirected reply \<longleftrightarrow> (case reply of Reply code a \<Rightarrow> code = 303 | _ \<Rightarrow> False)"

lemma redirected_simps [simp]:
  "redirected (Reply 303 a)" "\<not> redirected (HttpError c m)" "\<not> redirected (Dropped m)" "redirected (redirect dest)" "\<not> redirected (fails_with c m e)"
  by (simp_all add: redirected_def redirect_def fails_with_def)

text \<open>What a handler of one transactional write does: nothing, or what the write does, and a trigger.\<close>

definition all_or_nothing :: "(db \<Rightarrow> db \<Rightarrow> bool) \<Rightarrow> page_state \<Rightarrow> string reply \<times> page_state \<Rightarrow> bool" where
  "all_or_nothing R st res = (case res of (reply, w, pending) \<Rightarrow>
     if redirected reply then R (w_db (fst st)) (w_db w) \<and> w_sent w = w_sent (fst st) \<and> pending = TriggerReconcile (snd st)
     else (w, pending) = st)"

lemma all_or_nothing_refused [simp]: "\<not> redirected reply \<Longrightarrow> all_or_nothing R st (reply, st)"
  by (cases st) (simp add: all_or_nothing_def)

lemma all_or_nothing_finish:
  assumes "\<And>d. case m d of (res, d') \<Rightarrow> if isl res then d' = d else Q d d'"
    and "\<And>d'. Q (w_db (fst st)) d' \<Longrightarrow> R (w_db (fst st)) d'"
  shows "all_or_nothing R st (finish failed dest (snd st) (on_tables m (fst st)))"
proof (cases "m (w_db (fst st))")
  case (Pair res d')
  then show ?thesis using assms(1) [of "w_db (fst st)"] assms(2) by (cases res; cases st) (auto simp: all_or_nothing_def finish_def on_tables_def)
qed

text \<open>The audit row of a success: one more, in the name of the request's user.\<close>

definition audited_as :: "request \<Rightarrow> string \<Rightarrow> string \<Rightarrow> db \<Rightarrow> db \<Rightarrow> bool" where
  "audited_as r action objectType d d' \<longleftrightarrow> (\<exists>row. audits d' = audits d @ [row] \<and> au_actor row = actorOrUnknown (re_Email r) \<and>
     au_action row = action \<and> au_object_type row = objectType)"

text \<open>
  What the writes do when they succeed, by what the request names. A row that already is as asked for, or that is not there to be
  deleted, leaves everything as it was; otherwise the named rows change as stated, nothing else but the audit log does, and the change
  is audited.
\<close>

definition env_config_updated :: "io \<Rightarrow> request \<Rightarrow> uuid \<Rightarrow> string \<Rightarrow> db \<Rightarrow> db \<Rightarrow> bool" where
  "env_config_updated io r cid raw d d' \<longleftrightarrow>
     (\<exists>c. find (\<lambda>c. c_ID c = cid) (configurations_environment d) = Some c \<and>
       (if c_Value c = raw \<and> c_Description c = None then d' = d
        else audited_as r ActionUpdated ObjectTypeConfiguration d d' \<and> (\<exists>j. io_jsonb io raw = Some j \<and>
          d' = d \<lparr>configurations_environment := map (\<lambda>c. if c_ID c = cid then c \<lparr>c_Description := None, c_Value := j\<rparr> else c)
                   (configurations_environment d), audits := audits d'\<rparr>)))"

definition global_config_updated :: "io \<Rightarrow> request \<Rightarrow> uuid \<Rightarrow> string \<Rightarrow> db \<Rightarrow> db \<Rightarrow> bool" where
  "global_config_updated io r cid raw d d' \<longleftrightarrow>
     (\<exists>c. find (\<lambda>c. g_ID c = cid) (configurations_global d) = Some c \<and>
       (if g_Value c = raw \<and> g_Description c = None then d' = d
        else audited_as r ActionUpdated ObjectTypeConfiguration d d' \<and> (\<exists>j. io_jsonb io raw = Some j \<and>
          d' = d \<lparr>configurations_global := map (\<lambda>c. if g_ID c = cid then c \<lparr>g_Description := None, g_Value := j\<rparr> else c)
                   (configurations_global d), audits := audits d'\<rparr>)))"

definition env_config_deleted :: "request \<Rightarrow> uuid \<Rightarrow> db \<Rightarrow> db \<Rightarrow> bool" where
  "env_config_deleted r cid d d' \<longleftrightarrow>
     (if find (\<lambda>c. c_ID c = cid) (configurations_environment d) = None then d' = d
      else audited_as r ActionDeleted ObjectTypeConfiguration d d' \<and>
        d' = d \<lparr>configurations_environment := filter (\<lambda>c. c_ID c \<noteq> cid) (configurations_environment d), audits := audits d'\<rparr>)"

definition global_config_deleted :: "request \<Rightarrow> uuid \<Rightarrow> db \<Rightarrow> db \<Rightarrow> bool" where
  "global_config_deleted r cid d d' \<longleftrightarrow>
     (if find (\<lambda>c. g_ID c = cid) (configurations_global d) = None then d' = d
      else audited_as r ActionDeleted ObjectTypeConfiguration d d' \<and>
        d' = d \<lparr>configurations_global := filter (\<lambda>c. g_ID c \<noteq> cid) (configurations_global d), audits := audits d'\<rparr>)"

definition env_config_set :: "externals \<Rightarrow> io \<Rightarrow> request \<Rightarrow> uuid \<times> string \<times> string \<Rightarrow> bool \<Rightarrow> string \<Rightarrow> db \<Rightarrow> db \<Rightarrow> bool" where
  "env_config_set x io r k secret raw d d' \<longleftrightarrow> (\<exists>v. x_marshal x (GRaw raw) = Inr v \<and>
     (let old = find (\<lambda>c. c_key c = k) (configurations_environment d)
      in if (\<exists>c. old = Some c \<and> c_Value c = v \<and> c_Description c = None \<and> c_Secret c = secret) then d' = d
         else audited_as r (if old = None then ActionCreated else ActionUpdated) ObjectTypeConfiguration d d' \<and>
           (\<exists>row. io_jsonb io v = Some (c_Value row) \<and> (\<forall>k'. find (\<lambda>c. c_key c = k') (configurations_environment d') =
              (if k' = k then Some row else find (\<lambda>c. c_key c = k') (configurations_environment d)))) \<and>
           d' = d \<lparr>configurations_environment := configurations_environment d', audits := audits d'\<rparr>))"

definition global_config_set :: "externals \<Rightarrow> io \<Rightarrow> request \<Rightarrow> string \<times> string \<Rightarrow> bool \<Rightarrow> string \<Rightarrow> db \<Rightarrow> db \<Rightarrow> bool" where
  "global_config_set x io r k secret raw d d' \<longleftrightarrow> (\<exists>v. x_marshal x (GRaw raw) = Inr v \<and>
     (let old = find (\<lambda>c. g_key c = k) (configurations_global d)
      in if (\<exists>c. old = Some c \<and> g_Value c = v \<and> g_Description c = None \<and> g_Secret c = secret) then d' = d
         else audited_as r (if old = None then ActionCreated else ActionUpdated) ObjectTypeConfiguration d d' \<and>
           (\<exists>row. io_jsonb io v = Some (g_Value row) \<and> (\<forall>k'. find (\<lambda>c. g_key c = k') (configurations_global d') =
              (if k' = k then Some row else find (\<lambda>c. g_key c = k') (configurations_global d)))) \<and>
           d' = d \<lparr>configurations_global := configurations_global d', audits := audits d'\<rparr>))"

definition feature_toggled :: "request \<Rightarrow> uuid \<times> string \<Rightarrow> bool \<Rightarrow> db \<Rightarrow> db \<Rightarrow> bool" where
  "feature_toggled r k enabled d d' \<longleftrightarrow>
     audited_as r (if enabled then ActionEnabled else ActionDisabled) ObjectTypeFeature d d' \<and>
     (map_of (disabled_features d') k = None \<longleftrightarrow> enabled) \<and>
     (\<forall>k'. k' \<noteq> k \<longrightarrow> map_of (disabled_features d') k' = map_of (disabled_features d) k') \<and>
     d' = d \<lparr>disabled_features := disabled_features d', audits := audits d'\<rparr>"

definition deactivated_where :: "request \<Rightarrow> (AssignmentRow \<Rightarrow> bool) \<Rightarrow> db \<Rightarrow> db \<Rightarrow> bool" where
  "deactivated_where r P d d' \<longleftrightarrow> audited_as r ActionDeleted ObjectTypeFeatureAssignment d d' \<and>
     d' = (deactivate_where P d) \<lparr>audits := audits d'\<rparr>"

lemmas audited_simps = audited_as_def audit_row_def change_audit_def

lemma tx_config_updated:
  "case WithTx io (UpdateEnvConfig (in_tx io i) (re_Email r) cid \<lparr>uc_Description = None, uc_Value = raw\<rparr>) d of (res, d') \<Rightarrow>
     if isl res then d' = d else env_config_updated io r cid raw d d'"
  "case WithTx io (UpdateConfig (in_tx io i) (re_Email r) cid \<lparr>uc_Description = None, uc_Value = raw\<rparr>) d of (res, d') \<Rightarrow>
     if isl res then d' = d else global_config_updated io r cid raw d d'"
proof -
  show "case WithTx io (UpdateEnvConfig (in_tx io i) (re_Email r) cid \<lparr>uc_Description = None, uc_Value = raw\<rparr>) d of (res, d') \<Rightarrow>
     if isl res then d' = d else env_config_updated io r cid raw d d'"
  proof (rule WithTx_cases)
    fix a d' assume up: "UpdateEnvConfig (in_tx io i) (re_Email r) cid \<lparr>uc_Description = None, uc_Value = raw\<rparr> d = (Inr a, d')"
    then obtain c where c: "find (\<lambda>c. c_ID c = cid) (configurations_environment d) = Some c"
      by (auto simp: UpdateEnvConfig_def WithTx_eq_Inr bindT_eq_Inr GetEnvConfigByID_def)
    show "env_config_updated io r cid raw d d'"
    proof (cases "c_Value c = raw \<and> c_Description c = None")
      case True
      then have "d' = d" using up c by (auto simp: UpdateEnvConfig_def WithTx_eq_Inr bindT_eq_Inr GetEnvConfigByID_def)
      then show ?thesis using c True by (simp add: env_config_updated_def)
    next
      case False
      then have "audited_as r ActionUpdated ObjectTypeConfiguration d d' \<and> (\<exists>j. io_jsonb io raw = Some j \<and>
          d' = d \<lparr>configurations_environment := map (\<lambda>c. if c_ID c = cid then c \<lparr>c_Description := None, c_Value := j\<rparr> else c)
                   (configurations_environment d), audits := audits d'\<rparr>)"
        using up c by (auto simp: UpdateEnvConfig_def WithTx_eq_Inr bindT_eq_Inr GetEnvConfigByID_def UpdateEnvConfig_sql_def Let_def
            in_tx_def audited_simps split: if_splits option.splits)
      then show ?thesis using c False unfolding env_config_updated_def by (intro exI [of _ c] conjI) (simp_all only: if_False)
    qed
  qed
  show "case WithTx io (UpdateConfig (in_tx io i) (re_Email r) cid \<lparr>uc_Description = None, uc_Value = raw\<rparr>) d of (res, d') \<Rightarrow>
     if isl res then d' = d else global_config_updated io r cid raw d d'"
  proof (rule WithTx_cases)
    fix a d' assume up: "UpdateConfig (in_tx io i) (re_Email r) cid \<lparr>uc_Description = None, uc_Value = raw\<rparr> d = (Inr a, d')"
    then obtain c where c: "find (\<lambda>c. g_ID c = cid) (configurations_global d) = Some c"
      by (auto simp: UpdateConfig_def WithTx_eq_Inr bindT_eq_Inr GetGlobalConfigByID_def)
    show "global_config_updated io r cid raw d d'"
    proof (cases "g_Value c = raw \<and> g_Description c = None")
      case True
      then have "d' = d" using up c by (auto simp: UpdateConfig_def WithTx_eq_Inr bindT_eq_Inr GetGlobalConfigByID_def)
      then show ?thesis using c True by (simp add: global_config_updated_def)
    next
      case False
      then have "audited_as r ActionUpdated ObjectTypeConfiguration d d' \<and> (\<exists>j. io_jsonb io raw = Some j \<and>
          d' = d \<lparr>configurations_global := map (\<lambda>c. if g_ID c = cid then c \<lparr>g_Description := None, g_Value := j\<rparr> else c)
                   (configurations_global d), audits := audits d'\<rparr>)"
        using up c by (auto simp: UpdateConfig_def WithTx_eq_Inr bindT_eq_Inr GetGlobalConfigByID_def UpdateGlobalConfig_def Let_def
            in_tx_def audited_simps split: if_splits option.splits)
      then show ?thesis using c False unfolding global_config_updated_def by (intro exI [of _ c] conjI) (simp_all only: if_False)
    qed
  qed
qed

lemma tx_config_deleted:
  "case WithTx io (DeleteEnvConfig (in_tx io i) (re_Email r) cid) d of (res, d') \<Rightarrow>
     if isl res then d' = d else env_config_deleted r cid d d'"
  "case WithTx io (DeleteConfig (in_tx io i) (re_Email r) cid) d of (res, d') \<Rightarrow>
     if isl res then d' = d else global_config_deleted r cid d d'"
  by (rule WithTx_cases, (auto simp: DeleteEnvConfig_def DeleteConfig_def WithTx_eq_Inr bindT_eq_Inr GetEnvConfigByID_def GetGlobalConfigByID_def
      in_tx_def env_config_deleted_def global_config_deleted_def audited_simps split: option.splits)[1])+

lemma tx_env_config_set:
  "case WithTx io (CreateEnvConfig x (in_tx io i) (re_Email r) \<lparr>nc_EnvironmentID = Some e, nc_Feature = f, nc_Description = None, nc_Key = key,
      nc_Value = raw, nc_Secret = secret\<rparr>) d of (res, d') \<Rightarrow>
     if isl res then d' = d else env_config_set x io r (e, f, key) secret raw d d'"
proof (rule WithTx_cases)
  let ?c = "\<lparr>nc_EnvironmentID = Some e, nc_Feature = f, nc_Description = None, nc_Key = key, nc_Value = raw, nc_Secret = secret\<rparr>"
  let ?old = "find (\<lambda>c. c_key c = (e, f, key)) (configurations_environment d)"
  fix a d' assume cr: "CreateEnvConfig x (in_tx io i) (re_Email r) ?c d = (Inr a, d')"
  then obtain v where v: "x_marshal x (GRaw raw) = Inr v" by (auto simp: CreateEnvConfig_def split: sum.splits)
  show "env_config_set x io r (e, f, key) secret raw d d'"
  proof (cases "\<exists>c. ?old = Some c \<and> c_Value c = v \<and> c_Description c = None \<and> c_Secret c = secret")
    case True
    then have "d' = d" using cr v by (auto simp: CreateEnvConfig_def GetEnvConfigByKey_def Let_def split: sum.splits)
    then show ?thesis using True v unfolding env_config_set_def Let_def by (intro exI [of _ v] conjI) (simp_all only: if_True)
  next
    case False
    then obtain row d1 where up: "UpsertEnvConfig (in_tx io i) e (?c \<lparr>nc_Value := v\<rparr>) d = (Inr row, d1)"
      and aud: "audited_as r (if ?old = None then ActionCreated else ActionUpdated) ObjectTypeConfiguration d1 d'"
      and d': "d' = d1 \<lparr>audits := audits d'\<rparr>"
      using cr v
      by (auto simp: CreateEnvConfig_def GetEnvConfigByKey_def Let_def bindT_eq_Inr writeConfigUpsertAudit_def audited_simps
          split: sum.splits option.splits if_splits)
    from UpsertEnvConfig_Inr [OF up] obtain j where "io_jsonb (in_tx io i) v = Some j"
      and row: "row = env_row_after (in_tx io i) e (?c \<lparr>nc_Value := v\<rparr>) j d" and a1: "audits d1 = audits d"
      and look: "\<forall>k. find (\<lambda>r. c_key r = k) (configurations_environment d1) =
       (if k = (e, f, key) then Some row else find (\<lambda>r. c_key r = k) (configurations_environment d))"
      and d1: "d1 = d \<lparr>configurations_environment := configurations_environment d1\<rparr>"
      by auto
    then have "io_jsonb io v = Some (c_Value row)" by (auto simp: in_tx_def env_row_after_def split: option.split)
    moreover have T: "configurations_environment d' = configurations_environment d1" by (subst d') simp
    moreover have "d' = d \<lparr>configurations_environment := configurations_environment d', audits := audits d'\<rparr>"
      unfolding T by (subst d', subst d1) simp
    moreover have "audited_as r (if ?old = None then ActionCreated else ActionUpdated) ObjectTypeConfiguration d d'"
      using aud a1 by (simp add: audited_as_def)
    ultimately show ?thesis
      using False v look unfolding env_config_set_def Let_def by (intro exI [of _ v] conjI) (simp_all only: if_False, blast)
  qed
qed

lemma UpsertGlobalConfig_Inr:
  assumes "UpsertGlobalConfig io c d = (Inr row, d')"
  shows "io_jsonb io (nc_Value c) = Some (g_Value row) \<and> audits d' = audits d \<and>
    (\<forall>k. find (\<lambda>r. g_key r = k) (configurations_global d') =
       (if k = (nc_Feature c, nc_Key c) then Some row else find (\<lambda>r. g_key r = k) (configurations_global d))) \<and>
    d' = d \<lparr>configurations_global := configurations_global d'\<rparr>"
proof -
  obtain j where j: "io_jsonb io (nc_Value c) = Some j"
    using assms by (auto simp: UpsertGlobalConfig_def split: if_splits option.splits)
  let ?new = "\<lparr>g_ID = io_diid io 0, g_Feature = nc_Feature c, g_Key = nc_Key c, g_Value = j, g_Description = nc_Description c,
                g_Secret = nc_Secret c, g_Created = io_now io\<rparr>"
  let ?upd = "\<lambda>r :: ConfigurationsGlobal. r \<lparr>g_Value := j, g_Description := nc_Description c\<rparr>"
  have key: "g_key ?new = (nc_Feature c, nc_Key c)" by (simp add: g_key_def)
  have d': "d' = d \<lparr>configurations_global := upsert_row g_key ?upd ?new (configurations_global d)\<rparr>"
    and row: "row = (case find (\<lambda>r. g_key r = (nc_Feature c, nc_Key c)) (configurations_global d) of None \<Rightarrow> ?new | Some r \<Rightarrow> ?upd r)"
    using assms j by (auto simp: UpsertGlobalConfig_def key Let_def split: if_splits)
  have u: "g_key (?upd r) = g_key r" for r by simp
  have tab: "configurations_global d' = upsert_row g_key ?upd ?new (configurations_global d)" using d' by simp
  have "find (\<lambda>r. g_key r = k) (configurations_global d') =
       (if k = (nc_Feature c, nc_Key c) then Some row else find (\<lambda>r. g_key r = k) (configurations_global d))" for k
    unfolding tab find_upsert_row[of g_key, OF u] key row by simp
  moreover have "g_Value row = j" unfolding row by (simp split: option.split)
  ultimately show ?thesis using j d' by simp
qed

lemma tx_global_config_set:
  "case WithTx io (CreateGlobalConfig x (in_tx io i) (re_Email r) \<lparr>nc_EnvironmentID = None, nc_Feature = f, nc_Description = None, nc_Key = key,
      nc_Value = raw, nc_Secret = secret\<rparr>) d of (res, d') \<Rightarrow>
     if isl res then d' = d else global_config_set x io r (f, key) secret raw d d'"
proof (rule WithTx_cases)
  let ?c = "\<lparr>nc_EnvironmentID = None, nc_Feature = f, nc_Description = None, nc_Key = key, nc_Value = raw, nc_Secret = secret\<rparr>"
  let ?old = "find (\<lambda>c. g_key c = (f, key)) (configurations_global d)"
  fix a d' assume cr: "CreateGlobalConfig x (in_tx io i) (re_Email r) ?c d = (Inr a, d')"
  then obtain v where v: "x_marshal x (GRaw raw) = Inr v" by (auto simp: CreateGlobalConfig_def split: sum.splits)
  show "global_config_set x io r (f, key) secret raw d d'"
  proof (cases "\<exists>c. ?old = Some c \<and> g_Value c = v \<and> g_Description c = None \<and> g_Secret c = secret")
    case True
    then have "d' = d" using cr v by (auto simp: CreateGlobalConfig_def GetGlobalConfigByKey_def Let_def split: sum.splits)
    then show ?thesis using True v unfolding global_config_set_def Let_def by (intro exI [of _ v] conjI) (simp_all only: if_True)
  next
    case False
    then obtain row d1 where up: "UpsertGlobalConfig (in_tx io i) (?c \<lparr>nc_Value := v\<rparr>) d = (Inr row, d1)"
      and aud: "audited_as r (if ?old = None then ActionCreated else ActionUpdated) ObjectTypeConfiguration d1 d'"
      and d': "d' = d1 \<lparr>audits := audits d'\<rparr>"
      using cr v
      by (auto simp: CreateGlobalConfig_def GetGlobalConfigByKey_def Let_def bindT_eq_Inr writeConfigUpsertAudit_def audited_simps
          split: sum.splits option.splits if_splits)
    from UpsertGlobalConfig_Inr [OF up] have j: "io_jsonb io v = Some (g_Value row)" and a1: "audits d1 = audits d"
      and look: "\<forall>k. find (\<lambda>r. g_key r = k) (configurations_global d1) =
       (if k = (f, key) then Some row else find (\<lambda>r. g_key r = k) (configurations_global d))"
      and d1: "d1 = d \<lparr>configurations_global := configurations_global d1\<rparr>"
      by (auto simp: in_tx_def)
    have T: "configurations_global d' = configurations_global d1" by (subst d') simp
    moreover have "d' = d \<lparr>configurations_global := configurations_global d', audits := audits d'\<rparr>"
      unfolding T by (subst d', subst d1) simp
    moreover have "audited_as r (if ?old = None then ActionCreated else ActionUpdated) ObjectTypeConfiguration d d'"
      using aud a1 by (simp add: audited_as_def)
    ultimately show ?thesis
      using False v look j unfolding global_config_set_def Let_def by (intro exI [of _ v] conjI) (simp_all only: if_False, blast)
  qed
qed

lemma feature_toggled_op:
  "case EnableFeature io (re_Email r) e f d of (res, d') \<Rightarrow> if isl res then d' = d else feature_toggled r (e, f) True d d'"
  "case DisableFeature io (re_Email r) e f reason d of (res, d') \<Rightarrow> if isl res then d' = d else feature_toggled r (e, f) False d d'"
proof -
  show "case EnableFeature io (re_Email r) e f d of (res, d') \<Rightarrow> if isl res then d' = d else feature_toggled r (e, f) True d d'"
    unfolding EnableFeature_def by (rule WithTx_cases) (auto simp: bindT_eq_Inr feature_toggled_def audited_simps)
  have "case WithTx io (bindT (SetDisabledFeature io e f) (\<lambda>u. audit_Create io (re_Email r)
      \<lparr>ap_Action = ActionDisabled, ap_Description = descr, ap_ObjectType = ObjectTypeFeature, ap_ObjectID = f, ap_Feature = f,
       ap_EnvironmentID = Some e, ap_Metadata = None\<rparr>)) d of (res, d') \<Rightarrow> if isl res then d' = d else feature_toggled r (e, f) False d d'" for descr
    by (rule WithTx_cases) (auto simp: bindT_eq_Inr feature_toggled_def audited_simps insert_disabled_def dest!: SetDisabledFeature_Inr split: option.splits)
  then show "case DisableFeature io (re_Email r) e f reason d of (res, d') \<Rightarrow> if isl res then d' = d else feature_toggled r (e, f) False d d'"
    by (auto simp: DisableFeature_def Let_def)
qed

lemma deactivated_op:
  "case Deactivate io (re_Email r) u d of (res, d') \<Rightarrow> if isl res then d' = d else deactivated_where r (\<lambda>a. fa_id a = u) d d'"
  "case DeactivateByFeatureAndTarget io (re_Email r) f target d of (res, d') \<Rightarrow>
     if isl res then d' = d else deactivated_where r (\<lambda>a. fa_feature_name a = f \<and> fa_target a = target \<and> fa_active a) d d'"
  unfolding Deactivate_def DeactivateByFeatureAndTarget_def
  by (rule WithTx_cases, (auto simp: deactivated_def bindT_eq_Inr deactivated_where_def DeactivateFeatureAssignment_def
      DeactivateFeatureAssignmentsByFeatureAndTarget_def deactivate_where_def audited_simps split: sum.splits if_splits)[1])+

lemma deactivate_all_or_nothing:
  assumes "\<And>d. case m d of (res, d') \<Rightarrow> if isl res then d' = d else Q d d'"
    and "\<And>d'. Q (w_db (fst st)) d' \<Longrightarrow> R (w_db (fst st)) d'"
  shows "all_or_nothing R st (case on_tables m (fst st) of
      (Inl e, w) \<Rightarrow> (fails_with 500 failed e, w, snd st)
    | (Inr a, w) \<Rightarrow> (redirect (dest a w), w, TriggerReconcile (snd st)))"
proof (cases "m (w_db (fst st))")
  case (Pair res d')
  then show ?thesis using assms(1) [of "w_db (fst st)"] assms(2) by (cases res; cases st) (auto simp: all_or_nothing_def on_tables_def)
qed

text \<open>
  C18. The ten handlers of one transactional write, which change, delete or set one configuration value of an environment or of all
  environments, switch the reconciliation of a feature, or deactivate assignments, are all or nothing. Whenever the reply is not the
  redirect, tables, messages and triggers are as before. When it is, the reconciler was triggered, no message was published, and
  what the request names was done: the value of the form is in the row with the identifier of the path, or at the key of the form; the row
  is gone; the feature is switched as asked; the assignments are inactive. Nothing else changed but the audit log, which
  has one row more with the user and the action, except where nothing was to be done because the row already was as asked for or no
  longer there. (Creating assignments, redeploys, uninstalls and forms with many rows are not of this kind: \<open>uninstall_unaudited\<close>
  below, and \<open>batch_update_sets\<close>.)
\<close>

theorem refused_request_leaves_no_trace:
  "all_or_nothing (\<lambda>d d'. \<exists>cid raw. pl_uuid l (URLParam r ''id'') = Inr cid \<and> form_value x r ''Invalid value format: '' = Inr raw \<and>
       env_config_updated io r cid raw d d') st (UpdateConfigHandler x l io r st) \<and>
   all_or_nothing (\<lambda>d d'. \<exists>cid. pl_uuid l (URLParam r ''id'') = Inr cid \<and> env_config_deleted r cid d d') st (DeleteConfigHandler l io r st) \<and>
   all_or_nothing (\<lambda>d d'. \<exists>cid. pl_uuid l (URLParam r ''id'') = Inr cid \<and> global_config_deleted r cid d d') st
       (DeleteGlobalConfigHandler l io r st) \<and>
   all_or_nothing (\<lambda>d d'. \<exists>tenant env feat raw. page_environment io r d = Inr (tenant, env) \<and>
       FeatureForEnvironment x io (e_ID env) (URLParam r ''feature'') d = Inr feat \<and> form_value x r ''Invalid value format: '' = Inr raw \<and>
       env_config_set x io r (e_ID env, URLParam r ''feature'', FormValue r ''key'') (declared_secret feat (FormValue r ''key'')) raw d d') st
       (ConfigOverrideSubmitHandler x io r st) \<and>
   all_or_nothing (\<lambda>d d'. \<exists>cid raw. pl_uuid l (URLParam r ''id'') = Inr cid \<and> form_value x r ''Invalid value: '' = Inr raw \<and>
       global_config_updated io r cid raw d d') st (UpdateGlobalConfigHandler x l io r st) \<and>
   all_or_nothing (\<lambda>d d'. \<exists>cid. pl_uuid l (URLParam r ''id'') = Inr cid \<and> global_config_deleted r cid d d') st
       (features_DeleteGlobalConfigHandler l io r st) \<and>
   all_or_nothing (\<lambda>d d'. \<exists>feat raw. FeatureByName x io (URLParam r ''feature'') d = Inr feat \<and> form_value x r ''Invalid value: '' = Inr raw \<and>
       global_config_set x io r (URLParam r ''feature'', FormValue r ''key'') (declared_secret feat (FormValue r ''key'')) raw d d') st
       (SetGlobalConfigHandler x io r st) \<and>
   all_or_nothing (\<lambda>d d'. \<exists>tenant env feat. page_environment io r d = Inr (tenant, env) \<and>
       FeatureForEnvironment x io (e_ID env) (URLParam r ''feature'') d = Inr feat \<and>
       feature_toggled r (e_ID env, f_Name feat) (FormValue r ''enabled'' = ''true'') d d') st (ToggleFeatureStateHandler x io r st) \<and>
   all_or_nothing (\<lambda>d d'. \<exists>u. pl_uuid l (URLParam r ''id'') = Inr u \<and> deactivated_where r (\<lambda>a. fa_id a = u) d d') st
       (DeactivateHandler l io r st) \<and>
   all_or_nothing (\<lambda>d d'. \<exists>u fa. pl_uuid l (URLParam r ''id'') = Inr u \<and> featureassignment_Get x io u d = Inr fa \<and>
       deactivated_where r (\<lambda>a. fa_feature_name a = f_Name (as_Feature fa) \<and> fa_target a = as_TargetLabels fa \<and> fa_active a) d d') st
       (DeactivateByFeatureAndTargetHandler x l io r st)"
proof (intro conjI, goal_cases)
  have form: "form_value x r m = Inl reply \<Longrightarrow> \<not> redirected reply" for m reply
    by (auto simp: form_value_def split: sum.splits)
  case 1
  show ?case unfolding UpdateConfigHandler_def
    by (auto split: sum.splits intro!: all_or_nothing_finish [OF tx_config_updated(1)] dest: form)
  case 2
  show ?case unfolding DeleteConfigHandler_def deleteConfigHandler_def
    by (auto split: sum.splits intro!: all_or_nothing_finish [OF tx_config_deleted(1)])
  case 3
  show ?case unfolding DeleteGlobalConfigHandler_def deleteConfigHandler_def
    by (auto split: sum.splits intro!: all_or_nothing_finish [OF tx_config_deleted(2)])
  case 4
  show ?case unfolding ConfigOverrideSubmitHandler_def new_env_config_def
    by (auto split: sum.splits prod.splits intro!: all_or_nothing_finish [OF tx_env_config_set] dest: form)
  case 5
  show ?case unfolding UpdateGlobalConfigHandler_def
    by (auto split: sum.splits intro!: all_or_nothing_finish [OF tx_config_updated(2)] dest: form)
  case 6
  show ?case unfolding features_DeleteGlobalConfigHandler_def
    by (auto split: sum.splits intro!: all_or_nothing_finish [OF tx_config_deleted(2)])
  case 7
  show ?case unfolding SetGlobalConfigHandler_def
    by (auto split: sum.splits intro!: all_or_nothing_finish [OF tx_global_config_set] dest: form)
  case 8
  show ?case unfolding ToggleFeatureStateHandler_def Let_def
    by (auto simp del: if_split_asm split: sum.splits prod.splits intro!: all_or_nothing_finish [OF feature_toggled_op(1)]
        all_or_nothing_finish [OF feature_toggled_op(2)])
  case 9
  show ?case unfolding DeactivateHandler_def
    by (cases "pl_uuid l (URLParam r ''id'')") (auto intro!: deactivate_all_or_nothing [OF deactivated_op(1)])
  case 10
  show ?case unfolding DeactivateByFeatureAndTargetHandler_def
    by (auto split: sum.splits intro!: deactivate_all_or_nothing [OF deactivated_op(2)])
qed

text \<open>A redeploy or an uninstall is published before it is audited, so a failing audit row answers an error for a message that is out.\<close>

lemma uninstall_unaudited:
  assumes "page_environment io r (w_db w) = Inr (tenant, env)" and "UninstallReleaseHandler io (Some (Some dep)) diid r (w, pending) = (reply, st')"
    and "dep_Uninstall dep diid (t_Name tenant) (e_Name env) (URLParam r ''release'') w = (Inr (), w')"
    and "URLParam r ''release'' \<noteq> []" and "URLParam r ''release'' \<notin> set protectedReleases" and "io_fails io ''audit.Create''"
  shows "\<not> redirected reply \<and> st' = (w', pending)"
  using assms by (auto simp: UninstallReleaseHandler_def Uninstall_def on_tables_def audit_Create_def execT_def split: prod.splits)

section \<open>Many rows at once\<close>

definition env_row :: "db \<Rightarrow> uuid \<times> string \<times> string \<Rightarrow> ConfigurationsEnvironment option" where
  "env_row d k = find (\<lambda>r. c_key r = k) (configurations_environment d)"

definition config_only :: "db \<Rightarrow> db \<Rightarrow> bool" where
  "config_only d d' \<longleftrightarrow> d' = d \<lparr>configurations_environment := configurations_environment d', audits := audits d'\<rparr>"

lemma config_only_iff: "config_only d d' \<longleftrightarrow> (\<exists>T A. d' = d \<lparr>configurations_environment := T, audits := A\<rparr>)"
proof
  assume "config_only d d'"
  then show "\<exists>T A. d' = d \<lparr>configurations_environment := T, audits := A\<rparr>" unfolding config_only_def by (intro exI)
next
  assume "\<exists>T A. d' = d \<lparr>configurations_environment := T, audits := A\<rparr>"
  then show "config_only d d'" by (elim exE) (simp add: config_only_def)
qed

lemma config_only_refl [simp]: "config_only d d"
  unfolding config_only_def by simp

lemma config_only_trans:
  assumes "config_only d d1" and "config_only d1 d2"
  shows "config_only d d2"
proof -
  obtain T A T' A' where "d1 = d \<lparr>configurations_environment := T, audits := A\<rparr>" "d2 = d1 \<lparr>configurations_environment := T', audits := A'\<rparr>"
    using assms by (auto simp: config_only_iff)
  then have "d2 = d \<lparr>configurations_environment := T', audits := A'\<rparr>" by simp
  then show ?thesis unfolding config_only_iff by (intro exI)
qed

text \<open>Identifiers of rows are unique, and those that the operation draws are new.\<close>

definition ids_ok :: "io \<Rightarrow> uuid set \<Rightarrow> nat \<Rightarrow> db \<Rightarrow> bool" where
  "ids_ok io old i d \<longleftrightarrow> distinct (map c_ID (configurations_environment d)) \<and>
     set (map c_ID (configurations_environment d)) \<subseteq> old \<union> io_diid io ` {..<i}"

definition fresh_ids :: "io \<Rightarrow> uuid set \<Rightarrow> bool" where
  "fresh_ids io old \<longleftrightarrow> inj (io_diid io) \<and> range (io_diid io) \<inter> old = {}"

text \<open>What the JSON library and the database do to a text that they produced themselves: nothing.\<close>

definition json_laws :: "externals \<Rightarrow> io \<Rightarrow> bool" where
  "json_laws x io \<longleftrightarrow> (\<forall>v raw. x_marshal x v = Inr raw \<longrightarrow> x_marshal x (GRaw raw) = Inr raw) \<and>
     (\<forall>s j. io_jsonb io s = Some j \<longrightarrow> io_jsonb io j = Some j)"

definition rows_stored :: "io \<Rightarrow> db \<Rightarrow> bool" where
  "rows_stored io d \<longleftrightarrow> (\<forall>r \<in> set (configurations_environment d). io_jsonb io (c_Value r) = Some (c_Value r))"

text \<open>One row is set: it has the value, the others are as they were.\<close>

definition row_set :: "io \<Rightarrow> uuid \<times> string \<times> string \<Rightarrow> string \<Rightarrow> db \<Rightarrow> db \<Rightarrow> bool" where
  "row_set io k raw d d' \<longleftrightarrow> config_only d d' \<and> (\<exists>row. env_row d' k = Some row \<and> io_jsonb io raw = Some (c_Value row)) \<and>
     (\<forall>k'. k' \<noteq> k \<longrightarrow> env_row d' k' = env_row d k')"

lemma row_set_other: "row_set io k raw d d' \<Longrightarrow> k' \<noteq> k \<Longrightarrow> env_row d' k' = env_row d k'"
  by (cases k') (simp add: row_set_def)

lemma find_unique_id:
  assumes "distinct (map c_ID rows)" and "find P rows = Some row" and "find Q rows = Some row'" and "c_ID row' = c_ID row"
  shows "row' = row"
  using assms by (auto simp: distinct_map inj_on_def dest!: find_SomeD)

lemma UpdateEnvConfig_row:
  assumes up: "UpdateEnvConfig io email cid c d = (Inr conf, d')" and ids: "distinct (map c_ID (configurations_environment d))"
    and row: "env_row d k = Some row" "c_ID row = cid" and st: "rows_stored io d" and laws: "json_laws x io"
  shows "row_set io k (uc_Value c) d d' \<and> rows_stored io d' \<and>
    map c_ID (configurations_environment d') = map c_ID (configurations_environment d)"
proof -
  let ?T = "configurations_environment d"
  have "row \<in> set ?T" using row(1) by (auto simp: env_row_def dest!: find_SomeD)
  then obtain r where f: "find (\<lambda>r. c_ID r = cid) ?T = Some r" using row(2) by (cases "find (\<lambda>r. c_ID r = cid) ?T") (auto simp: find_None_iff)
  then have r: "r = row" using find_unique_id [OF ids row(1) [unfolded env_row_def] f] row(2) by (auto dest!: find_SomeD)
  show ?thesis
  proof (cases "c_Value row = uc_Value c \<and> c_Description row = uc_Description c")
    case True
    then have "d' = d" using up f r by (auto simp: UpdateEnvConfig_def WithTx_eq_Inr bindT_eq_Inr GetEnvConfigByID_def)
    moreover have "io_jsonb io (uc_Value c) = Some (c_Value row)"
      using st True \<open>row \<in> set ?T\<close> by (auto simp: rows_stored_def)
    ultimately show ?thesis using row(1) st by (auto simp: row_set_def)
  next
    case False
    then obtain j where j: "io_jsonb io (uc_Value c) = Some j"
      and T': "configurations_environment d' = map (\<lambda>r. if c_ID r = cid then r \<lparr>c_Description := uc_Description c, c_Value := j\<rparr> else r) ?T"
      and only: "config_only d d'"
      using up f r unfolding UpdateEnvConfig_def
      by (auto simp: WithTx_eq_Inr bindT_eq_Inr GetEnvConfigByID_def UpdateEnvConfig_sql_def Let_def config_only_def split: if_splits option.splits)
    have k: "c_key row = k" using row(1) by (auto simp: env_row_def dest!: find_SomeD)
    have same: "c_ID q = cid \<Longrightarrow> q \<in> set ?T \<Longrightarrow> q = row" for q
      using ids \<open>row \<in> set ?T\<close> row(2) by (auto simp: distinct_map inj_on_def)
    have find: "env_row d' k' = map_option (\<lambda>r. if c_ID r = cid then r \<lparr>c_Description := uc_Description c, c_Value := j\<rparr> else r) (env_row d k')" for k'
      unfolding env_row_def T' by (rule find_map_key) (simp add: c_key_def)
    have "env_row d' k' = env_row d k'" if "k' \<noteq> k" for k'
    proof (cases "env_row d k'")
      case (Some q)
      then have "q \<in> set ?T" "c_key q = k'" by (auto simp: env_row_def dest!: find_SomeD)
      then have "c_ID q \<noteq> cid" using same k that by auto
      then show ?thesis using find Some by simp
    qed (simp add: find)
    moreover have "\<exists>row. env_row d' k = Some row \<and> io_jsonb io (uc_Value c) = Some (c_Value row)"
      using find row j by simp
    moreover have "rows_stored io d'" using st laws j unfolding rows_stored_def T' json_laws_def by auto
    moreover have "map c_ID (configurations_environment d') = map c_ID ?T" unfolding T' by simp
    ultimately show ?thesis using only by (simp add: row_set_def)
  qed
qed

lemma UpsertEnvConfig_ids:
  assumes "UpsertEnvConfig io envID c d = (Inr row, d')"
  shows "map c_ID (configurations_environment d') = map c_ID (configurations_environment d) \<or>
    map c_ID (configurations_environment d') = map c_ID (configurations_environment d) @ [io_diid io 0]"
  using assms by (auto simp: UpsertEnvConfig_def upsert_row_def Let_def comp_def split: if_splits option.splits cong: if_cong)

lemma CreateEnvConfig_cases:
  assumes "CreateEnvConfig x io email c d = (Inr conf, d')" and "nc_EnvironmentID c = Some envID" and "x_marshal x (GRaw (nc_Value c)) = Inr v"
  shows "d' = d \<and> (\<exists>r. env_row d (envID, nc_Feature c, nc_Key c) = Some r \<and> c_Value r = v) \<or>
    (\<exists>row d1. UpsertEnvConfig io envID (c \<lparr>nc_Value := v\<rparr>) d = (Inr row, d1) \<and> d' = d1 \<lparr>audits := audits d'\<rparr>)"
  using assms
  by (auto simp: CreateEnvConfig_def GetEnvConfigByKey_def Let_def bindT_eq_Inr writeConfigUpsertAudit_def env_row_def
      split: sum.splits option.splits if_splits)

lemma CreateEnvConfig_row:
  assumes cr: "CreateEnvConfig x io email c d = (Inr conf, d')" and env: "nc_EnvironmentID c = Some envID"
    and m: "x_marshal x (GRaw (nc_Value c)) = Inr v" and st: "rows_stored io d" and laws: "json_laws x io"
  shows "row_set io (envID, nc_Feature c, nc_Key c) v d d' \<and> rows_stored io d' \<and>
    (map c_ID (configurations_environment d') = map c_ID (configurations_environment d) \<or>
     map c_ID (configurations_environment d') = map c_ID (configurations_environment d) @ [io_diid io 0])"
  using CreateEnvConfig_cases [OF cr env m]
proof (elim disjE exE conjE)
  fix r assume "d' = d" "env_row d (envID, nc_Feature c, nc_Key c) = Some r" "c_Value r = v"
  then show ?thesis using st by (auto simp: row_set_def rows_stored_def env_row_def dest!: find_SomeD)
next
  fix row d1 assume up: "UpsertEnvConfig io envID (c \<lparr>nc_Value := v\<rparr>) d = (Inr row, d1)" and d': "d' = d1 \<lparr>audits := audits d'\<rparr>"
  have T: "configurations_environment d' = configurations_environment d1" by (subst d') simp
  obtain j where j: "io_jsonb io v = Some j" "row = env_row_after io envID (c \<lparr>nc_Value := v\<rparr>) j d"
      "\<forall>k. find (\<lambda>r. c_key r = k) (configurations_environment d1) =
         (if k = (envID, nc_Feature c, nc_Key c) then Some row else find (\<lambda>r. c_key r = k) (configurations_environment d))"
      "d1 = d \<lparr>configurations_environment := configurations_environment d1\<rparr>"
    using UpsertEnvConfig_Inr [OF up] by auto
  have "c_Value row = j" unfolding j(2) env_row_after_def by (simp split: option.split)
  moreover have "config_only d d'" unfolding config_only_def T by (subst d', subst j(4)) simp
  moreover have "rows_stored io d'"
    using up st laws unfolding rows_stored_def T json_laws_def
    by (auto simp: UpsertEnvConfig_def upsert_row_def Let_def split: if_splits option.splits)
  ultimately show ?thesis using j(1,3) UpsertEnvConfig_ids [OF up] unfolding row_set_def env_row_def T by auto
qed

text \<open>The identifiers that the form carries: those of the rows that the page showed, and none for a key without a row of its own.\<close>

definition form_ids :: "page_libs \<Rightarrow> request \<Rightarrow> uuid \<Rightarrow> string \<Rightarrow> db \<Rightarrow> string list \<Rightarrow> bool" where
  "form_ids l r envID f d keys \<longleftrightarrow> (\<forall>key \<in> set keys. PostFormValue r (BulkIDField key) = [] \<or>
     (\<exists>row. env_row d (envID, f, key) = Some row \<and> pl_uuid l (PostFormValue r (BulkIDField key)) = Inr (c_ID row)))"

definition changed :: "request \<Rightarrow> string \<Rightarrow> bool" where
  "changed r key \<longleftrightarrow> PostFormValue r (BulkValueField key) \<noteq> PostFormValue r (BulkOrigField key)"

text \<open>The JSON of a changed value of the form.\<close>

definition submitted :: "externals \<Rightarrow> request \<Rightarrow> string \<Rightarrow> err + string" where
  "submitted x r key =
     bindE (ParseConfigValueAuto x (PostFormValue r (BulkValueField key)) (PostFormValue r (BulkTypeField key))) (x_marshal x)"

lemma in_tx_simps [simp]:
  "io_jsonb (in_tx io i) = io_jsonb io" "io_diid (in_tx io i) k = io_diid io (i + k)" "io_now (in_tx io i) = io_now io"
  by (simp_all add: in_tx_def)

lemma row_set_in_tx [simp]: "row_set (in_tx io i) = row_set io" "rows_stored (in_tx io i) = rows_stored io" "json_laws x (in_tx io i) = json_laws x io"
  by (simp_all add: fun_eq_iff row_set_def rows_stored_def json_laws_def)

lemma ids_ok_next:
  assumes "ids_ok io old i d" and "fresh_ids io old"
    and "map c_ID (configurations_environment d') = map c_ID (configurations_environment d) \<or>
      map c_ID (configurations_environment d') = map c_ID (configurations_environment d) @ [io_diid io i]"
  shows "ids_ok io old (Suc i) d'"
proof -
  define ids where "ids = map c_ID (configurations_environment d)"
  have ids: "distinct ids" "set ids \<subseteq> old \<union> io_diid io ` {..<i}" using assms(1) by (simp_all only: ids_ok_def ids_def)
  have fresh: "inj (io_diid io)" "range (io_diid io) \<inter> old = {}" using assms(2) by (simp_all add: fresh_ids_def)
  have "io_diid io i \<notin> io_diid io ` {..<i}" using fresh(1) by (auto simp: inj_eq)
  then have "io_diid io i \<notin> set ids" using fresh(2) ids(2) by blast
  moreover have "set ids \<subseteq> old \<union> io_diid io ` {..<Suc i}" "io_diid io i \<in> io_diid io ` {..<Suc i}" using ids(2) by auto
  moreover define ids' where "ids' = map c_ID (configurations_environment d')"
  moreover have "ids' = ids \<or> ids' = ids @ [io_diid io i]" using assms(3) by (simp only: ids_def ids'_def)
  ultimately show ?thesis using ids(1) unfolding ids_ok_def ids'_def [symmetric] by auto
qed

lemma batch_key_row:
  assumes b: "batch_key x l (in_tx io i) r envID feat key d = (Inr written, d')" and fi: "form_ids l r envID (URLParam r ''feature'') d [key]"
    and ids: "ids_ok io old i d" and fresh: "fresh_ids io old" and st: "rows_stored io d" and laws: "json_laws x io"
  shows "written = changed r key \<and> ids_ok io old (Suc i) d' \<and> rows_stored io d' \<and>
    (if changed r key then \<exists>raw. submitted x r key = Inr raw \<and> row_set io (envID, URLParam r ''feature'', key) raw d d' else d' = d)"
proof (cases "changed r key")
  case False
  then have "written = False \<and> d' = d" using b by (auto simp: batch_key_def changed_def Let_def)
  then show ?thesis using False ids st by (auto simp: ids_ok_def)
next
  case True
  let ?cid = "PostFormValue r (BulkIDField key)" and ?k = "(envID, URLParam r ''feature'', key)"
  obtain val raw where v: "ParseConfigValueAuto x (PostFormValue r (BulkValueField key)) (PostFormValue r (BulkTypeField key)) = Inr val"
      "x_marshal x val = Inr raw"
    using b True by (auto simp: batch_key_def changed_def Let_def split: sum.splits)
  have sub: "submitted x r key = Inr raw" using v by (simp add: submitted_def)
  have again: "x_marshal x (GRaw raw) = Inr raw" using laws v(2) by (auto simp: json_laws_def)
  have di: "distinct (map c_ID (configurations_environment d))" using ids by (simp add: ids_ok_def)
  have "written \<and> row_set io ?k raw d d' \<and> rows_stored io d' \<and>
    (map c_ID (configurations_environment d') = map c_ID (configurations_environment d) \<or>
     map c_ID (configurations_environment d') = map c_ID (configurations_environment d) @ [io_diid io i])"
  proof (cases "?cid = []")
    case False
    then obtain row where row: "env_row d ?k = Some row" "pl_uuid l ?cid = Inr (c_ID row)" using fi by (auto simp: form_ids_def)
    then obtain conf where "written" "UpdateEnvConfig (in_tx io i) (re_Email r) (c_ID row) \<lparr>uc_Description = None, uc_Value = raw\<rparr> d = (Inr conf, d')"
      using b True v False by (auto simp: batch_key_def changed_def Let_def bindT_eq_Inr)
    then show ?thesis using UpdateEnvConfig_row [OF _ di row(1) refl] st laws by fastforce
  next
    case True
    then obtain conf where "written" "CreateEnvConfig x (in_tx io i) (re_Email r) (new_env_config envID (URLParam r ''feature'') feat key raw) d = (Inr conf, d')"
      using b \<open>changed r key\<close> v by (auto simp: batch_key_def changed_def Let_def bindT_eq_Inr)
    then show ?thesis
      using CreateEnvConfig_row [of x "in_tx io i" "re_Email r" "new_env_config envID (URLParam r ''feature'') feat key raw" d conf d' envID raw]
        again st laws by (simp add: new_env_config_def)
  qed
  then show ?thesis using True sub ids_ok_next [OF ids fresh] by auto
qed

text \<open>What the transaction of the form has done when it succeeds.\<close>

lemma batch_keys_rows:
  assumes "batch_keys x l io r envID feat keys i n = op" and "op d = (Inr n', d')" and "distinct keys"
    and "form_ids l r envID (URLParam r ''feature'') d keys"
    and "ids_ok io old i d" and "fresh_ids io old" and "rows_stored io d" and "json_laws x io"
  shows "n' = n + length (filter (changed r) keys) \<and> config_only d d' \<and>
    (\<forall>key \<in> set keys. changed r key \<longrightarrow> (\<exists>raw row. submitted x r key = Inr raw \<and>
       env_row d' (envID, URLParam r ''feature'', key) = Some row \<and> io_jsonb io raw = Some (c_Value row))) \<and>
    (\<forall>k. (\<forall>key \<in> set keys. changed r key \<longrightarrow> k \<noteq> (envID, URLParam r ''feature'', key)) \<longrightarrow> env_row d' k = env_row d k)"
  using assms
proof (induction keys arbitrary: i n d op)
  case Nil
  then show ?case by auto
next
  case (Cons key keys)
  let ?k = "\<lambda>key. (envID, URLParam r ''feature'', key)"
  obtain written d1 where step: "batch_key x l (in_tx io i) r envID feat key d = (Inr written, d1)"
    and rest: "batch_keys x l io r envID feat keys (Suc i) (if written then Suc n else n) d1 = (Inr n', d')"
    using Cons.prems(1,2) by (auto simp: bindT_eq_Inr)
  have one: "form_ids l r envID (URLParam r ''feature'') d [key]" using Cons.prems(4) by (simp add: form_ids_def)
  note s = batch_key_row [OF step one Cons.prems(5-8)]
  have keep: "env_row d1 (?k key') = env_row d (?k key')" if "key' \<in> set keys" for key'
    using s that Cons.prems(3) row_set_other [of io "?k key" _ d d1 "?k key'"] by (auto split: if_splits)
  have "form_ids l r envID (URLParam r ''feature'') d1 keys" using Cons.prems(4) keep by (simp add: form_ids_def)
  then have IH: "n' = (if written then Suc n else n) + length (filter (changed r) keys) \<and> config_only d1 d' \<and>
    (\<forall>key \<in> set keys. changed r key \<longrightarrow> (\<exists>raw row. submitted x r key = Inr raw \<and> env_row d' (?k key) = Some row \<and> io_jsonb io raw = Some (c_Value row))) \<and>
    (\<forall>k. (\<forall>key \<in> set keys. changed r key \<longrightarrow> k \<noteq> ?k key) \<longrightarrow> env_row d' k = env_row d1 k)"
    using Cons.IH [OF refl rest] Cons.prems s by auto
  have IHk: "env_row d' k = env_row d1 k" if "\<forall>key \<in> set keys. changed r key \<longrightarrow> k \<noteq> ?k key" for k using IH that by blast
  show ?case
  proof (cases "changed r key")
    case False
    then have "\<not> written" "d1 = d" using s by auto
    then show ?thesis using IH False by auto
  next
    case True
    then obtain raw where raw: "submitted x r key = Inr raw" "row_set io (?k key) raw d d1" and w: "written" using s by auto
    have "env_row d' (?k key) = env_row d1 (?k key)" by (rule IHk) (use Cons.prems(3) in auto)
    moreover have "config_only d d'" using raw(2) IH config_only_trans by (auto simp: row_set_def)
    moreover have "env_row d' k = env_row d k" if "\<forall>q \<in> set (key # keys). changed r q \<longrightarrow> k \<noteq> ?k q" for k
    proof -
      have "env_row d' k = env_row d1 k" by (rule IHk) (use that in simp)
      also have "\<dots> = env_row d k" using that True by (intro row_set_other [OF raw(2)]) auto
      finally show ?thesis .
    qed
    ultimately show ?thesis using IH raw w True by (auto simp: row_set_def)
  qed
qed

lemma on_tables_cases: "on_tables m w = (case m (w_db w) of (Inl e, d') \<Rightarrow> (Inl e, w \<lparr>w_db := d'\<rparr>) | (Inr a, d') \<Rightarrow> (Inr a, w \<lparr>w_db := d'\<rparr>))"
  by (simp add: on_tables_def split: prod.split sum.split)

lemma WithTx_fails: "WithTx io fn d = (Inl e, d') \<Longrightarrow> d' = d"
  using WithTx_rollback [of io fn d e] by simp

text \<open>
  C17. Editing many configuration values of an environment at once is all or nothing: for the form as the page renders it, either the
  request fails and tables, messages and triggers are as before, or every key whose value was changed has the submitted value,
  encoded as JSON, in the row of the environment, every other row is as it was, nothing but configuration and audit log was
  written, and the reconciler is woken when at least one value was changed.
\<close>

theorem batch_update_sets:
  assumes h: "BatchUpdateConfigHandler x l io r (w, pending) = (reply, w', pending')"
    and env: "page_environment io r (w_db w) = Inr (tenant, env)"
    and keys: "map_of (re_PostForm r) BulkKeysField = Some keys" "distinct keys" "form_ids l r (e_ID env) (URLParam r ''feature'') (w_db w) keys"
    and ids: "distinct (map c_ID (configurations_environment (w_db w)))"
      "fresh_ids io (c_ID ` set (configurations_environment (w_db w)))"
    and json: "rows_stored io (w_db w)" "json_laws x io"
  shows "if redirected reply
    then (\<forall>key \<in> set keys. changed r key \<longrightarrow> (\<exists>raw row. submitted x r key = Inr raw \<and>
            env_row (w_db w') (e_ID env, URLParam r ''feature'', key) = Some row \<and> io_jsonb io raw = Some (c_Value row))) \<and>
         (\<forall>k. (\<forall>key \<in> set keys. changed r key \<longrightarrow> k \<noteq> (e_ID env, URLParam r ''feature'', key)) \<longrightarrow> env_row (w_db w') k = env_row (w_db w) k) \<and>
         config_only (w_db w) (w_db w') \<and> w_sent w' = w_sent w \<and>
         pending' = (if \<exists>key \<in> set keys. changed r key then TriggerReconcile pending else pending)
    else w' = w \<and> pending' = pending"
proof (cases "FeatureForEnvironment x io (e_ID env) (URLParam r ''feature'') (w_db w)")
  case (Inl e)
  then show ?thesis using h env by (auto simp: BatchUpdateConfigHandler_def split: if_splits)
next
  case (Inr feat)
  let ?m = "batch_keys x l io r (e_ID env) feat keys 0 0"
  show ?thesis
  proof (cases "re_ParseFails r")
    case True
    then show ?thesis using h by (auto simp: BatchUpdateConfigHandler_def)
  next
    case ok: False
    obtain res d' where tx: "WithTx io ?m (w_db w) = (res, d')" by (cases "WithTx io ?m (w_db w)")
    show ?thesis
    proof (cases res)
      case (Inl e)
      then have "d' = w_db w" using tx WithTx_fails by simp
      then show ?thesis using h env ok tx Inl \<open>FeatureForEnvironment _ _ _ _ _ = Inr feat\<close> keys(1)
        by (auto simp: BatchUpdateConfigHandler_def on_tables_def)
    next
      case (Inr n)
      then have m: "?m (w_db w) = (Inr n, d')" using tx by (simp add: WithTx_eq_Inr)
      have "ids_ok io (c_ID ` set (configurations_environment (w_db w))) 0 (w_db w)" using ids(1) by (simp add: ids_ok_def)
      note rows = batch_keys_rows [OF refl m keys(2,3) this ids(2) json]
      have "w' = w \<lparr>w_db := d'\<rparr>" "pending' = (if n > 0 then TriggerReconcile pending else pending)" "redirected reply"
        using h env ok tx Inr \<open>FeatureForEnvironment _ _ _ _ _ = Inr feat\<close> keys(1) by (auto simp: BatchUpdateConfigHandler_def on_tables_def)
      moreover have "n > 0 \<longleftrightarrow> (\<exists>key \<in> set keys. changed r key)" using rows by (auto simp: filter_empty_conv)
      ultimately show ?thesis using rows by simp
    qed
  qed
qed

subsection \<open>A form\<close>

definition page_externals :: externals where
  "page_externals = example_externals \<lparr>x_marshal := (\<lambda>v. case v of
     GRaw s \<Rightarrow> Inr s | GStr s \<Rightarrow> Inr (CHR 0x22 # s @ [CHR 0x22]) | _ \<Rightarrow> Inr [])\<rparr>"

definition example_page_libs :: page_libs where
  "example_page_libs = \<lparr>pl_uuid = (\<lambda>s. Inr 1), pl_url = (\<lambda>s. Inr ([], s)), pl_labels = (\<lambda>s m. (False, m))\<rparr>"

definition example_request :: request where
  "example_request = \<lparr>re_URLParam = [(''env'', ''prod''), (''feature'', ''loki''), (''tenant'', ''acme'')], re_Form = [],
     re_PostForm = [(''keys'', [''a'']), (''orig:a'', [''true'']), (''type:a'', [''STRING'']), (''value:a'', [''green''])],
     re_ParseFails = False, re_Host = ''fasit'', re_Referer = [], re_Email = Some ''ops''\<rparr>"

theorem batch_update_sets_witness:
  "\<exists>reply w'. BatchUpdateConfigHandler page_externals example_page_libs store_io example_request (\<lparr>w_db = example_db, w_sent = []\<rparr>, 0) = (reply, w', 1) \<and>
     redirected reply \<and> (\<exists>row. env_row (w_db w') (1, ''loki'', ''a'') = Some row \<and> c_Value row = CHR 0x22 # ''green'' @ [CHR 0x22])"
proof -
  let ?w = "\<lparr>w_db = example_db, w_sent = []\<rparr> :: world"
  let ?h = "BatchUpdateConfigHandler page_externals example_page_libs store_io example_request (?w, 0)"
  have par: "URLParam example_request ''tenant'' = ''acme''" "URLParam example_request ''env'' = ''prod''" "URLParam example_request ''feature'' = ''loki''"
    by (simp_all add: URLParam_def example_request_def)
  obtain tenant env where env: "page_environment store_io example_request (w_db ?w) = Inr (tenant, env)" "e_ID env = 1"
    unfolding page_environment_def par
    by (simp add: GetTenantByName_def environment_GetByName_def one_def example_db_def empty_db_def)
  have "\<exists>feat. FeatureForEnvironment page_externals store_io (e_ID env) ''loki'' (w_db ?w) = Inr feat"
    by (simp add: FeatureForEnvironment_def mostSpecificAssignment_def ListFeatureAssignmentsForFeatureInEnvironment_def query_def
      example_db_def empty_db_def env(2) labels_superset_def with_data_def assignment_data_def assignments_from_def
      featureAssignmentFromSQL_def featureFromSQL_def makeFeatureYAML_def page_externals_def example_externals_def echo_externals_def
      mostSpecificPerFeature_fa_def as_winner_def as_key_def)
  then obtain feat where feat: "FeatureForEnvironment page_externals store_io (e_ID env) ''loki'' (w_db ?w) = Inr feat" by blast
  have form: "PostFormValue example_request (BulkValueField ''a'') = ''green''" "PostFormValue example_request (BulkOrigField ''a'') = ''true''"
    "PostFormValue example_request (BulkTypeField ''a'') = ''STRING''" "PostFormValue example_request (BulkIDField ''a'') = []"
    "map_of (re_PostForm example_request) BulkKeysField = Some [''a'']" "re_ParseFails example_request = False"
    by (simp_all add: PostFormValue_def first_value_def example_request_def BulkValueField_def BulkOrigField_def BulkTypeField_def BulkIDField_def
        BulkKeysField_def)
  have auto: "ParseConfigValueAuto page_externals ''green'' ''STRING'' = Inr (GStr ''green'')"
    by (simp add: ParseConfigValueAuto_def ParseConfigValue_def strings_TrimSpace_def is_space_def strings_ToUpper_def char_upper_def
        char_of_def bit_simps)
  have mar: "x_marshal page_externals (GStr s) = Inr (CHR 0x22 # s @ [CHR 0x22])" "x_marshal page_externals (GRaw s) = Inr s" for s
    by (simp_all add: page_externals_def)
  have "\<exists>d'. WithTx store_io (batch_keys page_externals example_page_libs store_io example_request (e_ID env) feat [''a''] 0 0) (w_db ?w) = (Inr 1, d')"
    by (simp add: env(2) form par batch_key_def auto mar WithTx_def bindT_def returnT_def wrapT_def
        CreateEnvConfig_def new_env_config_def GetEnvConfigByKey_def optional_row_def one_def example_db_def empty_db_def UpsertEnvConfig_def
        writeConfigUpsertAudit_def audit_Create_def execT_def in_tx_def Let_def wrapE_def)
  then obtain d' where "WithTx store_io (batch_keys page_externals example_page_libs store_io example_request (e_ID env) feat [''a''] 0 0) (w_db ?w) = (Inr 1, d')"
    by blast
  then have "redirected (fst ?h) \<and> snd (snd ?h) = 1"
    using feat env(1) by (simp add: BatchUpdateConfigHandler_def form(5,6) par(3) on_tables_def TriggerReconcile_def)
  then obtain reply w' where h: "?h = (reply, w', 1)" "redirected reply" by (metis prod.collapse)
  have "json_laws page_externals store_io" by (auto simp: json_laws_def page_externals_def split: gval.splits)
  moreover have "changed example_request ''a''" "submitted page_externals example_request ''a'' = Inr (CHR 0x22 # ''green'' @ [CHR 0x22])"
    by (simp_all add: changed_def submitted_def form auto mar)
  ultimately show ?thesis
    using batch_update_sets [OF h(1) env(1), of "[''a'']"] h env(2)
    by (auto simp: par form form_ids_def fresh_ids_def rows_stored_def example_db_def empty_db_def inj_def)
qed

section \<open>Where a redirect leads\<close>

text \<open>
  An address of the form is accepted for its leading slash, so that one which names another host, \<open>//host/path\<close>, is accepted too.
\<close>

lemma redirect_leaves_the_site:
  "FormValue r ''redirect'' = ''//'' @ host \<Longrightarrow> redirectOrDefault r path = ''//'' @ host \<and> deactivateRedirect l r = ''//'' @ host"
  by (simp add: redirectOrDefault_def deactivateRedirect_def strings_HasPrefix_def)

text \<open>An address that is made from the path of the page stays on the site, whatever the parameters are.\<close>

lemma featureBasePath_local: "featureBasePath r \<noteq> [] \<and> hd (featureBasePath r) = CHR ''/'' \<and> featureBasePath r ! 1 = CHR ''f''"
  by (simp add: featureBasePath_def featureBasePathValues_def)

end
