(* ===== verification/Feature_Pages.thy ===== *)
theory Feature_Pages
  imports Audit_Log Page_Writes
begin

text \<open>
  What the pages of a feature show: \<open>internal/ui/featureenvs/environments.go\<close>, the data behind
  \<open>internal/ui/pages/features/feature_assignments.go\<close> and the emphasis of a column,
  \<open>internal/ui/components/consensus.go\<close>.

  Both loaders pick the winner of every environment in Go, from the active assignments of the feature. Maps keyed by the text
  of two UUIDs are keyed by the two UUIDs, which that text determines. The theorems: the winner a page shows is the one
  \<open>WinningAssignment\<close> returns, with the status of the status API; both loaders agree; the form that sets a version
  posts the target it was rendered for; the emphasis of a column is that of a strict majority value.
\<close>

section \<open>The environments of a feature\<close>

record envInfo =
  ei_env :: Environment
  ei_tenantName :: string
  ei_labels :: Labels

record FeatureEnvironment =
  fe_TenantName :: string
  fe_TenantSlug :: string
  fe_EnvironmentName :: string
  fe_Version :: string
  fe_AssignmentID :: string
  fe_Enabled :: bool
  fe_DisableReason :: string
  fe_EnvReconcileDisabled :: bool
  fe_LastModified :: gotime
  fe_Status :: string

text \<open>A label that is absent reads as the empty string.\<close>

definition targetMatchesLabels :: "Labels \<Rightarrow> Labels \<Rightarrow> bool" where
  "targetMatchesLabels target envLabels \<longleftrightarrow>
     list_all (\<lambda>(k, v). (case map_of envLabels k of None \<Rightarrow> [] | Some w \<Rightarrow> w) = v) target"

definition label_value :: "Labels \<Rightarrow> string \<Rightarrow> string" where
  "label_value labels k = (case map_of labels k of None \<Rightarrow> [] | Some v \<Rightarrow> v)"

definition targetKey :: "Labels \<Rightarrow> string" where
  "targetKey labels = fold (\<lambda>k ret. ret @ k @ ''='' @ label_value labels k @ '';'') (sort (map fst labels)) []"

fun latest_per_target :: "(Labels \<Rightarrow> string) \<Rightarrow> FeatureAssignment list \<Rightarrow> string list \<Rightarrow> FeatureAssignment list" where
  "latest_per_target key [] seen = []"
| "latest_per_target key (a # fas) seen =
     (if List.member seen (key (as_TargetLabels a)) then latest_per_target key fas seen
      else a # latest_per_target key fas (key (as_TargetLabels a) # seen))"

definition latestAssignmentPerTarget :: "FeatureAssignment list \<Rightarrow> FeatureAssignment list" where
  "latestAssignmentPerTarget fas = latest_per_target targetKey fas []"

definition pick_winner :: "envInfo \<Rightarrow> FeatureAssignment \<Rightarrow> (uuid, FeatureAssignment) gomap \<Rightarrow> (uuid, FeatureAssignment) gomap" where
  "pick_winner env a winners =
     (if \<not> targetMatchesLabels (as_TargetLabels a) (ei_labels env) then winners
      else case map_of winners (e_ID (ei_env env)) of
          None \<Rightarrow> gm_put (e_ID (ei_env env)) a winners
        | Some existing \<Rightarrow>
            if IsMoreSpecific (as_TargetLabels a) (as_TargetLabels existing) (as_Created a) (as_Created existing)
            then gm_put (e_ID (ei_env env)) a winners else winners)"

definition winningAssignments :: "FeatureAssignment list \<Rightarrow> envInfo list \<Rightarrow> (uuid, FeatureAssignment) gomap" where
  "winningAssignments assignments envs = fold (\<lambda>env. fold (pick_winner env) assignments) envs []"

definition index_statuses ::
  "(uuid, FeatureReconcileStatus list) gomap \<Rightarrow> FeatureAssignment list \<Rightarrow> (uuid \<times> uuid, FeatureReconcileStatus) gomap" where
  "index_statuses statusesByFA assignments =
     fold (\<lambda>a. fold (\<lambda>status. gm_put (as_ID a, rst_EnvironmentID status) status) (gm_list statusesByFA (as_ID a))) assignments []"

definition reconcileStatuses :: "io \<Rightarrow> FeatureAssignment list \<Rightarrow> db \<Rightarrow> (uuid \<times> uuid, FeatureReconcileStatus) gomap" where
  "reconcileStatuses io assignments d =
     (case AllReconcileStatuses io d of Inl e \<Rightarrow> [] | Inr statusesByFA \<Rightarrow> index_statuses statusesByFA assignments)"

definition env_info :: "Environment \<times> string \<times> uuid \<Rightarrow> envInfo" where
  "env_info te = (case te of (e, tenantName, tenantID) \<Rightarrow> \<lparr>ei_env = e, ei_tenantName = tenantName, ei_labels = e_Labels e\<rparr>)"

definition targetedEnvironments :: "io \<Rightarrow> db \<Rightarrow> envInfo list" where
  "targetedEnvironments io d = (case ListTenantEnvironments io False d of Inl e \<Rightarrow> [] | Inr envs \<Rightarrow> map env_info envs)"

definition environment_row ::
  "io \<Rightarrow> string \<Rightarrow> db \<Rightarrow> (uuid, gotime) gomap \<Rightarrow> (uuid \<times> uuid, FeatureReconcileStatus) gomap \<Rightarrow> envInfo \<Rightarrow> FeatureAssignment \<Rightarrow>
    FeatureEnvironment" where
  "environment_row io name d disabledByEnv statuses env winner =
     (let envID = e_ID (ei_env env);
          disabledAt = map_of disabledByEnv envID;
          row = \<lparr>fe_TenantName = ei_tenantName env, fe_TenantSlug = ei_tenantName env, fe_EnvironmentName = e_Name (ei_env env),
             fe_Version = f_Version (as_Feature winner), fe_AssignmentID = uuid_String (as_ID winner),
             fe_Enabled = (disabledAt = None),
             fe_DisableReason = (if disabledAt = None then [] else LatestDisableReason io name envID d),
             fe_EnvReconcileDisabled = (\<not> e_Reconcile (ei_env env)),
             fe_LastModified = (case disabledAt of None \<Rightarrow> 0 | Some t \<Rightarrow> t), fe_Status = ''UNKNOWN''\<rparr>
      in if \<not> e_Reconcile (ei_env env) then row \<lparr>fe_Status := ''DISABLED''\<rparr>
         else if disabledAt \<noteq> None then row \<lparr>fe_Status := ''DISABLED''\<rparr>
         else case map_of statuses (as_ID winner, envID) of
             None \<Rightarrow> row
           | Some s \<Rightarrow> row \<lparr>fe_Status := NormalizeStatus (rst_State s), fe_LastModified := rst_LastModified s\<rparr>)"

definition LoadEnvironments :: "externals \<Rightarrow> io \<Rightarrow> string \<Rightarrow> db \<Rightarrow> FeatureEnvironment list" where
  "LoadEnvironments x io name d =
     (case ListByFeature x io name d of
        Inl e \<Rightarrow> []
      | Inr listed \<Rightarrow>
          if listed = [] then []
          else let assignments = latestAssignmentPerTarget listed;
                   targetedEnvs = targetedEnvironments io d;
                   winners = winningAssignments assignments targetedEnvs;
                   statuses = reconcileStatuses io assignments d
               in case ListDisabledEnvironmentsForFeature io name d of
                    Inl e \<Rightarrow> []
                  | Inr disabledByEnv \<Rightarrow>
                      sort_key (\<lambda>r. (fe_TenantName r, fe_EnvironmentName r))
                        (List.map_filter (\<lambda>env. map_option (environment_row io name d disabledByEnv statuses env)
                           (map_of winners (e_ID (ei_env env)))) targetedEnvs))"

section \<open>The assignments of a feature and the environments they target\<close>

record AssignmentEnvStatus =
  aes_Name :: string
  aes_EnvironmentID :: string
  aes_TenantName :: string
  aes_TenantSlug :: string
  aes_Enabled :: bool
  aes_DisableReason :: string
  aes_EnvReconcileDisabled :: bool
  aes_LastModified :: gotime
  aes_LastDeployed :: gotime
  aes_StatusText :: string
  aes_FeatureAssignmentID :: string
  aes_AssignmentVersion :: string
  aes_AssignmentDescription :: string
  aes_ChartDescription :: string
  aes_ReleaseVersion :: string
  aes_TargetLabels :: Labels
  aes_IsOverridden :: bool
  aes_OverriddenByID :: string
  aes_OverriddenByVersion :: string
  aes_OverriddenByLabels :: Labels
  aes_DeployInstructionID :: string

text \<open>The page has its own key of a target, with another separator.\<close>

definition features_targetKey :: "Labels \<Rightarrow> string" where
  "features_targetKey labels = strings_Join (map (\<lambda>k. k @ ''='' @ label_value labels k) (sort (map fst labels))) '',''"

definition features_latestAssignmentPerTarget :: "FeatureAssignment list \<Rightarrow> FeatureAssignment list" where
  "features_latestAssignmentPerTarget fas = latest_per_target features_targetKey fas []"

record status_tables =
  st_disabledByEnv :: "(uuid, gotime) gomap"
  st_latestDeployed :: "(uuid, FeatureDeployInstruction) gomap"
  st_latestInstruction :: "(uuid, FeatureDeployInstruction) gomap"
  st_releaseByEnv :: "(uuid, FeatureRelease) gomap"
  st_statusByAssignmentEnv :: "(uuid \<times> uuid, FeatureReconcileStatus) gomap"
  st_winners :: "(uuid, FeatureAssignment) gomap"

definition standing :: "status_tables \<Rightarrow> FeatureAssignment \<Rightarrow> envInfo \<Rightarrow> AssignmentEnvStatus \<Rightarrow> AssignmentEnvStatus" where
  "standing st a env es =
     (if \<not> e_Reconcile (ei_env env) then es \<lparr>aes_StatusText := ''DISABLED''\<rparr>
      else case map_of (st_disabledByEnv st) (e_ID (ei_env env)) of
          Some disabledAt \<Rightarrow> es \<lparr>aes_StatusText := ''DISABLED'', aes_LastModified := disabledAt\<rparr>
        | None \<Rightarrow> (case map_of (st_statusByAssignmentEnv st) (as_ID a, e_ID (ei_env env)) of
              None \<Rightarrow> es \<lparr>aes_StatusText := ''UNKNOWN''\<rparr>
            | Some status \<Rightarrow> es \<lparr>aes_StatusText := NormalizeStatus (rst_State status), aes_LastModified := rst_LastModified status\<rparr>))"

definition assignment_row :: "io \<Rightarrow> string \<Rightarrow> db \<Rightarrow> status_tables \<Rightarrow> FeatureAssignment \<Rightarrow> envInfo \<Rightarrow> AssignmentEnvStatus" where
  "assignment_row io name d st a env =
     (let envID = e_ID (ei_env env);
          disabledAt = map_of (st_disabledByEnv st) envID;
          es = \<lparr>aes_Name = e_Name (ei_env env), aes_EnvironmentID = uuid_String envID, aes_TenantName = ei_tenantName env,
             aes_TenantSlug = ei_tenantName env, aes_Enabled = (disabledAt = None),
             aes_DisableReason = (if disabledAt = None then [] else LatestDisableReason io name envID d),
             aes_EnvReconcileDisabled = (\<not> e_Reconcile (ei_env env)),
             aes_LastModified = (case disabledAt of None \<Rightarrow> 0 | Some t \<Rightarrow> t),
             aes_LastDeployed = (case map_of (st_latestDeployed st) envID of None \<Rightarrow> 0 | Some di \<Rightarrow> di_LastModified di),
             aes_StatusText = [], aes_FeatureAssignmentID = uuid_String (as_ID a),
             aes_AssignmentVersion = f_Version (as_Feature a),
             aes_AssignmentDescription = (case as_Description a of None \<Rightarrow> [] | Some t \<Rightarrow> t),
             aes_ChartDescription = f_Description (as_Feature a),
             aes_ReleaseVersion = (case map_of (st_releaseByEnv st) envID of None \<Rightarrow> [] | Some r \<Rightarrow> fr_Version r),
             aes_TargetLabels = as_TargetLabels a, aes_IsOverridden = False, aes_OverriddenByID = [], aes_OverriddenByVersion = [],
             aes_OverriddenByLabels = [],
             aes_DeployInstructionID = (case map_of (st_latestInstruction st) envID of None \<Rightarrow> [] | Some di \<Rightarrow> uuid_String (di_ID di))\<rparr>
      in case map_of (st_winners st) envID of
           Some winner \<Rightarrow>
             if as_ID winner \<noteq> as_ID a then
               es \<lparr>aes_IsOverridden := True, aes_OverriddenByID := uuid_String (as_ID winner),
                   aes_OverriddenByVersion := f_Version (as_Feature winner), aes_OverriddenByLabels := as_TargetLabels winner,
                   aes_StatusText := ''OVERRIDDEN''\<rparr>
             else standing st a env es
         | None \<Rightarrow> standing st a env es)"

definition featureAssignmentEnvStatuses :: "externals \<Rightarrow> io \<Rightarrow> string \<Rightarrow> db \<Rightarrow> AssignmentEnvStatus list" where
  "featureAssignmentEnvStatuses x io name d =
     (case
        bindE (ListByFeature x io name d) (\<lambda>listed.
        if listed = [] then Inr []
        else let fas = features_latestAssignmentPerTarget listed in
        bindE (ListTenantEnvironments io False d) (\<lambda>tenantEnvs.
        let allEnvs = map env_info tenantEnvs in
        bindE (AllReconcileStatuses io d) (\<lambda>statusesByFA.
        bindE (ListDisabledEnvironmentsForFeature io name d) (\<lambda>disabledByEnv.
        bindE (LatestDeployedForFeature io name d) (\<lambda>latestDeployed.
        bindE (LatestDeployInstructionsForFeature io name d) (\<lambda>latestInstruction.
        bindE (ReleaseStatusesForFeature io name d) (\<lambda>releaseByEnv.
        let st = \<lparr>st_disabledByEnv = disabledByEnv, st_latestDeployed = latestDeployed, st_latestInstruction = latestInstruction,
              st_releaseByEnv = releaseByEnv, st_statusByAssignmentEnv = index_statuses statusesByFA fas,
              st_winners = winningAssignments fas allEnvs\<rparr>
        in Inr (concat (map (\<lambda>a. map (assignment_row io name d st a)
             (filter (\<lambda>env. targetMatchesLabels (as_TargetLabels a) (ei_labels env)) allEnvs)) fas)))))))))
      of Inl (e :: err) \<Rightarrow> [] | Inr rows \<Rightarrow> rows)"

definition currentAssignmentEnvStatuses :: "AssignmentEnvStatus list \<Rightarrow> AssignmentEnvStatus list" where
  "currentAssignmentEnvStatuses envs = filter (\<lambda>env. \<not> aes_IsOverridden env) envs"

text \<open>A stable sort: overridden rows last, then tenant and name.\<close>

definition sortEnvs :: "AssignmentEnvStatus list \<Rightarrow> AssignmentEnvStatus list" where
  "sortEnvs envs = sort_key (\<lambda>env. (aes_IsOverridden env, aes_TenantName env, aes_Name env)) envs"

text \<open>The rows of the overview table.\<close>

definition overviewTable :: "AssignmentEnvStatus list \<Rightarrow> AssignmentEnvStatus list" where
  "overviewTable data = sortEnvs (currentAssignmentEnvStatuses data)"

definition fallbackVersionMap :: "AssignmentEnvStatus list \<Rightarrow> (string, string) gomap" where
  "fallbackVersionMap envs = fold (\<lambda>env fallbacks.
     if aes_IsOverridden env \<and> aes_OverriddenByID env \<noteq> [] then gm_put (aes_OverriddenByID env) (aes_AssignmentVersion env) fallbacks
     else fallbacks) envs []"

record card =
  cd_Title :: string
  cd_LinkHref :: string
  cd_Labels :: Labels
  cd_FeatureAssignmentID :: string
  cd_Creator :: string
  cd_Description :: string
  cd_Environments :: "AssignmentEnvStatus list"

definition new_card :: "string \<Rightarrow> (string, string) gomap \<Rightarrow> AssignmentEnvStatus \<Rightarrow> card" where
  "new_card featureName creators env =
     \<lparr>cd_Title = aes_AssignmentVersion env,
      cd_LinkHref = ''/features/'' @ featureName @ ''/assignments/'' @ aes_FeatureAssignmentID env,
      cd_Labels = aes_TargetLabels env, cd_FeatureAssignmentID = aes_FeatureAssignmentID env,
      cd_Creator = label_value creators (aes_FeatureAssignmentID env), cd_Description = aes_AssignmentDescription env,
      cd_Environments = []\<rparr>"

definition add_to_card ::
  "string \<Rightarrow> (string, string) gomap \<Rightarrow> AssignmentEnvStatus \<Rightarrow> (string, card) gomap \<times> string list \<Rightarrow> (string, card) gomap \<times> string list" where
  "add_to_card featureName creators env go = (case go of (groups, order) \<Rightarrow>
     let id = aes_FeatureAssignmentID env;
         (c, order') = (case map_of groups id of None \<Rightarrow> (new_card featureName creators env, order @ [id]) | Some c \<Rightarrow> (c, order))
     in (gm_put id (c \<lparr>cd_Environments := cd_Environments c @ [env]\<rparr>) groups, order'))"

definition groupByAssignmentCards :: "AssignmentEnvStatus list \<Rightarrow> string \<Rightarrow> (string, string) gomap \<Rightarrow> card list" where
  "groupByAssignmentCards envs featureName creators =
     (case fold (add_to_card featureName creators) envs ([], []) of (groups, order) \<Rightarrow>
        map (\<lambda>id. let c = the (map_of groups id) in c \<lparr>cd_Environments := sortEnvs (cd_Environments c)\<rparr>) order)"

text \<open>The creators of the assignments of a page; the identifiers that do not parse are skipped.\<close>

definition assignmentCreators ::
  "externals \<Rightarrow> io \<Rightarrow> (string \<Rightarrow> err + uuid) \<Rightarrow> AssignmentEnvStatus list \<Rightarrow> db \<Rightarrow> err + (string, string) gomap" where
  "assignmentCreators x io parse envs d =
     (let ids = fold (\<lambda>env ids. case parse (aes_FeatureAssignmentID env) of
                  Inl e \<Rightarrow> ids | Inr u \<Rightarrow> if List.member ids u then ids else ids @ [u]) envs []
      in bindE (AssignmentCreators x io parse ids d) (\<lambda>creators.
         Inr (index_by (\<lambda>(u, creator). uuid_String u) snd creators)))"

text \<open>The label keys of all environments with the values each takes, for the form of a new assignment.\<close>

definition loadAssignmentLabelOptions :: "io \<Rightarrow> db \<Rightarrow> err + (string \<times> string list) list" where
  "loadAssignmentLabelOptions io d =
     bindE (ListTenantEnvironments io False d) (\<lambda>tenantEnvs.
       let valuesByKey = group_by fst snd (concat (map (\<lambda>(e, tenantName, tenantID). e_Labels e) tenantEnvs))
       in Inr (map (\<lambda>(key, values). (key, sort (remdups values))) valuesByKey))"

text \<open>The statuses of a card with how many environments have each, the known ones in a fixed order.\<close>

definition status_order :: "string list" where
  "status_order = [''DEPLOYED'', ''INSTALLING'', ''SENT'', ''PENDING'', ''UNKNOWN'', ''MISSING-DEPS'', ''MISSING-CONFIG'', ''RENDER-ERROR'',
     ''FAILED'', ''UNHEALTHY'', ''DISABLED'', ''OVERRIDDEN'', ''INACTIVE'']"

definition assignmentStatusSummary :: "AssignmentEnvStatus list \<Rightarrow> (string \<times> nat) list" where
  "assignmentStatusSummary envs =
     (let counts = (\<lambda>s. count_list (map aes_StatusText envs) s);
          known = filter (\<lambda>s. counts s > 0) status_order;
          rest = sort (filter (\<lambda>s. \<not> List.member known s) (remdups (map aes_StatusText envs)))
      in map (\<lambda>s. (s, counts s)) (known @ rest))"

definition hasDrift :: "AssignmentEnvStatus \<Rightarrow> bool" where
  "hasDrift env \<longleftrightarrow> aes_ReleaseVersion env \<noteq> [] \<and> aes_ReleaseVersion env \<noteq> aes_AssignmentVersion env"

definition features_formatLabels :: "Labels \<Rightarrow> string" where
  "features_formatLabels labels =
     (if labels = [] then [] else strings_Join (map (\<lambda>k. k @ ''='' @ label_value labels k) (sort (map fst labels))) '', '')"

definition em_dash :: string where
  "em_dash = '' '' @ [CHR 0xE2, CHR 0x80, CHR 0x94] @ '' ''"

definition statusTooltip :: "AssignmentEnvStatus \<Rightarrow> string" where
  "statusTooltip env =
     (let running = (if aes_ReleaseVersion env \<noteq> [] then em_dash @ ''Running: '' @ aes_ReleaseVersion env else [])
      in if aes_IsOverridden env then
           strings_Join
             ((if aes_OverriddenByVersion env \<noteq> [] then [''Overridden by '' @ aes_OverriddenByVersion env] else [''Overridden'']) @
              (if features_formatLabels (aes_OverriddenByLabels env) \<noteq> [] then [''target: '' @ features_formatLabels (aes_OverriddenByLabels env)]
               else [])) em_dash
         else if aes_EnvReconcileDisabled env then ''Environment reconcile disabled'' @ running
         else if \<not> aes_Enabled env then
           ''Feature reconcile disabled'' @
             (if aes_DisableReason env \<noteq> [] then '': '' @ aes_DisableReason env
              else '': disabled before we started requiring reason'') @ running
         else if List.member [''MISSING-DEPS'', ''MISSING-CONFIG'', ''RENDER-ERROR'', ''FAILED''] (aes_StatusText env) then []
         else if aes_ReleaseVersion env \<noteq> [] \<and> aes_ReleaseVersion env \<noteq> aes_AssignmentVersion env then
           ''Currently: '' @ aes_ReleaseVersion env
         else if strings_HasPrefix (aes_StatusText env) ''PENDING'' \<and> aes_ReleaseVersion env = [] then ''No release deployed yet''
         else [])"

text \<open>The hidden inputs of the form that sets the version of an assignment.\<close>

definition setVersionPopover :: "string \<Rightarrow> string \<Rightarrow> Labels \<Rightarrow> (string \<times> string) list" where
  "setVersionPopover featureName chart target =
     [(''feature_name'', featureName), (''chart'', chart)] @
     map (\<lambda>k. (''target_label'', k @ ''='' @ label_value target k)) (sort (map fst target))"

section \<open>The emphasis of a column\<close>

datatype Emphasis = EmphasisNone | EmphasisConsensus | EmphasisOutlier

definition note_count :: "string \<times> nat \<Rightarrow> string \<times> nat \<times> bool \<Rightarrow> string \<times> nat \<times> bool" where
  "note_count vc s = (case (vc, s) of ((v, c), (dominant, most, tie)) \<Rightarrow>
     if c > most then (v, c, False) else if c = most then (dominant, most, True) else s)"

definition ColumnConsensus :: "string list \<Rightarrow> Emphasis list" where
  "ColumnConsensus values =
     (if length values < 2 then replicate (length values) EmphasisNone
      else let counts = map (\<lambda>v. (v, count_list values v)) (sort (remdups values))
           in if length counts = 1 then replicate (length values) EmphasisConsensus
              else case fold note_count counts ([], 0, False) of (dominant, most, tie) \<Rightarrow>
                if tie then replicate (length values) EmphasisNone
                else map (\<lambda>v. if v = dominant then EmphasisConsensus else EmphasisOutlier) values)"

definition assignmentVersionEmphasis :: "AssignmentEnvStatus list \<Rightarrow> Emphasis list" where
  "assignmentVersionEmphasis envs = ColumnConsensus (map aes_AssignmentVersion envs)"

section \<open>Keys of targets\<close>

definition plain_labels :: "Labels \<Rightarrow> bool" where
  "plain_labels t \<longleftrightarrow> gm_ok t \<and> list_all (\<lambda>(k, v). CHR ''='' \<notin> set k \<and> CHR '';'' \<notin> set v \<and> CHR '','' \<notin> set v) t"

lemma label_value_entry: "gm_ok t \<Longrightarrow> (k, v) \<in> set t \<Longrightarrow> label_value t k = v"
  by (simp add: label_value_def gm_entry_iff)

lemma sorted_keys: "gm_ok t \<Longrightarrow> sort (map fst t) = map fst t"
  by (simp add: gm_ok_def strict_sorted_iff sorted_sort_id)

lemma map_sorted_keys: "gm_ok t \<Longrightarrow> map (\<lambda>k. g k (label_value t k)) (sort (map fst t)) = map (\<lambda>(k, v). g k v) t"
  by (auto simp: sorted_keys label_value_entry)

lemma fold_concat: "fold (\<lambda>k ret. ret @ g k) ks r = r @ concat (map g ks)"
  by (induction ks arbitrary: r) auto

lemma targetKey_concat: "gm_ok t \<Longrightarrow> targetKey t = concat (map (\<lambda>(k, v). k @ ''='' @ v @ '';'') t)"
  using map_sorted_keys [of t "\<lambda>k v. k @ ''='' @ v @ '';''"] by (simp add: targetKey_def fold_concat)

lemma features_targetKey_join: "gm_ok t \<Longrightarrow> features_targetKey t = strings_Join (map (\<lambda>(k, v). k @ ''='' @ v) t) '',''"
  using map_sorted_keys [of t "\<lambda>k v. k @ ''='' @ v"] by (simp add: features_targetKey_def)

lemma cut_unique: "(c :: char) \<notin> set a \<Longrightarrow> c \<notin> set a' \<Longrightarrow> a @ c # r = a' @ c # r' \<longleftrightarrow> a = a' \<and> r = r'"
  by (metis strings_Cut_append prod.inject)

lemma concat_keys_inj:
  assumes "list_all (\<lambda>(k, v). CHR ''='' \<notin> set k \<and> CHR '';'' \<notin> set v) t" and "list_all (\<lambda>(k, v). CHR ''='' \<notin> set k \<and> CHR '';'' \<notin> set v) t'"
    and "concat (map (\<lambda>(k, v). k @ ''='' @ v @ '';'') t) = concat (map (\<lambda>(k, v). k @ ''='' @ v @ '';'') t')"
  shows "t = t'"
  using assms
proof (induction t arbitrary: t')
  case Nil
  then show ?case by (cases t') auto
next
  case (Cons e t)
  then obtain e' s where t': "t' = e' # s" by (cases t') auto
  show ?case using Cons.prems Cons.IH [of s] by (auto simp: t' cut_unique)
qed

lemma join_keys_inj:
  assumes "list_all (\<lambda>(k, v). CHR ''='' \<notin> set k \<and> CHR '','' \<notin> set v) t" and "list_all (\<lambda>(k, v). CHR ''='' \<notin> set k \<and> CHR '','' \<notin> set v) t'"
    and "strings_Join (map (\<lambda>(k, v). k @ ''='' @ v) t) '','' = strings_Join (map (\<lambda>(k, v). k @ ''='' @ v) t') '',''"
  shows "t = t'"
  using assms
proof (induction t arbitrary: t')
  case Nil
  then show ?case by (cases t' rule: remdups_adj.cases) auto
next
  case (Cons e t)
  obtain k v where e: "e = (k, v)" by (cases e)
  from Cons.prems obtain k' v' s where t': "t' = (k', v') # s"
    by (cases t'; cases t) (auto simp: e)
  have tail: "strings_Join (map (\<lambda>(k, v). k @ ''='' @ v) ((k, v) # t)) '','' =
      k @ CHR ''='' # v @ (if t = [] then [] else CHR '','' # strings_Join (map (\<lambda>(k, v). k @ ''='' @ v) t) '','')" for k v t
    by (cases t) auto
  have rest: "v @ (if t = [] then [] else CHR '','' # strings_Join (map (\<lambda>(k, v). k @ ''='' @ v) t) '','') =
      v' @ (if s = [] then [] else CHR '','' # strings_Join (map (\<lambda>(k, v). k @ ''='' @ v) s) '','')" and k: "k = k'"
    using Cons.prems unfolding e t' tail by (simp_all add: cut_unique)
  have "CHR '','' \<notin> set v" "CHR '','' \<notin> set v'" using Cons.prems by (simp_all add: e t')
  then consider "t = []" "s = []" "v = v'" | "t \<noteq> []" "s \<noteq> []" "v = v'"
      "strings_Join (map (\<lambda>(k, v). k @ ''='' @ v) t) '','' = strings_Join (map (\<lambda>(k, v). k @ ''='' @ v) s) '',''"
    using rest by (cases "t = []"; cases "s = []") (auto simp: cut_unique)
  then show ?case using Cons.prems Cons.IH [of s] by cases (auto simp: e t' k)
qed

lemma targetKey_inj:
  assumes "plain_labels t" and "plain_labels t'"
  shows "targetKey t = targetKey t' \<longleftrightarrow> t = t'" and "features_targetKey t = features_targetKey t' \<longleftrightarrow> t = t'"
proof -
  have ok: "gm_ok t" "gm_ok t'" using assms by (simp_all add: plain_labels_def)
  have "list_all (\<lambda>(k, v). CHR ''='' \<notin> set k \<and> CHR '';'' \<notin> set v) t" "list_all (\<lambda>(k, v). CHR ''='' \<notin> set k \<and> CHR '';'' \<notin> set v) t'"
    "list_all (\<lambda>(k, v). CHR ''='' \<notin> set k \<and> CHR '','' \<notin> set v) t" "list_all (\<lambda>(k, v). CHR ''='' \<notin> set k \<and> CHR '','' \<notin> set v) t'"
    using assms by (auto simp: plain_labels_def list_all_iff)
  then show "targetKey t = targetKey t' \<longleftrightarrow> t = t'" "features_targetKey t = features_targetKey t' \<longleftrightarrow> t = t'"
    using concat_keys_inj [of t t'] join_keys_inj [of t t'] by (auto simp: targetKey_concat features_targetKey_join ok)
qed

text \<open>Two different targets with one key, of which a page would show one.\<close>

lemma targetKey_collision: "targetKey [(''a'', ''1;b=2'')] = targetKey [(''a'', ''1''), (''b'', ''2'')]"
  by (simp add: targetKey_def label_value_def)

lemma latest_per_target_id:
  assumes "distinct (map (key \<circ> as_TargetLabels) fas)" and "set seen \<inter> (key \<circ> as_TargetLabels) ` set fas = {}"
  shows "latest_per_target key fas seen = fas"
  using assms by (induction fas arbitrary: seen) auto

section \<open>The winner of an environment\<close>

lemma targetMatchesLabels_contain: "targetMatchesLabels target labels \<longleftrightarrow> labelsContain labels target"
  by (simp add: targetMatchesLabels_def labelsContain_def)

text \<open>What one environment keeps while the assignments are ranged over.\<close>

definition better :: "Labels \<Rightarrow> FeatureAssignment \<Rightarrow> FeatureAssignment option \<Rightarrow> FeatureAssignment option" where
  "better labels a best =
     (if \<not> targetMatchesLabels (as_TargetLabels a) labels then best
      else case best of None \<Rightarrow> Some a | Some b \<Rightarrow> if as_rank b < as_rank a then Some a else best)"

lemma better_fold:
  "case fold (better labels) fas None of
     None \<Rightarrow> \<forall>a \<in> set fas. \<not> targetMatchesLabels (as_TargetLabels a) labels
   | Some w \<Rightarrow> w \<in> set fas \<and> targetMatchesLabels (as_TargetLabels w) labels \<and>
       (\<forall>a \<in> set fas. targetMatchesLabels (as_TargetLabels a) labels \<longrightarrow> as_rank a \<le> as_rank w)"
proof (induction fas rule: rev_induct)
  case (snoc a fas)
  then show ?case by (auto simp: better_def split: option.splits intro: order_trans less_imp_le)
qed simp

lemma pick_winner_lookup:
  "map_of (pick_winner env a winners) k = (if k = e_ID (ei_env env) then better (ei_labels env) a (map_of winners k) else map_of winners k)"
  by (auto simp: pick_winner_def better_def IsMoreSpecific_iff as_rank_def split: option.split)

lemma fold_pick_winner:
  "map_of (fold (pick_winner env) fas m) k =
     (if k = e_ID (ei_env env) then fold (better (ei_labels env)) fas (map_of m k) else map_of m k)"
  by (induction fas arbitrary: m) (simp_all add: pick_winner_lookup)

lemma fold_winners_other:
  "k \<notin> (\<lambda>env. e_ID (ei_env env)) ` set envs \<Longrightarrow> map_of (fold (\<lambda>env. fold (pick_winner env) fas) envs m) k = map_of m k"
  by (induction envs arbitrary: m) (auto simp: fold_pick_winner)

lemma winningAssignments_lookup:
  assumes "distinct (map (\<lambda>env. e_ID (ei_env env)) envs)" and "env \<in> set envs"
  shows "map_of (winningAssignments fas envs) (e_ID (ei_env env)) = fold (better (ei_labels env)) fas None"
proof -
  have "map_of (fold (\<lambda>env. fold (pick_winner env) fas) envs m) (e_ID (ei_env env)) = fold (better (ei_labels env)) fas None"
    if "map_of m (e_ID (ei_env env)) = None" "distinct (map (\<lambda>env. e_ID (ei_env env)) envs)" "env \<in> set envs" for m envs
    using that
  proof (induction envs arbitrary: m)
    case (Cons e envs)
    show ?case
    proof (cases "e = env")
      case True
      then show ?thesis using Cons.prems by (simp add: fold_winners_other fold_pick_winner)
    next
      case False
      then have "env \<in> set envs" "e_ID (ei_env e) \<noteq> e_ID (ei_env env)" using Cons.prems by (auto simp: image_iff)
      then show ?thesis using Cons.IH Cons.prems by (simp add: fold_pick_winner)
    qed
  qed simp
  then show ?thesis using assms by (simp add: winningAssignments_def)
qed

text \<open>
  What the database keeps, and what the pages rely on: identifiers are distinct, one assignment of a feature to a target is
  active, target labels are plain and not empty, and no two active assignments of the feature were created at one instant.
\<close>

definition page_data_ok :: "string \<Rightarrow> db \<Rightarrow> bool" where
  "page_data_ok name d \<longleftrightarrow> assignments_ok d \<and> targets_filled d \<and> distinct (map e_ID (environments d)) \<and>
     distinct (map t_ID (tenants d)) \<and> distinct (map fd_key (feature_data d)) \<and> distinct (map fa_id (feature_assignments d)) \<and>
     list_all (\<lambda>a. plain_labels (fa_target a)) (feature_assignments d) \<and>
     distinct (map fa_created (filter (\<lambda>a. fa_feature_name a = name \<and> fa_active a) (feature_assignments d)))"

lemma filter_at_most_one: "distinct (map f xs) \<Longrightarrow> filter (\<lambda>y. f y = k) xs = [] \<or> (\<exists>x. filter (\<lambda>y. f y = k) xs = [x])"
proof (cases "k \<in> f ` set xs")
  case True
  then obtain x where "x \<in> set xs" "k = f x" by blast
  then show "distinct (map f xs) \<Longrightarrow> ?thesis" using filter_id_unique [of f xs x] by auto
qed (auto simp: filter_empty_conv)

lemma with_data_fst:
  assumes "distinct (map fd_key (feature_data d))"
  shows "map fst (with_data d rows) = filter (\<lambda>a. assignment_data d a \<noteq> []) rows"
proof (induction rows)
  case (Cons a rows)
  have "assignment_data d a = filter (\<lambda>fd. fd_key fd = (fa_feature_name a, fa_version a)) (feature_data d)"
    by (auto simp: assignment_data_def fd_key_def intro!: filter_cong)
  then have "assignment_data d a = [] \<or> (\<exists>fd. assignment_data d a = [fd])" using filter_at_most_one [OF assms] by simp
  moreover have "with_data d (a # rows) = map (Pair a) (assignment_data d a) @ with_data d rows" by (simp add: with_data_def)
  ultimately show ?case using Cons by auto
qed (simp add: with_data_def)

lemma distinct_map_sort: "distinct (map f (sort_key k xs)) \<longleftrightarrow> distinct (map f xs)"
  by (metis mset_map mset_sort mset_eq_imp_distinct_iff)

text \<open>The active assignments of a feature, as both loaders list them.\<close>

definition listed_ok :: "string \<Rightarrow> FeatureAssignment list \<Rightarrow> bool" where
  "listed_ok name fas \<longleftrightarrow> distinct (map as_ID fas) \<and> distinct (map as_TargetLabels fas) \<and> distinct (map as_Created fas) \<and>
     list_all (\<lambda>a. as_key a = name \<and> plain_labels (as_TargetLabels a)) fas"

lemma active_rows_distinct:
  assumes "page_data_ok name d"
  defines "act \<equiv> filter (\<lambda>a. fa_feature_name a = name \<and> fa_active a) (feature_assignments d)"
  shows "distinct (map fa_id act)" and "distinct (map fa_target act)" and "distinct (map fa_created act)"
proof -
  have ok: "distinct (map fa_id (feature_assignments d))" "distinct (map fa_key (filter fa_active (feature_assignments d)))"
    using assms(1) by (simp_all add: page_data_ok_def assignments_ok_def)
  show "distinct (map fa_id act)" using ok(1) by (simp add: act_def distinct_map_filter)
  show "distinct (map fa_created act)" using assms(1) by (simp add: page_data_ok_def act_def)
  have act: "act = filter (\<lambda>a. fa_feature_name a = name) (filter fa_active (feature_assignments d))" by (simp add: act_def conj_commute)
  have "distinct (map fa_key act)" unfolding act using ok(2) by (rule distinct_map_filter)
  moreover have "map fa_key act = map (Pair name) (map fa_target act)" by (simp add: fa_key_def act_def)
  ultimately show "distinct (map fa_target act)" by (metis distinct_map)
qed

lemma distinct_active_data:
  assumes ok: "page_data_ok name d" and "distinct (map f (filter (\<lambda>a. fa_feature_name a = name \<and> fa_active a) (feature_assignments d)))"
  shows "distinct (map (\<lambda>row. f (fst row)) (ListFeatureAssignmentsByFeature name d))"
proof -
  let ?act = "filter (\<lambda>a. fa_feature_name a = name \<and> fa_active a) (feature_assignments d)"
  have "distinct (map f (filter (\<lambda>a. assignment_data d a \<noteq> []) ?act))" using assms(2) by (rule distinct_map_filter)
  moreover have "map fst (with_data d ?act) = filter (\<lambda>a. assignment_data d a \<noteq> []) ?act"
    using ok by (intro with_data_fst) (simp add: page_data_ok_def)
  ultimately have "distinct (map f (map fst (with_data d ?act)))" by simp
  then show ?thesis by (simp add: ListFeatureAssignmentsByFeature_def distinct_map_sort comp_def)
qed

lemma listed_conv:
  assumes "ListByFeature x io name d = Inr fas"
  shows "\<exists>conv. fas = map conv (ListFeatureAssignmentsByFeature name d) \<and>
    (\<forall>row \<in> set (ListFeatureAssignmentsByFeature name d). featureAssignmentFromSQL x row = Inr (conv row))"
proof -
  let ?rows = "ListFeatureAssignmentsByFeature name d"
  let ?conv = "\<lambda>row. projr (featureAssignmentFromSQL x row)"
  have m: "mapE (\<lambda>row. wrapE ''make feature assignment'' (featureAssignmentFromSQL x row)) ?rows = Inr fas"
    using assms by (auto simp: ListByFeature_def assignments_from_def bindE_eq_Inr)
  have "\<forall>row \<in> set ?rows. \<exists>y. wrapE ''make feature assignment'' (featureAssignmentFromSQL x row) = Inr y"
    using mapE_Inr_all [of "\<lambda>row. wrapE ''make feature assignment'' (featureAssignmentFromSQL x row)" ?rows] m by blast
  then have conv: "featureAssignmentFromSQL x row = Inr (?conv row)" if "row \<in> set ?rows" for row
    using that by fastforce
  have "mapE (\<lambda>row. wrapE ''make feature assignment'' (featureAssignmentFromSQL x row)) ?rows = Inr (map ?conv ?rows)"
    by (rule mapE_all_Inr) (subst conv, assumption, simp)
  then have "fas = map ?conv ?rows" using m by simp
  then show ?thesis using conv by blast
qed

lemma conv_fields:
  "featureAssignmentFromSQL x row = Inr a \<Longrightarrow> as_ID a = fa_id (fst row) \<and> as_TargetLabels a = fa_target (fst row) \<and>
     as_Created a = fa_created (fst row) \<and> as_Active a = fa_active (fst row)"
  by (cases row) (auto simp: featureAssignmentFromSQL_def bindE_eq_Inr)

lemma conv_key: "featureAssignmentFromSQL x (r, fd) = Inr a \<Longrightarrow> as_key a = fd_name fd"
  by (auto simp: featureAssignmentFromSQL_def featureFromSQL_def bindE_eq_Inr as_key_def)

lemma listed_row:
  "(r, fd) \<in> set (ListFeatureAssignmentsByFeature name d) \<longleftrightarrow>
     (r, fd) \<in> set (with_data d (filter fa_active (feature_assignments d))) \<and> fa_feature_name r = name"
  by (auto simp: ListFeatureAssignmentsByFeature_def with_data_def)

lemma ListByFeature_ok:
  assumes ok: "page_data_ok name d" and run: "ListByFeature x io name d = Inr fas"
  shows "listed_ok name fas"
proof -
  let ?rows = "ListFeatureAssignmentsByFeature name d"
  obtain conv where fas: "fas = map conv ?rows" and all: "\<forall>row \<in> set ?rows. featureAssignmentFromSQL x row = Inr (conv row)"
    using listed_conv [OF run] by blast
  then have conv: "row \<in> set ?rows \<Longrightarrow> featureAssignmentFromSQL x row = Inr (conv row)" for row by blast
  have maps: "map as_ID fas = map (\<lambda>row. fa_id (fst row)) ?rows" "map as_TargetLabels fas = map (\<lambda>row. fa_target (fst row)) ?rows"
    "map as_Created fas = map (\<lambda>row. fa_created (fst row)) ?rows"
    by (auto simp: fas dest!: conv [THEN conv_fields])
  have "as_key (conv row) = name \<and> plain_labels (as_TargetLabels (conv row))" if row: "row \<in> set ?rows" for row
  proof -
    obtain r fd where rw: "row = (r, fd)" by (cases row)
    have r: "r \<in> set (feature_assignments d)" "fa_feature_name r = fd_name fd" "fa_feature_name r = name"
      using row with_data_rows [of r fd d "filter fa_active (feature_assignments d)"] by (auto simp: rw listed_row)
    then show ?thesis using conv [OF row] ok conv_fields [OF conv [OF row]] conv_key [of x r fd]
      by (auto simp: rw page_data_ok_def list_all_iff)
  qed
  then show ?thesis
    unfolding listed_ok_def maps
    using active_rows_distinct [OF ok, THEN distinct_active_data [OF ok]] by (auto simp: fas list_all_iff)
qed

text \<open>The rows of one environment are the listed ones that target it.\<close>

lemma environment_rows:
  assumes ok: "page_data_ok name d" and e: "e \<in> set (environments d)"
  shows "row \<in> set (ListFeatureAssignmentsForFeatureInEnvironment (e_ID e) name d) \<longleftrightarrow>
    row \<in> set (ListFeatureAssignmentsByFeature name d) \<and> targetMatchesLabels (fa_target (fst row)) (e_Labels e)"
proof -
  let ?key = "\<lambda>(a, fd). (fa_feature_name a, fa_target a)"
  let ?data = "with_data d (filter fa_active (feature_assignments d))"
  have one: "filter (\<lambda>e'. e_ID e' = e_ID e) (environments d) = [e]"
    using filter_id_unique [of e_ID "environments d" e] e ok by (simp add: page_data_ok_def)
  have "map ?key ?data = map fa_key (map fst ?data)" by (auto simp: fa_key_def)
  also have "map fst ?data = filter (\<lambda>a. assignment_data d a \<noteq> []) (filter fa_active (feature_assignments d))"
    using ok by (intro with_data_fst) (simp add: page_data_ok_def)
  finally have "distinct (map ?key ?data)"
    using ok by (metis (no_types, lifting) page_data_ok_def assignments_ok_def distinct_map_filter)
  then have "ListLatestFeatureAssignments d = sort_key (\<lambda>(a, fd). (fa_feature_name a, fa_target a, - fa_created a)) ?data"
    unfolding ListLatestFeatureAssignments_with_data by (intro distinct_on_id) (simp only: distinct_map_sort)
  then have latest: "set (ListLatestFeatureAssignments d) = set ?data" by simp
  obtain a fd where row: "row = (a, fd)" by (cases row)
  have "row \<in> set ?data \<Longrightarrow> labels_superset (e_Labels e) (fa_target a) \<longleftrightarrow> targetMatchesLabels (fa_target a) (e_Labels e)"
    using with_data_rows [of a fd d "filter fa_active (feature_assignments d)"] ok
    by (auto simp: row targetMatchesLabels_contain labelsContain_superset page_data_ok_def targets_filled_def list_all_iff)
  then show ?thesis by (auto simp: env_rows(2) [OF one] latest row listed_row simp del: filter_filter)
qed

lemma WinningAssignment_listed:
  assumes ok: "page_data_ok name d" and e: "e \<in> set (environments d)" and run: "ListByFeature x io name d = Inr fas"
    and io: "\<not> io_fails io ''ListFeatureAssignmentsForFeatureInEnvironment''"
  shows "case fold (better (e_Labels e)) fas None of
      Some w \<Rightarrow> WinningAssignment x io (e_ID e) name d = Inr w
    | None \<Rightarrow> \<exists>err. WinningAssignment x io (e_ID e) name d = Inl err \<and> errors_Is err ErrFeatureNotFound"
proof -
  let ?all = "ListFeatureAssignmentsByFeature name d"
  let ?rows = "ListFeatureAssignmentsForFeatureInEnvironment (e_ID e) name d"
  let ?fits = "\<lambda>a. targetMatchesLabels (as_TargetLabels a) (e_Labels e)"
  obtain conv where fas: "fas = map conv ?all" and all: "\<forall>row \<in> set ?all. featureAssignmentFromSQL x row = Inr (conv row)"
    using listed_conv [OF run] by blast
  define zs where "zs = map conv ?rows"
  have fit: "row \<in> set ?all \<Longrightarrow> as_TargetLabels (conv row) = fa_target (fst row)" for row
    using all conv_fields by blast
  have zs: "a \<in> set zs \<longleftrightarrow> a \<in> set fas \<and> ?fits a" for a
    using fit by (auto simp: zs_def fas environment_rows [OF ok e] image_iff)
  have sql: "assignments_from x ?rows = Inr zs"
    unfolding assignments_from_def zs_def using all by (intro mapE_all_Inr) (simp add: environment_rows [OF ok e])
  have listed: "listed_ok name fas" using ListByFeature_ok [OF ok run] .
  have run: "WinningAssignment x io (e_ID e) name d =
      (if zs = [] then Inl (WrapBefore ErrFeatureNotFound (name @ '' in environment''))
       else case mostSpecificPerFeature_fa zs of
         [] \<Rightarrow> Inl (WrapBefore ErrFeatureNotFound (name @ '' in environment after filtering'')) | w # _ \<Rightarrow> Inr w)"
    using io sql by (simp add: WinningAssignment_def mostSpecificAssignment_def query_def zs_def)
  show ?thesis
  proof (cases "fold (better (e_Labels e)) fas None")
    case None
    then have "a \<notin> set zs" for a using better_fold [of fas "e_Labels e"] zs [of a] by auto
    then have "zs = []" by (cases zs) auto
    then show ?thesis by (simp add: None run)
  next
    case (Some w)
    then have w: "w \<in> set zs" "a \<in> set zs \<Longrightarrow> as_rank a \<le> as_rank w" for a
      using better_fold [of fas "e_Labels e"] zs by auto
    then have "mostSpecificPerFeature_fa zs \<noteq> []" using fa.pick_exists [of w zs] by fastforce
    then obtain w' ws where ws: "mostSpecificPerFeature_fa zs = w' # ws" by (auto simp: neq_Nil_conv)
    then have w': "w' \<in> set (mostSpecificPerFeature_fa zs)" by simp
    then have mem: "w' \<in> set zs" using fa.pick_subset by blast
    have "as_key w = as_key w'" using listed w(1) mem zs by (simp add: listed_ok_def list_all_iff)
    then have "as_rank w = as_rank w'" using fa.pick_max [OF w' w(1)] w(2) [OF mem] by simp
    then have "as_Created w = as_Created w'" by (simp add: as_rank_def)
    then have "w = w'" using listed w(1) mem zs by (auto simp: listed_ok_def distinct_map dest: inj_onD)
    then show ?thesis using w(1) ws by (auto simp: Some run)
  qed
qed

section \<open>The tables a page joins\<close>

lemma tenant_environment:
  "(e, tenantName, tenantID) \<in> set (concat (map (\<lambda>e. map (\<lambda>t. (e, t_Name t, t_ID t)) (filter (\<lambda>t. t_ID t = e_TenantID e) ts)) envs)) \<longleftrightarrow>
     e \<in> set envs \<and> (\<exists>t \<in> set ts. t_ID t = e_TenantID e \<and> tenantName = t_Name t \<and> tenantID = t_ID t)"
  by auto

lemma tenant_environments_fst:
  assumes "distinct (map t_ID ts)"
  shows "map fst (concat (map (\<lambda>e. map (\<lambda>t. (e, t_Name t, t_ID t)) (filter (\<lambda>t. t_ID t = e_TenantID e) ts)) envs)) =
    filter (\<lambda>e. filter (\<lambda>t. t_ID t = e_TenantID e) ts \<noteq> []) envs"
proof (induction envs)
  case (Cons e envs)
  have "filter (\<lambda>t. t_ID t = e_TenantID e) ts = [] \<or> (\<exists>t. filter (\<lambda>t. t_ID t = e_TenantID e) ts = [t])"
    by (rule filter_at_most_one [OF assms])
  then show ?case using Cons by (elim disjE exE) simp_all
qed simp

lemma env_info_image:
  "env \<in> env_info ` S \<longleftrightarrow> (\<exists>tenantID. (ei_env env, ei_tenantName env, tenantID) \<in> S) \<and> ei_labels env = e_Labels (ei_env env)"
proof
  assume "env \<in> env_info ` S"
  then show "(\<exists>tenantID. (ei_env env, ei_tenantName env, tenantID) \<in> S) \<and> ei_labels env = e_Labels (ei_env env)"
    by (auto simp: env_info_def)
next
  assume r: "(\<exists>tenantID. (ei_env env, ei_tenantName env, tenantID) \<in> S) \<and> ei_labels env = e_Labels (ei_env env)"
  then obtain ti where ti: "(ei_env env, ei_tenantName env, ti) \<in> S" by blast
  have "env = env_info (ei_env env, ei_tenantName env, ti)" using r by (cases env) (simp add: env_info_def)
  then show "env \<in> env_info ` S" using ti by blast
qed

lemma targetedEnvironments_rows:
  assumes "page_data_ok name d" and "\<not> io_fails io ''ListTenantEnvironments''"
  shows "distinct (map (\<lambda>env. e_ID (ei_env env)) (targetedEnvironments io d))"
    and "env \<in> set (targetedEnvironments io d) \<longleftrightarrow> ei_env env \<in> set (environments d) \<and> ei_labels env = e_Labels (ei_env env) \<and>
      (\<exists>t \<in> set (tenants d). t_ID t = e_TenantID (ei_env env) \<and> ei_tenantName env = t_Name t)"
proof -
  let ?te = "concat (map (\<lambda>e. map (\<lambda>t. (e, t_Name t, t_ID t)) (filter (\<lambda>t. t_ID t = e_TenantID e) (tenants d))) (environments d))"
  have run: "targetedEnvironments io d = map env_info (sort_key (\<lambda>(e, tenantName, tenantID). (tenantName, e_Name e)) ?te)"
    using assms(2) by (simp add: targetedEnvironments_def ListTenantEnvironments_def query_def)
  have "distinct (map e_ID (map fst ?te))"
    using assms(1) unfolding page_data_ok_def by (subst tenant_environments_fst) (auto intro: distinct_map_filter)
  then have "distinct (map (\<lambda>te. e_ID (fst te)) ?te)" by (simp add: comp_def)
  moreover have "(\<lambda>env. e_ID (ei_env env)) \<circ> env_info = (\<lambda>te. e_ID (fst te))" by (auto simp: env_info_def)
  ultimately show "distinct (map (\<lambda>env. e_ID (ei_env env)) (targetedEnvironments io d))"
    unfolding run by (simp only: map_map distinct_map_sort)
  show "env \<in> set (targetedEnvironments io d) \<longleftrightarrow> ei_env env \<in> set (environments d) \<and> ei_labels env = e_Labels (ei_env env) \<and>
      (\<exists>t \<in> set (tenants d). t_ID t = e_TenantID (ei_env env) \<and> ei_tenantName env = t_Name t)"
    unfolding run set_map set_sort env_info_image tenant_environment by blast
qed

lemma fold_status_other:
  "fst k \<notin> as_ID ` set fas \<Longrightarrow>
     map_of (fold (\<lambda>a. fold (\<lambda>status. gm_put (as_ID a, rst_EnvironmentID status) status) (gm_list byFA (as_ID a))) fas m) k = map_of m k"
proof (induction fas arbitrary: m)
  case (Cons a fas)
  have "fst k \<noteq> i \<Longrightarrow> map_of (fold (\<lambda>status. gm_put (i, rst_EnvironmentID status) status) xs m) k = map_of m k" for i xs
    by (induction xs arbitrary: m) auto
  then show ?case using Cons by simp
qed simp

lemma fold_env_status:
  "e \<notin> rst_EnvironmentID ` set xs \<Longrightarrow>
     map_of (fold (\<lambda>status. gm_put (i, rst_EnvironmentID status) status) xs m) (i, e) = map_of m (i, e)"
  by (induction xs arbitrary: m) auto

lemma index_statuses_lookup:
  assumes "distinct (map as_ID fas)" and "w \<in> set fas" and "distinct (map rst_EnvironmentID (gm_list byFA (as_ID w)))"
  shows "map_of (index_statuses byFA fas) (as_ID w, envID) = find (\<lambda>s. rst_EnvironmentID s = envID) (gm_list byFA (as_ID w))"
proof -
  let ?put = "\<lambda>a. fold (\<lambda>status. gm_put (as_ID a, rst_EnvironmentID status) status) (gm_list byFA (as_ID a))"
  have inner: "map_of m (i, envID) = None \<Longrightarrow> distinct (map rst_EnvironmentID xs) \<Longrightarrow>
      map_of (fold (\<lambda>status. gm_put (i, rst_EnvironmentID status) status) xs m) (i, envID) = find (\<lambda>s. rst_EnvironmentID s = envID) xs" for m i xs
    by (induction xs arbitrary: m) (auto simp: fold_env_status)
  have "map_of (fold ?put fas m) (as_ID w, envID) = find (\<lambda>s. rst_EnvironmentID s = envID) (gm_list byFA (as_ID w))"
    if "distinct (map as_ID fas)" "w \<in> set fas" "map_of m (as_ID w, envID) = None" for fas m
    using that
  proof (induction fas arbitrary: m)
    case (Cons a fas)
    show ?case
    proof (cases "a = w")
      case True
      then show ?thesis using Cons.prems inner assms(3) by (simp add: fold_status_other)
    next
      case False
      then have w: "w \<in> set fas" "as_ID a \<noteq> as_ID w" using Cons.prems by (auto simp: image_iff)
      have "map_of (fold (\<lambda>status. gm_put (as_ID a, rst_EnvironmentID status) status) xs m) (as_ID w, envID) = map_of m (as_ID w, envID)" for xs
        using w(2) by (induction xs arbitrary: m) auto
      then show ?thesis using Cons.IH w Cons.prems by simp
    qed
  qed simp
  then show ?thesis using assms by (simp add: index_statuses_def)
qed

lemma distinct_join_statuses: "distinct (map rst_EnvironmentID (joinReconcileSignals faID decisions deploys))"
  by (simp add: joinReconcileSignals_def Let_def comp_def reconcile_status_def case_prod_unfold)

lemma disabled_listed:
  assumes "\<not> io_fails io ''ListDisabledFeatureEnvironments''"
  shows "\<exists>dis. ListDisabledEnvironmentsForFeature io name d = Inr dis \<and>
    (\<forall>envID. map_of dis envID = None \<longleftrightarrow> map_of (disabled_features d) (envID, name) = None)"
proof -
  let ?rows = "map (\<lambda>((envID, f), t). (envID, t)) (filter (\<lambda>((envID, f), t). f = name) (disabled_features d))"
  have "ListDisabledEnvironmentsForFeature io name d = Inr (index_by fst snd ?rows)"
    using assms by (simp add: ListDisabledEnvironmentsForFeature_def query_def)
  moreover have "envID \<in> fst ` set (map (\<lambda>((envID, f), t). (envID, t)) (filter (\<lambda>((envID, f), t). f = name) df)) \<longleftrightarrow>
      (envID, name) \<in> fst ` set df" for envID and df :: "((uuid \<times> string) \<times> gotime) list"
    by (induction df) auto
  then have "map_of (index_by fst snd ?rows) envID = None \<longleftrightarrow> map_of (disabled_features d) (envID, name) = None" for envID
    by (subst index_by_None_iff, subst map_of_eq_None_iff, blast)
  ultimately show ?thesis by blast
qed

lemma statuses_listed:
  assumes "\<not> io_fails io ''ListAllDecisionStatuses''" and "\<not> io_fails io ''ListAllDeployStatuses''"
  shows "\<exists>m. AllReconcileStatuses io d = Inr m"
  using assms by (simp add: AllReconcileStatuses_def query_def Let_def)

lemma index_statuses_single:
  assumes all: "AllReconcileStatuses io d = Inr m" and "distinct (map as_ID fas)" and "w \<in> set fas"
    and rs: "ReconcileStatuses io (as_ID w) d = Inr statuses"
  shows "map_of (index_statuses m fas) (as_ID w, envID) = find (\<lambda>s. rst_EnvironmentID s = envID) statuses"
proof -
  have "gm_list m (as_ID w) = statuses"
    using rs AllReconcileStatuses_lookup [OF all, of "as_ID w"] by (auto simp: ReconcileStatuses_def bindE_eq_Inr)
  moreover have "distinct (map rst_EnvironmentID (gm_list m (as_ID w)))"
    unfolding AllReconcileStatuses_lookup [OF all] by (rule distinct_join_statuses)
  ultimately show ?thesis using index_statuses_lookup [OF assms(2,3), of m envID] by simp
qed

lemma in_map_filter: "y \<in> set (List.map_filter f xs) \<longleftrightarrow> (\<exists>z \<in> set xs. f z = Some y)"
  by (induction xs) (auto simp: List.map_filter_simps split: option.splits)

lemma map_filter_cong:
  "(\<And>y. y \<in> set ys \<Longrightarrow> f y = g y) \<Longrightarrow> List.map_filter f ys = List.map_filter g ys"
  by (induction ys) (auto simp: List.map_filter_def)

lemma dedupes_keep:
  assumes "listed_ok name fas"
  shows "latestAssignmentPerTarget fas = fas" and "features_latestAssignmentPerTarget fas = fas"
proof -
  have "inj_on targetKey (set (map as_TargetLabels fas))" "inj_on features_targetKey (set (map as_TargetLabels fas))"
    using assms by (auto simp: listed_ok_def list_all_iff inj_on_def targetKey_inj)
  moreover have "distinct (map as_TargetLabels fas)" using assms by (simp add: listed_ok_def)
  ultimately have "distinct (map targetKey (map as_TargetLabels fas))" "distinct (map features_targetKey (map as_TargetLabels fas))"
    unfolding distinct_map [of _ "map as_TargetLabels fas"] by blast+
  then show "latestAssignmentPerTarget fas = fas" "features_latestAssignmentPerTarget fas = fas"
    unfolding latestAssignmentPerTarget_def features_latestAssignmentPerTarget_def by (auto intro!: latest_per_target_id)
qed

lemma LoadEnvironments_run:
  assumes ok: "page_data_ok name d" and io: "\<And>q. \<not> io_fails io q" and run: "ListByFeature x io name d = Inr fas"
    and "ListDisabledEnvironmentsForFeature io name d = Inr dis" and "AllReconcileStatuses io d = Inr m"
  shows "LoadEnvironments x io name d = sort_key (\<lambda>r. (fe_TenantName r, fe_EnvironmentName r))
    (List.map_filter (\<lambda>env. map_option (environment_row io name d dis (index_statuses m fas) env) (fold (better (ei_labels env)) fas None))
       (targetedEnvironments io d))"
proof -
  have keep: "latestAssignmentPerTarget fas = fas" using dedupes_keep ListByFeature_ok [OF ok run] by blast
  have win: "env \<in> set (targetedEnvironments io d) \<Longrightarrow>
      map_of (winningAssignments fas (targetedEnvironments io d)) (e_ID (ei_env env)) = fold (better (ei_labels env)) fas None" for env
    by (rule winningAssignments_lookup [OF targetedEnvironments_rows(1) [OF ok io]])
  have "fas = [] \<Longrightarrow> List.map_filter (\<lambda>env. map_option (environment_row io name d dis (index_statuses m fas) env)
      (fold (better (ei_labels env)) fas None)) envs = []" for envs
    by (induction envs) (simp_all add: List.map_filter_simps)
  then show ?thesis
    using assms(4,5) map_filter_cong [of "targetedEnvironments io d"
        "\<lambda>env. map_option (environment_row io name d dis (index_statuses m fas) env)
           (map_of (winningAssignments fas (targetedEnvironments io d)) (e_ID (ei_env env)))"] win
    by (cases "fas = []") (simp_all add: LoadEnvironments_def run keep Let_def reconcileStatuses_def)
qed

section \<open>What the pages show\<close>

lemma environment_row_fields:
  "fe_TenantName (environment_row io name d dis st env w) = ei_tenantName env"
  "fe_EnvironmentName (environment_row io name d dis st env w) = e_Name (ei_env env)"
  "fe_Version (environment_row io name d dis st env w) = f_Version (as_Feature w)"
  "fe_AssignmentID (environment_row io name d dis st env w) = uuid_String (as_ID w)"
  "fe_Status (environment_row io name d dis st env w) =
     (if \<not> e_Reconcile (ei_env env) \<or> map_of dis (e_ID (ei_env env)) \<noteq> None then ''DISABLED''
      else case map_of st (as_ID w, e_ID (ei_env env)) of None \<Rightarrow> ''UNKNOWN'' | Some s \<Rightarrow> NormalizeStatus (rst_State s))"
  by (simp_all add: environment_row_def Let_def split: option.split)

lemma status_for_winner:
  assumes io: "\<And>q. \<not> io_fails io q" and all: "AllReconcileStatuses io d = Inr m" and "distinct (map as_ID fas)" and "w \<in> set fas"
    and win: "WinningAssignment x io envID name d = Inr w"
  shows "\<exists>st msg. FeatureStatusForEnvironment x io envID name d = Inr (st, msg) \<and>
    (case map_of (index_statuses m fas) (as_ID w, envID) of None \<Rightarrow> ''UNKNOWN'' | Some s \<Rightarrow> NormalizeStatus (rst_State s)) = NormalizeStatus st"
proof -
  obtain statuses where rs: "ReconcileStatuses io (as_ID w) d = Inr statuses"
    using io by (simp add: ReconcileStatuses_def query_def)
  then show ?thesis
    using index_statuses_single [OF all assms(3,4) rs, of envID] win
    by (auto simp: FeatureStatusForEnvironment_def NormalizeStatus_def split: option.split)
qed

lemma bex_param:
  assumes "\<And>v. v \<in> S \<longleftrightarrow> (\<exists>t \<in> A. \<exists>e \<in> B. Q t e \<and> v = f t e)"
  shows "(\<exists>v \<in> S. P v) \<longleftrightarrow> (\<exists>t \<in> A. \<exists>e \<in> B. Q t e \<and> P (f t e))"
proof -
  have "S = {v. \<exists>t \<in> A. \<exists>e \<in> B. Q t e \<and> v = f t e}" using assms by (intro set_eqI) simp
  then show ?thesis by auto
qed

text \<open>A row of the page comes from an environment, its tenant and the winner there.\<close>

lemma LoadEnvironments_mem:
  assumes ok: "page_data_ok name d" and io: "\<And>q. \<not> io_fails io q" and run: "ListByFeature x io name d = Inr fas"
    and dis: "ListDisabledEnvironmentsForFeature io name d = Inr dis" and m: "AllReconcileStatuses io d = Inr m"
  shows "r \<in> set (LoadEnvironments x io name d) \<longleftrightarrow>
    (\<exists>t \<in> set (tenants d). \<exists>e \<in> set (environments d). \<exists>w. t_ID t = e_TenantID e \<and> WinningAssignment x io (e_ID e) name d = Inr w \<and>
       w \<in> set fas \<and> r = environment_row io name d dis (index_statuses m fas) \<lparr>ei_env = e, ei_tenantName = t_Name t, ei_labels = e_Labels e\<rparr> w)"
proof -
  let ?row = "environment_row io name d dis (index_statuses m fas)"
  let ?env = "\<lambda>t e. \<lparr>ei_env = e, ei_tenantName = t_Name t, ei_labels = e_Labels e\<rparr>"
  have mem: "r \<in> set (LoadEnvironments x io name d) \<longleftrightarrow>
      (\<exists>env \<in> set (targetedEnvironments io d). \<exists>w. fold (better (ei_labels env)) fas None = Some w \<and> r = ?row env w)"
    unfolding LoadEnvironments_run [OF assms] by (auto simp: in_map_filter)
  have envs: "env \<in> set (targetedEnvironments io d) \<longleftrightarrow>
      (\<exists>t \<in> set (tenants d). \<exists>e \<in> set (environments d). t_ID t = e_TenantID e \<and> env = ?env t e)" for env
    unfolding targetedEnvironments_rows(2) [OF ok io] by (cases env) auto
  note all = bex_param [OF envs]
  have win: "fold (better (e_Labels e)) fas None = Some w \<longleftrightarrow> WinningAssignment x io (e_ID e) name d = Inr w \<and> w \<in> set fas"
    if "e \<in> set (environments d)" for e w
    using WinningAssignment_listed [OF ok that run io] better_fold [of fas "e_Labels e"] by (auto split: option.splits)
  show ?thesis unfolding mem all by (intro bex_cong refl) (auto simp: win)
qed

lemma LoadEnvironments_rows:
  assumes "page_data_ok name d" and "\<And>q. \<not> io_fails io q" and "ListByFeature x io name d = Inr fas"
  shows "(\<lambda>r. (fe_TenantName r, fe_EnvironmentName r, fe_Version r, fe_AssignmentID r, fe_Status r)) ` set (LoadEnvironments x io name d) =
    {(t_Name t, e_Name e, f_Version (as_Feature w), uuid_String (as_ID w),
      if \<not> e_Reconcile e \<or> map_of (disabled_features d) (e_ID e, name) \<noteq> None then ''DISABLED'' else NormalizeStatus st) |
     t e w st msg. t \<in> set (tenants d) \<and> e \<in> set (environments d) \<and> t_ID t = e_TenantID e \<and>
       WinningAssignment x io (e_ID e) name d = Inr w \<and> FeatureStatusForEnvironment x io (e_ID e) name d = Inr (st, msg)}"
    (is "?f ` _ = ?R")
proof -
  obtain dis where dis: "ListDisabledEnvironmentsForFeature io name d = Inr dis"
    "map_of dis envID = None \<longleftrightarrow> map_of (disabled_features d) (envID, name) = None" for envID
    using disabled_listed [of io name d] assms(2) by blast
  obtain m where m: "AllReconcileStatuses io d = Inr m" using statuses_listed assms(2) by blast
  have listed: "distinct (map as_ID fas)" using ListByFeature_ok [OF assms(1,3)] by (simp add: listed_ok_def)
  let ?row = "\<lambda>t e. environment_row io name d dis (index_statuses m fas) \<lparr>ei_env = e, ei_tenantName = t_Name t, ei_labels = e_Labels e\<rparr>"
  let ?shown = "\<lambda>t e w st. (t_Name t, e_Name e, f_Version (as_Feature w), uuid_String (as_ID w),
      if \<not> e_Reconcile e \<or> map_of (disabled_features d) (e_ID e, name) \<noteq> None then ''DISABLED'' else NormalizeStatus st)"
  note mem = LoadEnvironments_mem [OF assms dis(1) m]
  have status: "\<exists>st msg. FeatureStatusForEnvironment x io (e_ID e) name d = Inr (st, msg) \<and> ?f (?row t e w) = ?shown t e w st"
    if w: "w \<in> set fas" "WinningAssignment x io (e_ID e) name d = Inr w" for t e w
    using status_for_winner [OF assms(2) m listed w] by (auto simp: environment_row_fields dis(2))
  show ?thesis
  proof (intro equalityI subsetI)
    fix p assume "p \<in> ?f ` set (LoadEnvironments x io name d)"
    then obtain r where r: "r \<in> set (LoadEnvironments x io name d)" and p: "p = ?f r" by blast
    then show "p \<in> ?R" using status unfolding mem by blast
  next
    fix p assume "p \<in> ?R"
    then obtain t e w st msg where r: "t \<in> set (tenants d)" "e \<in> set (environments d)" "t_ID t = e_TenantID e"
      "WinningAssignment x io (e_ID e) name d = Inr w" "FeatureStatusForEnvironment x io (e_ID e) name d = Inr (st, msg)"
      and p: "p = ?shown t e w st" by blast
    have w: "w \<in> set fas"
      using WinningAssignment_listed [OF assms(1) r(2) assms(3,2)] better_fold [of fas "e_Labels e"] r(4) by (auto split: option.splits)
    then have "p = ?f (?row t e w)" using status [OF w r(4), of t] r(5) p by auto
    moreover have "?row t e w \<in> set (LoadEnvironments x io name d)" using mem r(1-4) w by blast
    ultimately show "p \<in> ?f ` set (LoadEnvironments x io name d)" by (rule image_eqI)
  qed
qed

text \<open>
  C19. The environments of a feature's page: every environment with a tenant where \<open>WinningAssignment\<close> finds a winner, and
  no other, has a row; it names the version and the identifier of that winner, and its status is \<open>DISABLED\<close> where
  the environment or the feature is disabled and the normalised status of \<open>FeatureStatusForEnvironment\<close> elsewhere. So the
  winners that \<open>LoadEnvironments\<close> picks in Go are those that the reconciler acts on. The queries succeed.
\<close>

theorem LoadEnvironments_winners:
  assumes "page_data_ok name d" and "\<And>q. \<not> io_fails io q" and "ListByFeature x io name d = Inr fas"
  shows "(\<lambda>r. (fe_TenantName r, fe_EnvironmentName r, fe_Version r, fe_AssignmentID r, fe_Status r)) ` set (LoadEnvironments x io name d) =
    {(t_Name t, e_Name e, f_Version (as_Feature w), uuid_String (as_ID w),
      if \<not> e_Reconcile e \<or> map_of (disabled_features d) (e_ID e, name) \<noteq> None then ''DISABLED'' else NormalizeStatus st) |
     t e w st msg. t \<in> set (tenants d) \<and> e \<in> set (environments d) \<and> t_ID t = e_TenantID e \<and>
       WinningAssignment x io (e_ID e) name d = Inr w \<and> FeatureStatusForEnvironment x io (e_ID e) name d = Inr (st, msg)}"
  by (rule LoadEnvironments_rows [OF assms])

section \<open>The two loaders agree\<close>

text \<open>The row of \<open>LoadEnvironments\<close> that a row of the overview stands for.\<close>

definition overview_environment :: "AssignmentEnvStatus \<Rightarrow> FeatureEnvironment" where
  "overview_environment es =
     \<lparr>fe_TenantName = aes_TenantName es, fe_TenantSlug = aes_TenantSlug es, fe_EnvironmentName = aes_Name es,
      fe_Version = aes_AssignmentVersion es, fe_AssignmentID = aes_FeatureAssignmentID es, fe_Enabled = aes_Enabled es,
      fe_DisableReason = aes_DisableReason es, fe_EnvReconcileDisabled = aes_EnvReconcileDisabled es,
      fe_LastModified = aes_LastModified es, fe_Status = aes_StatusText es\<rparr>"

definition names_ok :: "db \<Rightarrow> bool" where
  "names_ok d \<longleftrightarrow> distinct (map t_Name (tenants d)) \<and> distinct (map (\<lambda>e. (e_TenantID e, e_Name e)) (environments d))"

lemma assignment_row_current:
  assumes "map_of (st_winners st) (e_ID (ei_env env)) = Some w"
  shows "aes_IsOverridden (assignment_row io name d st a env) \<longleftrightarrow> as_ID w \<noteq> as_ID a"
    and "as_ID w = as_ID a \<Longrightarrow> overview_environment (assignment_row io name d st a env) =
      environment_row io name d (st_disabledByEnv st) (st_statusByAssignmentEnv st) env a"
    and "aes_TenantName (assignment_row io name d st a env) = ei_tenantName env" "aes_Name (assignment_row io name d st a env) = e_Name (ei_env env)"
  using assms
  by (simp_all add: assignment_row_def standing_def environment_row_def overview_environment_def Let_def split: option.split)

lemma mset_concat_append: "mset (concat (map (\<lambda>a. f a @ g a) xs)) = mset (concat (map f xs)) + mset (concat (map g xs))"
  by (induction xs) simp_all

lemma concat_single:
  assumes "distinct xs"
  shows "mset (concat (map (\<lambda>a. if b = Some a then [r a] else []) xs)) =
    (case b of None \<Rightarrow> {#} | Some a \<Rightarrow> if a \<in> set xs then {#r a#} else {#})"
proof (cases b)
  case (Some v)
  then show ?thesis using assms by (induction xs) auto
qed (induction xs, auto)

lemma mset_by_winner:
  assumes "distinct xs" and "\<And>e a. e \<in> set envs \<Longrightarrow> best e = Some a \<Longrightarrow> a \<in> set xs"
  shows "mset (concat (map (\<lambda>a. map (\<lambda>e. r e a) (filter (\<lambda>e. best e = Some a) envs)) xs)) =
    mset (List.map_filter (\<lambda>e. map_option (r e) (best e)) envs)"
  using assms(2)
proof (induction envs)
  case Nil
  show ?case by (simp add: List.map_filter_simps)
next
  case (Cons e envs)
  have "(\<lambda>a. map (\<lambda>e. r e a) (filter (\<lambda>e. best e = Some a) (e # envs))) =
      (\<lambda>a. (if best e = Some a then [r e a] else []) @ map (\<lambda>e. r e a) (filter (\<lambda>e. best e = Some a) envs))"
    by (auto simp: fun_eq_iff)
  moreover have "mset (concat (map (\<lambda>a. map (\<lambda>e. r e a) (filter (\<lambda>e. best e = Some a) envs)) xs)) =
      mset (List.map_filter (\<lambda>e. map_option (r e) (best e)) envs)"
    by (rule Cons.IH) (rule Cons.prems [rotated], assumption, simp)
  moreover have "best e = Some a \<Longrightarrow> a \<in> set xs" for a using Cons.prems [of e a] by simp
  ultimately show ?case
    by (cases "best e") (simp_all only: mset_concat_append concat_single [OF assms(1)] List.map_filter_simps option.map option.case, simp_all)
qed

text \<open>The rows that are not overridden, assignment by assignment.\<close>

lemma current_rows:
  assumes ok: "page_data_ok name d" and io: "\<And>q. \<not> io_fails io q" and run: "ListByFeature x io name d = Inr fas"
    and dis: "ListDisabledEnvironmentsForFeature io name d = Inr dis" and m: "AllReconcileStatuses io d = Inr m"
  defines "best \<equiv> \<lambda>env. fold (better (ei_labels env)) fas None"
  shows "map overview_environment (currentAssignmentEnvStatuses (featureAssignmentEnvStatuses x io name d)) =
    concat (map (\<lambda>a. map (\<lambda>env. environment_row io name d dis (index_statuses m fas) env a)
      (filter (\<lambda>env. best env = Some a) (targetedEnvironments io d))) fas)"
proof -
  let ?envs = "targetedEnvironments io d"
  obtain te where te: "ListTenantEnvironments io False d = Inr te" using io by (simp add: ListTenantEnvironments_def query_def)
  then have envs: "?envs = map env_info te" by (simp add: targetedEnvironments_def)
  obtain ld li rs where q: "LatestDeployedForFeature io name d = Inr ld" "LatestDeployInstructionsForFeature io name d = Inr li"
    "ReleaseStatusesForFeature io name d = Inr rs"
    using io by (simp add: LatestDeployedForFeature_def LatestDeployInstructionsForFeature_def ReleaseStatusesForFeature_def query_def)
  have listed: "listed_ok name fas" using ListByFeature_ok [OF ok run] .
  define st where "st = \<lparr>st_disabledByEnv = dis, st_latestDeployed = ld, st_latestInstruction = li, st_releaseByEnv = rs,
    st_statusByAssignmentEnv = index_statuses m fas, st_winners = winningAssignments fas ?envs\<rparr>"
  have rows: "featureAssignmentEnvStatuses x io name d = concat (map (\<lambda>a. map (assignment_row io name d st a)
      (filter (\<lambda>env. targetMatchesLabels (as_TargetLabels a) (ei_labels env)) ?envs)) fas)"
    using dedupes_keep(2) [OF listed] te q dis m run
    by (cases "fas = []") (simp_all add: featureAssignmentEnvStatuses_def Let_def st_def envs)
  have win: "env \<in> set ?envs \<Longrightarrow> map_of (st_winners st) (e_ID (ei_env env)) = best env" for env
    using winningAssignments_lookup [OF targetedEnvironments_rows(1) [OF ok io]] by (simp add: st_def best_def)
  have iff: "targetMatchesLabels (as_TargetLabels a) (ei_labels env) \<and> \<not> aes_IsOverridden (assignment_row io name d st a env) \<longleftrightarrow> best env = Some a"
    if a: "a \<in> set fas" and env: "env \<in> set ?envs" for a env
  proof (cases "best env")
    case None
    then show ?thesis using better_fold [of fas "ei_labels env"] a by (simp add: best_def)
  next
    case (Some w)
    then have w: "w \<in> set fas" "targetMatchesLabels (as_TargetLabels w) (ei_labels env)"
      using better_fold [of fas "ei_labels env"] by (simp_all add: best_def)
    have "as_ID w = as_ID a \<longleftrightarrow> w = a" using listed w(1) a by (auto simp: listed_ok_def distinct_map dest: inj_onD)
    then show ?thesis using assignment_row_current(1) [of st env w] win [OF env] w(2) Some by auto
  qed
  have row: "overview_environment (assignment_row io name d st a env) = environment_row io name d dis (index_statuses m fas) env a"
    if "env \<in> set ?envs" "best env = Some a" for a env
    using assignment_row_current(2) [of st env a a] win [OF that(1)] that(2) by (simp add: st_def)
  have "map overview_environment (filter (\<lambda>env. \<not> aes_IsOverridden env) (map (assignment_row io name d st a)
      (filter (\<lambda>env. targetMatchesLabels (as_TargetLabels a) (ei_labels env)) ?envs))) =
    map (\<lambda>env. environment_row io name d dis (index_statuses m fas) env a) (filter (\<lambda>env. best env = Some a) ?envs)" if "a \<in> set fas" for a
  proof -
    have "filter (\<lambda>env. targetMatchesLabels (as_TargetLabels a) (ei_labels env) \<and> \<not> aes_IsOverridden (assignment_row io name d st a env)) ?envs =
        filter (\<lambda>env. best env = Some a) ?envs"
      using iff [OF that] by (intro filter_cong refl)
    then show ?thesis using row by (simp add: filter_map comp_def)
  qed
  then show ?thesis unfolding rows currentAssignmentEnvStatuses_def filter_concat map_concat map_map
    by (intro arg_cong [where f = concat] map_cong refl) simp
qed

lemma targeted_names:
  assumes "page_data_ok name d" and "\<not> io_fails io ''ListTenantEnvironments''" and "names_ok d"
    and "env \<in> set (targetedEnvironments io d)" and "env' \<in> set (targetedEnvironments io d)"
    and "ei_tenantName env = ei_tenantName env'" and "e_Name (ei_env env) = e_Name (ei_env env')"
  shows "env = env'"
proof -
  note rows = targetedEnvironments_rows(2) [OF assms(1,2)]
  obtain t t' where t: "t \<in> set (tenants d)" "t_ID t = e_TenantID (ei_env env)" "ei_tenantName env = t_Name t"
    and t': "t' \<in> set (tenants d)" "t_ID t' = e_TenantID (ei_env env')" "ei_tenantName env' = t_Name t'"
    using assms(4,5) rows by blast
  have "t = t'" using assms(3,6) t(1,3) t'(1,3) by (auto simp: names_ok_def distinct_map dest: inj_onD)
  then have "(e_TenantID (ei_env env), e_Name (ei_env env)) = (e_TenantID (ei_env env'), e_Name (ei_env env'))"
    using t(2) t'(2) assms(7) by simp
  then have "ei_env env = ei_env env'"
    using assms(3-5) rows by (auto simp: names_ok_def distinct_map dest: inj_onD)
  then show ?thesis using assms(4-6) rows by (cases env; cases env') auto
qed

lemma sorted_overview:
  "sorted (map (\<lambda>r. (fe_TenantName r, fe_EnvironmentName r)) (map overview_environment (sortEnvs (currentAssignmentEnvStatuses rows))))"
proof -
  have "sorted (map (\<lambda>es. (aes_IsOverridden es, aes_TenantName es, aes_Name es)) (sortEnvs (currentAssignmentEnvStatuses rows)))"
    by (simp add: sortEnvs_def)
  then have "sorted_wrt (\<lambda>es es'. (aes_TenantName es, aes_Name es) \<le> (aes_TenantName es', aes_Name es'))
      (sortEnvs (currentAssignmentEnvStatuses rows))"
    unfolding sorted_map by (rule sorted_wrt_mono_rel [rotated]) (simp add: sortEnvs_def currentAssignmentEnvStatuses_def)
  then show ?thesis by (simp add: sorted_map overview_environment_def)
qed

text \<open>
  C20. Both loaders agree: the overview table of a feature, sorted as the page sorts it, shows row by row the environments that
  \<open>LoadEnvironments\<close> returns to the JSON and version pages: the same winner, version, status, time and reason, though each has its
  own key of a target and one ranges over assignments first and the other over environments first.
\<close>

theorem overview_is_LoadEnvironments:
  assumes "page_data_ok name d" and "names_ok d" and "\<And>q. \<not> io_fails io q" and "ListByFeature x io name d = Inr fas"
  shows "map overview_environment (overviewTable (featureAssignmentEnvStatuses x io name d)) = LoadEnvironments x io name d"
proof -
  let ?key = "\<lambda>r. (fe_TenantName r, fe_EnvironmentName r)"
  let ?envs = "targetedEnvironments io d"
  define best where "best env = fold (better (ei_labels env)) fas None" for env :: envInfo
  obtain dis m where dis: "ListDisabledEnvironmentsForFeature io name d = Inr dis" and m: "AllReconcileStatuses io d = Inr m"
    using disabled_listed [of io name d] statuses_listed [of io d] assms(3) by blast
  let ?row = "environment_row io name d dis (index_statuses m fas)"
  let ?cur = "currentAssignmentEnvStatuses (featureAssignmentEnvStatuses x io name d)"
  let ?L = "List.map_filter (\<lambda>env. map_option (?row env) (best env)) ?envs"
  have "distinct fas" using ListByFeature_ok [OF assms(1,4)] by (auto simp: listed_ok_def distinct_map)
  moreover have "best env = Some a \<Longrightarrow> a \<in> set fas" for env a
    using better_fold [of fas "ei_labels env"] by (simp add: best_def)
  ultimately have "mset (map overview_environment ?cur) = mset ?L"
    unfolding current_rows [OF assms(1,3,4) dis m] best_def [symmetric] by (intro mset_by_winner) auto
  then have same: "mset ?L = mset (map overview_environment (sortEnvs ?cur))" by (simp add: sortEnvs_def)
  have inj: "inj_on ?key (set ?L)"
  proof (rule inj_onI)
    fix r r' assume "r \<in> set ?L" "r' \<in> set ?L" and k: "?key r = ?key r'"
    then obtain env env' a a' where e: "env \<in> set ?envs" "best env = Some a" "r = ?row env a"
      and e': "env' \<in> set ?envs" "best env' = Some a'" "r' = ?row env' a'" by (auto simp: in_map_filter)
    have "env = env'" using k by (intro targeted_names [OF assms(1,3,2) e(1) e'(1)]) (simp_all add: e(3) e'(3) environment_row_fields)
    then show "r = r'" using e e' by simp
  qed
  have "sort_key ?key ?L = map overview_environment (sortEnvs ?cur)"
    by (rule sort_key_inj_key_eq [OF same inj sorted_overview])
  moreover have "LoadEnvironments x io name d = sort_key ?key ?L"
    unfolding LoadEnvironments_run [OF assms(1,3,4) dis m] best_def ..
  ultimately show ?thesis by (simp add: overviewTable_def)
qed

section \<open>The form that sets a version\<close>

lemma picked_labels_pairs:
  assumes "list_all (\<lambda>(k, v). k \<noteq> [] \<and> CHR ''='' \<notin> set k) t"
  shows "picked_labels (map (\<lambda>(k, v). k @ ''='' @ v) t) acc = Inr (fold (\<lambda>(k, v). gm_put k v) t acc)"
  using assms by (induction t arbitrary: acc) (auto simp: strings_Cut_append)

lemma fold_put_self:
  assumes "gm_ok t"
  shows "fold (\<lambda>(k, v). gm_put k v) t [] = t"
proof (rule gm_eqI)
  have "gm_ok m \<Longrightarrow> gm_ok (fold (\<lambda>(k, v). gm_put k v) t m)" for m and t :: "('a \<times> 'b) list"
    by (induction t arbitrary: m) auto
  then show "gm_ok (fold (\<lambda>(k, v). gm_put k v) t [])" by simp
  have "map_of (fold (\<lambda>(k, v). gm_put k v) t m) k = (case map_of t k of None \<Rightarrow> map_of m k | Some v \<Rightarrow> Some v)" if "distinct (map fst t)"
    for k m and t :: "('a \<times> 'b) list"
    using that
  proof (induction t arbitrary: m)
    case (Cons e t)
    obtain k' v where e: "e = (k', v)" by (cases e)
    then have "map_of t k' = None" using Cons.prems by (simp add: map_of_eq_None_iff)
    then show ?case using Cons by (auto simp: e split: option.split)
  qed simp
  then show "map_of (fold (\<lambda>(k, v). gm_put k v) t []) = map_of t"
    using gm_ok_distinct [OF assms] by (auto simp: fun_eq_iff split: option.split)
qed (rule assms)

text \<open>
  Setting the version of an assignment keeps its target: the hidden inputs that the popover renders for a target, posted with the
  version the user chose, are read back by the handler that creates assignments as that same target. The labels have a key, and the
  key has no equals sign.
\<close>

theorem set_version_keeps_target:
  assumes "gm_ok target" and "list_all (\<lambda>(k, v). k \<noteq> [] \<and> CHR ''='' \<notin> set k) target"
    and "re_Form r = group_by fst snd (setVersionPopover featureName chart target @ [(''version'', version), (''version_custom'', custom)])"
  shows "form_target l r = Inr target \<and> requestedVersion (re_Form r) =
    (if strings_TrimSpace version = ''__custom__'' then strings_TrimSpace custom else strings_TrimSpace version)"
proof -
  have lookup: "map_of (re_Form r) k = (let vs = gm_list (re_Form r) k in if vs = [] then None else Some vs)" for k
    unfolding assms(3) gm_list_group_by group_by_lookup by (auto simp: Let_def filter_empty_conv image_iff)
  have labels: "gm_list (re_Form r) ''target_label'' = map (\<lambda>(k, v). k @ ''='' @ v) target"
    unfolding assms(3) gm_list_group_by setVersionPopover_def
    using map_sorted_keys [OF assms(1), of "\<lambda>k v. k @ ''='' @ v"] by (simp add: filter_map comp_def)
  have others: "gm_list (re_Form r) ''target_labels_raw'' = []" "gm_list (re_Form r) ''version'' = [version]"
    "gm_list (re_Form r) ''version_custom'' = [custom]"
    unfolding assms(3) gm_list_group_by setVersionPopover_def by (simp_all add: filter_map comp_def)
  have "strings_TrimSpace [] = []" by (simp add: strings_TrimSpace_def)
  then show ?thesis
    using picked_labels_pairs [OF assms(2), of "[]"] fold_put_self [OF assms(1)]
    by (auto simp: form_target_def requestedVersion_def lookup labels others FormValue_def first_value_def Let_def)
qed

theorem set_version_keeps_target_witness:
  "form_target example_page_libs (example_request \<lparr>re_Form := group_by fst snd
       (setVersionPopover ''loki'' ''oci://charts/loki'' [(''name'', ''prod''), (''tenant'', ''acme'')] @
        [(''version'', ''2''), (''version_custom'', [])])\<rparr>) = Inr [(''name'', ''prod''), (''tenant'', ''acme'')]"
proof -
  have "gm_ok [(''name'', ''prod''), (''tenant'', ''acme'')]" by (simp add: gm_ok_def)
  moreover have "list_all (\<lambda>(k, v). k \<noteq> [] \<and> CHR ''='' \<notin> set k) [(''name'', ''prod''), (''tenant'', ''acme'')]" by simp
  ultimately show ?thesis
    using set_version_keeps_target [of "[(''name'', ''prod''), (''tenant'', ''acme'')]"
        "example_request \<lparr>re_Form := group_by fst snd
          (setVersionPopover ''loki'' ''oci://charts/loki'' [(''name'', ''prod''), (''tenant'', ''acme'')] @
            [(''version'', ''2''), (''version_custom'', [])])\<rparr>" "''loki''" "''oci://charts/loki''" "''2''" "[]"] by simp
qed

section \<open>The emphasis of a column, and the fallback of an assignment\<close>

lemma note_count_step:
  "note_count (v, c) (dominant, most, tie) =
     (if c > most then (v, c, False) else if c = most then (dominant, most, True) else (dominant, most, tie))"
  by (simp add: note_count_def)

lemma note_count_fold:
  assumes "distinct (map fst xs)" and "list_all (\<lambda>(v, c). 0 < c) xs"
  shows "case fold note_count xs ([], 0, False) of (dominant, most, tie) \<Rightarrow>
    list_all (\<lambda>(v, c). c \<le> most) xs \<and> (xs \<noteq> [] \<longrightarrow> (dominant, most) \<in> set xs) \<and> (xs = [] \<longrightarrow> most = 0) \<and>
    (tie \<longleftrightarrow> (\<exists>v. v \<noteq> dominant \<and> (v, most) \<in> set xs))"
  using assms
proof (induction xs rule: rev_induct)
  case (snoc vc xs)
  obtain v c where vc: "vc = (v, c)" by (cases vc)
  obtain dominant most tie where s: "fold note_count xs ([], 0, False) = (dominant, most, tie)" by (metis prod_cases3)
  have new: "(v, c') \<notin> set xs" for c' using snoc.prems by (auto simp: vc image_iff)
  have ih: "\<And>v c. (v, c) \<in> set xs \<Longrightarrow> c \<le> most" "xs \<noteq> [] \<longrightarrow> (dominant, most) \<in> set xs" "xs = [] \<longrightarrow> most = 0"
    "tie \<longleftrightarrow> (\<exists>v. v \<noteq> dominant \<and> (v, most) \<in> set xs)"
    using snoc by (auto simp: s list_all_iff)
  have "0 < c" using snoc.prems by (simp add: vc)
  consider "c > most" | "c = most" "xs \<noteq> []" "v \<noteq> dominant" | "c < most" using ih(2,3) \<open>0 < c\<close> new by (cases "xs = []") force+
  then show ?case
  proof cases
    case 1
    then show ?thesis using ih(1) new by (fastforce simp: s vc note_count_step list_all_iff)
  next
    case 2
    then show ?thesis using ih by (auto simp: s vc note_count_step list_all_iff)
  next
    case 3
    then show ?thesis using ih by (auto simp: s vc note_count_step list_all_iff)
  qed
qed simp

lemma count_pos: "v \<in> set xs \<Longrightarrow> 0 < count_list xs v"
  by (metis count_list_0_iff gr0I)

lemma consensus_counts:
  assumes "fold note_count (map (\<lambda>v. (v, count_list vals v)) (sort (remdups vals))) ([], 0, False) = (dominant, most, tie)" and "vals \<noteq> []"
  shows "\<And>v. count_list vals v \<le> most" and "dominant \<in> set vals" and "most = count_list vals dominant"
    and "tie \<longleftrightarrow> (\<exists>v. v \<noteq> dominant \<and> count_list vals v = most)"
proof -
  let ?xs = "map (\<lambda>v. (v, count_list vals v)) (sort (remdups vals))"
  have d: "distinct (map fst ?xs)" by (simp add: comp_def)
  have p: "list_all (\<lambda>(v, c). 0 < c) ?xs" using count_pos by (auto simp: list_all_iff)
  have f: "list_all (\<lambda>(v, c). c \<le> most) ?xs" "?xs \<noteq> [] \<longrightarrow> (dominant, most) \<in> set ?xs" "tie \<longleftrightarrow> (\<exists>v. v \<noteq> dominant \<and> (v, most) \<in> set ?xs)"
    using note_count_fold [OF d p] unfolding assms(1) by auto
  have "?xs \<noteq> []" using assms(2) by (metis Nil_is_map_conv set_empty set_remdups set_sort)
  then show dom: "dominant \<in> set vals" and most: "most = count_list vals dominant" using f(2) by auto
  show "count_list vals v \<le> most" for v using f(1) by (cases "v \<in> set vals") (auto simp: list_all_iff count_list_0_iff)
  have "0 < most" using count_pos [OF dom] most by simp
  then have "count_list vals v = most \<Longrightarrow> v \<in> set vals" for v by (metis count_list_0_iff less_numeral_extra(3))
  then show "tie \<longleftrightarrow> (\<exists>v. v \<noteq> dominant \<and> count_list vals v = most)" using f(3) by auto
qed

text \<open>
  The emphasis of a column of at least two cells: a cell is marked as consensus exactly when its value occurs more often than every
  other value, and as an outlier exactly when some other value does; with a tie nothing is marked. So the order in which Go ranges over
  the counts does not matter.
\<close>

theorem ColumnConsensus_majority:
  assumes "2 \<le> length vals" and "i < length vals"
  defines "majority \<equiv> \<lambda>m. \<forall>v. v \<noteq> m \<longrightarrow> count_list vals v < count_list vals m"
  shows "length (ColumnConsensus vals) = length vals \<and>
    (ColumnConsensus vals ! i = EmphasisConsensus \<longleftrightarrow> majority (vals ! i)) \<and>
    (ColumnConsensus vals ! i = EmphasisOutlier \<longleftrightarrow> (\<exists>m. m \<noteq> vals ! i \<and> majority m))"
proof -
  let ?xs = "map (\<lambda>v. (v, count_list vals v)) (sort (remdups vals))"
  obtain dominant most tie where s: "fold note_count ?xs ([], 0, False) = (dominant, most, tie)" by (metis prod_cases3)
  have ne: "vals \<noteq> []" using assms(1) by auto
  note c = consensus_counts [OF s ne]
  have maj: "majority m \<longleftrightarrow> \<not> tie \<and> m = dominant" for m
    unfolding majority_def c(3,4) using c(1)[unfolded c(3)]
    by (metis (no_types, lifting) leD le_neq_implies_less)
  show ?thesis
  proof (cases "length ?xs = 1")
    case True
    then have "card (set vals) = 1" by (simp add: length_remdups_card_conv)
    then obtain u where u: "set vals = {u}" by (auto simp: card_1_singleton_iff)
    have "v \<noteq> u \<Longrightarrow> count_list vals v = 0" for v by (simp add: count_list_0_iff u)
    then have "majority u" using count_pos [of u vals] by (simp add: majority_def u)
    moreover have "vals ! i = u" using nth_mem [OF assms(2)] u by simp
    ultimately show ?thesis using True assms(1,2) maj by (auto simp: ColumnConsensus_def Let_def)
  next
    case False
    then show ?thesis using assms(1,2) maj s by (auto simp: ColumnConsensus_def Let_def)
  qed
qed

theorem ColumnConsensus_majority_witness:
  "ColumnConsensus [''1'', ''2'', ''1''] ! 1 = EmphasisOutlier"
  using ColumnConsensus_majority [of "[''1'', ''2'', ''1'']" 1] by (auto intro!: exI [of _ "''1''"])

lemma ColumnConsensus_single: "ColumnConsensus [v] = [EmphasisNone]"
  by (simp add: ColumnConsensus_def)

section \<open>On concrete data\<close>

lemma example_page_data: "page_data_ok ''loki'' example_db" "names_ok example_db"
  by (simp_all add: page_data_ok_def assignments_ok_def targets_filled_def names_ok_def plain_labels_def gm_ok_def fd_key_def
      example_db_def empty_db_def)

lemma example_listed: "\<exists>fas. ListByFeature example_externals store_io ''loki'' example_db = Inr fas"
  by (simp add: ListByFeature_def ListFeatureAssignmentsByFeature_def query_def example_db_def empty_db_def with_data_def assignment_data_def
      assignments_from_def featureAssignmentFromSQL_def featureFromSQL_def makeFeatureYAML_def example_externals_def echo_externals_def)

theorem LoadEnvironments_winners_witness:
  "\<exists>version id. (''acme'', ''prod'', version, id, ''UNKNOWN'') \<in>
     (\<lambda>r. (fe_TenantName r, fe_EnvironmentName r, fe_Version r, fe_AssignmentID r, fe_Status r)) `
       set (LoadEnvironments example_externals store_io ''loki'' example_db)"
proof -
  obtain fas where fas: "ListByFeature example_externals store_io ''loki'' example_db = Inr fas" using example_listed by blast
  have io: "\<not> io_fails store_io q" for q by simp
  obtain w where w: "WinningAssignment example_externals store_io (en_ID example_env) ''loki'' example_db = Inr w" using example_winning by blast
  have "ReconcileStatuses store_io (as_ID w) example_db = Inr []"
    by (simp add: ReconcileStatuses_def query_def ListDecisionStatuses_def ListDeployStatuses_def example_db_def empty_db_def joinReconcileSignals_Nil)
  then have "FeatureStatusForEnvironment example_externals store_io (en_ID example_env) ''loki'' example_db = Inr ([], [])"
    by (simp add: FeatureStatusForEnvironment_def w)
  then show ?thesis
    unfolding LoadEnvironments_winners [OF example_page_data(1) io fas]
    using w by (force simp: example_db_def empty_db_def example_env_def NormalizeStatus_def)
qed

theorem overview_is_LoadEnvironments_witness:
  "map overview_environment (overviewTable (featureAssignmentEnvStatuses example_externals store_io ''loki'' example_db)) =
     LoadEnvironments example_externals store_io ''loki'' example_db"
proof -
  obtain fas where fas: "ListByFeature example_externals store_io ''loki'' example_db = Inr fas" using example_listed by blast
  have io: "\<not> io_fails store_io q" for q by simp
  show ?thesis by (rule overview_is_LoadEnvironments [OF example_page_data io fas])
qed

lemma uuid_String_nonempty: "uuid_String u \<noteq> []"
  by (simp add: uuid_String_def Let_def)

text \<open>
  Three assignments target one environment: the one with most labels wins, and the two others are overridden by it. The fallback
  of the winner is taken from the row that comes last, the oldest assignment, although the next winner is the other one.
\<close>

definition layered_db :: db where
  "layered_db = example_db \<lparr>
     feature_data := map (\<lambda>v. (hd (feature_data example_db)) \<lparr>fd_version := v\<rparr>) [''1'', ''2'', ''3''],
     feature_assignments := map (\<lambda>(i, v, t, c). (hd (feature_assignments example_db)) \<lparr>fa_id := i, fa_version := v, fa_target := t, fa_created := c\<rparr>)
       [(3, ''1'', [], 100), (4, ''2'', [(''tenant'', ''acme'')], 200), (5, ''3'', [(''name'', ''prod''), (''tenant'', ''acme'')], 300)]\<rparr>"

lemmas layered_eval = layered_db_def example_db_def empty_db_def ListByFeature_def ListFeatureAssignmentsByFeature_def query_def with_data_def
  assignment_data_def assignments_from_def featureAssignmentFromSQL_def featureFromSQL_def makeFeatureYAML_def example_externals_def
  echo_externals_def

text \<open>
  The fallback that the page announces is not always the version that takes over: with three assignments for one environment the
  map says that removing the winner brings version 1 back, and after removing it \<open>WinningAssignment\<close> returns version 2.
\<close>

theorem fallbackVersionMap_not_next:
  "map_of (fallbackVersionMap (featureAssignmentEnvStatuses example_externals store_io ''loki'' layered_db)) (uuid_String 5) = Some ''1'' \<and>
   map_option (\<lambda>w. f_Version (as_Feature w)) (case WinningAssignment example_externals store_io 1 ''loki''
     (DeactivateFeatureAssignment 5 layered_db) of Inl e \<Rightarrow> None | Inr w \<Rightarrow> Some w) = Some ''2''"
proof
  show "map_option (\<lambda>w. f_Version (as_Feature w)) (case WinningAssignment example_externals store_io 1 ''loki''
     (DeactivateFeatureAssignment 5 layered_db) of Inl e \<Rightarrow> None | Inr w \<Rightarrow> Some w) = Some ''2''"
    by (simp add: WinningAssignment_def mostSpecificAssignment_def ListFeatureAssignmentsForFeatureInEnvironment_def
        DeactivateFeatureAssignment_def deactivate_where_def labels_superset_def mostSpecificPerFeature_fa_def as_winner_def as_key_def
        IsMoreSpecific_def layered_eval)
next
  show "map_of (fallbackVersionMap (featureAssignmentEnvStatuses example_externals store_io ''loki'' layered_db)) (uuid_String 5) = Some ''1''"
    by (simp add: featureAssignmentEnvStatuses_def ListTenantEnvironments_def AllReconcileStatuses_def ListDisabledEnvironmentsForFeature_def
        LatestDeployedForFeature_def LatestDeployInstructionsForFeature_def ReleaseStatusesForFeature_def layered_eval
        features_latestAssignmentPerTarget_def features_targetKey_def label_value_def winningAssignments_def pick_winner_def
        targetMatchesLabels_def env_info_def Let_def assignment_row_def standing_def fallbackVersionMap_def IsMoreSpecific_def
        index_by_def index_statuses_def group_by_def ListAllDecisionStatuses_def ListAllDeployStatuses_def uuid_String_nonempty)
qed

end
