(* ===== verification/Environment_Pages.thy ===== *)
theory Environment_Pages
  imports Feature_Pages
begin

text \<open>
  What the pages of an environment show: the readers of \<open>internal/ui/uidata/queries.go\<close> with their statements, and the data
  behind \<open>internal/ui/pages/environment/environment.go\<close>, \<open>helpers.go\<close> and \<open>feature.go\<close>.

  Decoding of template details, hashing to a UUID, the indentation of JSON, the local time of Oslo and the order in which Go ranges over
  the set of the features that refer to a value are parameters (\<open>page_formats\<close>). A line of the log is shown without its row number. The theorems: the table of features has the statuses
  that the page of each feature shows; a release is offered for uninstalling exactly when nothing is assigned and the agent would
  carry it out; what the page says about the agent is what the reconciler acts on; the items of the configuration form.
\<close>

record page_formats =
  pf_details :: "string \<Rightarrow> err + FeatureTemplateDetails"
  pf_sha1 :: "string \<Rightarrow> uuid"
  pf_indent :: json_indent
  pf_oslo :: "gotime \<Rightarrow> string"
  pf_rank :: "string \<Rightarrow> string \<Rightarrow> nat"

definition FormatTime :: "page_formats \<Rightarrow> gotime \<Rightarrow> string" where
  "FormatTime p t = (if t = 0 then [] else pf_oslo p t)"

section \<open>Readers\<close>

definition ui_ListTenants :: "io \<Rightarrow> db \<Rightarrow> err + Tenant list" where
  "ui_ListTenants io d = query (io_fails io) ''ListTenants'' (sort_key (\<lambda>t. (- t_Created t, t_Name t)) (tenants d))"

definition ui_ListTenantEnvironments :: "io \<Rightarrow> uuid \<Rightarrow> db \<Rightarrow> err + Environment list" where
  "ui_ListTenantEnvironments io tenantID d = query (io_fails io) ''uidata.ListTenantEnvironments''
     (sort_key (\<lambda>e. (if e_Name e = ''management'' then 1 else 2 :: nat, e_Name e)) (filter (\<lambda>e. e_TenantID e = tenantID) (environments d)))"

definition ListEnvironmentFeatures :: "externals \<Rightarrow> io \<Rightarrow> uuid \<Rightarrow> db \<Rightarrow> err + (string \<times> bool) list" where
  "ListEnvironmentFeatures x io environmentID d =
     bindE (ListForEnvironment x io environmentID d) (\<lambda>assignments.
     Inr (sort_key fst (map (\<lambda>a. (as_key a, as_FeatureDisabled a)) assignments)))"

record DeployInstructionRow =
  dir_instruction :: FeatureDeployInstruction
  dir_TenantName :: string
  dir_EnvironmentName :: string

definition joined_instructions :: "db \<Rightarrow> ((uuid \<times> string) \<times> DeployCurrent \<Rightarrow> bool) \<Rightarrow> DeployInstructionRow list" where
  "joined_instructions d P =
     concat (map (\<lambda>r. concat (map (\<lambda>e. map (\<lambda>t.
         \<lparr>dir_instruction = current_instruction r, dir_TenantName = t_Name t, dir_EnvironmentName = e_Name e\<rparr>)
           (filter (\<lambda>t. t_ID t = e_TenantID e) (tenants d))) (filter (\<lambda>e. e_ID e = fst (fst r)) (environments d))))
       (filter P (deploy_current d)))"

definition ListDeployInstructions :: "io \<Rightarrow> uuid \<Rightarrow> db \<Rightarrow> err + DeployInstructionRow list" where
  "ListDeployInstructions io featureAssignmentID d = query (io_fails io) ''ListDeployInstructions''
     (sort_key (\<lambda>r. - di_Created (dir_instruction r)) (joined_instructions d (\<lambda>(k, c). dc_feature_assignment_id c = featureAssignmentID)))"

definition GetDeployInstructionByFeatureAssignmentAndEnvironmentID :: "uuid \<Rightarrow> uuid \<Rightarrow> db \<Rightarrow> DeployInstructionRow option" where
  "GetDeployInstructionByFeatureAssignmentAndEnvironmentID featureAssignmentID environmentID d =
     (case joined_instructions d (\<lambda>((e, f), c). dc_feature_assignment_id c = featureAssignmentID \<and> e = environmentID) of
        [] \<Rightarrow> None | r # _ \<Rightarrow> Some r)"

record LogLine =
  ll_Timestamp :: gotime
  ll_Message :: string
  ll_DeployInstructionID :: uuid

definition logLineFromSQL :: "LogRow \<Rightarrow> LogLine" where
  "logLineFromSQL r = \<lparr>ll_Timestamp = lr_time r, ll_Message = lr_message r, ll_DeployInstructionID = lr_deploy_instruction r\<rparr>"

definition GetLogLines :: "io \<Rightarrow> uuid \<Rightarrow> db \<Rightarrow> err + LogLine list" where
  "GetLogLines io deployInstructionID d =
     bindE (query (io_fails io) ''LogsByDeployInstruction''
       (sort_key lr_time (filter (\<lambda>r. lr_deploy_instruction r = deployInstructionID) (logs d)))) (\<lambda>rows.
     Inr (map logLineFromSQL rows))"

definition GetLogLinesForDeployInstructions :: "io \<Rightarrow> uuid list \<Rightarrow> db \<Rightarrow> err + (uuid, LogLine list) gomap" where
  "GetLogLinesForDeployInstructions io ids d =
     (if length ids = 0 then Inr []
      else bindE (query (io_fails io) ''LogsByDeployInstructions''
          (sort_key (\<lambda>r. (lr_deploy_instruction r, lr_time r)) (filter (\<lambda>r. List.member ids (lr_deploy_instruction r)) (logs d)))) (\<lambda>rows.
        Inr (group_by lr_deploy_instruction logLineFromSQL rows)))"

definition GetFeatureLog :: "io \<Rightarrow> uuid \<Rightarrow> uuid \<Rightarrow> db \<Rightarrow> err + (DeployInstructionRow \<times> LogLine list) option" where
  "GetFeatureLog io featureAssignmentID environmentID d =
     (case one io ''GetDeployInstructionByFeatureAssignmentAndEnvironmentID''
         (GetDeployInstructionByFeatureAssignmentAndEnvironmentID featureAssignmentID environmentID d) of
        Inl e \<Rightarrow> if errors_Is e ErrNoRows then Inr None else Inl (Wrap ''get deploy instruction'' e)
      | Inr di \<Rightarrow> bindE (wrapE ''get logs'' (GetLogLines io (di_ID (dir_instruction di)) d)) (\<lambda>lines. Inr (Some (di, lines))))"

text \<open>
  The features that refer to each value of an environment, in the order in which Go happens to range over their set. Details that do
  not decode are skipped.
\<close>

definition note_references ::
  "page_formats \<Rightarrow> FeatureAssignment \<Rightarrow> (string, (string, bool) gomap) gomap \<Rightarrow> (string, (string, bool) gomap) gomap" where
  "note_references p dep refSets =
     (if length (f_TplDetails (as_Feature dep)) = 0 then refSets
      else case pf_details p (f_TplDetails (as_Feature dep)) of
          Inl e \<Rightarrow> refSets
        | Inr details \<Rightarrow> fold (\<lambda>key. gm_put2 key (as_key dep) True)
            (remdups (td_Env details @ td_Envs details @ td_Management details)) refSets)"

definition GetEnvironmentValueReferences :: "externals \<Rightarrow> page_formats \<Rightarrow> io \<Rightarrow> uuid \<Rightarrow> db \<Rightarrow> err + (string, string list) gomap" where
  "GetEnvironmentValueReferences x p io envID d =
     bindE (wrapE ''list feature assignments for environment'' (ListForEnvironment x io envID d)) (\<lambda>assignments.
     Inr (map (\<lambda>(key, names). (key, sort_key (pf_rank p key) (map fst names))) (fold (note_references p) assignments [])))"

record FeatureVersion =
  fv_Version :: string
  fv_Description :: string
  fv_Source :: string
  fv_LastUpdated :: gotime

text \<open>\<open>MAX(COALESCE(created, zero))\<close> of the assignments of a version, and the versions in descending order.\<close>

definition FeatureVersions :: "io \<Rightarrow> string \<Rightarrow> db \<Rightarrow> err + FeatureVersion list" where
  "FeatureVersions io name d =
     wrapE (''list versions for '' @ [CHR 0x22] @ name @ [CHR 0x22]) (query (io_fails io) ''FeatureVersions''
       (rev (sort_key (\<lambda>r. (fv_LastUpdated r, fv_Version r)) (remdups
         (map (\<lambda>fd. \<lparr>fv_Version = fd_version fd, fv_Description = fd_description fd, fv_Source = fd_source fd,
              fv_LastUpdated = fold max (map fa_created (filter (\<lambda>a. fa_feature_name a = fd_name fd \<and> fa_version a = fd_version fd)
                 (feature_assignments d))) 0\<rparr>)
           (filter (\<lambda>fd. fd_name fd = name) (feature_data d)))))))"

definition ListActiveFeatures :: "io \<Rightarrow> db \<Rightarrow> err + (string \<times> string \<times> string) list" where
  "ListActiveFeatures io d = query (io_fails io) ''ListActiveFeatures''
     (map (\<lambda>(a, fd). (fd_name fd, fd_description fd, fd_source fd))
       (distinct_on (\<lambda>(a, fd). fa_feature_name a) (sort_key (\<lambda>(a, fd). (fa_feature_name a, - fa_created a))
         (with_data d (filter fa_active (feature_assignments d))))))"

section \<open>The page of an environment\<close>

record environmentFeatureRow =
  efr_Name :: string
  efr_Status :: string
  efr_StatusMessage :: string
  efr_Version :: string
  efr_LastSuccessful :: gotime

definition feature_row ::
  "Environment \<Rightarrow> (string, string \<times> string) gomap \<Rightarrow> (string, FeatureDeployInstruction) gomap \<Rightarrow>
    (string, FeatureDeployInstruction) gomap \<Rightarrow> string \<times> bool \<Rightarrow> environmentFeatureRow" where
  "feature_row env statuses latest deployed feature = (case feature of (name, disabled) \<Rightarrow>
     let (status, message) =
           (if \<not> e_Reconcile env \<or> disabled then (''DISABLED'', [])
            else case map_of statuses name of
                Some s \<Rightarrow> if fst s \<noteq> [] then (NormalizeStatus (fst s), snd s) else (''UNKNOWN'', [])
              | None \<Rightarrow> (''UNKNOWN'', []))
     in \<lparr>efr_Name = name, efr_Status = status, efr_StatusMessage = message,
         efr_Version = (case map_of latest name of None \<Rightarrow> [] | Some di \<Rightarrow> di_FeatureVersion di),
         efr_LastSuccessful = (case map_of deployed name of None \<Rightarrow> 0 | Some di \<Rightarrow> di_LastModified di)\<rparr>)"

definition loadEnvironmentFeatureRows :: "externals \<Rightarrow> io \<Rightarrow> Environment \<Rightarrow> db \<Rightarrow> err + environmentFeatureRow list" where
  "loadEnvironmentFeatureRows x io env d =
     bindE (ListEnvironmentFeatures x io (e_ID env) d) (\<lambda>features.
     bindE (if e_Reconcile env then FeatureStatusesForEnvironment x io (e_ID env) d else Inr []) (\<lambda>statuses.
     bindE (LatestDeployInstructionsForEnvironment io (e_ID env) d) (\<lambda>latest.
     bindE (LatestDeployedForEnvironment io (e_ID env) d) (\<lambda>deployed.
     Inr (sort_key efr_Name (map (feature_row env statuses latest deployed) features))))))"

definition environmentTab :: "string \<Rightarrow> string" where
  "environmentTab tab = (if List.member [''details'', ''values'', ''features'', ''helm''] tab then tab else ''features'')"

record releaseRow =
  rr_Release :: FeatureRelease
  rr_Orphaned :: bool

definition buildReleaseRows :: "externals \<Rightarrow> io \<Rightarrow> uuid \<Rightarrow> FeatureRelease list \<Rightarrow> db \<Rightarrow> err + releaseRow list" where
  "buildReleaseRows x io envID releases d =
     bindE (ListForEnvironment x io envID d) (\<lambda>assignments.
     let desired = index_by as_key (\<lambda>_. True) assignments
     in Inr (map (\<lambda>rel. \<lparr>rr_Release = rel, rr_Orphaned = (map_of desired (fr_Name rel) = None)\<rparr>) releases))"

definition countOrphans :: "releaseRow list \<Rightarrow> nat" where
  "countOrphans releases = length (filter rr_Orphaned releases)"

text \<open>The address that the uninstall button posts to, when there is one.\<close>

definition uninstallCell :: "string \<Rightarrow> string \<Rightarrow> releaseRow \<Rightarrow> string option" where
  "uninstallCell tenantName environmentName release =
     (let name = fr_Name (rr_Release release)
      in if \<not> rr_Orphaned release \<or> name = ''naisd'' \<or> name = ''fasitd'' then None
         else Some (''/tenants/'' @ tenantName @ ''/envs/'' @ environmentName @ ''/releases/'' @ name @ ''/uninstall''))"

record environmentHealth =
  eh_ReportedAt :: gotime
  eh_HasReport :: bool

text \<open>The first instant of the year 2000.\<close>

definition year_2000 :: gotime where
  "year_2000 = 730119 * 24 * hour"

definition loadEnvironmentHealth :: "io \<Rightarrow> uuid \<Rightarrow> db \<Rightarrow> err + environmentHealth" where
  "loadEnvironmentHealth io envID d =
     bindE (naisdstatus_Get io envID d) (\<lambda>reportedAt.
     Inr (if reportedAt < year_2000 then \<lparr>eh_ReportedAt = 0, eh_HasReport = False\<rparr> else \<lparr>eh_ReportedAt = reportedAt, eh_HasReport = True\<rparr>))"

definition environmentHealthyThreshold :: duration where "environmentHealthyThreshold = 60 * second"
definition environmentStaleThreshold :: duration where "environmentStaleThreshold = 5 * minute"

definition naisdHealthBucket :: "environmentHealth \<Rightarrow> gotime \<Rightarrow> string \<times> string" where
  "naisdHealthBucket health now =
     (if \<not> eh_HasReport health then (''status-error'', ''no report'')
      else let age = now - eh_ReportedAt health
           in if age < environmentHealthyThreshold then (''status-success'', ''healthy'')
              else if age < environmentStaleThreshold then (''status-error'', ''stale'')
              else (''status-error'', ''dead''))"

definition naisdHealthTitle :: "string \<Rightarrow> string" where
  "naisdHealthTitle label = (if label = ''no report'' then ''No Naisd report'' else ''Naisd is '' @ label)"

definition naisdInstallCommand :: "string \<Rightarrow> Environment \<Rightarrow> string \<Rightarrow> string" where
  "naisdInstallCommand tenantName environment gcpProjectID =
     strings_Join
       ([''helm install naisd oci://europe-north1-docker.pkg.dev/nais-io/nais/feature/naisd'', ''--namespace nais-system'',
         ''--create-namespace'', ''--set tenantName='' @ tenantName, ''--set env='' @ e_Name environment,
         ''--set envProjectId='' @ (if gcpProjectID = [] then ''<gcp-project-id>'' else gcpProjectID),
         ''--set deploySubscription=naisd-fasit-'' @ e_Name environment,
         ''--set management='' @ (if e_Kind environment = EnvironmentKindManagement then ''true'' else ''false'')] @
        (if e_Kind environment = EnvironmentKindOnprem
         then [''--set google.useServiceAccountKey=true'', ''--set-file google.serviceAccountKey=<naisd service account key.json>'']
         else []))
       ('' '' @ [CHR 0x5C, CHR 0x0A] @ ''  '')"

definition naisdBootstrapCard :: "string \<Rightarrow> Environment \<Rightarrow> string \<Rightarrow> environmentHealth \<Rightarrow> string option" where
  "naisdBootstrapCard tenantName environment gcpProjectID health =
     (if eh_HasReport health then None else Some (naisdInstallCommand tenantName environment gcpProjectID))"

section \<open>The page of a feature in an environment\<close>

definition getEnvironmentMetadata :: "page_formats \<Rightarrow> Environment \<Rightarrow> (string \<times> string) list" where
  "getEnvironmentMetadata p env =
     filter (\<lambda>(key, shown). shown \<noteq> [])
       ([(''ID'', uuid_String (e_ID env)), (''Name'', e_Name env)] @
        (case e_Description env of None \<Rightarrow> [] | Some t \<Rightarrow> [(''Description'', t)]) @
        [(''Kind'', e_Kind env), (''Created'', FormatTime p (e_Created env)), (''Last Modified'', FormatTime p (e_LastModified env))]) @
     [(''Reconcile'', if e_Reconcile env then ''true'' else ''false'')]"

definition gcpProjectIDFromValues :: "externals \<Rightarrow> page_formats \<Rightarrow> EnvironmentValue list \<Rightarrow> string" where
  "gcpProjectIDFromValues x p vs =
     (case find (\<lambda>v. ev_Key v = ''project_id'' \<and> \<not> ev_Secret v) vs of
        None \<Rightarrow> [] | Some v \<Rightarrow> RawValueForDisplay x (pf_indent p) (ev_Value v))"

text \<open>\<open>url.QueryEscape\<close>.\<close>

definition unreserved :: "char \<Rightarrow> bool" where
  "unreserved c \<longleftrightarrow> (let n = of_char c :: nat in
     (48 \<le> n \<and> n \<le> 57) \<or> (65 \<le> n \<and> n \<le> 90) \<or> (97 \<le> n \<and> n \<le> 122) \<or> c \<in> set ''-_.~'')"

definition upper_hex :: "nat \<Rightarrow> char" where
  "upper_hex n = (if n < 10 then char_of (48 + n) else char_of (55 + n))"

definition QueryEscape :: "string \<Rightarrow> string" where
  "QueryEscape s = concat (map (\<lambda>c. if unreserved c then [c] else if c = CHR '' '' then ''+''
     else let n = of_char c :: nat in [CHR ''%'', upper_hex (n div 16), upper_hex (n mod 16)]) s)"

definition gcpProjectHref :: "string \<Rightarrow> string \<Rightarrow> string" where
  "gcpProjectHref projectID userEmail =
     ''https://console.cloud.google.com/welcome?project='' @ projectID @
     (if userEmail \<noteq> [] \<and> userEmail \<noteq> LocalDevEmail \<and> strings_Contains userEmail ''@''
      then ''&authuser='' @ QueryEscape userEmail else [])"

text \<open>The items of the configuration form.\<close>

definition ConfigSourceHelm :: string where "ConfigSourceHelm = ''HELM''"

record ConfigItem =
  ci_ID :: string
  ci_Key :: string
  ci_DisplayName :: string
  ci_Description :: string
  ci_Type :: string
  ci_Value :: string
  ci_HasValue :: bool
  ci_Source :: string
  ci_FallbackValue :: string
  ci_Template :: string
  ci_IsSecret :: bool
  ci_IsConfigurable :: bool
  ci_IsComputed :: bool
  ci_Required :: bool
  ci_IsOrphaned :: bool
  ci_MappedCount :: nat

type_synonym declared_row = "Configuration \<times> Value option"

fun set_declared :: "string \<Rightarrow> Value \<Rightarrow> declared_row list \<Rightarrow> declared_row list option" where
  "set_declared key val [] = None"
| "set_declared key val ((c, v) # rows) =
     (if conf_Key c = key then Some ((c, Some val) # rows) else map_option (\<lambda>rs. (c, v) # rs) (set_declared key val rows))"

definition default_value :: "Feature \<Rightarrow> string \<Rightarrow> string" where
  "default_value feat key = (case map_of (f_ValuesYAML feat) key of None \<Rightarrow> [] | Some raw \<Rightarrow> raw)"

definition attach_value :: "page_formats \<Rightarrow> Feature \<Rightarrow> string \<times> Value \<Rightarrow> declared_row list \<Rightarrow> declared_row list" where
  "attach_value p feat kv rows = (case kv of (key, val) \<Rightarrow>
     if v_Config val = None \<and> v_Computed val = None then rows
     else case set_declared key val rows of
         Some rs \<Rightarrow> rs
       | None \<Rightarrow> rows @ [(\<lparr>conf_ID = pf_sha1 p (f_Name feat @ ''|'' @ key), conf_Key = key, conf_Content = default_value feat key,
           conf_Created = 0, conf_Source = ConfigSourceHelm\<rparr>, Some val)])"

definition countTemplateRefs :: "Values \<Rightarrow> string \<Rightarrow> nat" where
  "countTemplateRefs vs key = length (filter (\<lambda>(k, v). k \<noteq> key \<and> (case v_Computed v of
       None \<Rightarrow> False | Some c \<Rightarrow> cmp_Template c \<noteq> [] \<and> strings_Contains (cmp_Template c) (''.Configs.'' @ key))) vs)"

fun lookup_path :: "gval \<Rightarrow> string list \<Rightarrow> gval option" where
  "lookup_path cur [] = Some cur"
| "lookup_path cur (k # ks) = (case cur of
      GMap mm \<Rightarrow> (case map_of mm k of None \<Rightarrow> None | Some v \<Rightarrow> lookup_path v ks)
    | _ \<Rightarrow> None)"

definition lookupHelmValue :: "externals \<Rightarrow> gmap \<Rightarrow> string \<Rightarrow> string \<times> bool \<times> bool" where
  "lookupHelmValue x m key =
     (case SmartDotSplit key of
        Inl e \<Rightarrow> ([], False, False)
      | Inr keys \<Rightarrow>
          if length keys = 0 then ([], False, False)
          else case lookup_path (GMap m) keys of
              None \<Rightarrow> ([], False, False)
            | Some (GStr v) \<Rightarrow> (v, True, True)
            | Some GNil \<Rightarrow> ([], True, False)
            | Some v \<Rightarrow> (case x_marshal x v of Inl e \<Rightarrow> ([], False, False) | Inr b \<Rightarrow> (b, True, True)))"

definition config_item :: "externals \<Rightarrow> page_formats \<Rightarrow> Feature \<Rightarrow> (string, string) gomap \<Rightarrow> declared_row \<Rightarrow> ConfigItem" where
  "config_item x p feat globalByKey cv = (case cv of (c, v) \<Rightarrow>
     let show = RawValueForDisplay x (pf_indent p);
         config = (case v of None \<Rightarrow> None | Some val \<Rightarrow> v_Config val);
         computed = (case v of None \<Rightarrow> None | Some val \<Rightarrow> v_Computed val)
     in \<lparr>ci_ID = uuid_String (conf_ID c), ci_Key = conf_Key c,
         ci_DisplayName = (case v of None \<Rightarrow> [] | Some val \<Rightarrow> v_DisplayName val),
         ci_Description = (case v of None \<Rightarrow> [] | Some val \<Rightarrow> v_Description val),
         ci_Type = (case config of None \<Rightarrow> [] | Some cfg \<Rightarrow> strings_ToUpper (cfg_Type cfg)),
         ci_Value = show (conf_Content c), ci_HasValue = rawHasValue x (conf_Content c), ci_Source = conf_Source c,
         ci_FallbackValue = (if conf_Source c \<noteq> ConfigSourceEnv then []
           else case map_of globalByKey (conf_Key c) of
               Some gv \<Rightarrow> show gv
             | None \<Rightarrow> (case map_of (f_ValuesYAML feat) (conf_Key c) of Some raw \<Rightarrow> show raw | None \<Rightarrow> [])),
         ci_Template = (case computed of None \<Rightarrow> [] | Some m \<Rightarrow> cmp_Template m),
         ci_IsSecret = (case config of None \<Rightarrow> False | Some cfg \<Rightarrow> cfg_Secret cfg),
         ci_IsConfigurable = (config \<noteq> None), ci_IsComputed = (computed \<noteq> None),
         ci_Required = (case v of None \<Rightarrow> False | Some val \<Rightarrow> v_Required val),
         ci_IsOrphaned = (v = None), ci_MappedCount = countTemplateRefs (f_Values feat) (conf_Key c)\<rparr>)"

definition show_rendered :: "externals \<Rightarrow> gmap \<Rightarrow> ConfigItem \<Rightarrow> ConfigItem" where
  "show_rendered x rendered item =
     (if \<not> ci_IsComputed item \<or> ci_IsSecret item then item
      else if ci_Source item = ConfigSourceEnv then item
      else case lookupHelmValue x rendered (ci_Key item) of (v, found, hasVal) \<Rightarrow>
        if found then item \<lparr>ci_Value := v, ci_HasValue := hasVal\<rparr> else item)"

text \<open>The values are rendered only when a key is computed; a failure to render is ignored.\<close>

definition rendered_values ::
  "externals \<Rightarrow> string \<Rightarrow> io \<Rightarrow> Feature \<Rightarrow> uuid \<Rightarrow> db \<Rightarrow> declared_row list \<Rightarrow> gmap option" where
  "rendered_values x aud io feat envID d configs =
     (if list_ex (\<lambda>(c, v). case v of None \<Rightarrow> False | Some val \<Rightarrow> v_Computed val \<noteq> None) configs
      then (case HelmValues x aud io feat envID d of Inl e \<Rightarrow> None | Inr m \<Rightarrow> Some m) else None)"

definition loadFeatureConfigItems ::
  "externals \<Rightarrow> page_formats \<Rightarrow> string \<Rightarrow> io \<Rightarrow> Feature \<Rightarrow> uuid \<Rightarrow> db \<Rightarrow> err + ConfigItem list" where
  "loadFeatureConfigItems x p aud io feat envID d =
     bindE (GetEnvConfig io (f_Name feat) envID d) (\<lambda>stored.
     let configs = sort_key (\<lambda>(c, v). conf_Key c) (fold (attach_value p feat) (f_Values feat) (map (\<lambda>c. (c, None)) stored));
         rendered = rendered_values x aud io feat envID d configs
     in bindE (GetGlobalConfig io (f_Name feat) d) (\<lambda>globalConfigs.
        let items = map (config_item x p feat (index_by conf_Key conf_Content globalConfigs)) configs
        in Inr (case rendered of None \<Rightarrow> items | Some m \<Rightarrow> map (show_rendered x m) items)))"

text \<open>The assignments that target an environment, those with most labels only, the latest first by their printed time.\<close>

record EnvAssignmentItem =
  eai_ID :: string
  eai_Version :: string
  eai_Status :: string
  eai_TargetLabels :: Labels
  eai_Created :: string

definition assignment_item :: "page_formats \<Rightarrow> uuid \<Rightarrow> (uuid, FeatureReconcileStatus list) gomap \<Rightarrow> FeatureAssignment \<Rightarrow> EnvAssignmentItem" where
  "assignment_item p envID statusesByFA dep =
     \<lparr>eai_ID = uuid_String (as_ID dep), eai_Version = f_Version (as_Feature dep),
      eai_Status = (case find (\<lambda>s. rst_EnvironmentID s = envID) (gm_list statusesByFA (as_ID dep)) of
          None \<Rightarrow> ''UNKNOWN'' | Some s \<Rightarrow> NormalizeStatus (rst_State s)),
      eai_TargetLabels = as_TargetLabels dep, eai_Created = FormatTime p (as_Created dep)\<rparr>"

definition loadEnvironmentAssignments :: "externals \<Rightarrow> page_formats \<Rightarrow> io \<Rightarrow> string \<Rightarrow> uuid \<Rightarrow> db \<Rightarrow> EnvAssignmentItem list" where
  "loadEnvironmentAssignments x p io featureName envID d =
     (case GetLabels io envID d of Inl e \<Rightarrow> [] | Inr envLabels \<Rightarrow>
     (case ListByFeature x io featureName d of Inl e \<Rightarrow> [] | Inr assignments \<Rightarrow>
     (case AllReconcileStatuses io d of Inl e \<Rightarrow> [] | Inr statusesByFA \<Rightarrow>
        let candidates = map (assignment_item p envID statusesByFA)
              (filter (\<lambda>dep. targetMatchesLabels (as_TargetLabels dep) envLabels) assignments);
            maxLabels = fold max (map (\<lambda>c. length (eai_TargetLabels c)) candidates) 0
        in rev (sort_key eai_Created (filter (\<lambda>c. length (eai_TargetLabels c) = maxLabels) candidates)))))"

definition shown_line :: "page_formats \<Rightarrow> LogLine \<Rightarrow> string \<times> string" where
  "shown_line p line = (FormatTime p (ll_Timestamp line), ll_Message line)"

definition loadFeatureLog :: "page_formats \<Rightarrow> io \<Rightarrow> uuid \<Rightarrow> string \<Rightarrow> db \<Rightarrow> (string \<times> string) list option" where
  "loadFeatureLog p io envID name d =
     (case bindE (GetLatestDeployInstruction io envID name d) (\<lambda>di. GetLogLines io (di_ID di) d) of
        Inl (e :: err) \<Rightarrow> None | Inr lines \<Rightarrow> Some (map (shown_line p) lines))"

definition loadDeployLogs :: "page_formats \<Rightarrow> io \<Rightarrow> FeatureDeployInstruction list \<Rightarrow> db \<Rightarrow> (uuid, (string \<times> string) list) gomap" where
  "loadDeployLogs p io history d =
     (if length history = 0 then []
      else case GetLogLinesForDeployInstructions io (map di_ID history) d of
          Inl e \<Rightarrow> [] | Inr byID \<Rightarrow> map_vals (map (shown_line p)) byID)"

record FeaturePage =
  fp_Tenant :: Tenant
  fp_TenantSlug :: string
  fp_Environment :: Environment
  fp_Feature :: Feature
  fp_Enabled :: bool
  fp_DisableReason :: string
  fp_ConfigItems :: "ConfigItem list"
  fp_FeatureEnvs :: "FeatureEnvironment list"
  fp_Assignments :: "EnvAssignmentItem list"
  fp_FeatureLog :: "(string \<times> string) list option"
  fp_Status :: string
  fp_StatusMessage :: string
  fp_ActiveTab :: string
  fp_AuditEntries :: "Entry list"
  fp_WinningAssignment :: "FeatureAssignment option"
  fp_Release :: "FeatureRelease option"
  fp_RecentDeployHistory :: "FeatureDeployInstruction list"
  fp_DeployLogs :: "(uuid, (string \<times> string) list) gomap"
  fp_DecisionHistory :: "DecisionLog list"

definition or_default :: "'a \<Rightarrow> err + 'a \<Rightarrow> 'a" where
  "or_default v r = (case r of Inl e \<Rightarrow> v | Inr a \<Rightarrow> a)"

definition page_status :: "externals \<Rightarrow> io \<Rightarrow> Environment \<Rightarrow> bool \<Rightarrow> string \<Rightarrow> db \<Rightarrow> string \<times> string" where
  "page_status x io env disabled featureName d =
     (if \<not> e_Reconcile env then (''DISABLED'', [])
      else if disabled then (''DISABLED'', [])
      else case FeatureStatusForEnvironment x io (e_ID env) featureName d of
          Inl e \<Rightarrow> ([], []) | Inr (status, msg) \<Rightarrow> if status \<noteq> [] then (status, msg) else ([], []))"

definition loadFeaturePageData ::
  "externals \<Rightarrow> page_formats \<Rightarrow> string \<Rightarrow> io \<Rightarrow> string \<Rightarrow> string \<Rightarrow> string \<Rightarrow> string \<Rightarrow> db \<Rightarrow> err + FeaturePage" where
  "loadFeaturePageData x p aud io tenantSlug envName featureName activeTab d =
     bindE (GetTenantByName io tenantSlug d) (\<lambda>tenant.
     bindE (environment_GetByName io (t_ID tenant) envName d) (\<lambda>env.
     bindE (FeatureForEnvironment x io (e_ID env) featureName d) (\<lambda>feat.
     bindE (GetFeatureDisabledAt io (e_ID env) featureName d) (\<lambda>disabledAt.
     let disabled = (disabledAt \<noteq> None);
         merged = (activeTab \<noteq> ''assignments'');
         (status, msg) = page_status x io env disabled featureName d;
         history = (if merged then or_default [] (ListRecentDeployInstructions io (e_ID env) featureName 50 d) else [])
     in bindE (if merged then loadFeatureConfigItems x p aud io feat (e_ID env) d else Inr []) (\<lambda>items.
        bindE (wrapE ''load audit entries'' (ListForFeatureInEnvironment io featureName (e_ID env) 3 d)) (\<lambda>entries.
        Inr \<lparr>fp_Tenant = tenant, fp_TenantSlug = tenantSlug, fp_Environment = env, fp_Feature = feat, fp_Enabled = (\<not> disabled),
          fp_DisableReason = (if disabled then LatestDisableReason io featureName (e_ID env) d else []),
          fp_ConfigItems = items, fp_FeatureEnvs = LoadEnvironments x io (f_Name feat) d,
          fp_Assignments = (if merged then [] else loadEnvironmentAssignments x p io featureName (e_ID env) d),
          fp_FeatureLog = loadFeatureLog p io (e_ID env) (f_Name feat) d, fp_Status = status, fp_StatusMessage = msg,
          fp_ActiveTab = activeTab, fp_AuditEntries = entries,
          fp_WinningAssignment = (if merged then or_default None (bindE (WinningAssignment x io (e_ID env) featureName d) (\<lambda>dep. Inr (Some dep)))
            else None),
          fp_Release = (if merged then or_default None (GetReleaseStatus io (e_ID env) featureName d) else None),
          fp_RecentDeployHistory = history, fp_DeployLogs = loadDeployLogs p io history d,
          fp_DecisionHistory = (if merged then or_default [] (ListDecisionLog io (e_ID env) featureName d) else [])\<rparr>))))))"

definition isRedeployable :: "FeaturePage \<Rightarrow> bool" where
  "isRedeployable page \<longleftrightarrow> fp_Enabled page \<and> (fp_Status page = ''DEPLOYED'' \<or> fp_Status page = ''FAILED'')"

definition targetVersionSuffix :: "FeaturePage \<Rightarrow> string" where
  "targetVersionSuffix page = (case fp_WinningAssignment page of
      None \<Rightarrow> [] | Some w \<Rightarrow> if f_Version (as_Feature w) \<noteq> [] then '' '' @ f_Version (as_Feature w) else [])"

definition ellipsis :: string where
  "ellipsis = [CHR 0xE2, CHR 0x80, CHR 0xA6]"

text \<open>The kind and the text of the alert.\<close>

definition reconcileAlertLine :: "FeaturePage \<Rightarrow> (string \<times> string) option" where
  "reconcileAlertLine page =
     (let s = fp_Status page
      in if s = ''FAILED'' then Some (''error'', ''Reconcile failed'')
         else if s = ''SENT'' \<or> s = ''INSTALLING'' then Some (''pending'', ''Reconciling'' @ targetVersionSuffix page @ ellipsis)
         else if s = ''PENDING'' then Some (''pending'', ''Reconcile pending'')
         else if List.member [''MISSING-CONFIG'', ''MISSING-DEPS'', ''UNHEALTHY'', ''RENDER-ERROR''] s
           then Some (''warning'', ''Reconcile blocked: '' @ (if fp_StatusMessage page = [] then ''reconcile blocked'' else fp_StatusMessage page))
         else None)"

definition isConverged :: "FeaturePage \<Rightarrow> bool" where
  "isConverged page \<longleftrightarrow> List.member [''DEPLOYED'', ''DISABLED'', ''UNKNOWN'', []] (fp_Status page)"

section \<open>The assignments of an environment and the winner of a feature\<close>

lemma mapE_post: "mapE g xs = Inr ys \<Longrightarrow> mapE (\<lambda>y. bindE (g y) (\<lambda>z. Inr (h z))) xs = Inr (map h ys)"
  by (induction xs arbitrary: ys) (auto simp: bindE_eq_Inr)

lemma same_winner:
  assumes "ra_of_as ` set (mostSpecificPerFeature_fa zs) = {w \<in> ra_of_as ` set deps. ra_key w = name}"
  shows "case mostSpecificPerFeature_fa zs of
      [] \<Rightarrow> name \<notin> as_key ` set deps
    | w # ws \<Rightarrow> \<exists>a \<in> set deps. as_key a = name \<and> as_ID a = as_ID w \<and> as_Feature a = as_Feature w"
proof (cases "mostSpecificPerFeature_fa zs")
  case Nil
  then show ?thesis using assms by (auto simp: image_iff)
next
  case (Cons w ws)
  have "ra_of_as w \<in> {w \<in> ra_of_as ` set deps. ra_key w = name}" unfolding assms [symmetric] Cons by simp
  then obtain a where "a \<in> set deps" "ra_of_as w = ra_of_as a" "ra_key (ra_of_as w) = name" by blast
  then show ?thesis using Cons by (auto simp: ra_of_as_def ra_key_def as_key_def)
qed

text \<open>What one row of the listing converts to, with and without the mark of a disabled feature.\<close>

lemma ListForEnvironment_winner:
  assumes "distinct (map e_ID (environments d))" and e: "e \<in> set (environments d)"
    and io: "\<not> io_fails io ''ListFeatureAssignmentsForFeatureInEnvironment''" and run: "ListForEnvironment x io (e_ID e) d = Inr deps"
  shows "case WinningAssignment x io (e_ID e) name d of
      Inr w \<Rightarrow> \<exists>a \<in> set deps. as_key a = name \<and> as_ID a = as_ID w \<and> as_Feature a = as_Feature w
    | Inl err \<Rightarrow> errors_Is err ErrFeatureNotFound \<and> name \<notin> as_key ` set deps"
    and "distinct (map as_key deps)"
    and "a \<in> set deps \<Longrightarrow> as_FeatureDisabled a = (map_of (disabled_features d) (e_ID e, as_key a) \<noteq> None)"
proof -
  define L where "L = filter (\<lambda>(a, fd). labels_superset (e_Labels e) (fa_target a)) (ListLatestFeatureAssignments d)"
  define flag where "flag row = (map_of (disabled_features d) (e_ID e, fa_feature_name (fst row)) \<noteq> None)" for row :: "AssignmentRow \<times> FeatureDatum"
  define g where "g row = bindE (wrapE ''make feature assignment'' (featureAssignmentFromSQL x row))
      (\<lambda>dep. Inr (dep \<lparr>as_FeatureDisabled := flag row\<rparr>))" for row
  have one: "filter (\<lambda>e'. e_ID e' = e_ID e) (environments d) = [e]"
    using filter_id_unique [of e_ID "environments d" e] e assms(1) by simp
  obtain zs where zs: "mapE g L = Inr zs" and deps: "deps = mostSpecificPerFeature_fa zs"
    using run by (auto simp: ListForEnvironment_def env_rows(1) [OF one] featureAssignmentsFromRows_def mapE_map bindE_eq_Inr
        L_def g_def [abs_def] flag_def split: if_splits)
  have conv: "\<exists>a. featureAssignmentFromSQL x row = Inr a \<and> z = a \<lparr>as_FeatureDisabled := flag row\<rparr> \<and> as_key z = fa_feature_name (fst row)"
    if row: "row \<in> set L" and z: "g row = Inr z" for row z
  proof -
    obtain a where a: "featureAssignmentFromSQL x row = Inr a" "z = a \<lparr>as_FeatureDisabled := flag row\<rparr>"
      using z by (auto simp: g_def bindE_eq_Inr)
    have "fa_feature_name (fst row) = fd_name (snd row)" using row latest_rows_data [of "fst row" "snd row" d] by (auto simp: L_def)
    then show ?thesis using a conv_key [of x "fst row" "snd row"] by (simp add: as_key_def)
  qed
  let ?rows = "filter (\<lambda>(a, fd). fa_feature_name a = name) L"
  let ?ra = "\<lambda>row. bindE (g row) (\<lambda>z. Inr (ra_of_as z))"
  have src: "mapE ?ra ?rows = Inr (filter (\<lambda>r. ra_key r = name) (map ra_of_as zs))"
  proof (rule mapE_filter [OF mapE_post [OF zs]])
    fix row r assume row: "row \<in> set L" and "?ra row = Inr r"
    then obtain z where z: "g row = Inr z" "r = ra_of_as z" by (auto simp: bindE_eq_Inr)
    then show "(case row of (a, fd) \<Rightarrow> fa_feature_name a = name) \<longleftrightarrow> ra_key r = name" using conv [OF row z(1)] by (cases row) auto
  qed
  have "\<exists>a. wrapE ''make feature assignment'' (featureAssignmentFromSQL x row) = Inr a \<and> ra_of_as a = r"
    if row: "row \<in> set ?rows" and r: "?ra row = Inr r" for row r
  proof -
    obtain z where z: "g row = Inr z" "r = ra_of_as z" using r by (auto simp: bindE_eq_Inr)
    have "row \<in> set L" using row by simp
    then obtain a where "featureAssignmentFromSQL x row = Inr a" "z = a \<lparr>as_FeatureDisabled := flag row\<rparr>" using conv z(1) by blast
    then show ?thesis using z(2) by simp
  qed
  then obtain zs' where zs': "assignments_from x ?rows = Inr zs'" "map ra_of_as zs' = filter (\<lambda>r. ra_key r = name) (map ra_of_as zs)"
    using mapE_related [OF src, of "\<lambda>row. wrapE ''make feature assignment'' (featureAssignmentFromSQL x row)" ra_of_as]
    by (auto simp: assignments_from_def)
  have len: "length ?rows = length zs'" using mapE_length [OF src] zs'(2) by (metis length_map)
  then have emp: "?rows = [] \<longleftrightarrow> zs' = []" by (metis length_0_conv)
  have win: "ra_of_as ` set (mostSpecificPerFeature_fa zs') = {w \<in> ra_of_as ` set deps. ra_key w = name}"
    using ra.pick_filter [of _ name "map ra_of_as zs"] winners_agree [of zs'] winners_agree [of zs]
    by (auto simp: zs'(2) deps simp flip: set_map)
  have "WinningAssignment x io (e_ID e) name d =
      (if zs' = [] then Inl (WrapBefore ErrFeatureNotFound (name @ '' in environment''))
       else case mostSpecificPerFeature_fa zs' of
         [] \<Rightarrow> Inl (WrapBefore ErrFeatureNotFound (name @ '' in environment after filtering'')) | w # _ \<Rightarrow> Inr w)"
    using zs'(1) emp io
    by (simp add: WinningAssignment_def mostSpecificAssignment_def env_rows(2) [OF one] query_def L_def del: filter_filter)
  then show "case WinningAssignment x io (e_ID e) name d of
      Inr w \<Rightarrow> \<exists>a \<in> set deps. as_key a = name \<and> as_ID a = as_ID w \<and> as_Feature a = as_Feature w
    | Inl err \<Rightarrow> errors_Is err ErrFeatureNotFound \<and> name \<notin> as_key ` set deps"
    using same_winner [OF win] fa.pick_subset [of zs'] by (auto split: list.splits)
  show "distinct (map as_key deps)" unfolding deps by (rule fa.pick_distinct)
  show "a \<in> set deps \<Longrightarrow> as_FeatureDisabled a = (map_of (disabled_features d) (e_ID e, as_key a) \<noteq> None)"
  proof -
    assume "a \<in> set deps"
    then have "a \<in> set zs" using fa.pick_subset [of zs] deps by blast
    then obtain row where "row \<in> set L" "g row = Inr a" using mapE_Inr_set [OF zs] by blast
    then show ?thesis using conv by (fastforce simp: flag_def)
  qed
qed

section \<open>The pages agree with each other\<close>

lemma single_status:
  assumes io: "\<And>q. \<not> io_fails io q" and all: "AllReconcileStatuses io d = Inr m"
    and run: "ListForEnvironment x io envID d = Inr deps" and "distinct (map as_key deps)" and a: "a \<in> set deps"
    and win: "WinningAssignment x io envID (as_key a) d = Inr w" and "as_ID w = as_ID a"
  shows "\<exists>byName st msg. FeatureStatusesForEnvironment x io envID d = Inr byName \<and>
    FeatureStatusForEnvironment x io envID (as_key a) d = Inr (st, msg) \<and>
    (case map_of byName (as_key a) of None \<Rightarrow> st = [] | Some s \<Rightarrow> s = (st, msg))"
proof -
  let ?find = "\<lambda>w. find (\<lambda>s. rst_EnvironmentID s = envID) (gm_list m (as_ID w))"
  let ?byName = "fold (\<lambda>w out. case ?find w of Some s \<Rightarrow> gm_put (as_key w) (rst_State s, rst_Message s) out | None \<Rightarrow> out) deps []"
  have batch: "FeatureStatusesForEnvironment x io envID d = Inr ?byName" by (simp add: FeatureStatusesForEnvironment_def run all)
  obtain statuses where rs: "ReconcileStatuses io (as_ID w) d = Inr statuses" using io by (simp add: ReconcileStatuses_def query_def)
  have "gm_list m (as_ID a) = statuses"
    using rs AllReconcileStatuses_lookup [OF all, of "as_ID a"] assms(7) by (auto simp: ReconcileStatuses_def bindE_eq_Inr)
  moreover have "map_of ?byName (as_key a) = map_option (\<lambda>s. (rst_State s, rst_Message s)) (?find a)"
    by (rule fold_statuses [OF assms(4) a])
  ultimately show ?thesis
    unfolding batch by (cases "?find a") (simp_all add: FeatureStatusForEnvironment_def win rs)
qed

lemma feature_row_sel [simp]:
  "efr_Name (feature_row env statuses latest deployed f) = fst f"
  "efr_Status (feature_row env statuses latest deployed f) =
     (if \<not> e_Reconcile env \<or> snd f then ''DISABLED''
      else case map_of statuses (fst f) of Some s \<Rightarrow> NormalizeStatus (fst s) | None \<Rightarrow> ''UNKNOWN'')"
  by (auto simp: feature_row_def Let_def NormalizeStatus_def case_prod_unfold split: option.split)

lemma environment_rows_status:
  assumes ids: "distinct (map e_ID (environments d))" and e: "e \<in> set (environments d)" and io: "\<And>q. \<not> io_fails io q"
    and run: "loadEnvironmentFeatureRows x io e d = Inr rows"
  shows "(\<exists>r \<in> set rows. efr_Name r = name \<and> efr_Status r = s) \<longleftrightarrow>
    (\<exists>w st msg. WinningAssignment x io (e_ID e) name d = Inr w \<and> FeatureStatusForEnvironment x io (e_ID e) name d = Inr (st, msg) \<and>
       s = (if \<not> e_Reconcile e \<or> map_of (disabled_features d) (e_ID e, name) \<noteq> None then ''DISABLED'' else NormalizeStatus st))"
proof -
  obtain deps statuses latest deployed where deps: "ListForEnvironment x io (e_ID e) d = Inr deps"
    and st: "(if e_Reconcile e then FeatureStatusesForEnvironment x io (e_ID e) d else Inr []) = Inr statuses"
    and rows: "set rows = (\<lambda>a. feature_row e statuses latest deployed (as_key a, as_FeatureDisabled a)) ` set deps"
    using run by (auto simp: loadEnvironmentFeatureRows_def ListEnvironmentFeatures_def bindE_eq_Inr image_image)
  obtain m where m: "AllReconcileStatuses io d = Inr m" using statuses_listed io by blast
  note win = ListForEnvironment_winner(1) [OF ids e io deps] and keys = ListForEnvironment_winner(2) [OF ids e io deps]
    and flag = ListForEnvironment_winner(3) [OF ids e io deps]
  have row: "\<exists>w st msg. WinningAssignment x io (e_ID e) (as_key a) d = Inr w \<and>
      FeatureStatusForEnvironment x io (e_ID e) (as_key a) d = Inr (st, msg) \<and>
      efr_Status (feature_row e statuses latest deployed (as_key a, as_FeatureDisabled a)) =
        (if \<not> e_Reconcile e \<or> map_of (disabled_features d) (e_ID e, as_key a) \<noteq> None then ''DISABLED'' else NormalizeStatus st)"
    if a: "a \<in> set deps" for a
  proof -
    obtain w b where w: "WinningAssignment x io (e_ID e) (as_key a) d = Inr w"
      and b: "b \<in> set deps" "as_key b = as_key a" "as_ID b = as_ID w"
      using win [of "as_key a"] a by (auto split: sum.splits)
    have "b = a" using keys a b(1,2) by (auto simp: distinct_map dest: inj_onD)
    then obtain byName st msg where s: "FeatureStatusesForEnvironment x io (e_ID e) d = Inr byName"
      "FeatureStatusForEnvironment x io (e_ID e) (as_key a) d = Inr (st, msg)"
      "case map_of byName (as_key a) of None \<Rightarrow> st = [] | Some s \<Rightarrow> s = (st, msg)"
      using single_status [OF io m deps keys a w] b(3) by auto
    show ?thesis using w s st flag [OF a] by (auto simp: NormalizeStatus_def split: option.splits)
  qed
  have known: "WinningAssignment x io (e_ID e) name d = Inr w \<Longrightarrow> \<exists>a \<in> set deps. as_key a = name" for w
    using win [of name] by auto
  show ?thesis
  proof
    assume "\<exists>r \<in> set rows. efr_Name r = name \<and> efr_Status r = s"
    then obtain a where "a \<in> set deps" "as_key a = name"
      "s = efr_Status (feature_row e statuses latest deployed (as_key a, as_FeatureDisabled a))" by (auto simp: rows)
    then show "\<exists>w st msg. WinningAssignment x io (e_ID e) name d = Inr w \<and> FeatureStatusForEnvironment x io (e_ID e) name d = Inr (st, msg) \<and>
       s = (if \<not> e_Reconcile e \<or> map_of (disabled_features d) (e_ID e, name) \<noteq> None then ''DISABLED'' else NormalizeStatus st)"
      using row by fastforce
  next
    assume "\<exists>w st msg. WinningAssignment x io (e_ID e) name d = Inr w \<and> FeatureStatusForEnvironment x io (e_ID e) name d = Inr (st, msg) \<and>
       s = (if \<not> e_Reconcile e \<or> map_of (disabled_features d) (e_ID e, name) \<noteq> None then ''DISABLED'' else NormalizeStatus st)"
    then obtain w st msg where w: "WinningAssignment x io (e_ID e) name d = Inr w" "FeatureStatusForEnvironment x io (e_ID e) name d = Inr (st, msg)"
      "s = (if \<not> e_Reconcile e \<or> map_of (disabled_features d) (e_ID e, name) \<noteq> None then ''DISABLED'' else NormalizeStatus st)" by blast
    obtain a where a: "a \<in> set deps" "as_key a = name" using known [OF w(1)] by blast
    then have "efr_Status (feature_row e statuses latest deployed (as_key a, as_FeatureDisabled a)) = s" using row [OF a(1)] w by auto
    then show "\<exists>r \<in> set rows. efr_Name r = name \<and> efr_Status r = s" unfolding rows using a by fastforce
  qed
qed

text \<open>The row of an environment on the page of a feature.\<close>

lemma feature_page_status:
  assumes "page_data_ok name d" and "names_ok d" and "\<And>q. \<not> io_fails io q" and "ListByFeature x io name d = Inr fas"
    and t: "t \<in> set (tenants d)" and e: "e \<in> set (environments d)" and te: "t_ID t = e_TenantID e"
  shows "(\<exists>r \<in> set (LoadEnvironments x io name d). fe_TenantName r = t_Name t \<and> fe_EnvironmentName r = e_Name e \<and> fe_Status r = s) \<longleftrightarrow>
    (\<exists>w st msg. WinningAssignment x io (e_ID e) name d = Inr w \<and> FeatureStatusForEnvironment x io (e_ID e) name d = Inr (st, msg) \<and>
       s = (if \<not> e_Reconcile e \<or> map_of (disabled_features d) (e_ID e, name) \<noteq> None then ''DISABLED'' else NormalizeStatus st))"
proof -
  let ?f = "\<lambda>r. (fe_TenantName r, fe_EnvironmentName r, fe_Version r, fe_AssignmentID r, fe_Status r)"
  have same: "t' = t \<and> e' = e" if "t' \<in> set (tenants d)" "e' \<in> set (environments d)" "t_ID t' = e_TenantID e'" "t_Name t' = t_Name t" "e_Name e' = e_Name e"
    for t' e'
  proof -
    have tt: "t' = t" using assms(2) t that(1,4) by (auto simp: names_ok_def distinct_map dest: inj_onD)
    then have "(e_TenantID e', e_Name e') = (e_TenantID e, e_Name e)" using that(3,5) te by simp
    then show ?thesis using assms(2) e that(2) tt by (auto simp: names_ok_def distinct_map dest: inj_onD)
  qed
  have "(\<exists>r \<in> set (LoadEnvironments x io name d). fe_TenantName r = t_Name t \<and> fe_EnvironmentName r = e_Name e \<and> fe_Status r = s) \<longleftrightarrow>
      (\<exists>v i. (t_Name t, e_Name e, v, i, s) \<in> ?f ` set (LoadEnvironments x io name d))" by (auto simp: image_iff) metis
  also have "\<dots> \<longleftrightarrow> (\<exists>w st msg. WinningAssignment x io (e_ID e) name d = Inr w \<and> FeatureStatusForEnvironment x io (e_ID e) name d = Inr (st, msg) \<and>
       s = (if \<not> e_Reconcile e \<or> map_of (disabled_features d) (e_ID e, name) \<noteq> None then ''DISABLED'' else NormalizeStatus st))"
    (is "_ \<longleftrightarrow> ?w")
  proof
    assume "\<exists>v i. (t_Name t, e_Name e, v, i, s) \<in> ?f ` set (LoadEnvironments x io name d)"
    then obtain v i t' e' w st msg where eq: "(t_Name t, e_Name e, v, i, s) = (t_Name t', e_Name e', f_Version (as_Feature w), uuid_String (as_ID w),
        if \<not> e_Reconcile e' \<or> map_of (disabled_features d) (e_ID e', name) \<noteq> None then ''DISABLED'' else NormalizeStatus st)"
      and r: "t' \<in> set (tenants d)" "e' \<in> set (environments d)" "t_ID t' = e_TenantID e'" "WinningAssignment x io (e_ID e') name d = Inr w"
        "FeatureStatusForEnvironment x io (e_ID e') name d = Inr (st, msg)"
      unfolding LoadEnvironments_rows [OF assms(1,3,4)] by blast
    have "e' = e" using same [OF r(1-3)] eq by simp
    then show ?w using r(4,5) eq by blast
  next
    assume ?w
    then show "\<exists>v i. (t_Name t, e_Name e, v, i, s) \<in> ?f ` set (LoadEnvironments x io name d)"
      unfolding LoadEnvironments_rows [OF assms(1,3,4)] using t e te by blast
  qed
  finally show ?thesis .
qed

text \<open>
  C21. The page of an environment and the page of a feature agree: for an environment with a tenant, the table of features shows a feature
  with a status exactly when the page of that feature shows the environment with that status, though one joins the statuses of one
  environment and the other those of one feature, and each computes the winners in its own way.
\<close>

theorem environment_page_agrees:
  assumes "page_data_ok name d" and "names_ok d" and "\<And>q. \<not> io_fails io q" and "ListByFeature x io name d = Inr fas"
    and "t \<in> set (tenants d)" and "e \<in> set (environments d)" and "t_ID t = e_TenantID e"
    and "loadEnvironmentFeatureRows x io e d = Inr rows"
  shows "(\<exists>r \<in> set rows. efr_Name r = name \<and> efr_Status r = s) \<longleftrightarrow>
    (\<exists>r \<in> set (LoadEnvironments x io name d). fe_TenantName r = t_Name t \<and> fe_EnvironmentName r = e_Name e \<and> fe_Status r = s)"
proof -
  have "distinct (map e_ID (environments d))" using assms(1) by (simp add: page_data_ok_def)
  then show ?thesis
    using environment_rows_status [OF _ assms(6,3,8)] feature_page_status [OF assms(1-7)] by simp
qed

lemma example_feature_rows: "\<exists>rows. loadEnvironmentFeatureRows example_externals store_io (hd (environments example_db)) example_db = Inr rows"
  by (simp add: loadEnvironmentFeatureRows_def ListEnvironmentFeatures_def ListForEnvironment_def FeatureStatusesForEnvironment_def
      AllReconcileStatuses_def LatestDeployInstructionsForEnvironment_def LatestDeployedForEnvironment_def query_def
      ListFeatureAssignmentsForEnvironment_def featureAssignmentsFromRows_def example_db_def empty_db_def labels_superset_def with_data_def
      assignment_data_def featureAssignmentFromSQL_def featureFromSQL_def makeFeatureYAML_def example_externals_def echo_externals_def Let_def)

theorem environment_page_agrees_witness:
  "\<exists>rows. loadEnvironmentFeatureRows example_externals store_io (hd (environments example_db)) example_db = Inr rows \<and>
     ((\<exists>r \<in> set rows. efr_Name r = ''loki'' \<and> efr_Status r = ''UNKNOWN'') \<longleftrightarrow>
      (\<exists>r \<in> set (LoadEnvironments example_externals store_io ''loki'' example_db).
         fe_TenantName r = ''acme'' \<and> fe_EnvironmentName r = ''prod'' \<and> fe_Status r = ''UNKNOWN''))"
proof -
  obtain fas where fas: "ListByFeature example_externals store_io ''loki'' example_db = Inr fas" using example_listed by blast
  have io: "\<not> io_fails store_io q" for q by simp
  obtain rows where rows: "loadEnvironmentFeatureRows example_externals store_io (hd (environments example_db)) example_db = Inr rows"
    using example_feature_rows by blast
  have t: "hd (tenants example_db) \<in> set (tenants example_db)" "hd (environments example_db) \<in> set (environments example_db)"
    "t_ID (hd (tenants example_db)) = e_TenantID (hd (environments example_db))"
    "t_Name (hd (tenants example_db)) = ''acme''" "e_Name (hd (environments example_db)) = ''prod''"
    by (simp_all add: example_db_def empty_db_def)
  show ?thesis using environment_page_agrees [OF example_page_data io fas t(1-3) rows, of "''UNKNOWN''"] rows t(4,5) by simp
qed

section \<open>Releases that nothing asks for\<close>

text \<open>
  C22. The uninstall button: the page offers to uninstall a release exactly when no assignment of a feature with its name wins in the environment
  and it is not a release of an agent, so what it offers is neither wanted by the reconciler nor refused by \<open>Uninstall\<close>.
\<close>

theorem uninstall_offered:
  assumes "distinct (map e_ID (environments d))" and "e \<in> set (environments d)"
    and "\<not> io_fails io ''ListFeatureAssignmentsForFeatureInEnvironment''"
    and "buildReleaseRows x io (e_ID e) releases d = Inr rows" and "row \<in> set rows"
  shows "rr_Release row \<in> set releases \<and> (uninstallCell tenantName (e_Name e) row \<noteq> None \<longleftrightarrow>
    (\<exists>err. WinningAssignment x io (e_ID e) (fr_Name (rr_Release row)) d = Inl err \<and> errors_Is err ErrFeatureNotFound) \<and>
    fr_Name (rr_Release row) \<notin> set protectedReleases)"
proof -
  obtain deps where deps: "ListForEnvironment x io (e_ID e) d = Inr deps"
    and row: "rr_Release row \<in> set releases" "rr_Orphaned row \<longleftrightarrow> fr_Name (rr_Release row) \<notin> as_key ` set deps"
    using assms(4,5) by (auto simp: buildReleaseRows_def bindE_eq_Inr Let_def index_by_None_iff)
  have "rr_Orphaned row \<longleftrightarrow> (\<exists>err. WinningAssignment x io (e_ID e) (fr_Name (rr_Release row)) d = Inl err \<and> errors_Is err ErrFeatureNotFound)"
    using ListForEnvironment_winner(1) [OF assms(1-3) deps, of "fr_Name (rr_Release row)"] row(2)
    by (auto split: sum.splits simp: image_iff)
  then show ?thesis using row(1) by (auto simp: uninstallCell_def Let_def protectedReleases_def)
qed

theorem uninstall_offered_witness:
  "\<exists>rows. buildReleaseRows example_externals store_io 1 (map (\<lambda>n. \<lparr>fr_Name = n, fr_Version = [], fr_Status = [], fr_Revision = 1, fr_LastDeployed = 0,
       fr_Created = 0, fr_LastModified = 0\<rparr>) [''loki'', ''old'']) example_db = Inr rows \<and> length rows = 2 \<and>
     list_all (\<lambda>row. uninstallCell ''acme'' ''prod'' row \<noteq> None \<longleftrightarrow>
       (\<exists>err. WinningAssignment example_externals store_io 1 (fr_Name (rr_Release row)) example_db = Inl err \<and> errors_Is err ErrFeatureNotFound) \<and>
       fr_Name (rr_Release row) \<notin> set protectedReleases) rows"
proof -
  let ?rels = "map (\<lambda>n. \<lparr>fr_Name = n, fr_Version = [], fr_Status = [], fr_Revision = 1, fr_LastDeployed = 0, fr_Created = 0,
    fr_LastModified = 0\<rparr>) [''loki'', ''old'']"
  have e: "hd (environments example_db) \<in> set (environments example_db)" "e_ID (hd (environments example_db)) = 1"
    "e_Name (hd (environments example_db)) = ''prod''" "distinct (map e_ID (environments example_db))"
    by (simp_all add: example_db_def empty_db_def)
  have io: "\<not> io_fails store_io q" for q by simp
  have "\<exists>rows. buildReleaseRows example_externals store_io 1 ?rels example_db = Inr rows \<and> length rows = 2"
    by (simp add: buildReleaseRows_def ListForEnvironment_def query_def Let_def
        ListFeatureAssignmentsForEnvironment_def featureAssignmentsFromRows_def example_db_def empty_db_def labels_superset_def with_data_def
        assignment_data_def featureAssignmentFromSQL_def featureFromSQL_def makeFeatureYAML_def example_externals_def echo_externals_def)
  then obtain rows where rows: "buildReleaseRows example_externals store_io (e_ID (hd (environments example_db))) ?rels example_db = Inr rows"
    "length rows = 2" unfolding e(2) by blast
  show ?thesis
    using uninstall_offered [OF e(4,1) io rows(1), of _ "''acme''"] rows unfolding e(2,3) list_all_iff by blast
qed

section \<open>What the page says about the agent\<close>

text \<open>
  The health of the agent: where the page calls it healthy, the reconciler takes the environment for healthy; where the page says that
  it is dead or never reported, the next cycle skips every assignment of the environment as unhealthy. In between, from one to five minutes
  after a report, the page says stale, while the reconciler goes on until three minutes.
\<close>

theorem page_health_sound:
  assumes "fetchSnapshot x aud fails d = Inr snap" and "db_ok d" and "year_2000 + 3 * minute \<le> now"
    and "loadEnvironmentHealth io (en_ID env) d = Inr h" and "naisdHealthBucket h now = (cls, label)"
  shows "(label = ''healthy'' \<longrightarrow> healthy_env now snap (en_ID env)) \<and>
    (label = ''dead'' \<or> label = ''no report'' \<longrightarrow>
       map_sum id dd_Action (dispatchDecision x now snap (env, dep)) = Inr ActionSkipUnhealthy)"
proof -
  have health: "healthy_env now snap (en_ID env) \<longleftrightarrow>
      (case map_of (health_statuses d) (en_ID env) of Some t \<Rightarrow> now - t \<le> 3 * minute | None \<Rightarrow> False)"
    by (simp add: healthy_env_def snapshot_health [OF assms(1,2)])
  have skip: "\<not> healthy_env now snap (en_ID env) \<Longrightarrow> map_sum id dd_Action (dispatchDecision x now snap (env, dep)) = Inr ActionSkipUnhealthy"
    by (simp add: dispatchDecision_def decide_def)
  have "(label = ''healthy'' \<longrightarrow> healthy_env now snap (en_ID env)) \<and>
      (label = ''dead'' \<or> label = ''no report'' \<longrightarrow> \<not> healthy_env now snap (en_ID env))"
  proof (cases "map_of (health_statuses d) (en_ID env)")
    case None
    then have "h = \<lparr>eh_ReportedAt = 0, eh_HasReport = False\<rparr>"
      using assms(4) by (auto simp: loadEnvironmentHealth_def naisdstatus_Get_def one_def bindE_eq_Inr never_reported_def year_2000_def split: if_splits)
    then have "label = ''no report''" using assms(5) by (simp add: naisdHealthBucket_def)
    then show ?thesis by (simp add: health None)
  next
    case (Some t)
    then have "h = (if t < year_2000 then \<lparr>eh_ReportedAt = 0, eh_HasReport = False\<rparr> else \<lparr>eh_ReportedAt = t, eh_HasReport = True\<rparr>)"
      using assms(4) by (auto simp: loadEnvironmentHealth_def naisdstatus_Get_def one_def bindE_eq_Inr split: if_splits)
    then show ?thesis
      using assms(3,5) Some
      by (auto simp: health naisdHealthBucket_def Let_def environmentHealthyThreshold_def environmentStaleThreshold_def split: if_splits)
  qed
  then show ?thesis using skip by blast
qed

theorem page_health_sound_witness:
  "\<exists>snap h. fetchSnapshot example_externals [] (\<lambda>_. False) example_db = Inr snap \<and> loadEnvironmentHealth store_io 1 example_db = Inr h \<and>
     naisdHealthBucket h (year_2000 + 3 * minute) = (''status-error'', ''no report'') \<and>
     map_sum id dd_Action (dispatchDecision example_externals (year_2000 + 3 * minute) snap (example_env, example_assignment)) =
       Inr ActionSkipUnhealthy"
proof -
  have e: "en_ID example_env = 1" by (simp add: example_env_def)
  have h: "loadEnvironmentHealth store_io (en_ID example_env) example_db = Inr \<lparr>eh_ReportedAt = 0, eh_HasReport = False\<rparr>"
    by (simp add: loadEnvironmentHealth_def naisdstatus_Get_def one_def query_def example_db_def example_env_def year_2000_def)
  have b: "naisdHealthBucket \<lparr>eh_ReportedAt = 0, eh_HasReport = False\<rparr> (year_2000 + 3 * minute) = (''status-error'', ''no report'')"
    by (simp add: naisdHealthBucket_def)
  show ?thesis using page_health_sound [OF example_fetch example_db_ok order_refl h b] example_fetch h b unfolding e by blast
qed

section \<open>Logs of many deploys in one query\<close>

text \<open>The lines that the history shows for a deploy are those that a query for that deploy alone returns.\<close>

lemma deploy_logs_batched:
  assumes "GetLogLinesForDeployInstructions io ids d = Inr m" and "GetLogLines io i d = Inr lines" and "i \<in> set ids"
  shows "gm_list m i = lines \<and> (map_of m i = None \<longleftrightarrow> lines = [])"
proof -
  let ?rows = "sort_key (\<lambda>r. (lr_deploy_instruction r, lr_time r)) (filter (\<lambda>r. List.member ids (lr_deploy_instruction r)) (logs d))"
  have m: "m = group_by lr_deploy_instruction logLineFromSQL ?rows"
    using assms(1,3) by (auto simp: GetLogLinesForDeployInstructions_def bindE_eq_Inr split: if_splits)
  have "filter (\<lambda>r. lr_deploy_instruction r = i) ?rows = sort_key lr_time (filter (\<lambda>r. lr_deploy_instruction r = i)
      (filter (\<lambda>r. List.member ids (lr_deploy_instruction r)) (logs d)))" by (rule filter_sort_pair)
  also have "filter (\<lambda>r. lr_deploy_instruction r = i) (filter (\<lambda>r. List.member ids (lr_deploy_instruction r)) (logs d)) =
      filter (\<lambda>r. lr_deploy_instruction r = i) (logs d)" using assms(3) by (auto simp: filter_filter intro!: filter_cong)
  finally have "map logLineFromSQL (filter (\<lambda>r. lr_deploy_instruction r = i) ?rows) = lines"
    using assms(2) by (auto simp: GetLogLines_def bindE_eq_Inr)
  then show ?thesis
    unfolding m gm_list_group_by by (auto simp: group_by_lookup gm_list_group_by filter_empty_conv image_iff split: if_splits)
qed

section \<open>The items of the configuration form\<close>

definition is_declared :: "Value \<Rightarrow> bool" where
  "is_declared v \<longleftrightarrow> v_Config v \<noteq> None \<or> v_Computed v \<noteq> None"

definition declared_value :: "Values \<Rightarrow> string \<Rightarrow> Value option" where
  "declared_value vs k = (case map_of vs k of None \<Rightarrow> None | Some v \<Rightarrow> if is_declared v then Some v else None)"

text \<open>The configuration of a key: the stored row, or the default of the chart.\<close>

definition content_row :: "page_formats \<Rightarrow> Feature \<Rightarrow> Configuration list \<Rightarrow> string \<Rightarrow> Configuration" where
  "content_row p feat stored k = (case find (\<lambda>c. conf_Key c = k) stored of
      Some c \<Rightarrow> c
    | None \<Rightarrow> \<lparr>conf_ID = pf_sha1 p (f_Name feat @ ''|'' @ k), conf_Key = k, conf_Content = default_value feat k, conf_Created = 0,
        conf_Source = ConfigSourceHelm\<rparr>)"

definition rows_ok :: "page_formats \<Rightarrow> Feature \<Rightarrow> Configuration list \<Rightarrow> Values \<Rightarrow> declared_row list \<Rightarrow> bool" where
  "rows_ok p feat stored vs rows \<longleftrightarrow> distinct (map (\<lambda>(c, v). conf_Key c) rows) \<and>
     conf_Key ` fst ` set rows = conf_Key ` set stored \<union> {k. declared_value vs k \<noteq> None} \<and>
     (\<forall>(c, v) \<in> set rows. v = declared_value vs (conf_Key c) \<and> c = content_row p feat stored (conf_Key c))"

lemma set_declared_None: "set_declared k val rows = None \<longleftrightarrow> k \<notin> conf_Key ` fst ` set rows"
  by (induction k val rows rule: set_declared.induct) auto

lemma set_declared_Some:
  assumes "set_declared k val rows = Some rs" and "distinct (map (\<lambda>(c, v). conf_Key c) rows)"
  shows "rs = map (\<lambda>(c, v). (c, if conf_Key c = k then Some val else v)) rows"
  using assms
proof (induction k val rows arbitrary: rs rule: set_declared.induct)
  case (2 k val c v rows)
  show ?case
  proof (cases "conf_Key c = k")
    case True
    then have "(c', v') \<in> set rows \<Longrightarrow> conf_Key c' \<noteq> k" for c' v' using 2(3) by force
    then have "map (\<lambda>(c, v). (c, if conf_Key c = k then Some val else v)) rows = rows" by (intro map_idI) auto
    then show ?thesis using 2(2) True by auto
  next
    case False
    then show ?thesis using 2 by (auto split: if_splits)
  qed
qed simp

lemma declared_value_snoc:
  assumes "key \<notin> fst ` set vs"
  shows "declared_value (vs @ [(key, val)]) k = (if k = key \<and> is_declared val then Some val else declared_value vs k)"
proof -
  have "map_of vs key = None" using assms by (simp add: map_of_eq_None_iff)
  then show ?thesis by (auto simp: declared_value_def map_add_def split: option.split)
qed

lemma rows_ok_attach:
  assumes ok: "rows_ok p feat stored vs rows" and new: "key \<notin> fst ` set vs"
  shows "rows_ok p feat stored (vs @ [(key, val)]) (attach_value p feat (key, val) rows)"
proof (cases "is_declared val")
  case False
  then have "attach_value p feat (key, val) rows = rows" by (simp add: attach_value_def is_declared_def)
  then show ?thesis using ok False by (simp add: rows_ok_def declared_value_snoc [OF new])
next
  case True
  then have att: "attach_value p feat (key, val) rows = (case set_declared key val rows of
      Some rs \<Rightarrow> rs
    | None \<Rightarrow> rows @ [(\<lparr>conf_ID = pf_sha1 p (f_Name feat @ ''|'' @ key), conf_Key = key, conf_Content = default_value feat key,
           conf_Created = 0, conf_Source = ConfigSourceHelm\<rparr>, Some val)])"
    by (auto simp: attach_value_def is_declared_def)
  have keys: "{k. declared_value (vs @ [(key, val)]) k \<noteq> None} = insert key {k. declared_value vs k \<noteq> None}"
    using True by (auto simp: declared_value_snoc [OF new])
  show ?thesis
  proof (cases "set_declared key val rows")
    case None
    then have fresh: "key \<notin> conf_Key ` fst ` set rows" by (simp add: set_declared_None)
    then have "key \<notin> conf_Key ` set stored" using ok by (auto simp: rows_ok_def)
    then have find: "find (\<lambda>c. conf_Key c = key) stored = None" by (auto simp: find_None_iff)
    define h where "h = \<lparr>conf_ID = pf_sha1 p (f_Name feat @ ''|'' @ key), conf_Key = key, conf_Content = default_value feat key,
      conf_Created = 0, conf_Source = ConfigSourceHelm\<rparr>"
    have h: "conf_Key h = key" "content_row p feat stored key = h" by (simp_all add: h_def content_row_def find)
    have "set (map (\<lambda>(c, v). conf_Key c) rows) = conf_Key ` fst ` set rows" by force
    then have d: "distinct (map (\<lambda>(c, v). conf_Key c) (rows @ [(h, Some val)]))" using ok fresh by (simp add: rows_ok_def h(1))
    have s: "conf_Key ` fst ` set (rows @ [(h, Some val)]) = conf_Key ` set stored \<union> insert key {k. declared_value vs k \<noteq> None}"
      using ok by (simp add: rows_ok_def h(1))
    have "\<forall>(c, v) \<in> set rows. conf_Key c \<noteq> key" using fresh by force
    then have c: "\<forall>(c, v) \<in> set (rows @ [(h, Some val)]). v = declared_value (vs @ [(key, val)]) (conf_Key c) \<and> c = content_row p feat stored (conf_Key c)"
      using ok True by (auto simp: rows_ok_def declared_value_snoc [OF new] h)
    show ?thesis unfolding att None option.case h_def [symmetric] rows_ok_def keys by (intro conjI d s c)
  next
    case (Some rs)
    have rs: "rs = map (\<lambda>(c, v). (c, if conf_Key c = key then Some val else v)) rows"
      using set_declared_Some [OF Some] ok by (simp add: rows_ok_def)
    have "key \<in> conf_Key ` fst ` set rows" using Some set_declared_None [of key val rows] by auto
    moreover have "conf_Key ` fst ` set rs = conf_Key ` fst ` set rows" by (force simp: rs)
    ultimately have ks: "conf_Key ` fst ` set rs = conf_Key ` set stored \<union> insert key {k. declared_value vs k \<noteq> None}"
      using ok by (auto simp: rows_ok_def)
    have "map (\<lambda>(c, v). conf_Key c) rs = map (\<lambda>(c, v). conf_Key c) rows" by (auto simp: rs)
    then have d: "distinct (map (\<lambda>(c, v). conf_Key c) rs)" using ok by (simp add: rows_ok_def)
    have c: "\<forall>(c, v) \<in> set rs. v = declared_value (vs @ [(key, val)]) (conf_Key c) \<and> c = content_row p feat stored (conf_Key c)"
      using ok True by (auto simp: rs rows_ok_def declared_value_snoc [OF new])
    show ?thesis unfolding att Some option.case rows_ok_def keys by (intro conjI d ks c)
  qed
qed

lemma rows_ok_start:
  assumes "distinct (map conf_Key stored)"
  shows "rows_ok p feat stored [] (map (\<lambda>c. (c, None)) stored)"
proof -
  have "find (\<lambda>c'. conf_Key c' = conf_Key c) stored = Some c" if "c \<in> set stored" for c
    by (rule find_unique [OF assms that])
  then show ?thesis using assms by (auto simp: rows_ok_def declared_value_def content_row_def comp_def image_image)
qed

lemma rows_ok_fold:
  assumes "distinct (map fst vs)" and "distinct (map conf_Key stored)"
  shows "rows_ok p feat stored vs (fold (attach_value p feat) vs (map (\<lambda>c. (c, None)) stored))"
  using assms(1)
proof (induction vs rule: rev_induct)
  case Nil
  show ?case using rows_ok_start [OF assms(2)] by simp
next
  case (snoc kv vs)
  then show ?case using rows_ok_attach by (cases kv) fastforce
qed

lemma stored_distinct:
  assumes "GetEnvConfig io name envID d = Inr stored"
  shows "distinct (map conf_Key stored)"
proof -
  obtain g e where s: "map conf_Key stored = map m_Key (MergeConfigs g e [])"
    using assms by (auto simp: GetEnvConfig_def bindE_eq_Inr comp_def)
  have "sorted_wrt (<) (map m_Key (MergeConfigs g e []))"
    unfolding mergeConfigRows_MergeConfigs [symmetric] by (rule merged_sorted_keys)
  then show ?thesis unfolding s by (simp add: strict_sorted_iff)
qed

lemma show_rendered_sel [simp]:
  "ci_Key (show_rendered x m it) = ci_Key it" "ci_IsOrphaned (show_rendered x m it) = ci_IsOrphaned it"
  "ci_Source (show_rendered x m it) = ci_Source it" "ci_IsSecret (show_rendered x m it) = ci_IsSecret it"
  "ci_IsComputed (show_rendered x m it) = ci_IsComputed it"
  "ci_IsSecret it \<or> \<not> ci_IsComputed it \<or> ci_Source it = ConfigSourceEnv \<Longrightarrow> ci_Value (show_rendered x m it) = ci_Value it"
  by (auto simp: show_rendered_def split: prod.split)

lemma config_item_sel [simp]:
  "ci_Key (config_item x p feat g (c, v)) = conf_Key c" "ci_IsOrphaned (config_item x p feat g (c, v)) = (v = None)"
  "ci_Source (config_item x p feat g (c, v)) = conf_Source c"
  "ci_IsSecret (config_item x p feat g (c, v)) \<longleftrightarrow> (\<exists>val cfg. v = Some val \<and> v_Config val = Some cfg \<and> cfg_Secret cfg)"
  "ci_IsComputed (config_item x p feat g (c, v)) \<longleftrightarrow> (\<exists>val. v = Some val \<and> v_Computed val \<noteq> None)"
  "ci_Value (config_item x p feat g (c, v)) = RawValueForDisplay x (pf_indent p) (conf_Content c)"
  by (simp_all add: config_item_def Let_def split: option.split)

lemma config_items_sound:
  assumes "distinct (map fst (f_Values feat))" and "GetEnvConfig io (f_Name feat) envID d = Inr stored"
    and "loadFeatureConfigItems x p aud io feat envID d = Inr items"
  shows "sorted_wrt (<) (map ci_Key items) \<and>
    set (map ci_Key items) = conf_Key ` set stored \<union> {k. declared_value (f_Values feat) k \<noteq> None} \<and>
    list_all (\<lambda>it. let c = content_row p feat stored (ci_Key it) in
      (ci_IsOrphaned it \<longleftrightarrow> declared_value (f_Values feat) (ci_Key it) = None) \<and> ci_Source it = conf_Source c \<and>
      (ci_IsSecret it \<longleftrightarrow> (\<exists>v cfg. declared_value (f_Values feat) (ci_Key it) = Some v \<and> v_Config v = Some cfg \<and> cfg_Secret cfg)) \<and>
      (ci_IsComputed it \<longleftrightarrow> (\<exists>v. declared_value (f_Values feat) (ci_Key it) = Some v \<and> v_Computed v \<noteq> None)) \<and>
      (ci_IsSecret it \<or> \<not> ci_IsComputed it \<or> ci_Source it = ConfigSourceEnv \<longrightarrow>
         ci_Value it = RawValueForDisplay x (pf_indent p) (conf_Content c))) items"
proof -
  define rows where "rows = fold (attach_value p feat) (f_Values feat) (map (\<lambda>c. (c, None)) stored)"
  have ok: "rows_ok p feat stored (f_Values feat) rows"
    unfolding rows_def by (rule rows_ok_fold [OF assms(1) stored_distinct [OF assms(2)]])
  obtain g f where items: "items = map (\<lambda>cv. f (config_item x p feat g cv)) (sort_key (\<lambda>(c, v). conf_Key c) rows)"
    and f: "f = id \<or> (\<exists>m. f = show_rendered x m)"
  proof -
    obtain gc ren where "items = (case ren of
        None \<Rightarrow> map (config_item x p feat gc) (sort_key (\<lambda>(c, v). conf_Key c) rows)
      | Some m \<Rightarrow> map (show_rendered x m) (map (config_item x p feat gc) (sort_key (\<lambda>(c, v). conf_Key c) rows)))"
      using assms(2,3) unfolding rows_def by (auto simp: loadFeatureConfigItems_def bindE_eq_Inr Let_def)
    then have "items = map (\<lambda>cv. id (config_item x p feat gc cv)) (sort_key (\<lambda>(c, v). conf_Key c) rows) \<or>
        (\<exists>m. items = map (\<lambda>cv. show_rendered x m (config_item x p feat gc cv)) (sort_key (\<lambda>(c, v). conf_Key c) rows))"
      by (auto split: option.splits)
    then show thesis using that by blast
  qed
  have sel: "ci_Key (f it) = ci_Key it" "ci_IsOrphaned (f it) = ci_IsOrphaned it" "ci_Source (f it) = ci_Source it"
    "ci_IsSecret (f it) = ci_IsSecret it" "ci_IsComputed (f it) = ci_IsComputed it"
    "ci_IsSecret it \<or> \<not> ci_IsComputed it \<or> ci_Source it = ConfigSourceEnv \<Longrightarrow> ci_Value (f it) = ci_Value it" for it
    using f by auto
  have keys: "map ci_Key items = map (\<lambda>(c, v). conf_Key c) (sort_key (\<lambda>(c, v). conf_Key c) rows)"
    unfolding items by (auto simp: sel)
  have "distinct (map (\<lambda>(c, v). conf_Key c) (sort_key (\<lambda>(c, v). conf_Key c) rows))"
    using ok by (simp add: distinct_map_sort rows_ok_def)
  then have sorted: "sorted_wrt (<) (map ci_Key items)" unfolding keys by (simp add: strict_sorted_iff)
  have "set (map ci_Key items) = conf_Key ` fst ` set rows" unfolding keys by force
  then have set: "set (map ci_Key items) = conf_Key ` set stored \<union> {k. declared_value (f_Values feat) k \<noteq> None}"
    using ok by (simp add: rows_ok_def)
  have "\<forall>(c, v) \<in> set rows. v = declared_value (f_Values feat) (conf_Key c) \<and> c = content_row p feat stored (conf_Key c)"
    using ok by (simp add: rows_ok_def)
  then have "list_all (\<lambda>it. let c = content_row p feat stored (ci_Key it) in
      (ci_IsOrphaned it \<longleftrightarrow> declared_value (f_Values feat) (ci_Key it) = None) \<and> ci_Source it = conf_Source c \<and>
      (ci_IsSecret it \<longleftrightarrow> (\<exists>v cfg. declared_value (f_Values feat) (ci_Key it) = Some v \<and> v_Config v = Some cfg \<and> cfg_Secret cfg)) \<and>
      (ci_IsComputed it \<longleftrightarrow> (\<exists>v. declared_value (f_Values feat) (ci_Key it) = Some v \<and> v_Computed v \<noteq> None)) \<and>
      (ci_IsSecret it \<or> \<not> ci_IsComputed it \<or> ci_Source it = ConfigSourceEnv \<longrightarrow>
         ci_Value it = RawValueForDisplay x (pf_indent p) (conf_Content c))) items"
    unfolding items list_all_iff by (fastforce simp: sel Let_def)
  then show ?thesis using sorted set by blast
qed

text \<open>
  The configuration form of a feature in an environment: there is one item for every key that is stored or declared, in the order of keys. An item is
  marked as orphaned exactly when the feature does not declare its key, as secret or computed when its declaration is. Its source is that of the stored row, or \<open>HELM\<close>;
  and for a secret, for a key that is not computed and for a value set in the environment it shows the stored value, or the default of the
  chart: a rendered value never replaces it. The declared keys are distinct.
\<close>

theorem config_items:
  assumes "distinct (map fst (f_Values feat))" and "GetEnvConfig io (f_Name feat) envID d = Inr stored"
    and "loadFeatureConfigItems x p aud io feat envID d = Inr items"
  shows "sorted_wrt (<) (map ci_Key items) \<and>
    set (map ci_Key items) = conf_Key ` set stored \<union> {k. declared_value (f_Values feat) k \<noteq> None} \<and>
    list_all (\<lambda>it. let c = content_row p feat stored (ci_Key it) in
      (ci_IsOrphaned it \<longleftrightarrow> declared_value (f_Values feat) (ci_Key it) = None) \<and> ci_Source it = conf_Source c \<and>
      (ci_IsSecret it \<longleftrightarrow> (\<exists>v cfg. declared_value (f_Values feat) (ci_Key it) = Some v \<and> v_Config v = Some cfg \<and> cfg_Secret cfg)) \<and>
      (ci_IsComputed it \<longleftrightarrow> (\<exists>v. declared_value (f_Values feat) (ci_Key it) = Some v \<and> v_Computed v \<noteq> None)) \<and>
      (ci_IsSecret it \<or> \<not> ci_IsComputed it \<or> ci_Source it = ConfigSourceEnv \<longrightarrow>
         ci_Value it = RawValueForDisplay x (pf_indent p) (conf_Content c))) items"
  by (rule config_items_sound [OF assms])

theorem config_items_witness:
  "\<forall>p. \<exists>items. loadFeatureConfigItems example_externals p [] store_io example_feature 1 example_db = Inr items \<and>
     map ci_Key items = [''a'', ''b''] \<and>
     list_all (\<lambda>it. \<not> ci_IsOrphaned it) items \<and> map ci_Source items = [ConfigSourceGlobal, ConfigSourceHelm]"
proof
  fix p
  obtain stored where stored: "GetEnvConfig store_io (f_Name example_feature) 1 example_db = Inr stored"
    by (simp add: GetEnvConfig_def query_def)
  then have row: "map (\<lambda>c. (conf_Key c, conf_Source c)) stored = [(''a'', ConfigSourceGlobal)]"
    by (auto simp: GetEnvConfig_def query_def ListGlobalConfigByFeature_def ListEnvConfigByFeature_def example_db_def empty_db_def
        example_feature_def merged_of_global_def MergeConfigs_def Let_def include_row_def)
  then obtain c where c: "stored = [c]" "conf_Key c = ''a''" "conf_Source c = ConfigSourceGlobal" by auto
  obtain items where items: "loadFeatureConfigItems example_externals p [] store_io example_feature 1 example_db = Inr items"
    using stored by (auto simp: loadFeatureConfigItems_def GetGlobalConfig_def query_def Let_def)
  have vals: "distinct (map fst (f_Values example_feature))"
    "{k. declared_value (f_Values example_feature) k \<noteq> None} = {''a'', ''b''}"
    by (auto simp: example_feature_def declared_value_def is_declared_def required_value_def computed_value_def split: if_splits)
  note r = config_items [OF vals(1) stored items]
  have "set (map ci_Key items) = {''a'', ''b''}" using r unfolding vals(2) by (simp add: c insert_commute)
  moreover have "sorted_wrt (<) [''a'', ''b'']" by simp
  ultimately have keys: "map ci_Key items = [''a'', ''b'']"
    using r by (intro strict_sorted_equal) auto
  then obtain i j where ij: "items = [i, j]" "ci_Key i = ''a''" "ci_Key j = ''b''" by (auto simp: map_eq_Cons_conv)
  have "declared_value (f_Values example_feature) ''a'' \<noteq> None" "declared_value (f_Values example_feature) ''b'' \<noteq> None"
    using vals(2) by auto
  moreover have "conf_Source (content_row p example_feature stored ''a'') = ConfigSourceGlobal"
    "conf_Source (content_row p example_feature stored ''b'') = ConfigSourceHelm" by (simp_all add: content_row_def c)
  ultimately show "\<exists>items. loadFeatureConfigItems example_externals p [] store_io example_feature 1 example_db = Inr items \<and>
     map ci_Key items = [''a'', ''b''] \<and> list_all (\<lambda>it. \<not> ci_IsOrphaned it) items \<and>
     map ci_Source items = [ConfigSourceGlobal, ConfigSourceHelm]"
    using r items keys unfolding ij(1) by (simp add: Let_def ij)
qed

end
