(* ===== verification/Views.thy ===== *)
theory Views
  imports Environment_Pages
begin

text \<open>
  The HTML of the pages: \<open>internal/ui/components\<close>, \<open>internal/ui/view\<close>, \<open>internal/ui/breadcrumb\<close> and the page of an environment
  (\<open>internal/ui/pages/environment/environment.go\<close>).

  A page is the tree of the calls to the constructors of gomponents, so what is proved of two equal trees holds of what the library
  writes for them. An SVG picture is named by its constant and not spelled out; a \<open>nil\<close> node is \<open>Absent\<close>. The embedded
  logos, the classes of Unicode and the format of RFC 3339 are parameters (\<open>view_libs\<close>). The theorem: the page of an
  environment does not depend on the secret values of the environment.
\<close>

section \<open>Nodes\<close>

datatype node =
    El string "node list"
  | Attr string string
  | Text string
  | Raw string
  | Icon string
  | Group "node list"
  | Absent

abbreviation h_Class :: "string \<Rightarrow> node" where "h_Class \<equiv> Attr ''class''"
abbreviation h_ID :: "string \<Rightarrow> node" where "h_ID \<equiv> Attr ''id''"
abbreviation h_Title :: "string \<Rightarrow> node" where "h_Title \<equiv> Attr ''title''"
abbreviation h_Href :: "string \<Rightarrow> node" where "h_Href \<equiv> Attr ''href''"
abbreviation h_Type :: "string \<Rightarrow> node" where "h_Type \<equiv> Attr ''type''"
abbreviation h_Name :: "string \<Rightarrow> node" where "h_Name \<equiv> Attr ''name''"
abbreviation h_Value :: "string \<Rightarrow> node" where "h_Value \<equiv> Attr ''value''"
abbreviation h_Method :: "string \<Rightarrow> node" where "h_Method \<equiv> Attr ''method''"
abbreviation h_Action :: "string \<Rightarrow> node" where "h_Action \<equiv> Attr ''action''"
abbreviation h_Style :: "string \<Rightarrow> node" where "h_Style \<equiv> Attr ''style''"
abbreviation h_Rows :: "string \<Rightarrow> node" where "h_Rows \<equiv> Attr ''rows''"
abbreviation h_Div :: "node list \<Rightarrow> node" where "h_Div \<equiv> El ''div''"
abbreviation h_Span :: "node list \<Rightarrow> node" where "h_Span \<equiv> El ''span''"
abbreviation h_P :: "node list \<Rightarrow> node" where "h_P \<equiv> El ''p''"
abbreviation h_A :: "node list \<Rightarrow> node" where "h_A \<equiv> El ''a''"
abbreviation h_Td :: "node list \<Rightarrow> node" where "h_Td \<equiv> El ''td''"
abbreviation h_Th :: "node list \<Rightarrow> node" where "h_Th \<equiv> El ''th''"
abbreviation h_Tr :: "node list \<Rightarrow> node" where "h_Tr \<equiv> El ''tr''"
abbreviation h_THead :: "node list \<Rightarrow> node" where "h_THead \<equiv> El ''thead''"
abbreviation h_TBody :: "node list \<Rightarrow> node" where "h_TBody \<equiv> El ''tbody''"
abbreviation h_Table :: "node list \<Rightarrow> node" where "h_Table \<equiv> El ''table''"
abbreviation h_H2 :: "node list \<Rightarrow> node" where "h_H2 \<equiv> El ''h2''"
abbreviation h_H3 :: "node list \<Rightarrow> node" where "h_H3 \<equiv> El ''h3''"
abbreviation h_H4 :: "node list \<Rightarrow> node" where "h_H4 \<equiv> El ''h4''"
abbreviation h_Ul :: "node list \<Rightarrow> node" where "h_Ul \<equiv> El ''ul''"
abbreviation h_Li :: "node list \<Rightarrow> node" where "h_Li \<equiv> El ''li''"
abbreviation h_Code :: "node list \<Rightarrow> node" where "h_Code \<equiv> El ''code''"
abbreviation h_Pre :: "node list \<Rightarrow> node" where "h_Pre \<equiv> El ''pre''"
abbreviation h_Strong :: "node list \<Rightarrow> node" where "h_Strong \<equiv> El ''strong''"
abbreviation h_Small :: "node list \<Rightarrow> node" where "h_Small \<equiv> El ''small''"
abbreviation h_Button :: "node list \<Rightarrow> node" where "h_Button \<equiv> El ''button''"
abbreviation h_Form :: "node list \<Rightarrow> node" where "h_Form \<equiv> El ''form''"
abbreviation h_Input :: "node list \<Rightarrow> node" where "h_Input \<equiv> El ''input''"
abbreviation h_Label :: "node list \<Rightarrow> node" where "h_Label \<equiv> El ''label''"
abbreviation h_Select :: "node list \<Rightarrow> node" where "h_Select \<equiv> El ''select''"
abbreviation h_Option :: "node list \<Rightarrow> node" where "h_Option \<equiv> El ''option''"
abbreviation h_Textarea :: "node list \<Rightarrow> node" where "h_Textarea \<equiv> El ''textarea''"
abbreviation h_Aside :: "node list \<Rightarrow> node" where "h_Aside \<equiv> El ''aside''"
abbreviation h_Main :: "node list \<Rightarrow> node" where "h_Main \<equiv> El ''main''"
abbreviation h_Nav :: "node list \<Rightarrow> node" where "h_Nav \<equiv> El ''nav''"
abbreviation g_If :: "bool \<Rightarrow> node \<Rightarrow> node" where "g_If b n \<equiv> (if b then n else Absent)"

text \<open>Text outside of ASCII is given by its bytes.\<close>

definition utf :: "nat list \<Rightarrow> string" where
  "utf bs = map char_of bs"

definition masked :: string where
  "masked = concat (replicate 8 (utf [0xE2, 0x80, 0xA2]))"

record view_libs =
  vl_logo :: "string \<Rightarrow> bool"
  vl_runes :: "string \<Rightarrow> (bool \<times> string) list"
  vl_rfc3339 :: "gotime \<Rightarrow> string"

section \<open>Components\<close>

definition Card :: "node list \<Rightarrow> node" where
  "Card children = h_Div [h_Class ''card'', h_Div [h_Class ''card-body'', Group children]]"

definition CardCompact :: "node list \<Rightarrow> node" where
  "CardCompact children = h_Div [h_Class ''card'', h_Div [h_Class ''card-body card-compact'', Group children]]"

definition status_text :: "string \<Rightarrow> string \<Rightarrow> string \<Rightarrow> node" where
  "status_text cls sign label = Group [h_Span [h_Class cls, Text sign], Text label]"

definition components_Status :: "string \<Rightarrow> node" where
  "components_Status status =
     (let s = strings_ToUpper status; hourglass = utf [0xE2, 0x8F, 0xB3]; warning = utf [0xE2, 0x9A, 0xA0]; check = utf [0xE2, 0x9C, 0x93]
      in if s = ''DEPLOYED'' then status_text ''status-success'' check '' Deployed''
         else if s = ''FAILED'' then status_text ''status-error'' (utf [0xE2, 0x9C, 0x97]) '' Failed''
         else if s = ''MISSING-DEPS'' then status_text ''status-warning'' warning '' Missing deps''
         else if s = ''MISSING-CONFIG'' then status_text ''status-warning'' warning '' Missing config''
         else if s = ''RENDER-ERROR'' then status_text ''status-warning'' warning '' Render error''
         else if s = ''SENT'' then status_text ''status-pending'' (utf [0xE2, 0x9E, 0xA4]) '' Sent''
         else if s = ''INSTALLING'' then status_text ''status-pending'' hourglass '' Installing''
         else if List.member [''PENDING'', ''PENDING-INSTALL'', ''PENDING-UPGRADE'', ''PENDING-ROLLBACK''] s
           then status_text ''status-pending'' hourglass '' Pending''
         else if s = ''DISABLED'' then status_text ''status-disabled'' (utf [0xE2, 0x97, 0x8B]) '' Disabled''
         else if s = ''UNHEALTHY'' then status_text ''status-warning'' warning '' Unhealthy''
         else if s = ''UNKNOWN'' then status_text ''status-pending'' ''?'' '' Unknown''
         else if s = ''ENABLED'' then status_text ''status-success'' check '' Enabled''
         else if s = ''OVERRIDDEN'' then status_text ''status-disabled'' (utf [0xE2, 0x8A, 0x98]) '' Overridden''
         else if s = ''INACTIVE'' then status_text ''status-disabled'' (utf [0xE2, 0x97, 0x87]) '' Inactive''
         else Text status)"

definition StatusClass :: "string \<Rightarrow> string" where
  "StatusClass status =
     (let s = strings_ToUpper status
      in if List.member [''DEPLOYED'', ''ENABLED''] s then ''status-success''
         else if s = ''FAILED'' then ''status-error''
         else if List.member [''MISSING-DEPS'', ''MISSING-CONFIG'', ''RENDER-ERROR'', ''UNHEALTHY''] s then ''status-warning''
         else if List.member [''SENT'', ''INSTALLING'', ''PENDING'', ''PENDING-INSTALL'', ''PENDING-UPGRADE'', ''PENDING-ROLLBACK''] s
           then ''status-pending''
         else if List.member [''DISABLED'', ''OVERRIDDEN'', ''INACTIVE''] s then ''status-disabled''
         else ''text-muted'')"

subsection \<open>Time\<close>

definition formatUnit :: "nat \<Rightarrow> string \<Rightarrow> string" where
  "formatUnit n unit = show_nat n @ unit @ '' ago''"

definition RelativeTime :: "page_formats \<Rightarrow> gotime \<Rightarrow> gotime \<Rightarrow> string" where
  "RelativeTime p now t =
     (if t = 0 then []
      else let d = now - t
        in if d < 0 then FormatTime p t
           else if d < minute then ''just now''
           else if d < hour then formatUnit (nat (d div minute)) ''m''
           else if d < 24 * hour then formatUnit (nat (d div hour)) ''h''
           else if d < 48 * hour then ''yesterday''
           else if d < 30 * 24 * hour then formatUnit (nat (d div (24 * hour))) ''d''
           else if d < 365 * 24 * hour then formatUnit (nat (d div (30 * 24 * hour))) ''mo''
           else formatUnit (nat (d div (365 * 24 * hour))) ''y'')"

definition TimeCell :: "page_formats \<Rightarrow> view_libs \<Rightarrow> gotime \<Rightarrow> gotime \<Rightarrow> node list \<Rightarrow> node" where
  "TimeCell p v now t attrs =
     h_Td (attrs @ [Attr ''data-sort-value'' (vl_rfc3339 v t)] @
       (if t = 0 then [h_Span [h_Class ''text-muted'', Text ''never'']] else [h_Title (FormatTime p t), Text (RelativeTime p now t)]))"

subsection \<open>Menus and dialogs\<close>

definition KebabButton :: "string \<Rightarrow> node" where
  "KebabButton targetID = h_Button [h_Type ''button'', h_Class ''kebab-btn'', Attr ''data-kebab-toggle'' targetID,
     Attr ''aria-label'' ''Actions'', Text (utf [0xE2, 0x8B, 0xAE])]"

definition KebabMenu :: "string \<Rightarrow> node list \<Rightarrow> node" where
  "KebabMenu i items = h_Div [h_Class ''kebab-menu'', h_ID i, Group items]"

definition KebabWrap :: "string \<Rightarrow> node list \<Rightarrow> node list \<Rightarrow> node" where
  "KebabWrap i items extra = h_Div [h_Class ''kebab-wrap'', Group ([KebabButton i, KebabMenu i items] @ extra)]"

definition LokiLogsItem :: "string \<Rightarrow> node" where
  "LokiLogsItem lokiURL = h_A [h_Href lokiURL, h_Class ''kebab-item'', Attr ''target'' ''_blank'', Attr ''rel'' ''noopener'',
     Icon ''IconLoki'', Text (''Loki logs '' @ utf [0xE2, 0x86, 0x97])]"

definition PopoverCloseButton :: "string \<Rightarrow> node" where
  "PopoverCloseButton popoverID = h_Button [h_Type ''button'', h_Class ''popover-close'', Attr ''popovertarget'' popoverID,
     Attr ''popovertargetaction'' ''hide'', Attr ''aria-label'' ''Close'', Raw ''&times;'']"

definition popoverHeader :: "string \<Rightarrow> string \<Rightarrow> node list \<Rightarrow> node" where
  "popoverHeader i title actions = h_Div [h_Class ''popover-header'', h_H3 [Text title],
     h_Div [h_Class ''popover-header-actions'', Group actions, PopoverCloseButton i]]"

definition PopoverWithHeaderActions :: "string \<Rightarrow> string \<Rightarrow> string \<Rightarrow> node list \<Rightarrow> node list \<Rightarrow> node" where
  "PopoverWithHeaderActions i class title actions body =
     h_Div ([Attr ''popover'' [], h_ID i] @ (if class \<noteq> [] then [h_Class class] else []) @ [popoverHeader i title actions] @ body)"

definition Popover :: "string \<Rightarrow> string \<Rightarrow> string \<Rightarrow> node list \<Rightarrow> node" where
  "Popover i class title body = PopoverWithHeaderActions i class title [] body"

definition PopoverActions :: "node list \<Rightarrow> node" where
  "PopoverActions buttons = h_Div [h_Class ''popover-actions'', Group buttons]"

definition redirectField :: "string \<Rightarrow> node" where
  "redirectField url = (if url = [] then Absent else h_Input [h_Type ''hidden'', h_Name ''redirect'', h_Value url])"

definition RedeployPopover :: "string \<Rightarrow> string \<Rightarrow> string \<Rightarrow> string \<Rightarrow> bool \<Rightarrow> string \<Rightarrow> node" where
  "RedeployPopover popoverID action featureName envName enabled redirectURL =
     (if \<not> enabled then Absent
      else Popover popoverID [] ''Confirm redeploy''
        [h_Form [h_Method ''POST'', h_Action action, redirectField redirectURL,
           h_P [Text (''Force a fresh deploy of '' @ featureName @ '' in '' @ envName @ ''?'')],
           PopoverActions [h_Button [h_Type ''submit'', Text ''Trigger redeploy'']]]])"

definition ReconcilePopover :: "string \<Rightarrow> string \<Rightarrow> string \<Rightarrow> string \<Rightarrow> bool \<Rightarrow> string \<Rightarrow> node" where
  "ReconcilePopover popoverID action featureName envName enabled redirectURL =
     (if enabled then
        let reasonID = popoverID @ ''-reason''
        in Popover popoverID [] ''Disable reconcile''
          [h_Form [h_Method ''POST'', h_Action action, h_Input [h_Type ''hidden'', h_Name ''enabled'', h_Value ''false''],
             redirectField redirectURL,
             h_P [Text (''Disable reconcile for '' @ featureName @ '' in '' @ envName @ ''? Reconciliation will stop until re-enabled.'')],
             h_Label [Attr ''for'' reasonID, Text ''Reason for disabling reconcile''],
             h_Textarea [h_ID reasonID, h_Name ''reason'', Attr ''maxlength'' ''1000'', Attr ''required'' [], h_Rows ''3''],
             PopoverActions [h_Button [h_Type ''submit'', Text ''Disable reconcile'']]]]
      else Popover popoverID [] ''Enable reconcile''
          [h_Form [h_Method ''POST'', h_Action action, h_Input [h_Type ''hidden'', h_Name ''enabled'', h_Value ''true''],
             redirectField redirectURL, h_P [Text (''Enable reconcile for '' @ featureName @ '' in '' @ envName @ ''?'')],
             PopoverActions [h_Button [h_Type ''submit'', Text ''Enable reconcile'']]]])"

subsection \<open>Tenants\<close>

definition HasTenantLogo :: "view_libs \<Rightarrow> string \<Rightarrow> bool" where
  "HasTenantLogo v tenantName = vl_logo v tenantName"

definition tenantInitial :: "view_libs \<Rightarrow> string \<Rightarrow> string" where
  "tenantInitial v name = (case find fst (vl_runes v name) of None \<Rightarrow> ''?'' | Some (_, upper) \<Rightarrow> upper)"

definition initialColor :: "string \<Rightarrow> string" where
  "initialColor name =
     (let colors = [''#4e79a7'', ''#f28e2b'', ''#e15759'', ''#76b7b2'', ''#59a14f'', ''#edc948'', ''#b07aa1'', ''#ff9da7''];
          hash = fold (\<lambda>c h. h * 31 + word_of_nat (of_char c)) name (0 :: 32 word)
      in colors ! (unat hash mod length colors))"

definition TenantAvatar :: "view_libs \<Rightarrow> string \<Rightarrow> bool \<Rightarrow> string \<Rightarrow> node" where
  "TenantAvatar v tenantName hasLogo dim =
     (if hasLogo then El ''img'' [Attr ''src'' (''/tenants/'' @ tenantName @ ''/logo''), Attr ''alt'' tenantName, h_Class ''tenant-avatar'',
        h_Style (''width:'' @ dim @ '';height:'' @ dim @ '';'')]
      else h_Span [h_Class ''tenant-avatar tenant-avatar-fallback'',
        h_Style (''width:'' @ dim @ '';height:'' @ dim @ '';background:'' @ initialColor tenantName @ '';font-size:calc('' @ dim @ '' * 0.5);''),
        Text (tenantInitial v tenantName)])"

subsection \<open>Breadcrumbs\<close>

record alternative =
  alt_Label :: string
  alt_URL :: string

record Crumb =
  cr_Label :: string
  cr_URL :: string
  cr_Icon :: "node option"
  cr_Subtitle :: string
  cr_SourceURL :: string
  cr_Content :: "node option"
  cr_Alternatives :: "alternative list"

definition crumb :: "string \<Rightarrow> string \<Rightarrow> Crumb" where
  "crumb label url = \<lparr>cr_Label = label, cr_URL = url, cr_Icon = None, cr_Subtitle = [], cr_SourceURL = [], cr_Content = None,
     cr_Alternatives = []\<rparr>"

definition breadcrumb_Feature :: "string \<Rightarrow> Crumb" where
  "breadcrumb_Feature name = crumb name (''/features/'' @ name)"

definition breadcrumb_Features :: Crumb where
  "breadcrumb_Features = crumb ''Features'' ''/features''"

definition breadcrumb_Environments :: Crumb where
  "breadcrumb_Environments = crumb ''Environments'' ''/environments''"

definition TenantWithSwitcher :: "string \<Rightarrow> string list \<Rightarrow> Crumb" where
  "TenantWithSwitcher name allTenants = crumb name []"

definition EnvironmentWithSwitcher :: "string \<Rightarrow> string \<Rightarrow> string list \<Rightarrow> Crumb" where
  "EnvironmentWithSwitcher tenantName envName envs =
     (crumb envName (''/tenants/'' @ tenantName @ ''/envs/'' @ envName)) \<lparr>cr_Alternatives :=
       map (\<lambda>e. \<lparr>alt_Label = e, alt_URL = ''/tenants/'' @ tenantName @ ''/envs/'' @ e\<rparr>) (filter (\<lambda>e. e \<noteq> envName) envs)\<rparr>"

definition breadcrumb_FeatureEnvironment :: "string \<Rightarrow> string \<Rightarrow> string \<Rightarrow> Crumb" where
  "breadcrumb_FeatureEnvironment featureName tenantName envName =
     crumb (tenantName @ '' / '' @ envName) (''/features/'' @ featureName @ ''/envs/'' @ tenantName @ ''/'' @ envName)"

definition optional_node :: "node option \<Rightarrow> node list" where
  "optional_node n = (case n of None \<Rightarrow> [] | Some m \<Rightarrow> [m])"

definition breadcrumbWithDropdown :: "Crumb \<Rightarrow> bool \<Rightarrow> node" where
  "breadcrumbWithDropdown c isActive =
     (let items = map (\<lambda>alt. h_A [h_Href (alt_URL alt), Text (alt_Label alt)]) (cr_Alternatives c);
          labelNodes = optional_node (cr_Icon c) @ [Text (cr_Label c @ '' '' @ utf [0xE2, 0x96, 0xBE])];
          class = (if isActive then ''active'' else []);
          label = (if cr_URL c \<noteq> [] then h_A [h_Href (cr_URL c), h_Class class, Group labelNodes]
            else h_Span [h_Class class, Group labelNodes])
      in h_Span [h_Class ''breadcrumb-switcher'', label, h_Div [h_Class ''breadcrumb-dropdown'', Group items]])"

definition breadcrumb_node :: "Crumb \<Rightarrow> bool \<Rightarrow> node" where
  "breadcrumb_node c isLast =
     (if 0 < length (cr_Alternatives c) then breadcrumbWithDropdown c isLast
      else if isLast then h_Span [h_Class ''active'', Group (optional_node (cr_Icon c) @
        [case cr_Content c of None \<Rightarrow> Text (cr_Label c) | Some n \<Rightarrow> n] @
        (if cr_Subtitle c \<noteq> [] then [h_Span [h_Class ''breadcrumb-subtitle'', Text (''('' @ cr_Subtitle c @ '')'')]] else []))]
      else if cr_URL c \<noteq> [] then h_A [h_Href (cr_URL c), Group (optional_node (cr_Icon c) @ [Text (cr_Label c)])]
      else h_Span [Group (optional_node (cr_Icon c) @ [Text (cr_Label c)])])"

fun breadcrumb_nodes :: "Crumb list \<Rightarrow> node list" where
  "breadcrumb_nodes [] = []"
| "breadcrumb_nodes [c] = [breadcrumb_node c True]"
| "breadcrumb_nodes (c # cs) = [breadcrumb_node c False, h_Span [h_Class ''breadcrumb-sep'', Raw ''&#x203A;'']] @ breadcrumb_nodes cs"

definition Breadcrumbs :: "Crumb list \<Rightarrow> node list \<Rightarrow> node" where
  "Breadcrumbs crumbs actions =
     (if length crumbs = 0 then Absent
      else let lastCrumb = last crumbs
        in h_Nav [h_Class ''breadcrumbs'', Group (breadcrumb_nodes crumbs @
          (if cr_SourceURL lastCrumb \<noteq> [] then [h_A [h_Class ''breadcrumb-source'', h_Href (cr_SourceURL lastCrumb), Attr ''target'' ''_blank'',
             Attr ''title'' ''Source'', Icon ''breadcrumb-source'']] else []) @ actions)])"

definition ExternalLinkIcon :: node where
  "ExternalLinkIcon = Icon ''ExternalLinkIcon''"

subsection \<open>The sidebar of a feature\<close>

definition featureNavItem :: "string \<Rightarrow> string \<Rightarrow> bool \<Rightarrow> node" where
  "featureNavItem href label active = h_Li [h_A ([h_Href href] @ (if active then [h_Class ''active''] else []) @ [Text label])]"

definition featureEnvironmentItem :: "string \<Rightarrow> FeatureEnvironment \<Rightarrow> bool \<Rightarrow> node" where
  "featureEnvironmentItem featureName env active =
     (let className = (if active then ''feature-env-link active'' else ''feature-env-link'')
      in h_Li [h_A [h_Href (''/features/'' @ featureName @ ''/envs/'' @ fe_TenantSlug env @ ''/'' @ fe_EnvironmentName env), h_Class className,
           h_Span [h_Class (''feature-env-dot '' @ StatusClass (fe_Status env)), h_Title (fe_Status env)],
           h_Span [Text (fe_TenantName env @ '' / '' @ fe_EnvironmentName env)]]])"

definition FeatureSidebar :: "string \<Rightarrow> string \<Rightarrow> string \<Rightarrow> string \<Rightarrow> FeatureEnvironment list \<Rightarrow> node" where
  "FeatureSidebar featureName activeTab activeTenant activeEnvironment envs =
     h_Aside [h_Class ''sidebar feature-sidebar'', h_Div [h_Class ''feature-sidebar-header'', h_H4 [Text featureName]],
       h_Div [h_Class ''nav'',
         h_Ul [featureNavItem (''/features/'' @ featureName) ''Overview'' (activeTab = ''overview''),
           featureNavItem (''/features/'' @ featureName @ ''/versions'') ''Versions'' (activeTab = ''versions''),
           featureNavItem (''/features/'' @ featureName @ ''/assignments'') ''Assignments'' (activeTab = ''assignments''),
           featureNavItem (''/features/'' @ featureName @ ''/config'') ''Config'' (activeTab = ''config'')],
         h_Div [h_Class ''sidebar-section-label'', Text ''Environments''],
         h_Ul [Group (map (\<lambda>env. featureEnvironmentItem featureName env
           (fe_TenantSlug env = activeTenant \<and> fe_EnvironmentName env = activeEnvironment)) envs)]]]"

section \<open>The page of an environment\<close>

definition plural :: "nat \<Rightarrow> string" where
  "plural n = (if n = 1 then [] else ''s'')"

definition fmtOrphans :: "nat \<Rightarrow> string" where
  "fmtOrphans n = show_nat n @ '' orphaned release'' @ plural n @ '' installed without a matching feature assignment''"

text \<open>The labels in the order of their keys.\<close>

definition sorted_labels :: "Labels \<Rightarrow> (string \<times> string) list" where
  "sorted_labels labels = sort_key fst labels"

definition environmentNavItem :: "string \<Rightarrow> node \<Rightarrow> bool \<Rightarrow> node" where
  "environmentNavItem href label active = h_Li [h_A ([h_Href href] @ (if active then [h_Class ''active''] else []) @ [label])]"

definition environmentSidebar :: "string \<Rightarrow> string \<Rightarrow> string \<Rightarrow> nat \<Rightarrow> node" where
  "environmentSidebar tenantName environmentName activeTab orphanCount =
     (let base = ''/tenants/'' @ tenantName @ ''/envs/'' @ environmentName;
          helmLabel = (if orphanCount > 0
            then Group [Text ''Helm Releases '', h_Span [h_Class ''badge status-error'', h_Title (fmtOrphans orphanCount), Text (show_nat orphanCount)]]
            else Text ''Helm Releases'')
      in h_Aside [h_Class ''sidebar feature-sidebar'', h_Div [h_Class ''feature-sidebar-header'', h_H4 [Text environmentName]],
           h_Div [h_Class ''nav'', h_Ul
             [environmentNavItem (base @ ''?tab=features'') (Text ''Features'') (activeTab = ''features''),
              environmentNavItem (base @ ''?tab=values'') (Text ''Values'') (activeTab = ''values''),
              environmentNavItem (base @ ''?tab=helm'') helmLabel (activeTab = ''helm''),
              environmentNavItem (base @ ''?tab=details'') (Text ''Details'') (activeTab = ''details'')]]])"

definition naisdHealthIcon :: "string \<Rightarrow> string" where
  "naisdHealthIcon label =
     (if label = ''healthy'' then utf [0xE2, 0x9C, 0x93]
      else if label = ''stale'' then utf [0xC3, 0x97]
      else if label = ''dead'' then utf [0xC3, 0x97]
      else ''?'')"

definition environmentSummaryNodes :: "Environment \<Rightarrow> Labels \<Rightarrow> string \<Rightarrow> string \<Rightarrow> environmentHealth \<Rightarrow> gotime \<Rightarrow> node list" where
  "environmentSummaryNodes environment labels gcpProjectID userEmail health now =
     (let (class, label) = naisdHealthBucket health now;
          items =
           (if 0 < length labels
            then [h_Span [h_Class ''env-header-item env-header-labels'',
              Group (map (\<lambda>(k, v). h_Span [h_Class ''label-filter-tag'', Text (k @ '': '' @ v)]) (sorted_labels labels))]]
            else []) @
           (if gcpProjectID \<noteq> []
            then [h_A [h_Class ''env-header-item env-header-link'', h_Href (gcpProjectHref gcpProjectID userEmail), Attr ''target'' ''_blank'',
              Attr ''rel'' ''noopener noreferrer'', Attr ''title'' ''Open GCP project'', Text (gcpProjectID @ '' ''), ExternalLinkIcon]]
            else []) @
           [h_Span [h_Class ''env-header-item'', Text (if e_Reconcile environment then ''Reconcile: on'' else ''Reconcile: off'')],
            h_Span [h_Class (''env-header-item status-badge '' @ class), h_Title (naisdHealthTitle label), Text (naisdHealthIcon label @ '' naisd'')]]
      in [h_Div [h_Class ''env-header-actions'', Group items]])"

definition naisdBootstrapCard_node :: "string \<Rightarrow> Environment \<Rightarrow> string \<Rightarrow> environmentHealth \<Rightarrow> node" where
  "naisdBootstrapCard_node tenantName environment gcpProjectID health =
     (case naisdBootstrapCard tenantName environment gcpProjectID health of
        None \<Rightarrow> Absent
      | Some command \<Rightarrow> h_Div [h_Class ''card'', h_Div [h_Class ''card-body'',
          h_H2 [h_Class ''card-section-heading'', Text ''Install naisd''],
          h_P [h_Class ''text-muted'',
            Text ''naisd has never reported from this environment. Install the agent to start rolling out features:''],
          h_Div [h_Class ''code-block-wrap'',
            h_Button [h_Type ''button'', h_Class ''copy-btn'', Attr ''data-copy-target'' ''naisd-bootstrap-command'', Text ''Copy''],
            h_Pre [h_Class ''code-block'', h_ID ''naisd-bootstrap-command'', Text command]]]])"

definition naisdHealthOverviewItem :: "page_formats \<Rightarrow> environmentHealth \<Rightarrow> gotime \<Rightarrow> node" where
  "naisdHealthOverviewItem p health now =
     (let (class, label) = naisdHealthBucket health now
      in h_Div [h_Class (''environment-health-item '' @ class),
           h_Div [h_Class ''environment-health-icon'', Text (naisdHealthIcon label)],
           h_Div [h_Div [h_Class ''environment-health-title'', Text (naisdHealthTitle label)],
             g_If (eh_HasReport health) (h_Div [h_Class ''environment-health-meta'',
               h_Span [h_Title (FormatTime p (eh_ReportedAt health)), Text (''Reported '' @ RelativeTime p now (eh_ReportedAt health))]]),
             g_If (\<not> eh_HasReport health) (h_Div [h_Class ''environment-health-meta'',
               Text ''No health report has been received for this environment.''])]])"

text \<open>A row of the metadata is never secret and has no references.\<close>

definition metadataValue :: "string \<times> string \<Rightarrow> node" where
  "metadataValue item = Text (snd item)"

definition environmentDetailsCard ::
  "page_formats \<Rightarrow> Environment \<Rightarrow> Labels \<Rightarrow> string \<Rightarrow> string \<Rightarrow> environmentHealth \<Rightarrow> gotime \<Rightarrow> node" where
  "environmentDetailsCard p environment labels gcpProjectID userEmail health now =
     h_Div [h_Class ''card'', h_Div [h_Class ''card-body'', h_Div [h_Class ''environment-details-list'',
       naisdHealthOverviewItem p health now,
       Group (map (\<lambda>item. h_Div [h_Class ''environment-details-item'', h_Div [h_Class ''environment-details-key'', Text (fst item)],
         h_Div [h_Class ''environment-details-value'', metadataValue item]]) (getEnvironmentMetadata p environment)),
       g_If (gcpProjectID \<noteq> []) (h_Div [h_Class ''environment-details-item'', h_Div [h_Class ''environment-details-key'', Text ''GCP Project''],
         h_Div [h_Class ''environment-details-value'', Text gcpProjectID, Text '' '',
           h_A [h_Href (gcpProjectHref gcpProjectID userEmail), Attr ''target'' ''_blank'', Attr ''rel'' ''noopener noreferrer'',
             Attr ''title'' (''Open GCP project '' @ gcpProjectID), ExternalLinkIcon]]]),
       g_If (0 < length labels) (h_Div [h_Class ''environment-labels-section'', h_H3 [h_Class ''environment-labels-heading'', Text ''Labels''],
         h_Div [h_Class ''environment-labels-group'', Group (map (\<lambda>(k, v). h_Div [h_Class ''environment-details-item'',
           h_Div [h_Class ''environment-details-key'', Text k], h_Div [h_Class ''environment-details-value'', Text v]]) (sorted_labels labels))]])]]]"

definition value_row :: "externals \<Rightarrow> page_formats \<Rightarrow> (string, string list) gomap \<Rightarrow> EnvironmentValue \<Rightarrow> node" where
  "value_row x p valueRefs val =
     (let valNode = (if ev_Secret val then h_Span [h_Class ''text-muted'', Text masked]
            else Text (RawValueForDisplay x (pf_indent p) (ev_Value val)));
          refs = gm_list valueRefs (ev_Key val);
          shown = (if 0 < length refs
            then Group [valNode, Text '' '', h_Span [h_Class ''badge'', h_Title (strings_Join refs '', ''),
              Text (show_nat (length refs) @ '' ref'' @ plural (length refs))]]
            else valNode)
      in h_Tr [h_Td [h_Class ''th-like width-md'', Text (ev_Key val)], h_Td [shown]])"

definition environmentValuesCard :: "externals \<Rightarrow> page_formats \<Rightarrow> EnvironmentValue list \<Rightarrow> (string, string list) gomap \<Rightarrow> node" where
  "environmentValuesCard x p envValues valueRefs =
     (if length envValues = 0 then Group []
      else h_Div [h_Class ''card'', h_Div [h_Class ''card-body'', h_H2 [h_Class ''card-section-heading'', Text ''Environment values''],
        h_Table [h_Class ''table'', h_TBody [Group (map (value_row x p valueRefs) envValues)]]]])"

definition textOrMuted :: "string \<Rightarrow> string \<Rightarrow> node" where
  "textOrMuted val fallback = (if val = [] then h_Span [h_Class ''text-muted'', Text fallback] else Text val)"

definition environmentFeaturesCard ::
  "page_formats \<Rightarrow> view_libs \<Rightarrow> gotime \<Rightarrow> string \<Rightarrow> string \<Rightarrow> environmentFeatureRow list \<Rightarrow> node" where
  "environmentFeaturesCard p v now tenantName environmentName features =
     h_Div [h_Class ''card'', h_Div [h_Class ''card-body'', h_H2 [h_Class ''card-section-heading'', Text ''Features in this environment''],
       g_If (length features = 0) (h_P [h_Class ''text-muted'', Text ''No features target this environment.'']),
       g_If (0 < length features) (h_Table [h_Class ''table sortable'', Attr ''data-sort-key'' ''environment-features'',
         h_THead [h_Tr [h_Th [Text ''Feature''], h_Th [Text ''Status''], h_Th [Text ''Version''],
           h_Th [h_Title ''When the latest successful deploy instruction completed'', Text ''Deployed'']]],
         h_TBody [Group (map (\<lambda>feature. h_Tr
           [h_Td [h_A [h_Href (''/features/'' @ efr_Name feature @ ''/envs/'' @ tenantName @ ''/'' @ environmentName), Text (efr_Name feature)]],
            (if efr_StatusMessage feature \<noteq> [] then h_Td [h_Title (efr_StatusMessage feature), components_Status (efr_Status feature)]
             else h_Td [components_Status (efr_Status feature)]),
            h_Td [textOrMuted (efr_Version feature) ''unknown''],
            TimeCell p v now (efr_LastSuccessful feature) []]) features)]])]]"

definition uninstallCell_node :: "string \<Rightarrow> string \<Rightarrow> releaseRow \<Rightarrow> node" where
  "uninstallCell_node tenantName environmentName release =
     (case uninstallCell tenantName environmentName release of
        None \<Rightarrow> Text []
      | Some action \<Rightarrow> h_Form [h_Method ''post'', h_Action action,
          Attr ''onsubmit'' (''return confirm('' @ [CHR 0x27] @ ''Uninstall '' @ fr_Name (rr_Release release) @ '' from '' @ tenantName @ ''/'' @
            environmentName @ ''? This runs helm uninstall in the environment.'' @ [CHR 0x27] @ '')''),
          h_Button [h_Type ''submit'', h_Class ''btn btn-danger btn-sm'', Text ''Uninstall'']])"

definition release_node :: "page_formats \<Rightarrow> view_libs \<Rightarrow> gotime \<Rightarrow> string \<Rightarrow> string \<Rightarrow> releaseRow \<Rightarrow> node" where
  "release_node p v now tenantName environmentName release =
     (let rel = rr_Release release
      in h_Tr [(if rr_Orphaned release
           then h_Td [Text (fr_Name rel), Text '' '',
             h_Span [h_Class ''badge status-error'', h_Title ''Installed without a matching feature assignment'', Text ''orphaned'']]
           else h_Td [Text (fr_Name rel)]),
         h_Td [Text (fr_Status rel)], h_Td [textOrMuted (fr_Version rel) ''unknown''],
         TimeCell p v now (fr_LastDeployed rel) [], TimeCell p v now (fr_LastModified rel) [], TimeCell p v now (fr_Created rel) [],
         h_Td [Text (show_int (fr_Revision rel))], h_Td [uninstallCell_node tenantName environmentName release]])"

definition helmReleasesCard :: "page_formats \<Rightarrow> view_libs \<Rightarrow> gotime \<Rightarrow> string \<Rightarrow> string \<Rightarrow> releaseRow list \<Rightarrow> node" where
  "helmReleasesCard p v now tenantName environmentName unsorted =
     (let releases = sort_key (\<lambda>r. fr_Name (rr_Release r)) unsorted; orphanCount = countOrphans releases
      in h_Div [h_Class ''card'', h_Div [h_Class ''card-body'', h_H2 [h_Class ''card-section-heading'', Text ''Helm releases''],
        h_P [h_Class ''text-muted'', Text ''Actual state reported by naisd from the environment.''],
        g_If (orphanCount > 0) (h_P [h_Class ''text-muted'',
          Text (show_nat orphanCount @ '' release'' @ plural orphanCount @ '' installed without a matching feature assignment.'')]),
        g_If (length releases = 0) (h_P [h_Class ''text-muted'', Text ''No releases reported.'']),
        g_If (0 < length releases) (h_Table [h_Class ''table sortable'', Attr ''data-sort-key'' ''environment-releases'',
          h_THead [h_Tr [h_Th [Text ''Feature''], h_Th [Text ''Status''], h_Th [Text ''Version''], h_Th [Text ''Last deployed''],
            h_Th [Text ''Last modified''], h_Th [Text ''Created''], h_Th [Text ''Revision''], h_Th [Text []]]],
          h_TBody [Group (map (release_node p v now tenantName environmentName) releases)]])]])"

record environment_data =
  ed_Tenant :: Tenant
  ed_Environment :: Environment
  ed_Labels :: Labels
  ed_Values :: "EnvironmentValue list"
  ed_ValueRefs :: "(string, string list) gomap"
  ed_UserEmail :: string
  ed_Features :: "environmentFeatureRow list"
  ed_Releases :: "releaseRow list"
  ed_Health :: environmentHealth

definition environmentTabContent :: "externals \<Rightarrow> page_formats \<Rightarrow> view_libs \<Rightarrow> gotime \<Rightarrow> string \<Rightarrow> string \<Rightarrow> environment_data \<Rightarrow> node" where
  "environmentTabContent x p v now gcpProjectID activeTab ed =
     (let tenantName = t_Name (ed_Tenant ed); environment = ed_Environment ed
      in if activeTab = ''values'' then environmentValuesCard x p (ed_Values ed) (ed_ValueRefs ed)
         else if activeTab = ''features'' then environmentFeaturesCard p v now tenantName (e_Name environment) (ed_Features ed)
         else if activeTab = ''helm'' then helmReleasesCard p v now tenantName (e_Name environment) (ed_Releases ed)
         else if activeTab = ''details''
           then environmentDetailsCard p environment (ed_Labels ed) gcpProjectID (ed_UserEmail ed) (ed_Health ed) now
         else environmentFeaturesCard p v now tenantName (e_Name environment) (ed_Features ed))"

definition environment_page :: "externals \<Rightarrow> page_formats \<Rightarrow> view_libs \<Rightarrow> gotime \<Rightarrow> Crumb list \<Rightarrow> string \<Rightarrow> environment_data \<Rightarrow> node" where
  "environment_page x p v now crumbs activeTab ed =
     (let gcpProjectID = gcpProjectIDFromValues x p (ed_Values ed); tenantName = t_Name (ed_Tenant ed)
      in h_Div [h_Class ''container'',
           environmentSidebar tenantName (e_Name (ed_Environment ed)) activeTab (countOrphans (ed_Releases ed)),
           Breadcrumbs crumbs (environmentSummaryNodes (ed_Environment ed) (ed_Labels ed) gcpProjectID (ed_UserEmail ed) (ed_Health ed) now),
           h_Main [h_Class ''main-content'', naisdBootstrapCard_node tenantName (ed_Environment ed) gcpProjectID (ed_Health ed),
             environmentTabContent x p v now gcpProjectID activeTab ed]])"

definition tenantCrumb :: "view_libs \<Rightarrow> string \<Rightarrow> string list \<Rightarrow> Crumb" where
  "tenantCrumb v name allTenants = (TenantWithSwitcher name allTenants) \<lparr>cr_Icon := Some (TenantAvatar v name (HasTenantLogo v name) ''18px'')\<rparr>"

definition load_failed :: "string \<Rightarrow> err + 'a \<Rightarrow> 'b reply + 'a" where
  "load_failed what r = (case r of Inl e \<Rightarrow> Inl (fails_with 500 (''Failed to load '' @ what @ '': '') e) | Inr a \<Rightarrow> Inr a)"

text \<open>The page of an environment with its title. What follows the list of its values is a definition of its own.\<close>

definition environment_view ::
  "externals \<Rightarrow> page_formats \<Rightarrow> view_libs \<Rightarrow> io \<Rightarrow> request \<Rightarrow> string \<Rightarrow> Tenant \<Rightarrow> Environment \<Rightarrow> environmentFeatureRow list \<Rightarrow>
    Tenant list \<Rightarrow> Environment list \<Rightarrow> Labels \<Rightarrow> db \<Rightarrow> EnvironmentValue list \<Rightarrow> (string \<times> node) reply + (string \<times> node)" where
  "environment_view x p v io r tab tenant env featureRows allTenants tenantEnvs labels d envValues =
     bindE (load_failed ''environment value references'' (GetEnvironmentValueReferences x p io (e_ID env) d)) (\<lambda>valueRefs.
     bindE (load_failed ''environment'' (ListReleaseStatuses io (e_ID env) d)) (\<lambda>releases.
     bindE (load_failed ''environment'' (buildReleaseRows x io (e_ID env) releases d)) (\<lambda>releaseRows.
     bindE (load_failed ''environment'' (loadEnvironmentHealth io (e_ID env) d)) (\<lambda>health.
     Inr (t_Name tenant @ '' / '' @ e_Name env,
       environment_page x p v (io_now io)
         [breadcrumb_Environments, tenantCrumb v (t_Name tenant) (map t_Name allTenants),
          EnvironmentWithSwitcher (t_Name tenant) (e_Name env) (map e_Name tenantEnvs)]
         (environmentTab tab)
         \<lparr>ed_Tenant = tenant, ed_Environment = env, ed_Labels = labels, ed_Values = envValues, ed_ValueRefs = valueRefs,
          ed_UserEmail = GetEmail (re_Email r), ed_Features = featureRows, ed_Releases = releaseRows, ed_Health = health\<rparr>)))))"

definition environment_Handler ::
  "externals \<Rightarrow> page_formats \<Rightarrow> view_libs \<Rightarrow> io \<Rightarrow> request \<Rightarrow> string \<Rightarrow> db \<Rightarrow> (string \<times> node) reply" where
  "environment_Handler x p v io r tab d =
     (case bindE (load_failed ''environment'' (GetTenantByName io (URLParam r ''tenant'') d)) (\<lambda>tenant.
        bindE (load_failed ''environment'' (environment_GetByName io (t_ID tenant) (URLParam r ''env'') d)) (\<lambda>env.
        bindE (load_failed ''environment'' (loadEnvironmentFeatureRows x io env d)) (\<lambda>featureRows.
        bindE (load_failed ''tenants'' (ui_ListTenants io d)) (\<lambda>allTenants.
        bindE (load_failed ''tenant environments'' (environment_List io (t_ID tenant) d)) (\<lambda>tenantEnvs.
        bindE (load_failed ''environment labels'' (GetLabels io (e_ID env) d)) (\<lambda>labels.
        bindE (load_failed ''environment values'' (ListEnvironmentValuesForEnvironment io (e_ID env) True d))
          (environment_view x p v io r tab tenant env featureRows allTenants tenantEnvs labels d))))))) of
        Inl failed \<Rightarrow> failed | Inr shown \<Rightarrow> Reply 200 shown)"

section \<open>Secret values do not reach the page\<close>

definition hide_secret :: "EnvironmentValue \<Rightarrow> EnvironmentValue" where
  "hide_secret v = (if ev_Secret v then v \<lparr>ev_Value := []\<rparr> else v)"

lemma hide_secret_sel [simp]:
  "ev_Key (hide_secret v) = ev_Key v" "ev_Secret (hide_secret v) = ev_Secret v" "ev_EnvironmentID (hide_secret v) = ev_EnvironmentID v"
  "\<not> ev_Secret v \<Longrightarrow> hide_secret v = v"
  by (simp_all add: hide_secret_def)

lemma gcpProjectIDFromValues_hidden: "gcpProjectIDFromValues x p (map hide_secret vs) = gcpProjectIDFromValues x p vs"
  by (induction vs) (auto simp: gcpProjectIDFromValues_def)

lemma value_row_hidden: "value_row x p refs (hide_secret v) = value_row x p refs v"
  by (cases "ev_Secret v") (simp_all add: value_row_def)

lemma environment_page_hidden:
  "environment_page x p v now crumbs tab (ed \<lparr>ed_Values := map hide_secret (ed_Values ed)\<rparr>) = environment_page x p v now crumbs tab ed"
  by (simp add: environment_page_def environmentTabContent_def environmentValuesCard_def gcpProjectIDFromValues_hidden value_row_hidden
      comp_def Let_def)

text \<open>What the page reads besides the values of the environment.\<close>

lemma assignments_without_values [simp]:
  "ListForEnvironment x io envID (d \<lparr>environment_values := vs\<rparr>) = ListForEnvironment x io envID d"
  by (simp add: ListForEnvironment_def ListFeatureAssignmentsForEnvironment_def featureAssignmentsFromRows_def with_data_def assignment_data_def
      featureAssignmentFromSQL_def)

lemma readers_without_values [simp]:
  "GetTenantByName io name (d \<lparr>environment_values := vs\<rparr>) = GetTenantByName io name d"
  "environment_GetByName io tid name (d \<lparr>environment_values := vs\<rparr>) = environment_GetByName io tid name d"
  "loadEnvironmentFeatureRows x io env (d \<lparr>environment_values := vs\<rparr>) = loadEnvironmentFeatureRows x io env d"
  "ui_ListTenants io (d \<lparr>environment_values := vs\<rparr>) = ui_ListTenants io d"
  "environment_List io tid (d \<lparr>environment_values := vs\<rparr>) = environment_List io tid d"
  "GetLabels io envID (d \<lparr>environment_values := vs\<rparr>) = GetLabels io envID d"
  "GetEnvironmentValueReferences x p io envID (d \<lparr>environment_values := vs\<rparr>) = GetEnvironmentValueReferences x p io envID d"
  "ListReleaseStatuses io envID (d \<lparr>environment_values := vs\<rparr>) = ListReleaseStatuses io envID d"
  "buildReleaseRows x io envID rels (d \<lparr>environment_values := vs\<rparr>) = buildReleaseRows x io envID rels d"
  "loadEnvironmentHealth io envID (d \<lparr>environment_values := vs\<rparr>) = loadEnvironmentHealth io envID d"
  by (simp_all add: GetTenantByName_def environment_GetByName_def loadEnvironmentFeatureRows_def ListEnvironmentFeatures_def
      FeatureStatusesForEnvironment_def AllReconcileStatuses_def ListAllDecisionStatuses_def ListAllDeployStatuses_def
      LatestDeployInstructionsForEnvironment_def LatestDeployedForEnvironment_def ui_ListTenants_def environment_List_def
      GetLabels_def GetEnvironmentValueReferences_def ListReleaseStatuses_def buildReleaseRows_def loadEnvironmentHealth_def naisdstatus_Get_def)

lemma listed_values_hidden:
  assumes "map hide_secret vs = map hide_secret vs'"
  shows "map_sum id (map hide_secret) (ListEnvironmentValuesForEnvironment io envID True (d \<lparr>environment_values := vs\<rparr>)) =
    map_sum id (map hide_secret) (ListEnvironmentValuesForEnvironment io envID True (d \<lparr>environment_values := vs'\<rparr>))"
proof -
  have hidden: "map hide_secret (sort_key ev_Key (filter (\<lambda>v. ev_EnvironmentID v = envID) us)) =
      sort_key ev_Key (filter (\<lambda>v. ev_EnvironmentID v = envID) (map hide_secret us))" for us
    by (simp add: sort_key_map filter_map comp_def)
  show ?thesis using assms by (simp add: ListEnvironmentValuesForEnvironment_def query_def hidden)
qed

lemma bindE_related:
  assumes "map_sum id g r = map_sum id g r'" and "\<And>a b. g a = g b \<Longrightarrow> f a = f b"
  shows "bindE (load_failed what r) f = bindE (load_failed what r') f"
proof (cases r)
  case (Inl e)
  then show ?thesis using assms(1) by (cases r') (simp_all add: load_failed_def)
next
  case (Inr a)
  then obtain b where b: "r' = Inr b" "g a = g b" using assms(1) by (cases r') simp_all
  show ?thesis using assms(2) [OF b(2)] by (simp add: Inr b(1) load_failed_def)
qed

lemma environment_view_hidden:
  assumes "map hide_secret us = map hide_secret us'"
  shows "environment_view x p v io r tab tenant env features ts es labels d us =
    environment_view x p v io r tab tenant env features ts es labels d us'"
proof -
  have page: "environment_page x p v now crumbs t (ed \<lparr>ed_Values := us\<rparr>) = environment_page x p v now crumbs t (ed \<lparr>ed_Values := us'\<rparr>)"
    for now crumbs t ed
    using environment_page_hidden [of x p v now crumbs t "ed \<lparr>ed_Values := us\<rparr>"]
      environment_page_hidden [of x p v now crumbs t "ed \<lparr>ed_Values := us'\<rparr>"] assms by simp
  then have "environment_page x p v now crumbs t \<lparr>ed_Tenant = a, ed_Environment = b, ed_Labels = c, ed_Values = us, ed_ValueRefs = e,
        ed_UserEmail = f, ed_Features = g, ed_Releases = h, ed_Health = i\<rparr> =
      environment_page x p v now crumbs t \<lparr>ed_Tenant = a, ed_Environment = b, ed_Labels = c, ed_Values = us', ed_ValueRefs = e,
        ed_UserEmail = f, ed_Features = g, ed_Releases = h, ed_Health = i\<rparr>" for now crumbs t a b c e f g h i
    using page [of now crumbs t "\<lparr>ed_Tenant = a, ed_Environment = b, ed_Labels = c, ed_Values = [], ed_ValueRefs = e,
        ed_UserEmail = f, ed_Features = g, ed_Releases = h, ed_Health = i\<rparr>"] by simp
  then show ?thesis unfolding environment_view_def by simp
qed

text \<open>
  C23. Secret values do not reach the page of an environment: whatever the tables, the tab, the user and the failures of queries, two states
  that differ only in the secret values of environments give the same reply, the page or the error. The value of \<open>project_id\<close> in the link
  to the console, the tooltips and the number of references are included.
\<close>

theorem environment_page_hides_secrets:
  assumes "map hide_secret vs = map hide_secret vs'"
  shows "environment_Handler x p v io r tab (d \<lparr>environment_values := vs\<rparr>) = environment_Handler x p v io r tab (d \<lparr>environment_values := vs'\<rparr>)"
proof -
  have view: "environment_view x p v io r tab tenant env features ts es labels (d \<lparr>environment_values := us\<rparr>) = 
      environment_view x p v io r tab tenant env features ts es labels d" for tenant env features ts es labels us
    by (rule ext) (simp add: environment_view_def)
  have listed: "bindE (load_failed what (ListEnvironmentValuesForEnvironment io envID True (d \<lparr>environment_values := vs\<rparr>)))
        (environment_view x p v io r tab tenant env features ts es labels d) =
      bindE (load_failed what (ListEnvironmentValuesForEnvironment io envID True (d \<lparr>environment_values := vs'\<rparr>)))
        (environment_view x p v io r tab tenant env features ts es labels d)" for what envID tenant env features ts es labels
    by (rule bindE_related [OF listed_values_hidden [OF assms] environment_view_hidden])
  show ?thesis unfolding environment_Handler_def readers_without_values view listed ..
qed

theorem environment_page_hides_secrets_witness:
  "\<forall>p v r tab. environment_Handler example_externals p v store_io r tab
      (example_db \<lparr>environment_values := [\<lparr>ev_EnvironmentID = 1, ev_Key = ''token'', ev_Value = ''hunter2'', ev_Secret = True\<rparr>]\<rparr>) =
    environment_Handler example_externals p v store_io r tab
      (example_db \<lparr>environment_values := [\<lparr>ev_EnvironmentID = 1, ev_Key = ''token'', ev_Value = ''other'', ev_Secret = True\<rparr>]\<rparr>)"
  by (intro allI environment_page_hides_secrets) (simp add: hide_secret_def)

end
