(* ===== verification/Config_Views.thy ===== *)
theory Config_Views
  imports Views
begin

text \<open>
  The views of configuration: the cells and editors of \<open>internal/ui/components/config.go\<close>, the configuration of a feature in an
  environment (\<open>internal/ui/pages/environment/feature.go\<close>), the global configuration of a feature
  (\<open>internal/ui/pages/features/feature_config.go\<close>) and the comparison of a key over environments (\<open>feature_config_compare.go\<close>).

  Quoting with \<open>%q\<close> and printing with \<open>%v\<close> are parameters. What a browser submits for the controls of a form that was not touched is
  \<open>form_entries\<close>. The theorems: submitting the form untouched changes nothing; the comparison shows for every environment what the form
  of the environment shows; and where secrets do reach a page.
\<close>

section \<open>Cells and editors\<close>

definition IsMultilineValue :: "string \<Rightarrow> bool" where
  "IsMultilineValue s \<longleftrightarrow> CHR 0x0A \<in> set s"

definition ReadonlyValueTextarea :: "string \<Rightarrow> node" where
  "ReadonlyValueTextarea val = h_Pre [h_Class ''value-readonly'', h_Code [Text val]]"

definition ConfigKeyCell :: "ConfigItem \<Rightarrow> node" where
  "ConfigKeyCell item =
     (let strong = (if ci_DisplayName item \<noteq> [] then h_Strong [h_Title (ci_Key item), Text (ci_DisplayName item)] else h_Strong [Text (ci_Key item)])
      in h_Td [Group ([strong] @
        (if ci_Required item then [Text '' '', h_Span [h_Class ''config-required-badge'', Text ''required'']] else []) @
        (if ci_Description item \<noteq> [] then [El ''br'' [], h_Small [h_Class ''text-muted'', Text (ci_Description item)]] else []))])"

definition ValueDisplay :: "externals \<Rightarrow> page_formats \<Rightarrow> string \<Rightarrow> string \<Rightarrow> node" where
  "ValueDisplay x p val configType =
     (let display = (if configType = ''STRING'' \<or> configType = ''STRING_ARRAY'' \<or> configType = []
            then (case TryPrettyJSON x (pf_indent p) val of (pretty, ok) \<Rightarrow> if ok then pretty else val) else val)
      in if IsMultilineValue display then ReadonlyValueTextarea display else h_Span [Text display])"

definition ConfigValueCell :: "externals \<Rightarrow> page_formats \<Rightarrow> ConfigItem \<Rightarrow> node" where
  "ConfigValueCell x p item =
     (if ci_IsSecret item then h_Td [h_Span [h_Class ''text-muted'', Text masked]]
      else h_Td [ValueDisplay x p (ci_Value item) (ci_Type item)])"

definition notSetOption :: node where
  "notSetOption = h_Option [h_Value [], Attr ''selected'' ''selected'', Text ''(not set)'']"

definition Option :: "string \<Rightarrow> string \<Rightarrow> node" where
  "Option val current = h_Option ([h_Value val] @ (if val = current then [Attr ''selected'' ''selected''] else []) @ [Text val])"

definition bool_options :: "string \<Rightarrow> node list" where
  "bool_options current = (if strings_TrimSpace current = [] then [notSetOption] else []) @ [Option ''true'' current, Option ''false'' current]"

definition bulkValueWidget :: "string \<Rightarrow> ConfigItem \<Rightarrow> node" where
  "bulkValueWidget formID item =
     (let name = BulkValueField (ci_Key item); t = strings_ToUpper (ci_Type item)
      in if t = ''BOOL''
         then h_Select [h_Name name, Attr ''form'' formID, h_Class ''bulk-value-input'', Group (bool_options (ci_Value item))]
         else if t = ''INT''
         then h_Input [h_Type ''text'', Attr ''inputmode'' ''numeric'', h_Name name, h_Value (ci_Value item), Attr ''form'' formID,
           h_Class ''bulk-value-input'']
         else if IsMultilineValue (ci_Value item)
         then h_Textarea [h_Name name, Attr ''form'' formID, h_Class ''bulk-value-input'',
           h_Rows (show_nat (min (max (count_list (ci_Value item) (CHR 0x0A) + 1) 2) 12)), Text (ci_Value item)]
         else h_Input [h_Type ''text'', h_Name name, h_Value (ci_Value item), Attr ''form'' formID, h_Class ''bulk-value-input''])"

definition hidden_input :: "string \<Rightarrow> string \<Rightarrow> string \<Rightarrow> node" where
  "hidden_input formID name val = h_Input [h_Type ''hidden'', h_Name name, h_Value val, Attr ''form'' formID]"

definition bulk_display :: "externals \<Rightarrow> page_formats \<Rightarrow> ConfigItem \<Rightarrow> node" where
  "bulk_display x p item =
     (if \<not> ci_HasValue item then h_Span [h_Class ''value-empty'', Text ''<not set>'']
      else if ci_IsSecret item then h_Span [h_Class ''text-muted'', Text masked]
      else if ci_Value item = [] then h_Span [h_Class ''value-empty'', Text ''(empty string)'']
      else ValueDisplay x p (ci_Value item) (ci_Type item))"

definition BulkConfigCell :: "externals \<Rightarrow> page_formats \<Rightarrow> string \<Rightarrow> string \<Rightarrow> ConfigItem \<Rightarrow> node" where
  "BulkConfigCell x p formID idForUpdate item =
     h_Td [h_Div [h_Class ''config-value-display'', bulk_display x p item],
       h_Div [h_Class ''config-value-edit'', bulkValueWidget formID item,
         hidden_input formID BulkKeysField (ci_Key item),
         hidden_input formID (BulkTypeField (ci_Key item)) (ci_Type item),
         hidden_input formID (BulkOrigField (ci_Key item)) (ci_Value item),
         hidden_input formID (BulkIDField (ci_Key item)) idForUpdate]]"

definition ComputedValueCell :: "ConfigItem \<Rightarrow> node" where
  "ComputedValueCell item =
     (if ci_IsSecret item then h_Td [h_Span [h_Class ''text-muted'', Text masked]]
      else if \<not> ci_HasValue item then h_Td [h_Span [h_Class ''value-empty'', h_Title (ci_Template item), Text ''<not set>'']]
      else if ci_Value item = [] then h_Td [h_Span [h_Class ''value-empty'', h_Title (ci_Template item), Text ''(empty string)'']]
      else if IsMultilineValue (ci_Value item)
        then h_Td [h_Code [h_Class ''text-muted'', h_Title (ci_Template item), Text ''computed''], ReadonlyValueTextarea (ci_Value item)]
      else h_Td [h_Code [h_Title (ci_Template item), Text (ci_Value item)]])"

definition TemplateCell :: "ConfigItem \<Rightarrow> node" where
  "TemplateCell item = h_Td [h_Class ''template-cell'', h_Code [h_Class ''template-code text-muted'', Text (ci_Template item)]]"

definition ConfigActionsCell :: "node list \<Rightarrow> node" where
  "ConfigActionsCell children = h_Td [h_Class ''config-actions-col'', Group children]"

definition ConfigKebab :: "string \<Rightarrow> string \<Rightarrow> node list \<Rightarrow> node" where
  "ConfigKebab featureName configKey extraItems =
     (let kebabID = ''config-kebab-'' @ map (\<lambda>c. if c = CHR ''.'' then CHR ''-'' else c) configKey;
          compareURL = ''/features/'' @ featureName @ ''/config-compare/'' @ QueryEscape configKey
      in KebabWrap kebabID ([h_Button [h_Type ''button'', h_Class ''kebab-item'', Attr ''data-lazy-modal'' compareURL,
           Text ''Compare across environments'']] @ extraItems) [])"

definition StringEditor :: "externals \<Rightarrow> page_formats \<Rightarrow> string \<Rightarrow> node" where
  "StringEditor x p currentValue =
     (let (pretty, isJSON) = TryPrettyJSON x (pf_indent p) currentValue;
          display = (if isJSON then pretty else currentValue);
          rows = min (max (count_list display (CHR 0x0A) + 1) 4) 20;
          initialMode = (if isJSON then ''json'' else ''raw'');
          radio = (\<lambda>mode label. h_Label [h_Input [h_Type ''radio'', h_Name ''mode'', h_Value mode,
            g_If (initialMode = mode) (Attr ''checked'' ''checked''), Attr ''data-mode-toggle'' []], Text label])
      in Group [h_Div [h_Class ''value-editor-toolbar'', h_Label [Text ''Value''],
           h_Span [h_Class ''mode-toggle'', radio ''json'' '' JSON'', Text '' '', radio ''raw'' '' RAW'']],
         h_Textarea [h_Name ''value'', h_Rows (show_nat rows), Attr ''data-mode-target'' [], Text display]])"

definition ConfigValueEditor :: "externals \<Rightarrow> page_formats \<Rightarrow> ConfigItem \<Rightarrow> string \<Rightarrow> node" where
  "ConfigValueEditor x p item currentValue =
     (let t = strings_ToUpper (ci_Type item)
      in if t = ''BOOL'' then Group [h_Label [Text ''Value''], h_Select ([h_Name ''value''] @ bool_options currentValue)]
         else if t = ''INT'' then Group [h_Label [Text ''Value''], h_Input [h_Type ''number'', h_Name ''value'', h_Value currentValue]]
         else StringEditor x p currentValue)"

definition ConfigFormError :: node where
  "ConfigFormError = h_P [h_Class ''text-error config-form-error'', Attr ''data-config-form-error'' [], h_Style ''display:none'']"

definition ConfigEditPopover ::
  "externals \<Rightarrow> page_formats \<Rightarrow> string \<Rightarrow> string \<Rightarrow> string \<Rightarrow> string \<Rightarrow> ConfigItem \<Rightarrow> node list \<Rightarrow> node" where
  "ConfigEditPopover x p popoverID action title submitLabel item extraFields =
     Group [h_Button [h_Type ''button'', h_Class ''edit-icon'', Attr ''popovertarget'' popoverID, Text (utf [0xE2, 0x9C, 0x8E])],
       Popover popoverID [] title
         [h_Form [h_Method ''POST'', h_Action action, Attr ''data-config-form'' [], Group extraFields, h_Label [Text ''Configuration Key''],
            h_Input [h_Type ''text'', h_Value (ci_Key item), Attr ''disabled'' []],
            ConfigValueEditor x p item (ci_Value item), ConfigFormError,
            PopoverActions [h_Button [h_Type ''submit'', Text submitLabel]]]]]"

definition fallbackValueNode :: "string \<Rightarrow> node" where
  "fallbackValueNode v =
     (if CHR 0x0A \<in> set v then Group [h_P [h_Strong [Text ''Reverts to:'']], h_Pre [Text v]]
      else h_P [h_Strong [Text ''Reverts to: ''], h_Code [Text v]])"

definition ConfigDeleteConfirm :: "string \<Rightarrow> string \<Rightarrow> string \<Rightarrow> string \<Rightarrow> string \<Rightarrow> string \<Rightarrow> node" where
  "ConfigDeleteConfirm popoverID action title confirmLabel message fallbackValue =
     Popover popoverID [] title
       [g_If (message \<noteq> []) (h_P [Text message]), g_If (fallbackValue \<noteq> []) (fallbackValueNode fallbackValue),
        h_Form [h_Method ''POST'', h_Action action, PopoverActions [h_Button [h_Type ''submit'', Text confirmLabel]]]]"

definition ConfigDeletePopover :: "string \<Rightarrow> string \<Rightarrow> string \<Rightarrow> string \<Rightarrow> string \<Rightarrow> string \<Rightarrow> node" where
  "ConfigDeletePopover popoverID action title confirmLabel message fallbackValue =
     Group [h_Button [h_Type ''button'', h_Class ''edit-icon delete-icon'', Attr ''popovertarget'' popoverID, Text (utf [0xE2, 0x9C, 0x95])],
       ConfigDeleteConfirm popoverID action title confirmLabel message fallbackValue]"

section \<open>The configuration of a feature in an environment\<close>

definition featureBasePathForPage :: "FeaturePage \<Rightarrow> string" where
  "featureBasePathForPage page = featureBasePathValues (fp_TenantSlug page) (e_Name (fp_Environment page)) (f_Name (fp_Feature page))"

definition sourceBadge :: "externals \<Rightarrow> ConfigItem \<Rightarrow> node" where
  "sourceBadge x item =
     (let (cls, label, title) =
           (if ci_Source item = ConfigSourceEnv then (''source-badge source-env-set'', ''env config'', ''Set for this environment'')
            else if ci_Source item = ConfigSourceGlobal
              then (''source-badge'', ''global config'', ''Set for all environments (feature config)'')
            else if ci_IsComputed item
              then (if ci_IsConfigurable item
                then (''source-badge'', ''computed default'', ''Default is computed from a template '' @ utf [0xE2, 0x80, 0x94] @ '' set a value to override it'')
                else (''source-badge'', ''computed'', ''Computed from a template''))
            else if isEmptyConfigValue x (ci_Value item)
              then (''source-badge'', ''none'', ''No value set '' @ utf [0xE2, 0x80, 0x94] @ '' the chart declares this config but provides no default'')
            else (''source-badge'', ''values.yaml'', ''Chart default from values.yaml''))
      in h_Span [h_Class cls, h_Title title, Text label])"

definition sourceLabelCell :: "externals \<Rightarrow> ConfigItem \<Rightarrow> node" where
  "sourceLabelCell x item = h_Td [sourceBadge x item]"

definition sourceCell :: "externals \<Rightarrow> FeaturePage \<Rightarrow> ConfigItem \<Rightarrow> node" where
  "sourceCell x page item =
     (if ci_Source item \<noteq> ConfigSourceEnv then sourceLabelCell x item
      else let popoverID = ''clear-'' @ ci_ID item; action = featureBasePathForPage page @ ''/config/delete/'' @ ci_ID item
        in h_Td [sourceBadge x item,
          h_Button [h_Type ''button'', h_Class ''config-clear-btn'', Attr ''popovertarget'' popoverID,
            h_Title ''Clear this value and revert to the default'', Text ''Clear''],
          ConfigDeleteConfirm popoverID action ''Clear value'' ''Clear'' [] (ci_FallbackValue item)])"

definition computedRow :: "externals \<Rightarrow> FeaturePage \<Rightarrow> ConfigItem \<Rightarrow> node" where
  "computedRow x page item =
     (let testURL = ''/template-test?feature='' @ QueryEscape (f_Name (fp_Feature page)) @ ''&tenant='' @ QueryEscape (fp_TenantSlug page) @
            ''&env='' @ QueryEscape (e_Name (fp_Environment page)) @ ''&key='' @ QueryEscape (ci_Key item);
          extraKebab = (if ci_Template item \<noteq> [] then [h_A [h_Href testURL, h_Class ''kebab-item'', Text ''Test template'']] else [])
      in h_Tr [h_ID (''config-'' @ ci_Key item), h_Class ''config-row-computed'', ConfigKeyCell item, ComputedValueCell item,
           sourceLabelCell x item, h_Td [h_Class ''config-kebab-col'', ConfigKebab (f_Name (fp_Feature page)) (ci_Key item) extraKebab]])"

definition configurableRow :: "externals \<Rightarrow> page_formats \<Rightarrow> FeaturePage \<Rightarrow> string \<Rightarrow> ConfigItem \<Rightarrow> node" where
  "configurableRow x p page formID item =
     (let required = (case map_of (f_Values (fp_Feature page)) (ci_Key item) of None \<Rightarrow> False | Some v \<Rightarrow> v_Required v);
          warn = (required \<and> ci_Source item = ConfigSourceHelm \<and> isEmptyConfigValue x (ci_Value item));
          idForUpdate = (if ci_Source item = ConfigSourceEnv then ci_ID item else [])
      in h_Tr [h_ID (''config-'' @ ci_Key item), g_If warn (h_Class ''config-warning''), ConfigKeyCell item,
           BulkConfigCell x p formID idForUpdate item, sourceCell x page item,
           h_Td [h_Class ''config-kebab-col'', ConfigKebab (f_Name (fp_Feature page)) (ci_Key item) []]])"

definition staleRow :: "externals \<Rightarrow> page_formats \<Rightarrow> FeaturePage \<Rightarrow> ConfigItem \<Rightarrow> node" where
  "staleRow x p page item =
     (let popoverID = ''stale-del-'' @ ci_ID item;
          (action, message) =
           (if ci_Source item = ConfigSourceGlobal
            then (featureBasePathForPage page @ ''/config/delete-global/'' @ ci_ID item,
              ''This removes the global value for '' @ [CHR 0x22] @ ci_Key item @ [CHR 0x22] @ '' from all environments.'')
            else (featureBasePathForPage page @ ''/config/delete/'' @ ci_ID item,
              ''This removes the stored value for '' @ [CHR 0x22] @ ci_Key item @ [CHR 0x22] @ '' from this environment.''))
      in h_Tr [h_Class ''config-row-stale'', h_Td [h_Strong [Text (ci_Key item)]], ConfigValueCell x p item,
           h_Td [sourceBadge x item,
             h_Button [h_Type ''button'', h_Class ''config-clear-btn'', Attr ''popovertarget'' popoverID, h_Title ''Delete value'', Text ''Delete''],
             ConfigDeleteConfirm popoverID action ''Delete unused value'' ''Delete'' message []]])"

definition staleValuesSection :: "externals \<Rightarrow> page_formats \<Rightarrow> FeaturePage \<Rightarrow> ConfigItem list \<Rightarrow> node" where
  "staleValuesSection x p page items =
     (if length items = 0 then Absent
      else h_Div [h_Class ''config-stale-section'', h_H3 [Text ''Unused configuration''],
        h_P [h_Class ''text-muted'',
          Text ''These stored values are not declared in the current Feature.yaml, so they have no effect. They can be removed.''],
        h_Table [h_Class ''table config-stale-table'', h_THead [h_Tr [h_Th [Text ''Key''], h_Th [Text ''Value''], h_Th [Text ''Source'']]],
          h_TBody [Group (map (staleRow x p page) items)]]])"

definition config_form_id :: string where "config_form_id = ''config-batch-form''"

definition configTable :: "externals \<Rightarrow> page_formats \<Rightarrow> FeaturePage \<Rightarrow> ConfigItem list \<Rightarrow> ConfigItem list \<Rightarrow> ConfigItem list \<Rightarrow> node" where
  "configTable x p page configurable computed orphaned =
     (if length configurable = 0 \<and> length computed = 0 \<and> length orphaned = 0
      then h_Div [h_H3 [Text ''Configuration''], h_P [h_Class ''text-muted'', Text ''No configuration.'']]
      else let header = h_Div [h_Class ''config-section-header'', h_H3 [Text ''Configuration''],
            g_If (0 < length configurable) (h_Div [h_Class ''config-section-actions'',
              h_Button [h_Type ''button'', h_Class ''btn-small config-edit-toggle'', Attr ''data-config-edit-toggle'' [],
                Icon ''edit-values'', h_Span [Text ''Edit values'']],
              h_Form [h_ID config_form_id, h_Method ''POST'', h_Action (featureBasePathForPage page @ ''/config/batch''),
                h_Class ''config-edit-actions'', Attr ''data-config-form'' [], ConfigFormError,
                h_Button [h_Type ''submit'', h_Class ''btn-small config-save-btn'', Text ''Save changes''],
                h_Button [h_Type ''button'', h_Class ''btn-small'', Attr ''data-config-edit-cancel'' [], Text ''Cancel'']]])];
          rows = map (configurableRow x p page config_form_id) configurable @ map (computedRow x page) computed
        in h_Div [staleValuesSection x p page orphaned,
          h_Div [h_Class ''config-editable-section'', header,
            h_Table [h_Class ''table sortable config-table-env'', Attr ''data-sort-key'' ''env-feature-config'',
              h_THead [h_Tr [h_Th [Text ''Configuration Key''], h_Th [Text ''Value''], h_Th [Text ''Source''],
                h_Th [h_Class ''config-kebab-col'', Attr ''data-no-sort'' []]]],
              h_TBody [Group rows]]]])"

definition overviewTab :: "externals \<Rightarrow> page_formats \<Rightarrow> FeaturePage \<Rightarrow> node" where
  "overviewTab x p page =
     (let items = fp_ConfigItems page
      in h_Div [h_Class ''tab-content-wrapper env-feature-overview'',
           configTable x p page
             (filter (\<lambda>item. \<not> ci_IsOrphaned item \<and> ci_IsConfigurable item) items)
             (filter (\<lambda>item. \<not> ci_IsOrphaned item \<and> \<not> ci_IsConfigurable item) items)
             (filter ci_IsOrphaned items)])"

section \<open>The global configuration of a feature\<close>

record print_libs =
  pr_quote :: "string \<Rightarrow> string"
  pr_value :: "gval \<Rightarrow> string"

definition plain_item :: "string \<Rightarrow> string \<Rightarrow> string \<Rightarrow> string \<Rightarrow> ConfigItem" where
  "plain_item i key source val =
     \<lparr>ci_ID = i, ci_Key = key, ci_DisplayName = [], ci_Description = [], ci_Type = [], ci_Value = val, ci_HasValue = False, ci_Source = source,
      ci_FallbackValue = [], ci_Template = [], ci_IsSecret = False, ci_IsConfigurable = False, ci_IsComputed = False, ci_Required = False,
      ci_IsOrphaned = False, ci_MappedCount = 0\<rparr>"

definition populateFromValue :: "Value \<Rightarrow> ConfigItem \<Rightarrow> ConfigItem" where
  "populateFromValue val item0 =
     (let item = item0 \<lparr>ci_DisplayName := v_DisplayName val, ci_Description := v_Description val, ci_Required := v_Required val\<rparr>;
          item' = (case v_Config val of None \<Rightarrow> item
            | Some c \<Rightarrow> item \<lparr>ci_IsConfigurable := True, ci_IsSecret := cfg_Secret c, ci_Type := strings_ToUpper (cfg_Type c)\<rparr>)
      in case v_Computed val of None \<Rightarrow> item' | Some m \<Rightarrow> item' \<lparr>ci_IsComputed := True, ci_Template := cmp_Template m\<rparr>)"

definition stored_item :: "externals \<Rightarrow> page_formats \<Rightarrow> Feature \<Rightarrow> Configuration \<Rightarrow> ConfigItem" where
  "stored_item x p feat cfg =
     (let item = plain_item (uuid_String (conf_ID cfg)) (conf_Key cfg) (conf_Source cfg) (RawValueForDisplay x (pf_indent p) (conf_Content cfg))
      in case map_of (f_Values feat) (conf_Key cfg) of
           None \<Rightarrow> item \<lparr>ci_IsOrphaned := True\<rparr>
         | Some val \<Rightarrow>
             let item' = populateFromValue val item
             in if conf_Source cfg = ConfigSourceGlobal
                then (case map_of (f_ValuesYAML feat) (conf_Key cfg) of
                    Some raw \<Rightarrow> item' \<lparr>ci_FallbackValue := RawValueForDisplay x (pf_indent p) raw\<rparr> | None \<Rightarrow> item')
                else item')"

definition declared_item :: "externals \<Rightarrow> page_formats \<Rightarrow> Feature \<Rightarrow> string \<times> Value \<Rightarrow> ConfigItem" where
  "declared_item x p feat kv = (case kv of (key, val) \<Rightarrow>
     populateFromValue val (plain_item (uuid_String (pf_sha1 p (f_Name feat @ ''|'' @ key))) key ConfigSourceHelm
       (RawValueForDisplay x (pf_indent p) (default_value feat key))))"

definition loadGlobalConfigItems :: "externals \<Rightarrow> page_formats \<Rightarrow> io \<Rightarrow> Feature \<Rightarrow> db \<Rightarrow> err + ConfigItem list" where
  "loadGlobalConfigItems x p io feat d =
     bindE (GetGlobalConfig io (f_Name feat) d) (\<lambda>configs.
     Inr (sort_key (\<lambda>item. (ci_IsOrphaned item, ci_Key item))
       (map (stored_item x p feat) configs @
        map (declared_item x p feat) (filter (\<lambda>(key, val). \<not> List.member (map conf_Key configs) key) (f_Values feat)))))"

definition globalSourceLabel :: "ConfigItem \<Rightarrow> node" where
  "globalSourceLabel item =
     (let (label, title) = (if ci_Source item = ConfigSourceGlobal then (''global config'', ''Set for all environments (feature config)'')
        else (''values.yaml'', ''Chart default from values.yaml''))
      in h_Td [h_Span [h_Class ''source-label'', h_Title title, Text label]])"

definition globalDeleteButton :: "string \<Rightarrow> ConfigItem \<Rightarrow> node" where
  "globalDeleteButton featureName item =
     (if ci_Source item \<noteq> ConfigSourceGlobal then Absent
      else ConfigDeletePopover (''delete-'' @ ci_ID item) (''/features/'' @ featureName @ ''/config/'' @ ci_ID item @ ''/delete'')
        ''Remove Configuration'' ''Remove'' (''Remove global config for '' @ ci_Key item @ ''?'') (ci_FallbackValue item))"

definition globalConfigActionsCell :: "externals \<Rightarrow> page_formats \<Rightarrow> string \<Rightarrow> ConfigItem \<Rightarrow> node" where
  "globalConfigActionsCell x p featureName item =
     (if ci_Source item = ConfigSourceGlobal
      then Group [ConfigEditPopover x p (''edit-'' @ ci_ID item) (''/features/'' @ featureName @ ''/config/'' @ ci_ID item) ''Edit Global Config'' ''Save''
             item [h_Input [h_Type ''hidden'', h_Name ''type'', h_Value (ci_Type item)]],
           globalDeleteButton featureName item]
      else ConfigEditPopover x p (''set-'' @ ci_Key item) (''/features/'' @ featureName @ ''/config/set'') ''Set Global Config'' ''Save'' item
        [h_Input [h_Type ''hidden'', h_Name ''key'', h_Value (ci_Key item)], h_Input [h_Type ''hidden'', h_Name ''type'', h_Value (ci_Type item)]])"

definition globalConfigurableTable :: "externals \<Rightarrow> page_formats \<Rightarrow> string \<Rightarrow> ConfigItem list \<Rightarrow> node" where
  "globalConfigurableTable x p featureName items =
     (if length items = 0 then h_Div [h_H2 [Text ''Global configuration''], h_P [h_Class ''text-muted'', Text ''No configurable values.'']]
      else h_Div [h_H2 [Text ''Global configuration''],
        h_Table [h_Class ''table sortable config-table'', Attr ''data-sort-key'' ''feature-global-config'',
          h_THead [h_Tr [h_Th [Text ''Configuration Key''], h_Th [h_Class ''config-actions-col'', Attr ''data-no-sort'' []], h_Th [Text ''Value''],
            h_Th [Text ''Source''], h_Th [h_Class ''config-kebab-col'', Attr ''data-no-sort'' []]]],
          h_TBody [Group (map (\<lambda>item. h_Tr [h_ID (''config-'' @ ci_Key item), ConfigKeyCell item,
            ConfigActionsCell [globalConfigActionsCell x p featureName item], ConfigValueCell x p item, globalSourceLabel item,
            h_Td [h_Class ''config-kebab-col'', ConfigKebab featureName (ci_Key item) []]]) items)]]])"

definition globalComputedTable :: "string \<Rightarrow> ConfigItem list \<Rightarrow> node" where
  "globalComputedTable featureName items =
     (if length items = 0 then Absent
      else h_Div [h_H2 [Text ''Computed''],
        h_Table [h_Class ''table sortable config-table computed-template-table'', Attr ''data-sort-key'' ''feature-global-computed'',
          h_THead [h_Tr [h_Th [Text ''Configuration Key''], h_Th [Text ''Template''], h_Th [h_Class ''config-kebab-col'', Attr ''data-no-sort'' []]]],
          h_TBody [Group (map (\<lambda>item. h_Tr [h_ID (''config-'' @ ci_Key item), ConfigKeyCell item, TemplateCell item,
            h_Td [h_Class ''config-kebab-col'', ConfigKebab featureName (ci_Key item) []]]) items)]]])"

definition orphanedConfigTable :: "print_libs \<Rightarrow> string \<Rightarrow> ConfigItem list \<Rightarrow> node" where
  "orphanedConfigTable pr featureName items =
     (if length items = 0 then Absent
      else h_Div [h_Class ''config-stale-section'', h_H2 [Text ''Unused configuration''],
        h_P [h_Class ''text-muted'',
          Text ''These stored global values are not declared in the current Feature.yaml, so they have no effect. They can be removed.''],
        h_Table [h_Class ''table config-stale-table'',
          h_THead [h_Tr [h_Th [Text ''Key''], h_Th [Text ''Value''], h_Th [Attr ''data-no-sort'' []]]],
          h_TBody [Group (map (\<lambda>item.
            let popoverID = ''delete-unused-'' @ ci_ID item
            in h_Tr [h_Class ''config-row-stale'', h_Td [h_Strong [Text (ci_Key item)]], h_Td [Text (ci_Value item)],
              h_Td [h_Button [h_Type ''button'', h_Class ''config-clear-btn'', Attr ''popovertarget'' popoverID, Text ''Delete''],
                ConfigDeleteConfirm popoverID (''/features/'' @ featureName @ ''/config/'' @ ci_ID item @ ''/delete'') ''Delete unused value'' ''Delete''
                  (''This removes the global value for '' @ pr_quote pr (ci_Key item) @ '' from all environments.'') []]]) items)]]])"

definition globalConfigContent :: "externals \<Rightarrow> page_formats \<Rightarrow> print_libs \<Rightarrow> string \<Rightarrow> ConfigItem list \<Rightarrow> node" where
  "globalConfigContent x p pr featureName items =
     Group [globalConfigurableTable x p featureName (filter (\<lambda>item. \<not> ci_IsOrphaned item \<and> \<not> ci_IsComputed item) items),
       globalComputedTable featureName (filter (\<lambda>item. \<not> ci_IsOrphaned item \<and> ci_IsComputed item) items),
       orphanedConfigTable pr featureName (filter ci_IsOrphaned items)]"

section \<open>A key over all environments\<close>

record compareRow =
  cmp_TenantName :: string
  cmp_EnvName :: string
  cmp_Value :: string
  cmp_Source :: string
  cmp_IsSecret :: bool
  cmp_EnvHref :: string

record configCompareEnv =
  cce_ID :: uuid
  cce_Name :: string
  cce_TenantName :: string

fun targeted_once :: "FeatureAssignment list \<Rightarrow> uuid list \<Rightarrow> (Environment \<times> string \<times> uuid) list \<Rightarrow> configCompareEnv list" where
  "targeted_once deps seen [] = []"
| "targeted_once deps seen ((e, tenantName, tenantID) # envs) =
     (if list_ex (\<lambda>dep. targetMatchesLabels (as_TargetLabels dep) (e_Labels e)) deps \<and> \<not> List.member seen (e_ID e)
      then \<lparr>cce_ID = e_ID e, cce_Name = e_Name e, cce_TenantName = tenantName\<rparr> # targeted_once deps (e_ID e # seen) envs
      else targeted_once deps seen envs)"

definition featureEnvironments :: "externals \<Rightarrow> io \<Rightarrow> Feature \<Rightarrow> db \<Rightarrow> err + configCompareEnv list" where
  "featureEnvironments x io feat d =
     bindE (ListByFeature x io (f_Name feat) d) (\<lambda>all.
     bindE (ListTenantEnvironments io False d) (\<lambda>tenantEnvs.
     Inr (sort_key (\<lambda>e. (cce_TenantName e, cce_Name e)) (targeted_once (features_latestAssignmentPerTarget all) [] tenantEnvs))))"

definition lookupRenderedValue :: "print_libs \<Rightarrow> gmap \<Rightarrow> string \<Rightarrow> string option" where
  "lookupRenderedValue pr m key =
     (case SmartDotSplit key of
        Inl e \<Rightarrow> None
      | Inr keys \<Rightarrow> if length keys = 0 then None
          else case lookup_path (GMap m) keys of
              None \<Rightarrow> None | Some (GStr v) \<Rightarrow> Some v | Some GNil \<Rightarrow> Some [] | Some v \<Rightarrow> Some (pr_value pr v))"

definition compare_row :: "Feature \<Rightarrow> string \<Rightarrow> bool \<Rightarrow> configCompareEnv \<Rightarrow> string \<times> string \<Rightarrow> compareRow" where
  "compare_row feat key secret env shown =
     \<lparr>cmp_TenantName = cce_TenantName env, cmp_EnvName = cce_Name env, cmp_Value = fst shown, cmp_Source = snd shown, cmp_IsSecret = secret,
      cmp_EnvHref = ''/features/'' @ f_Name feat @ ''/envs/'' @ cce_TenantName env @ ''/'' @ cce_Name env @ ''/config#config-'' @ key\<rparr>"

definition compareKeyAcrossEnvs ::
  "externals \<Rightarrow> page_formats \<Rightarrow> print_libs \<Rightarrow> string \<Rightarrow> io \<Rightarrow> Feature \<Rightarrow> string \<Rightarrow> configCompareEnv list \<Rightarrow> db \<Rightarrow> err + compareRow list" where
  "compareKeyAcrossEnvs x p pr aud io feat key envs d =
     (let val = map_of (f_Values feat) key;
          isComputed = (case val of None \<Rightarrow> False | Some v \<Rightarrow> v_Computed v \<noteq> None);
          isSecret = (case val of None \<Rightarrow> False | Some v \<Rightarrow> (case v_Config v of None \<Rightarrow> False | Some c \<Rightarrow> cfg_Secret c));
          show = RawValueForDisplay x (pf_indent p)
      in bindE (GetGlobalConfig io (f_Name feat) d) (\<lambda>globalConfigs.
         let globalValue = map_option conf_Content (find (\<lambda>gc. conf_Key gc = key) globalConfigs)
         in bindE (ListAllEnvConfigByFeature io (f_Name feat) d) (\<lambda>envOverrides.
            let byEnv = index_by fst (\<lambda>(env, k, content). content) (filter (\<lambda>(env, k, content). k = key) envOverrides);
                helmDefault = show (default_value feat key);
                rows = (if isComputed
                  then map (\<lambda>env. compare_row feat key False env
                    (case HelmValues x aud io feat (cce_ID env) d of
                       Inl e \<Rightarrow> (''(render error)'', ''mapping'')
                     | Inr rendered \<Rightarrow> (case lookupRenderedValue pr rendered key of
                         Some v \<Rightarrow> (v, ''mapping'') | None \<Rightarrow> (utf [0xE2, 0x80, 0x94], ''mapping'')))) envs
                  else map (\<lambda>env. compare_row feat key isSecret env
                    (case map_of byEnv (cce_ID env) of
                       Some raw \<Rightarrow> (show raw, ''env config'')
                     | None \<Rightarrow> (case globalValue of
                         Some raw \<Rightarrow> (show raw, ''global config'') | None \<Rightarrow> (helmDefault, ''helm value'')))) envs)
            in Inr (sort_key (\<lambda>r. (cmp_TenantName r, cmp_EnvName r)) rows))))"

definition ConsensusCell :: "Emphasis \<Rightarrow> node list \<Rightarrow> node" where
  "ConsensusCell e content =
     (if e = EmphasisOutlier then h_Span ([h_Class ''cell-outlier''] @ content)
      else if e = EmphasisConsensus then h_Span ([h_Class ''cell-consensus''] @ content) else Group content)"

definition compareValueNode :: "nat \<Rightarrow> string \<Rightarrow> node" where
  "compareValueNode idx val =
     (let i = ''compare-val-'' @ show_nat idx
      in h_Span [h_Class ''compare-value-wrap'', h_Span [h_Class ''compare-value compare-value-truncated'', h_ID i, Text val],
           h_Button [h_Type ''button'', h_Class ''copy-btn copy-btn-icon'', Attr ''data-copy-target'' i, Attr ''aria-label'' ''Copy value'',
             h_Title ''Copy value'', Icon ''copy-value'']])"

definition configCompareRows :: "compareRow list \<Rightarrow> node list" where
  "configCompareRows rows =
     (let valEmph = ColumnConsensus (map cmp_Value rows); srcEmph = ColumnConsensus (map cmp_Source rows)
      in map (\<lambda>(i, row). h_Tr
           [h_Td [h_A [h_Href (cmp_EnvHref row), h_Strong [Text (cmp_TenantName row)], Text '' / '', Text (cmp_EnvName row)]],
            h_Td [ConsensusCell (valEmph ! i) [compareValueNode i (cmp_Value row)]],
            h_Td [ConsensusCell (srcEmph ! i) [h_Span [h_Class ''source-label'', Text (cmp_Source row)]]]]) (enumerate 0 rows))"

definition configCompareFragment :: "string \<Rightarrow> Feature \<Rightarrow> compareRow list \<Rightarrow> node" where
  "configCompareFragment key feat rows =
     (let displayName = (case map_of (f_Values feat) key of None \<Rightarrow> key | Some v \<Rightarrow> if v_DisplayName v \<noteq> [] then v_DisplayName v else key)
      in if length rows = 0
         then h_Div [h_Class ''modal-body'', h_H3 [Text displayName], h_P [h_Class ''text-muted'', Text ''Not deployed to any environments.'']]
         else h_Div [h_Class ''modal-body'', h_H3 [Text displayName],
           g_If (displayName \<noteq> key) (h_P [h_Class ''text-muted text-sm'', h_Code [Text key]]),
           h_Table [h_Class ''table table-compact'', h_THead [h_Tr [h_Th [Text ''Environment''], h_Th [Text ''Value''], h_Th [Text ''Source'']]],
             h_TBody [Group (configCompareRows rows)]]])"

definition ConfigCompareHandler :: "externals \<Rightarrow> page_formats \<Rightarrow> print_libs \<Rightarrow> string \<Rightarrow> io \<Rightarrow> request \<Rightarrow> db \<Rightarrow> node reply" where
  "ConfigCompareHandler x p pr aud io r d =
     (case FeatureByName x io (URLParam r ''feature'') d of
        Inl e \<Rightarrow> HttpError 404 ''Feature not found''
      | Inr feat \<Rightarrow> (case featureEnvironments x io feat d of
          Inl e \<Rightarrow> HttpError 500 ''Failed to load environments''
        | Inr envs \<Rightarrow> (case compareKeyAcrossEnvs x p pr aud io feat (URLParam r ''key'') envs d of
            Inl e \<Rightarrow> fails_with 500 ''Failed to compare: '' e
          | Inr rows \<Rightarrow> Reply 200 (configCompareFragment (URLParam r ''key'') feat rows))))"

section \<open>A form that is submitted untouched\<close>

text \<open>
  The entries a browser submits for the controls that belong to a form, as they are rendered: the selected option of a list or its first
  one, a text input without line breaks, a text area without a leading line break and with its line breaks made uniform. How line breaks
  are encoded in a submission is \<open>nl\<close>.
\<close>

fun attr_of :: "string \<Rightarrow> node list \<Rightarrow> string option" where
  "attr_of k [] = None"
| "attr_of k (Attr a v # ns) = (if a = k then Some v else attr_of k ns)"
| "attr_of k (n # ns) = attr_of k ns"

fun options :: "node \<Rightarrow> (string \<times> bool) list" where
  "options (El tag ns) = [((case attr_of ''value'' ns of None \<Rightarrow> [] | Some v \<Rightarrow> v), attr_of ''selected'' ns \<noteq> None)]"
| "options (Group ns) = concat (map options ns)"
| "options n = []"

fun texts :: "node \<Rightarrow> string" where
  "texts (Text t) = t"
| "texts (Group ns) = concat (map texts ns)"
| "texts n = []"

definition selected_option :: "(string \<times> bool) list \<Rightarrow> string" where
  "selected_option os = (case find snd os of Some (v, _) \<Rightarrow> v | None \<Rightarrow> (case os of [] \<Rightarrow> [] | (v, _) # _ \<Rightarrow> v))"

fun unix_newlines :: "string \<Rightarrow> string" where
  "unix_newlines [] = []"
| "unix_newlines (c # s) =
     (if c = CHR 0x0D then if s \<noteq> [] \<and> hd s = CHR 0x0A then unix_newlines s else CHR 0x0A # unix_newlines s
      else c # unix_newlines s)"

definition control_value :: "string \<Rightarrow> node list \<Rightarrow> string" where
  "control_value tag ns =
     (if tag = ''select'' then selected_option (concat (map options ns))
      else if tag = ''textarea'' then (case unix_newlines (concat (map texts ns)) of [] \<Rightarrow> [] | c # s \<Rightarrow> if c = CHR 0x0A then s else c # s)
      else let v = (case attr_of ''value'' ns of None \<Rightarrow> [] | Some v \<Rightarrow> v)
        in if attr_of ''type'' ns = Some ''hidden'' then v else filter (\<lambda>c. c \<noteq> CHR 0x0A \<and> c \<noteq> CHR 0x0D) v)"

fun form_entries :: "(string \<Rightarrow> string) \<Rightarrow> string \<Rightarrow> node \<Rightarrow> (string \<times> string) list" where
  "form_entries nl form (El tag ns) =
     (if List.member [''input'', ''select'', ''textarea''] tag
      then (case attr_of ''name'' ns of
          Some name \<Rightarrow> if attr_of ''form'' ns = Some form then [(name, nl (control_value tag ns))] else []
        | None \<Rightarrow> [])
      else concat (map (form_entries nl form) ns))"
| "form_entries nl form (Group ns) = concat (map (form_entries nl form) ns)"
| "form_entries nl form n = []"

text \<open>Values that an editor shows as they are.\<close>

definition shown_as_is :: "ConfigItem \<Rightarrow> bool" where
  "shown_as_is item \<longleftrightarrow> (let v = ci_Value item; t = strings_ToUpper (ci_Type item)
     in CHR 0x0D \<notin> set v \<and> (v \<noteq> [] \<longrightarrow> hd v \<noteq> CHR 0x0A) \<and>
        (t = ''BOOL'' \<longrightarrow> v = [] \<or> v = ''true'' \<or> v = ''false'') \<and> (t = ''INT'' \<longrightarrow> CHR 0x0A \<notin> set v))"

lemma unix_newlines_id: "CHR 0x0D \<notin> set s \<Longrightarrow> unix_newlines s = s"
  by (induction s) auto

lemma widget_entry:
  assumes "shown_as_is item"
  shows "form_entries nl form (bulkValueWidget form item) = [(BulkValueField (ci_Key item), nl (ci_Value item))]"
proof -
  note plain = assms[unfolded shown_as_is_def Let_def]
  have trim: "strings_TrimSpace [] = []" "strings_TrimSpace ''true'' \<noteq> []" "strings_TrimSpace ''false'' \<noteq> []"
    by (simp_all add: strings_TrimSpace_def is_space_def)
  have options: "concat (map options (bool_options v)) =
      (if strings_TrimSpace v = [] then [([], True)] else []) @ [(''true'', v = ''true''), (''false'', v = ''false'')]" for v
    by (simp add: bool_options_def Option_def notSetOption_def)
  have select: "selected_option (concat (map options [h_Name n, Attr ''form'' form, h_Class ''bulk-value-input'',
        Group (bool_options (ci_Value item))])) = ci_Value item"
    if "strings_ToUpper (ci_Type item) = ''BOOL''" for n
  proof -
    have "ci_Value item = [] \<or> ci_Value item = ''true'' \<or> ci_Value item = ''false''" using plain that by blast
    then show ?thesis by (elim disjE) (simp_all add: options selected_option_def trim)
  qed
  have kept: "(case unix_newlines v of [] \<Rightarrow> [] | c # s \<Rightarrow> if c = CHR 0x0A then s else c # s) = v"
    if "CHR 0x0D \<notin> set v" "v \<noteq> [] \<longrightarrow> hd v \<noteq> CHR 0x0A" for v
    using that by (simp add: unix_newlines_id) (cases v; simp)
  have one_line: "filter (\<lambda>c. c \<noteq> CHR 0x0A \<and> c \<noteq> CHR 0x0D) (ci_Value item) = ci_Value item" if "\<not> IsMultilineValue (ci_Value item)"
    using plain that by (intro filter_True) (auto simp: IsMultilineValue_def)
  consider (bool) "strings_ToUpper (ci_Type item) = ''BOOL''" | (int) "strings_ToUpper (ci_Type item) = ''INT''"
    | (area) "strings_ToUpper (ci_Type item) \<noteq> ''BOOL''" "strings_ToUpper (ci_Type item) \<noteq> ''INT''" "IsMultilineValue (ci_Value item)"
    | (line) "strings_ToUpper (ci_Type item) \<noteq> ''BOOL''" "strings_ToUpper (ci_Type item) \<noteq> ''INT''" "\<not> IsMultilineValue (ci_Value item)" by blast
  then show ?thesis
  proof cases
    case bool
    then show ?thesis using select [OF bool] by (simp add: bulkValueWidget_def control_value_def)
  next
    case int
    then have "\<not> IsMultilineValue (ci_Value item)" using plain by (simp add: IsMultilineValue_def)
    then show ?thesis using int one_line by (simp add: bulkValueWidget_def control_value_def)
  next
    case area
    then show ?thesis using plain kept [of "ci_Value item"]
      by (simp add: bulkValueWidget_def control_value_def)
  next
    case line
    then show ?thesis using one_line by (simp add: bulkValueWidget_def control_value_def)
  qed
qed

lemma no_entries [simp]:
  "form_entries nl form (ConfigKeyCell item) = []" "form_entries nl form (ValueDisplay x p v t) = []"
  "form_entries nl form (ConfigKebab f k []) = []" "form_entries nl form (sourceBadge x item) = []"
  by (auto simp: ConfigKeyCell_def ValueDisplay_def ReadonlyValueTextarea_def ConfigKebab_def KebabWrap_def KebabButton_def KebabMenu_def
      sourceBadge_def Let_def split: prod.split)

lemma no_entries_confirm [simp]: "form_entries nl form (ConfigDeleteConfirm i a t c m v) = []"
  by (simp add: ConfigDeleteConfirm_def Popover_def PopoverWithHeaderActions_def popoverHeader_def PopoverCloseButton_def PopoverActions_def
      fallbackValueNode_def)

lemma no_entries_cells [simp]:
  "form_entries nl form (sourceCell x page item) = []" "form_entries nl form (computedRow x page item) = []"
  "form_entries nl form (staleRow x p page item) = []" "form_entries nl form (bulk_display x p item) = []"
  by (simp_all add: sourceCell_def sourceLabelCell_def computedRow_def ComputedValueCell_def ReadonlyValueTextarea_def ConfigKebab_def
      KebabWrap_def KebabButton_def KebabMenu_def staleRow_def ConfigValueCell_def bulk_display_def Let_def split: prod.split)

definition row_entries :: "(string \<Rightarrow> string) \<Rightarrow> ConfigItem \<Rightarrow> (string \<times> string) list" where
  "row_entries nl item =
     [(BulkValueField (ci_Key item), nl (ci_Value item)), (BulkKeysField, nl (ci_Key item)), (BulkTypeField (ci_Key item), nl (ci_Type item)),
      (BulkOrigField (ci_Key item), nl (ci_Value item)),
      (BulkIDField (ci_Key item), nl (if ci_Source item = ConfigSourceEnv then ci_ID item else []))]"

lemma configurableRow_entries:
  assumes "shown_as_is item"
  shows "form_entries nl form (configurableRow x p page form item) = row_entries nl item"
  by (simp add: configurableRow_def BulkConfigCell_def hidden_input_def control_value_def row_entries_def widget_entry [OF assms] Let_def)

abbreviation configurable_items :: "FeaturePage \<Rightarrow> ConfigItem list" where
  "configurable_items page \<equiv> filter (\<lambda>item. \<not> ci_IsOrphaned item \<and> ci_IsConfigurable item) (fp_ConfigItems page)"

lemma concat_map_Nil: "concat (map (\<lambda>_. []) xs) = []"
  by simp

lemma overviewTab_entries:
  assumes "list_all shown_as_is (configurable_items page)"
  shows "form_entries nl config_form_id (overviewTab x p page) = concat (map (row_entries nl) (configurable_items page))"
proof -
  have rows: "concat (map (\<lambda>item. form_entries nl config_form_id (configurableRow x p page config_form_id item)) (configurable_items page)) =
      concat (map (row_entries nl) (configurable_items page))"
    using assms by (intro arg_cong [where f = concat] map_cong refl configurableRow_entries) (auto simp: list_all_iff)
  show ?thesis
    by (auto simp: overviewTab_def configTable_def staleValuesSection_def ConfigFormError_def Let_def comp_def concat_map_Nil rows)
qed

lemma posted_rows:
  assumes "re_PostForm r = group_by fst snd (concat (map (row_entries nl) items))"
  shows "PostFormValue r (BulkValueField k) = PostFormValue r (BulkOrigField k)"
    and "gm_list (re_PostForm r) BulkKeysField = map (\<lambda>item. nl (ci_Key item)) items"
proof -
  have pick: "filter (\<lambda>e. fst e = n) (concat (map (row_entries nl) items)) = concat (map (\<lambda>item. filter (\<lambda>e. fst e = n) (row_entries nl item)) items)"
    for n by (simp add: filter_concat comp_def)
  have field: "concat (map (\<lambda>item. if ci_Key item = k then [(n, f item)] else []) items) =
      map (\<lambda>item. (n, f item)) (filter (\<lambda>item. ci_Key item = k) items)" for n and f :: "ConfigItem \<Rightarrow> string"
    by (induction items) auto
  have names: "filter (\<lambda>e. fst e = BulkValueField k) (row_entries nl item) = (if ci_Key item = k then [(BulkValueField k, nl (ci_Value item))] else [])"
    "filter (\<lambda>e. fst e = BulkOrigField k) (row_entries nl item) = (if ci_Key item = k then [(BulkOrigField k, nl (ci_Value item))] else [])"
    "filter (\<lambda>e. fst e = BulkKeysField) (row_entries nl item) = [(BulkKeysField, nl (ci_Key item))]" for item
    by (simp_all add: row_entries_def BulkValueField_def BulkOrigField_def BulkKeysField_def BulkTypeField_def BulkIDField_def)
  have lists: "gm_list (re_PostForm r) (BulkValueField k) = gm_list (re_PostForm r) (BulkOrigField k)"
    unfolding assms gm_list_group_by pick names field by (simp add: comp_def)
  have "first_value (group_by fst snd es) n = (case gm_list (group_by fst snd es) n of [] \<Rightarrow> [] | v # vs \<Rightarrow> v)" for es n
    by (simp add: first_value_def gm_list_def split: option.split list.split)
  then show "PostFormValue r (BulkValueField k) = PostFormValue r (BulkOrigField k)"
    using lists by (simp add: PostFormValue_def assms)
  show "gm_list (re_PostForm r) BulkKeysField = map (\<lambda>item. nl (ci_Key item)) items"
    unfolding assms gm_list_group_by pick names by (induction items) simp_all
qed

lemma batch_keys_untouched:
  assumes "\<And>k. PostFormValue r (BulkValueField k) = PostFormValue r (BulkOrigField k)"
  shows "batch_keys x l io r envID feat ks i n d = (Inr n, d)"
  by (induction ks arbitrary: i) (simp_all add: batch_key_def assms bindT_def returnT_def)

text \<open>
  C24. Saving the configuration form of a feature in an environment without touching it changes nothing: when the browser submits the
  controls of the page as they are rendered, the handler is told of every configurable key, and writes no row, wakes no
  reconciler and adds no audit row, whatever the tables are by then. This holds when the values have no carriage return, do not begin with a line break,
  and are boolean where the type is.
\<close>

theorem untouched_form_changes_nothing:
  assumes "list_all shown_as_is (configurable_items page)" and "list_all (\<lambda>item. nl (ci_Key item) = ci_Key item) (configurable_items page)"
    and "re_PostForm r = group_by fst snd (form_entries nl config_form_id (overviewTab x p page))"
  shows "gm_list (re_PostForm r) BulkKeysField = map ci_Key (configurable_items page) \<and> snd (BatchUpdateConfigHandler x l io r st) = st"
proof -
  have posted: "re_PostForm r = group_by fst snd (concat (map (row_entries nl) (configurable_items page)))"
    using assms(3) by (simp add: overviewTab_entries [OF assms(1)])
  have keys: "gm_list (re_PostForm r) BulkKeysField = map ci_Key (configurable_items page)"
    using posted_rows(2) [OF posted] assms(2) by (simp add: list_all_iff)
  note batch = batch_keys_untouched [of r, OF posted_rows(1) [OF posted]]
  have "snd (BatchUpdateConfigHandler x l io r st) = st"
    by (auto simp: BatchUpdateConfigHandler_def WithTx_def on_tables_def batch Let_def split: sum.split prod.split)
  then show ?thesis using keys by blast
qed

definition example_item :: ConfigItem where
  "example_item = plain_item ''7'' ''replicas'' ConfigSourceEnv ''2'' \<lparr>ci_IsConfigurable := True, ci_Type := ''INT''\<rparr>"

definition example_formats :: page_formats where
  "example_formats = \<lparr>pf_details = (\<lambda>s. Inl (Errorf s)), pf_sha1 = length, pf_indent = \<lparr>ji_Indent = Inr, ji_MarshalIndent = (\<lambda>v. Inr [])\<rparr>,
     pf_oslo = show_int, pf_rank = (\<lambda>_ _. 0)\<rparr>"

theorem untouched_form_changes_nothing_witness:
  "\<forall>(page :: FeaturePage) l io st. let r = example_request \<lparr>re_PostForm := group_by fst snd (form_entries id config_form_id
        (overviewTab example_externals example_formats (page \<lparr>fp_ConfigItems := [example_item]\<rparr>)))\<rparr>
     in gm_list (re_PostForm r) BulkKeysField = [''replicas''] \<and> snd (BatchUpdateConfigHandler example_externals l io r st) = st"
proof (intro allI, unfold Let_def)
  fix page :: FeaturePage and l io st
  let ?page = "page \<lparr>fp_ConfigItems := [example_item]\<rparr>"
  let ?r = "example_request \<lparr>re_PostForm := group_by fst snd (form_entries id config_form_id (overviewTab example_externals example_formats ?page))\<rparr>"
  have items: "configurable_items ?page = [example_item]" by (simp add: example_item_def plain_item_def)
  have "list_all shown_as_is (configurable_items ?page)" unfolding items
    by (simp add: shown_as_is_def example_item_def plain_item_def strings_ToUpper_def)
  moreover have "list_all (\<lambda>item. id (ci_Key item) = ci_Key item) (configurable_items ?page)" unfolding items by simp
  moreover have "re_PostForm ?r = group_by fst snd (form_entries id config_form_id (overviewTab example_externals example_formats ?page))" by simp
  ultimately have "gm_list (re_PostForm ?r) BulkKeysField = map ci_Key (configurable_items ?page) \<and>
      snd (BatchUpdateConfigHandler example_externals l io ?r st) = st"
    by (rule untouched_form_changes_nothing)
  then show "gm_list (re_PostForm ?r) BulkKeysField = [''replicas''] \<and> snd (BatchUpdateConfigHandler example_externals l io ?r st) = st"
    unfolding items by (simp add: example_item_def plain_item_def)
qed

section \<open>A key over all environments\<close>

text \<open>The rows of a table with unique keys that a statement selects hold at most the one row of a key, in whatever order.\<close>

lemma find_by_key:
  assumes "distinct (map f xs)" and "\<And>y. y \<in> set ys \<and> Q y \<longleftrightarrow> y \<in> set xs \<and> f y = k"
  shows "find Q ys = find (\<lambda>y. f y = k) xs"
proof (cases "find Q ys")
  case None
  then have "find (\<lambda>y. f y = k) xs = None" using assms(2) by (auto simp: find_None_iff)
  then show ?thesis using None by simp
next
  case (Some y)
  then have "y \<in> set xs" "f y = k" using assms(2) by (auto dest!: find_SomeD)
  then show ?thesis using find_unique [OF assms(1), of y] Some by simp
qed

lemma stored_lookup:
  assumes "distinct (map c_key (configurations_environment d))" and "distinct (map g_key (configurations_global d))"
    and "GetEnvConfig io name envID d = Inr stored"
  shows "find (\<lambda>c. conf_Key c = key) stored =
    (case find (\<lambda>r. c_key r = (envID, name, key)) (configurations_environment d) of
       Some r \<Rightarrow> Some \<lparr>conf_ID = c_ID r, conf_Key = key, conf_Content = c_Value r, conf_Created = c_Created r, conf_Source = ConfigSourceEnv\<rparr>
     | None \<Rightarrow> (case find (\<lambda>r. g_key r = (name, key)) (configurations_global d) of
         Some r \<Rightarrow> Some \<lparr>conf_ID = g_ID r, conf_Key = key, conf_Content = g_Value r, conf_Created = g_Created r, conf_Source = ConfigSourceGlobal\<rparr>
       | None \<Rightarrow> None))"
proof -
  let ?f = "\<lambda>conf. \<lparr>conf_ID = m_ID conf, conf_Key = m_Key conf, conf_Content = m_Value conf, conf_Created = m_Created conf,
    conf_Source = (if m_EnvironmentID conf \<noteq> None then ConfigSourceEnv else ConfigSourceGlobal)\<rparr>"
  let ?g = "ListGlobalConfigByFeature name d" and ?e = "ListEnvConfigByFeature name envID d"
  have stored: "stored = map ?f (MergeConfigs ?g ?e [])" using assms(3) by (auto simp: GetEnvConfig_def bindE_eq_Inr query_def split: if_splits)
  have find_map: "find P (map h xs) = map_option h (find (\<lambda>x. P (h x)) xs)" for P and h :: "'x \<Rightarrow> 'y" and xs by (induction xs) auto
  have env: "last_row key (map merged_of_env ?e) = map_option merged_of_env (find (\<lambda>r. c_key r = (envID, name, key)) (configurations_environment d))"
    unfolding last_row_def rev_map find_map merged_of_simps
    by (subst find_by_key [OF assms(1), of _ _ "(envID, name, key)"]) (auto simp: ListEnvConfigByFeature_def c_key_def)
  have glob: "last_row key (map merged_of_global ?g) = map_option merged_of_global (find (\<lambda>r. g_key r = (name, key)) (configurations_global d))"
    unfolding last_row_def rev_map find_map merged_of_simps
    by (subst find_by_key [OF assms(2), of _ _ "(name, key)"]) (auto simp: ListGlobalConfigByFeature_def g_key_def)
  have "find (\<lambda>c. conf_Key c = key) stored = map_option ?f (merged_lookup (MergeConfigs ?g ?e []) key)"
    unfolding stored find_map merged_lookup_def by simp
  also have "merged_lookup (MergeConfigs ?g ?e []) key = (case last_row key (map merged_of_env ?e) of Some r \<Rightarrow> Some r | None \<Rightarrow> last_row key (map merged_of_global ?g))"
    unfolding mergeConfigRows_MergeConfigs [symmetric] mergeConfigRows_lookup by (simp add: include_row_def)
  finally show ?thesis unfolding env glob
    by (auto simp: merged_of_env_def merged_of_global_def c_key_def g_key_def split: option.split dest: find_SomeD)
qed

text \<open>What the form of an environment shows for a key that is not computed: the row of the environment, the global row, the default.\<close>

definition key_content :: "Feature \<Rightarrow> string \<Rightarrow> uuid \<Rightarrow> db \<Rightarrow> string \<times> string" where
  "key_content feat key envID d =
     (case find (\<lambda>r. c_key r = (envID, f_Name feat, key)) (configurations_environment d) of
        Some r \<Rightarrow> (c_Value r, ConfigSourceEnv)
      | None \<Rightarrow> (case find (\<lambda>r. g_key r = (f_Name feat, key)) (configurations_global d) of
          Some r \<Rightarrow> (g_Value r, ConfigSourceGlobal) | None \<Rightarrow> (default_value feat key, ConfigSourceHelm)))"

lemma content_row_key:
  assumes "distinct (map c_key (configurations_environment d))" and "distinct (map g_key (configurations_global d))"
    and "GetEnvConfig io (f_Name feat) envID d = Inr stored"
  shows "(conf_Content (content_row p feat stored key), conf_Source (content_row p feat stored key)) = key_content feat key envID d"
  by (simp add: content_row_def stored_lookup [OF assms] key_content_def split: option.split)

definition source_text :: "string \<Rightarrow> string" where
  "source_text source = (if source = ConfigSourceEnv then ''env config'' else if source = ConfigSourceGlobal then ''global config'' else ''helm value'')"

lemma source_distinct: "ConfigSourceGlobal \<noteq> ConfigSourceEnv" "ConfigSourceHelm \<noteq> ConfigSourceEnv" "ConfigSourceHelm \<noteq> ConfigSourceGlobal"
  by (simp_all add: ConfigSourceGlobal_def ConfigSourceEnv_def ConfigSourceHelm_def)

lemma compare_rows:
  assumes "distinct (map c_key (configurations_environment d))" and "distinct (map g_key (configurations_global d))"
    and "map_of (f_Values feat) key = Some v" and "v_Computed v = None"
    and "compareKeyAcrossEnvs x p pr aud io feat key envs d = Inr rows" and "env \<in> set envs"
  shows "\<exists>secret. compare_row feat key secret env (RawValueForDisplay x (pf_indent p) (fst (key_content feat key (cce_ID env) d)),
      source_text (snd (key_content feat key (cce_ID env) d))) \<in> set rows"
proof -
  have find_map: "find P (map h xs) = map_option h (find (\<lambda>x. P (h x)) xs)" for P and h :: "'x \<Rightarrow> 'y" and xs by (induction xs) auto
  obtain gs ovs where gs: "GetGlobalConfig io (f_Name feat) d = Inr gs" and ovs: "ListAllEnvConfigByFeature io (f_Name feat) d = Inr ovs"
    using assms(5) by (auto simp: compareKeyAcrossEnvs_def bindE_eq_Inr Let_def)
  have globals: "find (\<lambda>gc. conf_Key gc = key) gs = map_option globalConfigFromSQL (find (\<lambda>r. g_key r = (f_Name feat, key)) (configurations_global d))"
  proof -
    have "gs = map globalConfigFromSQL (ListGlobalConfigByFeature (f_Name feat) d)"
      using gs by (auto simp: GetGlobalConfig_def bindE_eq_Inr query_def split: if_splits)
    moreover have "find (\<lambda>r. conf_Key (globalConfigFromSQL r) = key) (ListGlobalConfigByFeature (f_Name feat) d) =
        find (\<lambda>r. g_key r = (f_Name feat, key)) (configurations_global d)"
      by (rule find_by_key [OF assms(2)]) (auto simp: ListGlobalConfigByFeature_def g_key_def globalConfigFromSQL_def)
    ultimately show ?thesis by (simp add: find_map)
  qed
  have overrides: "map_of (index_by fst (\<lambda>(env, k, content). content) (filter (\<lambda>(env, k, content). k = key) ovs)) envID =
      map_option c_Value (find (\<lambda>r. c_key r = (envID, f_Name feat, key)) (configurations_environment d))" for envID
  proof -
    let ?sel = "sort_key (\<lambda>r. (c_EnvironmentID r, c_Key r)) (filter (\<lambda>r. c_Feature r = f_Name feat) (configurations_environment d))"
    have "ovs = map (\<lambda>r. (c_EnvironmentID r, c_Key r, c_Value r)) ?sel"
      using ovs by (auto simp: ListAllEnvConfigByFeature_def query_def split: if_splits)
    then have "filter (\<lambda>(env, k, content). k = key) ovs = map (\<lambda>r. (c_EnvironmentID r, c_Key r, c_Value r)) (filter (\<lambda>r. c_Key r = key) ?sel)"
      by (simp add: filter_map comp_def)
    moreover have "find (\<lambda>r. c_EnvironmentID r = envID) (rev (filter (\<lambda>r. c_Key r = key) ?sel)) =
        find (\<lambda>r. c_key r = (envID, f_Name feat, key)) (configurations_environment d)"
      by (rule find_by_key [OF assms(1)]) (auto simp: c_key_def)
    ultimately show ?thesis by (simp add: map_of_index_by rev_map find_map option.map_comp comp_def)
  qed
  define F where "F = (\<lambda>env. compare_row feat key (case v_Config v of None \<Rightarrow> False | Some c \<Rightarrow> cfg_Secret c) env
      (case map_of (index_by fst (\<lambda>(env, k, content). content) (filter (\<lambda>(env, k, content). k = key) ovs)) (cce_ID env) of
         Some raw \<Rightarrow> (RawValueForDisplay x (pf_indent p) raw, ''env config'')
       | None \<Rightarrow> (case map_option conf_Content (find (\<lambda>gc. conf_Key gc = key) gs) of
           Some raw \<Rightarrow> (RawValueForDisplay x (pf_indent p) raw, ''global config'')
         | None \<Rightarrow> (RawValueForDisplay x (pf_indent p) (default_value feat key), ''helm value''))))"
  have "rows = sort_key (\<lambda>r. (cmp_TenantName r, cmp_EnvName r)) (map F envs)"
    using assms(3-5) by (simp add: compareKeyAcrossEnvs_def Let_def gs ovs F_def)
  then have "F env \<in> set rows" using assms(6) by simp
  moreover have "F env = compare_row feat key (case v_Config v of None \<Rightarrow> False | Some c \<Rightarrow> cfg_Secret c) env
      (RawValueForDisplay x (pf_indent p) (fst (key_content feat key (cce_ID env) d)), source_text (snd (key_content feat key (cce_ID env) d)))"
    unfolding F_def globals overrides key_content_def
    by (cases "find (\<lambda>r. c_key r = (cce_ID env, f_Name feat, key)) (configurations_environment d)";
        cases "find (\<lambda>r. g_key r = (f_Name feat, key)) (configurations_global d)")
      (simp_all add: source_text_def source_distinct globalConfigFromSQL_def)
  ultimately show ?thesis by auto
qed

text \<open>
  C25. The comparison of a key over environments agrees with the forms: for a declared key that is not computed, the comparison has a row for
  each environment, and its value and source are those of the item of that key in the configuration form of that environment, though one joins all rows of the
  key and the other merges all rows of the environment.
\<close>

theorem compare_agrees_with_forms:
  assumes "distinct (map c_key (configurations_environment d))" and "distinct (map g_key (configurations_global d))"
    and "distinct (map fst (f_Values feat))" and "map_of (f_Values feat) key = Some v" and "v_Config v \<noteq> None" and "v_Computed v = None"
    and "compareKeyAcrossEnvs x p pr aud io feat key envs d = Inr rows" and "env \<in> set envs"
    and "loadFeatureConfigItems x p aud' io feat (cce_ID env) d = Inr items"
  shows "\<exists>row \<in> set rows. cmp_TenantName row = cce_TenantName env \<and> cmp_EnvName row = cce_Name env \<and>
    (\<exists>item \<in> set items. ci_Key item = key \<and> cmp_Value row = ci_Value item \<and> cmp_Source row = source_text (ci_Source item))"
proof -
  obtain stored where stored: "GetEnvConfig io (f_Name feat) (cce_ID env) d = Inr stored"
    using assms(9) by (auto simp: loadFeatureConfigItems_def bindE_eq_Inr)
  note form = config_items_sound [OF assms(3) stored assms(9)]
  have declared: "declared_value (f_Values feat) key = Some v" using assms(4,5) by (simp add: declared_value_def is_declared_def)
  then have "key \<in> set (map ci_Key items)" using form by blast
  then obtain item where item: "item \<in> set items" "ci_Key item = key" by auto
  then have shown: "ci_Source item = conf_Source (content_row p feat stored key)"
    "ci_Value item = RawValueForDisplay x (pf_indent p) (conf_Content (content_row p feat stored key))"
    using form declared assms(6) by (auto simp: list_all_iff Let_def)
  obtain secret where row: "compare_row feat key secret env (RawValueForDisplay x (pf_indent p) (fst (key_content feat key (cce_ID env) d)),
      source_text (snd (key_content feat key (cce_ID env) d))) \<in> set rows"
    using compare_rows [OF assms(1,2,4,6,7,8)] by blast
  show ?thesis
    using row item shown content_row_key [OF assms(1,2) stored, of p key, symmetric]
    by (intro bexI [OF _ row] conjI bexI [OF _ item(1)]) (simp_all add: compare_row_def)
qed

theorem compare_agrees_with_forms_witness:
  "\<forall>pr. \<exists>rows items. compareKeyAcrossEnvs example_externals example_formats pr [] store_io example_feature ''a''
       [\<lparr>cce_ID = 1, cce_Name = ''prod'', cce_TenantName = ''acme''\<rparr>] example_db = Inr rows \<and>
     loadFeatureConfigItems example_externals example_formats [] store_io example_feature 1 example_db = Inr items \<and>
     (\<exists>row \<in> set rows. cmp_EnvName row = ''prod'' \<and> (\<exists>item \<in> set items. ci_Key item = ''a'' \<and> cmp_Value row = ci_Value item))"
proof
  fix pr
  let ?env = "\<lparr>cce_ID = 1, cce_Name = ''prod'', cce_TenantName = ''acme''\<rparr>"
  have "distinct (map c_key (configurations_environment example_db))" "distinct (map g_key (configurations_global example_db))"
    by (simp_all add: example_db_def empty_db_def)
  moreover have "distinct (map fst (f_Values example_feature))" "map_of (f_Values example_feature) ''a'' = Some required_value"
    "v_Config required_value \<noteq> None" "v_Computed required_value = None"
    by (simp_all add: example_feature_def required_value_def)
  moreover obtain rows where rows: "compareKeyAcrossEnvs example_externals example_formats pr [] store_io example_feature ''a'' [?env] example_db = Inr rows"
    by (simp add: compareKeyAcrossEnvs_def GetGlobalConfig_def ListAllEnvConfigByFeature_def query_def Let_def)
  moreover have "?env \<in> set [?env]" by simp
  moreover obtain items where items: "loadFeatureConfigItems example_externals example_formats [] store_io example_feature (cce_ID ?env) example_db = Inr items"
    by (simp add: loadFeatureConfigItems_def GetEnvConfig_def GetGlobalConfig_def query_def Let_def)
  ultimately have "\<exists>row \<in> set rows. cmp_TenantName row = cce_TenantName ?env \<and> cmp_EnvName row = cce_Name ?env \<and>
      (\<exists>item \<in> set items. ci_Key item = ''a'' \<and> cmp_Value row = ci_Value item \<and> cmp_Source row = source_text (ci_Source item))"
    by (rule compare_agrees_with_forms)
  then show "\<exists>rows items. compareKeyAcrossEnvs example_externals example_formats pr [] store_io example_feature ''a'' [?env] example_db = Inr rows \<and>
      loadFeatureConfigItems example_externals example_formats [] store_io example_feature 1 example_db = Inr items \<and>
      (\<exists>row \<in> set rows. cmp_EnvName row = ''prod'' \<and> (\<exists>item \<in> set items. ci_Key item = ''a'' \<and> cmp_Value row = ci_Value item))"
    using rows items by auto
qed

section \<open>Where secrets reach a page\<close>

text \<open>The texts of a page, without its attributes.\<close>

fun shown_texts :: "node \<Rightarrow> string list" where
  "shown_texts (El tag ns) = concat (map shown_texts ns)"
| "shown_texts (Group ns) = concat (map shown_texts ns)"
| "shown_texts (Text t) = [t]"
| "shown_texts n = []"

text \<open>The comparison knows that a key is secret, and shows its value in every environment.\<close>

lemma compare_shows_secrets:
  assumes "row \<in> set rows"
  shows "cmp_Value row \<in> set (shown_texts (configCompareFragment key feat rows))"
proof -
  have cell: "cmp_Value row \<in> set (shown_texts (ConsensusCell e [compareValueNode i (cmp_Value row)]))" for e i
    by (simp add: ConsensusCell_def compareValueNode_def Let_def)
  obtain i where "i < length rows" "rows ! i = row" using assms by (auto simp: in_set_conv_nth)
  then have "(i, row) \<in> set (enumerate 0 rows)" by (auto simp: in_set_enumerate_eq)
  then have "\<exists>tr \<in> set (configCompareRows rows). cmp_Value row \<in> set (shown_texts tr)"
    unfolding configCompareRows_def Let_def set_map by (rule bexI [rotated, OF imageI]) (use cell in auto)
  then show ?thesis using assms by (auto simp: configCompareFragment_def Let_def)
qed

text \<open>
  The masked cell of a secret that can be edited carries its value in the entries of the form; the dialog that clears an override shows the
  secret it falls back to; and a stored secret whose key is no longer declared is not taken for a secret.
\<close>

lemma bulk_cell_carries_value:
  "(BulkOrigField (ci_Key item), nl (ci_Value item)) \<in> set (form_entries nl form (BulkConfigCell x p form i item))"
  by (simp add: BulkConfigCell_def hidden_input_def control_value_def)

lemma clear_dialog_shows_fallback:
  assumes "ci_Source item = ConfigSourceEnv" and "ci_FallbackValue item \<noteq> []"
  shows "ci_FallbackValue item \<in> set (shown_texts (sourceCell x page item))"
  using assms by (simp add: sourceCell_def ConfigDeleteConfirm_def Popover_def PopoverWithHeaderActions_def fallbackValueNode_def Let_def)

lemma orphaned_secret_not_masked:
  "ConfigValueCell x p (config_item x p feat g (c, None)) = h_Td [ValueDisplay x p (RawValueForDisplay x (pf_indent p) (conf_Content c)) []]"
  by (simp add: ConfigValueCell_def) (simp add: config_item_def Let_def)

text \<open>The cells that do mask: they do not depend on the value of a secret.\<close>

lemma masked_cells:
  assumes "ci_IsSecret item"
  shows "ConfigValueCell x p (item \<lparr>ci_Value := v\<rparr>) = ConfigValueCell x p item" "ComputedValueCell (item \<lparr>ci_Value := v\<rparr>) = ComputedValueCell item"
    "bulk_display x p (item \<lparr>ci_Value := v\<rparr>) = bulk_display x p item"
  using assms by (simp_all add: ConfigValueCell_def ComputedValueCell_def bulk_display_def)

end
