(* ===== verification/Spec2Isabelle.thy ===== *)
theory Spec2Isabelle
  imports Convergence Environment_Management Helm_Values Http_Api Audit_Log Page_Writes Config_Views
begin

text \<open>
  Verification of fasit, which rolls features out to the clusters of many tenants. Fasit keeps in PostgreSQL which version of
  which feature (a Helm chart with a description of its values) is assigned to which environments; its reconciler compares that
  with what the clusters reported and publishes deploy instructions; the agent \<open>naisd\<close> in every cluster carries them out with Helm
  and reports back; the pages and services over the same tables show and change what is desired.

  \<^bold>\<open>How the parts interact.\<close> All state that outlives a process is in the tables (record \<open>db\<close>) and in the messages on their way.
  Assignments, configuration, environment values and labels are written by the stores; a reconcile cycle reads them into a
  snapshot, decides for every environment and feature, logs the decisions, publishes instructions and appends them to the
  deploy log, whose latest rows a trigger keeps; the receiver appends the agents' reports to the same log; the next cycle
  and the status pages read the latest rows. The shadow lane \<open>fasitd\<close> mirrors the instructions over a gRPC stream to a second agent.

  \<^bold>\<open>The theories.\<close>

  \<^item> \<open>Prelude\<close>: identifiers and instants, Go maps as sorted association lists with the locale \<open>finite_map\<close>, results
    with errors, \<open>DISTINCT ON\<close>, grouping and indexing of rows.
  \<^item> \<open>Domain\<close>: errors (\<open>internal/errs\<close>), environments, features, configuration rows, dynamic values.
  \<^item> \<open>Dotkeys\<close>: \<open>featureutil/dotsplit.go\<close>. \<open>SmartDotSplit\<close> is the inverse of the escaped join.
  \<^item> \<open>Config_Merge\<close>, \<open>Helm_Config\<close>, \<open>Render\<close>: \<open>feature/model.go\<close> and \<open>feature/computed.go\<close>. Overlay of configuration,
    nested Helm values, required fields, computed values, the final values.
  \<^item> \<open>Helm_Values\<close>: rendering on demand (\<open>feature/queries.go\<close>), which comes to the values the reconciler deploys.
  \<^item> \<open>Template_Parser\<close>: \<open>feature/template_parser.go\<close>, what the templates of a feature refer to.
  \<^item> \<open>Database\<close>: the tables, the two append-only logs with the triggers that keep their latest rows (locale \<open>latest_table\<close>), and
    the refinement of the \<open>DISTINCT ON\<close> view by the trigger.
  \<^item> \<open>Assignment\<close>: which assignment wins (\<open>featureassignment/queries.go\<close> and the copy in \<open>reconciler/compute.go\<close>), both instances of the
    locale \<open>winner_table\<close>.
  \<^item> \<open>Compute\<close>, \<open>Snapshot\<close>: \<open>reconciler/compute.go\<close>, \<open>model.go\<close> and \<open>fetch.go\<close>. When the reconciler deploys, skips or fails.
  \<^item> \<open>Deployer\<close>: \<open>reconciler/reconciler.go\<close>, \<open>deployer.go\<close>, \<open>multideployer.go\<close>, \<open>redeploy.go\<close>. Carrying decisions out.
  \<^item> \<open>Receiver\<close>: \<open>reconciler/receiver.go\<close> and \<open>naisdstatus\<close>, the reports of the agents.
  \<^item> \<open>Store\<close>, \<open>Config_Store\<close>, \<open>Feature_Store\<close>, \<open>Assignment_Store\<close>: transactions (\<open>dbtx\<close>), the audit log, environments, configuration,
    feature data and assignments with their statements.
  \<^item> \<open>Environment_Management\<close>: the gRPC service of the Terraform provider over its own statements.
  \<^item> \<open>Http_Api\<close>: \<open>internal/api\<close>, the endpoints of the release pipelines with their tokens, and the middleware of the pages (\<open>auth/iap.go\<close>).
  \<^item> \<open>Audit_Log\<close>: \<open>audit/queries.go\<close>, the listings of the audit log, its search, and what the pages ask it for.
  \<^item> \<open>Config_Form\<close>, \<open>Page_Writes\<close>: reading the values of forms (\<open>ui/components/config.go\<close>) and every handler of the pages that writes
    (\<open>ui/pages\<close>): configuration, the reconcile switch, redeploys, uninstalls, assignments.
  \<^item> \<open>Feature_Pages\<close>: the data behind the pages of a feature (\<open>ui/featureenvs\<close>, \<open>ui/pages/features/feature_assignments.go\<close>): the winner
    and the status that each environment shows.
  \<^item> \<open>Environment_Pages\<close>: the statements of \<open>ui/uidata\<close> and the data behind the pages of an environment (\<open>ui/pages/environment\<close>):
    the table of features, the releases, the health of the agent, the items of the configuration form.
  \<^item> \<open>Views\<close>: the nodes the pages build (\<open>ui/components\<close>, \<open>ui/breadcrumb\<close>) as trees, one definition per function, and the page of an
    environment with its handler. Secret environment values do not reach it.
  \<^item> \<open>Config_Views\<close>: the configuration forms (\<open>ui/components/config.go\<close>, \<open>ui/pages/environment/feature.go\<close>,
    \<open>ui/pages/features/feature_config.go\<close>) and the comparison of a key over environments (\<open>feature_config_compare.go\<close>), and what a browser
    submits for such a form, on which the handlers of \<open>Page_Writes\<close> work.
  \<^item> \<open>Status\<close>: \<open>reconciler/status.go\<close>, \<open>recentdeploys.go\<close>, \<open>decisionlog.go\<close>, \<open>model/model.go\<close>, the deploy history of \<open>feature/queries.go\<close>.
  \<^item> \<open>Naisd\<close>: the agent, \<open>internal/naisd\<close> and \<open>message/subscriber.go\<close>.
  \<^item> \<open>Fasitd\<close>, \<open>Fasitd_Auth\<close>: the shadow lane, its sessions as an interleaving of atomic steps (\<open>fasitd_step\<close>), and who may open one.
  \<^item> \<open>System\<close>, \<open>Convergence\<close>: the components together, as a step relation over cycles, reports, timeouts, redeploys and the
    writes of the operators.

  \<^bold>\<open>State and operations.\<close> An operation on the tables takes them to its result and the tables it leaves (type \<open>op\<close>), so what a
  failing operation leaves behind is part of the model. \<open>world\<close> adds the messages published; \<open>agent\<close> is the state of the agent;
  \<open>fasitd\<close> that of the shadow lane. Errors are values (\<open>err\<close>); a run-time panic is the error \<open>Panic\<close>.

  \<^bold>\<open>What the lemmas show.\<close> Within a component: what each operation does on every branch, what it keeps, and where two
  pieces of code that should agree do agree (the two merges, the two winner selections, batched and single status queries, pages and
  reconciler). Across components: in every reachable state of the system the tables are well formed and every deploy was published
  (\<open>every_deploy_was_published\<close>); when rendering is steady, a second cycle publishes nothing (\<open>second_cycle_publishes_nothing\<close>) and
  without operator writes reconciliation comes to rest (\<open>reconciliation_comes_to_rest\<close>); an instruction carried out by the agent comes back as a finished deploy
  (\<open>deploy_carried_out\<close>). Relations on tables that operations keep are proved in the locale \<open>db_preorder\<close>, interpreted on two relations.
  Some lemmas record behaviour that is not intended, each with the line of code where it arises.

  \<^bold>\<open>Parameters.\<close> \<open>externals\<close>: templates, JSON, YAML, SHA-256, and the order in which a map is ranged over. They are those of one operation,
  and two operations have two of them: templates can read the clock or draw random strings, which an execution (\<open>x_render\<close>) may show, and
  Go's map order (\<open>x_rank\<close>) is drawn for every range. Where a theorem compares two operations it says what it needs: \<open>same_libraries\<close> (JSON,
  YAML and SHA-256 are functions) and \<open>steady\<close> (the rendered values of a feature are the same; \<open>GenerateWith_order\<close> shows that the
  order does not matter where computed keys do not nest, \<open>GenerateWith_nested_order\<close> that it does where they do). \<open>io\<close>: the clock, fresh identifiers, which queries fail, which messages
  are accepted. \<open>decoders\<close>: the JSON of the reports. \<open>naisd_io\<close>: Helm, Kubernetes, files, the broker, and the order of the
  steps of the goroutines around the log of an instruction. \<open>auth_libs\<close> and \<open>api_libs\<close>: the OIDC and
  IAP libraries; discovery is that of one stream and may answer another stream differently, while the caches keep what the first
  one found (\<open>after_streams\<close>). \<open>page_libs\<close> and \<open>page_formats\<close>: the libraries of the pages for identifiers, addresses, JSON and local time; \<open>view_libs\<close> and \<open>print_libs\<close>: logos, runes, the formatting of instants and values. They occur as arguments of the definitions, and no theorem assumes a law of them that its statement does not show.

  \<^bold>\<open>Bounds.\<close> No definition uses fuel: the loops of the code run over finite lists and are recursions over them. Identifiers and
  instants are unbounded numbers; the narrowing of a revision to 32 bits is written out (\<open>int32\<close>), and durations are counted in
  nanoseconds without the limit of 292 years. Concurrency is modelled where the code relies on it: the sessions of the shadow
  lane, the writers and the two publishers of the agent's log (taking lines and publishing them are separate steps of \<open>activity_step\<close>),
  and the interleaving of cycles, reports and writes. Inside
  a cycle the queries of the snapshot are one atomic read, as the code does not guard against writes between them either.

  \<^bold>\<open>Not modelled.\<close> The remaining pages under \<open>internal/ui\<close>: the overview, version and assignment pages of a feature, the header and the logs of its
  page in an environment, the audit log and the lists, and the writing of nodes as HTML; template functions; start-up, routing, metrics and logging; generated protocol code; the fake agent and the local set-up;
  downloading charts.
\<close>

end
